(* ===== verification/Prelude.thy ===== *)
theory Prelude
  imports Main "HOL-Library.Word" "HOL-Library.Monad_Syntax" "HOL-Library.AList"
begin

text \<open>
  Shared vocabulary of the development: the machine types of the 32-bit ARM target, the
  collections of rewrite and introduction rules the component proofs draw on, and generic
  facts on lists, options and strings that several components need.
\<close>

section \<open>Types and collections\<close>

type_synonym u8 = "8 word"
type_synonym u16 = "16 word"
type_synonym u32 = "32 word"
type_synonym u64 = "64 word"

text \<open>
  \<open>mem_simps\<close>: evaluation of the memory operations; \<open>env_simps\<close>: the environment
  component; \<open>call_simps\<close>: traces of calls to the platform; \<open>enc_simps\<close>: the
  instruction encoders.
\<close>

named_theorems mem_simps
named_theorems env_simps
named_theorems call_simps
named_theorems enc_simps

abbreviation NUL :: char where
  "NUL \<equiv> CHR 0x00"

section \<open>Lists and strings\<close>

lemma split_at_unique:
  assumes "x \<notin> set a" and "x \<notin> set b"
  shows "a @ x # c = b @ x # d \<longleftrightarrow> a = b \<and> c = d"
  using assms
proof (induction a arbitrary: b)
  case Nil
  then show ?case by (cases b) auto
next
  case (Cons y a)
  then show ?case by (cases b) auto
qed

text \<open>A prefix that is followed by the separator is the whole part before the separator.\<close>

lemma prefix_then_sep:
  assumes "x \<notin> set n" and "x \<notin> set k"
    and "take (length n) (k @ x # w) = n"
    and "length n < length (k @ x # w)" and "(k @ x # w) ! length n = x"
  shows "k = n"
proof -
  have "k @ x # w = n @ x # drop (Suc (length n)) (k @ x # w)"
    using assms(3-5) by (metis id_take_nth_drop)
  then show ?thesis
    using assms(1,2) split_at_unique by metis
qed

lemma take_sep_eq:
  assumes "x \<notin> set n" and "x \<notin> set k"
  shows "take (Suc (length n)) (k @ x # w) = n @ [x] \<longleftrightarrow> k = n"
proof
  assume a: "take (Suc (length n)) (k @ x # w) = n @ [x]"
  then have "k @ x # w = (n @ [x]) @ drop (Suc (length n)) (k @ x # w)"
    by (metis append_take_drop_id)
  then show "k = n"
    using assms split_at_unique by (metis append.assoc append_Cons append_Nil)
qed simp

lemma list_all2_nth_eq:
  "list_all2 P xs ys \<Longrightarrow> i < length xs \<Longrightarrow> P (xs ! i) (ys ! i)"
  by (simp add: list_all2_conv_all_nth)

section \<open>Association lists\<close>

text \<open>On an association list without repeated keys, dropping the first match drops the key.\<close>

fun drop_first :: "'k \<Rightarrow> ('k \<times> 'v) list \<Rightarrow> ('k \<times> 'v) list" where
  "drop_first k [] = []"
| "drop_first k (e # es) = (if fst e = k then es else e # drop_first k es)"

lemma drop_first_delete:
  "distinct (map fst es) \<Longrightarrow> drop_first k es = AList.delete k es"
proof (induction es)
  case (Cons e es)
  then show ?case
    by (cases e) (auto simp: AList.delete_eq intro!: filter_True[symmetric] simp: image_iff)
qed simp

lemma update_absent:
  "k \<notin> set (map fst es) \<Longrightarrow> AList.update k v es = es @ [(k, v)]"
  by (induction es) auto

lemma update_at:
  "distinct (map fst es) \<Longrightarrow> i < length es \<Longrightarrow> fst (es ! i) = k
    \<Longrightarrow> AList.update k v es = es[i := (k, v)]"
proof (induction es arbitrary: i)
  case (Cons e es)
  then show ?case
    by (cases i; cases e) (auto dest: nth_mem)
qed simp

lemma map_of_at:
  "distinct (map fst es) \<Longrightarrow> i < length es \<Longrightarrow> map_of es (fst (es ! i)) = Some (snd (es ! i))"
  by (simp add: map_of_eq_Some_iff)

section \<open>Words\<close>

lemma ucast_add_low: "(ucast (t + d :: 64 word) :: 32 word) = ucast t + ucast d"
proof transfer
  fix t d :: int
  have low: "take_bit 32 (take_bit 64 x) = take_bit 32 x" for x :: int by simp
  have "take_bit 32 (take_bit 64 t + take_bit 64 d) = take_bit 32 (take_bit 32 t + take_bit 32 d)"
    using take_bit_add [of 32 "take_bit 64 t" "take_bit 64 d"] unfolding low by (rule sym)
  then show "take_bit LENGTH(32) (take_bit LENGTH(64) (t + d)) =
     take_bit LENGTH(32) (take_bit LENGTH(64) t + take_bit LENGTH(64) d)"
    by (simp add: take_bit_add)
qed

lemma sint_ucast_small:
  assumes "unat (d :: 64 word) < 2 ^ 31"
  shows "sint (ucast d :: 32 word) = int (unat d)"
proof -
  have "int (unat d) < int (2 ^ 31)" using assms by (simp only: of_nat_less_iff)
  then have u: "uint d < 2 ^ 31" by simp
  have "uint (ucast d :: 32 word) = take_bit 32 (uint d)"
    by (simp add: unsigned_ucast_eq)
  also have "\<dots> = uint d"
    using u by (subst take_bit_int_eq_self) auto
  finally have "sint (ucast d :: 32 word) = signed_take_bit 31 (uint d)"
    unfolding sint_uint by simp
  also have "\<dots> = uint d"
    using u by (intro signed_take_bit_int_eq_self) (simp_all add: order_trans [OF _ uint_ge_0])
  finally show ?thesis by simp
qed

lemma unat_of_char [simp]: "unat (of_nat (of_char c) :: 16 word) = of_char c"
proof -
  have "of_char c < (65536 :: nat)" by (rule less_trans [OF nat_of_char_less_256]) simp
  then show ?thesis by (simp add: unat_of_nat)
qed

unbundle bit_operations_syntax

lemma ucast_low_half: "(ucast (x AND 0xffffffff) :: 32 word) = ucast (x :: 64 word)"
proof -
  have "(0xffffffff :: 64 word) = mask 32" by (simp add: mask_eq_exp_minus_1)
  then have "x AND 0xffffffff = take_bit 32 x" by (simp add: take_bit_eq_mask)
  then show ?thesis by simp (transfer, simp)
qed

text \<open>The size of a number and its bits.\<close>

lemma bit_below_exp: "(\<And>j. k \<le> j \<Longrightarrow> \<not> bit (m :: nat) j) \<Longrightarrow> m < 2 ^ k"
  by (rule ccontr) (metis bit_take_bit_iff linorder_not_less bit_eq_iff take_bit_nat_less_exp)

lemma bit_at_exp: "bit (m :: nat) k \<Longrightarrow> 2 ^ k \<le> m"
  by (rule ccontr) (simp add: bit_iff_odd)

lemma bit_unat_exp: "bit (x :: 'a :: len word) k \<Longrightarrow> 2 ^ k \<le> unat x"
  by (rule bit_at_exp) (simp add: bit_unsigned_iff)

text \<open>The measure of a loop that counts up to a bound.\<close>

lemma unat_plus_one:
  assumes "(a :: 'a :: len word) < b"
  shows "unat (a + 1) = unat a + 1"
proof -
  have "unat a + 1 < 2 ^ LENGTH('a)" 
    by (rule le_less_trans [OF _ unsigned_less [of b]]) (use assms in \<open>simp add: word_less_nat_alt\<close>)
  then show ?thesis using unat_add_lem [of a 1] by simp
qed

lemma word_count_up: "(a :: 'a :: len word) < b \<Longrightarrow> unat b - unat (a + 1) < unat b - unat a"
  by (simp add: unat_plus_one word_less_nat_alt diff_less_mono2)

lemma unat_of_nat_u32: "n < 2 ^ 32 \<Longrightarrow> unat (of_nat n :: u32) = n"
  by (simp add: unat_of_nat)

lemma unat_u32_less: "unat (x :: u32) < 2 ^ 32"
proof -
  have "unat x < 2 ^ LENGTH(32)" by (rule unsigned_less)
  then show ?thesis by simp
qed

lemma sint_small:
  assumes "-2147483648 \<le> k" "k < 2147483648"
  shows "sint (word_of_int k :: u32) = k"
  using assms by (simp add: sint_sbintrunc' signed_take_bit_int_eq_self)

section \<open>Comparison functions\<close>

text \<open>A comparison that is consistent: never greater both ways, and transitive.\<close>

definition consistent :: "('a \<Rightarrow> 'a \<Rightarrow> int) \<Rightarrow> bool" where
  "consistent f \<longleftrightarrow> (\<forall>x y. f x y > 0 \<longrightarrow> f y x \<le> 0) \<and> (\<forall>x y z. f x y \<le> 0 \<longrightarrow> f y z \<le> 0 \<longrightarrow> f x z \<le> 0)"

lemma consistent_refl: "consistent f \<Longrightarrow> f x x \<le> 0"
  unfolding consistent_def by (meson linorder_not_le)

lemma consistent_total: "\<lbrakk>consistent f; f x y > 0\<rbrakk> \<Longrightarrow> f y x \<le> 0"
  by (simp add: consistent_def)

lemma consistent_trans: "\<lbrakk>consistent f; f x y \<le> 0; f y z \<le> 0\<rbrakk> \<Longrightarrow> f x z \<le> 0"
  unfolding consistent_def by blast

end
