(* ===== verification/CMem.thy ===== *)
theory CMem
  imports Prelude
begin

text \<open>
  The part of C the loader's environment code runs on: a store of heap blocks, pointers into
  them, the allocator, and the string functions of \<open>string.h\<close> and \<open>stdio.h\<close> that
  the source calls. Every operation answers \<open>None\<close> where C has undefined behaviour (a read
  or write outside a live block, a read of an uninitialised byte, a \<open>free\<close> of something
  that is not the start of a live \<open>malloc\<close> block), so a theorem that an operation returns
  \<open>Some\<close> is a memory-safety theorem. \<open>size_t\<close> has 32 bits, a pointer 4 bytes.
\<close>

section \<open>Pointers, blocks and memory\<close>

text \<open>A pointer is null, or a block with an offset counted in elements of the block.\<close>

datatype ptr = NULL | Ptr (blk: nat) (off: nat)

text \<open>
  A block holds bytes or pointers; \<open>None\<close> is an element never written. Blocks belong to
  the C library's allocator, to the allocator of the runtime's bridge library (the buffers
  the runtime hands out), or to no allocator (literals, storage of the caller).
\<close>

datatype block = Bytes "char option list" | Cells "ptr option list"

datatype arena = Libc | Bridge | Fixed

text \<open>
  \<open>brk\<close> is the next block never used, \<open>tick\<close> counts allocation requests, and
  \<open>oom t n\<close> says whether request number \<open>t\<close>, for \<open>n\<close> bytes, fails.
\<close>

record mem =
  heap :: "nat \<Rightarrow> (arena \<times> block) option"
  brk :: nat
  tick :: nat
  oom :: "nat \<Rightarrow> nat \<Rightarrow> bool"

definition mem_ok :: "'a mem_scheme \<Rightarrow> bool" where
  "mem_ok m \<longleftrightarrow> (\<forall>b \<ge> brk m. heap m b = None)"

definition size_t :: "nat \<Rightarrow> nat" where
  "size_t n = n mod 2 ^ 32"

fun ptr_add :: "ptr \<Rightarrow> nat \<Rightarrow> ptr" where
  "ptr_add NULL n = NULL"
| "ptr_add (Ptr b i) n = Ptr b (i + n)"

section \<open>The allocator\<close>

definition alloc :: "arena \<Rightarrow> block \<Rightarrow> nat \<Rightarrow> 'a mem_scheme \<Rightarrow> ptr \<times> 'a mem_scheme" where
  "alloc a x n m =
     (if oom m (tick m) n then (NULL, m\<lparr>tick := Suc (tick m)\<rparr>)
      else (Ptr (brk m) 0,
            m\<lparr>heap := (heap m)(brk m \<mapsto> (a, x)), brk := Suc (brk m), tick := Suc (tick m)\<rparr>))"

definition c_malloc :: "nat \<Rightarrow> 'a mem_scheme \<Rightarrow> ptr \<times> 'a mem_scheme" where
  "c_malloc n m = alloc Libc (Bytes (replicate n None)) n m"

definition free_in :: "arena \<Rightarrow> ptr \<Rightarrow> 'a mem_scheme \<Rightarrow> 'a mem_scheme option" where
  "free_in a p m =
     (case p of
        NULL \<Rightarrow> Some m
      | Ptr b i \<Rightarrow>
          (case heap m b of
             Some (a', x) \<Rightarrow>
               if a' = a \<and> i = 0 then Some (m\<lparr>heap := (heap m)(b := None)\<rparr>) else None
           | None \<Rightarrow> None))"

abbreviation c_free :: "ptr \<Rightarrow> 'a mem_scheme \<Rightarrow> 'a mem_scheme option" where
  "c_free \<equiv> free_in Libc"

text \<open>
  \<open>realloc\<close> of an array of pointers, \<open>n\<close> the new size in bytes: the old contents up
  to the smaller size, the rest uninitialised, always at a new address (the worst case for
  pointers into the old block). On failure the old block stays.
\<close>

definition c_realloc :: "ptr \<Rightarrow> nat \<Rightarrow> 'a mem_scheme \<Rightarrow> (ptr \<times> 'a mem_scheme) option" where
  "c_realloc p n m =
     (case p of
        NULL \<Rightarrow> Some (alloc Libc (Cells (replicate (n div 4) None)) n m)
      | Ptr b i \<Rightarrow>
          (case heap m b of
             Some (Libc, Cells cs) \<Rightarrow>
               if i \<noteq> 0 then None
               else (case alloc Libc (Cells (take (n div 4) (cs @ replicate (n div 4) None))) n m of
                       (NULL, m') \<Rightarrow> Some (NULL, m')
                     | (q, m') \<Rightarrow> Some (q, m'\<lparr>heap := (heap m')(b := None)\<rparr>))
           | _ \<Rightarrow> None))"

section \<open>Reads and writes\<close>

definition rd_bytes :: "'a mem_scheme \<Rightarrow> ptr \<Rightarrow> char option list option" where
  "rd_bytes m p =
     (case p of
        NULL \<Rightarrow> None
      | Ptr b i \<Rightarrow>
          (case heap m b of
             Some (_, Bytes bs) \<Rightarrow> if i \<le> length bs then Some (drop i bs) else None
           | _ \<Rightarrow> None))"

definition rd_byte :: "'a mem_scheme \<Rightarrow> ptr \<Rightarrow> char option" where
  "rd_byte m p =
     (case rd_bytes m p of Some (Some c # _) \<Rightarrow> Some c | _ \<Rightarrow> None)"

definition cells_len :: "'a mem_scheme \<Rightarrow> ptr \<Rightarrow> nat" where
  "cells_len m p =
     (case p of
        NULL \<Rightarrow> 0
      | Ptr b i \<Rightarrow> (case heap m b of Some (_, Cells cs) \<Rightarrow> length cs - i | _ \<Rightarrow> 0))"

definition rd_cell :: "'a mem_scheme \<Rightarrow> ptr \<Rightarrow> nat \<Rightarrow> ptr option" where
  "rd_cell m p k =
     (case p of
        NULL \<Rightarrow> None
      | Ptr b i \<Rightarrow>
          (case heap m b of
             Some (_, Cells cs) \<Rightarrow> if i + k < length cs then cs ! (i + k) else None
           | _ \<Rightarrow> None))"

definition wr_cell :: "ptr \<Rightarrow> nat \<Rightarrow> ptr \<Rightarrow> 'a mem_scheme \<Rightarrow> 'a mem_scheme option" where
  "wr_cell p k v m =
     (case p of
        NULL \<Rightarrow> None
      | Ptr b i \<Rightarrow>
          (case heap m b of
             Some (a, Cells cs) \<Rightarrow>
               if i + k < length cs
               then Some (m\<lparr>heap := (heap m)(b \<mapsto> (a, Cells (cs[i + k := Some v])))\<rparr>)
               else None
           | _ \<Rightarrow> None))"

definition wr_bytes :: "ptr \<Rightarrow> string \<Rightarrow> 'a mem_scheme \<Rightarrow> 'a mem_scheme option" where
  "wr_bytes p s m =
     (case p of
        NULL \<Rightarrow> None
      | Ptr b i \<Rightarrow>
          (case heap m b of
             Some (a, Bytes bs) \<Rightarrow>
               if i + length s \<le> length bs
               then Some (m\<lparr>heap := (heap m)(b \<mapsto>
                      (a, Bytes (take i bs @ List.map Some s @ drop (i + length s) bs)))\<rparr>)
               else None
           | _ \<Rightarrow> None))"

section \<open>String functions\<close>

text \<open>A scan runs over the bytes from a pointer to the end of its block.\<close>

fun scan_string :: "char option list \<Rightarrow> string option" where
  "scan_string (Some c # cs) = (if c = NUL then Some [] else map_option (Cons c) (scan_string cs))"
| "scan_string _ = None"

fun scan_strncmp :: "char option list \<Rightarrow> char option list \<Rightarrow> nat \<Rightarrow> int option" where
  "scan_strncmp _ _ 0 = Some 0"
| "scan_strncmp (Some x # xs) (Some y # ys) (Suc n) =
     (if x \<noteq> y then Some (int (of_char x) - int (of_char y))
      else if x = NUL then Some 0 else scan_strncmp xs ys n)"
| "scan_strncmp _ _ (Suc n) = None"

fun index_of :: "char \<Rightarrow> string \<Rightarrow> nat option" where
  "index_of c [] = None"
| "index_of c (x # xs) = (if x = c then Some 0 else map_option Suc (index_of c xs))"

definition c_string :: "'a mem_scheme \<Rightarrow> ptr \<Rightarrow> string option" where
  "c_string m p = do { bs \<leftarrow> rd_bytes m p; scan_string bs }"

definition c_strlen :: "'a mem_scheme \<Rightarrow> ptr \<Rightarrow> nat option" where
  "c_strlen m p = map_option length (c_string m p)"

definition c_strncmp :: "'a mem_scheme \<Rightarrow> ptr \<Rightarrow> ptr \<Rightarrow> nat \<Rightarrow> int option" where
  "c_strncmp m p q n = do { xs \<leftarrow> rd_bytes m p; ys \<leftarrow> rd_bytes m q; scan_strncmp xs ys n }"

definition c_strchr :: "'a mem_scheme \<Rightarrow> ptr \<Rightarrow> char \<Rightarrow> ptr option" where
  "c_strchr m p c = do {
     s \<leftarrow> c_string m p;
     Some (case index_of c s of None \<Rightarrow> NULL | Some i \<Rightarrow> ptr_add p i) }"

text \<open>\<open>snprintf (buf, n, "%s=%s", name, val)\<close>: at most \<open>n\<close> bytes, the terminator included.\<close>

definition c_snprintf_eq :: "ptr \<Rightarrow> nat \<Rightarrow> ptr \<Rightarrow> ptr \<Rightarrow> 'a mem_scheme \<Rightarrow> 'a mem_scheme option" where
  "c_snprintf_eq buf n name val m = do {
     a \<leftarrow> c_string m name;
     b \<leftarrow> c_string m val;
     if n = 0 then Some m else wr_bytes buf (take (n - 1) (a @ ''='' @ b) @ [NUL]) m }"

section \<open>Strings in memory\<close>

definition terminated :: "string \<Rightarrow> char option list" where
  "terminated s = List.map Some (s @ [NUL])"

text \<open>\<open>cstr_at m p s\<close>: the terminated string \<open>s\<close> starts at \<open>p\<close>.\<close>

definition cstr_at :: "'a mem_scheme \<Rightarrow> ptr \<Rightarrow> string \<Rightarrow> bool" where
  "cstr_at m p s \<longleftrightarrow> NUL \<notin> set s \<and>
     (case rd_bytes m p of
        Some bs \<Rightarrow> take (Suc (length s)) bs = terminated s
      | None \<Rightarrow> False)"

lemma cstr_atE:
  assumes "cstr_at m p s"
  obtains r where "rd_bytes m p = Some (terminated s @ r)" and "NUL \<notin> set s"
proof -
  from assms obtain bs where bs: "rd_bytes m p = Some bs" "take (Suc (length s)) bs = terminated s"
    and s: "NUL \<notin> set s"
    by (auto simp: cstr_at_def split: option.splits)
  have "bs = terminated s @ drop (Suc (length s)) bs"
    using bs(2) append_take_drop_id[of "Suc (length s)" bs] by simp
  with bs(1) s that show thesis by metis
qed

lemma length_terminated [simp]: "length (terminated s) = Suc (length s)"
  by (simp add: terminated_def)

lemma cstr_atI:
  "rd_bytes m p = Some (terminated s @ r) \<Longrightarrow> NUL \<notin> set s \<Longrightarrow> cstr_at m p s"
  by (simp add: cstr_at_def)

lemma scan_string_terminated: "NUL \<notin> set s \<Longrightarrow> scan_string (terminated s @ r) = Some s"
  by (induction s) (auto simp: terminated_def)

lemma c_string_at [mem_simps]: "cstr_at m p s \<Longrightarrow> c_string m p = Some s"
  by (auto elim!: cstr_atE simp: c_string_def scan_string_terminated)

lemma c_strlen_at [mem_simps]: "cstr_at m p s \<Longrightarrow> c_strlen m p = Some (length s)"
  by (simp add: c_strlen_def c_string_at)

lemma index_of_None: "index_of c s = None \<longleftrightarrow> c \<notin> set s"
  by (induction s) auto

lemma c_strchr_at:
  "cstr_at m p s \<Longrightarrow> p \<noteq> NULL \<Longrightarrow>
     \<exists>q. c_strchr m p c = Some q \<and> (q = NULL \<longleftrightarrow> c \<notin> set s)"
  by (cases p) (auto simp: c_strchr_def c_string_at index_of_None[symmetric] split: option.splits)

lemma rd_byte_at:
  assumes "cstr_at m p s" and "i \<le> length s"
  shows "rd_byte m (ptr_add p i) = Some ((s @ [NUL]) ! i)"
proof -
  from assms(1) obtain r where r: "rd_bytes m p = Some (terminated s @ r)"
    by (rule cstr_atE)
  then obtain b k where p: "p = Ptr b k"
    by (cases p) (auto simp: rd_bytes_def)
  from r obtain a bs where h: "heap m b = Some (a, Bytes bs)" and k: "k \<le> length bs"
      "drop k bs = terminated s @ r"
    by (auto simp: rd_bytes_def p split: option.splits block.splits if_splits)
  have len: "length bs = k + length (terminated s @ r)"
    using k by (metis length_drop le_add_diff_inverse)
  have "drop (k + i) bs = drop i (terminated s @ r)"
    using k(2) by (metis add.commute drop_drop)
  then have rd: "rd_bytes m (ptr_add p i) = Some (drop i (terminated s @ r))"
    using h len assms(2) by (simp add: rd_bytes_def p)
  have "i < length (terminated s @ r)" using assms(2) by simp
  then have "drop i (terminated s @ r) = (terminated s @ r) ! i # drop (Suc i) (terminated s @ r)"
    by (rule Cons_nth_drop_Suc[symmetric])
  moreover have "(terminated s @ r) ! i = Some ((s @ [NUL]) ! i)"
    using assms(2) by (simp add: terminated_def nth_append split: if_splits)
  ultimately show ?thesis
    unfolding rd_byte_def rd by simp
qed

lemma rd_byte_first:
  "cstr_at m p s \<Longrightarrow> rd_byte m p = Some (case s of [] \<Rightarrow> NUL | c # _ \<Rightarrow> c)"
  using rd_byte_at[of m p s 0] by (cases p) (auto split: list.splits simp: rd_byte_def rd_bytes_def)

lemma of_char_0_iff: "of_char c = (0 :: nat) \<longleftrightarrow> c = NUL"
  using of_char_eq_iff[of c NUL, where ?'a = nat] by simp

lemma scan_strncmp_terminated:
  "NUL \<notin> set s \<Longrightarrow> NUL \<notin> set t \<Longrightarrow>
     \<exists>c. scan_strncmp (terminated s @ r) (terminated t @ q) n = Some c \<and>
         (c = 0 \<longleftrightarrow> take n (s @ [NUL]) = take n (t @ [NUL]))"
proof (induction n arbitrary: s t)
  case (Suc n)
  show ?case
  proof (cases s; cases t)
    fix x xs y ys
    assume st: "s = x # xs" "t = y # ys"
    show ?thesis
      using Suc.IH[of xs ys] Suc.prems st by (auto simp: terminated_def)
  qed (use Suc.prems in \<open>auto simp: terminated_def of_char_0_iff\<close>)
qed simp

text \<open>\<open>strncmp\<close> on two strings in memory compares their first \<open>n\<close> bytes.\<close>

lemma c_strncmp_at:
  assumes "cstr_at m p s" and "cstr_at m q t"
  obtains c where "c_strncmp m p q n = Some c"
    and "c = 0 \<longleftrightarrow> take n (s @ [NUL]) = take n (t @ [NUL])"
proof -
  from assms(1) obtain r where p: "rd_bytes m p = Some (terminated s @ r)" "NUL \<notin> set s"
    by (rule cstr_atE)
  from assms(2) obtain r' where q: "rd_bytes m q = Some (terminated t @ r')" "NUL \<notin> set t"
    by (rule cstr_atE)
  show thesis
    using scan_strncmp_terminated[OF p(2) q(2), of r r' n] that p q
    by (auto simp: c_strncmp_def)
qed

end
