(* ===== verification/Environment.thy ===== *)
theory Environment
  imports CMem
begin

text \<open>
  The process environment, \<open>VMLCoreAssemblies/environment.c\<close>: a null-terminated array of
  pointers to \<open>NAME=VALUE\<close> strings, searched linearly, grown with \<open>realloc\<close> and
  compacted on removal. The state is the memory together with the static variable
  \<open>VML_env\<close>. An operation answers \<open>None\<close> for undefined behaviour. The debug log
  macros are left out: they only read their arguments.
\<close>

section \<open>State and operations\<close>

record env_state = mem +
  VML_env :: ptr

text \<open>\<open>!name || *name == 0 || strchr(name, '=') != NULL\<close>, left to right.\<close>

definition bad_name :: "'a mem_scheme \<Rightarrow> ptr \<Rightarrow> bool option" where
  "bad_name s name =
     (if name = NULL then Some True
      else do {
        c \<leftarrow> rd_byte s name;
        if c = NUL then Some True
        else do { q \<leftarrow> c_strchr s name (CHR ''=''); Some (q \<noteq> NULL) } })"

lemma rd_cell_len: "rd_cell s arr i = Some e \<Longrightarrow> i < cells_len s arr"
  by (auto simp: rd_cell_def cells_len_def split: ptr.splits option.splits block.splits if_splits)

lemma wr_cell_len [simp]:
  "wr_cell p k v s = Some s' \<Longrightarrow> cells_len s' q = cells_len s q"
  by (auto simp: wr_cell_def cells_len_def split: ptr.splits option.splits block.splits if_splits)

text \<open>The search loop of \<open>VMLGetEnv\<close>; \<open>val\<close> is the local variable \<open>value\<close>.\<close>

function getenv_loop :: "'a mem_scheme \<Rightarrow> ptr \<Rightarrow> ptr \<Rightarrow> nat \<Rightarrow> nat \<Rightarrow> ptr \<Rightarrow> ptr option" where
  "getenv_loop s arr name len i val = do {
     e \<leftarrow> rd_cell s arr i;
     if e \<noteq> NULL \<and> val = NULL then do {
       c \<leftarrow> c_strncmp s e name len;
       val' \<leftarrow> (if c = 0 then do {
                   b \<leftarrow> rd_byte s (ptr_add e len);
                   Some (if b = CHR ''='' then ptr_add e (len + 1) else val) }
               else Some val);
       getenv_loop s arr name len (Suc i) val' }
     else Some val }"
  by pat_completeness auto
termination
  by (relation "measure (\<lambda>(s, arr, name, len, i, val). cells_len s arr - i)")
     (auto dest: rd_cell_len)

definition VMLGetEnv :: "ptr \<Rightarrow> 'a env_state_scheme \<Rightarrow> ptr option" where
  "VMLGetEnv name s = do {
     bad \<leftarrow> bad_name s name;
     if bad then Some NULL
     else if VML_env s \<noteq> NULL then do {
       len \<leftarrow> c_strlen s name;
       getenv_loop s (VML_env s) name len 0 NULL }
     else Some NULL }"

text \<open>The search loop of \<open>VMLSetEnv\<close>: the index where it stops.\<close>

function setenv_loop :: "'a mem_scheme \<Rightarrow> ptr \<Rightarrow> ptr \<Rightarrow> nat \<Rightarrow> nat \<Rightarrow> nat option" where
  "setenv_loop s arr name len i = do {
     e \<leftarrow> rd_cell s arr i;
     if e \<noteq> NULL then do {
       c \<leftarrow> c_strncmp s e name len;
       if c = 0 then Some i else setenv_loop s arr name len (Suc i) }
     else Some i }"
  by pat_completeness auto
termination
  by (relation "measure (\<lambda>(s, arr, name, len, i). cells_len s arr - i)")
     (auto dest: rd_cell_len)

text \<open>
  The tail of \<open>VMLSetEnv\<close> once the new string \<open>nv\<close> is built: \<open>i\<close> is where the
  search stopped (0 without an array). The result is 0 or \<open>-1\<close>.
\<close>

definition setenv_store :: "ptr \<Rightarrow> nat \<Rightarrow> 'a env_state_scheme \<Rightarrow> (int \<times> 'a env_state_scheme) option" where
  "setenv_store nv i s = do {
     e \<leftarrow> (if VML_env s \<noteq> NULL then rd_cell s (VML_env s) i else Some NULL);
     if e \<noteq> NULL then do {
       s \<leftarrow> c_free e s;
       s \<leftarrow> wr_cell (VML_env s) i nv s;
       Some (0, s) }
     else do {
       (new_env, s) \<leftarrow> c_realloc (VML_env s) (size_t ((i + 2) * 4)) s;
       if new_env \<noteq> NULL then do {
         s \<leftarrow> Some (s\<lparr>VML_env := new_env\<rparr>);
         s \<leftarrow> wr_cell (VML_env s) i nv s;
         s \<leftarrow> wr_cell (VML_env s) (i + 1) NULL s;
         Some (0, s) }
       else do {
         s \<leftarrow> c_free nv s;
         Some (- 1, s) } } }"

definition VMLSetEnv ::
  "ptr \<Rightarrow> ptr \<Rightarrow> int \<Rightarrow> 'a env_state_scheme \<Rightarrow> (int \<times> 'a env_state_scheme) option" where
  "VMLSetEnv name val overwrite s = do {
     bad \<leftarrow> bad_name s name;
     if bad \<or> val = NULL then Some (- 1, s)
     else do {
       old \<leftarrow> (if overwrite = 0 then VMLGetEnv name s else Some NULL);
       if old \<noteq> NULL then Some (0, s)
       else do {
         ln \<leftarrow> c_strlen s name;
         lv \<leftarrow> c_strlen s val;
         let len = size_t (ln + lv + 2);
         (nv, s) \<leftarrow> Some (c_malloc len s);
         if nv = NULL then Some (- 1, s)
         else do {
           s \<leftarrow> c_snprintf_eq nv len name val s;
           ln' \<leftarrow> c_strlen s name;
           let vp = ptr_add nv (ln' + 1);
           let klen = off vp - off nv;
           i \<leftarrow> (if VML_env s \<noteq> NULL then setenv_loop s (VML_env s) nv klen 0 else Some 0);
           setenv_store nv i s } } } }"

text \<open>The two loops of \<open>VMLUnsetEnv\<close>: closing the gap, and finding the entry.\<close>

function shift_loop :: "ptr \<Rightarrow> nat \<Rightarrow> 'a mem_scheme \<Rightarrow> 'a mem_scheme option" where
  "shift_loop arr j s = do {
     e \<leftarrow> rd_cell s arr j;
     if e \<noteq> NULL then do {
       n \<leftarrow> rd_cell s arr (j + 1);
       s' \<leftarrow> wr_cell arr j n s;
       shift_loop arr (Suc j) s' }
     else Some s }"
  by pat_completeness auto
termination
  by (relation "measure (\<lambda>(arr, j, s). cells_len s arr - j)")
     (auto dest: rd_cell_len)

function unsetenv_loop ::
  "ptr \<Rightarrow> nat \<Rightarrow> nat \<Rightarrow> 'a env_state_scheme \<Rightarrow> (int \<times> 'a env_state_scheme) option" where
  "unsetenv_loop name len i s = do {
     e \<leftarrow> rd_cell s (VML_env s) i;
     if e \<noteq> NULL then do {
       c \<leftarrow> c_strncmp s e name len;
       hit \<leftarrow> (if c = 0 then do { b \<leftarrow> rd_byte s (ptr_add e len); Some (b = CHR ''='') }
              else Some False);
       if hit then do {
         s' \<leftarrow> c_free e s;
         s' \<leftarrow> shift_loop (VML_env s') i s';
         Some (0, s') }
       else unsetenv_loop name len (Suc i) s }
     else Some (- 1, s) }"
  by pat_completeness auto
termination
  by (relation "measure (\<lambda>(name, len, i, s). cells_len s (VML_env s) - i)")
     (auto dest: rd_cell_len)

definition VMLUnsetEnv :: "ptr \<Rightarrow> 'a env_state_scheme \<Rightarrow> (int \<times> 'a env_state_scheme) option" where
  "VMLUnsetEnv name s = do {
     bad \<leftarrow> bad_name s name;
     if bad then Some (- 1, s)
     else do {
       len \<leftarrow> c_strlen s name;
       if VML_env s \<noteq> NULL then unsetenv_loop name len 0 s else Some (- 1, s) } }"

text \<open>The C library names, which forward to the functions above.\<close>

definition getenv :: "ptr \<Rightarrow> 'a env_state_scheme \<Rightarrow> ptr option" where
  "getenv name s = VMLGetEnv name s"

definition setenv ::
  "ptr \<Rightarrow> ptr \<Rightarrow> int \<Rightarrow> 'a env_state_scheme \<Rightarrow> (int \<times> 'a env_state_scheme) option" where
  "setenv name val overwrite s = VMLSetEnv name val overwrite s"

definition unsetenv :: "ptr \<Rightarrow> 'a env_state_scheme \<Rightarrow> (int \<times> 'a env_state_scheme) option" where
  "unsetenv name s = VMLUnsetEnv name s"

declare getenv_loop.simps [simp del] setenv_loop.simps [simp del]
  shift_loop.simps [simp del] unsetenv_loop.simps [simp del]

end
