(* ===== verification/EnvRefine.thy ===== *)
theory EnvRefine
  imports Environment
begin

text \<open>
  What the environment promises: a finite map from valid names to values. An association
  list is the abstract state; \<open>env_rep\<close> says that the array and the strings in memory hold
  it. The lemmas follow the operations: the search loops, the two ways of storing a new
  string, the removal loop, and then each entry point against its abstract operation. The
  equation on \<open>outside\<close> states frame and ownership at once: nothing that the environment
  does not own changes, and every block that it drops is freed.
\<close>

section \<open>Abstract state and representation\<close>

definition valid_name :: "string \<Rightarrow> bool" where
  "valid_name n \<longleftrightarrow> n \<noteq> [] \<and> CHR ''='' \<notin> set n \<and> NUL \<notin> set n"

definition wf_entries :: "(string \<times> string) list \<Rightarrow> bool" where
  "wf_entries es \<longleftrightarrow> distinct (map fst es) \<and> (\<forall>e \<in> set es. valid_name (fst e) \<and> NUL \<notin> set (snd e))"

definition entry_text :: "string \<times> string \<Rightarrow> string" where
  "entry_text e = fst e @ CHR ''='' # snd e"

definition entry_at :: "'a mem_scheme \<Rightarrow> nat \<Rightarrow> string \<times> string \<Rightarrow> bool" where
  "entry_at s b e \<longleftrightarrow> heap s b = Some (Libc, Bytes (terminated (entry_text e)))"

definition array_at :: "'a mem_scheme \<Rightarrow> ptr \<Rightarrow> nat list \<Rightarrow> bool" where
  "array_at s p ids \<longleftrightarrow>
     (case p of
        NULL \<Rightarrow> ids = []
      | Ptr b k \<Rightarrow> k = 0 \<and> b \<notin> set ids \<and>
          (case heap s b of
             Some (Libc, Cells cs) \<Rightarrow>
               take (Suc (length ids)) cs = map (\<lambda>i. Some (Ptr i 0)) ids @ [Some NULL]
           | _ \<Rightarrow> False))"

definition env_rep :: "'a env_state_scheme \<Rightarrow> nat list \<Rightarrow> (string \<times> string) list \<Rightarrow> bool" where
  "env_rep s ids es \<longleftrightarrow>
     wf_entries es \<and> distinct ids \<and> list_all2 (entry_at s) ids es \<and> array_at s (VML_env s) ids"

text \<open>The blocks the environment owns, and the rest of the store.\<close>

definition owned :: "'a env_state_scheme \<Rightarrow> nat list \<Rightarrow> nat set" where
  "owned s ids = set ids \<union> (case VML_env s of NULL \<Rightarrow> {} | Ptr b _ \<Rightarrow> {b})"

definition outside :: "'a env_state_scheme \<Rightarrow> nat list \<Rightarrow> (nat \<Rightarrow> (arena \<times> block) option)" where
  "outside s ids = heap s |` (- owned s ids)"

fun key_index :: "string \<Rightarrow> (string \<times> string) list \<Rightarrow> nat" where
  "key_index n [] = 0"
| "key_index n (e # es) = (if fst e = n then 0 else Suc (key_index n es))"

fun entry_ptr :: "string \<Rightarrow> nat list \<Rightarrow> (string \<times> string) list \<Rightarrow> ptr" where
  "entry_ptr n (b # ids) (e # es) =
     (if fst e = n then Ptr b (length n + 1) else entry_ptr n ids es)"
| "entry_ptr n _ _ = NULL"

lemma key_index_le: "key_index n es \<le> length es"
  by (induction es) auto

lemma key_index_less: "key_index n es < length es \<longleftrightarrow> n \<in> set (map fst es)"
  by (induction es) auto

lemma key_index_key: "n \<in> set (map fst es) \<Longrightarrow> fst (es ! key_index n es) = n"
  by (induction es) auto

lemma entry_ptr_index:
  "length ids = length es \<Longrightarrow>
     entry_ptr n ids es =
       (if n \<in> set (map fst es) then Ptr (ids ! key_index n es) (length n + 1) else NULL)"
  by (induction ids es rule: list_induct2) auto

section \<open>Reading the representation\<close>

lemma env_rep_length: "env_rep s ids es \<Longrightarrow> length ids = length es"
  by (auto simp: env_rep_def dest: list_all2_lengthD)

lemma env_rep_cells:
  assumes "env_rep s ids es" and "VML_env s \<noteq> NULL"
  obtains b cs where "VML_env s = Ptr b 0" and "b \<notin> set ids" and "heap s b = Some (Libc, Cells cs)"
    and "take (Suc (length ids)) cs = map (\<lambda>i. Some (Ptr i 0)) ids @ [Some NULL]"
    and "length ids < length cs"
proof -
  from assms obtain b cs where *: "VML_env s = Ptr b 0" "b \<notin> set ids"
      "heap s b = Some (Libc, Cells cs)"
      "take (Suc (length ids)) cs = map (\<lambda>i. Some (Ptr i 0)) ids @ [Some NULL]"
    by (auto simp: env_rep_def array_at_def
        split: ptr.split_asm option.split_asm prod.split_asm arena.split_asm block.split_asm)
  from *(4) have "length (take (Suc (length ids)) cs) = Suc (length ids)" by simp
  then have "length ids < length cs" by simp
  with * that show thesis by blast
qed

lemma env_rep_cell:
  assumes "env_rep s ids es" and "VML_env s \<noteq> NULL" and "i \<le> length es"
  shows "rd_cell s (VML_env s) i = Some (if i < length es then Ptr (ids ! i) 0 else NULL)"
proof -
  from assms(1,2) obtain b cs where *: "VML_env s = Ptr b 0" "heap s b = Some (Libc, Cells cs)"
      "take (Suc (length ids)) cs = map (\<lambda>i. Some (Ptr i 0)) ids @ [Some NULL]"
      "length ids < length cs"
    by (rule env_rep_cells)
  have len: "length ids = length es" using assms(1) by (rule env_rep_length)
  have "cs ! i = take (Suc (length ids)) cs ! i" using assms(3) len by simp
  also have "\<dots> = Some (if i < length es then Ptr (ids ! i) 0 else NULL)"
    using assms(3) len unfolding *(3) by (auto simp: nth_append)
  finally show ?thesis
    using * assms(3) len by (simp add: rd_cell_def)
qed

lemma entry_at_cstr:
  assumes "entry_at s b e" and "valid_name (fst e)" and "NUL \<notin> set (snd e)"
  shows "cstr_at s (Ptr b 0) (entry_text e)"
  using assms by (auto intro!: cstr_atI[where r = "[]"] simp: entry_at_def rd_bytes_def
      entry_text_def valid_name_def)

lemma env_rep_entry:
  assumes "env_rep s ids es" and "i < length es"
  shows "cstr_at s (Ptr (ids ! i) 0) (entry_text (es ! i))" and "entry_at s (ids ! i) (es ! i)"
    and "valid_name (fst (es ! i))" and "NUL \<notin> set (snd (es ! i))"
proof -
  show e: "entry_at s (ids ! i) (es ! i)"
    using assms by (auto simp: env_rep_def list_all2_conv_all_nth)
  show "valid_name (fst (es ! i))" "NUL \<notin> set (snd (es ! i))"
    using assms by (auto simp: env_rep_def wf_entries_def)
  with e show "cstr_at s (Ptr (ids ! i) 0) (entry_text (es ! i))"
    by (rule entry_at_cstr)
qed

text \<open>The value part of an entry is itself a string in memory.\<close>

lemma entry_at_value:
  assumes "entry_at s b e" and "NUL \<notin> set (snd e)"
  shows "cstr_at s (Ptr b (length (fst e) + 1)) (snd e)"
  using assms by (auto intro!: cstr_atI[where r = "[]"] simp: entry_at_def rd_bytes_def
      entry_text_def terminated_def)

lemma env_rep_frame:
  assumes "env_rep s ids es" and "VML_env s' = VML_env s"
    and "\<And>b. heap s b \<noteq> None \<Longrightarrow> heap s' b = heap s b"
  shows "env_rep s' ids es"
  using assms
  by (auto simp: env_rep_def entry_at_def array_at_def list_all2_conv_all_nth
      split: ptr.splits option.splits prod.splits arena.splits block.splits)

lemma env_rep_owned_live: "env_rep s ids es \<Longrightarrow> b \<in> owned s ids \<Longrightarrow> heap s b \<noteq> None"
  by (fastforce simp: env_rep_def owned_def array_at_def entry_at_def list_all2_conv_all_nth
      in_set_conv_nth split: ptr.splits option.splits)

section \<open>Names\<close>

lemma bad_name_NULL [env_simps]: "bad_name s NULL = Some True"
  by (simp add: bad_name_def)

lemma bad_name_at [env_simps]:
  assumes "cstr_at s p n"
  shows "bad_name s p = Some (\<not> valid_name n)"
proof (cases "p = NULL")
  case True
  with assms show ?thesis by (simp add: cstr_at_def rd_bytes_def)
next
  case False
  with assms obtain q where "c_strchr s p (CHR ''='') = Some q" "q = NULL \<longleftrightarrow> CHR ''='' \<notin> set n"
    using c_strchr_at by blast
  moreover have "NUL \<notin> set n" using assms by (simp add: cstr_at_def)
  ultimately show ?thesis
    using False rd_byte_first[OF assms] by (auto simp: bad_name_def valid_name_def split: list.splits)
qed

lemma entry_match:
  assumes "cstr_at s p (entry_text e)" and "cstr_at s q n"
    and "valid_name n" and "valid_name (fst e)"
  obtains c where "c_strncmp s p q (length n) = Some c"
    and "c = 0 \<longrightarrow> rd_byte s (ptr_add p (length n)) = Some ((entry_text e @ [NUL]) ! length n)"
    and "c = 0 \<and> (entry_text e @ [NUL]) ! length n = CHR ''='' \<longleftrightarrow> fst e = n"
proof -
  obtain c where c: "c_strncmp s p q (length n) = Some c"
    "c = 0 \<longleftrightarrow> take (length n) (entry_text e @ [NUL]) = take (length n) (n @ [NUL])"
    using assms(1,2) by (rule c_strncmp_at)
  have len: "length n \<le> length (entry_text e)" if "c = 0"
  proof -
    have eq: "take (length n) (entry_text e @ [NUL]) = n" using that c(2) by simp
    show ?thesis
    proof (rule ccontr)
      assume "\<not> length n \<le> length (entry_text e)"
      then have "n = entry_text e @ [NUL]" using eq by simp
      then show False using assms(3) by (simp add: valid_name_def)
    qed
  qed
  have "fst e = n" if "c = 0" and eq: "(entry_text e @ [NUL]) ! length n = CHR ''=''"
  proof (rule prefix_then_sep)
    have "take (length n) (entry_text e @ [NUL]) = n" using that(1) c(2) by simp
    with len[OF that(1)] show "take (length n) (fst e @ CHR ''='' # snd e @ [NUL]) = n"
      by (simp add: entry_text_def)
    show "length n < length (fst e @ CHR ''='' # snd e @ [NUL])"
      using len[OF that(1)] by (simp add: entry_text_def)
    show "(fst e @ CHR ''='' # snd e @ [NUL]) ! length n = CHR ''=''"
      using eq by (simp add: entry_text_def)
  qed (use assms(3,4) in \<open>auto simp: valid_name_def\<close>)
  moreover have "c = 0 \<and> (entry_text e @ [NUL]) ! length n = CHR ''=''" if "fst e = n"
    using c(2) that by (auto simp: entry_text_def nth_append)
  ultimately show thesis
    using that c(1) len rd_byte_at[OF assms(1)] by blast
qed

section \<open>The search loops\<close>

lemma getenv_loop_found:
  "rd_cell s arr i = Some e \<Longrightarrow> p \<noteq> NULL \<Longrightarrow> getenv_loop s arr name len i p = Some p"
  by (subst getenv_loop.simps) simp

lemma getenv_loop_rep:
  assumes rep: "env_rep s ids es" "VML_env s \<noteq> NULL"
    and name: "cstr_at s name n" "valid_name n"
  shows "i \<le> length es \<Longrightarrow>
     getenv_loop s (VML_env s) name (length n) i NULL = Some (entry_ptr n (drop i ids) (drop i es))"
proof (induction "length es - i" arbitrary: i)
  case 0
  then have "rd_cell s (VML_env s) i = Some NULL"
    using env_rep_cell[OF rep] by simp
  with 0 show ?case by (subst getenv_loop.simps) simp
next
  case (Suc k)
  then have i: "i < length es" by simp
  note ent = env_rep_entry[OF rep(1) i]
  have cell: "rd_cell s (VML_env s) i = Some (Ptr (ids ! i) 0)"
    using env_rep_cell[OF rep] i by simp
  have nxt: "rd_cell s (VML_env s) (Suc i) \<noteq> None"
    using env_rep_cell[OF rep, of "Suc i"] i by simp
  have dr: "drop i ids = ids ! i # drop (Suc i) ids" "drop i es = es ! i # drop (Suc i) es"
    using i env_rep_length[OF rep(1)] by (simp_all add: Cons_nth_drop_Suc)
  obtain c where c: "c_strncmp s (Ptr (ids ! i) 0) name (length n) = Some c"
    "c = 0 \<longrightarrow> rd_byte s (ptr_add (Ptr (ids ! i) 0) (length n)) =
       Some ((entry_text (es ! i) @ [NUL]) ! length n)"
    "c = 0 \<and> (entry_text (es ! i) @ [NUL]) ! length n = CHR ''='' \<longleftrightarrow> fst (es ! i) = n"
    using ent(1) name ent(3) by (rule entry_match)
  have IH: "getenv_loop s (VML_env s) name (length n) (Suc i) NULL =
      Some (entry_ptr n (drop (Suc i) ids) (drop (Suc i) es))"
    using Suc i by simp
  show ?case
  proof (cases "fst (es ! i) = n")
    case True
    then have "getenv_loop s (VML_env s) name (length n) i NULL =
        getenv_loop s (VML_env s) name (length n) (Suc i) (Ptr (ids ! i) (length n + 1))"
      using c by (subst getenv_loop.simps) (simp add: cell)
    with True nxt show ?thesis by (auto simp: dr getenv_loop_found)
  next
    case False
    then have "getenv_loop s (VML_env s) name (length n) i NULL =
        getenv_loop s (VML_env s) name (length n) (Suc i) NULL"
      using c by (subst getenv_loop.simps) (simp add: cell)
    with False IH show ?thesis by (simp add: dr)
  qed
qed

lemma setenv_loop_rep:
  assumes rep: "env_rep s ids es" "VML_env s \<noteq> NULL"
    and new: "cstr_at s nv (entry_text (n, v))" "valid_name n"
  shows "i \<le> length es \<Longrightarrow>
     setenv_loop s (VML_env s) nv (length n + 1) i = Some (i + key_index n (drop i es))"
proof (induction "length es - i" arbitrary: i)
  case 0
  then have "rd_cell s (VML_env s) i = Some NULL"
    using env_rep_cell[OF rep] by simp
  with 0 show ?case by (subst setenv_loop.simps) simp
next
  case (Suc k)
  then have i: "i < length es" by simp
  note ent = env_rep_entry[OF rep(1) i]
  have cell: "rd_cell s (VML_env s) i = Some (Ptr (ids ! i) 0)"
    using env_rep_cell[OF rep] i by simp
  have dr: "drop i es = es ! i # drop (Suc i) es"
    using i by (simp add: Cons_nth_drop_Suc)
  obtain c where c: "c_strncmp s (Ptr (ids ! i) 0) nv (length n + 1) = Some c"
    "c = 0 \<longleftrightarrow> take (length n + 1) (entry_text (es ! i) @ [NUL]) =
       take (length n + 1) (entry_text (n, v) @ [NUL])"
    using ent(1) new(1) by (rule c_strncmp_at)
  have "c = 0 \<longleftrightarrow> fst (es ! i) = n"
    using take_sep_eq[of "CHR ''=''" n "fst (es ! i)" "snd (es ! i) @ [NUL]"] ent(3) new(2) c(2)
    by (auto simp: entry_text_def valid_name_def)
  with c Suc i cell show ?case
    by (subst setenv_loop.simps) (auto simp: dr)
qed

section \<open>Storing a new string\<close>

lemma entry_at_upd:
  "entry_at (s\<lparr>heap := h\<rparr>) b e \<longleftrightarrow> h b = Some (Libc, Bytes (terminated (entry_text e)))"
  by (simp add: entry_at_def)

lemma setenv_store_replace:
  assumes rep: "env_rep s ids es" and j: "j < length es" and key: "fst (es ! j) = n"
    and nv: "entry_at s nb (n, v)" "nb \<notin> owned s ids" "NUL \<notin> set v"
  obtains s' where "setenv_store (Ptr nb 0) j s = Some (0, s')"
    and "env_rep s' (ids[j := nb]) (es[j := (n, v)])"
    and "outside s' (ids[j := nb]) = heap s |` (- insert nb (owned s ids))"
    and "brk s' = brk s" and "tick s' = tick s" and "oom s' = oom s"
    and "mem_ok s \<Longrightarrow> mem_ok s'" and "VML_env s' = VML_env s"
proof -
  have len: "length ids = length es" using rep by (rule env_rep_length)
  have nn: "VML_env s \<noteq> NULL"
    using rep j len by (auto simp: env_rep_def array_at_def)
  then obtain b cs where arr: "VML_env s = Ptr b 0" "b \<notin> set ids" "heap s b = Some (Libc, Cells cs)"
      "take (Suc (length ids)) cs = map (\<lambda>i. Some (Ptr i 0)) ids @ [Some NULL]"
      "length ids < length cs"
    using rep by (metis env_rep_cells)
  note ent = env_rep_entry[OF rep j]
  have d: "distinct ids" and la: "list_all2 (entry_at s) ids es" and wf: "wf_entries es"
    using rep by (auto simp: env_rep_def)
  have in_ids: "ids ! j \<in> set ids" using j len by simp
  then have ne: "ids ! j \<noteq> b" "ids ! j \<noteq> nb" "b \<noteq> nb" "nb \<notin> set ids"
    using arr nv(2) by (auto simp: owned_def)
  define h where "h = (heap s)(ids ! j := None, b := Some (Libc, Cells (cs[j := Some (Ptr nb 0)])))"
  define s' where "s' = s\<lparr>heap := h\<rparr>"
  have run: "setenv_store (Ptr nb 0) j s = Some (0, s')"
    using env_rep_cell[OF rep nn, of j] j len arr ne ent(2)
    by (simp add: setenv_store_def free_in_def wr_cell_def entry_at_def nn s'_def h_def)
  have idj: "ids ! i \<noteq> ids ! j" if "i < length ids" "i \<noteq> j" for i
    using d that j len by (simp add: nth_eq_iff_index_eq)
  have ents: "list_all2 (entry_at s') (ids[j := nb]) (es[j := (n, v)])"
    unfolding list_all2_conv_all_nth
  proof (intro conjI allI impI)
    show "length (ids[j := nb]) = length (es[j := (n, v)])" using len by simp
    fix i
    assume i: "i < length (ids[j := nb])"
    show "entry_at s' (ids[j := nb] ! i) (es[j := (n, v)] ! i)"
    proof (cases "i = j")
      case True
      then show ?thesis
        using i len nv(1) ne by (simp add: entry_at_def s'_def h_def)
    next
      case False
      have "ids ! i \<noteq> b" using arr(2) i by (metis length_list_update nth_mem)
      then show ?thesis
        using False i len idj[of i] list_all2_nth_eq[OF la, of i]
        by (simp add: entry_at_def s'_def h_def)
    qed
  qed
  have keys: "map fst (es[j := (n, v)]) = map fst es"
    using key j by (simp add: map_update list_update_same_conv)
  have wf': "wf_entries (es[j := (n, v)])"
  proof -
    have "\<forall>e \<in> set (es[j := (n, v)]). valid_name (fst e) \<and> NUL \<notin> set (snd e)"
      using wf nv(3) ent(3) key set_update_subset_insert[of es j "(n, v)"]
      by (fastforce simp: wf_entries_def)
    with wf keys show ?thesis by (simp add: wf_entries_def)
  qed
  have arr': "array_at s' (VML_env s') (ids[j := nb])"
  proof -
    have "take (Suc (length ids)) (cs[j := Some (Ptr nb 0)]) =
        (map (\<lambda>i. Some (Ptr i 0)) ids @ [Some NULL])[j := Some (Ptr nb 0)]"
      using arr(4) by (simp add: take_update_swap)
    also have "\<dots> = map (\<lambda>i. Some (Ptr i 0)) (ids[j := nb]) @ [Some NULL]"
      using j len by (simp add: list_update_append map_update)
    finally show ?thesis
      using arr ne set_update_subset_insert[of ids j nb] by (auto simp: array_at_def s'_def h_def)
  qed
  have rep': "env_rep s' (ids[j := nb]) (es[j := (n, v)])"
    using wf' ents arr' d ne by (simp add: env_rep_def distinct_list_update)
  have set': "set (ids[j := nb]) = insert nb (set ids - {ids ! j})"
    using d j len by (simp add: set_update_distinct)
  have out: "outside s' (ids[j := nb]) = heap s |` (- insert nb (owned s ids))"
    using arr ne in_ids
    by (auto simp: outside_def owned_def set' s'_def h_def restrict_map_def fun_eq_iff)
  have ok: "mem_ok s \<Longrightarrow> mem_ok s'"
    using arr(3) by (auto simp: mem_ok_def s'_def h_def)
  show thesis
    using that[OF run rep' out] ok by (simp add: s'_def)
qed

lemma setenv_store_append:
  assumes rep: "env_rep s ids es" and ok: "mem_ok s"
    and new: "n \<notin> set (map fst es)" "valid_name n"
    and nv: "entry_at s nb (n, v)" "nb \<notin> owned s ids" "NUL \<notin> set v"
    and room: "(length es + 2) * 4 < 2 ^ 32"
    and mem: "\<not> oom s (tick s) ((length es + 2) * 4)"
  obtains s' where "setenv_store (Ptr nb 0) (length es) s = Some (0, s')"
    and "env_rep s' (ids @ [nb]) (es @ [(n, v)])"
    and "outside s' (ids @ [nb]) = heap s |` (- insert nb (owned s ids))"
    and "mem_ok s'" and "oom s' = oom s"
proof -
  have len: "length ids = length es" using rep by (rule env_rep_length)
  have d: "distinct ids" and la: "list_all2 (entry_at s) ids es" and wf: "wf_entries es"
    using rep by (auto simp: env_rep_def)
  have sz: "size_t ((length es + 2) * 4) = (length es + 2) * 4"
    using room by (simp add: size_t_def)
  have stop: "(if VML_env s \<noteq> NULL then rd_cell s (VML_env s) (length es) else Some NULL) = Some NULL"
    using env_rep_cell[OF rep] by simp
  define nw where "nw = brk s"
  have fresh: "heap s nw = None" using ok by (simp add: mem_ok_def nw_def)
  have live: "heap s b \<noteq> None" if "b \<in> owned s ids" for b
    using rep that by (rule env_rep_owned_live)
  have ne: "nw \<noteq> nb" "nw \<notin> owned s ids"
    using fresh live[of nw] nv(1) by (auto simp: entry_at_def)
  obtain cs where cs: "length cs = length es + 2" "take (length es) cs = map (\<lambda>i. Some (Ptr i 0)) ids"
    and re: "c_realloc (VML_env s) ((length es + 2) * 4) s =
      Some (Ptr nw 0, s\<lparr>heap := (case VML_env s of
          NULL \<Rightarrow> (heap s)(nw \<mapsto> (Libc, Cells cs))
        | Ptr b k \<Rightarrow> (heap s)(nw \<mapsto> (Libc, Cells cs), b := None)),
        brk := Suc nw, tick := Suc (tick s)\<rparr>)"
  proof (cases "VML_env s")
    case NULL
    then have "ids = []" using rep by (simp add: env_rep_def array_at_def)
    with NULL mem len that[of "replicate (length es + 2) None"] show thesis
      by (simp add: c_realloc_def alloc_def nw_def numeral_2_eq_2)
  next
    case (Ptr b k)
    then obtain cs where arr: "k = 0" "heap s b = Some (Libc, Cells cs)"
        "take (Suc (length ids)) cs = map (\<lambda>i. Some (Ptr i 0)) ids @ [Some NULL]"
        "length ids < length cs"
      using rep by (metis env_rep_cells ptr.distinct(1) ptr.inject)
    let ?cs = "take (length es + 2) (cs @ replicate (length es + 2) None)"
    have "take (length es) cs = take (length ids) (take (Suc (length ids)) cs)"
      using len by simp
    also have "\<dots> = map (\<lambda>i. Some (Ptr i 0)) ids" unfolding arr(3) by simp
    finally have "take (length es) ?cs = map (\<lambda>i. Some (Ptr i 0)) ids"
      using arr(4) len by (simp add: min_def)
    with Ptr mem arr that[of ?cs] show thesis
      by (simp add: c_realloc_def alloc_def nw_def)
  qed
  define cs' where "cs' = cs[length es := Some (Ptr nb 0), Suc (length es) := Some NULL]"
  define h where "h = (case VML_env s of
      NULL \<Rightarrow> (heap s)(nw \<mapsto> (Libc, Cells cs'))
    | Ptr b k \<Rightarrow> (heap s)(nw \<mapsto> (Libc, Cells cs'), b := None))"
  define s' where
    "s' = s\<lparr>heap := h, brk := Suc nw, tick := Suc (tick s), VML_env := Ptr nw 0\<rparr>"
  have env_ne: "VML_env s = Ptr b k \<Longrightarrow> nw \<noteq> b" for b k
    using ne(2) by (auto simp: owned_def)
  have run: "setenv_store (Ptr nb 0) (length es) s = Some (0, s')"
  proof (cases "VML_env s")
    case NULL
    then show ?thesis
      using cs(1) stop re sz
      by (simp add: setenv_store_def wr_cell_def s'_def h_def cs'_def)
  next
    case (Ptr b k)
    then show ?thesis
      using cs(1) stop re sz env_ne[OF Ptr]
      by (simp add: setenv_store_def wr_cell_def s'_def h_def cs'_def fun_upd_twist)
  qed
  have keep: "h b = heap s b" if "b \<in> insert nb (set ids)" for b
  proof -
    have "b \<noteq> nw" using that ne by (auto simp: owned_def)
    moreover have "b \<noteq> c" if "VML_env s = Ptr c k" for c k
      using that \<open>b \<in> insert nb (set ids)\<close> nv(2) rep
      by (auto simp: owned_def env_rep_def array_at_def)
    ultimately show ?thesis by (auto simp: h_def split: ptr.split)
  qed
  have nw: "h nw = Some (Libc, Cells cs')"
    using env_ne by (auto simp: h_def split: ptr.split)
  have take_cs: "take (Suc (Suc (length es))) cs' =
      map (\<lambda>i. Some (Ptr i 0)) (ids @ [nb]) @ [Some NULL]"
  proof (rule nth_equalityI)
    fix i
    assume "i < length (take (Suc (Suc (length es))) cs')"
    then have i: "i < Suc (Suc (length es))" by simp
    have old: "cs ! i = Some (Ptr (ids ! i) 0)" if "i < length es"
      using cs(2) that len by (metis length_map nth_map nth_take)
    show "take (Suc (Suc (length es))) cs' ! i =
        (map (\<lambda>i. Some (Ptr i 0)) (ids @ [nb]) @ [Some NULL]) ! i"
      using i cs(1) old len by (auto simp: cs'_def nth_append nth_list_update less_Suc_eq)
  qed (use cs(1) len in \<open>simp add: cs'_def\<close>)
  have wf': "wf_entries (es @ [(n, v)])"
    using wf new nv(3) by (auto simp: wf_entries_def)
  have ents: "list_all2 (entry_at s') (ids @ [nb]) (es @ [(n, v)])"
  proof -
    have "list_all2 (entry_at s') ids es"
      using la keep by (auto simp: list_all2_conv_all_nth entry_at_def s'_def)
    moreover have "entry_at s' nb (n, v)"
      using nv(1) keep[of nb] by (simp add: entry_at_def s'_def)
    ultimately show ?thesis by (simp add: list_all2_appendI)
  qed
  have nb: "nb \<notin> set ids" using nv(2) by (auto simp: owned_def)
  have rep': "env_rep s' (ids @ [nb]) (es @ [(n, v)])"
    using wf' ents d nb ne nw take_cs len
    by (auto simp: env_rep_def array_at_def s'_def owned_def)
  have out: "outside s' (ids @ [nb]) = heap s |` (- insert nb (owned s ids))"
    using fresh
    by (auto simp: outside_def owned_def s'_def h_def restrict_map_def fun_eq_iff split: ptr.split)
  have "mem_ok s'"
    using ok by (auto simp: mem_ok_def s'_def h_def nw_def split: ptr.split)
  then show thesis
    using that[OF run rep' out] by (simp add: s'_def)
qed

lemma setenv_store_nomem:
  assumes rep: "env_rep s ids es"
    and nv: "entry_at s nb (n, v)" "nb \<notin> owned s ids"
    and room: "(length es + 2) * 4 < 2 ^ 32"
    and mem: "oom s (tick s) ((length es + 2) * 4)"
  shows "setenv_store (Ptr nb 0) (length es) s =
    Some (- 1, s\<lparr>tick := Suc (tick s), heap := (heap s)(nb := None)\<rparr>)"
proof -
  have sz: "size_t ((length es + 2) * 4) = (length es + 2) * 4"
    using room by (simp add: size_t_def)
  have stop: "(if VML_env s \<noteq> NULL then rd_cell s (VML_env s) (length es) else Some NULL) = Some NULL"
    using env_rep_cell[OF rep] by simp
  have "c_realloc (VML_env s) ((length es + 2) * 4) s = Some (NULL, s\<lparr>tick := Suc (tick s)\<rparr>)"
  proof (cases "VML_env s")
    case NULL
    then show ?thesis using mem by (simp add: c_realloc_def alloc_def)
  next
    case (Ptr b k)
    then obtain cs where "k = 0" "heap s b = Some (Libc, Cells cs)"
      using rep by (metis env_rep_cells ptr.distinct(1) ptr.inject)
    with Ptr mem show ?thesis by (simp add: c_realloc_def alloc_def)
  qed
  with stop sz nv(1) show ?thesis
    by (simp add: setenv_store_def free_in_def entry_at_def)
qed

section \<open>Removing an entry\<close>

lemma shift_loop_cells:
  "heap s b = Some (Libc, Cells (map Some (ps @ [NULL]) @ junk)) \<Longrightarrow> NULL \<notin> set ps \<Longrightarrow>
   j < length ps \<Longrightarrow>
   shift_loop (Ptr b 0) j s = Some (s\<lparr>heap := (heap s)(b \<mapsto>
     (Libc, Cells (map Some (take j ps @ drop (Suc j) ps @ [NULL, NULL]) @ junk)))\<rparr>)"
proof (induction "length ps - j" arbitrary: j ps s)
  case 0
  then show ?case by simp
next
  case (Suc k)
  let ?cs = "map Some (ps @ [NULL]) @ junk"
  let ?n = "(ps @ [NULL]) ! Suc j"
  let ?s = "s\<lparr>heap := (heap s)(b \<mapsto> (Libc, Cells (?cs[j := Some ?n])))\<rparr>"
  have pj: "ps ! j \<noteq> NULL" using Suc.prems(2,3) by (metis nth_mem)
  have step: "shift_loop (Ptr b 0) j s = shift_loop (Ptr b 0) (Suc j) ?s"
    using Suc.prems(1,3) pj
    by (subst shift_loop.simps) (simp add: rd_cell_def wr_cell_def nth_append)
  show ?case
  proof (cases "Suc j < length ps")
    case True
    let ?ps = "ps[j := ps ! Suc j]"
    have "ps ! Suc j \<noteq> NULL" using Suc.prems(2) True by (metis nth_mem)
    then have nn: "NULL \<notin> set ?ps"
      using Suc.prems(2) set_update_subset_insert[of ps j "ps ! Suc j"] by auto
    have cells: "?cs[j := Some ?n] = map Some (?ps @ [NULL]) @ junk"
      using True Suc.prems(3) by (simp add: list_update_append nth_append map_update)
    let ?qs = "take (Suc j) ?ps @ drop (Suc (Suc j)) ?ps @ [NULL, NULL]"
    have "shift_loop (Ptr b 0) (Suc j) ?s =
        Some (?s\<lparr>heap := (heap ?s)(b \<mapsto> (Libc, Cells (map Some ?qs @ junk)))\<rparr>)"
      using Suc.hyps(2) nn True cells by (intro Suc.hyps(1)) auto
    then have run: "shift_loop (Ptr b 0) (Suc j) ?s =
        Some (s\<lparr>heap := (heap s)(b \<mapsto> (Libc, Cells (map Some ?qs @ junk)))\<rparr>)"
      by (simp del: list.map map_append drop_update_cancel)
    have qs: "?qs = take j ps @ drop (Suc j) ps @ [NULL, NULL]"
      using True Suc.prems(3)
      by (simp add: take_Suc_conv_app_nth Cons_nth_drop_Suc)
    show ?thesis
      using run unfolding step qs .
  next
    case False
    then have j: "Suc j = length ps" using Suc.prems(3) by simp
    then have ps: "ps = take j ps @ [ps ! j]"
      by (metis Suc.prems(3) order_refl take_Suc_conv_app_nth take_all)
    have cells: "?cs[j := Some ?n] = map Some (take j ps @ [NULL, NULL]) @ junk"
      using j by (subst (1) ps) (simp add: list_update_append nth_append)
    have "shift_loop (Ptr b 0) (Suc j) ?s = Some ?s"
      using j by (subst shift_loop.simps) (simp add: rd_cell_def cells nth_append)
    then show ?thesis
      using step j cells by simp
  qed
qed

lemma drop_first_index:
  "n \<in> set (map fst es) \<Longrightarrow>
     drop_first n es = take (key_index n es) es @ drop (Suc (key_index n es)) es"
  by (induction es) auto

lemma remove_entry:
  assumes rep: "env_rep s ids es" and j: "j < length es"
  obtains s' where "c_free (Ptr (ids ! j) 0) s = Some (s\<lparr>heap := (heap s)(ids ! j := None)\<rparr>)"
    and "shift_loop (VML_env s) j (s\<lparr>heap := (heap s)(ids ! j := None)\<rparr>) = Some s'"
    and "env_rep s' (take j ids @ drop (Suc j) ids) (take j es @ drop (Suc j) es)"
    and "outside s' (take j ids @ drop (Suc j) ids) = outside s ids"
    and "mem_ok s \<Longrightarrow> mem_ok s'" and "oom s' = oom s"
proof -
  have len: "length ids = length es" using rep by (rule env_rep_length)
  have d: "distinct ids" and la: "list_all2 (entry_at s) ids es" and wf: "wf_entries es"
    using rep by (auto simp: env_rep_def)
  have nn: "VML_env s \<noteq> NULL" using rep j len by (auto simp: env_rep_def array_at_def)
  then obtain b cs where arr: "VML_env s = Ptr b 0" "b \<notin> set ids" "heap s b = Some (Libc, Cells cs)"
      "take (Suc (length ids)) cs = map (\<lambda>i. Some (Ptr i 0)) ids @ [Some NULL]"
    using rep by (metis env_rep_cells)
  define ps where "ps = map (\<lambda>i. Ptr i 0) ids"
  define junk where "junk = drop (Suc (length ids)) cs"
  define ids' where "ids' = take j ids @ drop (Suc j) ids"
  have cs: "cs = map Some (ps @ [NULL]) @ junk"
    using arr(4) append_take_drop_id[of "Suc (length ids)" cs]
    by (simp add: ps_def junk_def comp_def)
  have idj: "ids ! j \<in> set ids" using j len by simp
  then have ne: "ids ! j \<noteq> b" using arr(2) by auto
  define s1 where "s1 = s\<lparr>heap := (heap s)(ids ! j := None)\<rparr>"
  define qs where "qs = take j ps @ drop (Suc j) ps @ [NULL, NULL]"
  define s' where "s' = s1\<lparr>heap := (heap s1)(b \<mapsto> (Libc, Cells (map Some qs @ junk)))\<rparr>"
  have fr: "c_free (Ptr (ids ! j) 0) s = Some s1"
    using env_rep_entry(2)[OF rep j] by (simp add: free_in_def entry_at_def s1_def)
  have sh: "shift_loop (VML_env s) j s1 = Some s'"
    unfolding arr(1) s'_def qs_def using arr(3) cs ne j len
    by (intro shift_loop_cells) (auto simp: s1_def ps_def)
  have sub: "set ids' = set ids - {ids ! j}"
  proof -
    have split: "ids = take j ids @ ids ! j # drop (Suc j) ids"
      using j len by (simp add: id_take_nth_drop)
    then have "ids ! j \<notin> set ids'" using d unfolding ids'_def
      by (metis distinct_append distinct.simps(2) Un_iff disjoint_iff list.set_intros(1) set_append)
    moreover have "set ids = insert (ids ! j) (set ids')"
      unfolding ids'_def by (subst split) auto
    ultimately show ?thesis by auto
  qed
  have d': "distinct ids'"
    using d by (auto simp: ids'_def set_take_disj_set_drop_if_distinct)
  have keep: "heap s' i = heap s i" if "i \<in> set ids'" for i
    using that sub arr(2) by (auto simp: s'_def s1_def)
  have la': "list_all2 (entry_at s') ids' (take j es @ drop (Suc j) es)"
  proof -
    have l: "list_all2 (entry_at s) ids' (take j es @ drop (Suc j) es)"
      using la by (simp add: ids'_def list_all2_appendI list_all2_dropI list_all2_takeI)
    show ?thesis
      unfolding list_all2_conv_all_nth
      using l keep by (auto simp: entry_at_def list_all2_conv_all_nth)
  qed
  have wf': "wf_entries (take j es @ drop (Suc j) es)"
    using wf by (auto simp: wf_entries_def take_map drop_map distinct_append
        set_take_disj_set_drop_if_distinct simp flip: take_map drop_map
        dest: in_set_takeD in_set_dropD)
  have "map Some qs @ junk = map (\<lambda>i. Some (Ptr i 0)) ids' @ [Some NULL] @ (Some NULL # junk)"
    by (simp add: qs_def ps_def ids'_def take_map drop_map comp_def)
  moreover have "length ids' = length (map (\<lambda>i. Some (Ptr i 0)) ids')" by simp
  ultimately have tk: "take (Suc (length ids')) (map Some qs @ junk) =
      map (\<lambda>i. Some (Ptr i 0)) ids' @ [Some NULL]"
    by (simp del: length_map)
  have rep': "env_rep s' ids' (take j es @ drop (Suc j) es)"
    using wf' d' la' arr(1,2) sub tk by (auto simp: env_rep_def array_at_def s'_def s1_def)
  have out: "outside s' ids' = outside s ids"
    using arr(1,2) sub idj
    by (auto simp: outside_def owned_def s'_def s1_def restrict_map_def fun_eq_iff)
  have "mem_ok s'" if "mem_ok s"
    using that arr(3) by (auto simp: mem_ok_def s'_def s1_def)
  then show thesis
    using that[of s'] fr sh rep' out by (simp add: s1_def ids'_def s'_def)
qed

lemma unsetenv_loop_rep:
  assumes rep: "env_rep s ids es" "VML_env s \<noteq> NULL"
    and name: "cstr_at s name n" "valid_name n"
  shows "i \<le> length es \<Longrightarrow> n \<notin> set (map fst (take i es)) \<Longrightarrow>
     unsetenv_loop name (length n) i s =
       (if n \<in> set (map fst es) then do {
          s1 \<leftarrow> c_free (Ptr (ids ! key_index n es) 0) s;
          s2 \<leftarrow> shift_loop (VML_env s1) (key_index n es) s1;
          Some (0, s2) }
        else Some (- 1, s))"
proof (induction "length es - i" arbitrary: i)
  case 0
  then have "rd_cell s (VML_env s) i = Some NULL"
    using env_rep_cell[OF rep] by simp
  with 0 show ?case by (subst unsetenv_loop.simps) simp
next
  case (Suc k)
  then have i: "i < length es" by simp
  note ent = env_rep_entry[OF rep(1) i]
  have cell: "rd_cell s (VML_env s) i = Some (Ptr (ids ! i) 0)"
    using env_rep_cell[OF rep] i by simp
  obtain c where c: "c_strncmp s (Ptr (ids ! i) 0) name (length n) = Some c"
    "c = 0 \<longrightarrow> rd_byte s (ptr_add (Ptr (ids ! i) 0) (length n)) =
       Some ((entry_text (es ! i) @ [NUL]) ! length n)"
    "c = 0 \<and> (entry_text (es ! i) @ [NUL]) ! length n = CHR ''='' \<longleftrightarrow> fst (es ! i) = n"
    using entry_match[OF ent(1) name ent(3)] by blast
  show ?case
  proof (cases "fst (es ! i) = n")
    case True
    have ki: "key_index n es = i"
      using Suc.prems(2) i True
    proof (induction es arbitrary: i)
      case (Cons e es)
      then show ?case by (cases i) auto
    qed simp
    have mem: "n \<in> set (map fst es)" using True i by (metis nth_map length_map nth_mem)
    show ?thesis
      using c True mem by (subst unsetenv_loop.simps) (simp add: cell ki)
  next
    case False
    have "n \<notin> set (map fst (take (Suc i) es))"
      using Suc.prems(2) i False by (simp add: take_Suc_conv_app_nth)
    moreover have "unsetenv_loop name (length n) i s = unsetenv_loop name (length n) (Suc i) s"
      using c False by (subst unsetenv_loop.simps) (simp add: cell)
    ultimately show ?thesis
      using Suc.hyps i by simp
  qed
qed

end
