(* ===== verification/EnvApi.thy ===== *)
theory EnvApi
  imports EnvRefine
begin

text \<open>
  The entry points of \<open>environment.c\<close> against the abstract map, the interface that the
  clients of the environment rely on, and its two providers: the \<open>VML\<close> functions and the
  C library names that forward to them.
\<close>

section \<open>Abstract operations\<close>

definition env_get :: "string \<Rightarrow> (string \<times> string) list \<Rightarrow> string option" where
  "env_get n es = (if valid_name n then map_of es n else None)"

definition env_set ::
  "string \<Rightarrow> string \<Rightarrow> int \<Rightarrow> (string \<times> string) list \<Rightarrow> int \<times> (string \<times> string) list" where
  "env_set n v overwrite es =
     (if \<not> valid_name n then (- 1, es)
      else if overwrite = 0 \<and> n \<in> set (map fst es) then (0, es)
      else (0, AList.update n v es))"

definition env_unset :: "string \<Rightarrow> (string \<times> string) list \<Rightarrow> int \<times> (string \<times> string) list" where
  "env_unset n es =
     (if valid_name n \<and> n \<in> set (map fst es) then (0, drop_first n es) else (- 1, es))"

text \<open>The sizes that \<open>VMLSetEnv\<close> computes are exact in 32 bits.\<close>

definition env_fits :: "string \<Rightarrow> string \<Rightarrow> (string \<times> string) list \<Rightarrow> bool" where
  "env_fits n v es \<longleftrightarrow> length n + length v + 2 < 2 ^ 32 \<and> (length es + 2) * 4 < 2 ^ 32"

definition out_of_memory :: "'a mem_scheme \<Rightarrow> bool" where
  "out_of_memory s \<longleftrightarrow> (\<exists>t k. oom s t k)"

definition env_inv :: "'a env_state_scheme \<Rightarrow> nat list \<Rightarrow> (string \<times> string) list \<Rightarrow> bool" where
  "env_inv s ids es \<longleftrightarrow> mem_ok s \<and> env_rep s ids es"

text \<open>A string outside the blocks of the environment.\<close>

definition env_held :: "'a env_state_scheme \<Rightarrow> nat list \<Rightarrow> ptr \<Rightarrow> string \<Rightarrow> bool" where
  "env_held s ids p t \<longleftrightarrow> cstr_at s p t \<and> blk p \<notin> owned s ids"

lemma env_inv_keys: "env_inv s ids es \<Longrightarrow> distinct (map fst es)"
  by (simp add: env_inv_def env_rep_def wf_entries_def)

lemma cstr_at_not_NULL: "cstr_at s p t \<Longrightarrow> p \<noteq> NULL"
  by (auto simp: cstr_at_def rd_bytes_def)

lemma held_frame:
  assumes "env_held s ids p t" and "outside s' ids' = outside s ids"
  shows "env_held s' ids' p t"
proof -
  obtain b k where p: "p = Ptr b k" using assms(1) by (cases p) (auto simp: env_held_def dest: cstr_at_not_NULL)
  then have b: "b \<notin> owned s ids" and c: "cstr_at s p t" using assms(1) by (auto simp: env_held_def)
  then have "heap s b \<noteq> None" using p by (auto simp: cstr_at_def rd_bytes_def split: option.splits)
  with b have "outside s' ids' b = heap s b" and "outside s' ids' b \<noteq> None"
    using assms(2) by (auto simp: outside_def)
  then have "heap s' b = heap s b" and "b \<notin> owned s' ids'"
    by (auto simp: outside_def restrict_map_def split: if_splits)
  with c p show ?thesis by (simp add: env_held_def cstr_at_def rd_bytes_def)
qed

text \<open>Allocating a block leaves every string readable.\<close>

lemma cstr_at_frame:
  assumes "cstr_at s p t" and "\<And>b. heap s b \<noteq> None \<Longrightarrow> heap s' b = heap s b"
  shows "cstr_at s' p t"
proof -
  obtain b k where p: "p = Ptr b k" using assms(1) by (cases p) (auto dest: cstr_at_not_NULL)
  then have "heap s b \<noteq> None"
    using assms(1) by (auto simp: cstr_at_def rd_bytes_def split: option.splits)
  then have "heap s' b = heap s b" by (rule assms(2))
  with assms(1) p show ?thesis by (simp add: cstr_at_def rd_bytes_def)
qed

section \<open>Lookup\<close>

lemma VMLGetEnv_ptr:
  assumes "env_rep s ids es" and "cstr_at s name n"
  shows "VMLGetEnv name s = Some (if valid_name n then entry_ptr n ids es else NULL)"
proof (cases "VML_env s = NULL")
  case True
  then have "ids = []" using assms(1) by (simp add: env_rep_def array_at_def)
  with True assms(2) show ?thesis by (simp add: VMLGetEnv_def env_simps)
next
  case False
  with assms show ?thesis
    using getenv_loop_rep[OF assms(1) False assms(2), of 0]
    by (simp add: VMLGetEnv_def env_simps mem_simps)
qed

lemma VMLGetEnv_rep:
  assumes "env_inv s ids es" and "cstr_at s name n"
  shows "\<exists>q. VMLGetEnv name s = Some q \<and>
     (case env_get n es of None \<Rightarrow> q = NULL | Some v \<Rightarrow> cstr_at s q v)"
proof -
  have rep: "env_rep s ids es" using assms(1) by (simp add: env_inv_def)
  have len: "length ids = length es" using rep by (rule env_rep_length)
  note run = VMLGetEnv_ptr[OF rep assms(2)]
  show ?thesis
  proof (cases "valid_name n \<and> n \<in> set (map fst es)")
    case True
    let ?j = "key_index n es"
    have j: "?j < length es" using True by (simp add: key_index_less)
    have key: "fst (es ! ?j) = n" using True by (intro key_index_key) simp
    have "env_get n es = Some (snd (es ! ?j))"
      using map_of_at[OF env_inv_keys[OF assms(1)] j] key True by (simp add: env_get_def)
    moreover have "cstr_at s (Ptr (ids ! ?j) (length n + 1)) (snd (es ! ?j))"
      using entry_at_value env_rep_entry(2,4)[OF rep j] key by metis
    ultimately show ?thesis using run True by (simp add: entry_ptr_index[OF len])
  next
    case False
    then have "env_get n es = None" by (auto simp: env_get_def map_of_eq_None_iff)
    with run False show ?thesis by (auto simp: entry_ptr_index[OF len])
  qed
qed

lemma VMLGetEnv_present:
  assumes "env_inv s ids es" and "cstr_at s name n" and "valid_name n"
  shows "\<exists>q. VMLGetEnv name s = Some q \<and> (q = NULL \<longleftrightarrow> n \<notin> set (map fst es))"
proof -
  have rep: "env_rep s ids es" using assms(1) by (simp add: env_inv_def)
  show ?thesis
    using VMLGetEnv_ptr[OF rep assms(2)] entry_ptr_index[OF env_rep_length[OF rep], of n] assms(3)
    by simp
qed

section \<open>Update\<close>

text \<open>Building the string \<open>NAME=VALUE\<close> in a fresh block.\<close>

lemma new_string:
  assumes ok: "mem_ok s" and name: "cstr_at s name n" and val: "cstr_at s val v"
    and room: "length n + length v + 2 < 2 ^ 32"
    and mem: "\<not> oom s (tick s) (length n + length v + 2)"
  defines "nb \<equiv> brk s"
  defines "s' \<equiv> s\<lparr>heap := (heap s)(nb \<mapsto> (Libc, Bytes (terminated (entry_text (n, v))))),
                  brk := Suc nb, tick := Suc (tick s)\<rparr>"
  shows "\<exists>s1. c_malloc (size_t (length n + length v + 2)) s = (Ptr nb 0, s1) \<and>
           c_snprintf_eq (Ptr nb 0) (size_t (length n + length v + 2)) name val s1 = Some s'"
    and "cstr_at s' name n" and "entry_at s' nb (n, v)"
    and "heap s nb = None" and "mem_ok s'"
proof -
  let ?len = "length n + length v + 2"
  have sz: "size_t ?len = ?len" using room by (simp add: size_t_def)
  have fresh: "heap s nb = None" using ok by (simp add: mem_ok_def nb_def)
  then show "heap s nb = None" .
  define s1 where "s1 = s\<lparr>heap := (heap s)(nb \<mapsto> (Libc, Bytes (replicate ?len None))),
                  brk := Suc nb, tick := Suc (tick s)\<rparr>"
  have m: "c_malloc (size_t ?len) s = (Ptr nb 0, s1)"
    unfolding sz using mem by (simp add: c_malloc_def alloc_def s1_def nb_def)
  have "cstr_at s1 name n" "cstr_at s1 val v"
    using name val fresh by (auto elim!: cstr_at_frame simp: s1_def)
  moreover have "take (?len - 1) (n @ ''='' @ v) = n @ ''='' @ v" by simp
  ultimately have "c_snprintf_eq (Ptr nb 0) (size_t ?len) name val s1 = Some s'"
    unfolding sz by (simp add: c_snprintf_eq_def mem_simps wr_bytes_def s1_def s'_def terminated_def
        entry_text_def)
  with m show "\<exists>s1. c_malloc (size_t ?len) s = (Ptr nb 0, s1) \<and>
           c_snprintf_eq (Ptr nb 0) (size_t ?len) name val s1 = Some s'" by blast
  show "cstr_at s' name n" using name fresh by (auto elim!: cstr_at_frame simp: s'_def)
  show "entry_at s' nb (n, v)" by (simp add: entry_at_def s'_def)
  show "mem_ok s'" using ok by (simp add: mem_ok_def s'_def nb_def)
qed

text \<open>The three outcomes of a \<open>VMLSetEnv\<close> that goes past its checks.\<close>

lemma VMLSetEnv_checks:
  assumes inv: "env_inv s ids es" and name: "cstr_at s name n" and val: "cstr_at s val v"
  shows "\<not> valid_name n \<Longrightarrow> VMLSetEnv name val overwrite s = Some (- 1, s)"
    and "valid_name n \<Longrightarrow> overwrite = 0 \<Longrightarrow> n \<in> set (map fst es) \<Longrightarrow>
           VMLSetEnv name val overwrite s = Some (0, s)"
  using VMLGetEnv_present[OF inv name] name cstr_at_not_NULL[OF val]
  by (auto simp: VMLSetEnv_def env_simps)

lemma VMLSetEnv_run:
  assumes inv: "env_inv s ids es" and name: "cstr_at s name n" and val: "cstr_at s val v"
    and vn: "valid_name n" and ov: "\<not> (overwrite = 0 \<and> n \<in> set (map fst es))"
    and room: "length n + length v + 2 < 2 ^ 32"
  shows "oom s (tick s) (length n + length v + 2) \<Longrightarrow>
           VMLSetEnv name val overwrite s = Some (- 1, s\<lparr>tick := Suc (tick s)\<rparr>)"
    and "\<not> oom s (tick s) (length n + length v + 2) \<Longrightarrow>
           VMLSetEnv name val overwrite s =
             setenv_store (Ptr (brk s) 0) (key_index n es)
               (s\<lparr>heap := (heap s)(brk s \<mapsto> (Libc, Bytes (terminated (entry_text (n, v))))),
                  brk := Suc (brk s), tick := Suc (tick s)\<rparr>)"
proof -
  have ok: "mem_ok s" and rep: "env_rep s ids es" using inv by (auto simp: env_inv_def)
  have vnn: "val \<noteq> NULL" using val by (rule cstr_at_not_NULL)
  let ?len = "length n + length v + 2"
  have old: "(if overwrite = 0 then VMLGetEnv name s else Some NULL) = Some NULL"
    using VMLGetEnv_present[OF inv name vn] ov by auto
  have sz: "size_t ?len = ?len" using room by (simp add: size_t_def)
  {
    assume oom: "oom s (tick s) ?len"
    have m: "c_malloc (size_t ?len) s = (NULL, s\<lparr>tick := Suc (tick s)\<rparr>)"
      unfolding sz using oom by (simp add: c_malloc_def alloc_def)
    show "VMLSetEnv name val overwrite s = Some (- 1, s\<lparr>tick := Suc (tick s)\<rparr>)"
      by (simp only: VMLSetEnv_def bad_name_at[OF name] vn vnn old c_strlen_at[OF name]
          c_strlen_at[OF val] bind.bind_lunit Let_def m prod.case simp_thms if_True if_False)
  }
  assume no: "\<not> oom s (tick s) ?len"
  let ?s = "s\<lparr>heap := (heap s)(brk s \<mapsto> (Libc, Bytes (terminated (entry_text (n, v))))),
                  brk := Suc (brk s), tick := Suc (tick s)\<rparr>"
  note new = new_string[OF ok name val room no]
  obtain s1 where m: "c_malloc (size_t ?len) s = (Ptr (brk s) 0, s1)"
      "c_snprintf_eq (Ptr (brk s) 0) (size_t ?len) name val s1 = Some ?s"
    using new(1) by blast
  have rep': "env_rep ?s ids es"
    using rep new(4) by (auto elim!: env_rep_frame)
  have vtext: "cstr_at ?s (Ptr (brk s) 0) (entry_text (n, v))"
    using entry_at_cstr[OF new(3)] vn val by (simp add: cstr_at_def[of s])
  have loop: "(if VML_env ?s \<noteq> NULL
       then setenv_loop ?s (VML_env ?s) (Ptr (brk s) 0) (length n + 1) 0 else Some 0) =
     Some (key_index n es)"
  proof (cases "VML_env ?s = NULL")
    case True
    then have "ids = []" using rep' by (simp add: env_rep_def array_at_def)
    then have "es = []" using env_rep_length[OF rep'] by simp
    with True show ?thesis by simp
  next
    case False
    then show ?thesis using setenv_loop_rep[OF rep' False vtext vn, of 0] by simp
  qed
  have klen: "off (ptr_add (Ptr (brk s) 0) (length n + 1)) - off (Ptr (brk s) 0) = length n + 1"
    by simp
  show "VMLSetEnv name val overwrite s = setenv_store (Ptr (brk s) 0) (key_index n es) ?s"
    by (simp only: VMLSetEnv_def bad_name_at[OF name] vn vnn old c_strlen_at[OF name]
        c_strlen_at[OF val] bind.bind_lunit Let_def m prod.case simp_thms if_True if_False
        ptr.distinct c_strlen_at[OF new(2)] klen loop)
qed

lemma VMLSetEnv_rep:
  assumes inv: "env_inv s ids es" and name: "cstr_at s name n" and val: "cstr_at s val v"
    and room: "env_fits n v es"
  shows "\<exists>r s' ids' es'. VMLSetEnv name val overwrite s = Some (r, s') \<and> env_inv s' ids' es' \<and>
     outside s' ids' = outside s ids \<and> oom s' = oom s \<and>
     ((r, es') = env_set n v overwrite es \<or> (r, es') = (- 1, es) \<and> out_of_memory s)"
proof -
  have ok: "mem_ok s" and rep: "env_rep s ids es" using inv by (auto simp: env_inv_def)
  consider (bad) "\<not> valid_name n"
    | (keep) "valid_name n" "overwrite = 0" "n \<in> set (map fst es)"
    | (run) "valid_name n" "\<not> (overwrite = 0 \<and> n \<in> set (map fst es))"
    by blast
  then show ?thesis
  proof cases
    case bad
    with VMLSetEnv_checks(1)[OF inv name val] inv show ?thesis by (force simp: env_set_def)
  next
    case keep
    with VMLSetEnv_checks(2)[OF inv name val] inv show ?thesis by (force simp: env_set_def)
  next
    case run
    let ?len = "length n + length v + 2" and ?nb = "brk s" and ?j = "key_index n es"
    let ?s = "s\<lparr>heap := (heap s)(?nb \<mapsto> (Libc, Bytes (terminated (entry_text (n, v))))),
                brk := Suc ?nb, tick := Suc (tick s)\<rparr>"
    have r1: "length n + length v + 2 < 2 ^ 32" and r2: "(length es + 2) * 4 < 2 ^ 32"
      using room by (auto simp: env_fits_def)
    note out = VMLSetEnv_run[OF inv name val run r1]
    have set_eq: "env_set n v overwrite es = (0, AList.update n v es)"
      using run by (auto simp: env_set_def)
    show ?thesis
    proof (cases "oom s (tick s) ?len")
      case True
      have "env_inv (s\<lparr>tick := Suc (tick s)\<rparr>) ids es"
        using ok rep by (auto simp: env_inv_def mem_ok_def elim!: env_rep_frame)
      moreover have "outside (s\<lparr>tick := Suc (tick s)\<rparr>) ids = outside s ids"
        by (simp add: outside_def owned_def)
      ultimately show ?thesis
        using out(1)[OF True] True by (force simp: out_of_memory_def)
    next
      case False
      note new = new_string[OF ok name val r1 False]
      have rep': "env_rep ?s ids es" using rep new(4) by (auto elim!: env_rep_frame)
      have own: "owned ?s ids = owned s ids" by (simp add: owned_def)
      have nb: "?nb \<notin> owned ?s ids"
        using env_rep_owned_live[OF rep, of ?nb] new(4) own by auto
      have rest: "heap ?s |` (- insert ?nb (owned ?s ids)) = outside s ids"
        using new(4) by (auto simp: outside_def own restrict_map_def fun_eq_iff)
      have nul: "NUL \<notin> set v" using val by (simp add: cstr_at_def)
      show ?thesis
      proof (cases "n \<in> set (map fst es)")
        case True
        have j: "?j < length es" and key: "fst (es ! ?j) = n"
          using True key_index_less[of n es] key_index_key[of n es] by auto
        obtain s' where "setenv_store (Ptr ?nb 0) ?j ?s = Some (0, s')"
          "env_rep s' (ids[?j := ?nb]) (es[?j := (n, v)])"
          "outside s' (ids[?j := ?nb]) = heap ?s |` (- insert ?nb (owned ?s ids))"
          "oom s' = oom ?s" "mem_ok ?s \<Longrightarrow> mem_ok s'"
          using setenv_store_replace[OF rep' j key new(3) nb nul] by metis
        moreover have "es[?j := (n, v)] = AList.update n v es"
          using update_at[OF env_inv_keys[OF inv] j key] by simp
        ultimately show ?thesis
          using out(2)[OF False] new(5) rest set_eq by (force simp: env_inv_def)
      next
        case absent: False
        then have j: "?j = length es"
          using key_index_less[of n es] key_index_le[of n es] by linarith
        show ?thesis
        proof (cases "oom ?s (tick ?s) ((length es + 2) * 4)")
          case True
          let ?s' = "?s\<lparr>tick := Suc (tick ?s), heap := (heap ?s)(?nb := None)\<rparr>"
          have "setenv_store (Ptr ?nb 0) (length es) ?s = Some (- 1, ?s')"
            by (rule setenv_store_nomem[OF rep' new(3) nb r2 True])
          moreover have "heap ?s' = heap s" using new(4) by (simp add: fun_eq_iff)
          moreover have "env_inv ?s' ids es"
            using ok rep calculation(2) by (auto simp: env_inv_def mem_ok_def elim!: env_rep_frame)
          moreover have "outside ?s' ids = outside s ids"
            using calculation(2) by (simp add: outside_def owned_def)
          ultimately show ?thesis
            using out(2)[OF False] True j by (force simp: out_of_memory_def)
        next
          case room2: False
          obtain s' where "setenv_store (Ptr ?nb 0) (length es) ?s = Some (0, s')"
            "env_rep s' (ids @ [?nb]) (es @ [(n, v)])"
            "outside s' (ids @ [?nb]) = heap ?s |` (- insert ?nb (owned ?s ids))"
            "mem_ok s'" "oom s' = oom ?s"
            using setenv_store_append[OF rep' new(5) absent run(1) new(3) nb nul r2 room2] by metis
          moreover have "es @ [(n, v)] = AList.update n v es"
            using absent by (simp add: update_absent)
          ultimately show ?thesis
            using out(2)[OF False] rest set_eq j by (force simp: env_inv_def)
        qed
      qed
    qed
  qed
qed

section \<open>Removal\<close>

lemma VMLUnsetEnv_rep:
  assumes inv: "env_inv s ids es" and name: "cstr_at s name n"
  shows "\<exists>r s' ids' es'. VMLUnsetEnv name s = Some (r, s') \<and> env_inv s' ids' es' \<and>
     outside s' ids' = outside s ids \<and> oom s' = oom s \<and> (r, es') = env_unset n es"
proof -
  have ok: "mem_ok s" and rep: "env_rep s ids es" using inv by (auto simp: env_inv_def)
  show ?thesis
  proof (cases "valid_name n \<and> n \<in> set (map fst es)")
    case False
    have "VMLUnsetEnv name s = Some (- 1, s)"
    proof (cases "valid_name n \<and> VML_env s \<noteq> NULL")
      case True
      then show ?thesis
        using False unsetenv_loop_rep[OF rep _ name, of 0] name
        by (simp add: VMLUnsetEnv_def env_simps mem_simps)
    next
      case no: False
      then show ?thesis using name by (auto simp: VMLUnsetEnv_def env_simps mem_simps)
    qed
    moreover have "env_unset n es = (- 1, es)" unfolding env_unset_def using False by simp
    ultimately show ?thesis using inv by force
  next
    case True
    let ?j = "key_index n es"
    have j: "?j < length es" using True key_index_less[of n es] by simp
    have nn: "VML_env s \<noteq> NULL"
      using rep j env_rep_length[OF rep] by (auto simp: env_rep_def array_at_def)
    obtain s' where *: "c_free (Ptr (ids ! ?j) 0) s = Some (s\<lparr>heap := (heap s)(ids ! ?j := None)\<rparr>)"
      "shift_loop (VML_env s) ?j (s\<lparr>heap := (heap s)(ids ! ?j := None)\<rparr>) = Some s'"
      "env_rep s' (take ?j ids @ drop (Suc ?j) ids) (take ?j es @ drop (Suc ?j) es)"
      "outside s' (take ?j ids @ drop (Suc ?j) ids) = outside s ids"
      "mem_ok s'" "oom s' = oom s"
      using remove_entry[OF rep j] ok by metis
    have "VMLUnsetEnv name s = Some (0, s')"
      using unsetenv_loop_rep[OF rep nn name, of 0] True name nn *(1,2)
      by (simp add: VMLUnsetEnv_def env_simps mem_simps)
    moreover have "env_unset n es = (0, take ?j es @ drop (Suc ?j) es)"
      unfolding env_unset_def using True by (simp add: drop_first_index)
    ultimately show ?thesis using * ok by (force simp: env_inv_def)
  qed
qed

section \<open>The interface the clients use\<close>

text \<open>
  \<open>abs s g es\<close>: state \<open>s\<close> with ghost data \<open>g\<close> holds the association list
  \<open>es\<close>; \<open>str\<close>: a readable string; \<open>held\<close>: a string of the client, which no
  operation touches; \<open>tight\<close>: the allocator may fail.
\<close>

locale env_store =
  fixes get :: "ptr \<Rightarrow> 's \<Rightarrow> ptr option"
    and put :: "ptr \<Rightarrow> ptr \<Rightarrow> int \<Rightarrow> 's \<Rightarrow> (int \<times> 's) option"
    and del :: "ptr \<Rightarrow> 's \<Rightarrow> (int \<times> 's) option"
    and abs :: "'s \<Rightarrow> 'g \<Rightarrow> (string \<times> string) list \<Rightarrow> bool"
    and str :: "'s \<Rightarrow> ptr \<Rightarrow> string \<Rightarrow> bool"
    and held :: "'s \<Rightarrow> 'g \<Rightarrow> ptr \<Rightarrow> string \<Rightarrow> bool"
    and tight :: "'s \<Rightarrow> bool"
  assumes held_str: "held s g p t \<Longrightarrow> str s p t"
    and abs_keys: "abs s g es \<Longrightarrow> distinct (map fst es)"
    and get_law: "abs s g es \<Longrightarrow> str s p n \<Longrightarrow>
      \<exists>q. get p s = Some q \<and> (case env_get n es of None \<Rightarrow> q = NULL | Some v \<Rightarrow> str s q v)"
    and put_law: "abs s g es \<Longrightarrow> str s p n \<Longrightarrow> str s q v \<Longrightarrow> env_fits n v es \<Longrightarrow>
      \<exists>r s' g' es'. put p q ov s = Some (r, s') \<and> abs s' g' es' \<and>
        (\<forall>x t. held s g x t \<longrightarrow> held s' g' x t) \<and> (tight s' \<longrightarrow> tight s) \<and>
        ((r, es') = env_set n v ov es \<or> (r, es') = (- 1, es) \<and> tight s)"
    and del_law: "abs s g es \<Longrightarrow> str s p n \<Longrightarrow>
      \<exists>r s' g' es'. del p s = Some (r, s') \<and> abs s' g' es' \<and>
        (\<forall>x t. held s g x t \<longrightarrow> held s' g' x t) \<and> (tight s' \<longrightarrow> tight s) \<and>
        (r, es') = env_unset n es"
begin

lemma put_get:
  assumes "abs s g es" and "held s g p n" and "str s q v" and "env_fits n v es" and "valid_name n"
    and "put p q ov s = Some (0, s')" and "ov \<noteq> 0 \<or> map_of es n = None"
  shows "\<exists>x. get p s' = Some x \<and> str s' x v"
proof -
  from put_law[OF assms(1) held_str[OF assms(2)] assms(3,4), of ov] assms(6)
  obtain g' es' where *: "abs s' g' es'" "held s' g' p n" "(0, es') = env_set n v ov es"
    using assms(2) by force
  have "n \<notin> set (map fst es)" if "map_of es n = None"
    using that by (simp add: map_of_eq_None_iff)
  then have es': "es' = AList.update n v es"
    using *(3) assms(5,7) by (auto simp: env_set_def split: if_splits)
  have "env_get n es' = Some v"
    using assms(5) by (simp add: env_get_def es' update_conv')
  with get_law[OF *(1) held_str[OF *(2)]] show ?thesis by simp
qed

lemma put_get_other:
  assumes "abs s g es" and "str s p n" and "str s q v" and "env_fits n v es"
    and "held s g p' n'" and "n' \<noteq> n" and "put p q ov s = Some (r, s')"
  shows "\<exists>x y. get p' s = Some x \<and> get p' s' = Some y \<and>
     (case env_get n' es of None \<Rightarrow> x = NULL \<and> y = NULL | Some w \<Rightarrow> str s x w \<and> str s' y w)"
proof -
  from put_law[OF assms(1-4), of ov] assms(7)
  obtain g' es' where *: "abs s' g' es'" "held s' g' p' n'"
      "(r, es') = env_set n v ov es \<or> (r, es') = (- 1, es)"
    using assms(5) by force
  have "env_get n' es' = env_get n' es"
    using *(3) assms(6) by (auto simp: env_get_def env_set_def update_conv' split: if_splits)
  with get_law[OF assms(1) held_str[OF assms(5)]] get_law[OF *(1) held_str[OF *(2)]]
  show ?thesis by (auto split: option.splits)
qed

lemma del_get:
  assumes "abs s g es" and "held s g p n" and "del p s = Some (r, s')"
  shows "get p s' = Some NULL" and "r = (if env_get n es = None then - 1 else 0)"
proof -
  from del_law[OF assms(1) held_str[OF assms(2)]] assms(3)
  obtain g' es' where *: "abs s' g' es'" "held s' g' p n" "(r, es') = env_unset n es"
    using assms(2) by force
  note dist = abs_keys[OF assms(1)]
  have "env_get n es' = None"
    using *(3)
    by (cases "map_of es n")
      (auto simp: env_unset_def env_get_def drop_first_delete[OF dist] delete_conv'
        map_of_eq_None_iff split: if_splits simp flip: map_of_eq_None_iff)
  with get_law[OF *(1) held_str[OF *(2)]] show "get p s' = Some NULL" by simp
  show "r = (if env_get n es = None then - 1 else 0)"
    using *(3) by (auto simp: env_unset_def env_get_def map_of_eq_None_iff split: if_splits)
qed

lemma put_keeps:
  assumes "abs s g es" and "str s p n" and "str s q v" and "env_fits n v es"
    and "valid_name n" and "map_of es n = Some w" and "\<not> tight s"
  shows "\<exists>s' g'. put p q 0 s = Some (0, s') \<and> abs s' g' es"
proof -
  have "env_set n v 0 es = (0, es)"
    using assms(5) map_of_SomeD[OF assms(6)] by (force simp: env_set_def)
  with put_law[OF assms(1-4), of 0] assms(7) show ?thesis by force
qed

lemma put_bad_name:
  assumes "abs s g es" and "str s p n" and "str s q v" and "env_fits n v es" and "\<not> valid_name n"
  shows "\<exists>s' g'. put p q ov s = Some (- 1, s') \<and> abs s' g' es"
  using put_law[OF assms(1-4), of ov] assms(5) by (force simp: env_set_def)

lemma put_total:
  assumes "abs s g es" and "str s p n" and "str s q v" and "env_fits n v es"
    and "valid_name n" and "\<not> tight s"
  shows "\<exists>s' g' es'. put p q ov s = Some (0, s') \<and> abs s' g' es' \<and> \<not> tight s'"
  using put_law[OF assms(1-4), of ov] assms(5,6) by (force simp: env_set_def split: if_splits)

end

interpretation vml: env_store VMLGetEnv VMLSetEnv VMLUnsetEnv
  "env_inv :: 'a env_state_scheme \<Rightarrow> nat list \<Rightarrow> (string \<times> string) list \<Rightarrow> bool"
  cstr_at env_held out_of_memory
proof unfold_locales
  show "cstr_at s p t" if "env_held s g p t" for s :: "'a env_state_scheme" and g p t
    using that by (simp add: env_held_def)
  show "distinct (map fst es)" if "env_inv s g es" for s :: "'a env_state_scheme" and g es
    using that by (rule env_inv_keys)
  show "\<exists>q. VMLGetEnv p s = Some q \<and>
      (case env_get n es of None \<Rightarrow> q = NULL | Some v \<Rightarrow> cstr_at s q v)"
    if "env_inv s g es" "cstr_at s p n" for s :: "'a env_state_scheme" and g es p n
    using that by (rule VMLGetEnv_rep)
  show "\<exists>r s' g' es'. VMLSetEnv p q ov s = Some (r, s') \<and> env_inv s' g' es' \<and>
      (\<forall>x t. env_held s g x t \<longrightarrow> env_held s' g' x t) \<and> (out_of_memory s' \<longrightarrow> out_of_memory s) \<and>
      ((r, es') = env_set n v ov es \<or> (r, es') = (- 1, es) \<and> out_of_memory s)"
    if "env_inv s g es" "cstr_at s p n" "cstr_at s q v" "env_fits n v es"
    for s :: "'a env_state_scheme" and g es p n q v ov
    using VMLSetEnv_rep[OF that, of ov] held_frame by (fastforce simp: out_of_memory_def)
  show "\<exists>r s' g' es'. VMLUnsetEnv p s = Some (r, s') \<and> env_inv s' g' es' \<and>
      (\<forall>x t. env_held s g x t \<longrightarrow> env_held s' g' x t) \<and> (out_of_memory s' \<longrightarrow> out_of_memory s) \<and>
      (r, es') = env_unset n es"
    if "env_inv s g es" "cstr_at s p n" for s :: "'a env_state_scheme" and g es p n
    using VMLUnsetEnv_rep[OF that] held_frame by (fastforce simp: out_of_memory_def)
qed

text \<open>The C library names provide the same interface.\<close>

lemma libc_names: "getenv = VMLGetEnv" "setenv = VMLSetEnv" "unsetenv = VMLUnsetEnv"
  by (simp_all add: fun_eq_iff getenv_def setenv_def unsetenv_def)

interpretation libc: env_store getenv setenv unsetenv
  "env_inv :: 'a env_state_scheme \<Rightarrow> nat list \<Rightarrow> (string \<times> string) list \<Rightarrow> bool"
  cstr_at env_held out_of_memory
  unfolding libc_names by (rule vml.env_store_axioms)

end
