(* ===== verification/EnvProps.thy ===== *)
theory EnvProps
  imports EnvApi
begin

text \<open>
  The properties of the environment component, each a few steps over the refinement lemmas
  and the interface facts, with a concrete environment on which their hypotheses hold: the
  caller's strings \<open>A\<close>, \<open>x\<close> and \<open>=\<close> in blocks 0, 1 and 4, one entry
  \<open>A=x\<close> in block 2, the array in block 3.
\<close>

section \<open>A concrete environment\<close>

definition demo_env :: env_state where
  "demo_env = \<lparr>heap = [0 \<mapsto> (Fixed, Bytes (terminated ''A'')), 1 \<mapsto> (Fixed, Bytes (terminated ''x'')),
       2 \<mapsto> (Libc, Bytes (terminated ''A=x'')), 3 \<mapsto> (Libc, Cells [Some (Ptr 2 0), Some NULL]),
       4 \<mapsto> (Fixed, Bytes (terminated ''=''))],
     brk = 5, tick = 0, oom = (\<lambda>_ _. False), VML_env = Ptr 3 0\<rparr>"

lemma demo_inv: "env_inv demo_env [2] [(''A'', ''x'')]"
  by (auto simp: demo_env_def env_inv_def mem_ok_def env_rep_def wf_entries_def valid_name_def
      entry_at_def entry_text_def array_at_def)

lemma demo_strings:
  "cstr_at demo_env (Ptr 0 0) ''A''" "cstr_at demo_env (Ptr 1 0) ''x''"
  "cstr_at demo_env (Ptr 4 0) ''=''" "cstr_at demo_env (Ptr 2 2) ''x''"
  by (simp_all add: demo_env_def cstr_at_def rd_bytes_def terminated_def numeral_2_eq_2)

lemma demo_held: "env_held demo_env [2] (Ptr 0 0) ''A''" "env_held demo_env [2] (Ptr 1 0) ''x''"
  using demo_strings by (simp_all add: env_held_def owned_def demo_env_def)

lemma demo_roomy: "\<not> out_of_memory demo_env"
  by (simp add: out_of_memory_def demo_env_def)

lemma demo_fits: "env_fits ''A'' ''x'' [(''A'', ''x'')]" "env_fits ''x'' ''x'' [(''A'', ''x'')]"
  "env_fits ''='' ''x'' [(''A'', ''x'')]"
  by (simp_all add: env_fits_def)

lemma demo_names: "valid_name ''A''" "valid_name ''x''" "\<not> valid_name ''=''"
  by (simp_all add: valid_name_def)

lemmas demo = demo_inv demo_strings demo_held demo_roomy demo_fits demo_names

section \<open>Refinement of the three entry points\<close>

text \<open>
  C1: VMLSetEnv never runs into undefined behaviour, whatever storage its two arguments point
  to (a value that lies inside the environment itself included), and refines the map update:
  it ends with 0 or -1 as the abstract operation says, or with -1 and an unchanged map when the
  allocator fails. It changes no block outside the environment and leaks none.
\<close>

theorem VMLSetEnv_refines:
  assumes "env_inv s ids es" and "cstr_at s name n" and "cstr_at s val v" and "env_fits n v es"
  shows "\<exists>r s' ids' es'. VMLSetEnv name val overwrite s = Some (r, s') \<and> env_inv s' ids' es' \<and>
     outside s' ids' = outside s ids \<and> oom s' = oom s \<and>
     ((r, es') = env_set n v overwrite es \<or> (r, es') = (- 1, es) \<and> out_of_memory s)"
  using assms by (rule VMLSetEnv_rep)

theorem VMLSetEnv_refines_witness:
  "\<exists>s' ids'. VMLSetEnv (Ptr 1 0) (Ptr 2 2) 1 demo_env = Some (0, s') \<and>
     env_inv s' ids' [(''A'', ''x''), (''x'', ''x'')] \<and> outside s' ids' = outside demo_env [2]"
  using VMLSetEnv_refines[OF demo_inv demo_strings(2,4) demo_fits(2), of 1] demo_roomy demo_names
  by (force simp: env_set_def)

text \<open>
  C3: VMLGetEnv never runs into undefined behaviour; it answers a pointer to the value of the
  map at the name, and null when the name is malformed or absent.
\<close>

theorem VMLGetEnv_refines:
  assumes "env_inv s ids es" and "cstr_at s name n"
  shows "\<exists>q. VMLGetEnv name s = Some q \<and>
     (case env_get n es of None \<Rightarrow> q = NULL | Some v \<Rightarrow> cstr_at s q v)"
  using assms by (rule VMLGetEnv_rep)

theorem VMLGetEnv_refines_witness:
  "\<exists>q. VMLGetEnv (Ptr 0 0) demo_env = Some q \<and> cstr_at demo_env q ''x''"
  using VMLGetEnv_refines[OF demo_inv demo_strings(1)] demo_names by (simp add: env_get_def)

text \<open>
  C2: VMLUnsetEnv never runs into undefined behaviour and refines the removal from the map:
  0 and the entry gone when it was there, -1 and nothing changed otherwise. It frees the
  entry, changes no block outside the environment and leaks none.
\<close>

theorem VMLUnsetEnv_refines:
  assumes "env_inv s ids es" and "cstr_at s name n"
  shows "\<exists>r s' ids' es'. VMLUnsetEnv name s = Some (r, s') \<and> env_inv s' ids' es' \<and>
     outside s' ids' = outside s ids \<and> (r, es') = env_unset n es"
  using VMLUnsetEnv_rep[OF assms] by blast

theorem VMLUnsetEnv_refines_witness:
  "\<exists>s' ids'. VMLUnsetEnv (Ptr 0 0) demo_env = Some (0, s') \<and> env_inv s' ids' []"
  using VMLUnsetEnv_refines[OF demo_inv demo_strings(1)] demo_names
  by (force simp: env_unset_def)

section \<open>Laws of the map\<close>

text \<open>
  After a successful VMLSetEnv that was allowed to write, VMLGetEnv of the same name
  answers a pointer to the value that was set.
\<close>

lemma setenv_then_getenv:
  assumes "env_inv s ids es" and "env_held s ids name n" and "cstr_at s val v"
    and "env_fits n v es" and "valid_name n"
    and "VMLSetEnv name val overwrite s = Some (0, s')"
    and "overwrite \<noteq> 0 \<or> map_of es n = None"
  shows "\<exists>q. VMLGetEnv name s' = Some q \<and> cstr_at s' q v"
  using assms by (rule vml.put_get)

lemma setenv_then_getenv_witness:
  "\<exists>s' q. VMLSetEnv (Ptr 0 0) (Ptr 1 0) 1 demo_env = Some (0, s') \<and>
     VMLGetEnv (Ptr 0 0) s' = Some q \<and> cstr_at s' q ''x''"
  using vml.put_total[OF demo_inv demo_strings(1,2) demo_fits(1) demo_names(1) demo_roomy, of 1]
    setenv_then_getenv[OF demo_inv demo_held(1) demo_strings(2) demo_fits(1) demo_names(1), of 1]
  by auto

text \<open>
  VMLSetEnv leaves every other name as it was, whether it succeeds or fails.
\<close>

lemma setenv_keeps_others:
  assumes "env_inv s ids es" and "cstr_at s name n" and "cstr_at s val v" and "env_fits n v es"
    and "env_held s ids name' n'" and "n' \<noteq> n" and "VMLSetEnv name val overwrite s = Some (r, s')"
  shows "\<exists>x y. VMLGetEnv name' s = Some x \<and> VMLGetEnv name' s' = Some y \<and>
     (case env_get n' es of None \<Rightarrow> x = NULL \<and> y = NULL | Some w \<Rightarrow> cstr_at s x w \<and> cstr_at s' y w)"
  using assms by (rule vml.put_get_other)

theorem setenv_keeps_others_witness:
  "\<exists>r s' y. VMLSetEnv (Ptr 1 0) (Ptr 1 0) 1 demo_env = Some (r, s') \<and>
     VMLGetEnv (Ptr 0 0) s' = Some y \<and> cstr_at s' y ''x''"
proof -
  obtain r s' where run: "VMLSetEnv (Ptr 1 0) (Ptr 1 0) 1 demo_env = Some (r, s')"
    using VMLSetEnv_rep[OF demo_inv demo_strings(2,2) demo_fits(2)] by blast
  then show ?thesis
    using setenv_keeps_others[OF demo_inv demo_strings(2,2) demo_fits(2) demo_held(1) _ run]
      demo_names by (auto simp: env_get_def)
qed

text \<open>
  After VMLUnsetEnv the name is gone, and the result says whether it had been there.
\<close>

lemma unsetenv_then_getenv:
  assumes "env_inv s ids es" and "env_held s ids name n" and "VMLUnsetEnv name s = Some (r, s')"
  shows "VMLGetEnv name s' = Some NULL \<and> r = (if env_get n es = None then - 1 else 0)"
  using vml.del_get[OF assms] by blast

theorem unsetenv_then_getenv_witness:
  "\<exists>s'. VMLUnsetEnv (Ptr 0 0) demo_env = Some (0, s') \<and> VMLGetEnv (Ptr 0 0) s' = Some NULL"
proof -
  obtain r s' where run: "VMLUnsetEnv (Ptr 0 0) demo_env = Some (r, s')"
    using VMLUnsetEnv_rep[OF demo_inv demo_strings(1)] by blast
  then show ?thesis
    using unsetenv_then_getenv[OF demo_inv demo_held(1) run] demo_names
    by (simp add: env_get_def)
qed

text \<open>
  A malformed name (null, empty, or with an equals sign) is refused by all three functions,
  and so is a null value by VMLSetEnv; the state does not change, not even the allocator's.
\<close>

lemma bad_arguments_refused:
  assumes "env_inv s ids es" and "name = NULL \<or> (cstr_at s name n \<and> \<not> valid_name n)"
  shows "VMLGetEnv name s = Some NULL \<and> VMLSetEnv name val overwrite s = Some (- 1, s) \<and>
     VMLUnsetEnv name s = Some (- 1, s) \<and>
     (cstr_at s p m \<longrightarrow> VMLSetEnv p NULL overwrite s = Some (- 1, s))"
  using assms by (auto simp: VMLGetEnv_def VMLSetEnv_def VMLUnsetEnv_def env_simps)

lemma bad_arguments_refused_witness:
  "VMLSetEnv (Ptr 4 0) (Ptr 1 0) 1 demo_env = Some (- 1, demo_env) \<and>
   VMLSetEnv (Ptr 0 0) NULL 1 demo_env = Some (- 1, demo_env)"
  using bad_arguments_refused[OF demo_inv, of "Ptr 4 0" "''=''" "Ptr 1 0" 1 "Ptr 0 0" "''A''"]
    demo by simp

text \<open>
  Setting a variable to the very pointer that VMLGetEnv returned for it is safe although the
  old entry is freed on the way: the new string is built first. The map is unchanged.
\<close>

lemma setenv_own_value:
  assumes "env_inv s ids es" and "env_held s ids name n" and "env_get n es = Some v"
    and "env_fits n v es" and "\<not> out_of_memory s" and "VMLGetEnv name s = Some q"
  shows "\<exists>s' ids'. VMLSetEnv name q 1 s = Some (0, s') \<and> env_inv s' ids' es"
proof -
  have vn: "valid_name n" and m: "map_of es n = Some v"
    using assms(3) by (auto simp: env_get_def split: if_splits)
  have name: "cstr_at s name n" using assms(2) by (simp add: env_held_def)
  have val: "cstr_at s q v" using VMLGetEnv_rep[OF assms(1) name] assms(3,6) by simp
  have "AList.update n v es = es"
    using m by (induction es) (auto split: if_splits)
  with VMLSetEnv_rep[OF assms(1) name val assms(4), of 1] vn assms(5) show ?thesis
    by (force simp: env_set_def)
qed

lemma setenv_own_value_witness:
  "\<exists>s' ids'. VMLSetEnv (Ptr 0 0) (Ptr 2 2) 1 demo_env = Some (0, s') \<and>
     env_inv s' ids' [(''A'', ''x'')]"
proof -
  have "VMLGetEnv (Ptr 0 0) demo_env = Some (Ptr 2 2)"
    using VMLGetEnv_ptr[of demo_env "[2]" "[(''A'', ''x'')]" "Ptr 0 0" "''A''"] demo
    by (simp add: env_inv_def numeral_2_eq_2)
  then show ?thesis
    using setenv_own_value[OF demo_inv demo_held(1) _ demo_fits(1) demo_roomy] demo_names
    by (simp add: env_get_def)
qed

end
