(* ===== verification/Icalls.thy ===== *)
theory Icalls
  imports EnvApi
begin

text \<open>
  The internal calls that replace the runtime's own ones:
  \<open>VMLCoreAssemblies/patches/mono/metadata/icall.c\<close> and \<open>file-io.c\<close>. They turn managed
  strings into C strings of the bridge allocator, call the environment, and give the buffers
  back. The three functions of the runtime they call are parameters.
\<close>

section \<open>Managed strings and the runtime's functions\<close>

text \<open>\<open>MonoString\<close>: a length and UTF-16 units.\<close>

record mono_string =
  ms_length :: int
  ms_chars :: "u16 list"

text \<open>
  A null managed string is \<open>None\<close>. \<open>mono_string_new\<close> stands for
  \<open>mono_string_new (mono_domain_get (), p)\<close>; \<open>None\<close> if the C string cannot be read.
\<close>

record 's runtime =
  mono_string_to_utf8 :: "mono_string option \<Rightarrow> 's \<Rightarrow> ptr \<times> 's"
  sceLibcMonoBridgeFree :: "ptr \<Rightarrow> 's \<Rightarrow> 's option"
  mono_string_new :: "ptr \<Rightarrow> 's \<Rightarrow> mono_string option"

section \<open>The internal calls\<close>

text \<open>An out-parameter is the cell it points to, \<open>None\<close> while nothing has been written.\<close>

definition vml_icall_System_Text_Encoding_InternalCodePage ::
  "'s runtime \<Rightarrow> ptr \<Rightarrow> u32 option \<Rightarrow> 's \<Rightarrow> (mono_string \<times> u32 option) option" where
  "vml_icall_System_Text_Encoding_InternalCodePage R utf_8 int_code_page s =
     (let int_code_page = Some (- 1)
      in map_option (\<lambda>r. (r, int_code_page)) (mono_string_new R utf_8 s))"

unbundle bit_operations_syntax

text \<open>\<open>ticks\<close> is what \<open>sceRtcGetCurrentTick\<close> stores.\<close>

definition ves_icall_System_Environment_get_TickCount :: "u64 \<Rightarrow> u32" where
  "ves_icall_System_Environment_get_TickCount ticks = ucast (ticks AND 0xffffffff)"

definition ves_icall_System_Environment_GetEnvironmentVariable ::
  "'a env_state_scheme runtime \<Rightarrow> mono_string option \<Rightarrow> 'a env_state_scheme \<Rightarrow>
   (mono_string option \<times> 'a env_state_scheme) option" where
  "ves_icall_System_Environment_GetEnvironmentVariable R name s =
    (if name = None then Some (None, s)
     else do {
       (utf8_name, s) \<leftarrow> Some (mono_string_to_utf8 R name s);
       v \<leftarrow> VMLGetEnv utf8_name s;
       s \<leftarrow> sceLibcMonoBridgeFree R utf8_name s;
       if v = NULL then Some (None, s)
       else do {
         r \<leftarrow> mono_string_new R v s;
         Some (Some r, s) } })"

text \<open>\<open>(value == NULL) || (mono_string_length (value) == 0) || (mono_string_chars (value)[0] == 0)\<close>\<close>

definition no_value :: "mono_string option \<Rightarrow> bool option" where
  "no_value val =
    (case val of None \<Rightarrow> Some True
     | Some ms \<Rightarrow>
         if ms_length ms = 0 then Some True
         else (case ms_chars ms of [] \<Rightarrow> None | c # _ \<Rightarrow> Some (c = 0)))"

definition ves_icall_System_Environment_InternalSetEnvironmentVariable ::
  "'a env_state_scheme runtime \<Rightarrow> mono_string option \<Rightarrow> mono_string option \<Rightarrow> 'a env_state_scheme \<Rightarrow>
   'a env_state_scheme option" where
  "ves_icall_System_Environment_InternalSetEnvironmentVariable R name val s = do {
     (utf8_name, s) \<leftarrow> Some (mono_string_to_utf8 R name s);
     drop_it \<leftarrow> no_value val;
     if drop_it then do {
       (_, s) \<leftarrow> VMLUnsetEnv utf8_name s;
       sceLibcMonoBridgeFree R utf8_name s }
     else do {
       (utf8_value, s) \<leftarrow> Some (mono_string_to_utf8 R val s);
       (_, s) \<leftarrow> VMLSetEnv utf8_name utf8_value 1 s;
       s \<leftarrow> sceLibcMonoBridgeFree R utf8_name s;
       sceLibcMonoBridgeFree R utf8_value s } }"

text \<open>\<open>file-io.c\<close>: \<open>cur_dir\<close> is the literal \<open>DEFAULT_CURRENT_DIRECTORY\<close>.\<close>

definition DEFAULT_CURRENT_DIRECTORY :: string where
  "DEFAULT_CURRENT_DIRECTORY = ''app0:''"

definition vml_icall_System_IO_MonoIO_GetCurrentDirectory ::
  "'s runtime \<Rightarrow> ptr \<Rightarrow> u32 option \<Rightarrow> 's \<Rightarrow> (mono_string \<times> u32 option) option" where
  "vml_icall_System_IO_MonoIO_GetCurrentDirectory R cur_dir error s =
     map_option (\<lambda>r. (r, error)) (mono_string_new R cur_dir s)"

section \<open>What the code relies on\<close>

text \<open>
  The documented behaviour of the runtime's functions: the conversion of a string is a fresh
  null-terminated buffer of the bridge allocator and of a null string the null pointer, the
  bridge's \<open>free\<close> releases such a buffer and accepts null, and a new string is made from the
  text at its argument. \<open>enc\<close> and \<open>dec\<close> name the two conversions.
\<close>

definition runtime_ok ::
  "'a env_state_scheme runtime \<Rightarrow> (mono_string \<Rightarrow> string) \<Rightarrow> (string \<Rightarrow> mono_string) \<Rightarrow> bool" where
  "runtime_ok R enc dec \<longleftrightarrow>
    (\<forall>s. mono_string_to_utf8 R None s = (NULL, s)) \<and>
    (\<forall>ms s. mem_ok s \<longrightarrow> (\<exists>b s'. mono_string_to_utf8 R (Some ms) s = (Ptr b 0, s') \<and> heap s b = None \<and>
       heap s' = (heap s)(b \<mapsto> (Bridge, Bytes (terminated (enc ms)))) \<and>
       mem_ok s' \<and> oom s' = oom s \<and> VML_env s' = VML_env s)) \<and>
    (\<forall>p s. sceLibcMonoBridgeFree R p s = free_in Bridge p s) \<and>
    (\<forall>p s t. cstr_at s p t \<longrightarrow> mono_string_new R p s = Some (dec t))"

text \<open>The C string that a conversion stands for ends at its first null character.\<close>

definition c_text :: "(mono_string \<Rightarrow> string) \<Rightarrow> mono_string \<Rightarrow> string" where
  "c_text enc ms = takeWhile (\<lambda>c. c \<noteq> NUL) (enc ms)"

lemma c_text_at:
  assumes "heap s b = Some (a, Bytes (terminated (enc ms)))"
  shows "cstr_at s (Ptr b 0) (c_text enc ms)"
proof -
  have nul: "NUL \<notin> set (c_text enc ms)"
    by (auto simp: c_text_def dest: set_takeWhileD)
  have "\<exists>r. enc ms @ [NUL] = c_text enc ms @ NUL # r"
  proof (cases "dropWhile (\<lambda>c. c \<noteq> NUL) (enc ms)")
    case Nil
    then have "c_text enc ms = enc ms"
      unfolding c_text_def by (metis append_Nil2 takeWhile_dropWhile_id)
    then show ?thesis by simp
  next
    case (Cons c r)
    then have "c = NUL" by (metis (mono_tags, lifting) dropWhile_eq_Cons_conv)
    with Cons have "enc ms = c_text enc ms @ NUL # r"
      unfolding c_text_def by (metis takeWhile_dropWhile_id)
    then show ?thesis by (metis append_Cons append_assoc)
  qed
  then obtain r where "enc ms @ [NUL] = c_text enc ms @ NUL # r" ..
  then have "terminated (enc ms) = List.map Some (c_text enc ms @ NUL # r)"
    unfolding terminated_def by (rule arg_cong)
  then have "terminated (enc ms) = terminated (c_text enc ms) @ List.map Some r"
    by (simp add: terminated_def)
  with assms nul show ?thesis
    by (auto simp: rd_bytes_def intro!: cstr_atI)
qed

section \<open>Buffers\<close>

lemma env_inv_owned_frame:
  assumes "env_inv s ids es" "VML_env s' = VML_env s" "mem_ok s'"
    and "\<And>b. b \<in> owned s ids \<Longrightarrow> heap s' b = heap s b"
  shows "env_inv s' ids es"
proof -
  have rep: "env_rep s ids es" using assms(1) by (simp add: env_inv_def)
  have "heap s' b = heap s b" if "b \<in> set ids" for b
    using assms(4) that by (simp add: owned_def)
  then have "list_all2 (entry_at s') ids es"
    using rep by (auto simp: env_rep_def entry_at_def list_all2_conv_all_nth)
  moreover have "array_at s' (VML_env s') ids"
    using rep assms(2,4) by (auto simp: env_rep_def array_at_def owned_def split: ptr.splits)
  ultimately show ?thesis using rep assms(3) by (simp add: env_inv_def env_rep_def)
qed

lemma to_utf8_run:
  assumes "runtime_ok R enc dec" "env_inv s ids es"
  obtains b s' where "mono_string_to_utf8 R (Some ms) s = (Ptr b 0, s')"
    and "env_inv s' ids es" and "cstr_at s' (Ptr b 0) (c_text enc ms)"
    and "outside s' ids = (outside s ids)(b \<mapsto> (Bridge, Bytes (terminated (enc ms))))"
    and "outside s ids b = None" and "oom s' = oom s"
    and "\<And>p t. cstr_at s p t \<Longrightarrow> cstr_at s' p t"
proof -
  have ok: "mem_ok s" and rep: "env_rep s ids es" using assms(2) by (auto simp: env_inv_def)
  from assms(1) have "\<forall>ms s. mem_ok s \<longrightarrow>
      (\<exists>b s'. mono_string_to_utf8 R (Some ms) s = (Ptr b 0, s') \<and> heap s b = None \<and>
       heap s' = (heap s)(b \<mapsto> (Bridge, Bytes (terminated (enc ms)))) \<and>
       mem_ok s' \<and> oom s' = oom s \<and> VML_env s' = VML_env s)"
    unfolding runtime_ok_def by blast
  with ok obtain b s' where *: "mono_string_to_utf8 R (Some ms) s = (Ptr b 0, s')" "heap s b = None"
    "heap s' = (heap s)(b \<mapsto> (Bridge, Bytes (terminated (enc ms))))"
    "mem_ok s'" "oom s' = oom s" "VML_env s' = VML_env s" by blast
  have own: "owned s' ids = owned s ids" "b \<notin> owned s ids"
    using *(2,6) env_rep_owned_live [OF rep, of b] by (simp_all add: owned_def) blast
  show thesis
  proof (rule that [OF *(1) _ _ _ _ *(5)])
    show "env_inv s' ids es"
      by (rule env_inv_owned_frame [OF assms(2) *(6,4)]) (use *(3) own(2) in auto)
    show "cstr_at s' (Ptr b 0) (c_text enc ms)"
      by (rule c_text_at) (simp add: *(3))
    show "outside s' ids = (outside s ids)(b \<mapsto> (Bridge, Bytes (terminated (enc ms))))"
      using own by (auto simp: outside_def *(3) restrict_map_def)
    show "outside s ids b = None" using *(2) by (simp add: outside_def restrict_map_def)
    show "cstr_at s' p t" if "cstr_at s p t" for p t
      by (rule cstr_at_frame [OF that]) (use *(2,3) in auto)
  qed
qed

lemma bridge_free_run:
  assumes "runtime_ok R enc dec" "env_inv s ids es"
    and "outside s ids b = Some (Bridge, x)"
  obtains s' where "sceLibcMonoBridgeFree R (Ptr b 0) s = Some s'"
    and "env_inv s' ids es" and "outside s' ids = (outside s ids)(b := None)" and "oom s' = oom s"
proof -
  have b: "heap s b = Some (Bridge, x)" "b \<notin> owned s ids"
    using assms(3) by (auto simp: outside_def restrict_map_def split: if_splits)
  let ?s = "s\<lparr>heap := (heap s)(b := None)\<rparr>"
  have "sceLibcMonoBridgeFree R (Ptr b 0) s = Some ?s"
    using assms(1) b(1) by (simp add: runtime_ok_def free_in_def)
  moreover have "env_inv ?s ids es"
    by (rule env_inv_owned_frame [OF assms(2)])
      (use assms(2) b(2) in \<open>auto simp: env_inv_def mem_ok_def\<close>)
  moreover have "outside ?s ids = (outside s ids)(b := None)"
    by (auto simp: outside_def restrict_map_def owned_def)
  ultimately show thesis using that by simp
qed

lemma bridge_free_NULL: "runtime_ok R enc dec \<Longrightarrow> sceLibcMonoBridgeFree R NULL s = Some s"
  by (simp add: runtime_ok_def free_in_def)

lemma entry_ptr_value:
  assumes "env_inv s ids es" "valid_name n"
  shows "case env_get n es of None \<Rightarrow> entry_ptr n ids es = NULL
    | Some v \<Rightarrow> entry_ptr n ids es \<noteq> NULL \<and> cstr_at s (entry_ptr n ids es) v"
proof -
  have rep: "env_rep s ids es" using assms(1) by (simp add: env_inv_def)
  note len = env_rep_length [OF rep]
  show ?thesis
  proof (cases "n \<in> set (map fst es)")
    case True
    let ?j = "key_index n es"
    have j: "?j < length es" using True key_index_less [of n es] by simp
    have key: "fst (es ! ?j) = n" using True by (rule key_index_key)
    have "env_get n es = Some (snd (es ! ?j))"
      using map_of_at [OF env_inv_keys [OF assms(1)] j] key assms(2) by (simp add: env_get_def)
    moreover have "cstr_at s (Ptr (ids ! ?j) (length n + 1)) (snd (es ! ?j))"
      using entry_at_value env_rep_entry(2,4) [OF rep j] key by metis
    ultimately show ?thesis using True by (simp add: entry_ptr_index [OF len])
  next
    case False
    then have "env_get n es = None" by (auto simp: env_get_def map_of_eq_None_iff)
    with False show ?thesis by (simp add: entry_ptr_index [OF len])
  qed
qed

section \<open>The environment calls\<close>

lemma GetEnvironmentVariable_run:
  assumes "runtime_ok R enc dec" "env_inv s ids es"
  shows "\<exists>s'. ves_icall_System_Environment_GetEnvironmentVariable R (Some ms) s =
       Some (map_option dec (env_get (c_text enc ms) es), s') \<and>
     env_inv s' ids es \<and> outside s' ids = outside s ids \<and> oom s' = oom s"
proof -
  let ?n = "c_text enc ms"
  obtain b s1 where 1: "mono_string_to_utf8 R (Some ms) s = (Ptr b 0, s1)" "env_inv s1 ids es"
    "cstr_at s1 (Ptr b 0) ?n" "outside s1 ids = (outside s ids)(b \<mapsto> (Bridge, Bytes (terminated (enc ms))))"
    "outside s ids b = None" "oom s1 = oom s"
    using to_utf8_run [OF assms] by metis
  have rep1: "env_rep s1 ids es" using 1(2) by (simp add: env_inv_def)
  have "outside s1 ids b = Some (Bridge, Bytes (terminated (enc ms)))" using 1(4) by simp
  then obtain s2 where 2: "sceLibcMonoBridgeFree R (Ptr b 0) s1 = Some s2" "env_inv s2 ids es"
    "outside s2 ids = (outside s1 ids)(b := None)" "oom s2 = oom s1"
    using bridge_free_run [OF assms(1) 1(2)] by metis
  have out: "outside s2 ids = outside s ids" using 2(3) 1(4,5) by auto
  note get = VMLGetEnv_ptr [OF rep1 1(3)]
  have new: "mono_string_new R p s2 = Some (dec t)" if "cstr_at s2 p t" for p t
    using assms(1) that by (simp add: runtime_ok_def)
  have res: "ves_icall_System_Environment_GetEnvironmentVariable R (Some ms) s =
      Some (map_option dec (env_get ?n es), s2)"
  proof (cases "valid_name ?n")
    case True
    show ?thesis
    proof (cases "env_get ?n es")
      case None
      then show ?thesis
        using entry_ptr_value [OF 2(2) True] get 1(1) 2(1) True
        by (simp add: ves_icall_System_Environment_GetEnvironmentVariable_def)
    next
      case (Some v)
      then have p: "entry_ptr ?n ids es \<noteq> NULL" "cstr_at s2 (entry_ptr ?n ids es) v"
        using entry_ptr_value [OF 2(2) True] by simp_all
      show ?thesis
        using Some new [OF p(2)] p(1) get 1(1) 2(1) True
        by (simp add: ves_icall_System_Environment_GetEnvironmentVariable_def)
    qed
  next
    case False
    then have "env_get ?n es = None" by (simp add: env_get_def)
    then show ?thesis
      using get 1(1) 2(1) False
      by (simp add: ves_icall_System_Environment_GetEnvironmentVariable_def)
  qed
  show ?thesis using res 2(2,4) 1(6) out by auto
qed

text \<open>\<open>InternalSetEnvironmentVariable\<close>: an absent value removes the variable, any other sets it.\<close>

lemma SetEnvironmentVariable_removes:
  assumes "runtime_ok R enc dec" "env_inv s ids es" "no_value val = Some True"
  shows "\<exists>s' ids'. ves_icall_System_Environment_InternalSetEnvironmentVariable R (Some ms) val s = Some s' \<and>
     env_inv s' ids' (snd (env_unset (c_text enc ms) es)) \<and> outside s' ids' = outside s ids \<and> oom s' = oom s"
proof -
  let ?n = "c_text enc ms"
  obtain b s1 where 1: "mono_string_to_utf8 R (Some ms) s = (Ptr b 0, s1)" "env_inv s1 ids es"
    "cstr_at s1 (Ptr b 0) ?n" "outside s1 ids = (outside s ids)(b \<mapsto> (Bridge, Bytes (terminated (enc ms))))"
    "outside s ids b = None" "oom s1 = oom s"
    using to_utf8_run [OF assms(1,2)] by metis
  obtain r s2 ids2 es2 where 2: "VMLUnsetEnv (Ptr b 0) s1 = Some (r, s2)" "env_inv s2 ids2 es2"
    "outside s2 ids2 = outside s1 ids" "oom s2 = oom s1" "(r, es2) = env_unset ?n es"
    using VMLUnsetEnv_rep [OF 1(2,3)] by blast
  have "outside s2 ids2 b = Some (Bridge, Bytes (terminated (enc ms)))" using 1(4) 2(3) by simp
  then obtain s3 where 3: "sceLibcMonoBridgeFree R (Ptr b 0) s2 = Some s3" "env_inv s3 ids2 es2"
    "outside s3 ids2 = (outside s2 ids2)(b := None)" "oom s3 = oom s2"
    using bridge_free_run [OF assms(1) 2(2)] by metis
  have "outside s3 ids2 = outside s ids" using 3(3) 2(3) 1(4,5) by auto
  moreover have "ves_icall_System_Environment_InternalSetEnvironmentVariable R (Some ms) val s = Some s3"
    using 1(1) 2(1) 3(1) assms(3)
    by (simp add: ves_icall_System_Environment_InternalSetEnvironmentVariable_def)
  moreover have "es2 = snd (env_unset ?n es)" using 2(5) by (metis snd_conv)
  ultimately show ?thesis using 3(2,4) 2(4) 1(6) by auto
qed

lemma SetEnvironmentVariable_sets:
  assumes "runtime_ok R enc dec" "env_inv s ids es" "no_value (Some mv) = Some False"
    and "env_fits (c_text enc ms) (c_text enc mv) es"
  shows "\<exists>s' ids' es'. ves_icall_System_Environment_InternalSetEnvironmentVariable R (Some ms) (Some mv) s = Some s' \<and>
     env_inv s' ids' es' \<and> outside s' ids' = outside s ids \<and> oom s' = oom s \<and>
     (es' = snd (env_set (c_text enc ms) (c_text enc mv) 1 es) \<or> es' = es \<and> out_of_memory s)"
proof -
  let ?n = "c_text enc ms"
  let ?v = "c_text enc mv"
  obtain b s1 where 1: "mono_string_to_utf8 R (Some ms) s = (Ptr b 0, s1)" "env_inv s1 ids es"
    "cstr_at s1 (Ptr b 0) ?n" "outside s1 ids = (outside s ids)(b \<mapsto> (Bridge, Bytes (terminated (enc ms))))"
    "outside s ids b = None" "oom s1 = oom s"
    using to_utf8_run [OF assms(1,2)] by metis
  obtain c s2 where 2: "mono_string_to_utf8 R (Some mv) s1 = (Ptr c 0, s2)" "env_inv s2 ids es"
    "cstr_at s2 (Ptr c 0) ?v" "outside s2 ids = (outside s1 ids)(c \<mapsto> (Bridge, Bytes (terminated (enc mv))))"
    "outside s1 ids c = None" "oom s2 = oom s1" "cstr_at s2 (Ptr b 0) ?n"
    using to_utf8_run [OF assms(1) 1(2)] 1(3) by metis
  have bc: "b \<noteq> c" using 1(4) 2(5) by auto
  obtain r s3 ids3 es3 where 3: "VMLSetEnv (Ptr b 0) (Ptr c 0) 1 s2 = Some (r, s3)" "env_inv s3 ids3 es3"
    "outside s3 ids3 = outside s2 ids" "oom s3 = oom s2"
    "(r, es3) = env_set ?n ?v 1 es \<or> (r, es3) = (- 1, es) \<and> out_of_memory s2"
    using VMLSetEnv_rep [OF 2(2,7,3) assms(4), of 1] by blast
  have "outside s3 ids3 b = Some (Bridge, Bytes (terminated (enc ms)))" using 1(4) 2(4) 3(3) bc by simp
  then obtain s4 where 4: "sceLibcMonoBridgeFree R (Ptr b 0) s3 = Some s4" "env_inv s4 ids3 es3"
    "outside s4 ids3 = (outside s3 ids3)(b := None)" "oom s4 = oom s3"
    using bridge_free_run [OF assms(1) 3(2)] by metis
  have "outside s4 ids3 c = Some (Bridge, Bytes (terminated (enc mv)))" using 2(4) 3(3) 4(3) bc by simp
  then obtain s5 where 5: "sceLibcMonoBridgeFree R (Ptr c 0) s4 = Some s5" "env_inv s5 ids3 es3"
    "outside s5 ids3 = (outside s4 ids3)(c := None)" "oom s5 = oom s4"
    using bridge_free_run [OF assms(1) 4(2)] by metis
  have "outside s ids c = None" using 2(5) 1(4) bc by (simp split: if_splits)
  then have "outside s5 ids3 = outside s ids"
    by (simp add: 5(3) 4(3) 3(3) 2(4) 1(4,5) fun_eq_iff)
  moreover have "ves_icall_System_Environment_InternalSetEnvironmentVariable R (Some ms) (Some mv) s = Some s5"
    using 1(1) 2(1) 3(1) 4(1) 5(1) assms(3)
    by (simp add: ves_icall_System_Environment_InternalSetEnvironmentVariable_def)
  moreover have "es3 = snd (env_set ?n ?v 1 es) \<or> es3 = es \<and> out_of_memory s"
    using 3(5) 2(6) 1(6) by (metis out_of_memory_def snd_conv)
  ultimately show ?thesis using 5(2,4) 4(4) 3(4) 2(6) 1(6) by metis
qed

end
