(* ===== verification/IcallProps.thy ===== *)
theory IcallProps
  imports Icalls EnvProps
begin

text \<open>
  The properties of the replaced internal calls, over every runtime that behaves as documented,
  with a concrete runtime on which the hypotheses hold.
\<close>

section \<open>A concrete runtime\<close>

definition demo_enc :: "mono_string \<Rightarrow> string" where
  "demo_enc ms = List.map (\<lambda>c. char_of (unat c)) (ms_chars ms)"

definition demo_dec :: "string \<Rightarrow> mono_string" where
  "demo_dec t = \<lparr>ms_length = int (length t), ms_chars = List.map (\<lambda>c. of_nat (of_char c)) t\<rparr>"

definition demo_runtime :: "'a env_state_scheme runtime" where
  "demo_runtime =
     \<lparr>mono_string_to_utf8 = (\<lambda>ms s. case ms of None \<Rightarrow> (NULL, s)
        | Some m \<Rightarrow> (Ptr (brk s) 0, s\<lparr>heap := (heap s)(brk s \<mapsto> (Bridge, Bytes (terminated (demo_enc m)))),
                                    brk := Suc (brk s)\<rparr>)),
      sceLibcMonoBridgeFree = free_in Bridge,
      mono_string_new = (\<lambda>p s. map_option demo_dec (c_string s p))\<rparr>"

lemma demo_runtime_ok: "runtime_ok demo_runtime demo_enc demo_dec"
  by (auto simp: runtime_ok_def demo_runtime_def mem_ok_def mem_simps)

lemma demo_enc_dec: "demo_enc (demo_dec t) = t"
  by (simp add: demo_enc_def demo_dec_def map_idI)

lemma demo_text: "c_text demo_enc (demo_dec ''A'') = ''A''" "c_text demo_enc (demo_dec ''x'') = ''x''"
  by (simp_all add: c_text_def demo_enc_dec)

section \<open>Properties\<close>

text \<open>
  C7: Reading a variable from managed code never runs into undefined behaviour; it gives the
  string made from the value of the map at the name, or null when there is none, changes nothing
  and releases its buffer.
\<close>
theorem GetEnvironmentVariable_refines:
  assumes "runtime_ok R enc dec" and "env_inv s ids es"
  shows "\<exists>s'. ves_icall_System_Environment_GetEnvironmentVariable R (Some ms) s =
       Some (map_option dec (env_get (c_text enc ms) es), s') \<and>
     env_inv s' ids es \<and> outside s' ids = outside s ids"
  using GetEnvironmentVariable_run [OF assms] by blast

theorem GetEnvironmentVariable_refines_witness:
  "\<exists>s'. ves_icall_System_Environment_GetEnvironmentVariable demo_runtime (Some (demo_dec ''A'')) demo_env =
     Some (Some (demo_dec ''x''), s')"
  using GetEnvironmentVariable_refines [OF demo_runtime_ok demo_inv, of "demo_dec ''A''"] demo_names
  by (auto simp: demo_text env_get_def)

text \<open>
  C6: Writing a variable from managed code never runs into undefined behaviour: a null, an empty
  or a null-character value removes the variable, any other sets it (or leaves the map alone
  when the allocator fails), no block outside the environment is changed, and both buffers are
  released on every path.
\<close>
theorem SetEnvironmentVariable_refines:
  assumes "runtime_ok R enc dec" and "env_inv s ids es"
    and "no_value val = Some d"
    and "\<And>mv. val = Some mv \<Longrightarrow> env_fits (c_text enc ms) (c_text enc mv) es"
  shows "\<exists>s' ids' es'. ves_icall_System_Environment_InternalSetEnvironmentVariable R (Some ms) val s = Some s' \<and>
     env_inv s' ids' es' \<and> outside s' ids' = outside s ids \<and>
     (if d then es' = snd (env_unset (c_text enc ms) es)
      else es' = snd (env_set (c_text enc ms) (c_text enc (the val)) 1 es) \<or> es' = es \<and> out_of_memory s)"
proof (cases d)
  case True
  then show ?thesis
    using SetEnvironmentVariable_removes [OF assms(1,2), of val ms] assms(3) by auto
next
  case False
  then obtain mv where "val = Some mv" using assms(3) by (cases val) (auto simp: no_value_def)
  with False assms(3) SetEnvironmentVariable_sets [OF assms(1,2), of mv ms] assms(4)
  show ?thesis by auto
qed

theorem SetEnvironmentVariable_refines_witness:
  "\<exists>s' ids'. ves_icall_System_Environment_InternalSetEnvironmentVariable demo_runtime
     (Some (demo_dec ''A'')) (Some (demo_dec '''')) demo_env = Some s' \<and> env_inv s' ids' []"
proof -
  have 1: "no_value (Some (demo_dec '''')) = Some True"
    by (simp add: no_value_def demo_dec_def)
  have 2: "env_fits (c_text demo_enc (demo_dec ''A'')) (c_text demo_enc mv) [(''A'', ''x'')]"
    if "Some (demo_dec '''') = Some mv" for mv
    using that by (auto simp: env_fits_def c_text_def demo_enc_def demo_dec_def)
  have "snd (env_unset ''A'' [(''A'', ''x'')]) = []"
    using demo_names by (simp add: env_unset_def)
  then show ?thesis
    using SetEnvironmentVariable_refines [OF demo_runtime_ok demo_inv 1 2] demo_text by auto
qed

text \<open>
  What managed code writes, managed code reads back: after setting a well-formed name to a
  value that is neither empty nor starts with a null character, reading the name gives the
  string made from the value's C text.
\<close>
lemma managed_set_then_get:
  assumes "runtime_ok R enc dec" and "env_inv s ids es" and "no_value (Some mv) = Some False"
    and "env_fits (c_text enc ms) (c_text enc mv) es" and "\<not> out_of_memory s"
    and "valid_name (c_text enc ms)"
  shows "\<exists>s' t. ves_icall_System_Environment_InternalSetEnvironmentVariable R (Some ms) (Some mv) s = Some s' \<and>
     ves_icall_System_Environment_GetEnvironmentVariable R (Some ms) s' = Some (Some (dec (c_text enc mv)), t)"
proof -
  obtain s' ids' es' where set: "ves_icall_System_Environment_InternalSetEnvironmentVariable R (Some ms) (Some mv) s = Some s'"
    "env_inv s' ids' es'" "es' = snd (env_set (c_text enc ms) (c_text enc mv) 1 es)"
    using SetEnvironmentVariable_sets [OF assms(1-4)] assms(5) by blast
  have "env_get (c_text enc ms) es' = Some (c_text enc mv)"
    using assms(6) by (simp add: set(3) env_set_def env_get_def update_conv')
  with GetEnvironmentVariable_run [OF assms(1) set(2), of ms] set(1) show ?thesis by auto
qed

lemma managed_set_then_get_witness:
  "\<exists>s' t. ves_icall_System_Environment_InternalSetEnvironmentVariable demo_runtime
       (Some (demo_dec ''A'')) (Some (demo_dec ''x'')) demo_env = Some s' \<and>
     ves_icall_System_Environment_GetEnvironmentVariable demo_runtime (Some (demo_dec ''A'')) s' =
       Some (Some (demo_dec ''x''), t)"
proof -
  have 1: "no_value (Some (demo_dec ''x'')) = Some False"
    by (simp add: no_value_def demo_dec_def)
  show ?thesis
    using managed_set_then_get [OF demo_runtime_ok demo_inv 1, of "demo_dec ''A''"]
      demo_fits demo_roomy demo_names by (simp add: demo_text)
qed

text \<open>
  The tick counter is the low half of the 64-bit tick: it repeats every \<open>2 ^ 32\<close> ticks,
  and the difference of two readings, as a signed 32-bit number, is the time between them as
  long as that is below \<open>2 ^ 31\<close> ticks, whether or not the counter wrapped in between.
\<close>
lemma TickCount_difference:
  "ves_icall_System_Environment_get_TickCount (t + 2 ^ 32) = ves_icall_System_Environment_get_TickCount t \<and>
   (unat d < 2 ^ 31 \<longrightarrow>
      sint (ves_icall_System_Environment_get_TickCount (t + d) - ves_icall_System_Environment_get_TickCount t)
        = int (unat d))"
proof -
  note low = ves_icall_System_Environment_get_TickCount_def ucast_low_half
  have "(ucast (2 ^ 32 :: u64) :: u32) = 0" by simp
  then have "ves_icall_System_Environment_get_TickCount (t + 2 ^ 32) = ves_icall_System_Environment_get_TickCount t"
    by (simp only: low ucast_add_low) simp
  moreover have "ves_icall_System_Environment_get_TickCount (t + d) - ves_icall_System_Environment_get_TickCount t
      = ucast d"
    by (simp add: low ucast_add_low)
  ultimately show ?thesis using sint_ucast_small [of d] by (intro conjI impI) (simp_all only:)
qed

lemma TickCount_difference_witness:
  "sint (ves_icall_System_Environment_get_TickCount (0xFFFFFFFF + 5) - ves_icall_System_Environment_get_TickCount 0xFFFFFFFF) = 5"
  using TickCount_difference [of "0xFFFFFFFF" 5] by simp

text \<open>
  The current directory is the package's root and the code page answer is -1 with the name
  utf_8; the error cell of the first is left as the caller had it.
\<close>
lemma fixed_answers:
  assumes "runtime_ok R enc dec" and "cstr_at s p DEFAULT_CURRENT_DIRECTORY" and "cstr_at s q ''utf_8''"
  shows "vml_icall_System_IO_MonoIO_GetCurrentDirectory R p error s = Some (dec ''app0:'', error) \<and>
     vml_icall_System_Text_Encoding_InternalCodePage R q page s = Some (dec ''utf_8'', Some (- 1))"
  using assms
  by (simp add: runtime_ok_def vml_icall_System_IO_MonoIO_GetCurrentDirectory_def
      vml_icall_System_Text_Encoding_InternalCodePage_def DEFAULT_CURRENT_DIRECTORY_def Let_def)

theorem fixed_answers_witness:
  "vml_icall_System_Text_Encoding_InternalCodePage demo_runtime (Ptr 1 0) (Some 0)
     (demo_env\<lparr>heap := [0 \<mapsto> (Fixed, Bytes (terminated ''app0:'')), 1 \<mapsto> (Fixed, Bytes (terminated ''utf_8''))]\<rparr>)
   = Some (demo_dec ''utf_8'', Some (- 1))"
proof -
  let ?s = "demo_env\<lparr>heap := [0 \<mapsto> (Fixed, Bytes (terminated ''app0:'')),
      1 \<mapsto> (Fixed, Bytes (terminated ''utf_8''))]\<rparr>"
  have "cstr_at ?s (Ptr 0 0) DEFAULT_CURRENT_DIRECTORY" "cstr_at ?s (Ptr 1 0) ''utf_8''"
    by (simp_all add: cstr_at_def rd_bytes_def DEFAULT_CURRENT_DIRECTORY_def)
  from fixed_answers [OF demo_runtime_ok this] show ?thesis by simp
qed

end
