(* ===== verification/Platform.thy ===== *)
theory Platform
  imports Prelude
begin

text \<open>
  What the loader links against and does not contain: the Mono runtime, the SDK of the
  console and the C standard input and output. A call to it is an event with its arguments;
  the library state keeps the sequence of the calls made so far. What a call answers is a
  parameter: a function of the calls before it and of the call itself, so nothing is assumed
  about it. The constants of the SDK headers, which are not part of the sources, are
  parameters too.
\<close>

section \<open>Calls\<close>

type_synonym fnptr = "string option"  \<comment> \<open>a C function pointer: null, or the function's name\<close>
type_synonym cstr = "string option"   \<comment> \<open>a C string argument: null, or its text\<close>

text \<open>\<open>MonoMainThreadParam\<close> of \<open>mono/vita.h\<close>.\<close>

record MonoMainThreadParam =
  mtp_name :: string
  mtp_entry :: fnptr
  mtp_stackSize :: u32
  mtp_cpuAffinity :: u32
  mtp_priority :: u32

text \<open>
  One constructor per function the sources call, named after it; \<open>set_mono_aot_only\<close> and
  \<open>set_mono_break_on_exc\<close> are the assignments to two global variables of the runtime,
  \<open>call_root_entry\<close> the call through the pointer that the application registered.
\<close>

datatype call =
    pthread_set_default_dostartstopcallbacks_ext u32
  | mono_aot_register_module u32
  | set_mono_aot_only bool
  | set_mono_break_on_exc bool
  | mono_jit_set_aot_only bool
  | mono_config_parse cstr
  | mono_trace_enable bool
  | mono_trace_set_level u32
  | mono_parse_default_optimizations cstr
  | mono_set_defaults int u32
  | mono_set_dirs cstr cstr
  | mono_set_assemblies_path cstr
  | mono_jit_init_version string string
  | mono_thread_current
  | mono_thread_set_main u32
  | mono_runtime_unhandled_exception_policy_set u32
  | mono_threads_set_shutting_down
  | mono_runtime_set_shutting_down
  | mono_thread_pool_cleanup
  | mono_thread_suspend_all_other_threads
  | mono_get_root_domain
  | mono_jit_cleanup u32
  | MonoCreateMainThread MonoMainThreadParam
  | mono_domain_assembly_open u32 cstr
  | mono_assembly_get_image u32
  | mono_class_from_name u32 string string
  | mono_class_get_method_from_name u32 string int
  | mono_runtime_invoke u32 u32 u32 u32
  | mono_object_unbox u32
  | mono_runtime_set_main_args u32 u32
  | mono_add_internal_call string string
  | call_root_entry string
  | sceIoOpen string u32 u32
  | sceIoClose u32
  | sceClibDprintf u32 string
  | sceKernelLoadStartModule string
  | sceSysmoduleLoadModule u32
  | fopen string string
  | fprintf u32 string
  | vfprintf u32 string
  | fputc char u32
  | fclose u32

text \<open>
  \<open>answer cs c\<close> is what call \<open>c\<close> returns after the calls \<open>cs\<close> (a pointer, a
  handle or an int as 32 bits); \<open>peek cs a\<close> the int read at address \<open>a\<close>, if the
  address is readable; \<open>aot_info m\<close> the value of \<open>mono_aot_module_<m>_info\<close>.
\<close>

record platform =
  answer :: "call list \<Rightarrow> call \<Rightarrow> u32"
  peek :: "call list \<Rightarrow> u32 \<Rightarrow> u32 option"
  aot_info :: "string \<Rightarrow> u32"
  SCE_OK :: u32
  SCE_KERNEL_ERROR_INVALID_ARGUMENT :: u32
  SCE_KERNEL_1MiB :: u32
  SCE_KERNEL_CPU_MASK_USER_0 :: u32
  SCE_KERNEL_ERROR_MODULEMGR_OLD_LIB :: u32
  SCE_SYSMODULE_NET :: u32
  SCE_O_WRONLY :: u32
  SCE_O_CREAT :: u32
  SCE_O_TRUNC :: u32

text \<open>Definitions of the repository: \<open>VML.h\<close>, \<open>main.c\<close> and the runtime's headers.\<close>

definition SCE_KERNEL_INDIVIDUAL_QUEUE_HIGHEST_PRIORITY :: u32 where
  "SCE_KERNEL_INDIVIDUAL_QUEUE_HIGHEST_PRIORITY = 64"

definition SCE_ERROR_ERRNO_EINVAL :: u32 where
  "SCE_ERROR_ERRNO_EINVAL = 0x80010016"

definition MONO_UNHANDLED_POLICY_LEGACY :: u32 where
  "MONO_UNHANDLED_POLICY_LEGACY = 0"

text \<open>The log levels, \<open>1 << k\<close> in the order of \<open>glib.h\<close>.\<close>

datatype GLogLevelFlags = G_LOG_FLAG_RECURSION | G_LOG_FLAG_FATAL | G_LOG_LEVEL_ERROR
  | G_LOG_LEVEL_CRITICAL | G_LOG_LEVEL_WARNING | G_LOG_LEVEL_MESSAGE | G_LOG_LEVEL_INFO
  | G_LOG_LEVEL_DEBUG | G_LOG_LEVEL_MASK

fun log_level :: "GLogLevelFlags \<Rightarrow> u32" where
  "log_level G_LOG_FLAG_RECURSION = 1"
| "log_level G_LOG_FLAG_FATAL = 2"
| "log_level G_LOG_LEVEL_ERROR = 4"
| "log_level G_LOG_LEVEL_CRITICAL = 8"
| "log_level G_LOG_LEVEL_WARNING = 16"
| "log_level G_LOG_LEVEL_MESSAGE = 32"
| "log_level G_LOG_LEVEL_INFO = 64"
| "log_level G_LOG_LEVEL_DEBUG = 128"
| "log_level G_LOG_LEVEL_MASK = not (or 1 2)"

section \<open>The state of the loader\<close>

text \<open>
  The static variables of \<open>VitaMonoLoader/main.c\<close> under their names, the two globals it
  defines for the runtime's headers, and the calls made so far, oldest first. Zero is the
  null pointer.
\<close>

record vml_state =
  vml_assembly_path :: cstr
  vml_config_path :: cstr
  s_rootEntry :: fnptr
  s_monoVerboseDebug :: int
  VitaMonoLoader_log :: u32
  mono_internal_current_level :: u32
  mono_internal_current_mask :: u32
  calls :: "call list"

text \<open>All of it is zero when the program starts.\<close>

definition vml_init :: vml_state where
  "vml_init = \<lparr>vml_assembly_path = None, vml_config_path = None, s_rootEntry = None,
     s_monoVerboseDebug = 0, VitaMonoLoader_log = 0, mono_internal_current_level = 0,
     mono_internal_current_mask = 0, calls = []\<rparr>"

definition ext :: "platform \<Rightarrow> call \<Rightarrow> 'a vml_state_scheme \<Rightarrow> u32 \<times> 'a vml_state_scheme" where
  "ext P c s = (answer P (calls s) c, s\<lparr>calls := calls s @ [c]\<rparr>)"

text \<open>A call whose result is ignored.\<close>

definition run :: "call \<Rightarrow> 'a vml_state_scheme \<Rightarrow> 'a vml_state_scheme" where
  "run c s = s\<lparr>calls := calls s @ [c]\<rparr>"

fun run_all :: "call list \<Rightarrow> 'a vml_state_scheme \<Rightarrow> 'a vml_state_scheme" where
  "run_all [] s = s"
| "run_all (c # cs) s = run_all cs (run c s)"

lemma run_all_append [simp]: "run_all (xs @ ys) s = run_all ys (run_all xs s)"
  by (induction xs arbitrary: s) auto

lemma run_all_eq: "run_all cs s = s\<lparr>calls := calls s @ cs\<rparr>"
  by (induction cs arbitrary: s) (auto simp: run_def)

section \<open>Order of calls\<close>

text \<open>\<open>after_only p q cs\<close>: no call that satisfies \<open>q\<close> comes before the first that satisfies \<open>p\<close>.\<close>

fun after_only :: "('c \<Rightarrow> bool) \<Rightarrow> ('c \<Rightarrow> bool) \<Rightarrow> 'c list \<Rightarrow> bool" where
  "after_only p q [] = True"
| "after_only p q (c # cs) = (p c \<or> (\<not> q c \<and> after_only p q cs))"

lemma after_only_append:
  "after_only p q (xs @ ys) \<longleftrightarrow>
     after_only p q xs \<and> ((\<exists>x \<in> set xs. p x) \<or> after_only p q ys)"
  by (induction xs) auto

lemma after_only_nth:
  assumes "after_only p q cs" "i < length cs" "q (cs ! i)" "\<not> p (cs ! i)"
  shows "\<exists>j < i. p (cs ! j)"
  using assms
proof (induction cs arbitrary: i)
  case (Cons c cs)
  show ?case
  proof (cases i)
    case 0
    then show ?thesis using Cons.prems by simp
  next
    case (Suc k)
    show ?thesis
    proof (cases "p c")
      case True
      then show ?thesis using Suc by (intro exI [of _ 0]) simp
    next
      case False
      then obtain j where "j < k" "p (cs ! j)"
        using Cons Suc by auto
      then show ?thesis using Suc by (intro exI [of _ "Suc j"]) simp
    qed
  qed
qed simp

end
