(* ===== verification/CoreAssemblies.thy ===== *)
theory CoreAssemblies
  imports Platform
begin

text \<open>
  What the library registers with the runtime: the class libraries compiled ahead of time
  (\<open>VMLCoreAssemblies/main.c\<close>), the internal calls it replaces
  (\<open>VMLCoreAssemblies/patches\<close>) and the drawing bindings (\<open>VMLVita2D\<close>), together with
  the managed side of the bindings and the macros of \<open>VMLTools.h\<close>.
\<close>

section \<open>Class libraries\<close>

definition VMLCoreAssembliesRegister ::
  "platform \<Rightarrow> 'a vml_state_scheme \<Rightarrow> 'a vml_state_scheme" where
  "VMLCoreAssembliesRegister P s0 =
    (let s1 = run (mono_aot_register_module (aot_info P ''Mono_Posix'')) s0;
         s2 = run (mono_aot_register_module (aot_info P ''Mono_Security'')) s1;
         s3 = run (mono_aot_register_module (aot_info P ''mscorlib'')) s2;
         s4 = run (mono_aot_register_module (aot_info P ''System_Configuration'')) s3;
         s5 = run (mono_aot_register_module (aot_info P ''System_Core'')) s4;
         s6 = run (mono_aot_register_module (aot_info P ''System'')) s5;
         s7 = run (mono_aot_register_module (aot_info P ''System_Security'')) s6
     in run (mono_aot_register_module (aot_info P ''System_Xml'')) s7)"

text \<open>The modules, in the order of their registration.\<close>

definition core_assemblies :: "string list" where
  "core_assemblies = [''Mono_Posix'', ''Mono_Security'', ''mscorlib'', ''System_Configuration'',
     ''System_Core'', ''System'', ''System_Security'', ''System_Xml'']"

definition core_calls :: "platform \<Rightarrow> call list" where
  "core_calls P = map (\<lambda>a. mono_aot_register_module (aot_info P a)) core_assemblies"

lemma VMLCoreAssembliesRegister_calls [call_simps]:
  "VMLCoreAssembliesRegister P s = s\<lparr>calls := calls s @ core_calls P\<rparr>"
  by (simp add: VMLCoreAssembliesRegister_def core_calls_def core_assemblies_def run_def Let_def)

section \<open>Replaced internal calls\<close>

definition VMLICallApplyPatches :: "'a vml_state_scheme \<Rightarrow> 'a vml_state_scheme" where
  "VMLICallApplyPatches s0 =
    (let s1 = run (mono_add_internal_call ''System.Text.Encoding::InternalCodePage''
                     ''vml_icall_System_Text_Encoding_InternalCodePage'') s0;
         s2 = run (mono_add_internal_call ''System.Environment::get_TickCount''
                     ''ves_icall_System_Environment_get_TickCount'') s1;
         s3 = run (mono_add_internal_call ''System.Environment::internalGetEnvironmentVariable''
                     ''ves_icall_System_Environment_GetEnvironmentVariable'') s2
     in run (mono_add_internal_call ''System.Environment::InternalSetEnvironmentVariable''
               ''ves_icall_System_Environment_InternalSetEnvironmentVariable'') s3)"

definition VMLFileIOApplyPatches :: "'a vml_state_scheme \<Rightarrow> 'a vml_state_scheme" where
  "VMLFileIOApplyPatches s =
    run (mono_add_internal_call ''System.IO.MonoIO::GetCurrentDirectory''
           ''vml_icall_System_IO_MonoIO_GetCurrentDirectory'') s"

definition VMLCoreAssembliesApplyPatches :: "'a vml_state_scheme \<Rightarrow> 'a vml_state_scheme" where
  "VMLCoreAssembliesApplyPatches s = VMLFileIOApplyPatches (VMLICallApplyPatches s)"

text \<open>The method that the runtime finds under a name is the one added last.\<close>

fun bound :: "call list \<Rightarrow> string \<rightharpoonup> string" where
  "bound [] = Map.empty"
| "bound (c # cs) = (\<lambda>n. case bound cs n of Some f \<Rightarrow> Some f
     | None \<Rightarrow> (case c of mono_add_internal_call m f \<Rightarrow> if m = n then Some f else None | _ \<Rightarrow> None))"

lemma bound_append: "bound (xs @ ys) n = (case bound ys n of Some f \<Rightarrow> Some f | None \<Rightarrow> bound xs n)"
  by (induction xs) (auto split: option.splits)

definition patch_calls :: "call list" where
  "patch_calls =
    [mono_add_internal_call ''System.Text.Encoding::InternalCodePage''
       ''vml_icall_System_Text_Encoding_InternalCodePage'',
     mono_add_internal_call ''System.Environment::get_TickCount''
       ''ves_icall_System_Environment_get_TickCount'',
     mono_add_internal_call ''System.Environment::internalGetEnvironmentVariable''
       ''ves_icall_System_Environment_GetEnvironmentVariable'',
     mono_add_internal_call ''System.Environment::InternalSetEnvironmentVariable''
       ''ves_icall_System_Environment_InternalSetEnvironmentVariable'',
     mono_add_internal_call ''System.IO.MonoIO::GetCurrentDirectory''
       ''vml_icall_System_IO_MonoIO_GetCurrentDirectory'']"

lemma VMLCoreAssembliesApplyPatches_calls [call_simps]:
  "VMLCoreAssembliesApplyPatches s = s\<lparr>calls := calls s @ patch_calls\<rparr>"
  by (simp add: VMLCoreAssembliesApplyPatches_def VMLICallApplyPatches_def
      VMLFileIOApplyPatches_def patch_calls_def run_def Let_def)

section \<open>Drawing bindings\<close>

definition VMLVita2DRegister :: "platform \<Rightarrow> 'a vml_state_scheme \<Rightarrow> 'a vml_state_scheme" where
  "VMLVita2DRegister P s0 =
    (let s1 = run (mono_aot_register_module (aot_info P ''Vita2D'')) s0;
         s2 = run (mono_add_internal_call ''Vita2D::Init'' ''vita2d_init'') s1;
         s3 = run (mono_add_internal_call ''Vita2D::SetClearColor'' ''vita2d_set_clear_color'') s2;
         s4 = run (mono_add_internal_call ''Vita2D::LoadDefaultPGF'' ''vita2d_load_default_pgf'') s3;
         s5 = run (mono_add_internal_call ''Vita2D::StartDrawing'' ''vita2d_start_drawing'') s4;
         s6 = run (mono_add_internal_call ''Vita2D::EndDrawing'' ''vita2d_end_drawing'') s5;
         s7 = run (mono_add_internal_call ''Vita2D::SwapBuffers'' ''vita2d_swap_buffers'') s6;
         s8 = run (mono_add_internal_call ''Vita2D::ClearScreen'' ''vita2d_clear_screen'') s7;
         s9 = run (mono_add_internal_call ''Vita2D::DrawRectangle'' ''vita2d_draw_rectangle'') s8;
         s10 = run (mono_add_internal_call ''Vita2D::DrawLine'' ''vita2d_draw_line'') s9;
         s11 = run (mono_add_internal_call ''Vita2D::FillCircle'' ''vita2d_draw_fill_circle'') s10
     in run (mono_add_internal_call ''Vita2D::PGFDrawText'' ''_vita2d_pgf_draw_text'') s11)"

text \<open>The methods that \<open>Vita2D.cs\<close> declares as internal calls, in its order.\<close>

definition Vita2D_externs :: "string list" where
  "Vita2D_externs = [''Init'', ''SetClearColor'', ''LoadDefaultPGF'', ''StartDrawing'', ''EndDrawing'',
     ''SwapBuffers'', ''ClearScreen'', ''DrawRectangle'', ''DrawLine'', ''FillCircle'', ''PGFDrawText'']"

definition vita2d_calls :: "platform \<Rightarrow> call list" where
  "vita2d_calls P = mono_aot_register_module (aot_info P ''Vita2D'') #
     map (\<lambda>(m, f). mono_add_internal_call (''Vita2D::'' @ m) f)
       (zip Vita2D_externs
         [''vita2d_init'', ''vita2d_set_clear_color'', ''vita2d_load_default_pgf'',
          ''vita2d_start_drawing'', ''vita2d_end_drawing'', ''vita2d_swap_buffers'',
          ''vita2d_clear_screen'', ''vita2d_draw_rectangle'', ''vita2d_draw_line'',
          ''vita2d_draw_fill_circle'', ''_vita2d_pgf_draw_text''])"

lemma VMLVita2DRegister_calls [call_simps]:
  "VMLVita2DRegister P s = s\<lparr>calls := calls s @ vita2d_calls P\<rparr>"
  by (simp add: VMLVita2DRegister_def vita2d_calls_def Vita2D_externs_def run_def Let_def)

text \<open>
  \<open>_vita2d_pgf_draw_text\<close> passes its arguments on, the text as a fresh C string, and hands
  the result back; \<open>draw\<close> is the function of the drawing library, \<open>utf8\<close> the runtime's
  conversion. The C string is never released.
\<close>

definition vita2d_pgf_draw_text_wrapper ::
  "('m \<Rightarrow> 'c) \<Rightarrow> (u32 \<Rightarrow> u32 \<Rightarrow> u32 \<Rightarrow> u32 \<Rightarrow> 'f \<Rightarrow> 'c \<Rightarrow> u32) \<Rightarrow>
   u32 \<Rightarrow> u32 \<Rightarrow> u32 \<Rightarrow> u32 \<Rightarrow> 'f \<Rightarrow> 'm \<Rightarrow> u32" where
  "vita2d_pgf_draw_text_wrapper utf8 draw font x y color scale txt =
     draw font x y color scale (utf8 txt)"

subsection \<open>Colours\<close>

unbundle bit_operations_syntax

definition RGBA8 :: "u32 \<Rightarrow> u32 \<Rightarrow> u32 \<Rightarrow> u32 \<Rightarrow> u32" where
  "RGBA8 r g b a = (((push_bit 24 (a AND 0xFF) OR push_bit 16 (b AND 0xFF)) OR
     push_bit 8 (g AND 0xFF)) OR push_bit 0 (r AND 0xFF))"

section \<open>\<open>VMLTools.h\<close>\<close>

text \<open>
  Both macros are arithmetic on an address: a number of bytes is added, whatever the element
  type, and the result is read as an array of that type.
\<close>

definition VML_OFFSET_ARRAY :: "u32 \<Rightarrow> u32 \<Rightarrow> u32" where
  "VML_OFFSET_ARRAY var off = var + off"

definition VML_MARSHAL_ARRAY :: "u32 \<Rightarrow> u32" where
  "VML_MARSHAL_ARRAY var = VML_OFFSET_ARRAY var 16"

section \<open>The managed declarations and their bindings\<close>

definition vita2d_functions :: "string list" where
  "vita2d_functions = [''vita2d_init'', ''vita2d_set_clear_color'', ''vita2d_load_default_pgf'',
     ''vita2d_start_drawing'', ''vita2d_end_drawing'', ''vita2d_swap_buffers'',
     ''vita2d_clear_screen'', ''vita2d_draw_rectangle'', ''vita2d_draw_line'',
     ''vita2d_draw_fill_circle'', ''_vita2d_pgf_draw_text'']"

lemma bound_internal_calls:
  "distinct (map fst ps) \<Longrightarrow> bound (map (\<lambda>(m, f). mono_add_internal_call m f) ps) = map_of ps"
proof (induction ps)
  case (Cons p ps)
  then have "map_of ps (fst p) = None" by (simp add: map_of_eq_None_iff)
  with Cons show ?case by (cases p) (auto simp: fun_eq_iff split: option.splits)
qed (simp add: fun_eq_iff)

text \<open>
  Registering the drawing bindings binds every method that \<open>Vita2D.cs\<close> declares as an internal
  call, in its order of declaration, to its function, and changes the binding of no other name.
\<close>
lemma vita2d_bindings:
  "bound (calls (VMLVita2DRegister P s)) =
     bound (calls s) ++ map_of (zip (map ((@) ''Vita2D::'') Vita2D_externs) vita2d_functions) \<and>
   length vita2d_functions = length Vita2D_externs"
proof
  let ?ps = "zip (map ((@) ''Vita2D::'') Vita2D_externs) vita2d_functions"
  show len: "length vita2d_functions = length Vita2D_externs"
    by (simp add: vita2d_functions_def Vita2D_externs_def)
  have "vita2d_calls P = mono_aot_register_module (aot_info P ''Vita2D'') #
      map (\<lambda>(m, f). mono_add_internal_call m f) ?ps"
    by (simp add: vita2d_calls_def vita2d_functions_def zip_map1 comp_def case_prod_beta)
  moreover have "distinct (map fst ?ps)" by (simp add: len Vita2D_externs_def)
  ultimately have "bound (vita2d_calls P) = map_of ?ps"
    using bound_internal_calls by (auto simp: fun_eq_iff split: option.splits)
  then show "bound (calls (VMLVita2DRegister P s)) = bound (calls s) ++ map_of ?ps"
    by (simp add: VMLVita2DRegister_calls fun_eq_iff bound_append map_add_def)
qed

end
