(* ===== verification/Loader.thy ===== *)
theory Loader
  imports CoreAssemblies
begin

text \<open>
  \<open>VitaMonoLoader/main.c\<close>: the trace hook of the runtime's headers, the set-up and the
  shutdown of the runtime, the body of the main thread, and the functions that \<open>VML.h\<close>
  exports. A function returns the new state, with its result if it has one; \<open>None\<close> stands
  for undefined behaviour (a null pointer dereferenced). The messages sent to the debug log
  of the console are left out.
\<close>

section \<open>The trace hook\<close>

text \<open>
  \<open>fprintf\<close>, \<open>vfprintf\<close> and \<open>fputc\<close> are undefined on a null stream. \<open>msg\<close> is the
  text that \<open>format\<close> and \<open>args\<close> give.
\<close>

definition mono_tracev_inner ::
  "u32 \<Rightarrow> u32 \<Rightarrow> string \<Rightarrow> 'a vml_state_scheme \<Rightarrow> 'a vml_state_scheme option" where
  "mono_tracev_inner level tmask msg s =
    (if s_monoVerboseDebug s \<noteq> 0 then
       if VitaMonoLoader_log s = 0 then None
       else Some (run_all [fprintf (VitaMonoLoader_log s) ''|TRACE|[][] '',
                           vfprintf (VitaMonoLoader_log s) msg,
                           fputc (CHR 0x0A) (VitaMonoLoader_log s)] s)
     else Some s)"

unbundle bit_operations_syntax

definition MONO_TRACE_IS_TRACED :: "u32 \<Rightarrow> u32 \<Rightarrow> 'a vml_state_scheme \<Rightarrow> bool" where
  "MONO_TRACE_IS_TRACED level tmask s \<longleftrightarrow>
     sint level \<le> sint (mono_internal_current_level s) \<and> tmask AND mono_internal_current_mask s \<noteq> 0"

definition mono_tracev ::
  "u32 \<Rightarrow> u32 \<Rightarrow> string \<Rightarrow> 'a vml_state_scheme \<Rightarrow> 'a vml_state_scheme option" where
  "mono_tracev level tmask msg s =
    (if MONO_TRACE_IS_TRACED level tmask s then mono_tracev_inner level tmask msg s else Some s)"

definition mono_trace ::
  "u32 \<Rightarrow> u32 \<Rightarrow> string \<Rightarrow> 'a vml_state_scheme \<Rightarrow> 'a vml_state_scheme option" where
  "mono_trace level tmask msg s =
    (if MONO_TRACE_IS_TRACED level tmask s then mono_tracev_inner level tmask msg s else Some s)"

section \<open>Set-up and shutdown of the runtime\<close>

definition RUNTIME_VERSION :: string where
  "RUNTIME_VERSION = ''v2.0.50727''"

definition initPSP2Stage2 :: "platform \<Rightarrow> 'a vml_state_scheme \<Rightarrow> u32 \<times> 'a vml_state_scheme" where
  "initPSP2Stage2 P s0 =
    (let s1 = run (pthread_set_default_dostartstopcallbacks_ext 2) s0;
         s2 = VMLCoreAssembliesRegister P s1;
         s3 = run (set_mono_aot_only True) s2;
         s4 = run (set_mono_break_on_exc False) s3;
         s5 = run (mono_jit_set_aot_only True) s4;
         s6 = run (mono_config_parse None) s5;
         s7 = (if s_monoVerboseDebug s6 \<noteq> 0
               then run (mono_trace_set_level (log_level G_LOG_LEVEL_DEBUG)) (run (mono_trace_enable True) s6)
               else run (mono_trace_set_level 0) (run (mono_trace_enable False) s6));
         (opts, s8) = ext P (mono_parse_default_optimizations None) s7;
         s9 = run (mono_set_defaults (s_monoVerboseDebug s8) opts) s8;
         s10 = run (mono_set_dirs (vml_assembly_path s9) (vml_config_path s9)) s9;
         s11 = run (mono_set_assemblies_path (vml_assembly_path s10)) s10;
         (domain, s12) = ext P (mono_jit_init_version ''Mono Root Domain'' RUNTIME_VERSION) s11
     in if domain \<noteq> 0 then
          (let s13 = run (mono_config_parse (vml_config_path s12)) s12;
               (currThread, s14) = ext P mono_thread_current s13;
               s15 = run (mono_thread_set_main currThread) s14;
               s16 = run (mono_runtime_unhandled_exception_policy_set MONO_UNHANDLED_POLICY_LEGACY) s15
           in (domain, VMLCoreAssembliesApplyPatches s16))
        else (domain, s12))"

definition monoShutdown :: "platform \<Rightarrow> 'a vml_state_scheme \<Rightarrow> 'a vml_state_scheme" where
  "monoShutdown P s0 =
    (let s1 = run mono_threads_set_shutting_down s0;
         s2 = run mono_runtime_set_shutting_down s1;
         s3 = run mono_thread_pool_cleanup s2;
         s4 = run mono_thread_suspend_all_other_threads s3;
         (domain, s5) = ext P mono_get_root_domain s4
     in run (mono_jit_cleanup domain) s5)"

text \<open>
  The body of the thread that \<open>VMLInitialize\<close> asks for. \<open>app f\<close> is what the registered
  function \<open>f\<close> does to the state; calling a null pointer is undefined.
\<close>

definition monoMain ::
  "platform \<Rightarrow> (string \<Rightarrow> 'a vml_state_scheme \<Rightarrow> 'a vml_state_scheme option) \<Rightarrow>
   'a vml_state_scheme \<Rightarrow> (u32 \<times> 'a vml_state_scheme) option" where
  "monoMain P app s0 =
    (let (domain, s1) = initPSP2Stage2 P s0
     in if domain = 0 then Some (SCE_OK P, s1)
        else case s_rootEntry s1 of
            None \<Rightarrow> None
          | Some f \<Rightarrow>
              (case app f (run (call_root_entry f) s1) of
                 None \<Rightarrow> None
               | Some s2 \<Rightarrow> Some (0, monoShutdown P s2)))"

section \<open>The exported functions\<close>

text \<open>\<open>VML.h\<close>.\<close>

record VMLInitOptParam =
  opt_stackSize :: u32
  opt_cpuAffinity :: u32
  opt_priority :: u32
  opt_programName :: cstr
  opt_monoVerboseDebug :: int

definition VMLInitialize ::
  "platform \<Rightarrow> fnptr \<Rightarrow> VMLInitOptParam option \<Rightarrow> 'a vml_state_scheme \<Rightarrow> u32 \<times> 'a vml_state_scheme" where
  "VMLInitialize P domainEntry pOptParam s0 =
    (if domainEntry = None then (SCE_KERNEL_ERROR_INVALID_ARGUMENT P, s0)
     else
       let thParam = (case pOptParam of
              Some p \<Rightarrow> \<lparr>mtp_name = ''Mono_main_thread'', mtp_entry = Some ''monoMain'',
                         mtp_stackSize = opt_stackSize p, mtp_cpuAffinity = opt_cpuAffinity p,
                         mtp_priority = opt_priority p\<rparr>
            | None \<Rightarrow> \<lparr>mtp_name = ''Mono_main_thread'', mtp_entry = Some ''monoMain'',
                       mtp_stackSize = SCE_KERNEL_1MiB P, mtp_cpuAffinity = SCE_KERNEL_CPU_MASK_USER_0 P,
                       mtp_priority = SCE_KERNEL_INDIVIDUAL_QUEUE_HIGHEST_PRIORITY\<rparr>);
           s1 = (case pOptParam of
              Some p \<Rightarrow> if opt_monoVerboseDebug p \<noteq> 0 then s0\<lparr>s_monoVerboseDebug := 1\<rparr> else s0
            | None \<Rightarrow> s0);
           s2 = s1\<lparr>s_rootEntry := domainEntry\<rparr>
       in (SCE_OK P, run (MonoCreateMainThread thParam) s2))"

definition VMLRunMain ::
  "platform \<Rightarrow> cstr \<Rightarrow> u32 \<Rightarrow> 'a vml_state_scheme \<Rightarrow> (u32 \<times> 'a vml_state_scheme) option" where
  "VMLRunMain P sMainDllPath ppMainAotAssemblyInfo s0 =
    (let (domain, s1) = ext P mono_get_root_domain s0
     in if domain = 0 then Some (SCE_ERROR_ERRNO_EINVAL, s1)
     else if ppMainAotAssemblyInfo = 0 then Some (SCE_ERROR_ERRNO_EINVAL, s1)
     else
       let s2 = run (mono_aot_register_module ppMainAotAssemblyInfo) s1;
           (assembly, s3) = ext P (mono_domain_assembly_open domain sMainDllPath) s2
       in if assembly = 0 then Some (SCE_ERROR_ERRNO_EINVAL, s3)
     else
       let (image, s4) = ext P (mono_assembly_get_image assembly) s3
       in if image = 0 then Some (SCE_ERROR_ERRNO_EINVAL, s4)
     else
       let (klass, s5) = ext P (mono_class_from_name image '''' ''Program'') s4
       in if klass = 0 then Some (SCE_ERROR_ERRNO_EINVAL, s5)
     else
       let (meth, s6) = ext P (mono_class_get_method_from_name klass ''Main'' 0) s5
       in if meth = 0 then Some (SCE_ERROR_ERRNO_EINVAL, s6)
     else
       let (res, s7) = ext P (mono_runtime_invoke meth 0 0 0) s6;
           (cell, s8) = ext P (mono_object_unbox res) s7
       in map_option (\<lambda>v. (v, s8)) (peek P (calls s8) cell))"

definition VMLRegisterAssembly ::
  "platform \<Rightarrow> u32 \<Rightarrow> 'a vml_state_scheme \<Rightarrow> u32 \<times> 'a vml_state_scheme" where
  "VMLRegisterAssembly P ppAotAssemblyInfo s =
    (if ppAotAssemblyInfo = 0 then (SCE_ERROR_ERRNO_EINVAL, s)
     else (SCE_OK P, run (mono_aot_register_module ppAotAssemblyInfo) s))"

definition VMLSetPaths :: "cstr \<Rightarrow> cstr \<Rightarrow> 'a vml_state_scheme \<Rightarrow> 'a vml_state_scheme" where
  "VMLSetPaths assembly_path config_path s =
     s\<lparr>vml_assembly_path := assembly_path, vml_config_path := config_path\<rparr>"

text \<open>The function is declared \<open>int\<close> and has no return statement, so it has no result here.\<close>

definition VMLEnd :: "'a vml_state_scheme \<Rightarrow> 'a vml_state_scheme" where
  "VMLEnd s = (if VitaMonoLoader_log s \<noteq> 0 then run (fclose (VitaMonoLoader_log s)) s else s)"

definition VMLSetCommandLineArgs ::
  "platform \<Rightarrow> u32 \<Rightarrow> u32 \<Rightarrow> 'a vml_state_scheme \<Rightarrow> u32 \<times> 'a vml_state_scheme" where
  "VMLSetCommandLineArgs P argc argv s = ext P (mono_runtime_set_main_args argv argc) s"

end
