(* ===== verification/LoaderProps.thy ===== *)
theory LoaderProps
  imports Loader
begin

text \<open>
  The calls that the functions of \<open>Loader\<close> make, as lists, and what follows from them: the
  order of the set-up, the conditions under which the runtime is patched, the application is
  entered and the runtime is shut down, and the errors of \<open>VMLRunMain\<close>.
\<close>

section \<open>The calls of the set-up\<close>

text \<open>The calls that a function adds to those made before it.\<close>

definition since :: "'a vml_state_scheme \<Rightarrow> 'b vml_state_scheme \<Rightarrow> call list" where
  "since s t = drop (length (calls s)) (calls t)"

lemma since_append [simp]: "calls t = calls s @ cs \<Longrightarrow> since s t = cs"
  by (simp add: since_def)

definition trace_calls :: "'a vml_state_scheme \<Rightarrow> call list" where
  "trace_calls s = (if s_monoVerboseDebug s \<noteq> 0
     then [mono_trace_enable True, mono_trace_set_level 128]
     else [mono_trace_enable False, mono_trace_set_level 0])"

definition boot_calls :: "platform \<Rightarrow> 'a vml_state_scheme \<Rightarrow> call list" where
  "boot_calls P s =
    [pthread_set_default_dostartstopcallbacks_ext 2] @ core_calls P @
    [set_mono_aot_only True, set_mono_break_on_exc False, mono_jit_set_aot_only True,
     mono_config_parse None] @ trace_calls s @ [mono_parse_default_optimizations None]"

definition config_calls :: "platform \<Rightarrow> 'a vml_state_scheme \<Rightarrow> call list" where
  "config_calls P s =
    [mono_set_defaults (s_monoVerboseDebug s)
       (answer P (calls s @ butlast (boot_calls P s)) (mono_parse_default_optimizations None)),
     mono_set_dirs (vml_assembly_path s) (vml_config_path s),
     mono_set_assemblies_path (vml_assembly_path s)]"

abbreviation jit_init :: call where
  "jit_init \<equiv> mono_jit_init_version ''Mono Root Domain'' ''v2.0.50727''"

definition root_domain :: "platform \<Rightarrow> 'a vml_state_scheme \<Rightarrow> u32" where
  "root_domain P s = answer P (calls s @ boot_calls P s @ config_calls P s) jit_init"

definition domain_calls :: "platform \<Rightarrow> 'a vml_state_scheme \<Rightarrow> call list" where
  "domain_calls P s =
    [mono_config_parse (vml_config_path s), mono_thread_current,
     mono_thread_set_main (answer P (calls s @ boot_calls P s @ config_calls P s @
       [jit_init, mono_config_parse (vml_config_path s)]) mono_thread_current),
     mono_runtime_unhandled_exception_policy_set 0] @ patch_calls"

definition init_calls :: "platform \<Rightarrow> 'a vml_state_scheme \<Rightarrow> call list" where
  "init_calls P s = boot_calls P s @ config_calls P s @ [jit_init] @
     (if root_domain P s \<noteq> 0 then domain_calls P s else [])"

lemma initPSP2Stage2_eq [call_simps]:
  "initPSP2Stage2 P s = (root_domain P s, s\<lparr>calls := calls s @ init_calls P s\<rparr>)"
proof (cases "s_monoVerboseDebug s = 0")
  case True
  then show ?thesis
    by (simp add: initPSP2Stage2_def call_simps ext_def run_def Let_def init_calls_def
        boot_calls_def config_calls_def domain_calls_def root_domain_def trace_calls_def
        RUNTIME_VERSION_def MONO_UNHANDLED_POLICY_LEGACY_def butlast_append cong: let_weak_cong)
next
  case False
  then show ?thesis
    by (simp add: initPSP2Stage2_def call_simps ext_def run_def Let_def init_calls_def
        boot_calls_def config_calls_def domain_calls_def root_domain_def trace_calls_def
        RUNTIME_VERSION_def MONO_UNHANDLED_POLICY_LEGACY_def butlast_append cong: let_weak_cong)
qed

definition shutdown_calls :: "platform \<Rightarrow> 'a vml_state_scheme \<Rightarrow> call list" where
  "shutdown_calls P s =
    [mono_threads_set_shutting_down, mono_runtime_set_shutting_down, mono_thread_pool_cleanup,
     mono_thread_suspend_all_other_threads, mono_get_root_domain,
     mono_jit_cleanup (answer P (calls s @ [mono_threads_set_shutting_down,
       mono_runtime_set_shutting_down, mono_thread_pool_cleanup,
       mono_thread_suspend_all_other_threads]) mono_get_root_domain)]"

lemma monoShutdown_eq [call_simps]:
  "monoShutdown P s = s\<lparr>calls := calls s @ shutdown_calls P s\<rparr>"
  by (simp add: monoShutdown_def ext_def run_def Let_def shutdown_calls_def)


lemma calls_of_init [simp]: "since s (snd (initPSP2Stage2 P s)) = init_calls P s"
  by (simp add: call_simps)

lemma fst_init [simp]: "fst (initPSP2Stage2 P s) = root_domain P s"
  by (simp add: call_simps)

fun is_jit_init :: "call \<Rightarrow> bool" where
  "is_jit_init (mono_jit_init_version d v) = True"
| "is_jit_init _ = False"

fun is_root_entry :: "call \<Rightarrow> bool" where
  "is_root_entry (call_root_entry f) = True"
| "is_root_entry _ = False"

fun is_jit_cleanup :: "call \<Rightarrow> bool" where
  "is_jit_cleanup (mono_jit_cleanup d) = True"
| "is_jit_cleanup _ = False"

abbreviation count_calls :: "(call \<Rightarrow> bool) \<Rightarrow> call list \<Rightarrow> nat" where
  "count_calls p cs \<equiv> length (filter p cs)"

lemmas call_list_defs = boot_calls_def config_calls_def domain_calls_def core_calls_def
  core_assemblies_def trace_calls_def patch_calls_def shutdown_calls_def

lemma count_parts [simp]:
  "filter is_jit_init (boot_calls P s) = []"
  "filter is_jit_init (config_calls P s) = []"
  "filter is_jit_init (domain_calls P s) = []"
  "filter is_jit_init (shutdown_calls P s) = []"
  "filter is_root_entry (boot_calls P s) = []"
  "filter is_root_entry (config_calls P s) = []"
  "filter is_root_entry (domain_calls P s) = []"
  "filter is_root_entry (shutdown_calls P s) = []"
  "filter is_jit_cleanup (boot_calls P s) = []"
  "filter is_jit_cleanup (config_calls P s) = []"
  "filter is_jit_cleanup (domain_calls P s) = []"
  "count_calls is_jit_cleanup (shutdown_calls P s) = 1"
  by (simp_all add: call_list_defs)

lemma count_init [simp]:
  "count_calls is_jit_init (init_calls P s) = 1"
  "filter is_root_entry (init_calls P s) = []"
  "filter is_jit_cleanup (init_calls P s) = []"
  by (simp_all add: init_calls_def)

lemma after_only_all:
  "\<lbrakk>\<forall>c \<in> set xs. \<not> q c; \<exists>c \<in> set xs. p c\<rbrakk> \<Longrightarrow> after_only p q (xs @ ys)"
  by (induction xs) auto

lemma no_jit_init_before:
  "\<forall>c \<in> set (boot_calls P s @ config_calls P s). \<not> is_jit_init c"
  by (simp add: call_list_defs)

lemma before_jit_init:
  assumes "c \<in> set (boot_calls P s @ config_calls P s)"
  shows "after_only (\<lambda>x. x = c) is_jit_init (init_calls P s)"
proof -
  have "after_only (\<lambda>x. x = c) is_jit_init ((boot_calls P s @ config_calls P s) @ ys)" for ys
    by (rule after_only_all [OF no_jit_init_before]) (use assms in blast)
  then show ?thesis by (simp add: init_calls_def)
qed

text \<open>What the patches bind.\<close>

definition patch_table :: "string \<rightharpoonup> string" where
  "patch_table = map_of
    [(''System.Text.Encoding::InternalCodePage'', ''vml_icall_System_Text_Encoding_InternalCodePage''),
     (''System.Environment::get_TickCount'', ''ves_icall_System_Environment_get_TickCount''),
     (''System.Environment::internalGetEnvironmentVariable'',
      ''ves_icall_System_Environment_GetEnvironmentVariable''),
     (''System.Environment::InternalSetEnvironmentVariable'',
      ''ves_icall_System_Environment_InternalSetEnvironmentVariable''),
     (''System.IO.MonoIO::GetCurrentDirectory'', ''vml_icall_System_IO_MonoIO_GetCurrentDirectory'')]"

lemma bound_patch_calls: "bound patch_calls n = patch_table n"
  by (simp add: patch_calls_def patch_table_def)

lemma bound_none: "(\<And>m f. mono_add_internal_call m f \<notin> set cs) \<Longrightarrow> bound cs n = None"
proof (induction cs)
  case (Cons c cs)
  then show ?case by (cases c) auto
qed simp

lemma bound_boot: "bound (boot_calls P s) n = None" "bound (config_calls P s) n = None"
  by (rule bound_none; auto simp: call_list_defs)+

lemma bound_init: "bound (init_calls P s) n = (if root_domain P s \<noteq> 0 then patch_table n else None)"
proof (cases "root_domain P s = 0")
  case True
  then show ?thesis by (simp add: init_calls_def bound_append bound_boot)
next
  case False
  then have "init_calls P s = (boot_calls P s @ config_calls P s @ [jit_init]) @ butlast_part @ patch_calls"
    if "butlast_part = take 4 (domain_calls P s)" for butlast_part
    using that by (simp add: init_calls_def domain_calls_def)
  moreover have "bound (take 4 (domain_calls P s)) n = None"
    by (rule bound_none) (auto simp: domain_calls_def)
  ultimately show ?thesis
    using False by (simp add: bound_append bound_boot bound_patch_calls split: option.splits
        del: append_assoc)
qed

section \<open>The chain of look-ups of \<open>VMLRunMain\<close>\<close>

text \<open>
  From the domain to the method, every handle is asked for with the one before it; the chain
  stops at the first null handle.
\<close>

fun chase :: "platform \<Rightarrow> (u32 \<Rightarrow> call) list \<Rightarrow> u32 \<Rightarrow> 'a vml_state_scheme \<Rightarrow>
    u32 option \<times> 'a vml_state_scheme" where
  "chase P [] h s = (Some h, s)"
| "chase P (st # sts) h s =
    (let (h', s') = ext P (st h) s in if h' = 0 then (None, s') else chase P sts h' s')"

definition stages :: "cstr \<Rightarrow> (u32 \<Rightarrow> call) list" where
  "stages path = [\<lambda>d. mono_domain_assembly_open d path, mono_assembly_get_image,
     \<lambda>i. mono_class_from_name i '''' ''Program'', \<lambda>k. mono_class_get_method_from_name k ''Main'' 0]"

definition invoke_main :: "platform \<Rightarrow> u32 \<Rightarrow> 'a vml_state_scheme \<Rightarrow> (u32 \<times> 'a vml_state_scheme) option" where
  "invoke_main P m s =
    (let (res, s1) = ext P (mono_runtime_invoke m 0 0 0) s;
         (cell, s2) = ext P (mono_object_unbox res) s1
     in map_option (\<lambda>v. (v, s2)) (peek P (calls s2) cell))"

definition run_main_spec ::
  "platform \<Rightarrow> cstr \<Rightarrow> u32 \<Rightarrow> 'a vml_state_scheme \<Rightarrow> (u32 \<times> 'a vml_state_scheme) option" where
  "run_main_spec P path info s =
    (let (d, s1) = ext P mono_get_root_domain s in
     if d = 0 \<or> info = 0 then Some (SCE_ERROR_ERRNO_EINVAL, s1)
     else case chase P (stages path) d (run (mono_aot_register_module info) s1) of
         (None, s2) \<Rightarrow> Some (SCE_ERROR_ERRNO_EINVAL, s2)
       | (Some m, s2) \<Rightarrow> invoke_main P m s2)"

lemma VMLRunMain_spec [call_simps]: "VMLRunMain P path info s = run_main_spec P path info s"
  by (simp add: VMLRunMain_def run_main_spec_def stages_def invoke_main_def ext_def run_def
      Let_def cong: let_weak_cong)

text \<open>A call is given no null handle.\<close>

fun handle_ok :: "call \<Rightarrow> bool" where
  "handle_ok (mono_aot_register_module i) = (i \<noteq> 0)"
| "handle_ok (mono_domain_assembly_open d p) = (d \<noteq> 0)"
| "handle_ok (mono_assembly_get_image a) = (a \<noteq> 0)"
| "handle_ok (mono_class_from_name i n c) = (i \<noteq> 0)"
| "handle_ok (mono_class_get_method_from_name k m n) = (k \<noteq> 0)"
| "handle_ok (mono_runtime_invoke m obj ps exc) = (m \<noteq> 0)"
| "handle_ok (mono_object_unbox ob) = (ob \<noteq> 0)"
| "handle_ok _ = True"

fun is_invoke :: "call \<Rightarrow> bool" where
  "is_invoke (mono_runtime_invoke m obj ps exc) = True"
| "is_invoke _ = False"

section \<open>Properties\<close>

text \<open>A platform for the witnesses: the runtime gives out \<open>d\<close> for every handle.\<close>

definition demo_platform :: "u32 \<Rightarrow> platform" where
  "demo_platform d = \<lparr>answer = (\<lambda>cs c. d), peek = (\<lambda>cs a. if a = 0 then None else Some 7),
     aot_info = (\<lambda>m. of_nat (length m)), SCE_OK = 0,
     SCE_KERNEL_ERROR_INVALID_ARGUMENT = 0x80020003, SCE_KERNEL_1MiB = 0x100000,
     SCE_KERNEL_CPU_MASK_USER_0 = 0x10000, SCE_KERNEL_ERROR_MODULEMGR_OLD_LIB = 0x8002D013,
     SCE_SYSMODULE_NET = 1, SCE_O_WRONLY = 2, SCE_O_CREAT = 0x200, SCE_O_TRUNC = 0x400\<rparr>"

lemma demo_platform_simps [simp]:
  "answer (demo_platform d) cs c = d"
  "peek (demo_platform d) cs a = (if a = 0 then None else Some 7)"
  "SCE_OK (demo_platform d) = 0"
  by (simp_all add: demo_platform_def)

text \<open>
  The runtime's root domain is created exactly once per set-up, and never before all eight
  class libraries are registered, full AOT mode is switched on in both places and the paths
  given to \<open>VMLSetPaths\<close> are handed over.
\<close>
lemma set_up_order:
  "count_calls is_jit_init (since s (snd (initPSP2Stage2 P s))) = 1 \<and>
   list_all (\<lambda>m. after_only (\<lambda>c. c = mono_aot_register_module (aot_info P m)) is_jit_init
                   (since s (snd (initPSP2Stage2 P s)))) core_assemblies \<and>
   after_only (\<lambda>c. c = set_mono_aot_only True) is_jit_init (since s (snd (initPSP2Stage2 P s))) \<and>
   after_only (\<lambda>c. c = mono_jit_set_aot_only True) is_jit_init (since s (snd (initPSP2Stage2 P s))) \<and>
   after_only (\<lambda>c. c = mono_set_dirs (vml_assembly_path s) (vml_config_path s)) is_jit_init
     (since s (snd (initPSP2Stage2 P s)))"
  by (auto simp: list_all_iff intro!: before_jit_init)
    (auto simp: boot_calls_def config_calls_def core_calls_def)

text \<open>
  The set-up binds each replaced internal call to the function of the library that replaces
  it exactly when the root domain was created, and binds nothing else.
\<close>
lemma patched_iff_domain:
  "bound (since s (snd (initPSP2Stage2 P s))) n =
     (if fst (initPSP2Stage2 P s) \<noteq> 0 then patch_table n else None)"
  by (simp add: bound_init)

text \<open>
  C4: The main thread enters the application once and afterwards shuts the runtime down once if
  the root domain was created, and does neither otherwise; in both cases it reports success, and
  the shutdown is always the last thing it does.
\<close>
theorem monoMain_brackets:
  assumes "monoMain P app s = Some (r, t)"
    and "\<And>f u v. app f u = Some v \<Longrightarrow>
           \<exists>cs. calls v = calls u @ cs \<and> filter is_root_entry cs = [] \<and> filter is_jit_cleanup cs = []"
  shows "count_calls is_root_entry (since s t) = (if root_domain P s \<noteq> 0 then 1 else 0) \<and>
    count_calls is_jit_cleanup (since s t) = (if root_domain P s \<noteq> 0 then 1 else 0) \<and>
    after_only is_root_entry is_jit_cleanup (since s t) \<and>
    (root_domain P s \<noteq> 0 \<longrightarrow> is_jit_cleanup (last (since s t))) \<and>
    r = (if root_domain P s \<noteq> 0 then 0 else SCE_OK P)"
proof (cases "root_domain P s = 0")
  case True
  have "after_only is_root_entry is_jit_cleanup (init_calls P s)"
    using after_only_all [of "init_calls P s" is_jit_cleanup is_root_entry "[]"]
      count_init(3) [of P s] True
    by (simp add: init_calls_def call_list_defs)
  then show ?thesis using assms True by (auto simp: monoMain_def call_simps)
next
  case False
  let ?s1 = "s\<lparr>calls := calls s @ init_calls P s\<rparr>"
  obtain f s2 where f: "s_rootEntry s = Some f" "app f (run (call_root_entry f) ?s1) = Some s2"
    and t: "t = monoShutdown P s2" "r = 0"
    using assms(1) False by (auto simp: monoMain_def call_simps split: option.splits)
  obtain cs where cs: "calls s2 = calls s @ init_calls P s @ call_root_entry f # cs"
    "filter is_root_entry cs = []" "filter is_jit_cleanup cs = []"
    using assms(2) [OF f(2)] by (auto simp: run_def)
  have st: "since s t = init_calls P s @ call_root_entry f # cs @ shutdown_calls P s2"
    using cs(1) t by (simp add: call_simps)
  have "after_only is_root_entry is_jit_cleanup (since s t)"
    unfolding st using count_init(3) [of P s]
    by (auto simp: after_only_append filter_empty_conv init_calls_def call_list_defs)
  moreover have "is_jit_cleanup (last (since s t))"
    unfolding st by (simp add: shutdown_calls_def)
  moreover have "count_calls is_root_entry (since s t) = 1" "count_calls is_jit_cleanup (since s t) = 1"
    unfolding st using cs(2,3) by simp_all
  ultimately show ?thesis using False t(2) by simp
qed

theorem monoMain_brackets_witness:
  "count_calls is_jit_cleanup (since (vml_init\<lparr>s_rootEntry := Some ''rootEntry''\<rparr>)
     (snd (the (monoMain (demo_platform 1) (\<lambda>f u. Some u) (vml_init\<lparr>s_rootEntry := Some ''rootEntry''\<rparr>))))) = 1"
proof -
  let ?s = "vml_init\<lparr>s_rootEntry := Some ''rootEntry''\<rparr>"
  obtain t where t: "monoMain (demo_platform 1) (\<lambda>f u. Some u) ?s = Some (0, t)"
    by (simp add: monoMain_def call_simps root_domain_def)
  have d: "root_domain (demo_platform 1) ?s \<noteq> 0" by (simp add: root_domain_def)
  show ?thesis
    using monoMain_brackets [OF t] d t by auto
qed

text \<open>
  \<open>VMLRunMain\<close> is the chain of look-ups domain, assembly, image, class, method, each fed
  with the handle found before it and stopped at the first null one, followed by the invocation
  of the method and the reading of its result.
\<close>
lemma VMLRunMain_is_chain:
  "VMLRunMain P path info s = run_main_spec P path info s"
  by (rule VMLRunMain_spec)

text \<open>The look-ups in their order, and the handles they give when all of them succeed.\<close>

definition look_up_calls :: "cstr \<Rightarrow> u32 \<Rightarrow> u32 \<Rightarrow> u32 \<Rightarrow> u32 \<Rightarrow> u32 \<Rightarrow> call list" where
  "look_up_calls path info d a i k =
     [mono_get_root_domain, mono_aot_register_module info, mono_domain_assembly_open d path, mono_assembly_get_image a,
      mono_class_from_name i '''' ''Program'', mono_class_get_method_from_name k ''Main'' 0]"

definition look_ups_succeed ::
  "platform \<Rightarrow> cstr \<Rightarrow> u32 \<Rightarrow> call list \<Rightarrow> u32 \<Rightarrow> u32 \<Rightarrow> u32 \<Rightarrow> u32 \<Rightarrow> u32 \<Rightarrow> bool" where
  "look_ups_succeed P path info cs d a i k m \<longleftrightarrow>
     info \<noteq> 0 \<and> d \<noteq> 0 \<and> a \<noteq> 0 \<and> i \<noteq> 0 \<and> k \<noteq> 0 \<and> m \<noteq> 0 \<and>
     (let L = look_up_calls path info d a i k in
        answer P cs (L ! 0) = d \<and> answer P (cs @ take 2 L) (L ! 2) = a \<and> answer P (cs @ take 3 L) (L ! 3) = i \<and>
        answer P (cs @ take 4 L) (L ! 4) = k \<and> answer P (cs @ take 5 L) (L ! 5) = m)"

lemmas look_up_simps = look_ups_succeed_def look_up_calls_def Let_def ext_def run_def

lemma VMLRunMain_found:
  assumes "look_ups_succeed P path info (calls s) d a i k m"
  shows "VMLRunMain P path info s =
    invoke_main P m (s\<lparr>calls := calls s @ look_up_calls path info d a i k\<rparr>)"
  using assms by (simp add: VMLRunMain_def invoke_main_def look_up_simps numeral_eq_Suc)

lemma VMLRunMain_not_found:
  assumes "\<And>d a i k m. \<not> look_ups_succeed P path info (calls s) d a i k m"
  shows "\<exists>cs. VMLRunMain P path info s = Some (SCE_ERROR_ERRNO_EINVAL, s\<lparr>calls := calls s @ cs\<rparr>) \<and>
    (\<forall>c \<in> set cs. handle_ok c \<and> \<not> is_invoke c)"
proof -
  let ?d = "answer P (calls s) mono_get_root_domain"
  let ?cs2 = "[mono_get_root_domain, mono_aot_register_module info]"
  let ?a = "answer P (calls s @ ?cs2) (mono_domain_assembly_open ?d path)"
  let ?cs3 = "?cs2 @ [mono_domain_assembly_open ?d path]"
  let ?i = "answer P (calls s @ ?cs3) (mono_assembly_get_image ?a)"
  let ?cs4 = "?cs3 @ [mono_assembly_get_image ?a]"
  let ?k = "answer P (calls s @ ?cs4) (mono_class_from_name ?i '''' ''Program'')"
  let ?cs5 = "?cs4 @ [mono_class_from_name ?i '''' ''Program'']"
  let ?m = "answer P (calls s @ ?cs5) (mono_class_get_method_from_name ?k ''Main'' 0)"
  let ?cs6 = "?cs5 @ [mono_class_get_method_from_name ?k ''Main'' 0]"
  have ends: ?thesis if "VMLRunMain P path info s = Some (SCE_ERROR_ERRNO_EINVAL, s\<lparr>calls := calls s @ cs\<rparr>)"
      "\<forall>c \<in> set cs. handle_ok c \<and> \<not> is_invoke c" for cs
    using that by blast
  consider "?d = 0 \<or> info = 0" | "?d \<noteq> 0" "info \<noteq> 0" "?a = 0" | "?d \<noteq> 0" "info \<noteq> 0" "?a \<noteq> 0" "?i = 0"
    | "?d \<noteq> 0" "info \<noteq> 0" "?a \<noteq> 0" "?i \<noteq> 0" "?k = 0" | "?d \<noteq> 0" "info \<noteq> 0" "?a \<noteq> 0" "?i \<noteq> 0" "?k \<noteq> 0" "?m = 0"
    using assms [of ?d ?a ?i ?k ?m] by (auto simp: look_up_simps numeral_eq_Suc)
  then show ?thesis
  proof cases
    case 1
    then show ?thesis by (intro ends [of "[mono_get_root_domain]"]) (auto simp: VMLRunMain_def ext_def)
  next
    case 2
    then show ?thesis by (intro ends [of ?cs3]) (simp_all add: VMLRunMain_def ext_def run_def Let_def)
  next
    case 3
    then show ?thesis by (intro ends [of ?cs4]) (simp_all add: VMLRunMain_def ext_def run_def Let_def)
  next
    case 4
    then show ?thesis by (intro ends [of ?cs5]) (simp_all add: VMLRunMain_def ext_def run_def Let_def)
  next
    case 5
    then show ?thesis by (intro ends [of ?cs6]) (simp_all add: VMLRunMain_def ext_def run_def Let_def)
  qed
qed

text \<open>
  C8: \<open>VMLRunMain\<close> on every branch. When the root domain, the assembly, its image, the class and the method are all found, it invokes
  \<open>Main\<close> once, without arguments, and its result is the integer read from the unboxed answer, undefined where that address
  cannot be read; every handle it passes on is not null, except that the answer of \<open>Main\<close> is unboxed untested. When any of them
  is missing, or no module information was given, it returns the error code, has invoked nothing and has passed no null handle.
  No other state changes.
\<close>
theorem VMLRunMain_safe:
  "(\<forall>d a i k m. look_ups_succeed P path info (calls s) d a i k m \<longrightarrow>
     (let h = calls s @ look_up_calls path info d a i k; invoke = mono_runtime_invoke m 0 0 0;
          result = answer P h invoke; unbox = mono_object_unbox result; cell = answer P (h @ [invoke]) unbox
      in VMLRunMain P path info s =
           map_option (\<lambda>v. (v, s\<lparr>calls := h @ [invoke, unbox]\<rparr>)) (peek P (h @ [invoke, unbox]) cell) \<and>
         (\<forall>c \<in> set (look_up_calls path info d a i k). handle_ok c \<and> \<not> is_invoke c) \<and> handle_ok invoke \<and>
         handle_ok unbox = (result \<noteq> 0))) \<and>
   ((\<nexists>d a i k m. look_ups_succeed P path info (calls s) d a i k m) \<longrightarrow>
     (\<exists>cs. VMLRunMain P path info s = Some (SCE_ERROR_ERRNO_EINVAL, s\<lparr>calls := calls s @ cs\<rparr>) \<and>
        (\<forall>c \<in> set cs. handle_ok c \<and> \<not> is_invoke c)))"
proof (intro conjI allI impI)
  fix d a i k m assume found: "look_ups_succeed P path info (calls s) d a i k m"
  then have "\<forall>c \<in> set (look_up_calls path info d a i k). handle_ok c \<and> \<not> is_invoke c" "m \<noteq> 0"
    by (simp_all add: look_ups_succeed_def look_up_calls_def)
  then show "let h = calls s @ look_up_calls path info d a i k; invoke = mono_runtime_invoke m 0 0 0;
          result = answer P h invoke; unbox = mono_object_unbox result; cell = answer P (h @ [invoke]) unbox
      in VMLRunMain P path info s =
           map_option (\<lambda>v. (v, s\<lparr>calls := h @ [invoke, unbox]\<rparr>)) (peek P (h @ [invoke, unbox]) cell) \<and>
         (\<forall>c \<in> set (look_up_calls path info d a i k). handle_ok c \<and> \<not> is_invoke c) \<and> handle_ok invoke \<and>
         handle_ok unbox = (result \<noteq> 0)"
    using VMLRunMain_found [OF found] by (simp add: invoke_main_def ext_def Let_def)
next
  assume "\<nexists>d a i k m. look_ups_succeed P path info (calls s) d a i k m"
  then show "\<exists>cs. VMLRunMain P path info s = Some (SCE_ERROR_ERRNO_EINVAL, s\<lparr>calls := calls s @ cs\<rparr>) \<and>
      (\<forall>c \<in> set cs. handle_ok c \<and> \<not> is_invoke c)"
    by (intro VMLRunMain_not_found) blast
qed

text \<open>A platform on which everything is found and \<open>Main\<close> answers 7, and one on which nothing is.\<close>

theorem VMLRunMain_safe_witness:
  "(\<exists>t. VMLRunMain (demo_platform 5) (Some ''app0:/VML/Sample1.dll'') 9 vml_init = Some (7, t)) \<and>
   (\<exists>t. VMLRunMain (demo_platform 0) None 9 vml_init = Some (SCE_ERROR_ERRNO_EINVAL, t))"
proof
  have "look_ups_succeed (demo_platform 5) (Some ''app0:/VML/Sample1.dll'') 9 (calls vml_init) 5 5 5 5 5"
    by (simp add: look_ups_succeed_def Let_def)
  then show "\<exists>t. VMLRunMain (demo_platform 5) (Some ''app0:/VML/Sample1.dll'') 9 vml_init = Some (7, t)"
    using conjunct1 [OF VMLRunMain_safe, rule_format, of "demo_platform 5" "Some ''app0:/VML/Sample1.dll''" 9 vml_init 5 5 5 5 5]
    by (auto simp: Let_def)
  have "\<nexists>d a i k m. look_ups_succeed (demo_platform 0) None 9 (calls vml_init) d a i k m"
    by (simp add: look_ups_succeed_def Let_def)
  then show "\<exists>t. VMLRunMain (demo_platform 0) None 9 vml_init = Some (SCE_ERROR_ERRNO_EINVAL, t)"
    using mp [OF conjunct2 [OF VMLRunMain_safe [of "demo_platform 0" None 9 vml_init]]] by blast
qed

text \<open>
  If the invocation of \<open>Main\<close> gives no object (it returns void, or it threw), \<open>VMLRunMain\<close>
  unboxes the null object, and its behaviour is undefined unless the runtime answers that with a
  readable address.
\<close>
lemma VMLRunMain_unboxes_null:
  assumes "answer P (calls s) mono_get_root_domain \<noteq> 0" "info \<noteq> 0"
    and "chase P (stages path) (answer P (calls s) mono_get_root_domain)
           (run (mono_aot_register_module info) (run mono_get_root_domain s)) = (Some m, u)"
    and "answer P (calls u) (mono_runtime_invoke m 0 0 0) = 0"
    and "peek P (calls u @ [mono_runtime_invoke m 0 0 0, mono_object_unbox 0])
           (answer P (calls u @ [mono_runtime_invoke m 0 0 0]) (mono_object_unbox 0)) = None"
  shows "VMLRunMain P path info s = None"
  using assms by (simp add: call_simps run_main_spec_def ext_def run_def invoke_main_def Let_def)

definition void_platform :: platform where
  "void_platform = (demo_platform 5)\<lparr>answer := (\<lambda>cs c. if is_invoke c \<or> c = mono_object_unbox 0 then 0 else 5)\<rparr>"

lemma VMLRunMain_unboxes_null_witness:
  "VMLRunMain void_platform None 9 vml_init = None"
  by (rule VMLRunMain_unboxes_null [where m = 5 and
        u = "vml_init\<lparr>calls := [mono_get_root_domain, mono_aot_register_module 9,
               mono_domain_assembly_open 5 None, mono_assembly_get_image 5,
               mono_class_from_name 5 '''' ''Program'', mono_class_get_method_from_name 5 ''Main'' 0]\<rparr>"])
    (simp_all add: void_platform_def demo_platform_def vml_init_def stages_def ext_def run_def)

text \<open>
  \<open>VMLInitialize\<close> refuses a null entry function and then changes nothing; otherwise it records
  the entry function, asks for exactly one thread, running \<open>monoMain\<close> with the caller's stack
  size, affinity and priority or with the defaults, reports success whatever that call answers,
  and can switch the verbose flag on but never off.
\<close>
lemma VMLInitialize_effect:
  "VMLInitialize P None opt s = (SCE_KERNEL_ERROR_INVALID_ARGUMENT P, s) \<and>
   fst (VMLInitialize P (Some f) opt s) = SCE_OK P \<and>
   s_rootEntry (snd (VMLInitialize P (Some f) opt s)) = Some f \<and>
   since s (snd (VMLInitialize P (Some f) opt s)) =
     [MonoCreateMainThread \<lparr>mtp_name = ''Mono_main_thread'', mtp_entry = Some ''monoMain'',
        mtp_stackSize = (case opt of None \<Rightarrow> SCE_KERNEL_1MiB P | Some p \<Rightarrow> opt_stackSize p),
        mtp_cpuAffinity = (case opt of None \<Rightarrow> SCE_KERNEL_CPU_MASK_USER_0 P | Some p \<Rightarrow> opt_cpuAffinity p),
        mtp_priority = (case opt of None \<Rightarrow> 64 | Some p \<Rightarrow> opt_priority p)\<rparr>] \<and>
   s_monoVerboseDebug (snd (VMLInitialize P (Some f) opt s)) =
     (if \<exists>p. opt = Some p \<and> opt_monoVerboseDebug p \<noteq> 0 then 1 else s_monoVerboseDebug s)"
  by (cases opt) (simp_all add: VMLInitialize_def run_def Let_def
      SCE_KERNEL_INDIVIDUAL_QUEUE_HIGHEST_PRIORITY_def)

end
