(* ===== verification/Lifecycle.thy ===== *)
theory Lifecycle
  imports LoaderProps
begin

text \<open>
  The life of the library as a state machine: the application calls the exported functions in
  any order and from any thread, and every thread that \<open>VMLInitialize\<close> asked for goes through
  the stages of \<open>monoMain\<close>. Functions of the library are atomic steps; \<open>monoMain\<close> is cut at
  the points where control leaves the library.
\<close>

section \<open>Steps\<close>

datatype phase = Pending | Rooting | In_app string | Done

record life_state = vml_state +
  threads :: "phase list"

definition life_init :: life_state where
  "life_init = vml_state.extend vml_init \<lparr>threads = []\<rparr>"

text \<open>
  Calls of the application. Whether the runtime starts the thread it is asked for is not known
  here, so both outcomes are steps.
\<close>

inductive api :: "platform \<Rightarrow> life_state \<Rightarrow> life_state \<Rightarrow> bool" for P where
  initialize: "api P s ((snd (VMLInitialize P (Some f) opt s))\<lparr>threads := threads s @ [Pending]\<rparr>)"
| initialize_no_thread: "api P s (snd (VMLInitialize P (Some f) opt s))"
| initialize_null: "api P s (snd (VMLInitialize P None opt s))"
| run_main: "VMLRunMain P path info s = Some (r, t) \<Longrightarrow> api P s t"
| register_assembly: "api P s (snd (VMLRegisterAssembly P info s))"
| set_paths: "api P s (VMLSetPaths a c s)"
| end_log: "api P s (VMLEnd s)"
| command_line: "api P s (snd (VMLSetCommandLineArgs P argc argv s))"

text \<open>One stage of the thread with number \<open>i\<close>.\<close>

inductive stage :: "platform \<Rightarrow> nat \<Rightarrow> life_state \<Rightarrow> life_state \<Rightarrow> bool" for P i where
  boot_ok: "\<lbrakk>i < length (threads s); threads s ! i = Pending; initPSP2Stage2 P s = (d, t); d \<noteq> 0\<rbrakk>
     \<Longrightarrow> stage P i s (t\<lparr>threads := (threads s)[i := Rooting]\<rparr>)"
| boot_fail: "\<lbrakk>i < length (threads s); threads s ! i = Pending; initPSP2Stage2 P s = (0, t)\<rbrakk>
     \<Longrightarrow> stage P i s (t\<lparr>threads := (threads s)[i := Done]\<rparr>)"
| enter: "\<lbrakk>i < length (threads s); threads s ! i = Rooting; s_rootEntry s = Some f\<rbrakk>
     \<Longrightarrow> stage P i s ((run (call_root_entry f) s)\<lparr>threads := (threads s)[i := In_app f]\<rparr>)"
| leave: "\<lbrakk>i < length (threads s); threads s ! i = In_app f\<rbrakk>
     \<Longrightarrow> stage P i s ((monoShutdown P s)\<lparr>threads := (threads s)[i := Done]\<rparr>)"

definition step :: "platform \<Rightarrow> life_state \<Rightarrow> life_state \<Rightarrow> bool" where
  "step P s t \<longleftrightarrow> api P s t \<or> (\<exists>i. stage P i s t)"

inductive steps :: "platform \<Rightarrow> life_state \<Rightarrow> life_state \<Rightarrow> bool" for P where
  refl [intro]: "steps P s s"
| more: "\<lbrakk>steps P s t; step P t u\<rbrakk> \<Longrightarrow> steps P s u"

lemma steps_trans: "\<lbrakk>steps P t u; steps P s t\<rbrakk> \<Longrightarrow> steps P s u"
  by (induction rule: steps.induct) (auto intro: steps.more)

lemma steps_one: "step P s t \<Longrightarrow> steps P s t"
  by (rule steps.more [OF steps.refl])

lemma steps_stage: "stage P i s t \<Longrightarrow> steps P s t"
  by (rule steps_one) (auto simp: step_def)

lemma steps_api: "api P s t \<Longrightarrow> steps P s t"
  by (rule steps_one) (simp add: step_def)

definition reachable :: "platform \<Rightarrow> life_state \<Rightarrow> bool" where
  "reachable P s \<longleftrightarrow> steps P life_init s"

section \<open>The invariant\<close>

abbreviation in_phase :: "(phase \<Rightarrow> bool) \<Rightarrow> life_state \<Rightarrow> nat" where
  "in_phase p s \<equiv> length (filter p (threads s))"

fun entered :: "phase \<Rightarrow> bool" where
  "entered (In_app f) = True"
| "entered _ = False"

text \<open>
  The log file is never opened and the trace mask stays empty; a thread that is going to call
  the entry function finds one; and the counts of domain creations, entries and shutdowns fit
  the stages the threads are in.
\<close>

definition life_inv :: "life_state \<Rightarrow> bool" where
  "life_inv s \<longleftrightarrow>
     VitaMonoLoader_log s = 0 \<and> mono_internal_current_mask s = 0 \<and>
     (threads s \<noteq> [] \<longrightarrow> s_rootEntry s \<noteq> None) \<and>
     count_calls is_jit_init (calls s) + in_phase (\<lambda>p. p = Pending) s = length (threads s) \<and>
     count_calls is_root_entry (calls s) + in_phase (\<lambda>p. p = Rooting) s \<le> count_calls is_jit_init (calls s) \<and>
     count_calls is_jit_cleanup (calls s) + in_phase entered s = count_calls is_root_entry (calls s)"

lemma life_inv_init: "life_inv life_init"
  by (simp add: life_inv_def life_init_def vml_state.defs vml_init_def)

text \<open>The effect of \<open>VMLRunMain\<close>: it only adds calls, and none of those counted.\<close>

lemma VMLRunMain_calls:
  assumes "VMLRunMain P path info s = Some (r, t)"
  shows "\<exists>cs. t = s\<lparr>calls := calls s @ cs\<rparr> \<and> filter is_jit_init cs = [] \<and>
    filter is_root_entry cs = [] \<and> filter is_jit_cleanup cs = []"
proof -
  have "\<exists>cs. t = s\<lparr>calls := calls s @ cs\<rparr> \<and>
      (\<forall>c \<in> set cs. \<not> is_jit_init c \<and> \<not> is_root_entry c \<and> \<not> is_jit_cleanup c)"
    if "chase P sts h s = (r, t)"
      "\<forall>st \<in> set sts. \<forall>k. \<not> is_jit_init (st k) \<and> \<not> is_root_entry (st k) \<and> \<not> is_jit_cleanup (st k)"
    for sts h s r and t :: "'b vml_state_scheme"
    using that
  proof (induction sts arbitrary: h s)
    case Nil
    then show ?case by (intro exI [of _ "[]"]) simp
  next
    case (Cons st sts)
    let ?s = "s\<lparr>calls := calls s @ [st h]\<rparr>"
    show ?case
    proof (cases "answer P (calls s) (st h) = 0")
      case True
      then show ?thesis
        using Cons.prems by (intro exI [of _ "[st h]"]) (auto simp: ext_def)
    next
      case False
      then have "chase P sts (answer P (calls s) (st h)) ?s = (r, t)"
        using Cons.prems by (simp add: ext_def)
      then obtain cs where "t = ?s\<lparr>calls := calls ?s @ cs\<rparr>"
        "\<forall>c \<in> set cs. \<not> is_jit_init c \<and> \<not> is_root_entry c \<and> \<not> is_jit_cleanup c"
        using Cons.IH Cons.prems(2) by (metis list.set_intros(2))
      then show ?thesis
        using Cons.prems(2) by (intro exI [of _ "st h # cs"]) auto
    qed
  qed
  note chase = this
  have st: "\<forall>st \<in> set (stages path). \<forall>k. \<not> is_jit_init (st k) \<and> \<not> is_root_entry (st k) \<and> \<not> is_jit_cleanup (st k)"
    by (simp add: stages_def)
  let ?s = "s\<lparr>calls := calls s @ [mono_get_root_domain, mono_aot_register_module info]\<rparr>"
  obtain q u where q: "chase P (stages path) (answer P (calls s) mono_get_root_domain) ?s = (q, u)"
    by fastforce
  from chase [OF q st] obtain cs where cs: "u = ?s\<lparr>calls := calls ?s @ cs\<rparr>"
    "\<forall>c \<in> set cs. \<not> is_jit_init c \<and> \<not> is_root_entry c \<and> \<not> is_jit_cleanup c" by blast
  have fe: "filter is_jit_init cs = []" "filter is_root_entry cs = []" "filter is_jit_cleanup cs = []"
    using cs(2) by (simp_all add: filter_empty_conv)
  consider "t = s\<lparr>calls := calls s @ [mono_get_root_domain]\<rparr>" | "t = u"
    | m res where "t = u\<lparr>calls := calls u @ [mono_runtime_invoke m 0 0 0, mono_object_unbox res]\<rparr>"
    using assms q
    by (auto simp: call_simps run_main_spec_def ext_def run_def invoke_main_def Let_def
        split: if_splits option.splits)
  then show ?thesis
  proof cases
    case 1
    then show ?thesis by (intro exI [of _ "[mono_get_root_domain]"]) simp
  next
    case 2
    then show ?thesis using cs(1) fe
      by (intro exI [of _ "[mono_get_root_domain, mono_aot_register_module info] @ cs"]) simp
  next
    case (3 m res)
    then show ?thesis using cs(1) fe
      by (intro exI [of _ "[mono_get_root_domain, mono_aot_register_module info] @ cs @
            [mono_runtime_invoke m 0 0 0, mono_object_unbox res]"]) simp
  qed
qed

section \<open>Preservation\<close>

text \<open>The number of threads in a stage after one thread moves from \<open>p\<close> to \<open>q\<close>.\<close>

lemma length_filter_update:
  assumes "i < length xs"
  shows "length (filter P (xs[i := y])) + (if P (xs ! i) then 1 else 0) =
    length (filter P xs) + (if P y then 1 else 0)"
  using assms
proof (induction xs arbitrary: i)
  case (Cons x xs)
  show ?case
  proof (cases i)
    case (Suc k)
    then have "length (filter P (xs[k := y])) + (if P (xs ! k) then 1 else 0) =
        length (filter P xs) + (if P y then 1 else 0)"
      using Cons by simp
    then show ?thesis using Suc by (simp split: if_splits)
  qed simp
qed simp

lemma api_inv:
  assumes "api P s t" "life_inv s"
  shows "life_inv t"
  using assms
proof cases
  case (run_main path info r)
  then obtain cs where "t = s\<lparr>calls := calls s @ cs\<rparr>" "filter is_jit_init cs = []"
    "filter is_root_entry cs = []" "filter is_jit_cleanup cs = []"
    using VMLRunMain_calls by blast
  then show ?thesis using assms(2) by (simp add: life_inv_def)
qed (auto simp: life_inv_def VMLInitialize_def VMLRegisterAssembly_def VMLSetPaths_def VMLEnd_def
       VMLSetCommandLineArgs_def ext_def run_def Let_def split: option.splits if_splits)

lemma stage_inv:
  assumes "stage P i s t" "life_inv s"
  shows "life_inv t"
  using assms
proof cases
  case (boot_ok d u)
  have t: "threads t = (threads s)[i := Rooting]" "calls t = calls s @ init_calls P s"
    "VitaMonoLoader_log t = VitaMonoLoader_log s" "s_rootEntry t = s_rootEntry s"
    "mono_internal_current_mask t = mono_internal_current_mask s"
    using boot_ok by (auto simp: call_simps)
  note moved = length_filter_update [OF boot_ok(2), of _ Rooting]
  show ?thesis
    using assms(2) t boot_ok(3) moved [of "\<lambda>p. p = Pending"] moved [of "\<lambda>p. p = Rooting"] moved [of entered]
    by (auto simp: life_inv_def)
next
  case (boot_fail u)
  have t: "threads t = (threads s)[i := Done]" "calls t = calls s @ init_calls P s"
    "VitaMonoLoader_log t = VitaMonoLoader_log s" "s_rootEntry t = s_rootEntry s"
    "mono_internal_current_mask t = mono_internal_current_mask s"
    using boot_fail by (auto simp: call_simps)
  note moved = length_filter_update [OF boot_fail(2), of _ Done]
  show ?thesis
    using assms(2) t boot_fail(3) moved [of "\<lambda>p. p = Pending"] moved [of "\<lambda>p. p = Rooting"] moved [of entered]
    by (auto simp: life_inv_def)
next
  case (enter f)
  have t: "threads t = (threads s)[i := In_app f]" "calls t = calls s @ [call_root_entry f]"
    "VitaMonoLoader_log t = VitaMonoLoader_log s" "s_rootEntry t = s_rootEntry s"
    "mono_internal_current_mask t = mono_internal_current_mask s"
    using enter by (auto simp: run_def)
  note moved = length_filter_update [OF enter(2), of _ "In_app f"]
  show ?thesis
    using assms(2) t enter(3) moved [of "\<lambda>p. p = Pending"] moved [of "\<lambda>p. p = Rooting"] moved [of entered]
    by (auto simp: life_inv_def)
next
  case (leave f)
  have t: "threads t = (threads s)[i := Done]" "calls t = calls s @ shutdown_calls P s"
    "VitaMonoLoader_log t = VitaMonoLoader_log s" "s_rootEntry t = s_rootEntry s"
    "mono_internal_current_mask t = mono_internal_current_mask s"
    using leave by (auto simp: call_simps)
  note moved = length_filter_update [OF leave(2), of _ Done]
  show ?thesis
    using assms(2) t leave(3) moved [of "\<lambda>p. p = Pending"] moved [of "\<lambda>p. p = Rooting"] moved [of entered]
    by (auto simp: life_inv_def)
qed

lemma step_inv: "\<lbrakk>step P s t; life_inv s\<rbrakk> \<Longrightarrow> life_inv t"
  using api_inv stage_inv by (auto simp: step_def)

lemma steps_inv: "\<lbrakk>steps P s t; life_inv s\<rbrakk> \<Longrightarrow> life_inv t"
  by (induction rule: steps.induct) (auto intro: step_inv)

lemma reachable_inv: "reachable P s \<Longrightarrow> life_inv s"
  using steps_inv life_inv_init by (simp add: reachable_def)

text \<open>The verbose flag is only ever set.\<close>

lemma step_verbose: "\<lbrakk>step P s t; s_monoVerboseDebug s \<noteq> 0\<rbrakk> \<Longrightarrow> s_monoVerboseDebug t \<noteq> 0"
  unfolding step_def
proof (elim disjE exE)
  assume "api P s t" "s_monoVerboseDebug s \<noteq> 0"
  then show "s_monoVerboseDebug t \<noteq> 0"
  proof cases
    case (run_main path info r)
    then show ?thesis using VMLRunMain_calls \<open>s_monoVerboseDebug s \<noteq> 0\<close> by fastforce
  qed (auto simp: VMLInitialize_def VMLRegisterAssembly_def VMLSetPaths_def VMLEnd_def
       VMLSetCommandLineArgs_def ext_def run_def Let_def split: option.splits if_splits)
next
  fix i
  assume "stage P i s t" "s_monoVerboseDebug s \<noteq> 0"
  then show "s_monoVerboseDebug t \<noteq> 0"
    by cases (auto simp: call_simps run_def)
qed

section \<open>Properties\<close>

text \<open>
  In every reachable state the trace hook does nothing (tracing never gets through with the
  empty mask), so it never writes to the log file that was never opened, and \<open>VMLEnd\<close> has
  nothing to close.
\<close>
lemma trace_is_silent:
  assumes "reachable P s"
  shows "mono_trace level tmask msg s = Some s \<and> mono_tracev level tmask msg s = Some s \<and> VMLEnd s = s"
  using reachable_inv [OF assms]
  by (simp add: life_inv_def mono_trace_def mono_tracev_def MONO_TRACE_IS_TRACED_def VMLEnd_def)

theorem trace_is_silent_witness:
  "VMLEnd (snd (VMLInitialize (demo_platform 1) (Some ''rootEntry'') None life_init)) =
     snd (VMLInitialize (demo_platform 1) (Some ''rootEntry'') None life_init)"
proof -
  have "reachable (demo_platform 1) (snd (VMLInitialize (demo_platform 1) (Some ''rootEntry'') None life_init))"
    unfolding reachable_def by (rule steps_api) (rule api.initialize_no_thread)
  from trace_is_silent [OF this] show ?thesis by blast
qed

text \<open>
  If the runtime's own code calls the trace hook directly after an application asked for
  verbose output, the hook writes to a null stream, in every state reachable from there.
\<close>
lemma verbose_hook_undefined:
  assumes "reachable P s" "s_monoVerboseDebug s \<noteq> 0" "steps P s t"
  shows "mono_tracev_inner level tmask msg t = None"
proof -
  have "s_monoVerboseDebug t \<noteq> 0"
    using assms(3,2) by (induction rule: steps.induct) (auto dest: step_verbose)
  moreover have "life_inv t"
    using steps_inv [OF assms(3) reachable_inv [OF assms(1)]] .
  ultimately show ?thesis
    by (simp add: mono_tracev_inner_def life_inv_def)
qed

definition verbose_param :: VMLInitOptParam where
  "verbose_param = \<lparr>opt_stackSize = 0x100000, opt_cpuAffinity = 0x10000, opt_priority = 64,
     opt_programName = Some ''Sample1'', opt_monoVerboseDebug = 1\<rparr>"

lemma verbose_hook_undefined_witness:
  "mono_tracev_inner 4 1 ''message''
     (snd (VMLInitialize (demo_platform 1) (Some ''rootEntry'') (Some verbose_param) life_init)) = None"
proof (rule verbose_hook_undefined [OF _ _ steps.refl])
  show "reachable (demo_platform 1)
      (snd (VMLInitialize (demo_platform 1) (Some ''rootEntry'') (Some verbose_param) life_init))"
    unfolding reachable_def by (rule steps_api) (rule api.initialize_no_thread)
  show "s_monoVerboseDebug
      (snd (VMLInitialize (demo_platform 1) (Some ''rootEntry'') (Some verbose_param) life_init)) \<noteq> 0"
    by (simp add: VMLInitialize_def run_def verbose_param_def)
qed

text \<open>
  C5: In every reachable state a thread of the runtime that is not done can take its next step:
  in particular it never calls a null entry function.
\<close>
theorem thread_can_go_on:
  assumes "reachable P s" "i < length (threads s)" "threads s ! i \<noteq> Done"
  shows "\<exists>t. stage P i s t"
proof (cases "threads s ! i")
  case Pending
  obtain d t where "initPSP2Stage2 P s = (d, t)" by fastforce
  then show ?thesis
    using assms(2) Pending boot_ok boot_fail by (cases "d = 0") blast+
next
  case Rooting
  have "threads s \<noteq> []" using assms(2) by auto
  then obtain f where "s_rootEntry s = Some f"
    using reachable_inv [OF assms(1)] by (auto simp: life_inv_def)
  then show ?thesis using assms(2) Rooting enter by blast
next
  case (In_app f)
  then show ?thesis using assms(2) leave by blast
qed (use assms in simp)

theorem thread_can_go_on_witness:
  "\<exists>t. stage (demo_platform 1) 0
     ((snd (VMLInitialize (demo_platform 1) (Some ''rootEntry'') None life_init))\<lparr>threads := [Pending]\<rparr>) t"
proof (rule thread_can_go_on)
  have "threads life_init = []" by (simp add: life_init_def vml_state.defs)
  then show "reachable (demo_platform 1)
     ((snd (VMLInitialize (demo_platform 1) (Some ''rootEntry'') None life_init))\<lparr>threads := [Pending]\<rparr>)"
    unfolding reachable_def
    using steps_api [OF api.initialize, of "demo_platform 1" life_init "''rootEntry''" None] by simp
qed simp_all

text \<open>
  Whatever the application does and however its threads interleave, the runtime is shut down
  at most as often as the application was entered, the application is entered at most as often as
  a root domain was created, and a root domain is created at most once per started thread.
\<close>
lemma balanced_calls:
  assumes "reachable P s"
  shows "count_calls is_jit_cleanup (calls s) \<le> count_calls is_root_entry (calls s) \<and>
    count_calls is_root_entry (calls s) \<le> count_calls is_jit_init (calls s) \<and>
    count_calls is_jit_init (calls s) \<le> length (threads s)"
  using reachable_inv [OF assms] by (simp add: life_inv_def)

lemma balanced_calls_witness:
  "count_calls is_jit_cleanup (calls (VMLSetPaths None None life_init))
     \<le> count_calls is_root_entry (calls (VMLSetPaths None None life_init))"
proof -
  have "reachable P (VMLSetPaths None None life_init)" for P
    unfolding reachable_def by (rule steps_api) (rule api.set_paths)
  from balanced_calls [OF this] show ?thesis by blast
qed

text \<open>
  \<open>monoMain\<close> is a run of its thread through the stages: whenever it returns, the same change
  of the state is reached by steps, the thread ending up done, if what the entry function does is
  a run of the machine too.
\<close>
lemma monoMain_runs_stages:
  assumes "monoMain P app s = Some (r, t)" "i < length (threads s)" "threads s ! i = Pending"
    and "\<And>f u v ts. app f u = Some v \<Longrightarrow> steps P (u\<lparr>threads := ts\<rparr>) (v\<lparr>threads := ts\<rparr>)"
  shows "steps P s (t\<lparr>threads := (threads s)[i := Done]\<rparr>)"
proof (cases "root_domain P s = 0")
  case True
  then have "stage P i s (t\<lparr>threads := (threads s)[i := Done]\<rparr>)"
    using assms(1) boot_fail [OF assms(2,3), of P t] by (auto simp: monoMain_def call_simps)
  then show ?thesis by (rule steps_stage)
next
  case False
  let ?s1 = "s\<lparr>calls := calls s @ init_calls P s\<rparr>"
  let ?ts = "(threads s)[i := Rooting]"
  obtain f s2 where f: "s_rootEntry s = Some f" "app f (run (call_root_entry f) ?s1) = Some s2"
    and t: "t = monoShutdown P s2"
    using assms(1) False by (auto simp: monoMain_def call_simps split: option.splits)
  have "stage P i s (?s1\<lparr>threads := ?ts\<rparr>)"
    using boot_ok [OF assms(2,3), of P] False by (simp add: call_simps)
  then have 1: "steps P s (?s1\<lparr>threads := ?ts\<rparr>)" by (rule steps_stage)
  let ?ts2 = "(threads s)[i := In_app f]"
  have "stage P i (?s1\<lparr>threads := ?ts\<rparr>)
      ((run (call_root_entry f) (?s1\<lparr>threads := ?ts\<rparr>))\<lparr>threads := (threads (?s1\<lparr>threads := ?ts\<rparr>))[i := In_app f]\<rparr>)"
    by (rule enter) (use assms(2) f in simp_all)
  then have "stage P i (?s1\<lparr>threads := ?ts\<rparr>) ((run (call_root_entry f) ?s1)\<lparr>threads := ?ts2\<rparr>)"
    by (simp add: run_def)
  then have 2: "steps P (?s1\<lparr>threads := ?ts\<rparr>) ((run (call_root_entry f) ?s1)\<lparr>threads := ?ts2\<rparr>)"
    by (rule steps_stage)
  have 3: "steps P ((run (call_root_entry f) ?s1)\<lparr>threads := ?ts2\<rparr>) (s2\<lparr>threads := ?ts2\<rparr>)"
    by (rule assms(4) [OF f(2)])
  have "stage P i (s2\<lparr>threads := ?ts2\<rparr>)
      ((monoShutdown P (s2\<lparr>threads := ?ts2\<rparr>))\<lparr>threads := (threads (s2\<lparr>threads := ?ts2\<rparr>))[i := Done]\<rparr>)"
    by (rule leave) (use assms(2) in simp_all)
  then have "stage P i (s2\<lparr>threads := ?ts2\<rparr>) (t\<lparr>threads := (threads s)[i := Done]\<rparr>)"
    by (simp add: t call_simps shutdown_calls_def)
  then have 4: "steps P (s2\<lparr>threads := ?ts2\<rparr>) (t\<lparr>threads := (threads s)[i := Done]\<rparr>)"
    by (rule steps_stage)
  show ?thesis
    by (rule steps_trans [OF 4 steps_trans [OF 3 steps_trans [OF 2 1]]])
qed

lemma monoMain_runs_stages_witness:
  "\<exists>s t. s_rootEntry s = Some ''rootEntry'' \<and> threads s = [Pending] \<and>
     monoMain (demo_platform 1) (\<lambda>f u. Some u) s = Some (0, t) \<and>
     steps (demo_platform 1) s (t\<lparr>threads := [Done]\<rparr>)"
proof -
  let ?s = "life_init\<lparr>s_rootEntry := Some ''rootEntry'', threads := [Pending]\<rparr>"
  obtain t where t: "monoMain (demo_platform 1) (\<lambda>f u. Some u) ?s = Some (0, t)"
    by (simp add: monoMain_def call_simps root_domain_def)
  have "steps (demo_platform 1) ?s (t\<lparr>threads := (threads ?s)[0 := Done]\<rparr>)"
    by (rule monoMain_runs_stages [OF t]) (auto intro: steps.refl)
  then have "steps (demo_platform 1) ?s (t\<lparr>threads := [Done]\<rparr>)" by simp
  with t show ?thesis by (intro exI [of _ ?s] exI [of _ t]) simp
qed

text \<open>
  The entry function is shared by all threads: if the library is initialised twice before the
  first thread has started, both calls report success, yet there is a run in which both threads
  enter the second function and the first is never called.
\<close>
lemma first_entry_can_be_lost:
  assumes "\<And>cs. answer P cs jit_init \<noteq> 0" "f \<noteq> g"
  shows "\<exists>s t u. api P life_init s \<and> s = (snd (VMLInitialize P (Some f) None life_init))\<lparr>threads := [Pending]\<rparr> \<and>
     api P s t \<and> t = (snd (VMLInitialize P (Some g) None s))\<lparr>threads := [Pending, Pending]\<rparr> \<and>
     steps P t u \<and> threads u = [In_app g, In_app g] \<and> call_root_entry f \<notin> set (calls u)"
proof -
  have [simp]: "threads life_init = []" by (simp add: life_init_def vml_state.defs)
  define s where "s = (snd (VMLInitialize P (Some f) None life_init))\<lparr>threads := [Pending]\<rparr>"
  define t where "t = (snd (VMLInitialize P (Some g) None s))\<lparr>threads := [Pending, Pending]\<rparr>"
  have st: "api P life_init s" "api P s t"
    using api.initialize [of P life_init f None] api.initialize [of P s g None]
    by (simp_all add: s_def t_def)
  have ts: "threads t = [Pending, Pending]" and root: "s_rootEntry t = Some g"
    by (simp_all add: t_def VMLInitialize_def Let_def run_def)
  have no_f: "call_root_entry f \<notin> set (calls t)"
    by (simp add: t_def s_def VMLInitialize_def Let_def run_def life_init_def vml_state.defs vml_init_def)
  have boot: "stage P i x ((snd (initPSP2Stage2 P x))\<lparr>threads := (threads x)[i := Rooting]\<rparr>)"
    if "i < length (threads x)" "threads x ! i = Pending" for i x
    by (rule boot_ok [OF that]) (use assms(1) in \<open>simp_all add: call_simps root_domain_def\<close>)
  define t1 where "t1 = (snd (initPSP2Stage2 P t))\<lparr>threads := [Rooting, Pending]\<rparr>"
  define t2 where "t2 = (snd (initPSP2Stage2 P t1))\<lparr>threads := [Rooting, Rooting]\<rparr>"
  define t3 where "t3 = (run (call_root_entry g) t2)\<lparr>threads := [In_app g, Rooting]\<rparr>"
  define t4 where "t4 = (run (call_root_entry g) t3)\<lparr>threads := [In_app g, In_app g]\<rparr>"
  have "stage P 0 t t1" using boot [of 0 t] by (simp add: ts t1_def)
  moreover have "stage P 1 t1 t2" using boot [of 1 t1] by (simp add: t1_def t2_def)
  moreover have "stage P 0 t2 t3"
    using enter [of 0 t2 g P] root by (simp add: t3_def t2_def t1_def call_simps)
  moreover have "stage P 1 t3 t4"
    using enter [of 1 t3 g P] root by (simp add: t4_def t3_def t2_def t1_def call_simps run_def)
  ultimately have run: "steps P t t4"
    by (meson steps_stage steps_trans)
  have no_f_init: "call_root_entry f \<notin> set (init_calls P x)" for x :: life_state
    by (simp add: init_calls_def call_list_defs)
  have "call_root_entry f \<notin> set (calls t4)"
    using no_f no_f_init assms(2) by (simp add: t4_def t3_def t2_def t1_def call_simps run_def)
  then show ?thesis
    using st run s_def t_def t4_def by (intro exI [of _ s] exI [of _ t] exI [of _ t4]) simp
qed

lemma first_entry_can_be_lost_witness:
  "\<exists>s t u. api (demo_platform 1) life_init s \<and> api (demo_platform 1) s t \<and> steps (demo_platform 1) t u \<and>
     threads u = [In_app ''second'', In_app ''second''] \<and> call_root_entry ''first'' \<notin> set (calls u)"
  using first_entry_can_be_lost [of "demo_platform 1" "''first''" "''second''"] by auto

end
