(* ===== verification/Samples.thy ===== *)
theory Samples
  imports LoaderProps
begin

text \<open>
  The two example applications, \<open>VML_Sample1/main.c\<close> and \<open>VML_Sample2/main.c\<close>, as clients
  of the library: they open a log, load the modules of the system and of the runtime, and
  initialise the library with a root entry that runs the managed program. The functions that
  the two files share are written once, with the differing texts as a parameter.
\<close>

section \<open>Messages\<close>

fun digits :: "string \<Rightarrow> nat \<Rightarrow> nat \<Rightarrow> string" where
  "digits ds b n =
    (if b < 2 \<or> n < b then [ds ! n] else digits ds b (n div b) @ [ds ! (n mod b)])"

declare digits.simps [simp del]

definition pad :: "char \<Rightarrow> nat \<Rightarrow> string \<Rightarrow> string" where
  "pad c n t = replicate (n - length t) c @ t"

text \<open>The conversions \<open>%8x\<close>, \<open>%08X\<close> and \<open>%d\<close>.\<close>

definition fmt_8x :: "u32 \<Rightarrow> string" where
  "fmt_8x w = pad (CHR '' '') 8 (digits ''0123456789abcdef'' 16 (unat w))"

definition fmt_08X :: "u32 \<Rightarrow> string" where
  "fmt_08X w = pad (CHR ''0'') 8 (digits ''0123456789ABCDEF'' 16 (unat w))"

definition fmt_d :: "u32 \<Rightarrow> string" where
  "fmt_d w = (if sint w < 0 then ''-'' else []) @ digits ''0123456789'' 10 (nat \<bar>sint w\<bar>)"

definition LF :: string where
  "LF = [CHR 0x0A]"

section \<open>Shared functions\<close>

record sample_state = vml_state +
  mono_core_log :: u32
  mono_log :: u32

text \<open>
  What differs between the samples: the tag of their messages, the name of the program, and
  whether the file is compiled with \<open>USE_CUSTOM_LIBC\<close>.
\<close>

record sample =
  tag :: string
  prog :: string
  use_custom_libc :: bool

definition sample1 :: sample where
  "sample1 = \<lparr>tag = ''[VML_Sample1] '', prog = ''Sample1'', use_custom_libc = False\<rparr>"

definition sample2 :: sample where
  "sample2 = \<lparr>tag = ''[VML_Sample2] '', prog = ''Sample2'', use_custom_libc = False\<rparr>"

definition LIBFIOS2_PATH :: string where "LIBFIOS2_PATH = ''vs0:/sys/external/libfios2.suprx''"
definition LIBC_PATH :: string where "LIBC_PATH = ''vs0:/sys/external/libc.suprx''"
definition SUPRX_MANAGER_PATH :: string where "SUPRX_MANAGER_PATH = ''ur0:/data/VML/SUPRXManager.suprx''"
definition MONO_VITA_PATH :: string where "MONO_VITA_PATH = ''ur0:/data/VML/mono-vita.suprx''"
definition PTHREAD_PATH :: string where "PTHREAD_PATH = ''ur0:/data/VML/pthread.suprx''"

definition IS_LOADED :: "platform \<Rightarrow> u32 \<Rightarrow> bool" where
  "IS_LOADED P x \<longleftrightarrow> sint x > 0 \<or> x = SCE_KERNEL_ERROR_MODULEMGR_OLD_LIB P"

text \<open>A C truth value.\<close>

definition c_bool :: "bool \<Rightarrow> u32" where
  "c_bool b = (if b then 1 else 0)"

definition tryLoadCoreModule ::
  "sample \<Rightarrow> platform \<Rightarrow> string \<Rightarrow> sample_state \<Rightarrow> u32 \<times> sample_state" where
  "tryLoadCoreModule c P modul s0 =
    (let (ret, s1) = ext P (sceKernelLoadStartModule modul) s0 in
     if \<not> IS_LOADED P ret then
       (ret, run (sceClibDprintf (mono_core_log s1) (tag c @ ''sceKernelLoadStartModule() failed for '' @ modul @
               '' with code: '' @ fmt_8x ret @ LF)) s1)
     else
       (ret, run (sceClibDprintf (mono_core_log s1) (tag c @ ''sceKernelLoadStartModule() ran successfully for '' @
               modul @ ''!'' @ LF)) s1))"

unbundle bit_operations_syntax

definition loadCoreModules :: "sample \<Rightarrow> platform \<Rightarrow> sample_state \<Rightarrow> u32 \<times> sample_state" where
  "loadCoreModules c P s0 =
    (let cont = 1;
         (ret, s1) = ext P (sceSysmoduleLoadModule (SCE_SYSMODULE_NET P)) s0;
         s2 = (if sint ret < 0
               then run (sceClibDprintf (mono_core_log s1) (tag c @
                 ''sceSysmoduleLoadModule(SCE_SYSMODULE_NET) failed with code: '' @ fmt_8x ret @ LF)) s1
               else run (sceClibDprintf (mono_core_log s1) (tag c @
                 ''sceSysmoduleLoadModule(SCE_SYSMODULE_NET) ran successfully!'' @ LF)) s1);
         cont = cont AND c_bool (sint ret \<ge> 0)
     in if use_custom_libc c then
          (let (ret, s3) = tryLoadCoreModule c P LIBFIOS2_PATH s2;
               cont = cont AND c_bool (IS_LOADED P ret);
               (ret, s4) = tryLoadCoreModule c P LIBC_PATH s3;
               cont = cont AND c_bool (IS_LOADED P ret)
           in (cont, s4))
        else (cont, s2))"

definition tryLoadModule ::
  "sample \<Rightarrow> platform \<Rightarrow> string \<Rightarrow> sample_state \<Rightarrow> u32 \<times> sample_state" where
  "tryLoadModule c P modul s0 =
    (let (ret, s1) = ext P (sceKernelLoadStartModule modul) s0 in
     if \<not> IS_LOADED P ret then
       (ret, run (fprintf (mono_log s1) (tag c @ ''sceKernelLoadStartModule() failed for '' @ modul @
               '' with code: '' @ fmt_8x ret @ LF)) s1)
     else
       (ret, run (fprintf (mono_log s1) (tag c @ ''sceKernelLoadStartModule() ran successfully for '' @
               modul @ ''!'' @ LF)) s1))"

definition loadModules :: "sample \<Rightarrow> platform \<Rightarrow> sample_state \<Rightarrow> u32 \<times> sample_state" where
  "loadModules c P s0 =
    (let cont = 1;
         (ret, s1) = tryLoadModule c P SUPRX_MANAGER_PATH s0;
         cont = cont AND c_bool (IS_LOADED P ret);
         (ret, s2) = tryLoadModule c P PTHREAD_PATH s1;
         cont = cont AND c_bool (IS_LOADED P ret);
         (ret, s3) = tryLoadModule c P MONO_VITA_PATH s2;
         cont = cont AND c_bool (IS_LOADED P ret)
     in (cont, s3))"

section \<open>Sample 1\<close>

definition Sample1_rootEntry :: "platform \<Rightarrow> sample_state \<Rightarrow> sample_state option" where
  "Sample1_rootEntry P s =
     map_option (\<lambda>(ret, s'). run (fprintf (mono_log s') (''[VML_Sample1] Program::Main() returned '' @ fmt_d ret @ LF)) s')
       (VMLRunMain P (Some ''app0:/VML/Sample1.dll'') (aot_info P ''Sample1'') s)"

text \<open>The end of \<open>main\<close>, from the messages about the paths on; the two files agree up to the tag.\<close>

definition start_vml :: "sample \<Rightarrow> platform \<Rightarrow> u32 \<Rightarrow> u32 \<Rightarrow> sample_state \<Rightarrow> u32 \<times> sample_state" where
  "start_vml c P argc argv s0 =
    (let s1 = run (fprintf (mono_log s0) (tag c @ ''Setting mono paths'' @ LF)) s0;
         s2 = VMLSetPaths (Some ''app0:VML'') (Some ''app0:VML/mono/2.0/machine.config'') s1;
         s3 = run (fprintf (mono_log s2) (tag c @ ''Setting command line args'' @ LF)) s2;
         (_, s4) = VMLSetCommandLineArgs P argc argv s3;
         s5 = run (fprintf (mono_log s4) (tag c @ ''Initializing VML'' @ LF)) s4;
         optParam = \<lparr>opt_stackSize = SCE_KERNEL_1MiB P, opt_cpuAffinity = SCE_KERNEL_CPU_MASK_USER_0 P,
           opt_priority = SCE_KERNEL_INDIVIDUAL_QUEUE_HIGHEST_PRIORITY, opt_programName = Some (prog c),
           opt_monoVerboseDebug = 1\<rparr>;
         (ret, s6) = VMLInitialize P (Some ''rootEntry'') (Some optParam) s5;
         s7 = (if sint ret < 0
               then run (fprintf (mono_log s6) (tag c @ ''VMLInitialize(): 0x'' @ fmt_08X ret @ LF)) s6
               else s6)
     in (0, run (fclose (mono_log s7)) s7))"

definition Sample1_main :: "sample \<Rightarrow> platform \<Rightarrow> u32 \<Rightarrow> u32 \<Rightarrow> sample_state \<Rightarrow> u32 \<times> sample_state" where
  "Sample1_main c P argc argv s0 =
    (let (log, s1) = ext P (sceIoOpen ''ux0:data/mono_Sample1.log''
           ((SCE_O_WRONLY P OR SCE_O_CREAT P) OR SCE_O_TRUNC P) 511) s0;
         s2 = s1\<lparr>mono_core_log := log\<rparr>
     in if sint log < 0 then (1, s2) else
     let (ret, s3) = loadCoreModules c P s2
     in if ret = 0 then (0, s3) else
     let s4 = run (sceIoClose (mono_core_log s3)) s3;
         (file, s5) = ext P (fopen ''ux0:data/mono_Sample1.log'' ''a+'') s4;
         s6 = s5\<lparr>mono_log := file\<rparr>
     in if file = 0 then (1, s6) else
     let (ret, s7) = loadModules c P s6
     in if ret = 0 then (0, s7) else start_vml c P argc argv s7)"

section \<open>Sample 2\<close>

definition Sample2_rootEntry :: "platform \<Rightarrow> sample_state \<Rightarrow> sample_state option" where
  "Sample2_rootEntry P s =
     map_option (\<lambda>(ret, s'). run (fprintf (mono_log s') (''[VML_Sample2] Program::Main() returned '' @ fmt_d ret @ LF)) s')
       (VMLRunMain P (Some ''app0:/VML/Sample2.dll'') (aot_info P ''Sample2'') (VMLVita2DRegister P s))"

text \<open>Unlike the first sample, this one asks whether the result of \<open>loadModules\<close> is negative.\<close>

definition Sample2_main :: "sample \<Rightarrow> platform \<Rightarrow> u32 \<Rightarrow> u32 \<Rightarrow> sample_state \<Rightarrow> u32 \<times> sample_state" where
  "Sample2_main c P argc argv s0 =
    (let (log, s1) = ext P (sceIoOpen ''ux0:data/mono_Sample2.log''
           ((SCE_O_WRONLY P OR SCE_O_CREAT P) OR SCE_O_TRUNC P) 511) s0;
         s2 = s1\<lparr>mono_core_log := log\<rparr>
     in if sint log < 0 then (1, s2) else
     let (ret, s3) = loadCoreModules c P s2
     in if ret = 0 then (0, s3) else
     let s4 = run (sceIoClose (mono_core_log s3)) s3;
         (file, s5) = ext P (fopen ''ux0:data/mono_Sample2.log'' ''a+'') s4;
         s6 = s5\<lparr>mono_log := file\<rparr>
     in if file = 0 then (1, s6) else
     let (ret, s7) = loadModules c P s6
     in if sint ret < 0 then (0, s7) else start_vml c P argc argv s7)"

end
