(* ===== verification/SampleProps.thy ===== *)
theory SampleProps
  imports Samples
begin

text \<open>
  What the sample applications do with the results of the module loader, and what becomes of
  their logs.
\<close>

section \<open>Answers of the module loader\<close>

text \<open>Every load among the calls \<open>cs\<close>, made after the calls \<open>h\<close>, was answered with success.\<close>

fun loads_ok :: "platform \<Rightarrow> call list \<Rightarrow> call list \<Rightarrow> bool" where
  "loads_ok P h [] = True"
| "loads_ok P h (c # cs) =
    ((case c of sceKernelLoadStartModule m \<Rightarrow> IS_LOADED P (answer P h c)
      | sceSysmoduleLoadModule m \<Rightarrow> sint (answer P h c) \<ge> 0
      | _ \<Rightarrow> True) \<and> loads_ok P (h @ [c]) cs)"

lemma loads_ok_append [simp]:
  "loads_ok P h (xs @ ys) \<longleftrightarrow> loads_ok P h xs \<and> loads_ok P (h @ xs) ys"
  by (induction xs arbitrary: h) auto

fun is_create :: "call \<Rightarrow> bool" where
  "is_create (MonoCreateMainThread t) = True"
| "is_create _ = False"

fun is_fclose :: "call \<Rightarrow> bool" where
  "is_fclose (fclose f) = True"
| "is_fclose _ = False"

fun load_of :: "call \<Rightarrow> string list" where
  "load_of (sceKernelLoadStartModule m) = [m]"
| "load_of _ = []"

abbreviation loads :: "call list \<Rightarrow> string list" where
  "loads cs \<equiv> concat (List.map load_of cs)"

lemma c_bool_simps [simp]:
  "c_bool a = 0 \<longleftrightarrow> \<not> a" "c_bool a AND c_bool b = c_bool (a \<and> b)" "1 AND c_bool a = c_bool a"
  "sint (c_bool a) \<ge> 0" "\<not> sint (c_bool a) < 0"
  by (simp_all add: c_bool_def)

text \<open>A group of loads: the state only gains calls, no thread is created and no file closed.\<close>

definition loading :: "platform \<Rightarrow> string list \<Rightarrow> bool \<Rightarrow> sample_state \<Rightarrow> sample_state \<Rightarrow> bool" where
  "loading P ms ok s t \<longleftrightarrow> (\<exists>cs. t = s\<lparr>calls := calls s @ cs\<rparr> \<and> loads cs = ms \<and>
     (ok \<longleftrightarrow> loads_ok P (calls s) cs) \<and> filter is_create cs = [] \<and> filter is_fclose cs = [])"

lemma loadingI:
  "\<lbrakk>t = s\<lparr>calls := calls s @ cs\<rparr>; loads cs = ms; ok \<longleftrightarrow> loads_ok P (calls s) cs;
    filter is_create cs = []; filter is_fclose cs = []\<rbrakk> \<Longrightarrow> loading P ms ok s t"
  by (auto simp: loading_def)

lemma loading_trans:
  assumes "loading P ms ok s t" "loading P ms' ok' t u"
  shows "loading P (ms @ ms') (ok \<and> ok') s u"
proof -
  obtain cs where cs: "t = s\<lparr>calls := calls s @ cs\<rparr>" "loads cs = ms" "ok \<longleftrightarrow> loads_ok P (calls s) cs"
    "filter is_create cs = []" "filter is_fclose cs = []" using assms(1) by (auto simp: loading_def)
  obtain ds where ds: "u = t\<lparr>calls := calls t @ ds\<rparr>" "loads ds = ms'" "ok' \<longleftrightarrow> loads_ok P (calls t) ds"
    "filter is_create ds = []" "filter is_fclose ds = []" using assms(2) by (auto simp: loading_def)
  show ?thesis by (rule loadingI [of _ _ "cs @ ds"]) (use cs ds in simp_all)
qed

lemma tryLoadModule_loading:
  "tryLoadModule c P m s = (r, t) \<Longrightarrow> loading P [m] (IS_LOADED P r) s t"
  by (auto simp: tryLoadModule_def ext_def run_def split: if_splits intro!: loadingI)

lemma tryLoadCoreModule_loading:
  "tryLoadCoreModule c P m s = (r, t) \<Longrightarrow> loading P [m] (IS_LOADED P r) s t"
  by (auto simp: tryLoadCoreModule_def ext_def run_def split: if_splits intro!: loadingI)

lemma loadModules_loading:
  obtains ok t where "loadModules c P s = (c_bool ok, t)"
    "loading P [SUPRX_MANAGER_PATH, PTHREAD_PATH, MONO_VITA_PATH] ok s t"
proof -
  obtain r1 s1 where 1: "tryLoadModule c P SUPRX_MANAGER_PATH s = (r1, s1)" by fastforce
  obtain r2 s2 where 2: "tryLoadModule c P PTHREAD_PATH s1 = (r2, s2)" by fastforce
  obtain r3 s3 where 3: "tryLoadModule c P MONO_VITA_PATH s2 = (r3, s3)" by fastforce
  have run: "loadModules c P s = (c_bool ((IS_LOADED P r1 \<and> IS_LOADED P r2) \<and> IS_LOADED P r3), s3)"
    by (simp add: loadModules_def 1 2 3)
  have "loading P (([SUPRX_MANAGER_PATH] @ [PTHREAD_PATH]) @ [MONO_VITA_PATH])
      ((IS_LOADED P r1 \<and> IS_LOADED P r2) \<and> IS_LOADED P r3) s s3"
    by (intro loading_trans) (use 1 2 3 tryLoadModule_loading in blast)+
  then show thesis using that [OF run] by simp
qed

lemma loadCoreModules_loading:
  obtains ok t where "loadCoreModules c P s = (c_bool ok, t)"
    "loading P (if use_custom_libc c then [LIBFIOS2_PATH, LIBC_PATH] else []) ok s t"
proof -
  let ?c = "sceSysmoduleLoadModule (SCE_SYSMODULE_NET P)"
  obtain r s1 where 1: "ext P ?c s = (r, s1)" by fastforce
  define s2 where "s2 = (if sint r < 0
      then run (sceClibDprintf (mono_core_log s1) (tag c @
             ''sceSysmoduleLoadModule(SCE_SYSMODULE_NET) failed with code: '' @ fmt_8x r @ LF)) s1
      else run (sceClibDprintf (mono_core_log s1) (tag c @
             ''sceSysmoduleLoadModule(SCE_SYSMODULE_NET) ran successfully!'' @ LF)) s1)"
  have "r = answer P (calls s) ?c" "s1 = s\<lparr>calls := calls s @ [?c]\<rparr>"
    using 1 by (auto simp: ext_def)
  then have net: "loading P [] (sint r \<ge> 0) s s2"
    by (auto simp: s2_def run_def intro!: loadingI)
  obtain r3 s3 where 3: "tryLoadCoreModule c P LIBFIOS2_PATH s2 = (r3, s3)" by fastforce
  obtain r4 s4 where 4: "tryLoadCoreModule c P LIBC_PATH s3 = (r4, s4)" by fastforce
  show thesis
  proof (cases "use_custom_libc c")
    case True
    have "loadCoreModules c P s = (c_bool ((sint r \<ge> 0 \<and> IS_LOADED P r3) \<and> IS_LOADED P r4), s4)"
      by (simp only: loadCoreModules_def 1 Let_def prod.case s2_def [symmetric] 3 4 True if_True c_bool_simps)
    moreover have "loading P (([] @ [LIBFIOS2_PATH]) @ [LIBC_PATH])
        ((sint r \<ge> 0 \<and> IS_LOADED P r3) \<and> IS_LOADED P r4) s s4"
      by (intro loading_trans) (use net 3 4 tryLoadCoreModule_loading in blast)+
    ultimately show thesis using that True by simp
  next
    case False
    have "loadCoreModules c P s = (c_bool (sint r \<ge> 0), s2)"
      using False by (simp only: loadCoreModules_def 1 Let_def prod.case s2_def [symmetric] if_False c_bool_simps)
    with net False show thesis using that by simp
  qed
qed

lemma loadCoreModules_net:
  "\<not> use_custom_libc c \<Longrightarrow> fst (loadCoreModules c P s) =
     c_bool (sint (answer P (calls s) (sceSysmoduleLoadModule (SCE_SYSMODULE_NET P))) \<ge> 0)"
  by (simp add: loadCoreModules_def ext_def Let_def)

text \<open>The end of \<open>main\<close>: the library is initialised, and the log is closed last.\<close>

lemma start_vml_run:
  obtains cs t where "start_vml c P argc argv s = (0, t)" "calls t = calls s @ cs @ [fclose (mono_log s)]"
    "\<And>h. loads_ok P h cs" "loads cs = []" "length (filter is_create cs) = 1" "filter is_fclose cs = []"
proof -
  define opt where "opt = \<lparr>opt_stackSize = SCE_KERNEL_1MiB P, opt_cpuAffinity = SCE_KERNEL_CPU_MASK_USER_0 P,
    opt_priority = SCE_KERNEL_INDIVIDUAL_QUEUE_HIGHEST_PRIORITY, opt_programName = Some (prog c),
    opt_monoVerboseDebug = 1\<rparr>"
  obtain m1 m2 m3 where m: "tag c @ ''Setting mono paths'' @ LF = m1"
    "tag c @ ''Setting command line args'' @ LF = m2" "tag c @ ''Initializing VML'' @ LF = m3" by blast
  define s3 where "s3 = run (fprintf (mono_log s) m2) (VMLSetPaths (Some ''app0:VML'')
    (Some ''app0:VML/mono/2.0/machine.config'') (run (fprintf (mono_log s) m1) s))"
  define s5 where "s5 = run (fprintf (mono_log s) m3) (snd (VMLSetCommandLineArgs P argc argv s3))"
  obtain r s6 where 6: "VMLInitialize P (Some ''rootEntry'') (Some opt) s5 = (r, s6)" by fastforce
  let ?m = "tag c @ ''VMLInitialize(): 0x'' @ fmt_08X r @ LF"
  define s7 where "s7 = (if sint r < 0 then run (fprintf (mono_log s6) ?m) s6 else s6)"
  have logs: "mono_log s3 = mono_log s" "mono_log s5 = mono_log s" "mono_log s6 = mono_log s" "mono_log s7 = mono_log s"
    using 6 by (auto simp: s3_def s5_def s7_def VMLSetPaths_def run_def VMLSetCommandLineArgs_def ext_def
        VMLInitialize_def Let_def)
  have "start_vml c P argc argv s = (0, run (fclose (mono_log s7)) s7)"
    unfolding start_vml_def m opt_def [symmetric]
    using 6 logs by (simp add: Let_def s3_def s5_def s7_def VMLSetPaths_def run_def VMLSetCommandLineArgs_def
        ext_def)
  moreover obtain th where "calls s6 = calls s5 @ [MonoCreateMainThread th]"
    using 6 by (auto simp: VMLInitialize_def run_def Let_def opt_def)
  then have "calls s7 = calls s @ ([fprintf (mono_log s) m1, fprintf (mono_log s) m2,
      mono_runtime_set_main_args argv argc, fprintf (mono_log s) m3, MonoCreateMainThread th] @
      (if sint r < 0 then [fprintf (mono_log s) ?m] else []))"
    using logs(3) by (simp add: s7_def s5_def s3_def VMLSetPaths_def VMLSetCommandLineArgs_def ext_def run_def)
  moreover have "loads_ok P h ([fprintf (mono_log s) m1, fprintf (mono_log s) m2,
      mono_runtime_set_main_args argv argc, fprintf (mono_log s) m3, MonoCreateMainThread th] @
      (if sint r < 0 then [fprintf (mono_log s) ?m] else []))" for h
    by (simp del: append_assoc)
  ultimately show thesis using logs(4) that by (simp add: run_def)
qed

section \<open>Properties\<close>

text \<open>
  The first sample asks for the thread of the runtime only if every module it loads was
  answered with success, and then it has loaded the three modules of the runtime, in order, and
  closed its log file last.
\<close>
lemma Sample1_needs_modules:
  assumes "Sample1_main c P argc argv s = (r, t)" "count_calls is_create (since s t) > 0"
  shows "loads_ok P (calls s) (since s t) \<and> r = 0 \<and>
    (\<exists>pre. loads (since s t) = pre @ [SUPRX_MANAGER_PATH, PTHREAD_PATH, MONO_VITA_PATH]) \<and>
    is_fclose (last (since s t))"
proof -
  define op where "op = sceIoOpen ''ux0:data/mono_Sample1.log''
    ((SCE_O_WRONLY P OR SCE_O_CREAT P) OR SCE_O_TRUNC P) 511"
  define fo where "fo = fopen ''ux0:data/mono_Sample1.log'' ''a+''"
  let ?s2 = "(snd (ext P op s))\<lparr>mono_core_log := answer P (calls s) op\<rparr>"
  obtain ok s3 where 3: "loadCoreModules c P ?s2 = (c_bool ok, s3)"
    "loading P (if use_custom_libc c then [LIBFIOS2_PATH, LIBC_PATH] else []) ok ?s2 s3"
    by (rule loadCoreModules_loading)
  obtain cs where cs: "s3 = ?s2\<lparr>calls := calls ?s2 @ cs\<rparr>" "ok \<longleftrightarrow> loads_ok P (calls ?s2) cs"
    "filter is_create cs = []" using 3(2) by (auto simp: loading_def)
  let ?s4 = "run (sceIoClose (mono_core_log s3)) s3"
  let ?f = "answer P (calls ?s4) fo"
  let ?s6 = "(snd (ext P fo ?s4))\<lparr>mono_log := ?f\<rparr>"
  obtain ok' s7 where 7: "loadModules c P ?s6 = (c_bool ok', s7)"
    "loading P [SUPRX_MANAGER_PATH, PTHREAD_PATH, MONO_VITA_PATH] ok' ?s6 s7"
    by (rule loadModules_loading)
  obtain ds where ds: "s7 = ?s6\<lparr>calls := calls ?s6 @ ds\<rparr>" "ok' \<longleftrightarrow> loads_ok P (calls ?s6) ds"
    "loads ds = [SUPRX_MANAGER_PATH, PTHREAD_PATH, MONO_VITA_PATH]" "filter is_create ds = []"
    using 7(2) by (auto simp: loading_def)
  have main: "Sample1_main c P argc argv s =
     (if sint (answer P (calls s) op) < 0 then (1, ?s2) else if \<not> ok then (0, s3)
      else if ?f = 0 then (1, ?s6) else if \<not> ok' then (0, s7) else start_vml c P argc argv s7)"
    unfolding Sample1_main_def op_def [symmetric] fo_def [symmetric]
    using 3(1) 7(1) by (simp add: Let_def ext_def cong: if_cong)
  have early: "filter is_create (since s ?s2) = []" "filter is_create (since s s3) = []"
    "filter is_create (since s ?s6) = []" "filter is_create (since s s7) = []"
    using cs ds by (simp_all add: ext_def run_def op_def fo_def since_def)
  have "\<not> sint (answer P (calls s) op) < 0 \<and> ok \<and> ?f \<noteq> 0 \<and> ok'"
    using assms early unfolding main by (auto split: if_splits)
  then have oks: "ok" "ok'" and start: "start_vml c P argc argv s7 = (r, t)"
    using assms(1) unfolding main by simp_all
  obtain es u where es: "start_vml c P argc argv s7 = (0, u)" "calls u = calls s7 @ es @ [fclose (mono_log s7)]"
    "\<And>h. loads_ok P h es" "loads es = []" by (rule start_vml_run [of c P argc argv s7]) (rule that)
  have t: "since s t = [op] @ cs @ [sceIoClose (mono_core_log s3), fo] @ ds @ es @ [fclose (mono_log s7)]"
    using es(1,2) start cs(1) ds(1) by (simp add: ext_def run_def since_def)
  have "loads_ok P (calls s) (since s t)"
    unfolding t using oks cs ds es(3) by (simp add: ext_def run_def op_def fo_def)
  then show ?thesis
    using es(1) start unfolding t by (simp add: ds(3) es(4) op_def fo_def)
qed

definition sample_init :: sample_state where
  "sample_init = vml_state.extend vml_init \<lparr>mono_core_log = 0, mono_log = 0\<rparr>"

lemma Sample1_needs_modules_witness:
  "loads_ok (demo_platform 1) [] (since sample_init (snd (Sample1_main sample1 (demo_platform 1) 0 0 sample_init)))"
proof -
  let ?r = "Sample1_main sample1 (demo_platform 1) 0 0 sample_init"
  have [simp]: "IS_LOADED (demo_platform 1) 1" by (simp add: IS_LOADED_def)
  have "count_calls is_create (since sample_init (snd ?r)) > 0"
    by (simp add: Sample1_main_def loadCoreModules_def loadModules_def tryLoadModule_def start_vml_def
        ext_def run_def Let_def sample1_def VMLSetPaths_def VMLSetCommandLineArgs_def VMLInitialize_def
        sample_init_def vml_state.defs vml_init_def since_def)
  with Sample1_needs_modules [of sample1 "demo_platform 1" 0 0 sample_init "fst ?r" "snd ?r"]
  show ?thesis by (simp add: sample_init_def vml_state.defs vml_init_def)
qed

text \<open>
  The second sample ignores the result of its module loads: if its logs open and the system
  modules load, it asks for the thread of the runtime whatever the answers for the runtime's own
  modules were.
\<close>
lemma Sample2_ignores_modules:
  assumes "\<And>cs m. IS_LOADED P (answer P cs (sceKernelLoadStartModule m)) \<longleftrightarrow> loaded m"
    and "\<And>cs p f m. sint (answer P cs (sceIoOpen p f m)) \<ge> 0"
    and "\<And>cs m. sint (answer P cs (sceSysmoduleLoadModule m)) \<ge> 0"
    and "\<And>cs p m. answer P cs (fopen p m) \<noteq> 0" and "\<not> use_custom_libc c"
  shows "count_calls is_create (since s (snd (Sample2_main c P argc argv s))) = 1"
proof -
  define op where "op = sceIoOpen ''ux0:data/mono_Sample2.log''
    ((SCE_O_WRONLY P OR SCE_O_CREAT P) OR SCE_O_TRUNC P) 511"
  define fo where "fo = fopen ''ux0:data/mono_Sample2.log'' ''a+''"
  let ?s2 = "(snd (ext P op s))\<lparr>mono_core_log := answer P (calls s) op\<rparr>"
  obtain ok s3 where 3: "loadCoreModules c P ?s2 = (c_bool ok, s3)"
    "loading P (if use_custom_libc c then [LIBFIOS2_PATH, LIBC_PATH] else []) ok ?s2 s3"
    by (rule loadCoreModules_loading)
  obtain cs where cs: "s3 = ?s2\<lparr>calls := calls ?s2 @ cs\<rparr>" "filter is_create cs = []"
    using 3(2) by (auto simp: loading_def)
  have "fst (loadCoreModules c P ?s2) = c_bool True"
    using loadCoreModules_net [OF assms(5), of P ?s2] assms(3) by simp
  then have ok using 3(1) by (auto simp: c_bool_def split: if_splits)
  let ?s4 = "run (sceIoClose (mono_core_log s3)) s3"
  let ?s6 = "(snd (ext P fo ?s4))\<lparr>mono_log := answer P (calls ?s4) fo\<rparr>"
  obtain ok' s7 where 7: "loadModules c P ?s6 = (c_bool ok', s7)"
    "loading P [SUPRX_MANAGER_PATH, PTHREAD_PATH, MONO_VITA_PATH] ok' ?s6 s7"
    by (rule loadModules_loading)
  obtain ds where ds: "s7 = ?s6\<lparr>calls := calls ?s6 @ ds\<rparr>" "filter is_create ds = []"
    using 7(2) by (auto simp: loading_def)
  obtain es u where es: "start_vml c P argc argv s7 = (0, u)" "calls u = calls s7 @ es @ [fclose (mono_log s7)]"
    "length (filter is_create es) = 1" by (rule start_vml_run [of c P argc argv s7]) (rule that)
  have "Sample2_main c P argc argv s = (0, u)"
    unfolding Sample2_main_def op_def [symmetric] fo_def [symmetric]
    using 3(1) 7(1) es(1) \<open>ok\<close> assms(2,4) by (simp add: Let_def ext_def op_def fo_def not_less)
  moreover have "since s u = [op] @ cs @ [sceIoClose (mono_core_log s3), fo] @ ds @ es @ [fclose (mono_log s7)]"
    using es(2) cs(1) ds(1) by (simp add: ext_def run_def since_def)
  ultimately show ?thesis using cs(2) ds(2) es(3) by (simp add: op_def fo_def)
qed

definition no_modules :: platform where
  "no_modules = (demo_platform 1)\<lparr>answer := (\<lambda>cs c. if load_of c = [] then 1 else 0x80020000)\<rparr>"

lemma Sample2_ignores_modules_witness:
  "count_calls is_create (since sample_init (snd (Sample2_main sample2 no_modules 0 0 sample_init))) = 1"
  by (rule Sample2_ignores_modules [where loaded = "\<lambda>m. False"])
    (simp_all add: no_modules_def sample2_def demo_platform_def IS_LOADED_def)

end
