(* ===== verification/Bitfield.thy ===== *)
theory Bitfield
  imports Prelude
begin

text \<open>
  Bit-field structs of one 32-bit word, fields listed from the least significant bit on, as the
  ABI of the target lays them out: packing the field values into the word, taking the word
  apart, and the interface that every struct of the instruction formats satisfies.
\<close>

unbundle bit_operations_syntax

section \<open>Packing and unpacking\<close>

fun pack :: "nat list \<Rightarrow> u32 list \<Rightarrow> u32" where
  "pack (w # ws) (v # vs) = take_bit w v OR push_bit w (pack ws vs)"
| "pack _ _ = 0"

fun unpack :: "nat list \<Rightarrow> u32 \<Rightarrow> u32 list" where
  "unpack [] x = []"
| "unpack (w # ws) x = take_bit w x # unpack ws (drop_bit w x)"

text \<open>A value that fits in a field of width \<open>w\<close>.\<close>

definition fits :: "nat \<Rightarrow> u32 \<Rightarrow> bool" where
  "fits w x \<longleftrightarrow> take_bit w x = x"

lemma fitsD: "fits w x \<Longrightarrow> take_bit w x = x"
  by (simp add: fits_def)

lemma fits_bit: "fits w x \<Longrightarrow> bit x n \<Longrightarrow> n < w"
  unfolding fits_def by (metis bit_take_bit_iff)

lemma fits_take_bit [simp]: "fits w (take_bit w x)"
  by (simp add: fits_def)

lemma length_unpack [simp]: "length (unpack ws x) = length ws"
  by (induction ws arbitrary: x) auto

lemma unpack_fits: "list_all2 fits ws (unpack ws x)"
  by (induction ws arbitrary: x) auto

lemma take_bit_split:
  "take_bit w x OR push_bit w (take_bit n (drop_bit w x)) = take_bit (w + n) (x :: u32)"
  by (rule bit_eqI) (auto simp: bit_simps)

lemma pack_unpack: "pack ws (unpack ws x) = take_bit (sum_list ws) x"
  by (induction ws arbitrary: x) (simp_all add: take_bit_split)

lemma pack_fits: "fits (sum_list ws) (pack ws vs)"
proof (induction ws vs rule: pack.induct)
  case (1 w ws v vs)
  have hi: "n < w + sum_list ws" if "bit (pack ws vs) (n - w)" for n
    using fits_bit [OF 1 that] by linarith
  then have "take_bit (w + sum_list ws) (take_bit w v OR push_bit w (pack ws vs))
      = take_bit w v OR push_bit w (pack ws vs)"
    by (intro bit_eqI) (auto simp: bit_simps dest: hi)
  then show ?case by (simp add: fits_def)
qed (simp_all add: fits_def)

lemma low_field: "fits w v \<Longrightarrow> take_bit w (v OR push_bit w r) = (v :: u32)"
  by (intro bit_eqI) (auto simp: bit_simps dest: fits_bit)

lemma high_fields:
  assumes "fits w v" "fits n r" "w + n \<le> 32"
  shows "drop_bit w (v OR push_bit w r) = (r :: u32)"
proof (rule bit_eqI)
  fix k
  assume "possible_bit TYPE(u32) k"
  show "bit (drop_bit w (v OR push_bit w r)) k \<longleftrightarrow> bit r k"
    using assms fits_bit [OF assms(1), of "w + k"] fits_bit [OF assms(2), of k]
    by (auto simp: bit_simps)
qed

lemma unpack_pack:
  "\<lbrakk>list_all2 fits ws vs; sum_list ws \<le> 32\<rbrakk> \<Longrightarrow> unpack ws (pack ws vs) = vs"
proof (induction ws vs rule: list_all2_induct)
  case (Cons w ws v vs)
  have "take_bit w v = v" using Cons(1) by (rule fitsD)
  moreover have "drop_bit w (v OR push_bit w (pack ws vs)) = pack ws vs"
    using high_fields [OF Cons(1) pack_fits] Cons.prems by simp
  ultimately show ?case
    using Cons low_field [OF Cons(1)] by simp
qed simp

section \<open>Struct layouts\<close>

text \<open>
  A struct with bit fields of widths \<open>ws\<close>: its field values in order, and the struct with
  given field values.
\<close>

locale layout =
  fixes ws :: "nat list"
    and field_list :: "'s \<Rightarrow> u32 list"
    and make :: "u32 list \<Rightarrow> 's"
  assumes total: "sum_list ws = 32"
    and len: "length (field_list s) = length ws"
    and make_fields: "make (field_list s) = s"
    and fields_make: "length vs = length ws \<Longrightarrow> field_list (make vs) = vs"
begin

lemma decode_encode:
  assumes "list_all2 fits ws (field_list s)"
  shows "make (unpack ws (pack ws (field_list s))) = s"
  using unpack_pack [OF assms] total make_fields by simp

lemma encode_decode: "pack ws (field_list (make (unpack ws x))) = x"
proof -
  have "take_bit 32 x = x"
    using take_bit_length_eq [of x] by simp
  then show ?thesis by (simp add: fields_make pack_unpack total)
qed

lemma decode_fits: "list_all2 fits ws (field_list (make (unpack ws x)))"
  by (simp add: fields_make unpack_fits)

lemma encode_inj:
  "\<lbrakk>list_all2 fits ws (field_list s); list_all2 fits ws (field_list t);
    pack ws (field_list s) = pack ws (field_list t)\<rbrakk> \<Longrightarrow> s = t"
  using decode_encode by metis

end

section \<open>Masks\<close>

lemma and_masks [enc_simps]:
  "x AND 1 = take_bit 1 (x :: u32)"
  "x AND 3 = take_bit 2 (x :: u32)"
  "x AND 7 = take_bit 3 (x :: u32)"
  "x AND 0xF = take_bit 4 (x :: u32)"
  "x AND 0x1F = take_bit 5 (x :: u32)"
  "x AND 0xFF = take_bit 8 (x :: u32)"
  "x AND 0xFFF = take_bit 12 (x :: u32)"
  by (simp_all add: take_bit_eq_mask mask_eq_exp_minus_1)

lemma push_bit_or_u32 [enc_simps]: "push_bit n (x OR y) = push_bit n x OR push_bit n (y :: u32)"
  by (rule bit_eqI) (auto simp: bit_simps)

end
