(* ===== verification/ArmInstr.thy ===== *)
theory ArmInstr
  imports Bitfield
begin

text \<open>
  The enumerations and the instruction formats of \<open>mono/arch/arm/arm-codegen.h\<close>. An
  enumeration is a datatype with its constants and the function that gives their values; a
  format is a record of its bit fields, with the order and widths of the fields as the struct
  lists them (of the formats that are unions, the member \<open>all\<close>). \<open>S_raw\<close> is the word that
  a struct \<open>S\<close> occupies, \<open>S_of\<close> the struct read out of a word.
\<close>

section \<open>Enumerations\<close>

datatype (plugins only: ) ARMReg =
  ARMREG_R0 | ARMREG_R1 | ARMREG_R2 | ARMREG_R3 | ARMREG_R4 | ARMREG_R5 | ARMREG_R6 |
  ARMREG_R7 | ARMREG_R8 | ARMREG_R9 | ARMREG_R10 | ARMREG_R11 | ARMREG_R12 | ARMREG_R13 |
  ARMREG_R14 | ARMREG_R15 | ARMREG_A1 | ARMREG_A2 | ARMREG_A3 | ARMREG_A4 | ARMREG_V1 |
  ARMREG_V2 | ARMREG_V3 | ARMREG_V4 | ARMREG_V5 | ARMREG_V6 | ARMREG_V7 | ARMREG_FP |
  ARMREG_IP | ARMREG_SP | ARMREG_LR | ARMREG_PC | ARMREG_CR0 | ARMREG_CR1 | ARMREG_CR2 |
  ARMREG_CR3 | ARMREG_CR4 | ARMREG_CR5 | ARMREG_CR6 | ARMREG_CR7 | ARMREG_CR8 | ARMREG_CR9 |
  ARMREG_CR10 | ARMREG_CR11 | ARMREG_CR12 | ARMREG_CR13 | ARMREG_CR14 | ARMREG_CR15 |
  ARMREG_ACC0 | ARMREG_MAX

primrec ARMReg_val :: "ARMReg \<Rightarrow> u32" where
  "ARMReg_val ARMREG_R0 = 0"
| "ARMReg_val ARMREG_R1 = 1"
| "ARMReg_val ARMREG_R2 = 2"
| "ARMReg_val ARMREG_R3 = 3"
| "ARMReg_val ARMREG_R4 = 4"
| "ARMReg_val ARMREG_R5 = 5"
| "ARMReg_val ARMREG_R6 = 6"
| "ARMReg_val ARMREG_R7 = 7"
| "ARMReg_val ARMREG_R8 = 8"
| "ARMReg_val ARMREG_R9 = 9"
| "ARMReg_val ARMREG_R10 = 10"
| "ARMReg_val ARMREG_R11 = 11"
| "ARMReg_val ARMREG_R12 = 12"
| "ARMReg_val ARMREG_R13 = 13"
| "ARMReg_val ARMREG_R14 = 14"
| "ARMReg_val ARMREG_R15 = 15"
| "ARMReg_val ARMREG_A1 = 0"
| "ARMReg_val ARMREG_A2 = 1"
| "ARMReg_val ARMREG_A3 = 2"
| "ARMReg_val ARMREG_A4 = 3"
| "ARMReg_val ARMREG_V1 = 4"
| "ARMReg_val ARMREG_V2 = 5"
| "ARMReg_val ARMREG_V3 = 6"
| "ARMReg_val ARMREG_V4 = 7"
| "ARMReg_val ARMREG_V5 = 8"
| "ARMReg_val ARMREG_V6 = 9"
| "ARMReg_val ARMREG_V7 = 10"
| "ARMReg_val ARMREG_FP = 11"
| "ARMReg_val ARMREG_IP = 12"
| "ARMReg_val ARMREG_SP = 13"
| "ARMReg_val ARMREG_LR = 14"
| "ARMReg_val ARMREG_PC = 15"
| "ARMReg_val ARMREG_CR0 = 0"
| "ARMReg_val ARMREG_CR1 = 1"
| "ARMReg_val ARMREG_CR2 = 2"
| "ARMReg_val ARMREG_CR3 = 3"
| "ARMReg_val ARMREG_CR4 = 4"
| "ARMReg_val ARMREG_CR5 = 5"
| "ARMReg_val ARMREG_CR6 = 6"
| "ARMReg_val ARMREG_CR7 = 7"
| "ARMReg_val ARMREG_CR8 = 8"
| "ARMReg_val ARMREG_CR9 = 9"
| "ARMReg_val ARMREG_CR10 = 10"
| "ARMReg_val ARMREG_CR11 = 11"
| "ARMReg_val ARMREG_CR12 = 12"
| "ARMReg_val ARMREG_CR13 = 13"
| "ARMReg_val ARMREG_CR14 = 14"
| "ARMReg_val ARMREG_CR15 = 15"
| "ARMReg_val ARMREG_ACC0 = 0"
| "ARMReg_val ARMREG_MAX = 15"

datatype (plugins only: ) ARMCond =
  ARMCOND_EQ | ARMCOND_NE | ARMCOND_CS | ARMCOND_HS | ARMCOND_CC | ARMCOND_LO | ARMCOND_MI |
  ARMCOND_PL | ARMCOND_VS | ARMCOND_VC | ARMCOND_HI | ARMCOND_LS | ARMCOND_GE | ARMCOND_LT |
  ARMCOND_GT | ARMCOND_LE | ARMCOND_AL | ARMCOND_NV | ARMCOND_SHIFT

primrec ARMCond_val :: "ARMCond \<Rightarrow> u32" where
  "ARMCond_val ARMCOND_EQ = 0"
| "ARMCond_val ARMCOND_NE = 1"
| "ARMCond_val ARMCOND_CS = 2"
| "ARMCond_val ARMCOND_HS = 2"
| "ARMCond_val ARMCOND_CC = 3"
| "ARMCond_val ARMCOND_LO = 3"
| "ARMCond_val ARMCOND_MI = 4"
| "ARMCond_val ARMCOND_PL = 5"
| "ARMCond_val ARMCOND_VS = 6"
| "ARMCond_val ARMCOND_VC = 7"
| "ARMCond_val ARMCOND_HI = 8"
| "ARMCond_val ARMCOND_LS = 9"
| "ARMCond_val ARMCOND_GE = 10"
| "ARMCond_val ARMCOND_LT = 11"
| "ARMCond_val ARMCOND_GT = 12"
| "ARMCond_val ARMCOND_LE = 13"
| "ARMCond_val ARMCOND_AL = 14"
| "ARMCond_val ARMCOND_NV = 15"
| "ARMCond_val ARMCOND_SHIFT = 28"

datatype (plugins only: ) ARMShiftType =
  ARMSHIFT_LSL | ARMSHIFT_LSR | ARMSHIFT_ASR | ARMSHIFT_ROR | ARMSHIFT_ASL

primrec ARMShiftType_val :: "ARMShiftType \<Rightarrow> u32" where
  "ARMShiftType_val ARMSHIFT_LSL = 0"
| "ARMShiftType_val ARMSHIFT_LSR = 1"
| "ARMShiftType_val ARMSHIFT_ASR = 2"
| "ARMShiftType_val ARMSHIFT_ROR = 3"
| "ARMShiftType_val ARMSHIFT_ASL = 0"

datatype (plugins only: ) ARMOpcode =
  ARMOP_AND | ARMOP_EOR | ARMOP_SUB | ARMOP_RSB | ARMOP_ADD | ARMOP_ADC | ARMOP_SBC |
  ARMOP_RSC | ARMOP_TST | ARMOP_TEQ | ARMOP_CMP | ARMOP_CMN | ARMOP_ORR | ARMOP_MOV |
  ARMOP_BIC | ARMOP_MVN | ARMOP_STR | ARMOP_LDR | ARMOP_MUL | ARMOP_MLA | ARMOP_UMULL |
  ARMOP_UMLAL | ARMOP_SMULL | ARMOP_SMLAL | ARM_UP | ARM_DOWN

primrec ARMOpcode_val :: "ARMOpcode \<Rightarrow> u32" where
  "ARMOpcode_val ARMOP_AND = 0"
| "ARMOpcode_val ARMOP_EOR = 1"
| "ARMOpcode_val ARMOP_SUB = 2"
| "ARMOpcode_val ARMOP_RSB = 3"
| "ARMOpcode_val ARMOP_ADD = 4"
| "ARMOpcode_val ARMOP_ADC = 5"
| "ARMOpcode_val ARMOP_SBC = 6"
| "ARMOpcode_val ARMOP_RSC = 7"
| "ARMOpcode_val ARMOP_TST = 8"
| "ARMOpcode_val ARMOP_TEQ = 9"
| "ARMOpcode_val ARMOP_CMP = 10"
| "ARMOpcode_val ARMOP_CMN = 11"
| "ARMOpcode_val ARMOP_ORR = 12"
| "ARMOpcode_val ARMOP_MOV = 13"
| "ARMOpcode_val ARMOP_BIC = 14"
| "ARMOpcode_val ARMOP_MVN = 15"
| "ARMOpcode_val ARMOP_STR = 0"
| "ARMOpcode_val ARMOP_LDR = 1"
| "ARMOpcode_val ARMOP_MUL = 0"
| "ARMOpcode_val ARMOP_MLA = 1"
| "ARMOpcode_val ARMOP_UMULL = 4"
| "ARMOpcode_val ARMOP_UMLAL = 5"
| "ARMOpcode_val ARMOP_SMULL = 6"
| "ARMOpcode_val ARMOP_SMLAL = 7"
| "ARMOpcode_val ARM_UP = 1"
| "ARMOpcode_val ARM_DOWN = 0"

datatype (plugins only: ) ThumbOpcode =
  THUMBOP_AND | THUMBOP_EOR | THUMBOP_LSL | THUMBOP_LSR | THUMBOP_ASR | THUMBOP_ADC |
  THUMBOP_SBC | THUMBOP_ROR | THUMBOP_TST | THUMBOP_NEG | THUMBOP_CMP | THUMBOP_CMN |
  THUMBOP_ORR | THUMBOP_MUL | THUMBOP_BIC | THUMBOP_MVN | THUMBOP_MOV | THUMBOP_CMPI |
  THUMBOP_ADD | THUMBOP_SUB | THUMBOP_CMPH | THUMBOP_MOVH

primrec ThumbOpcode_val :: "ThumbOpcode \<Rightarrow> u32" where
  "ThumbOpcode_val THUMBOP_AND = 0"
| "ThumbOpcode_val THUMBOP_EOR = 1"
| "ThumbOpcode_val THUMBOP_LSL = 2"
| "ThumbOpcode_val THUMBOP_LSR = 3"
| "ThumbOpcode_val THUMBOP_ASR = 4"
| "ThumbOpcode_val THUMBOP_ADC = 5"
| "ThumbOpcode_val THUMBOP_SBC = 6"
| "ThumbOpcode_val THUMBOP_ROR = 7"
| "ThumbOpcode_val THUMBOP_TST = 8"
| "ThumbOpcode_val THUMBOP_NEG = 9"
| "ThumbOpcode_val THUMBOP_CMP = 10"
| "ThumbOpcode_val THUMBOP_CMN = 11"
| "ThumbOpcode_val THUMBOP_ORR = 12"
| "ThumbOpcode_val THUMBOP_MUL = 13"
| "ThumbOpcode_val THUMBOP_BIC = 14"
| "ThumbOpcode_val THUMBOP_MVN = 15"
| "ThumbOpcode_val THUMBOP_MOV = 16"
| "ThumbOpcode_val THUMBOP_CMPI = 17"
| "ThumbOpcode_val THUMBOP_ADD = 18"
| "ThumbOpcode_val THUMBOP_SUB = 19"
| "ThumbOpcode_val THUMBOP_CMPH = 19"
| "ThumbOpcode_val THUMBOP_MOVH = 20"

datatype (plugins only: ) ArmDmbFlags =
  ARM_DMB_ISH | ARM_DMB_SY

primrec ArmDmbFlags_val :: "ArmDmbFlags \<Rightarrow> u32" where
  "ArmDmbFlags_val ARM_DMB_ISH = 11"
| "ArmDmbFlags_val ARM_DMB_SY = 15"

section \<open>Instruction formats\<close>

record ARMPSR =
  psr_PSR_c :: u32
  psr_PSR_x :: u32
  psr_PSR_s :: u32
  psr_PSR_f :: u32

definition ARMPSR_fields :: "ARMPSR \<Rightarrow> u32 list" where
  "ARMPSR_fields s = [psr_PSR_c s, psr_PSR_x s, psr_PSR_s s, psr_PSR_f s]"

definition ARMPSR_make :: "u32 list \<Rightarrow> ARMPSR" where
  "ARMPSR_make vs = \<lparr>psr_PSR_c = vs ! 0, psr_PSR_x = vs ! 1, psr_PSR_s = vs ! 2, psr_PSR_f = vs !
    3\<rparr>"

definition ARMPSR_raw :: "ARMPSR \<Rightarrow> u32" where
  "ARMPSR_raw s = pack [8, 8, 8, 8] (ARMPSR_fields s)"

definition ARMPSR_of :: "u32 \<Rightarrow> ARMPSR" where
  "ARMPSR_of x = ARMPSR_make (unpack [8, 8, 8, 8] x)"

interpretation psr: layout "[8, 8, 8, 8]" ARMPSR_fields ARMPSR_make
  by unfold_locales (auto simp:
      ARMPSR_fields_def ARMPSR_make_def length_Suc_conv numeral_eq_Suc)

record ARMInstrGeneric =
  gen_icode :: u32
  gen_cond :: u32

definition ARMInstrGeneric_fields :: "ARMInstrGeneric \<Rightarrow> u32 list" where
  "ARMInstrGeneric_fields s = [gen_icode s, gen_cond s]"

definition ARMInstrGeneric_make :: "u32 list \<Rightarrow> ARMInstrGeneric" where
  "ARMInstrGeneric_make vs = \<lparr>gen_icode = vs ! 0, gen_cond = vs ! 1\<rparr>"

definition ARMInstrGeneric_raw :: "ARMInstrGeneric \<Rightarrow> u32" where
  "ARMInstrGeneric_raw s = pack [28, 4] (ARMInstrGeneric_fields s)"

definition ARMInstrGeneric_of :: "u32 \<Rightarrow> ARMInstrGeneric" where
  "ARMInstrGeneric_of x = ARMInstrGeneric_make (unpack [28, 4] x)"

interpretation gen: layout "[28, 4]" ARMInstrGeneric_fields ARMInstrGeneric_make
  by unfold_locales (auto simp:
      ARMInstrGeneric_fields_def ARMInstrGeneric_make_def length_Suc_conv numeral_eq_Suc)

record ARMInstrBR =
  br_offset :: u32
  br_link :: u32
  br_tag :: u32
  br_cond :: u32

definition ARMInstrBR_fields :: "ARMInstrBR \<Rightarrow> u32 list" where
  "ARMInstrBR_fields s = [br_offset s, br_link s, br_tag s, br_cond s]"

definition ARMInstrBR_make :: "u32 list \<Rightarrow> ARMInstrBR" where
  "ARMInstrBR_make vs = \<lparr>br_offset = vs ! 0, br_link = vs ! 1, br_tag = vs ! 2, br_cond = vs ! 3\<rparr>"

definition ARMInstrBR_raw :: "ARMInstrBR \<Rightarrow> u32" where
  "ARMInstrBR_raw s = pack [24, 1, 3, 4] (ARMInstrBR_fields s)"

definition ARMInstrBR_of :: "u32 \<Rightarrow> ARMInstrBR" where
  "ARMInstrBR_of x = ARMInstrBR_make (unpack [24, 1, 3, 4] x)"

interpretation br: layout "[24, 1, 3, 4]" ARMInstrBR_fields ARMInstrBR_make
  by unfold_locales (auto simp:
      ARMInstrBR_fields_def ARMInstrBR_make_def length_Suc_conv numeral_eq_Suc)

record ARMInstrDPI =
  dpi_op2 :: u32
  dpi_rd :: u32
  dpi_rn :: u32
  dpi_s :: u32
  dpi_opcode :: u32
  dpi_type :: u32
  dpi_tag :: u32
  dpi_cond :: u32

definition ARMInstrDPI_fields :: "ARMInstrDPI \<Rightarrow> u32 list" where
  "ARMInstrDPI_fields s = [dpi_op2 s, dpi_rd s, dpi_rn s, dpi_s s, dpi_opcode s, dpi_type s, dpi_tag s, dpi_cond s]"

definition ARMInstrDPI_make :: "u32 list \<Rightarrow> ARMInstrDPI" where
  "ARMInstrDPI_make vs = \<lparr>dpi_op2 = vs ! 0, dpi_rd = vs ! 1, dpi_rn = vs ! 2, dpi_s = vs ! 3, dpi_opcode = vs
    ! 4, dpi_type = vs ! 5, dpi_tag = vs ! 6, dpi_cond = vs ! 7\<rparr>"

definition ARMInstrDPI_raw :: "ARMInstrDPI \<Rightarrow> u32" where
  "ARMInstrDPI_raw s = pack [12, 4, 4, 1, 4, 1, 2, 4] (ARMInstrDPI_fields s)"

definition ARMInstrDPI_of :: "u32 \<Rightarrow> ARMInstrDPI" where
  "ARMInstrDPI_of x = ARMInstrDPI_make (unpack [12, 4, 4, 1, 4, 1, 2, 4] x)"

interpretation dpi: layout "[12, 4, 4, 1, 4, 1, 2, 4]" ARMInstrDPI_fields ARMInstrDPI_make
  by unfold_locales (auto simp:
      ARMInstrDPI_fields_def ARMInstrDPI_make_def length_Suc_conv numeral_eq_Suc)

record ARMInstrMRT =
  mrt_reg_list :: u32
  mrt_rn :: u32
  mrt_ls :: u32
  mrt_wb :: u32
  mrt_s :: u32
  mrt_u :: u32
  mrt_p :: u32
  mrt_tag :: u32
  mrt_cond :: u32

definition ARMInstrMRT_fields :: "ARMInstrMRT \<Rightarrow> u32 list" where
  "ARMInstrMRT_fields s = [mrt_reg_list s, mrt_rn s, mrt_ls s, mrt_wb s, mrt_s s, mrt_u s, mrt_p s, mrt_tag s, mrt_cond s]"

definition ARMInstrMRT_make :: "u32 list \<Rightarrow> ARMInstrMRT" where
  "ARMInstrMRT_make vs = \<lparr>mrt_reg_list = vs ! 0, mrt_rn = vs ! 1, mrt_ls = vs ! 2, mrt_wb = vs ! 3, mrt_s = vs
    ! 4, mrt_u = vs ! 5, mrt_p = vs ! 6, mrt_tag = vs ! 7, mrt_cond = vs ! 8\<rparr>"

definition ARMInstrMRT_raw :: "ARMInstrMRT \<Rightarrow> u32" where
  "ARMInstrMRT_raw s = pack [16, 4, 1, 1, 1, 1, 1, 3, 4] (ARMInstrMRT_fields s)"

definition ARMInstrMRT_of :: "u32 \<Rightarrow> ARMInstrMRT" where
  "ARMInstrMRT_of x = ARMInstrMRT_make (unpack [16, 4, 1, 1, 1, 1, 1, 3, 4] x)"

interpretation mrt: layout "[16, 4, 1, 1, 1, 1, 1, 3, 4]" ARMInstrMRT_fields ARMInstrMRT_make
  by unfold_locales (auto simp:
      ARMInstrMRT_fields_def ARMInstrMRT_make_def length_Suc_conv numeral_eq_Suc)

record ARMInstrMul =
  mul_rm :: u32
  mul_tag2 :: u32
  mul_rs :: u32
  mul_rn :: u32
  mul_rd :: u32
  mul_s :: u32
  mul_opcode :: u32
  mul_tag :: u32
  mul_cond :: u32

definition ARMInstrMul_fields :: "ARMInstrMul \<Rightarrow> u32 list" where
  "ARMInstrMul_fields s = [mul_rm s, mul_tag2 s, mul_rs s, mul_rn s, mul_rd s, mul_s s, mul_opcode s, mul_tag s, mul_cond s]"

definition ARMInstrMul_make :: "u32 list \<Rightarrow> ARMInstrMul" where
  "ARMInstrMul_make vs = \<lparr>mul_rm = vs ! 0, mul_tag2 = vs ! 1, mul_rs = vs ! 2, mul_rn = vs ! 3, mul_rd = vs !
    4, mul_s = vs ! 5, mul_opcode = vs ! 6, mul_tag = vs ! 7, mul_cond = vs ! 8\<rparr>"

definition ARMInstrMul_raw :: "ARMInstrMul \<Rightarrow> u32" where
  "ARMInstrMul_raw s = pack [4, 4, 4, 4, 4, 1, 3, 4, 4] (ARMInstrMul_fields s)"

definition ARMInstrMul_of :: "u32 \<Rightarrow> ARMInstrMul" where
  "ARMInstrMul_of x = ARMInstrMul_make (unpack [4, 4, 4, 4, 4, 1, 3, 4, 4] x)"

interpretation mul: layout "[4, 4, 4, 4, 4, 1, 3, 4, 4]" ARMInstrMul_fields ARMInstrMul_make
  by unfold_locales (auto simp:
      ARMInstrMul_fields_def ARMInstrMul_make_def length_Suc_conv numeral_eq_Suc)

record ARMInstrWXfer =
  wx_op2_imm :: u32
  wx_rd :: u32
  wx_rn :: u32
  wx_ls :: u32
  wx_wb :: u32
  wx_b :: u32
  wx_u :: u32
  wx_p :: u32
  wx_type :: u32
  wx_tag :: u32
  wx_cond :: u32

definition ARMInstrWXfer_fields :: "ARMInstrWXfer \<Rightarrow> u32 list" where
  "ARMInstrWXfer_fields s = [wx_op2_imm s, wx_rd s, wx_rn s, wx_ls s, wx_wb s, wx_b s, wx_u s, wx_p s, wx_type s, wx_tag s, wx_cond s]"

definition ARMInstrWXfer_make :: "u32 list \<Rightarrow> ARMInstrWXfer" where
  "ARMInstrWXfer_make vs = \<lparr>wx_op2_imm = vs ! 0, wx_rd = vs ! 1, wx_rn = vs ! 2, wx_ls = vs ! 3, wx_wb = vs ! 4,
    wx_b = vs ! 5, wx_u = vs ! 6, wx_p = vs ! 7, wx_type = vs ! 8, wx_tag = vs ! 9, wx_cond = vs
    ! 10\<rparr>"

definition ARMInstrWXfer_raw :: "ARMInstrWXfer \<Rightarrow> u32" where
  "ARMInstrWXfer_raw s = pack [12, 4, 4, 1, 1, 1, 1, 1, 1, 2, 4] (ARMInstrWXfer_fields s)"

definition ARMInstrWXfer_of :: "u32 \<Rightarrow> ARMInstrWXfer" where
  "ARMInstrWXfer_of x = ARMInstrWXfer_make (unpack [12, 4, 4, 1, 1, 1, 1, 1, 1, 2, 4] x)"

interpretation wx: layout "[12, 4, 4, 1, 1, 1, 1, 1, 1, 2, 4]" ARMInstrWXfer_fields ARMInstrWXfer_make
  by unfold_locales (auto simp:
      ARMInstrWXfer_fields_def ARMInstrWXfer_make_def length_Suc_conv numeral_eq_Suc)

record ARMInstrHXfer =
  hx_rm :: u32
  hx_tag3 :: u32
  hx_h :: u32
  hx_s :: u32
  hx_tag2 :: u32
  hx_imm_hi :: u32
  hx_rd :: u32
  hx_rn :: u32
  hx_ls :: u32
  hx_wb :: u32
  hx_type :: u32
  hx_u :: u32
  hx_p :: u32
  hx_tag :: u32
  hx_cond :: u32

definition ARMInstrHXfer_fields :: "ARMInstrHXfer \<Rightarrow> u32 list" where
  "ARMInstrHXfer_fields s = [hx_rm s, hx_tag3 s, hx_h s, hx_s s, hx_tag2 s, hx_imm_hi s, hx_rd s, hx_rn s, hx_ls s, hx_wb s, hx_type s, hx_u s, hx_p s, hx_tag s, hx_cond s]"

definition ARMInstrHXfer_make :: "u32 list \<Rightarrow> ARMInstrHXfer" where
  "ARMInstrHXfer_make vs = \<lparr>hx_rm = vs ! 0, hx_tag3 = vs ! 1, hx_h = vs ! 2, hx_s = vs ! 3, hx_tag2 = vs ! 4,
    hx_imm_hi = vs ! 5, hx_rd = vs ! 6, hx_rn = vs ! 7, hx_ls = vs ! 8, hx_wb = vs ! 9, hx_type
    = vs ! 10, hx_u = vs ! 11, hx_p = vs ! 12, hx_tag = vs ! 13, hx_cond = vs ! 14\<rparr>"

definition ARMInstrHXfer_raw :: "ARMInstrHXfer \<Rightarrow> u32" where
  "ARMInstrHXfer_raw s = pack [4, 1, 1, 1, 1, 4, 4, 4, 1, 1, 1, 1, 1, 3, 4] (ARMInstrHXfer_fields s)"

definition ARMInstrHXfer_of :: "u32 \<Rightarrow> ARMInstrHXfer" where
  "ARMInstrHXfer_of x = ARMInstrHXfer_make (unpack [4, 1, 1, 1, 1, 4, 4, 4, 1, 1, 1, 1, 1, 3, 4] x)"

interpretation hx: layout "[4, 1, 1, 1, 1, 4, 4, 4, 1, 1, 1, 1, 1, 3, 4]" ARMInstrHXfer_fields ARMInstrHXfer_make
  by unfold_locales (auto simp:
      ARMInstrHXfer_fields_def ARMInstrHXfer_make_def length_Suc_conv numeral_eq_Suc)

record ARMInstrSwap =
  swp_rm :: u32
  swp_tag3 :: u32
  swp_rd :: u32
  swp_rn :: u32
  swp_tag2 :: u32
  swp_b :: u32
  swp_tag :: u32
  swp_cond :: u32

definition ARMInstrSwap_fields :: "ARMInstrSwap \<Rightarrow> u32 list" where
  "ARMInstrSwap_fields s = [swp_rm s, swp_tag3 s, swp_rd s, swp_rn s, swp_tag2 s, swp_b s, swp_tag s, swp_cond s]"

definition ARMInstrSwap_make :: "u32 list \<Rightarrow> ARMInstrSwap" where
  "ARMInstrSwap_make vs = \<lparr>swp_rm = vs ! 0, swp_tag3 = vs ! 1, swp_rd = vs ! 2, swp_rn = vs ! 3, swp_tag2 = vs
    ! 4, swp_b = vs ! 5, swp_tag = vs ! 6, swp_cond = vs ! 7\<rparr>"

definition ARMInstrSwap_raw :: "ARMInstrSwap \<Rightarrow> u32" where
  "ARMInstrSwap_raw s = pack [4, 8, 4, 4, 2, 1, 5, 4] (ARMInstrSwap_fields s)"

definition ARMInstrSwap_of :: "u32 \<Rightarrow> ARMInstrSwap" where
  "ARMInstrSwap_of x = ARMInstrSwap_make (unpack [4, 8, 4, 4, 2, 1, 5, 4] x)"

interpretation swp: layout "[4, 8, 4, 4, 2, 1, 5, 4]" ARMInstrSwap_fields ARMInstrSwap_make
  by unfold_locales (auto simp:
      ARMInstrSwap_fields_def ARMInstrSwap_make_def length_Suc_conv numeral_eq_Suc)

record ARMInstrSWI =
  swi_num :: u32
  swi_tag :: u32
  swi_cond :: u32

definition ARMInstrSWI_fields :: "ARMInstrSWI \<Rightarrow> u32 list" where
  "ARMInstrSWI_fields s = [swi_num s, swi_tag s, swi_cond s]"

definition ARMInstrSWI_make :: "u32 list \<Rightarrow> ARMInstrSWI" where
  "ARMInstrSWI_make vs = \<lparr>swi_num = vs ! 0, swi_tag = vs ! 1, swi_cond = vs ! 2\<rparr>"

definition ARMInstrSWI_raw :: "ARMInstrSWI \<Rightarrow> u32" where
  "ARMInstrSWI_raw s = pack [24, 4, 4] (ARMInstrSWI_fields s)"

definition ARMInstrSWI_of :: "u32 \<Rightarrow> ARMInstrSWI" where
  "ARMInstrSWI_of x = ARMInstrSWI_make (unpack [24, 4, 4] x)"

interpretation swi: layout "[24, 4, 4]" ARMInstrSWI_fields ARMInstrSWI_make
  by unfold_locales (auto simp:
      ARMInstrSWI_fields_def ARMInstrSWI_make_def length_Suc_conv numeral_eq_Suc)

record ARMInstrCDP =
  cdp_crm :: u32
  cdp_tag2 :: u32
  cdp_op2 :: u32
  cdp_cpn :: u32
  cdp_crd :: u32
  cdp_crn :: u32
  cdp_op :: u32
  cdp_tag :: u32
  cdp_cond :: u32

definition ARMInstrCDP_fields :: "ARMInstrCDP \<Rightarrow> u32 list" where
  "ARMInstrCDP_fields s = [cdp_crm s, cdp_tag2 s, cdp_op2 s, cdp_cpn s, cdp_crd s, cdp_crn s, cdp_op s, cdp_tag s, cdp_cond s]"

definition ARMInstrCDP_make :: "u32 list \<Rightarrow> ARMInstrCDP" where
  "ARMInstrCDP_make vs = \<lparr>cdp_crm = vs ! 0, cdp_tag2 = vs ! 1, cdp_op2 = vs ! 2, cdp_cpn = vs ! 3, cdp_crd =
    vs ! 4, cdp_crn = vs ! 5, cdp_op = vs ! 6, cdp_tag = vs ! 7, cdp_cond = vs ! 8\<rparr>"

definition ARMInstrCDP_raw :: "ARMInstrCDP \<Rightarrow> u32" where
  "ARMInstrCDP_raw s = pack [4, 1, 3, 4, 4, 4, 4, 4, 4] (ARMInstrCDP_fields s)"

definition ARMInstrCDP_of :: "u32 \<Rightarrow> ARMInstrCDP" where
  "ARMInstrCDP_of x = ARMInstrCDP_make (unpack [4, 1, 3, 4, 4, 4, 4, 4, 4] x)"

interpretation cdp: layout "[4, 1, 3, 4, 4, 4, 4, 4, 4]" ARMInstrCDP_fields ARMInstrCDP_make
  by unfold_locales (auto simp:
      ARMInstrCDP_fields_def ARMInstrCDP_make_def length_Suc_conv numeral_eq_Suc)

record ARMInstrCDT =
  cdt_offs :: u32
  cdt_cpn :: u32
  cdt_crd :: u32
  cdt_rn :: u32
  cdt_ls :: u32
  cdt_wb :: u32
  cdt_n :: u32
  cdt_u :: u32
  cdt_p :: u32
  cdt_tag :: u32
  cdt_cond :: u32

definition ARMInstrCDT_fields :: "ARMInstrCDT \<Rightarrow> u32 list" where
  "ARMInstrCDT_fields s = [cdt_offs s, cdt_cpn s, cdt_crd s, cdt_rn s, cdt_ls s, cdt_wb s, cdt_n s, cdt_u s, cdt_p s, cdt_tag s, cdt_cond s]"

definition ARMInstrCDT_make :: "u32 list \<Rightarrow> ARMInstrCDT" where
  "ARMInstrCDT_make vs = \<lparr>cdt_offs = vs ! 0, cdt_cpn = vs ! 1, cdt_crd = vs ! 2, cdt_rn = vs ! 3, cdt_ls = vs
    ! 4, cdt_wb = vs ! 5, cdt_n = vs ! 6, cdt_u = vs ! 7, cdt_p = vs ! 8, cdt_tag = vs ! 9,
    cdt_cond = vs ! 10\<rparr>"

definition ARMInstrCDT_raw :: "ARMInstrCDT \<Rightarrow> u32" where
  "ARMInstrCDT_raw s = pack [8, 4, 4, 4, 1, 1, 1, 1, 1, 3, 4] (ARMInstrCDT_fields s)"

definition ARMInstrCDT_of :: "u32 \<Rightarrow> ARMInstrCDT" where
  "ARMInstrCDT_of x = ARMInstrCDT_make (unpack [8, 4, 4, 4, 1, 1, 1, 1, 1, 3, 4] x)"

interpretation cdt: layout "[8, 4, 4, 4, 1, 1, 1, 1, 1, 3, 4]" ARMInstrCDT_fields ARMInstrCDT_make
  by unfold_locales (auto simp:
      ARMInstrCDT_fields_def ARMInstrCDT_make_def length_Suc_conv numeral_eq_Suc)

record ARMInstrCRT =
  crt_crm :: u32
  crt_tag2 :: u32
  crt_op2 :: u32
  crt_cpn :: u32
  crt_rd :: u32
  crt_crn :: u32
  crt_ls :: u32
  crt_op1 :: u32
  crt_tag :: u32
  crt_cond :: u32

definition ARMInstrCRT_fields :: "ARMInstrCRT \<Rightarrow> u32 list" where
  "ARMInstrCRT_fields s = [crt_crm s, crt_tag2 s, crt_op2 s, crt_cpn s, crt_rd s, crt_crn s, crt_ls s, crt_op1 s, crt_tag s, crt_cond s]"

definition ARMInstrCRT_make :: "u32 list \<Rightarrow> ARMInstrCRT" where
  "ARMInstrCRT_make vs = \<lparr>crt_crm = vs ! 0, crt_tag2 = vs ! 1, crt_op2 = vs ! 2, crt_cpn = vs ! 3, crt_rd = vs
    ! 4, crt_crn = vs ! 5, crt_ls = vs ! 6, crt_op1 = vs ! 7, crt_tag = vs ! 8, crt_cond = vs !
    9\<rparr>"

definition ARMInstrCRT_raw :: "ARMInstrCRT \<Rightarrow> u32" where
  "ARMInstrCRT_raw s = pack [4, 1, 3, 4, 4, 4, 1, 3, 4, 4] (ARMInstrCRT_fields s)"

definition ARMInstrCRT_of :: "u32 \<Rightarrow> ARMInstrCRT" where
  "ARMInstrCRT_of x = ARMInstrCRT_make (unpack [4, 1, 3, 4, 4, 4, 1, 3, 4, 4] x)"

interpretation crt: layout "[4, 1, 3, 4, 4, 4, 1, 3, 4, 4]" ARMInstrCRT_fields ARMInstrCRT_make
  by unfold_locales (auto simp:
      ARMInstrCRT_fields_def ARMInstrCRT_make_def length_Suc_conv numeral_eq_Suc)

record ARMInstrMSR =
  msr_rm :: u32
  msr_pad :: u32
  msr_tag4 :: u32
  msr_fld :: u32
  msr_tag3 :: u32
  msr_sel :: u32
  msr_tag2 :: u32
  msr_type :: u32
  msr_tag :: u32
  msr_cond :: u32

definition ARMInstrMSR_fields :: "ARMInstrMSR \<Rightarrow> u32 list" where
  "ARMInstrMSR_fields s = [msr_rm s, msr_pad s, msr_tag4 s, msr_fld s, msr_tag3 s, msr_sel s, msr_tag2 s, msr_type s, msr_tag s, msr_cond s]"

definition ARMInstrMSR_make :: "u32 list \<Rightarrow> ARMInstrMSR" where
  "ARMInstrMSR_make vs = \<lparr>msr_rm = vs ! 0, msr_pad = vs ! 1, msr_tag4 = vs ! 2, msr_fld = vs ! 3, msr_tag3 =
    vs ! 4, msr_sel = vs ! 5, msr_tag2 = vs ! 6, msr_type = vs ! 7, msr_tag = vs ! 8, msr_cond =
    vs ! 9\<rparr>"

definition ARMInstrMSR_raw :: "ARMInstrMSR \<Rightarrow> u32" where
  "ARMInstrMSR_raw s = pack [4, 8, 4, 4, 2, 1, 2, 1, 2, 4] (ARMInstrMSR_fields s)"

definition ARMInstrMSR_of :: "u32 \<Rightarrow> ARMInstrMSR" where
  "ARMInstrMSR_of x = ARMInstrMSR_make (unpack [4, 8, 4, 4, 2, 1, 2, 1, 2, 4] x)"

interpretation msr: layout "[4, 8, 4, 4, 2, 1, 2, 1, 2, 4]" ARMInstrMSR_fields ARMInstrMSR_make
  by unfold_locales (auto simp:
      ARMInstrMSR_fields_def ARMInstrMSR_make_def length_Suc_conv numeral_eq_Suc)

record ARMInstrMRS =
  mrs_tag3 :: u32
  mrs_rd :: u32
  mrs_tag2 :: u32
  mrs_sel :: u32
  mrs_tag :: u32
  mrs_cond :: u32

definition ARMInstrMRS_fields :: "ARMInstrMRS \<Rightarrow> u32 list" where
  "ARMInstrMRS_fields s = [mrs_tag3 s, mrs_rd s, mrs_tag2 s, mrs_sel s, mrs_tag s, mrs_cond s]"

definition ARMInstrMRS_make :: "u32 list \<Rightarrow> ARMInstrMRS" where
  "ARMInstrMRS_make vs = \<lparr>mrs_tag3 = vs ! 0, mrs_rd = vs ! 1, mrs_tag2 = vs ! 2, mrs_sel = vs ! 3, mrs_tag =
    vs ! 4, mrs_cond = vs ! 5\<rparr>"

definition ARMInstrMRS_raw :: "ARMInstrMRS \<Rightarrow> u32" where
  "ARMInstrMRS_raw s = pack [12, 4, 6, 1, 5, 4] (ARMInstrMRS_fields s)"

definition ARMInstrMRS_of :: "u32 \<Rightarrow> ARMInstrMRS" where
  "ARMInstrMRS_of x = ARMInstrMRS_make (unpack [12, 4, 6, 1, 5, 4] x)"

interpretation mrs: layout "[12, 4, 6, 1, 5, 4]" ARMInstrMRS_fields ARMInstrMRS_make
  by unfold_locales (auto simp:
      ARMInstrMRS_fields_def ARMInstrMRS_make_def length_Suc_conv numeral_eq_Suc)

record ARMInstrCLZ =
  clz_rm :: u32
  clz_tag2 :: u32
  clz_rd :: u32
  clz_tag :: u32
  clz_cond :: u32

definition ARMInstrCLZ_fields :: "ARMInstrCLZ \<Rightarrow> u32 list" where
  "ARMInstrCLZ_fields s = [clz_rm s, clz_tag2 s, clz_rd s, clz_tag s, clz_cond s]"

definition ARMInstrCLZ_make :: "u32 list \<Rightarrow> ARMInstrCLZ" where
  "ARMInstrCLZ_make vs = \<lparr>clz_rm = vs ! 0, clz_tag2 = vs ! 1, clz_rd = vs ! 2, clz_tag = vs ! 3, clz_cond = vs
    ! 4\<rparr>"

definition ARMInstrCLZ_raw :: "ARMInstrCLZ \<Rightarrow> u32" where
  "ARMInstrCLZ_raw s = pack [4, 8, 4, 12, 4] (ARMInstrCLZ_fields s)"

definition ARMInstrCLZ_of :: "u32 \<Rightarrow> ARMInstrCLZ" where
  "ARMInstrCLZ_of x = ARMInstrCLZ_make (unpack [4, 8, 4, 12, 4] x)"

interpretation clz: layout "[4, 8, 4, 12, 4]" ARMInstrCLZ_fields ARMInstrCLZ_make
  by unfold_locales (auto simp:
      ARMInstrCLZ_fields_def ARMInstrCLZ_make_def length_Suc_conv numeral_eq_Suc)

lemmas struct_raw_defs = ARMPSR_raw_def
  ARMInstrGeneric_raw_def
  ARMInstrBR_raw_def
  ARMInstrDPI_raw_def
  ARMInstrMRT_raw_def
  ARMInstrMul_raw_def
  ARMInstrWXfer_raw_def
  ARMInstrHXfer_raw_def
  ARMInstrSwap_raw_def
  ARMInstrSWI_raw_def
  ARMInstrCDP_raw_def
  ARMInstrCDT_raw_def
  ARMInstrCRT_raw_def
  ARMInstrMSR_raw_def
  ARMInstrMRS_raw_def
  ARMInstrCLZ_raw_def

lemmas struct_of_defs = ARMPSR_of_def
  ARMInstrGeneric_of_def
  ARMInstrBR_of_def
  ARMInstrDPI_of_def
  ARMInstrMRT_of_def
  ARMInstrMul_of_def
  ARMInstrWXfer_of_def
  ARMInstrHXfer_of_def
  ARMInstrSwap_of_def
  ARMInstrSWI_of_def
  ARMInstrCDP_of_def
  ARMInstrCDT_of_def
  ARMInstrCRT_of_def
  ARMInstrMSR_of_def
  ARMInstrMRS_of_def
  ARMInstrCLZ_of_def

end
