(* ===== verification/ArmDefs.thy ===== *)
theory ArmDefs
  imports ArmInstr
begin

text \<open>
  The macros of \<open>arm-codegen.h\<close> that compose an instruction word from its parts, and its
  class masks and tags; then, format by format, that the word is the struct with these parts.
  Arguments are ints, so words of 32 bits; where the source tests a sign, the word is read as a
  signed number.
\<close>

abbreviation AL :: u32 where "AL \<equiv> ARMCond_val ARMCOND_AL"

section \<open>Words from parts\<close>

definition ARM_DEF_COND :: "u32 \<Rightarrow> u32" where
  "ARM_DEF_COND cond = push_bit 28 (cond AND 0xF)"

definition ARMCOND_MASK :: u32 where
  "ARMCOND_MASK = push_bit 28 (ARMCond_val ARMCOND_NV)"

text \<open>A C comparison.\<close>

definition c_int :: "bool \<Rightarrow> u32" where
  "c_int b = (if b then 1 else 0)"

text \<open>\<open>imm8 >> even_scale | imm8 << (32 - even_scale)\<close>, undefined for a shift by 32.\<close>

definition ARM_SCALE :: "u32 \<Rightarrow> nat \<Rightarrow> u32 option" where
  "ARM_SCALE imm8 even_scale =
    (if 0 < even_scale \<and> even_scale < 32
     then Some (drop_bit even_scale imm8 OR push_bit (32 - even_scale) imm8) else None)"

definition ARM_BR_MASK :: u32 where "ARM_BR_MASK = push_bit 25 7"
definition ARM_BR_TAG :: u32 where "ARM_BR_TAG = push_bit 25 5"

definition ARM_DEF_BR :: "u32 \<Rightarrow> u32 \<Rightarrow> u32 \<Rightarrow> u32" where
  "ARM_DEF_BR offs l cond = offs OR push_bit 24 l OR ARM_BR_TAG OR push_bit 28 cond"

definition ARM_DEF_BX :: "u32 \<Rightarrow> u32 \<Rightarrow> u32 \<Rightarrow> u32" where
  "ARM_DEF_BX reg sub cond = push_bit 8 0x12fff OR reg OR push_bit 4 sub OR push_bit 28 cond"

definition ARM_DPI_MASK :: u32 where "ARM_DPI_MASK = push_bit 26 3"
definition ARM_DPI_TAG :: u32 where "ARM_DPI_TAG = push_bit 26 0"

definition ARM_DEF_DPI_IMM_COND ::
  "u32 \<Rightarrow> u32 \<Rightarrow> u32 \<Rightarrow> u32 \<Rightarrow> u32 \<Rightarrow> u32 \<Rightarrow> u32 \<Rightarrow> u32" where
  "ARM_DEF_DPI_IMM_COND imm8 rot rd rn s op cond =
    (imm8 AND 0xFF) OR push_bit 8 (rot AND 0xF) OR push_bit 12 rd OR push_bit 16 rn OR
    push_bit 20 s OR push_bit 21 op OR push_bit 25 1 OR ARM_DPI_TAG OR ARM_DEF_COND cond"

definition ARM_DEF_DPI_IMM :: "u32 \<Rightarrow> u32 \<Rightarrow> u32 \<Rightarrow> u32 \<Rightarrow> u32 \<Rightarrow> u32 \<Rightarrow> u32" where
  "ARM_DEF_DPI_IMM imm8 rot rd rn s op = ARM_DEF_DPI_IMM_COND imm8 rot rd rn s op AL"

definition ARM_DEF_DPI_REG_IMMSHIFT_COND ::
  "u32 \<Rightarrow> u32 \<Rightarrow> u32 \<Rightarrow> u32 \<Rightarrow> u32 \<Rightarrow> u32 \<Rightarrow> u32 \<Rightarrow> u32 \<Rightarrow> u32" where
  "ARM_DEF_DPI_REG_IMMSHIFT_COND rm shift_type imm_shift rd rn s op cond =
    rm OR push_bit 5 (shift_type AND 3) OR push_bit 7 (imm_shift AND 0x1F) OR push_bit 12 rd OR
    push_bit 16 rn OR push_bit 20 s OR push_bit 21 op OR ARM_DPI_TAG OR ARM_DEF_COND cond"

definition ARM_DEF_DPI_REG_REGSHIFT_COND ::
  "u32 \<Rightarrow> u32 \<Rightarrow> u32 \<Rightarrow> u32 \<Rightarrow> u32 \<Rightarrow> u32 \<Rightarrow> u32 \<Rightarrow> u32 \<Rightarrow> u32" where
  "ARM_DEF_DPI_REG_REGSHIFT_COND rm shift_type rs rd rn s op cond =
    rm OR push_bit 4 1 OR push_bit 5 (shift_type AND 3) OR push_bit 8 rs OR push_bit 12 rd OR
    push_bit 16 rn OR push_bit 20 s OR push_bit 21 op OR ARM_DPI_TAG OR ARM_DEF_COND cond"

definition ARM_MRT_MASK :: u32 where "ARM_MRT_MASK = push_bit 25 7"
definition ARM_MRT_TAG :: u32 where "ARM_MRT_TAG = push_bit 25 4"

definition ARM_DEF_MRT :: "u32 \<Rightarrow> u32 \<Rightarrow> u32 \<Rightarrow> u32 \<Rightarrow> u32 \<Rightarrow> u32 \<Rightarrow> u32 \<Rightarrow> u32 \<Rightarrow> u32" where
  "ARM_DEF_MRT regs rn l w s u p cond =
    regs OR push_bit 16 rn OR push_bit 20 l OR push_bit 21 w OR push_bit 22 s OR push_bit 23 u OR
    push_bit 24 p OR ARM_MRT_TAG OR ARM_DEF_COND cond"

definition ARM_MUL_ID :: u32 where "ARM_MUL_ID = 9"

definition ARM_DEF_MUL_COND :: "u32 \<Rightarrow> u32 \<Rightarrow> u32 \<Rightarrow> u32 \<Rightarrow> u32 \<Rightarrow> u32 \<Rightarrow> u32 \<Rightarrow> u32" where
  "ARM_DEF_MUL_COND op rd rm rs rn s cond =
    rm OR push_bit 4 ARM_MUL_ID OR push_bit 8 rs OR push_bit 12 rn OR push_bit 16 rd OR
    push_bit 20 (s AND 1) OR push_bit 21 (op AND 7) OR ARM_DEF_COND cond"

definition ARM_WXFER_MASK :: u32 where "ARM_WXFER_MASK = push_bit 26 3"
definition ARM_WXFER_TAG :: u32 where "ARM_WXFER_TAG = push_bit 26 1"

definition ARM_DEF_WXFER_IMM ::
  "u32 \<Rightarrow> u32 \<Rightarrow> u32 \<Rightarrow> u32 \<Rightarrow> u32 \<Rightarrow> u32 \<Rightarrow> u32 \<Rightarrow> u32 \<Rightarrow> u32" where
  "ARM_DEF_WXFER_IMM imm12 rd rn ls wb b p cond =
    (if sint imm12 < 0 then - imm12 else imm12) OR push_bit 12 rd OR push_bit 16 rn OR
    push_bit 20 ls OR push_bit 21 wb OR push_bit 22 b OR push_bit 23 (c_int (sint imm12 \<ge> 0)) OR
    push_bit 24 p OR ARM_WXFER_TAG OR ARM_DEF_COND cond"

definition ARM_WXFER_MAX_OFFS :: int where "ARM_WXFER_MAX_OFFS = 0xFFF"

definition ARM_DEF_WXFER_REG_REG_UPDOWN_COND ::
  "u32 \<Rightarrow> u32 \<Rightarrow> u32 \<Rightarrow> u32 \<Rightarrow> u32 \<Rightarrow> u32 \<Rightarrow> u32 \<Rightarrow> u32 \<Rightarrow> u32 \<Rightarrow> u32 \<Rightarrow> u32 \<Rightarrow> u32" where
  "ARM_DEF_WXFER_REG_REG_UPDOWN_COND rm shift_type shift rd rn ls wb b u p cond =
    rm OR push_bit 5 shift_type OR push_bit 7 shift OR push_bit 12 rd OR push_bit 16 rn OR
    push_bit 20 ls OR push_bit 21 wb OR push_bit 22 b OR push_bit 23 u OR push_bit 24 p OR
    push_bit 25 1 OR ARM_WXFER_TAG OR ARM_DEF_COND cond"

definition ARM_DEF_WXFER_REG_REG_COND ::
  "u32 \<Rightarrow> u32 \<Rightarrow> u32 \<Rightarrow> u32 \<Rightarrow> u32 \<Rightarrow> u32 \<Rightarrow> u32 \<Rightarrow> u32 \<Rightarrow> u32 \<Rightarrow> u32 \<Rightarrow> u32" where
  "ARM_DEF_WXFER_REG_REG_COND rm shift_type shift rd rn ls wb b p cond =
    ARM_DEF_WXFER_REG_REG_UPDOWN_COND rm shift_type shift rd rn ls wb b (ARMOpcode_val ARM_UP) p cond"

definition ARM_DEF_WXFER_REG_MINUS_REG_COND ::
  "u32 \<Rightarrow> u32 \<Rightarrow> u32 \<Rightarrow> u32 \<Rightarrow> u32 \<Rightarrow> u32 \<Rightarrow> u32 \<Rightarrow> u32 \<Rightarrow> u32 \<Rightarrow> u32 \<Rightarrow> u32" where
  "ARM_DEF_WXFER_REG_MINUS_REG_COND rm shift_type shift rd rn ls wb b p cond =
    ARM_DEF_WXFER_REG_REG_UPDOWN_COND rm shift_type shift rd rn ls wb b (ARMOpcode_val ARM_DOWN) p cond"

definition ARM_HXFER_MASK :: u32 where "ARM_HXFER_MASK = push_bit 25 7 OR push_bit 4 9"
definition ARM_HXFER_TAG :: u32 where "ARM_HXFER_TAG = push_bit 25 0 OR push_bit 7 1 OR push_bit 4 1"

definition ARM_DEF_HXFER_IMM_COND ::
  "u32 \<Rightarrow> u32 \<Rightarrow> u32 \<Rightarrow> u32 \<Rightarrow> u32 \<Rightarrow> u32 \<Rightarrow> u32 \<Rightarrow> u32 \<Rightarrow> u32 \<Rightarrow> u32" where
  "ARM_DEF_HXFER_IMM_COND imm h s rd rn ls wb p cond =
    (if sint imm < 0 then (- imm) AND 0xF else imm AND 0xF) OR push_bit 5 h OR push_bit 6 s OR
    (if sint imm < 0 then push_bit 4 (- imm) AND 0xF00 else push_bit 4 imm AND 0xF00) OR
    push_bit 12 rd OR push_bit 16 rn OR push_bit 20 ls OR push_bit 21 wb OR push_bit 22 1 OR
    push_bit 23 (c_int (sint imm \<ge> 0)) OR push_bit 24 p OR ARM_HXFER_TAG OR ARM_DEF_COND cond"

definition ARM_DEF_HXFER_REG_REG_UPDOWN_COND ::
  "u32 \<Rightarrow> u32 \<Rightarrow> u32 \<Rightarrow> u32 \<Rightarrow> u32 \<Rightarrow> u32 \<Rightarrow> u32 \<Rightarrow> u32 \<Rightarrow> u32 \<Rightarrow> u32 \<Rightarrow> u32" where
  "ARM_DEF_HXFER_REG_REG_UPDOWN_COND rm h s rd rn ls wb u p cond =
    (rm AND 0xF) OR push_bit 5 h OR push_bit 6 s OR push_bit 12 rd OR push_bit 16 rn OR
    push_bit 20 ls OR push_bit 21 wb OR push_bit 22 0 OR push_bit 23 u OR push_bit 24 p OR
    ARM_HXFER_TAG OR ARM_DEF_COND cond"

definition ARM_DEF_HXFER_REG_REG_COND ::
  "u32 \<Rightarrow> u32 \<Rightarrow> u32 \<Rightarrow> u32 \<Rightarrow> u32 \<Rightarrow> u32 \<Rightarrow> u32 \<Rightarrow> u32 \<Rightarrow> u32 \<Rightarrow> u32" where
  "ARM_DEF_HXFER_REG_REG_COND rm h s rd rn ls wb p cond =
    ARM_DEF_HXFER_REG_REG_UPDOWN_COND rm h s rd rn ls wb (ARMOpcode_val ARM_UP) p cond"

definition ARM_DEF_HXFER_REG_MINUS_REG_COND ::
  "u32 \<Rightarrow> u32 \<Rightarrow> u32 \<Rightarrow> u32 \<Rightarrow> u32 \<Rightarrow> u32 \<Rightarrow> u32 \<Rightarrow> u32 \<Rightarrow> u32 \<Rightarrow> u32" where
  "ARM_DEF_HXFER_REG_MINUS_REG_COND rm h s rd rn ls wb p cond =
    ARM_DEF_HXFER_REG_REG_UPDOWN_COND rm h s rd rn ls wb (ARMOpcode_val ARM_DOWN) p cond"

definition ARM_SWP_MASK :: u32 where
  "ARM_SWP_MASK = push_bit 23 0x1F OR push_bit 20 3 OR push_bit 4 0xFF"
definition ARM_SWP_TAG :: u32 where "ARM_SWP_TAG = push_bit 23 2 OR push_bit 4 9"
definition ARM_SWI_MASK :: u32 where "ARM_SWI_MASK = push_bit 24 0xF"
definition ARM_SWI_TAG :: u32 where "ARM_SWI_TAG = push_bit 24 0xF"
definition ARM_CDP_MASK :: u32 where "ARM_CDP_MASK = push_bit 24 0xF OR push_bit 4 1"
definition ARM_CDP_TAG :: u32 where "ARM_CDP_TAG = push_bit 24 0xE OR push_bit 4 0"
definition ARM_CDT_MASK :: u32 where "ARM_CDT_MASK = push_bit 25 7"
definition ARM_CDT_TAG :: u32 where "ARM_CDT_TAG = push_bit 25 6"
definition ARM_CRT_MASK :: u32 where "ARM_CRT_MASK = push_bit 24 0xF OR push_bit 4 1"
definition ARM_CRT_TAG :: u32 where "ARM_CRT_TAG = push_bit 24 0xE OR push_bit 4 1"
definition ARM_MSR_MASK :: u32 where
  "ARM_MSR_MASK = push_bit 26 3 OR push_bit 23 3 OR push_bit 20 3 OR push_bit 12 0xF"
definition ARM_MSR_TAG :: u32 where
  "ARM_MSR_TAG = push_bit 26 0 OR push_bit 23 2 OR push_bit 20 2 OR push_bit 12 0xF"
definition ARM_MRS_MASK :: u32 where
  "ARM_MRS_MASK = push_bit 23 0x1F OR push_bit 16 0x3F OR 0xFFF"
definition ARM_MRS_TAG :: u32 where "ARM_MRS_TAG = push_bit 23 2 OR push_bit 16 0xF OR 0"

text \<open>\<open>(0xFF < 4)\<close> is a comparison, and false.\<close>

definition ARM_CLZ_MASK :: u32 where
  "ARM_CLZ_MASK = push_bit 16 0xFFF OR c_int ((0xFF :: u32) < 4)"
definition ARM_CLZ_TAG :: u32 where "ARM_CLZ_TAG = push_bit 16 0x16F OR push_bit 4 0xF1"

definition ARM_DEF_MCR_COND :: "u32 \<Rightarrow> u32 \<Rightarrow> u32 \<Rightarrow> u32 \<Rightarrow> u32 \<Rightarrow> u32 \<Rightarrow> u32 \<Rightarrow> u32" where
  "ARM_DEF_MCR_COND coproc opc1 rt crn crm opc2 cond =
    ARM_DEF_COND cond OR (push_bit 24 0xe OR push_bit 21 (opc1 AND 7) OR push_bit 20 0 OR
    push_bit 16 (crn AND 0xf) OR push_bit 12 (rt AND 0xf) OR push_bit 8 (coproc AND 0xf) OR
    push_bit 5 (opc2 AND 7) OR push_bit 4 1 OR push_bit 0 (crm AND 0xf))"

definition ARM_DEF_MRC_COND :: "u32 \<Rightarrow> u32 \<Rightarrow> u32 \<Rightarrow> u32 \<Rightarrow> u32 \<Rightarrow> u32 \<Rightarrow> u32 \<Rightarrow> u32" where
  "ARM_DEF_MRC_COND coproc opc1 rt crn crm opc2 cond =
    ARM_DEF_COND cond OR (push_bit 24 0xe OR push_bit 21 (opc1 AND 7) OR push_bit 20 1 OR
    push_bit 16 (crn AND 0xf) OR push_bit 12 (rt AND 0xf) OR push_bit 8 (coproc AND 0xf) OR
    push_bit 5 (opc2 AND 7) OR push_bit 4 1 OR push_bit 0 (crm AND 0xf))"

lemmas arm_defs [enc_simps] = ARM_DEF_COND_def ARM_BR_TAG_def ARM_DEF_BR_def ARM_DPI_TAG_def
  ARM_DEF_DPI_IMM_COND_def ARM_DEF_DPI_REG_IMMSHIFT_COND_def ARM_DEF_DPI_REG_REGSHIFT_COND_def
  ARM_MRT_TAG_def ARM_DEF_MRT_def ARM_MUL_ID_def ARM_DEF_MUL_COND_def ARM_WXFER_TAG_def
  ARM_DEF_WXFER_IMM_def ARM_DEF_WXFER_REG_REG_UPDOWN_COND_def ARM_HXFER_TAG_def
  ARM_DEF_HXFER_IMM_COND_def ARM_DEF_HXFER_REG_REG_UPDOWN_COND_def ARM_DEF_MCR_COND_def
  ARM_DEF_MRC_COND_def

section \<open>Every word is the struct with its parts\<close>

text \<open>
  Both sides are brought to a disjunction of shifted parts; a part that fits its field is left
  alone by the truncation.
\<close>

lemma const_fits:
  "take_bit w (0 :: u32) = 0" "take_bit 1 (1 :: u32) = 1" "take_bit 3 (5 :: u32) = 5" "take_bit 3 (4 :: u32) = 4"
  "take_bit 2 (1 :: u32) = 1" "take_bit 4 (9 :: u32) = 9" "take_bit 4 (14 :: u32) = 14"
  by simp_all

lemma or_zero_u32: "(0 :: u32) OR x = x" "x OR 0 = (x :: u32)" "push_bit n 0 = (0 :: u32)"
  by simp_all

lemma push_bit_zero_u32: "push_bit 0 x = (x :: u32)"
  by simp

lemmas or_ac = or.assoc or.commute or.left_commute

lemmas raw_norm = pack.simps push_bit_or_u32 push_bit_push_bit and_masks const_fits or_zero_u32
  push_bit_zero_u32 add_numeral_special arith_simps add_num_simps

text \<open>Operand 2 of a data-processing instruction: 12 bits in three layouts.\<close>

lemma op2_fits:
  "fits 12 (pack [8, 4] vs)" "fits 12 (pack [4, 1, 2, 5] vs)" "fits 12 (pack [4, 1, 2, 1, 4] vs)"
  using pack_fits [of "[8, 4]" vs] pack_fits [of "[4, 1, 2, 5]" vs] pack_fits [of "[4, 1, 2, 1, 4]" vs]
  by simp_all

lemma DPI_word:
  assumes "fits 12 op2" "fits 4 rd" "fits 4 rn" "fits 1 s" "fits 4 op" "fits 1 t"
  shows "ARMInstrDPI_raw \<lparr>dpi_op2 = op2, dpi_rd = rd, dpi_rn = rn, dpi_s = s,
       dpi_opcode = op, dpi_type = t, dpi_tag = 0, dpi_cond = take_bit 4 cond\<rparr> =
     op2 OR push_bit 12 rd OR push_bit 16 rn OR push_bit 20 s OR push_bit 21 op OR push_bit 25 t OR
     push_bit 28 (take_bit 4 cond)"
  by (simp only: assms [THEN fitsD] ARMInstrDPI_raw_def ARMInstrDPI_fields_def ARMInstrDPI.simps
      raw_norm fits_take_bit [THEN fitsD] or_ac)

lemma fits_0_1: "fits 1 0" "fits 1 1"
  by (simp_all add: fits_def)

lemma DEF_BR_raw:
  "\<lbrakk>fits 24 offs; fits 1 l; fits 4 cond\<rbrakk> \<Longrightarrow> ARM_DEF_BR offs l cond =
     ARMInstrBR_raw \<lparr>br_offset = offs, br_link = l, br_tag = 5, br_cond = cond\<rparr>"
  by (simp only: arm_defs ARMInstrBR_raw_def ARMInstrBR_fields_def ARMInstrBR.simps fitsD raw_norm or_ac)

lemma DEF_DPI_IMM_raw:
  assumes "fits 4 rd" "fits 4 rn" "fits 1 s" "fits 4 op"
  shows "ARM_DEF_DPI_IMM_COND imm8 rot rd rn s op cond =
     ARMInstrDPI_raw \<lparr>dpi_op2 = pack [8, 4] [imm8, rot], dpi_rd = rd, dpi_rn = rn, dpi_s = s,
       dpi_opcode = op, dpi_type = 1, dpi_tag = 0, dpi_cond = take_bit 4 cond\<rparr>"
  unfolding DPI_word [OF op2_fits(1) assms fits_0_1(2)]
  by (simp only: assms [THEN fitsD] arm_defs raw_norm fits_take_bit [THEN fitsD] or_ac)

lemma DEF_DPI_REG_IMMSHIFT_raw:
  assumes "fits 4 rm" "fits 4 rd" "fits 4 rn" "fits 1 s" "fits 4 op"
  shows "ARM_DEF_DPI_REG_IMMSHIFT_COND rm shift_type imm_shift rd rn s op cond =
     ARMInstrDPI_raw \<lparr>dpi_op2 = pack [4, 1, 2, 5] [rm, 0, shift_type, imm_shift], dpi_rd = rd,
       dpi_rn = rn, dpi_s = s, dpi_opcode = op, dpi_type = 0, dpi_tag = 0, dpi_cond = take_bit 4 cond\<rparr>"
  unfolding DPI_word [OF op2_fits(2) assms(2-5) fits_0_1(1)]
  by (simp only: assms [THEN fitsD] arm_defs raw_norm fits_take_bit [THEN fitsD] or_ac)

lemma DEF_DPI_REG_REGSHIFT_raw:
  assumes "fits 4 rm" "fits 4 rs" "fits 4 rd" "fits 4 rn" "fits 1 s" "fits 4 op"
  shows "ARM_DEF_DPI_REG_REGSHIFT_COND rm shift_type rs rd rn s op cond =
     ARMInstrDPI_raw \<lparr>dpi_op2 = pack [4, 1, 2, 1, 4] [rm, 1, shift_type, 0, rs], dpi_rd = rd,
       dpi_rn = rn, dpi_s = s, dpi_opcode = op, dpi_type = 0, dpi_tag = 0, dpi_cond = take_bit 4 cond\<rparr>"
  unfolding DPI_word [OF op2_fits(3) assms(3-6) fits_0_1(1)]
  by (simp only: assms [THEN fitsD] arm_defs raw_norm fits_take_bit [THEN fitsD] or_ac)

lemma DEF_MRT_raw:
  assumes "fits 16 regs" "fits 4 rn" "fits 1 l" "fits 1 w" "fits 1 s" "fits 1 u" "fits 1 p"
  shows "ARM_DEF_MRT regs rn l w s u p cond =
     ARMInstrMRT_raw \<lparr>mrt_reg_list = regs, mrt_rn = rn, mrt_ls = l, mrt_wb = w, mrt_s = s, mrt_u = u,
       mrt_p = p, mrt_tag = 4, mrt_cond = take_bit 4 cond\<rparr>"
  by (simp only: assms [THEN fitsD] arm_defs ARMInstrMRT_raw_def ARMInstrMRT_fields_def ARMInstrMRT.simps
      raw_norm fits_take_bit [THEN fitsD] or_ac)

lemma DEF_MUL_raw:
  assumes "fits 4 rd" "fits 4 rm" "fits 4 rs" "fits 4 rn"
  shows "ARM_DEF_MUL_COND op rd rm rs rn s cond =
     ARMInstrMul_raw \<lparr>mul_rm = rm, mul_tag2 = 9, mul_rs = rs, mul_rn = rn, mul_rd = rd,
       mul_s = take_bit 1 s, mul_opcode = take_bit 3 op, mul_tag = 0, mul_cond = take_bit 4 cond\<rparr>"
  by (simp only: assms [THEN fitsD] arm_defs ARMInstrMul_raw_def ARMInstrMul_fields_def ARMInstrMul.simps
      raw_norm fits_take_bit [THEN fitsD] or_ac)

subsection \<open>Transfers\<close>

definition magnitude :: "u32 \<Rightarrow> u32" where
  "magnitude x = (if sint x < 0 then - x else x)"

text \<open>The offset of a word or byte transfer is a magnitude of 12 bits and a direction.\<close>

lemma DEF_WXFER_IMM_raw:
  assumes "fits 12 (magnitude imm12)" "fits 4 rd" "fits 4 rn" "fits 1 ls"
    "fits 1 wb" "fits 1 b" "fits 1 p"
  shows "ARM_DEF_WXFER_IMM imm12 rd rn ls wb b p cond =
     ARMInstrWXfer_raw \<lparr>wx_op2_imm = magnitude imm12, wx_rd = rd, wx_rn = rn,
       wx_ls = ls, wx_wb = wb, wx_b = b, wx_u = c_int (sint imm12 \<ge> 0), wx_p = p, wx_type = 0, wx_tag = 1,
       wx_cond = take_bit 4 cond\<rparr>"
proof -
  have u: "fits 1 (c_int (sint imm12 \<ge> 0))" by (simp add: c_int_def fits_0_1 [simplified])
  show ?thesis
    by (simp only: assms [THEN fitsD] u [THEN fitsD] arm_defs magnitude_def [symmetric] ARMInstrWXfer_raw_def ARMInstrWXfer_fields_def
        ARMInstrWXfer.simps raw_norm fits_take_bit [THEN fitsD] or_ac)
qed

lemma DEF_WXFER_REG_raw:
  assumes "fits 4 rm" "fits 2 shift_type" "fits 5 shift" "fits 4 rd" "fits 4 rn" "fits 1 ls" "fits 1 wb"
    "fits 1 b" "fits 1 u" "fits 1 p"
  shows "ARM_DEF_WXFER_REG_REG_UPDOWN_COND rm shift_type shift rd rn ls wb b u p cond =
     ARMInstrWXfer_raw \<lparr>wx_op2_imm = pack [4, 1, 2, 5] [rm, 0, shift_type, shift], wx_rd = rd, wx_rn = rn,
       wx_ls = ls, wx_wb = wb, wx_b = b, wx_u = u, wx_p = p, wx_type = 1, wx_tag = 1,
       wx_cond = take_bit 4 cond\<rparr>"
proof -
  have word: "ARMInstrWXfer_raw \<lparr>wx_op2_imm = op2, wx_rd = rd, wx_rn = rn, wx_ls = ls, wx_wb = wb, wx_b = b,
      wx_u = u, wx_p = p, wx_type = 1, wx_tag = 1, wx_cond = take_bit 4 cond\<rparr> =
     op2 OR push_bit 12 rd OR push_bit 16 rn OR push_bit 20 ls OR push_bit 21 wb OR push_bit 22 b OR
     push_bit 23 u OR push_bit 24 p OR push_bit 25 1 OR push_bit 26 1 OR push_bit 28 (take_bit 4 cond)"
    if "fits 12 op2" for op2
    by (simp only: assms [THEN fitsD] that [THEN fitsD] ARMInstrWXfer_raw_def ARMInstrWXfer_fields_def
        ARMInstrWXfer.simps raw_norm fits_take_bit [THEN fitsD] or_ac)
  show ?thesis
    unfolding word [OF op2_fits(2)]
    by (simp only: assms [THEN fitsD] arm_defs raw_norm fits_take_bit [THEN fitsD] or_ac)
qed

text \<open>
  The offset of a half-word or signed transfer is a magnitude of 8 bits in two halves. The
  second half is cut out before it is moved to its place.
\<close>

lemma high_nibble: "push_bit 4 x AND 0xF00 = push_bit 8 (take_bit 4 (drop_bit 4 (x :: u32)))"
proof (rule bit_eqI)
  fix k
  assume "possible_bit TYPE(u32) k"
  have m: "bit (0xF00 :: u32) k \<longleftrightarrow> 8 \<le> k \<and> k < 12"
  proof -
    have e: "(0xF00 :: u32) = push_bit 8 (mask 4)" by (simp add: mask_eq_exp_minus_1)
    show ?thesis unfolding e using \<open>possible_bit TYPE(u32) k\<close> by (auto simp only: bit_simps possible_bit_word)
  qed
  show "bit (push_bit 4 x AND 0xF00) k \<longleftrightarrow> bit (push_bit 8 (take_bit 4 (drop_bit 4 x))) k"
    by (simp only: bit_and_iff m) (auto simp: bit_simps)
qed

lemma DEF_HXFER_IMM_raw:
  assumes "fits 1 h" "fits 1 s" "fits 4 rd" "fits 4 rn" "fits 1 ls" "fits 1 wb" "fits 1 p"
  shows "ARM_DEF_HXFER_IMM_COND imm h s rd rn ls wb p cond =
     ARMInstrHXfer_raw \<lparr>hx_rm = take_bit 4 (magnitude imm), hx_tag3 = 1, hx_h = h, hx_s = s, hx_tag2 = 1,
       hx_imm_hi = take_bit 4 (drop_bit 4 (magnitude imm)), hx_rd = rd, hx_rn = rn, hx_ls = ls, hx_wb = wb, hx_type = 1,
       hx_u = c_int (sint imm \<ge> 0), hx_p = p, hx_tag = 0, hx_cond = take_bit 4 cond\<rparr>"
proof -
  have u: "fits 1 (c_int (sint imm \<ge> 0))" by (simp add: c_int_def fits_0_1 [simplified])
  have lo: "(if sint imm < 0 then take_bit 4 (- imm) else take_bit 4 imm) = take_bit 4 (magnitude imm)"
    by (simp add: magnitude_def)
  have hi: "(if sint imm < 0 then push_bit 4 (- imm) AND 0xF00 else push_bit 4 imm AND 0xF00) =
      push_bit 8 (take_bit 4 (drop_bit 4 (magnitude imm)))"
    by (simp only: magnitude_def high_nibble split: if_splits) simp
  show ?thesis
    by (simp only: lo hi assms [THEN fitsD] u [THEN fitsD] arm_defs ARMInstrHXfer_raw_def
        ARMInstrHXfer_fields_def ARMInstrHXfer.simps raw_norm fits_take_bit [THEN fitsD] or_ac)
qed

lemma DEF_HXFER_REG_raw:
  assumes "fits 1 h" "fits 1 s" "fits 4 rd" "fits 4 rn" "fits 1 ls" "fits 1 wb" "fits 1 u" "fits 1 p"
  shows "ARM_DEF_HXFER_REG_REG_UPDOWN_COND rm h s rd rn ls wb u p cond =
     ARMInstrHXfer_raw \<lparr>hx_rm = take_bit 4 rm, hx_tag3 = 1, hx_h = h, hx_s = s, hx_tag2 = 1,
       hx_imm_hi = 0, hx_rd = rd, hx_rn = rn, hx_ls = ls, hx_wb = wb, hx_type = 0,
       hx_u = u, hx_p = p, hx_tag = 0, hx_cond = take_bit 4 cond\<rparr>"
  by (simp only: assms [THEN fitsD] arm_defs ARMInstrHXfer_raw_def ARMInstrHXfer_fields_def
      ARMInstrHXfer.simps raw_norm fits_take_bit [THEN fitsD] or_ac)

subsection \<open>Coprocessor register transfers\<close>

lemma DEF_MCR_raw:
  "ARM_DEF_MCR_COND coproc opc1 rt crn crm opc2 cond =
     ARMInstrCRT_raw \<lparr>crt_crm = take_bit 4 crm, crt_tag2 = 1, crt_op2 = take_bit 3 opc2,
       crt_cpn = take_bit 4 coproc, crt_rd = take_bit 4 rt, crt_crn = take_bit 4 crn, crt_ls = 0,
       crt_op1 = take_bit 3 opc1, crt_tag = 14, crt_cond = take_bit 4 cond\<rparr>"
  by (simp only: arm_defs ARMInstrCRT_raw_def ARMInstrCRT_fields_def
      ARMInstrCRT.simps raw_norm fits_take_bit [THEN fitsD] or_ac)

lemma DEF_MRC_raw:
  "ARM_DEF_MRC_COND coproc opc1 rt crn crm opc2 cond =
     ARMInstrCRT_raw \<lparr>crt_crm = take_bit 4 crm, crt_tag2 = 1, crt_op2 = take_bit 3 opc2,
       crt_cpn = take_bit 4 coproc, crt_rd = take_bit 4 rt, crt_crn = take_bit 4 crn, crt_ls = 1,
       crt_op1 = take_bit 3 opc1, crt_tag = 14, crt_cond = take_bit 4 cond\<rparr>"
  by (simp only: arm_defs ARMInstrCRT_raw_def ARMInstrCRT_fields_def
      ARMInstrCRT.simps raw_norm fits_take_bit [THEN fitsD] or_ac)

end
