(* ===== verification/ArmCodegen.thy ===== *)
theory ArmCodegen
  imports ArmDefs
begin

text \<open>
  The emitting macros of \<open>arm-codegen.h\<close>, in its order. A macro that takes the code pointer
  \<open>p\<close> is a step on the pointer and the words of the code buffer; writing outside the buffer is
  undefined. The inline-assembler variants are in \<open>ArmDpi\<close>.
\<close>

section \<open>The code buffer\<close>

text \<open>The pointer, as an index, and the words of the buffer.\<close>

type_synonym code = "nat \<times> u32 list"

definition ARM_EMIT :: "u32 \<Rightarrow> code \<Rightarrow> code option" where
  "ARM_EMIT i = (\<lambda>(p, buf). if p < length buf then Some (Suc p, buf[p := i]) else None)"

section \<open>Branches\<close>

definition ARM_B_COND :: "u32 \<Rightarrow> u32 \<Rightarrow> code \<Rightarrow> code option" where
  "ARM_B_COND cond offset = ARM_EMIT (ARM_DEF_BR offset 0 cond)"

definition ARM_B :: "u32 \<Rightarrow> code \<Rightarrow> code option" where
  "ARM_B offs = ARM_B_COND AL offs"

definition ARM_BL_COND :: "u32 \<Rightarrow> u32 \<Rightarrow> code \<Rightarrow> code option" where
  "ARM_BL_COND cond offset = ARM_EMIT (ARM_DEF_BR offset 1 cond)"

definition ARM_BL :: "u32 \<Rightarrow> code \<Rightarrow> code option" where
  "ARM_BL offs = ARM_BL_COND AL offs"

definition ARM_BX_COND :: "u32 \<Rightarrow> u32 \<Rightarrow> code \<Rightarrow> code option" where
  "ARM_BX_COND cond reg = ARM_EMIT (ARM_DEF_BX reg 1 cond)"

definition ARM_BX :: "u32 \<Rightarrow> code \<Rightarrow> code option" where
  "ARM_BX reg = ARM_BX_COND AL reg"

definition ARM_BLX_REG_COND :: "u32 \<Rightarrow> u32 \<Rightarrow> code \<Rightarrow> code
     option" where
  "ARM_BLX_REG_COND cond reg = ARM_EMIT (ARM_DEF_BX reg 3 cond)"

definition ARM_BLX_REG :: "u32 \<Rightarrow> code \<Rightarrow> code option" where
  "ARM_BLX_REG reg = ARM_BLX_REG_COND AL reg"

section \<open>Data processing\<close>

definition ARM_DPIOP_REG_IMM8ROT_COND :: "u32 \<Rightarrow> u32 \<Rightarrow> u32 \<Rightarrow>
     u32 \<Rightarrow> u32 \<Rightarrow> u32 \<Rightarrow> code \<Rightarrow> code option" where
  "ARM_DPIOP_REG_IMM8ROT_COND op rd rn imm8 rot cond = ARM_EMIT (ARM_DEF_DPI_IMM_COND imm8
     (drop_bit 1 rot) rd rn 0 op cond)"

definition ARM_DPIOP_S_REG_IMM8ROT_COND :: "u32 \<Rightarrow> u32 \<Rightarrow> u32 \<Rightarrow>
     u32 \<Rightarrow> u32 \<Rightarrow> u32 \<Rightarrow> code \<Rightarrow> code option" where
  "ARM_DPIOP_S_REG_IMM8ROT_COND op rd rn imm8 rot cond = ARM_EMIT (ARM_DEF_DPI_IMM_COND imm8
     (drop_bit 1 rot) rd rn 1 op cond)"

definition ARM_DPIOP_REG_IMMSHIFT_COND :: "u32 \<Rightarrow> u32 \<Rightarrow> u32 \<Rightarrow>
     u32 \<Rightarrow> u32 \<Rightarrow> u32 \<Rightarrow> u32 \<Rightarrow> code \<Rightarrow>
     code option" where
  "ARM_DPIOP_REG_IMMSHIFT_COND op rd rn rm shift_t imm_shift cond = ARM_EMIT
     (ARM_DEF_DPI_REG_IMMSHIFT_COND rm shift_t imm_shift rd rn 0 op cond)"

definition ARM_DPIOP_S_REG_IMMSHIFT_COND :: "u32 \<Rightarrow> u32 \<Rightarrow> u32 \<Rightarrow>
     u32 \<Rightarrow> u32 \<Rightarrow> u32 \<Rightarrow> u32 \<Rightarrow> code \<Rightarrow>
     code option" where
  "ARM_DPIOP_S_REG_IMMSHIFT_COND op rd rn rm shift_t imm_shift cond = ARM_EMIT
     (ARM_DEF_DPI_REG_IMMSHIFT_COND rm shift_t imm_shift rd rn 1 op cond)"

definition ARM_DPIOP_REG_REG_COND :: "u32 \<Rightarrow> u32 \<Rightarrow> u32 \<Rightarrow> u32
     \<Rightarrow> u32 \<Rightarrow> code \<Rightarrow> code option" where
  "ARM_DPIOP_REG_REG_COND op rd rn rm cond = ARM_EMIT (ARM_DEF_DPI_REG_IMMSHIFT_COND rm
     (ARMShiftType_val ARMSHIFT_LSL) 0 rd rn 0 op cond)"

definition ARM_DPIOP_S_REG_REG_COND :: "u32 \<Rightarrow> u32 \<Rightarrow> u32 \<Rightarrow> u32
     \<Rightarrow> u32 \<Rightarrow> code \<Rightarrow> code option" where
  "ARM_DPIOP_S_REG_REG_COND op rd rn rm cond = ARM_EMIT (ARM_DEF_DPI_REG_IMMSHIFT_COND rm
     (ARMShiftType_val ARMSHIFT_LSL) 0 rd rn 1 op cond)"

definition ARM_DPIOP_REG_REGSHIFT_COND :: "u32 \<Rightarrow> u32 \<Rightarrow> u32 \<Rightarrow>
     u32 \<Rightarrow> u32 \<Rightarrow> u32 \<Rightarrow> u32 \<Rightarrow> code \<Rightarrow>
     code option" where
  "ARM_DPIOP_REG_REGSHIFT_COND op rd rn rm shift_t rs cond = ARM_EMIT
     (ARM_DEF_DPI_REG_REGSHIFT_COND rm shift_t rs rd rn 0 op cond)"

definition ARM_DPIOP_S_REG_REGSHIFT_COND :: "u32 \<Rightarrow> u32 \<Rightarrow> u32 \<Rightarrow>
     u32 \<Rightarrow> u32 \<Rightarrow> u32 \<Rightarrow> u32 \<Rightarrow> code \<Rightarrow>
     code option" where
  "ARM_DPIOP_S_REG_REGSHIFT_COND op rd rn rm shift_t rs cond = ARM_EMIT
     (ARM_DEF_DPI_REG_REGSHIFT_COND rm shift_t rs rd rn 1 op cond)"

section \<open>Multiple transfers\<close>

definition ARM_LDM :: "u32 \<Rightarrow> u32 \<Rightarrow> code \<Rightarrow> code option" where
  "ARM_LDM base regs = ARM_EMIT (ARM_DEF_MRT regs base 1 0 0 1 0 AL)"

definition ARM_STM :: "u32 \<Rightarrow> u32 \<Rightarrow> code \<Rightarrow> code option" where
  "ARM_STM base regs = ARM_EMIT (ARM_DEF_MRT regs base 0 0 0 1 0 AL)"

definition ARM_PUSH :: "u32 \<Rightarrow> code \<Rightarrow> code option" where
  "ARM_PUSH regs = ARM_EMIT (ARM_DEF_MRT regs (ARMReg_val ARMREG_SP) 0 1 0 0 1 AL)"

definition ARM_POP :: "u32 \<Rightarrow> code \<Rightarrow> code option" where
  "ARM_POP regs = ARM_EMIT (ARM_DEF_MRT regs (ARMReg_val ARMREG_SP) 1 1 0 1 0 AL)"

definition ARM_POP_NWB :: "u32 \<Rightarrow> code \<Rightarrow> code option" where
  "ARM_POP_NWB regs = ARM_EMIT (ARM_DEF_MRT regs (ARMReg_val ARMREG_SP) 1 0 0 1 0 AL)"

definition ARM_PUSH1 :: "u32 \<Rightarrow> code \<Rightarrow> code option" where
  "ARM_PUSH1 r1 = ARM_PUSH (push_bit (unat r1) 1)"

definition ARM_PUSH2 :: "u32 \<Rightarrow> u32 \<Rightarrow> code \<Rightarrow> code option" where
  "ARM_PUSH2 r1 r2 = ARM_PUSH ((push_bit (unat r1) 1) OR (push_bit (unat r2) 1))"

definition ARM_PUSH3 :: "u32 \<Rightarrow> u32 \<Rightarrow> u32 \<Rightarrow> code \<Rightarrow>
     code option" where
  "ARM_PUSH3 r1 r2 r3 = ARM_PUSH ((push_bit (unat r1) 1) OR (push_bit (unat r2) 1) OR (push_bit
     (unat r3) 1))"

definition ARM_PUSH4 :: "u32 \<Rightarrow> u32 \<Rightarrow> u32 \<Rightarrow> u32 \<Rightarrow>
     code \<Rightarrow> code option" where
  "ARM_PUSH4 r1 r2 r3 r4 = ARM_PUSH ((push_bit (unat r1) 1) OR (push_bit (unat r2) 1) OR (push_bit
     (unat r3) 1) OR (push_bit (unat r4) 1))"

definition ARM_PUSH5 :: "u32 \<Rightarrow> u32 \<Rightarrow> u32 \<Rightarrow> u32 \<Rightarrow>
     u32 \<Rightarrow> code \<Rightarrow> code option" where
  "ARM_PUSH5 r1 r2 r3 r4 r5 = ARM_PUSH ((push_bit (unat r1) 1) OR (push_bit (unat r2) 1) OR
     (push_bit (unat r3) 1) OR (push_bit (unat r4) 1) OR (push_bit (unat r5) 1))"

definition ARM_PUSH6 :: "u32 \<Rightarrow> u32 \<Rightarrow> u32 \<Rightarrow> u32 \<Rightarrow>
     u32 \<Rightarrow> u32 \<Rightarrow> code \<Rightarrow> code option" where
  "ARM_PUSH6 r1 r2 r3 r4 r5 r6 = ARM_PUSH ((push_bit (unat r1) 1) OR (push_bit (unat r2) 1) OR
     (push_bit (unat r3) 1) OR (push_bit (unat r4) 1) OR (push_bit (unat r5) 1) OR (push_bit (unat
     r6) 1))"

definition ARM_PUSH7 :: "u32 \<Rightarrow> u32 \<Rightarrow> u32 \<Rightarrow> u32 \<Rightarrow>
     u32 \<Rightarrow> u32 \<Rightarrow> u32 \<Rightarrow> code \<Rightarrow> code option" where
  "ARM_PUSH7 r1 r2 r3 r4 r5 r6 r7 = ARM_PUSH ((push_bit (unat r1) 1) OR (push_bit (unat r2) 1) OR
     (push_bit (unat r3) 1) OR (push_bit (unat r4) 1) OR (push_bit (unat r5) 1) OR (push_bit (unat
     r6) 1) OR (push_bit (unat r7) 1))"

definition ARM_PUSH8 :: "u32 \<Rightarrow> u32 \<Rightarrow> u32 \<Rightarrow> u32 \<Rightarrow>
     u32 \<Rightarrow> u32 \<Rightarrow> u32 \<Rightarrow> u32 \<Rightarrow> code \<Rightarrow>
     code option" where
  "ARM_PUSH8 r1 r2 r3 r4 r5 r6 r7 r8 = ARM_PUSH ((push_bit (unat r1) 1) OR (push_bit (unat r2) 1)
     OR (push_bit (unat r3) 1) OR (push_bit (unat r4) 1) OR (push_bit (unat r5) 1) OR (push_bit
     (unat r6) 1) OR (push_bit (unat r7) 1) OR (push_bit (unat r8) 1))"

definition ARM_POP8 :: "u32 \<Rightarrow> u32 \<Rightarrow> u32 \<Rightarrow> u32 \<Rightarrow>
     u32 \<Rightarrow> u32 \<Rightarrow> u32 \<Rightarrow> u32 \<Rightarrow> code \<Rightarrow>
     code option" where
  "ARM_POP8 r1 r2 r3 r4 r5 r6 r7 r8 = ARM_POP ((push_bit (unat r1) 1) OR (push_bit (unat r2) 1) OR
     (push_bit (unat r3) 1) OR (push_bit (unat r4) 1) OR (push_bit (unat r5) 1) OR (push_bit (unat
     r6) 1) OR (push_bit (unat r7) 1) OR (push_bit (unat r8) 1))"

definition ARM_POP7 :: "u32 \<Rightarrow> u32 \<Rightarrow> u32 \<Rightarrow> u32 \<Rightarrow>
     u32 \<Rightarrow> u32 \<Rightarrow> u32 \<Rightarrow> code \<Rightarrow> code option" where
  "ARM_POP7 r1 r2 r3 r4 r5 r6 r7 = ARM_POP ((push_bit (unat r1) 1) OR (push_bit (unat r2) 1) OR
     (push_bit (unat r3) 1) OR (push_bit (unat r4) 1) OR (push_bit (unat r5) 1) OR (push_bit (unat
     r6) 1) OR (push_bit (unat r7) 1))"

definition ARM_POP6 :: "u32 \<Rightarrow> u32 \<Rightarrow> u32 \<Rightarrow> u32 \<Rightarrow>
     u32 \<Rightarrow> u32 \<Rightarrow> code \<Rightarrow> code option" where
  "ARM_POP6 r1 r2 r3 r4 r5 r6 = ARM_POP ((push_bit (unat r1) 1) OR (push_bit (unat r2) 1) OR
     (push_bit (unat r3) 1) OR (push_bit (unat r4) 1) OR (push_bit (unat r5) 1) OR (push_bit (unat
     r6) 1))"

definition ARM_POP5 :: "u32 \<Rightarrow> u32 \<Rightarrow> u32 \<Rightarrow> u32 \<Rightarrow>
     u32 \<Rightarrow> code \<Rightarrow> code option" where
  "ARM_POP5 r1 r2 r3 r4 r5 = ARM_POP ((push_bit (unat r1) 1) OR (push_bit (unat r2) 1) OR
     (push_bit (unat r3) 1) OR (push_bit (unat r4) 1) OR (push_bit (unat r5) 1))"

definition ARM_POP4 :: "u32 \<Rightarrow> u32 \<Rightarrow> u32 \<Rightarrow> u32 \<Rightarrow>
     code \<Rightarrow> code option" where
  "ARM_POP4 r1 r2 r3 r4 = ARM_POP ((push_bit (unat r1) 1) OR (push_bit (unat r2) 1) OR (push_bit
     (unat r3) 1) OR (push_bit (unat r4) 1))"

definition ARM_POP3 :: "u32 \<Rightarrow> u32 \<Rightarrow> u32 \<Rightarrow> code \<Rightarrow>
     code option" where
  "ARM_POP3 r1 r2 r3 = ARM_POP ((push_bit (unat r1) 1) OR (push_bit (unat r2) 1) OR (push_bit
     (unat r3) 1))"

definition ARM_POP2 :: "u32 \<Rightarrow> u32 \<Rightarrow> code \<Rightarrow> code option" where
  "ARM_POP2 r1 r2 = ARM_POP ((push_bit (unat r1) 1) OR (push_bit (unat r2) 1))"

definition ARM_POP1 :: "u32 \<Rightarrow> code \<Rightarrow> code option" where
  "ARM_POP1 r1 = ARM_POP (push_bit (unat r1) 1)"

section \<open>Multiplication\<close>

definition ARM_MUL_COND :: "u32 \<Rightarrow> u32 \<Rightarrow> u32 \<Rightarrow> u32
     \<Rightarrow> code \<Rightarrow> code option" where
  "ARM_MUL_COND rd rm rs cond = ARM_EMIT (ARM_DEF_MUL_COND (ARMOpcode_val ARMOP_MUL) rd rm rs 0 0
     cond)"

definition ARM_UMULL_COND :: "u32 \<Rightarrow> u32 \<Rightarrow> u32 \<Rightarrow> u32
     \<Rightarrow> u32 \<Rightarrow> code \<Rightarrow> code option" where
  "ARM_UMULL_COND rdhi rdlo rm rs cond = ARM_EMIT (ARM_DEF_MUL_COND (ARMOpcode_val ARMOP_UMULL)
     rdhi rm rs rdlo 0 cond)"

definition ARM_SMULL_COND :: "u32 \<Rightarrow> u32 \<Rightarrow> u32 \<Rightarrow> u32
     \<Rightarrow> u32 \<Rightarrow> code \<Rightarrow> code option" where
  "ARM_SMULL_COND rdhi rdlo rm rs cond = ARM_EMIT (ARM_DEF_MUL_COND (ARMOpcode_val ARMOP_SMULL)
     rdhi rm rs rdlo 0 cond)"

definition ARM_MUL :: "u32 \<Rightarrow> u32 \<Rightarrow> u32 \<Rightarrow> code \<Rightarrow>
     code option" where
  "ARM_MUL rd rm rs = ARM_MUL_COND rd rm rs AL"

definition ARM_UMULL :: "u32 \<Rightarrow> u32 \<Rightarrow> u32 \<Rightarrow> u32 \<Rightarrow>
     code \<Rightarrow> code option" where
  "ARM_UMULL rdhi rdlo rm rs = ARM_UMULL_COND rdhi rdlo rm rs AL"

definition ARM_SMULL :: "u32 \<Rightarrow> u32 \<Rightarrow> u32 \<Rightarrow> u32 \<Rightarrow>
     code \<Rightarrow> code option" where
  "ARM_SMULL rdhi rdlo rm rs = ARM_SMULL_COND rdhi rdlo rm rs AL"

definition ARM_MULS_COND :: "u32 \<Rightarrow> u32 \<Rightarrow> u32 \<Rightarrow> u32
     \<Rightarrow> code \<Rightarrow> code option" where
  "ARM_MULS_COND rd rm rs cond = ARM_EMIT (ARM_DEF_MUL_COND (ARMOpcode_val ARMOP_MUL) rd rm rs 0 1
     cond)"

definition ARM_MULS :: "u32 \<Rightarrow> u32 \<Rightarrow> u32 \<Rightarrow> code \<Rightarrow>
     code option" where
  "ARM_MULS rd rm rs = ARM_MULS_COND rd rm rs AL"

definition ARM_MUL_REG_REG :: "u32 \<Rightarrow> u32 \<Rightarrow> u32 \<Rightarrow> code
     \<Rightarrow> code option" where
  "ARM_MUL_REG_REG rd rm rs = ARM_MUL rd rm rs"

definition ARM_MULS_REG_REG :: "u32 \<Rightarrow> u32 \<Rightarrow> u32 \<Rightarrow> code
     \<Rightarrow> code option" where
  "ARM_MULS_REG_REG rd rm rs = ARM_MULS rd rm rs"

definition ARM_UMULL_REG_REG :: "u32 \<Rightarrow> u32 \<Rightarrow> u32 \<Rightarrow> u32
     \<Rightarrow> code \<Rightarrow> code option" where
  "ARM_UMULL_REG_REG rdhi rdlo rm rs = ARM_UMULL rdhi rdlo rm rs"

definition ARM_SMULL_REG_REG :: "u32 \<Rightarrow> u32 \<Rightarrow> u32 \<Rightarrow> u32
     \<Rightarrow> code \<Rightarrow> code option" where
  "ARM_SMULL_REG_REG rdhi rdlo rm rs = ARM_SMULL rdhi rdlo rm rs"

definition ARM_MLA_COND :: "u32 \<Rightarrow> u32 \<Rightarrow> u32 \<Rightarrow> u32
     \<Rightarrow> u32 \<Rightarrow> code \<Rightarrow> code option" where
  "ARM_MLA_COND rd rm rs rn cond = ARM_EMIT (ARM_DEF_MUL_COND (ARMOpcode_val ARMOP_MLA) rd rm rs
     rn 0 cond)"

definition ARM_MLA :: "u32 \<Rightarrow> u32 \<Rightarrow> u32 \<Rightarrow> u32 \<Rightarrow>
     code \<Rightarrow> code option" where
  "ARM_MLA rd rm rs rn = ARM_MLA_COND rd rm rs rn AL"

definition ARM_MLAS_COND :: "u32 \<Rightarrow> u32 \<Rightarrow> u32 \<Rightarrow> u32
     \<Rightarrow> u32 \<Rightarrow> code \<Rightarrow> code option" where
  "ARM_MLAS_COND rd rm rs rn cond = ARM_EMIT (ARM_DEF_MUL_COND (ARMOpcode_val ARMOP_MLA) rd rm rs
     rn 1 cond)"

definition ARM_MLAS :: "u32 \<Rightarrow> u32 \<Rightarrow> u32 \<Rightarrow> u32 \<Rightarrow>
     code \<Rightarrow> code option" where
  "ARM_MLAS rd rm rs rn = ARM_MLAS_COND rd rm rs rn AL"

section \<open>Word and byte transfers\<close>

text \<open>The offset is clamped to the range of the field first.\<close>

definition ARM_EMIT_WXFER_IMM ::
  "u32 \<Rightarrow> u32 \<Rightarrow> u32 \<Rightarrow> u32 \<Rightarrow> u32 \<Rightarrow> u32 \<Rightarrow> u32 \<Rightarrow> u32 \<Rightarrow> code \<Rightarrow> code option" where
  "ARM_EMIT_WXFER_IMM imm12 rd rn ls wb b p cond =
    (let imm12' = (if sint imm12 < - ARM_WXFER_MAX_OFFS then - ARM_WXFER_MAX_OFFS
                   else if sint imm12 > ARM_WXFER_MAX_OFFS then ARM_WXFER_MAX_OFFS
                   else sint imm12)
     in ARM_EMIT (ARM_DEF_WXFER_IMM (word_of_int imm12') rd rn ls wb b p cond))"

definition ARM_LDR_IMM_POST_COND :: "u32 \<Rightarrow> u32 \<Rightarrow> u32 \<Rightarrow> u32
     \<Rightarrow> code \<Rightarrow> code option" where
  "ARM_LDR_IMM_POST_COND rd rn imm cond = ARM_EMIT (ARM_DEF_WXFER_IMM imm rd rn (ARMOpcode_val
     ARMOP_LDR) 0 0 0 cond)"

definition ARM_LDR_IMM_POST :: "u32 \<Rightarrow> u32 \<Rightarrow> u32 \<Rightarrow> code
     \<Rightarrow> code option" where
  "ARM_LDR_IMM_POST rd rn imm = ARM_LDR_IMM_POST_COND rd rn imm AL"

definition ARM_LDRB_IMM_POST_COND :: "u32 \<Rightarrow> u32 \<Rightarrow> u32 \<Rightarrow> u32
     \<Rightarrow> code \<Rightarrow> code option" where
  "ARM_LDRB_IMM_POST_COND rd rn imm cond = ARM_EMIT (ARM_DEF_WXFER_IMM imm rd rn (ARMOpcode_val
     ARMOP_LDR) 0 1 0 cond)"

definition ARM_LDRB_IMM_POST :: "u32 \<Rightarrow> u32 \<Rightarrow> u32 \<Rightarrow> code
     \<Rightarrow> code option" where
  "ARM_LDRB_IMM_POST rd rn imm = ARM_LDRB_IMM_POST_COND rd rn imm AL"

definition ARM_LDR_IMM_COND :: "u32 \<Rightarrow> u32 \<Rightarrow> u32 \<Rightarrow> u32
     \<Rightarrow> code \<Rightarrow> code option" where
  "ARM_LDR_IMM_COND rd rn imm cond = ARM_EMIT (ARM_DEF_WXFER_IMM imm rd rn (ARMOpcode_val
     ARMOP_LDR) 0 0 1 cond)"

definition ARM_LDR_IMM :: "u32 \<Rightarrow> u32 \<Rightarrow> u32 \<Rightarrow> code
     \<Rightarrow> code option" where
  "ARM_LDR_IMM rd rn imm = ARM_LDR_IMM_COND rd rn imm AL"

definition ARM_LDRB_IMM_COND :: "u32 \<Rightarrow> u32 \<Rightarrow> u32 \<Rightarrow> u32
     \<Rightarrow> code \<Rightarrow> code option" where
  "ARM_LDRB_IMM_COND rd rn imm cond = ARM_EMIT (ARM_DEF_WXFER_IMM imm rd rn (ARMOpcode_val
     ARMOP_LDR) 0 1 1 cond)"

definition ARM_LDRB_IMM :: "u32 \<Rightarrow> u32 \<Rightarrow> u32 \<Rightarrow> code
     \<Rightarrow> code option" where
  "ARM_LDRB_IMM rd rn imm = ARM_LDRB_IMM_COND rd rn imm AL"

definition ARM_STR_IMM_POST_COND :: "u32 \<Rightarrow> u32 \<Rightarrow> u32 \<Rightarrow> u32
     \<Rightarrow> code \<Rightarrow> code option" where
  "ARM_STR_IMM_POST_COND rd rn imm cond = ARM_EMIT (ARM_DEF_WXFER_IMM imm rd rn (ARMOpcode_val
     ARMOP_STR) 0 0 0 cond)"

definition ARM_STR_IMM_POST :: "u32 \<Rightarrow> u32 \<Rightarrow> u32 \<Rightarrow> code
     \<Rightarrow> code option" where
  "ARM_STR_IMM_POST rd rn imm = ARM_STR_IMM_POST_COND rd rn imm AL"

definition ARM_STRB_IMM_POST_COND :: "u32 \<Rightarrow> u32 \<Rightarrow> u32 \<Rightarrow> u32
     \<Rightarrow> code \<Rightarrow> code option" where
  "ARM_STRB_IMM_POST_COND rd rn imm cond = ARM_EMIT (ARM_DEF_WXFER_IMM imm rd rn (ARMOpcode_val
     ARMOP_STR) 0 1 0 cond)"

definition ARM_STRB_IMM_POST :: "u32 \<Rightarrow> u32 \<Rightarrow> u32 \<Rightarrow> code
     \<Rightarrow> code option" where
  "ARM_STRB_IMM_POST rd rn imm = ARM_STRB_IMM_POST_COND rd rn imm AL"

definition ARM_STR_IMM_COND :: "u32 \<Rightarrow> u32 \<Rightarrow> u32 \<Rightarrow> u32
     \<Rightarrow> code \<Rightarrow> code option" where
  "ARM_STR_IMM_COND rd rn imm cond = ARM_EMIT_WXFER_IMM imm rd rn (ARMOpcode_val ARMOP_STR) 0 0 1
     cond"

definition ARM_STR_IMM :: "u32 \<Rightarrow> u32 \<Rightarrow> u32 \<Rightarrow> code
     \<Rightarrow> code option" where
  "ARM_STR_IMM rd rn imm = ARM_STR_IMM_COND rd rn imm AL"

definition ARM_STRB_IMM_COND :: "u32 \<Rightarrow> u32 \<Rightarrow> u32 \<Rightarrow> u32
     \<Rightarrow> code \<Rightarrow> code option" where
  "ARM_STRB_IMM_COND rd rn imm cond = ARM_EMIT (ARM_DEF_WXFER_IMM imm rd rn (ARMOpcode_val
     ARMOP_STR) 0 1 1 cond)"

definition ARM_STRB_IMM :: "u32 \<Rightarrow> u32 \<Rightarrow> u32 \<Rightarrow> code
     \<Rightarrow> code option" where
  "ARM_STRB_IMM rd rn imm = ARM_STRB_IMM_COND rd rn imm AL"

definition ARM_STR_IMM_WB_COND :: "u32 \<Rightarrow> u32 \<Rightarrow> u32 \<Rightarrow> u32
     \<Rightarrow> code \<Rightarrow> code option" where
  "ARM_STR_IMM_WB_COND rd rn imm cond = ARM_EMIT_WXFER_IMM imm rd rn (ARMOpcode_val ARMOP_STR) 1 0
     1 cond"

definition ARM_STR_IMM_WB :: "u32 \<Rightarrow> u32 \<Rightarrow> u32 \<Rightarrow> code
     \<Rightarrow> code option" where
  "ARM_STR_IMM_WB rd rn imm = ARM_STR_IMM_WB_COND rd rn imm AL"

definition ARM_LDR_REG_REG_SHIFT_COND :: "u32 \<Rightarrow> u32 \<Rightarrow> u32 \<Rightarrow>
     u32 \<Rightarrow> u32 \<Rightarrow> u32 \<Rightarrow> code \<Rightarrow> code option" where
  "ARM_LDR_REG_REG_SHIFT_COND rd rn rm shift_type shift cond = ARM_EMIT
     (ARM_DEF_WXFER_REG_REG_COND rm shift_type shift rd rn (ARMOpcode_val ARMOP_LDR) 0 0 1 cond)"

definition ARM_LDR_REG_REG_SHIFT :: "u32 \<Rightarrow> u32 \<Rightarrow> u32 \<Rightarrow> u32
     \<Rightarrow> u32 \<Rightarrow> code \<Rightarrow> code option" where
  "ARM_LDR_REG_REG_SHIFT rd rn rm shift_type shift = ARM_LDR_REG_REG_SHIFT_COND rd rn rm
     shift_type shift AL"

definition ARM_LDR_REG_REG :: "u32 \<Rightarrow> u32 \<Rightarrow> u32 \<Rightarrow> code
     \<Rightarrow> code option" where
  "ARM_LDR_REG_REG rd rn rm = ARM_LDR_REG_REG_SHIFT rd rn rm (ARMShiftType_val ARMSHIFT_LSL) 0"

definition ARM_LDRB_REG_REG_SHIFT_COND :: "u32 \<Rightarrow> u32 \<Rightarrow> u32 \<Rightarrow>
     u32 \<Rightarrow> u32 \<Rightarrow> u32 \<Rightarrow> code \<Rightarrow> code option" where
  "ARM_LDRB_REG_REG_SHIFT_COND rd rn rm shift_type shift cond = ARM_EMIT
     (ARM_DEF_WXFER_REG_REG_COND rm shift_type shift rd rn (ARMOpcode_val ARMOP_LDR) 0 1 1 cond)"

definition ARM_LDRB_REG_REG_SHIFT :: "u32 \<Rightarrow> u32 \<Rightarrow> u32 \<Rightarrow> u32
     \<Rightarrow> u32 \<Rightarrow> code \<Rightarrow> code option" where
  "ARM_LDRB_REG_REG_SHIFT rd rn rm shift_type shift = ARM_LDRB_REG_REG_SHIFT_COND rd rn rm
     shift_type shift AL"

definition ARM_LDRB_REG_REG :: "u32 \<Rightarrow> u32 \<Rightarrow> u32 \<Rightarrow> code
     \<Rightarrow> code option" where
  "ARM_LDRB_REG_REG rd rn rm = ARM_LDRB_REG_REG_SHIFT rd rn rm (ARMShiftType_val ARMSHIFT_LSL) 0"

definition ARM_STR_REG_REG_SHIFT_COND :: "u32 \<Rightarrow> u32 \<Rightarrow> u32 \<Rightarrow>
     u32 \<Rightarrow> u32 \<Rightarrow> u32 \<Rightarrow> code \<Rightarrow> code option" where
  "ARM_STR_REG_REG_SHIFT_COND rd rn rm shift_type shift cond = ARM_EMIT
     (ARM_DEF_WXFER_REG_REG_COND rm shift_type shift rd rn (ARMOpcode_val ARMOP_STR) 0 0 1 cond)"

definition ARM_STR_REG_REG_SHIFT :: "u32 \<Rightarrow> u32 \<Rightarrow> u32 \<Rightarrow> u32
     \<Rightarrow> u32 \<Rightarrow> code \<Rightarrow> code option" where
  "ARM_STR_REG_REG_SHIFT rd rn rm shift_type shift = ARM_STR_REG_REG_SHIFT_COND rd rn rm
     shift_type shift AL"

definition ARM_STR_REG_REG :: "u32 \<Rightarrow> u32 \<Rightarrow> u32 \<Rightarrow> code
     \<Rightarrow> code option" where
  "ARM_STR_REG_REG rd rn rm = ARM_STR_REG_REG_SHIFT rd rn rm (ARMShiftType_val ARMSHIFT_LSL) 0"

definition ARM_STRB_REG_REG_SHIFT_COND :: "u32 \<Rightarrow> u32 \<Rightarrow> u32 \<Rightarrow>
     u32 \<Rightarrow> u32 \<Rightarrow> u32 \<Rightarrow> code \<Rightarrow> code option" where
  "ARM_STRB_REG_REG_SHIFT_COND rd rn rm shift_type shift cond = ARM_EMIT
     (ARM_DEF_WXFER_REG_REG_COND rm shift_type shift rd rn (ARMOpcode_val ARMOP_STR) 0 1 1 cond)"

definition ARM_STRB_REG_REG_SHIFT :: "u32 \<Rightarrow> u32 \<Rightarrow> u32 \<Rightarrow> u32
     \<Rightarrow> u32 \<Rightarrow> code \<Rightarrow> code option" where
  "ARM_STRB_REG_REG_SHIFT rd rn rm shift_type shift = ARM_STRB_REG_REG_SHIFT_COND rd rn rm
     shift_type shift AL"

definition ARM_STRB_REG_REG :: "u32 \<Rightarrow> u32 \<Rightarrow> u32 \<Rightarrow> code
     \<Rightarrow> code option" where
  "ARM_STRB_REG_REG rd rn rm = ARM_STRB_REG_REG_SHIFT rd rn rm (ARMShiftType_val ARMSHIFT_LSL) 0"

section \<open>Half-word and signed transfers\<close>

definition ARM_LDRH_IMM_COND :: "u32 \<Rightarrow> u32 \<Rightarrow> u32 \<Rightarrow> u32
     \<Rightarrow> code \<Rightarrow> code option" where
  "ARM_LDRH_IMM_COND rd rn imm cond = ARM_EMIT (ARM_DEF_HXFER_IMM_COND imm 1 0 rd rn
     (ARMOpcode_val ARMOP_LDR) 0 1 cond)"

definition ARM_LDRH_IMM :: "u32 \<Rightarrow> u32 \<Rightarrow> u32 \<Rightarrow> code
     \<Rightarrow> code option" where
  "ARM_LDRH_IMM rd rn imm = ARM_LDRH_IMM_COND rd rn imm AL"

definition ARM_LDRSH_IMM_COND :: "u32 \<Rightarrow> u32 \<Rightarrow> u32 \<Rightarrow> u32
     \<Rightarrow> code \<Rightarrow> code option" where
  "ARM_LDRSH_IMM_COND rd rn imm cond = ARM_EMIT (ARM_DEF_HXFER_IMM_COND imm 1 1 rd rn
     (ARMOpcode_val ARMOP_LDR) 0 1 cond)"

definition ARM_LDRSH_IMM :: "u32 \<Rightarrow> u32 \<Rightarrow> u32 \<Rightarrow> code
     \<Rightarrow> code option" where
  "ARM_LDRSH_IMM rd rn imm = ARM_LDRSH_IMM_COND rd rn imm AL"

definition ARM_LDRSB_IMM_COND :: "u32 \<Rightarrow> u32 \<Rightarrow> u32 \<Rightarrow> u32
     \<Rightarrow> code \<Rightarrow> code option" where
  "ARM_LDRSB_IMM_COND rd rn imm cond = ARM_EMIT (ARM_DEF_HXFER_IMM_COND imm 0 1 rd rn
     (ARMOpcode_val ARMOP_LDR) 0 1 cond)"

definition ARM_LDRSB_IMM :: "u32 \<Rightarrow> u32 \<Rightarrow> u32 \<Rightarrow> code
     \<Rightarrow> code option" where
  "ARM_LDRSB_IMM rd rn imm = ARM_LDRSB_IMM_COND rd rn imm AL"

definition ARM_STRH_IMM_COND :: "u32 \<Rightarrow> u32 \<Rightarrow> u32 \<Rightarrow> u32
     \<Rightarrow> code \<Rightarrow> code option" where
  "ARM_STRH_IMM_COND rd rn imm cond = ARM_EMIT (ARM_DEF_HXFER_IMM_COND imm 1 0 rd rn
     (ARMOpcode_val ARMOP_STR) 0 1 cond)"

definition ARM_STRH_IMM :: "u32 \<Rightarrow> u32 \<Rightarrow> u32 \<Rightarrow> code
     \<Rightarrow> code option" where
  "ARM_STRH_IMM rd rn imm = ARM_STRH_IMM_COND rd rn imm AL"

definition ARM_LDRH_REG_REG_COND :: "u32 \<Rightarrow> u32 \<Rightarrow> u32 \<Rightarrow> u32
     \<Rightarrow> code \<Rightarrow> code option" where
  "ARM_LDRH_REG_REG_COND rd rm rn cond = ARM_EMIT (ARM_DEF_HXFER_REG_REG_COND rm 1 0 rd rn
     (ARMOpcode_val ARMOP_LDR) 0 1 cond)"

definition ARM_LDRH_REG_REG :: "u32 \<Rightarrow> u32 \<Rightarrow> u32 \<Rightarrow> code
     \<Rightarrow> code option" where
  "ARM_LDRH_REG_REG rd rm rn = ARM_LDRH_REG_REG_COND rd rm rn AL"

definition ARM_LDRSH_REG_REG_COND :: "u32 \<Rightarrow> u32 \<Rightarrow> u32 \<Rightarrow> u32
     \<Rightarrow> code \<Rightarrow> code option" where
  "ARM_LDRSH_REG_REG_COND rd rm rn cond = ARM_EMIT (ARM_DEF_HXFER_REG_REG_COND rm 1 1 rd rn
     (ARMOpcode_val ARMOP_LDR) 0 1 cond)"

definition ARM_LDRSH_REG_REG :: "u32 \<Rightarrow> u32 \<Rightarrow> u32 \<Rightarrow> code
     \<Rightarrow> code option" where
  "ARM_LDRSH_REG_REG rd rm rn = ARM_LDRSH_REG_REG_COND rd rm rn AL"

definition ARM_LDRSB_REG_REG_COND :: "u32 \<Rightarrow> u32 \<Rightarrow> u32 \<Rightarrow> u32
     \<Rightarrow> code \<Rightarrow> code option" where
  "ARM_LDRSB_REG_REG_COND rd rm rn cond = ARM_EMIT (ARM_DEF_HXFER_REG_REG_COND rm 0 1 rd rn
     (ARMOpcode_val ARMOP_LDR) 0 1 cond)"

definition ARM_LDRSB_REG_REG :: "u32 \<Rightarrow> u32 \<Rightarrow> u32 \<Rightarrow> code
     \<Rightarrow> code option" where
  "ARM_LDRSB_REG_REG rd rm rn = ARM_LDRSB_REG_REG_COND rd rm rn AL"

definition ARM_STRH_REG_REG_COND :: "u32 \<Rightarrow> u32 \<Rightarrow> u32 \<Rightarrow> u32
     \<Rightarrow> code \<Rightarrow> code option" where
  "ARM_STRH_REG_REG_COND rd rm rn cond = ARM_EMIT (ARM_DEF_HXFER_REG_REG_COND rm 1 0 rd rn
     (ARMOpcode_val ARMOP_STR) 0 1 cond)"

definition ARM_STRH_REG_REG :: "u32 \<Rightarrow> u32 \<Rightarrow> u32 \<Rightarrow> code
     \<Rightarrow> code option" where
  "ARM_STRH_REG_REG rd rm rn = ARM_STRH_REG_REG_COND rd rm rn AL"

end
