(* ===== verification/ArmDpi.thy ===== *)
theory ArmDpi
  imports ArmCodegen
begin

text \<open>
  \<open>mono/arch/arm/arm_dpimacros.h\<close>: for each data-processing operation the macros that emit it
  with every form of its second operand. The macros of one operation are one function: its
  cases are the S variant (\<open>True\<close>) or not and the form of the operand; the macro without
  \<open>_COND\<close> is the case \<open>cond = AL\<close>. The inline-assembler macros (\<open>_AND_...\<close>, here
  \<open>I_AND\<close>) are a function too. \<open>None\<close> stands for a call that does not compile or
  writes outside the buffer.
\<close>

section \<open>Operands and macro calls\<close>

datatype operand2 =
    Imm u32 u32             \<comment> \<open>imm8 ROR rot\<close>
  | Imm8 u32
  | Reg u32
  | ImmShift u32 u32 u32    \<comment> \<open>Rm, shift type, amount\<close>
  | RegShift u32 u32 u32    \<comment> \<open>Rm, shift type, Rs\<close>

text \<open>
  \<open>ARM_IASM\<close> expands to nothing outside Microsoft's compiler. A macro declared with \<open>n\<close>
  parameters can only be called with \<open>n\<close> arguments; the inline macros are declared with a
  first parameter \<open>p\<close> that they do not use.
\<close>

definition ARM_IASM :: "u32 \<Rightarrow> code \<Rightarrow> code option" where
  "ARM_IASM i = Some"

definition call_macro :: "nat \<Rightarrow> (u32 list \<Rightarrow> code \<Rightarrow> code option) \<Rightarrow> u32 list \<Rightarrow> code \<Rightarrow> code option" where
  "call_macro n body args = (if length args = n then body args else (\<lambda>c. None))"

definition ARM_IASM_DPIOP_REG_IMM8ROT_COND where
  "ARM_IASM_DPIOP_REG_IMM8ROT_COND = call_macro 7 (\<lambda>a. ARM_IASM (ARM_DEF_DPI_IMM_COND (a !
     4) (drop_bit 1 (a ! 5)) (a ! 2) (a ! 3) 0 (a ! 1) (a ! 6)))"

definition ARM_IASM_DPIOP_S_REG_IMM8ROT_COND where
  "ARM_IASM_DPIOP_S_REG_IMM8ROT_COND = call_macro 7 (\<lambda>a. ARM_IASM (ARM_DEF_DPI_IMM_COND (a
     ! 4) (drop_bit 1 (a ! 5)) (a ! 2) (a ! 3) 1 (a ! 1) (a ! 6)))"

definition ARM_IASM_DPIOP_REG_IMMSHIFT_COND where
  "ARM_IASM_DPIOP_REG_IMMSHIFT_COND = call_macro 8 (\<lambda>a. ARM_IASM
     (ARM_DEF_DPI_REG_IMMSHIFT_COND (a ! 4) (a ! 5) (a ! 6) (a ! 2) (a ! 3) 0 (a ! 1) (a ! 7)))"

definition ARM_IASM_DPIOP_S_REG_IMMSHIFT_COND where
  "ARM_IASM_DPIOP_S_REG_IMMSHIFT_COND = call_macro 8 (\<lambda>a. ARM_IASM
     (ARM_DEF_DPI_REG_IMMSHIFT_COND (a ! 4) (a ! 5) (a ! 6) (a ! 2) (a ! 3) 1 (a ! 1) (a ! 7)))"

definition ARM_IASM_DPIOP_REG_REG_COND where
  "ARM_IASM_DPIOP_REG_REG_COND = call_macro 6 (\<lambda>a. ARM_IASM (ARM_DEF_DPI_REG_IMMSHIFT_COND
     (a ! 4) (ARMShiftType_val ARMSHIFT_LSL) 0 (a ! 2) (a ! 3) 0 (a ! 1) (a ! 5)))"

text \<open>This one calls \<open>ARM_IASM_EMIT\<close>, which no header defines.\<close>

definition ARM_IASM_DPIOP_S_REG_REG_COND where
  "ARM_IASM_DPIOP_S_REG_REG_COND = call_macro 6 (\<lambda>a c. (None :: code option))"

definition ARM_IASM_DPIOP_REG_REGSHIFT_COND where
  "ARM_IASM_DPIOP_REG_REGSHIFT_COND = call_macro 8 (\<lambda>a. ARM_IASM
     (ARM_DEF_DPI_REG_REGSHIFT_COND (a ! 4) (a ! 5) (a ! 6) (a ! 2) (a ! 3) 0 (a ! 1) (a ! 7)))"

definition ARM_IASM_DPIOP_S_REG_REGSHIFT_COND where
  "ARM_IASM_DPIOP_S_REG_REGSHIFT_COND = call_macro 8 (\<lambda>a. ARM_IASM
     (ARM_DEF_DPI_REG_REGSHIFT_COND (a ! 4) (a ! 5) (a ! 6) (a ! 2) (a ! 3) 1 (a ! 1) (a ! 7)))"

section \<open>Moves\<close>

fun ARM_MOV :: "bool \<Rightarrow> u32 \<Rightarrow> operand2 \<Rightarrow> u32 \<Rightarrow> code \<Rightarrow> code option" where
  "ARM_MOV False rd (Imm imm8 rot) cond =
    ARM_DPIOP_REG_IMM8ROT_COND (ARMOpcode_val ARMOP_MOV) rd 0 imm8 rot cond"
| "ARM_MOV True rd (Imm imm8 rot) cond =
    ARM_DPIOP_S_REG_IMM8ROT_COND (ARMOpcode_val ARMOP_MOV) rd 0 imm8 rot cond"
| "ARM_MOV False rd (Imm8 imm8) cond =
    ARM_DPIOP_REG_IMM8ROT_COND (ARMOpcode_val ARMOP_MOV) rd 0 imm8 0 cond"
| "ARM_MOV True rd (Imm8 imm8) cond =
    ARM_DPIOP_S_REG_IMM8ROT_COND (ARMOpcode_val ARMOP_MOV) rd 0 imm8 0 cond"
| "ARM_MOV False rd (Reg rm) cond =
    ARM_DPIOP_REG_REG_COND (ARMOpcode_val ARMOP_MOV) rd 0 rm cond"
| "ARM_MOV True rd (Reg rm) cond =
    ARM_DPIOP_S_REG_REG_COND (ARMOpcode_val ARMOP_MOV) rd 0 rm cond"
| "ARM_MOV False rd (ImmShift rm shift_type imm_shift) cond =
    ARM_DPIOP_REG_IMMSHIFT_COND (ARMOpcode_val ARMOP_MOV) rd 0 rm shift_type imm_shift cond"
| "ARM_MOV True rd (ImmShift rm shift_type imm_shift) cond =
    ARM_DPIOP_S_REG_IMMSHIFT_COND (ARMOpcode_val ARMOP_MOV) rd 0 rm shift_type imm_shift cond"
| "ARM_MOV False rd (RegShift rm shift_type rs) cond =
    ARM_DPIOP_REG_REGSHIFT_COND (ARMOpcode_val ARMOP_MOV) rd 0 rm shift_type rs cond"
| "ARM_MOV True rd (RegShift rm shift_type rs) cond =
    ARM_DPIOP_S_REG_REGSHIFT_COND (ARMOpcode_val ARMOP_MOV) rd 0 rm shift_type rs cond"

fun I_MOV :: "bool \<Rightarrow> u32 \<Rightarrow> operand2 \<Rightarrow> u32 \<Rightarrow> code \<Rightarrow> code option" where
  "I_MOV False rd (Imm imm8 rot) cond =
    ARM_IASM_DPIOP_REG_IMM8ROT_COND [(ARMOpcode_val ARMOP_MOV), rd, 0, imm8, rot, cond]"
| "I_MOV True rd (Imm imm8 rot) cond =
    ARM_IASM_DPIOP_S_REG_IMM8ROT_COND [(ARMOpcode_val ARMOP_MOV), rd, 0, imm8, rot, cond]"
| "I_MOV False rd (Imm8 imm8) cond =
    ARM_IASM_DPIOP_REG_IMM8ROT_COND [(ARMOpcode_val ARMOP_MOV), rd, 0, imm8, 0, cond]"
| "I_MOV True rd (Imm8 imm8) cond =
    ARM_IASM_DPIOP_S_REG_IMM8ROT_COND [(ARMOpcode_val ARMOP_MOV), rd, 0, imm8, 0, cond]"
| "I_MOV False rd (Reg rm) cond =
    ARM_IASM_DPIOP_REG_REG_COND [(ARMOpcode_val ARMOP_MOV), rd, 0, rm, cond]"
| "I_MOV True rd (Reg rm) cond =
    ARM_IASM_DPIOP_S_REG_REG_COND [(ARMOpcode_val ARMOP_MOV), rd, 0, rm, cond]"
| "I_MOV False rd (ImmShift rm shift_type imm_shift) cond =
    ARM_IASM_DPIOP_REG_IMMSHIFT_COND [(ARMOpcode_val ARMOP_MOV), rd, 0, rm, shift_type, imm_shift, cond]"
| "I_MOV True rd (ImmShift rm shift_type imm_shift) cond =
    ARM_IASM_DPIOP_S_REG_IMMSHIFT_COND [(ARMOpcode_val ARMOP_MOV), rd, 0, rm, shift_type, imm_shift, cond]"
| "I_MOV False rd (RegShift rm shift_type rs) cond =
    ARM_IASM_DPIOP_REG_REGSHIFT_COND [(ARMOpcode_val ARMOP_MOV), rd, 0, rm, shift_type, rs, cond]"
| "I_MOV True rd (RegShift rm shift_type rs) cond =
    ARM_IASM_DPIOP_S_REG_REGSHIFT_COND [(ARMOpcode_val ARMOP_MOV), rd, 0, rm, shift_type, rs, cond]"

fun ARM_MVN :: "bool \<Rightarrow> u32 \<Rightarrow> operand2 \<Rightarrow> u32 \<Rightarrow> code \<Rightarrow> code option" where
  "ARM_MVN False rd (Imm imm8 rot) cond =
    ARM_DPIOP_REG_IMM8ROT_COND (ARMOpcode_val ARMOP_MVN) rd 0 imm8 rot cond"
| "ARM_MVN True rd (Imm imm8 rot) cond =
    ARM_DPIOP_S_REG_IMM8ROT_COND (ARMOpcode_val ARMOP_MVN) rd 0 imm8 rot cond"
| "ARM_MVN False rd (Imm8 imm8) cond =
    ARM_DPIOP_REG_IMM8ROT_COND (ARMOpcode_val ARMOP_MVN) rd 0 imm8 0 cond"
| "ARM_MVN True rd (Imm8 imm8) cond =
    ARM_DPIOP_S_REG_IMM8ROT_COND (ARMOpcode_val ARMOP_MVN) rd 0 imm8 0 cond"
| "ARM_MVN False rd (Reg rm) cond =
    ARM_DPIOP_REG_REG_COND (ARMOpcode_val ARMOP_MVN) rd 0 rm cond"
| "ARM_MVN True rd (Reg rm) cond =
    ARM_DPIOP_S_REG_REG_COND (ARMOpcode_val ARMOP_MVN) rd 0 rm cond"
| "ARM_MVN False rd (ImmShift rm shift_type imm_shift) cond =
    ARM_DPIOP_REG_IMMSHIFT_COND (ARMOpcode_val ARMOP_MVN) rd 0 rm shift_type imm_shift cond"
| "ARM_MVN True rd (ImmShift rm shift_type imm_shift) cond =
    ARM_DPIOP_S_REG_IMMSHIFT_COND (ARMOpcode_val ARMOP_MVN) rd 0 rm shift_type imm_shift cond"
| "ARM_MVN False rd (RegShift rm shift_type rs) cond =
    ARM_DPIOP_REG_REGSHIFT_COND (ARMOpcode_val ARMOP_MVN) rd 0 rm shift_type rs cond"
| "ARM_MVN True rd (RegShift rm shift_type rs) cond =
    ARM_DPIOP_S_REG_REGSHIFT_COND (ARMOpcode_val ARMOP_MVN) rd 0 rm shift_type rs cond"

fun I_MVN :: "bool \<Rightarrow> u32 \<Rightarrow> operand2 \<Rightarrow> u32 \<Rightarrow> code \<Rightarrow> code option" where
  "I_MVN False rd (Imm imm8 rot) cond =
    ARM_IASM_DPIOP_REG_IMM8ROT_COND [(ARMOpcode_val ARMOP_MVN), rd, 0, imm8, rot, cond]"
| "I_MVN True rd (Imm imm8 rot) cond =
    ARM_IASM_DPIOP_S_REG_IMM8ROT_COND [(ARMOpcode_val ARMOP_MVN), rd, 0, imm8, rot, cond]"
| "I_MVN False rd (Imm8 imm8) cond =
    ARM_IASM_DPIOP_REG_IMM8ROT_COND [(ARMOpcode_val ARMOP_MVN), rd, 0, imm8, 0, cond]"
| "I_MVN True rd (Imm8 imm8) cond =
    ARM_IASM_DPIOP_S_REG_IMM8ROT_COND [(ARMOpcode_val ARMOP_MVN), rd, 0, imm8, 0, cond]"
| "I_MVN False rd (Reg rm) cond =
    ARM_IASM_DPIOP_REG_REG_COND [(ARMOpcode_val ARMOP_MVN), rd, 0, rm, cond]"
| "I_MVN True rd (Reg rm) cond =
    ARM_IASM_DPIOP_S_REG_REG_COND [(ARMOpcode_val ARMOP_MVN), rd, 0, rm, cond]"
| "I_MVN False rd (ImmShift rm shift_type imm_shift) cond =
    ARM_IASM_DPIOP_REG_IMMSHIFT_COND [(ARMOpcode_val ARMOP_MVN), rd, 0, rm, shift_type, imm_shift, cond]"
| "I_MVN True rd (ImmShift rm shift_type imm_shift) cond =
    ARM_IASM_DPIOP_S_REG_IMMSHIFT_COND [(ARMOpcode_val ARMOP_MVN), rd, 0, rm, shift_type, imm_shift, cond]"
| "I_MVN False rd (RegShift rm shift_type rs) cond =
    ARM_IASM_DPIOP_REG_REGSHIFT_COND [(ARMOpcode_val ARMOP_MVN), rd, 0, rm, shift_type, rs, cond]"
| "I_MVN True rd (RegShift rm shift_type rs) cond =
    ARM_IASM_DPIOP_S_REG_REGSHIFT_COND [(ARMOpcode_val ARMOP_MVN), rd, 0, rm, shift_type, rs, cond]"

section \<open>Arithmetic and logic\<close>

text \<open>
  The macros for an operand shifted by a register name their parameter \<open>shift_type\<close> but pass
  on the identifier \<open>shift_t\<close>. It means whatever it means at the place of the call: the
  first argument, \<open>None\<close> if nothing of this name is in scope there.
\<close>

fun ARM_AND :: "u32 option \<Rightarrow> bool \<Rightarrow> u32 \<Rightarrow> u32 \<Rightarrow> operand2 \<Rightarrow> u32 \<Rightarrow> code \<Rightarrow> code option" where
  "ARM_AND shift_t False rd rn (Imm imm8 rot) cond =
    ARM_DPIOP_REG_IMM8ROT_COND (ARMOpcode_val ARMOP_AND) rd rn imm8 rot cond"
| "ARM_AND shift_t True rd rn (Imm imm8 rot) cond =
    ARM_DPIOP_S_REG_IMM8ROT_COND (ARMOpcode_val ARMOP_AND) rd rn imm8 rot cond"
| "ARM_AND shift_t False rd rn (Imm8 imm8) cond =
    ARM_DPIOP_REG_IMM8ROT_COND (ARMOpcode_val ARMOP_AND) rd rn imm8 0 cond"
| "ARM_AND shift_t True rd rn (Imm8 imm8) cond =
    ARM_DPIOP_S_REG_IMM8ROT_COND (ARMOpcode_val ARMOP_AND) rd rn imm8 0 cond"
| "ARM_AND shift_t False rd rn (Reg rm) cond =
    ARM_DPIOP_REG_REG_COND (ARMOpcode_val ARMOP_AND) rd rn rm cond"
| "ARM_AND shift_t True rd rn (Reg rm) cond =
    ARM_DPIOP_S_REG_REG_COND (ARMOpcode_val ARMOP_AND) rd rn rm cond"
| "ARM_AND shift_t False rd rn (ImmShift rm shift_type imm_shift) cond =
    ARM_DPIOP_REG_IMMSHIFT_COND (ARMOpcode_val ARMOP_AND) rd rn rm shift_type imm_shift cond"
| "ARM_AND shift_t True rd rn (ImmShift rm shift_type imm_shift) cond =
    ARM_DPIOP_S_REG_IMMSHIFT_COND (ARMOpcode_val ARMOP_AND) rd rn rm shift_type imm_shift cond"
| "ARM_AND shift_t False rd rn (RegShift rm shift_type rs) cond =
    (case shift_t of None \<Rightarrow> (\<lambda>c. None) | Some t \<Rightarrow> ARM_DPIOP_REG_REGSHIFT_COND (ARMOpcode_val ARMOP_AND) rd rn rm t rs cond)"
| "ARM_AND shift_t True rd rn (RegShift rm shift_type rs) cond =
    (case shift_t of None \<Rightarrow> (\<lambda>c. None) | Some t \<Rightarrow> ARM_DPIOP_S_REG_REGSHIFT_COND (ARMOpcode_val ARMOP_AND) rd rn rm t rs cond)"

fun I_AND :: "u32 option \<Rightarrow> bool \<Rightarrow> u32 \<Rightarrow> u32 \<Rightarrow> operand2 \<Rightarrow> u32 \<Rightarrow> code \<Rightarrow> code option" where
  "I_AND shift_t False rd rn (Imm imm8 rot) cond =
    ARM_IASM_DPIOP_REG_IMM8ROT_COND [(ARMOpcode_val ARMOP_AND), rd, rn, imm8, rot, cond]"
| "I_AND shift_t True rd rn (Imm imm8 rot) cond =
    ARM_IASM_DPIOP_S_REG_IMM8ROT_COND [(ARMOpcode_val ARMOP_AND), rd, rn, imm8, rot, cond]"
| "I_AND shift_t False rd rn (Imm8 imm8) cond =
    ARM_IASM_DPIOP_REG_IMM8ROT_COND [(ARMOpcode_val ARMOP_AND), rd, rn, imm8, 0, cond]"
| "I_AND shift_t True rd rn (Imm8 imm8) cond =
    ARM_IASM_DPIOP_S_REG_IMM8ROT_COND [(ARMOpcode_val ARMOP_AND), rd, rn, imm8, 0, cond]"
| "I_AND shift_t False rd rn (Reg rm) cond =
    ARM_IASM_DPIOP_REG_REG_COND [(ARMOpcode_val ARMOP_AND), rd, rn, rm, cond]"
| "I_AND shift_t True rd rn (Reg rm) cond =
    ARM_IASM_DPIOP_S_REG_REG_COND [(ARMOpcode_val ARMOP_AND), rd, rn, rm, cond]"
| "I_AND shift_t False rd rn (ImmShift rm shift_type imm_shift) cond =
    ARM_IASM_DPIOP_REG_IMMSHIFT_COND [(ARMOpcode_val ARMOP_AND), rd, rn, rm, shift_type, imm_shift, cond]"
| "I_AND shift_t True rd rn (ImmShift rm shift_type imm_shift) cond =
    ARM_IASM_DPIOP_S_REG_IMMSHIFT_COND [(ARMOpcode_val ARMOP_AND), rd, rn, rm, shift_type, imm_shift, cond]"
| "I_AND shift_t False rd rn (RegShift rm shift_type rs) cond =
    (case shift_t of None \<Rightarrow> (\<lambda>c. None) | Some t \<Rightarrow> ARM_IASM_DPIOP_REG_REGSHIFT_COND [(ARMOpcode_val ARMOP_AND), rd, rn, rm, t, rs, cond])"
| "I_AND shift_t True rd rn (RegShift rm shift_type rs) cond =
    (case shift_t of None \<Rightarrow> (\<lambda>c. None) | Some t \<Rightarrow> ARM_IASM_DPIOP_S_REG_REGSHIFT_COND [(ARMOpcode_val ARMOP_AND), rd, rn, rm, t, rs, cond])"

fun ARM_EOR :: "u32 option \<Rightarrow> bool \<Rightarrow> u32 \<Rightarrow> u32 \<Rightarrow> operand2 \<Rightarrow> u32 \<Rightarrow> code \<Rightarrow> code option" where
  "ARM_EOR shift_t False rd rn (Imm imm8 rot) cond =
    ARM_DPIOP_REG_IMM8ROT_COND (ARMOpcode_val ARMOP_EOR) rd rn imm8 rot cond"
| "ARM_EOR shift_t True rd rn (Imm imm8 rot) cond =
    ARM_DPIOP_S_REG_IMM8ROT_COND (ARMOpcode_val ARMOP_EOR) rd rn imm8 rot cond"
| "ARM_EOR shift_t False rd rn (Imm8 imm8) cond =
    ARM_DPIOP_REG_IMM8ROT_COND (ARMOpcode_val ARMOP_EOR) rd rn imm8 0 cond"
| "ARM_EOR shift_t True rd rn (Imm8 imm8) cond =
    ARM_DPIOP_S_REG_IMM8ROT_COND (ARMOpcode_val ARMOP_EOR) rd rn imm8 0 cond"
| "ARM_EOR shift_t False rd rn (Reg rm) cond =
    ARM_DPIOP_REG_REG_COND (ARMOpcode_val ARMOP_EOR) rd rn rm cond"
| "ARM_EOR shift_t True rd rn (Reg rm) cond =
    ARM_DPIOP_S_REG_REG_COND (ARMOpcode_val ARMOP_EOR) rd rn rm cond"
| "ARM_EOR shift_t False rd rn (ImmShift rm shift_type imm_shift) cond =
    ARM_DPIOP_REG_IMMSHIFT_COND (ARMOpcode_val ARMOP_EOR) rd rn rm shift_type imm_shift cond"
| "ARM_EOR shift_t True rd rn (ImmShift rm shift_type imm_shift) cond =
    ARM_DPIOP_S_REG_IMMSHIFT_COND (ARMOpcode_val ARMOP_EOR) rd rn rm shift_type imm_shift cond"
| "ARM_EOR shift_t False rd rn (RegShift rm shift_type rs) cond =
    (case shift_t of None \<Rightarrow> (\<lambda>c. None) | Some t \<Rightarrow> ARM_DPIOP_REG_REGSHIFT_COND (ARMOpcode_val ARMOP_EOR) rd rn rm t rs cond)"
| "ARM_EOR shift_t True rd rn (RegShift rm shift_type rs) cond =
    (case shift_t of None \<Rightarrow> (\<lambda>c. None) | Some t \<Rightarrow> ARM_DPIOP_S_REG_REGSHIFT_COND (ARMOpcode_val ARMOP_EOR) rd rn rm t rs cond)"

fun I_EOR :: "u32 option \<Rightarrow> bool \<Rightarrow> u32 \<Rightarrow> u32 \<Rightarrow> operand2 \<Rightarrow> u32 \<Rightarrow> code \<Rightarrow> code option" where
  "I_EOR shift_t False rd rn (Imm imm8 rot) cond =
    ARM_IASM_DPIOP_REG_IMM8ROT_COND [(ARMOpcode_val ARMOP_EOR), rd, rn, imm8, rot, cond]"
| "I_EOR shift_t True rd rn (Imm imm8 rot) cond =
    ARM_IASM_DPIOP_S_REG_IMM8ROT_COND [(ARMOpcode_val ARMOP_EOR), rd, rn, imm8, rot, cond]"
| "I_EOR shift_t False rd rn (Imm8 imm8) cond =
    ARM_IASM_DPIOP_REG_IMM8ROT_COND [(ARMOpcode_val ARMOP_EOR), rd, rn, imm8, 0, cond]"
| "I_EOR shift_t True rd rn (Imm8 imm8) cond =
    ARM_IASM_DPIOP_S_REG_IMM8ROT_COND [(ARMOpcode_val ARMOP_EOR), rd, rn, imm8, 0, cond]"
| "I_EOR shift_t False rd rn (Reg rm) cond =
    ARM_IASM_DPIOP_REG_REG_COND [(ARMOpcode_val ARMOP_EOR), rd, rn, rm, cond]"
| "I_EOR shift_t True rd rn (Reg rm) cond =
    ARM_IASM_DPIOP_S_REG_REG_COND [(ARMOpcode_val ARMOP_EOR), rd, rn, rm, cond]"
| "I_EOR shift_t False rd rn (ImmShift rm shift_type imm_shift) cond =
    ARM_IASM_DPIOP_REG_IMMSHIFT_COND [(ARMOpcode_val ARMOP_EOR), rd, rn, rm, shift_type, imm_shift, cond]"
| "I_EOR shift_t True rd rn (ImmShift rm shift_type imm_shift) cond =
    ARM_IASM_DPIOP_S_REG_IMMSHIFT_COND [(ARMOpcode_val ARMOP_EOR), rd, rn, rm, shift_type, imm_shift, cond]"
| "I_EOR shift_t False rd rn (RegShift rm shift_type rs) cond =
    (case shift_t of None \<Rightarrow> (\<lambda>c. None) | Some t \<Rightarrow> ARM_IASM_DPIOP_REG_REGSHIFT_COND [(ARMOpcode_val ARMOP_EOR), rd, rn, rm, t, rs, cond])"
| "I_EOR shift_t True rd rn (RegShift rm shift_type rs) cond =
    (case shift_t of None \<Rightarrow> (\<lambda>c. None) | Some t \<Rightarrow> ARM_IASM_DPIOP_S_REG_REGSHIFT_COND [(ARMOpcode_val ARMOP_EOR), rd, rn, rm, t, rs, cond])"

fun ARM_SUB :: "u32 option \<Rightarrow> bool \<Rightarrow> u32 \<Rightarrow> u32 \<Rightarrow> operand2 \<Rightarrow> u32 \<Rightarrow> code \<Rightarrow> code option" where
  "ARM_SUB shift_t False rd rn (Imm imm8 rot) cond =
    ARM_DPIOP_REG_IMM8ROT_COND (ARMOpcode_val ARMOP_SUB) rd rn imm8 rot cond"
| "ARM_SUB shift_t True rd rn (Imm imm8 rot) cond =
    ARM_DPIOP_S_REG_IMM8ROT_COND (ARMOpcode_val ARMOP_SUB) rd rn imm8 rot cond"
| "ARM_SUB shift_t False rd rn (Imm8 imm8) cond =
    ARM_DPIOP_REG_IMM8ROT_COND (ARMOpcode_val ARMOP_SUB) rd rn imm8 0 cond"
| "ARM_SUB shift_t True rd rn (Imm8 imm8) cond =
    ARM_DPIOP_S_REG_IMM8ROT_COND (ARMOpcode_val ARMOP_SUB) rd rn imm8 0 cond"
| "ARM_SUB shift_t False rd rn (Reg rm) cond =
    ARM_DPIOP_REG_REG_COND (ARMOpcode_val ARMOP_SUB) rd rn rm cond"
| "ARM_SUB shift_t True rd rn (Reg rm) cond =
    ARM_DPIOP_S_REG_REG_COND (ARMOpcode_val ARMOP_SUB) rd rn rm cond"
| "ARM_SUB shift_t False rd rn (ImmShift rm shift_type imm_shift) cond =
    ARM_DPIOP_REG_IMMSHIFT_COND (ARMOpcode_val ARMOP_SUB) rd rn rm shift_type imm_shift cond"
| "ARM_SUB shift_t True rd rn (ImmShift rm shift_type imm_shift) cond =
    ARM_DPIOP_S_REG_IMMSHIFT_COND (ARMOpcode_val ARMOP_SUB) rd rn rm shift_type imm_shift cond"
| "ARM_SUB shift_t False rd rn (RegShift rm shift_type rs) cond =
    (case shift_t of None \<Rightarrow> (\<lambda>c. None) | Some t \<Rightarrow> ARM_DPIOP_REG_REGSHIFT_COND (ARMOpcode_val ARMOP_SUB) rd rn rm t rs cond)"
| "ARM_SUB shift_t True rd rn (RegShift rm shift_type rs) cond =
    (case shift_t of None \<Rightarrow> (\<lambda>c. None) | Some t \<Rightarrow> ARM_DPIOP_S_REG_REGSHIFT_COND (ARMOpcode_val ARMOP_SUB) rd rn rm t rs cond)"

fun I_SUB :: "u32 option \<Rightarrow> bool \<Rightarrow> u32 \<Rightarrow> u32 \<Rightarrow> operand2 \<Rightarrow> u32 \<Rightarrow> code \<Rightarrow> code option" where
  "I_SUB shift_t False rd rn (Imm imm8 rot) cond =
    ARM_IASM_DPIOP_REG_IMM8ROT_COND [(ARMOpcode_val ARMOP_SUB), rd, rn, imm8, rot, cond]"
| "I_SUB shift_t True rd rn (Imm imm8 rot) cond =
    ARM_IASM_DPIOP_S_REG_IMM8ROT_COND [(ARMOpcode_val ARMOP_SUB), rd, rn, imm8, rot, cond]"
| "I_SUB shift_t False rd rn (Imm8 imm8) cond =
    ARM_IASM_DPIOP_REG_IMM8ROT_COND [(ARMOpcode_val ARMOP_SUB), rd, rn, imm8, 0, cond]"
| "I_SUB shift_t True rd rn (Imm8 imm8) cond =
    ARM_IASM_DPIOP_S_REG_IMM8ROT_COND [(ARMOpcode_val ARMOP_SUB), rd, rn, imm8, 0, cond]"
| "I_SUB shift_t False rd rn (Reg rm) cond =
    ARM_IASM_DPIOP_REG_REG_COND [(ARMOpcode_val ARMOP_SUB), rd, rn, rm, cond]"
| "I_SUB shift_t True rd rn (Reg rm) cond =
    ARM_IASM_DPIOP_S_REG_REG_COND [(ARMOpcode_val ARMOP_SUB), rd, rn, rm, cond]"
| "I_SUB shift_t False rd rn (ImmShift rm shift_type imm_shift) cond =
    ARM_IASM_DPIOP_REG_IMMSHIFT_COND [(ARMOpcode_val ARMOP_SUB), rd, rn, rm, shift_type, imm_shift, cond]"
| "I_SUB shift_t True rd rn (ImmShift rm shift_type imm_shift) cond =
    ARM_IASM_DPIOP_S_REG_IMMSHIFT_COND [(ARMOpcode_val ARMOP_SUB), rd, rn, rm, shift_type, imm_shift, cond]"
| "I_SUB shift_t False rd rn (RegShift rm shift_type rs) cond =
    (case shift_t of None \<Rightarrow> (\<lambda>c. None) | Some t \<Rightarrow> ARM_IASM_DPIOP_REG_REGSHIFT_COND [(ARMOpcode_val ARMOP_SUB), rd, rn, rm, t, rs, cond])"
| "I_SUB shift_t True rd rn (RegShift rm shift_type rs) cond =
    (case shift_t of None \<Rightarrow> (\<lambda>c. None) | Some t \<Rightarrow> ARM_IASM_DPIOP_S_REG_REGSHIFT_COND [(ARMOpcode_val ARMOP_SUB), rd, rn, rm, t, rs, cond])"

fun ARM_RSB :: "u32 option \<Rightarrow> bool \<Rightarrow> u32 \<Rightarrow> u32 \<Rightarrow> operand2 \<Rightarrow> u32 \<Rightarrow> code \<Rightarrow> code option" where
  "ARM_RSB shift_t False rd rn (Imm imm8 rot) cond =
    ARM_DPIOP_REG_IMM8ROT_COND (ARMOpcode_val ARMOP_RSB) rd rn imm8 rot cond"
| "ARM_RSB shift_t True rd rn (Imm imm8 rot) cond =
    ARM_DPIOP_S_REG_IMM8ROT_COND (ARMOpcode_val ARMOP_RSB) rd rn imm8 rot cond"
| "ARM_RSB shift_t False rd rn (Imm8 imm8) cond =
    ARM_DPIOP_REG_IMM8ROT_COND (ARMOpcode_val ARMOP_RSB) rd rn imm8 0 cond"
| "ARM_RSB shift_t True rd rn (Imm8 imm8) cond =
    ARM_DPIOP_S_REG_IMM8ROT_COND (ARMOpcode_val ARMOP_RSB) rd rn imm8 0 cond"
| "ARM_RSB shift_t False rd rn (Reg rm) cond =
    ARM_DPIOP_REG_REG_COND (ARMOpcode_val ARMOP_RSB) rd rn rm cond"
| "ARM_RSB shift_t True rd rn (Reg rm) cond =
    ARM_DPIOP_S_REG_REG_COND (ARMOpcode_val ARMOP_RSB) rd rn rm cond"
| "ARM_RSB shift_t False rd rn (ImmShift rm shift_type imm_shift) cond =
    ARM_DPIOP_REG_IMMSHIFT_COND (ARMOpcode_val ARMOP_RSB) rd rn rm shift_type imm_shift cond"
| "ARM_RSB shift_t True rd rn (ImmShift rm shift_type imm_shift) cond =
    ARM_DPIOP_S_REG_IMMSHIFT_COND (ARMOpcode_val ARMOP_RSB) rd rn rm shift_type imm_shift cond"
| "ARM_RSB shift_t False rd rn (RegShift rm shift_type rs) cond =
    (case shift_t of None \<Rightarrow> (\<lambda>c. None) | Some t \<Rightarrow> ARM_DPIOP_REG_REGSHIFT_COND (ARMOpcode_val ARMOP_RSB) rd rn rm t rs cond)"
| "ARM_RSB shift_t True rd rn (RegShift rm shift_type rs) cond =
    (case shift_t of None \<Rightarrow> (\<lambda>c. None) | Some t \<Rightarrow> ARM_DPIOP_S_REG_REGSHIFT_COND (ARMOpcode_val ARMOP_RSB) rd rn rm t rs cond)"

fun I_RSB :: "u32 option \<Rightarrow> bool \<Rightarrow> u32 \<Rightarrow> u32 \<Rightarrow> operand2 \<Rightarrow> u32 \<Rightarrow> code \<Rightarrow> code option" where
  "I_RSB shift_t False rd rn (Imm imm8 rot) cond =
    ARM_IASM_DPIOP_REG_IMM8ROT_COND [(ARMOpcode_val ARMOP_RSB), rd, rn, imm8, rot, cond]"
| "I_RSB shift_t True rd rn (Imm imm8 rot) cond =
    ARM_IASM_DPIOP_S_REG_IMM8ROT_COND [(ARMOpcode_val ARMOP_RSB), rd, rn, imm8, rot, cond]"
| "I_RSB shift_t False rd rn (Imm8 imm8) cond =
    ARM_IASM_DPIOP_REG_IMM8ROT_COND [(ARMOpcode_val ARMOP_RSB), rd, rn, imm8, 0, cond]"
| "I_RSB shift_t True rd rn (Imm8 imm8) cond =
    ARM_IASM_DPIOP_S_REG_IMM8ROT_COND [(ARMOpcode_val ARMOP_RSB), rd, rn, imm8, 0, cond]"
| "I_RSB shift_t False rd rn (Reg rm) cond =
    ARM_IASM_DPIOP_REG_REG_COND [(ARMOpcode_val ARMOP_RSB), rd, rn, rm, cond]"
| "I_RSB shift_t True rd rn (Reg rm) cond =
    ARM_IASM_DPIOP_S_REG_REG_COND [(ARMOpcode_val ARMOP_RSB), rd, rn, rm, cond]"
| "I_RSB shift_t False rd rn (ImmShift rm shift_type imm_shift) cond =
    ARM_IASM_DPIOP_REG_IMMSHIFT_COND [(ARMOpcode_val ARMOP_RSB), rd, rn, rm, shift_type, imm_shift, cond]"
| "I_RSB shift_t True rd rn (ImmShift rm shift_type imm_shift) cond =
    ARM_IASM_DPIOP_S_REG_IMMSHIFT_COND [(ARMOpcode_val ARMOP_RSB), rd, rn, rm, shift_type, imm_shift, cond]"
| "I_RSB shift_t False rd rn (RegShift rm shift_type rs) cond =
    (case shift_t of None \<Rightarrow> (\<lambda>c. None) | Some t \<Rightarrow> ARM_IASM_DPIOP_REG_REGSHIFT_COND [(ARMOpcode_val ARMOP_RSB), rd, rn, rm, t, rs, cond])"
| "I_RSB shift_t True rd rn (RegShift rm shift_type rs) cond =
    (case shift_t of None \<Rightarrow> (\<lambda>c. None) | Some t \<Rightarrow> ARM_IASM_DPIOP_S_REG_REGSHIFT_COND [(ARMOpcode_val ARMOP_RSB), rd, rn, rm, t, rs, cond])"

fun ARM_ADD :: "u32 option \<Rightarrow> bool \<Rightarrow> u32 \<Rightarrow> u32 \<Rightarrow> operand2 \<Rightarrow> u32 \<Rightarrow> code \<Rightarrow> code option" where
  "ARM_ADD shift_t False rd rn (Imm imm8 rot) cond =
    ARM_DPIOP_REG_IMM8ROT_COND (ARMOpcode_val ARMOP_ADD) rd rn imm8 rot cond"
| "ARM_ADD shift_t True rd rn (Imm imm8 rot) cond =
    ARM_DPIOP_S_REG_IMM8ROT_COND (ARMOpcode_val ARMOP_ADD) rd rn imm8 rot cond"
| "ARM_ADD shift_t False rd rn (Imm8 imm8) cond =
    ARM_DPIOP_REG_IMM8ROT_COND (ARMOpcode_val ARMOP_ADD) rd rn imm8 0 cond"
| "ARM_ADD shift_t True rd rn (Imm8 imm8) cond =
    ARM_DPIOP_S_REG_IMM8ROT_COND (ARMOpcode_val ARMOP_ADD) rd rn imm8 0 cond"
| "ARM_ADD shift_t False rd rn (Reg rm) cond =
    ARM_DPIOP_REG_REG_COND (ARMOpcode_val ARMOP_ADD) rd rn rm cond"
| "ARM_ADD shift_t True rd rn (Reg rm) cond =
    ARM_DPIOP_S_REG_REG_COND (ARMOpcode_val ARMOP_ADD) rd rn rm cond"
| "ARM_ADD shift_t False rd rn (ImmShift rm shift_type imm_shift) cond =
    ARM_DPIOP_REG_IMMSHIFT_COND (ARMOpcode_val ARMOP_ADD) rd rn rm shift_type imm_shift cond"
| "ARM_ADD shift_t True rd rn (ImmShift rm shift_type imm_shift) cond =
    ARM_DPIOP_S_REG_IMMSHIFT_COND (ARMOpcode_val ARMOP_ADD) rd rn rm shift_type imm_shift cond"
| "ARM_ADD shift_t False rd rn (RegShift rm shift_type rs) cond =
    (case shift_t of None \<Rightarrow> (\<lambda>c. None) | Some t \<Rightarrow> ARM_DPIOP_REG_REGSHIFT_COND (ARMOpcode_val ARMOP_ADD) rd rn rm t rs cond)"
| "ARM_ADD shift_t True rd rn (RegShift rm shift_type rs) cond =
    (case shift_t of None \<Rightarrow> (\<lambda>c. None) | Some t \<Rightarrow> ARM_DPIOP_S_REG_REGSHIFT_COND (ARMOpcode_val ARMOP_ADD) rd rn rm t rs cond)"

fun I_ADD :: "u32 option \<Rightarrow> bool \<Rightarrow> u32 \<Rightarrow> u32 \<Rightarrow> operand2 \<Rightarrow> u32 \<Rightarrow> code \<Rightarrow> code option" where
  "I_ADD shift_t False rd rn (Imm imm8 rot) cond =
    ARM_IASM_DPIOP_REG_IMM8ROT_COND [(ARMOpcode_val ARMOP_ADD), rd, rn, imm8, rot, cond]"
| "I_ADD shift_t True rd rn (Imm imm8 rot) cond =
    ARM_IASM_DPIOP_S_REG_IMM8ROT_COND [(ARMOpcode_val ARMOP_ADD), rd, rn, imm8, rot, cond]"
| "I_ADD shift_t False rd rn (Imm8 imm8) cond =
    ARM_IASM_DPIOP_REG_IMM8ROT_COND [(ARMOpcode_val ARMOP_ADD), rd, rn, imm8, 0, cond]"
| "I_ADD shift_t True rd rn (Imm8 imm8) cond =
    ARM_IASM_DPIOP_S_REG_IMM8ROT_COND [(ARMOpcode_val ARMOP_ADD), rd, rn, imm8, 0, cond]"
| "I_ADD shift_t False rd rn (Reg rm) cond =
    ARM_IASM_DPIOP_REG_REG_COND [(ARMOpcode_val ARMOP_ADD), rd, rn, rm, cond]"
| "I_ADD shift_t True rd rn (Reg rm) cond =
    ARM_IASM_DPIOP_S_REG_REG_COND [(ARMOpcode_val ARMOP_ADD), rd, rn, rm, cond]"
| "I_ADD shift_t False rd rn (ImmShift rm shift_type imm_shift) cond =
    ARM_IASM_DPIOP_REG_IMMSHIFT_COND [(ARMOpcode_val ARMOP_ADD), rd, rn, rm, shift_type, imm_shift, cond]"
| "I_ADD shift_t True rd rn (ImmShift rm shift_type imm_shift) cond =
    ARM_IASM_DPIOP_S_REG_IMMSHIFT_COND [(ARMOpcode_val ARMOP_ADD), rd, rn, rm, shift_type, imm_shift, cond]"
| "I_ADD shift_t False rd rn (RegShift rm shift_type rs) cond =
    (case shift_t of None \<Rightarrow> (\<lambda>c. None) | Some t \<Rightarrow> ARM_IASM_DPIOP_REG_REGSHIFT_COND [(ARMOpcode_val ARMOP_ADD), rd, rn, rm, t, rs, cond])"
| "I_ADD shift_t True rd rn (RegShift rm shift_type rs) cond =
    (case shift_t of None \<Rightarrow> (\<lambda>c. None) | Some t \<Rightarrow> ARM_IASM_DPIOP_S_REG_REGSHIFT_COND [(ARMOpcode_val ARMOP_ADD), rd, rn, rm, t, rs, cond])"

fun ARM_ADC :: "u32 option \<Rightarrow> bool \<Rightarrow> u32 \<Rightarrow> u32 \<Rightarrow> operand2 \<Rightarrow> u32 \<Rightarrow> code \<Rightarrow> code option" where
  "ARM_ADC shift_t False rd rn (Imm imm8 rot) cond =
    ARM_DPIOP_REG_IMM8ROT_COND (ARMOpcode_val ARMOP_ADC) rd rn imm8 rot cond"
| "ARM_ADC shift_t True rd rn (Imm imm8 rot) cond =
    ARM_DPIOP_S_REG_IMM8ROT_COND (ARMOpcode_val ARMOP_ADC) rd rn imm8 rot cond"
| "ARM_ADC shift_t False rd rn (Imm8 imm8) cond =
    ARM_DPIOP_REG_IMM8ROT_COND (ARMOpcode_val ARMOP_ADC) rd rn imm8 0 cond"
| "ARM_ADC shift_t True rd rn (Imm8 imm8) cond =
    ARM_DPIOP_S_REG_IMM8ROT_COND (ARMOpcode_val ARMOP_ADC) rd rn imm8 0 cond"
| "ARM_ADC shift_t False rd rn (Reg rm) cond =
    ARM_DPIOP_REG_REG_COND (ARMOpcode_val ARMOP_ADC) rd rn rm cond"
| "ARM_ADC shift_t True rd rn (Reg rm) cond =
    ARM_DPIOP_S_REG_REG_COND (ARMOpcode_val ARMOP_ADC) rd rn rm cond"
| "ARM_ADC shift_t False rd rn (ImmShift rm shift_type imm_shift) cond =
    ARM_DPIOP_REG_IMMSHIFT_COND (ARMOpcode_val ARMOP_ADC) rd rn rm shift_type imm_shift cond"
| "ARM_ADC shift_t True rd rn (ImmShift rm shift_type imm_shift) cond =
    ARM_DPIOP_S_REG_IMMSHIFT_COND (ARMOpcode_val ARMOP_ADC) rd rn rm shift_type imm_shift cond"
| "ARM_ADC shift_t False rd rn (RegShift rm shift_type rs) cond =
    (case shift_t of None \<Rightarrow> (\<lambda>c. None) | Some t \<Rightarrow> ARM_DPIOP_REG_REGSHIFT_COND (ARMOpcode_val ARMOP_ADC) rd rn rm t rs cond)"
| "ARM_ADC shift_t True rd rn (RegShift rm shift_type rs) cond =
    (case shift_t of None \<Rightarrow> (\<lambda>c. None) | Some t \<Rightarrow> ARM_DPIOP_S_REG_REGSHIFT_COND (ARMOpcode_val ARMOP_ADC) rd rn rm t rs cond)"

fun I_ADC :: "u32 option \<Rightarrow> bool \<Rightarrow> u32 \<Rightarrow> u32 \<Rightarrow> operand2 \<Rightarrow> u32 \<Rightarrow> code \<Rightarrow> code option" where
  "I_ADC shift_t False rd rn (Imm imm8 rot) cond =
    ARM_IASM_DPIOP_REG_IMM8ROT_COND [(ARMOpcode_val ARMOP_ADC), rd, rn, imm8, rot, cond]"
| "I_ADC shift_t True rd rn (Imm imm8 rot) cond =
    ARM_IASM_DPIOP_S_REG_IMM8ROT_COND [(ARMOpcode_val ARMOP_ADC), rd, rn, imm8, rot, cond]"
| "I_ADC shift_t False rd rn (Imm8 imm8) cond =
    ARM_IASM_DPIOP_REG_IMM8ROT_COND [(ARMOpcode_val ARMOP_ADC), rd, rn, imm8, 0, cond]"
| "I_ADC shift_t True rd rn (Imm8 imm8) cond =
    ARM_IASM_DPIOP_S_REG_IMM8ROT_COND [(ARMOpcode_val ARMOP_ADC), rd, rn, imm8, 0, cond]"
| "I_ADC shift_t False rd rn (Reg rm) cond =
    ARM_IASM_DPIOP_REG_REG_COND [(ARMOpcode_val ARMOP_ADC), rd, rn, rm, cond]"
| "I_ADC shift_t True rd rn (Reg rm) cond =
    ARM_IASM_DPIOP_S_REG_REG_COND [(ARMOpcode_val ARMOP_ADC), rd, rn, rm, cond]"
| "I_ADC shift_t False rd rn (ImmShift rm shift_type imm_shift) cond =
    ARM_IASM_DPIOP_REG_IMMSHIFT_COND [(ARMOpcode_val ARMOP_ADC), rd, rn, rm, shift_type, imm_shift, cond]"
| "I_ADC shift_t True rd rn (ImmShift rm shift_type imm_shift) cond =
    ARM_IASM_DPIOP_S_REG_IMMSHIFT_COND [(ARMOpcode_val ARMOP_ADC), rd, rn, rm, shift_type, imm_shift, cond]"
| "I_ADC shift_t False rd rn (RegShift rm shift_type rs) cond =
    (case shift_t of None \<Rightarrow> (\<lambda>c. None) | Some t \<Rightarrow> ARM_IASM_DPIOP_REG_REGSHIFT_COND [(ARMOpcode_val ARMOP_ADC), rd, rn, rm, t, rs, cond])"
| "I_ADC shift_t True rd rn (RegShift rm shift_type rs) cond =
    (case shift_t of None \<Rightarrow> (\<lambda>c. None) | Some t \<Rightarrow> ARM_IASM_DPIOP_S_REG_REGSHIFT_COND [(ARMOpcode_val ARMOP_ADC), rd, rn, rm, t, rs, cond])"

fun ARM_SBC :: "u32 option \<Rightarrow> bool \<Rightarrow> u32 \<Rightarrow> u32 \<Rightarrow> operand2 \<Rightarrow> u32 \<Rightarrow> code \<Rightarrow> code option" where
  "ARM_SBC shift_t False rd rn (Imm imm8 rot) cond =
    ARM_DPIOP_REG_IMM8ROT_COND (ARMOpcode_val ARMOP_SBC) rd rn imm8 rot cond"
| "ARM_SBC shift_t True rd rn (Imm imm8 rot) cond =
    ARM_DPIOP_S_REG_IMM8ROT_COND (ARMOpcode_val ARMOP_SBC) rd rn imm8 rot cond"
| "ARM_SBC shift_t False rd rn (Imm8 imm8) cond =
    ARM_DPIOP_REG_IMM8ROT_COND (ARMOpcode_val ARMOP_SBC) rd rn imm8 0 cond"
| "ARM_SBC shift_t True rd rn (Imm8 imm8) cond =
    ARM_DPIOP_S_REG_IMM8ROT_COND (ARMOpcode_val ARMOP_SBC) rd rn imm8 0 cond"
| "ARM_SBC shift_t False rd rn (Reg rm) cond =
    ARM_DPIOP_REG_REG_COND (ARMOpcode_val ARMOP_SBC) rd rn rm cond"
| "ARM_SBC shift_t True rd rn (Reg rm) cond =
    ARM_DPIOP_S_REG_REG_COND (ARMOpcode_val ARMOP_SBC) rd rn rm cond"
| "ARM_SBC shift_t False rd rn (ImmShift rm shift_type imm_shift) cond =
    ARM_DPIOP_REG_IMMSHIFT_COND (ARMOpcode_val ARMOP_SBC) rd rn rm shift_type imm_shift cond"
| "ARM_SBC shift_t True rd rn (ImmShift rm shift_type imm_shift) cond =
    ARM_DPIOP_S_REG_IMMSHIFT_COND (ARMOpcode_val ARMOP_SBC) rd rn rm shift_type imm_shift cond"
| "ARM_SBC shift_t False rd rn (RegShift rm shift_type rs) cond =
    (case shift_t of None \<Rightarrow> (\<lambda>c. None) | Some t \<Rightarrow> ARM_DPIOP_REG_REGSHIFT_COND (ARMOpcode_val ARMOP_SBC) rd rn rm t rs cond)"
| "ARM_SBC shift_t True rd rn (RegShift rm shift_type rs) cond =
    (case shift_t of None \<Rightarrow> (\<lambda>c. None) | Some t \<Rightarrow> ARM_DPIOP_S_REG_REGSHIFT_COND (ARMOpcode_val ARMOP_SBC) rd rn rm t rs cond)"

fun I_SBC :: "u32 option \<Rightarrow> bool \<Rightarrow> u32 \<Rightarrow> u32 \<Rightarrow> operand2 \<Rightarrow> u32 \<Rightarrow> code \<Rightarrow> code option" where
  "I_SBC shift_t False rd rn (Imm imm8 rot) cond =
    ARM_IASM_DPIOP_REG_IMM8ROT_COND [(ARMOpcode_val ARMOP_SBC), rd, rn, imm8, rot, cond]"
| "I_SBC shift_t True rd rn (Imm imm8 rot) cond =
    ARM_IASM_DPIOP_S_REG_IMM8ROT_COND [(ARMOpcode_val ARMOP_SBC), rd, rn, imm8, rot, cond]"
| "I_SBC shift_t False rd rn (Imm8 imm8) cond =
    ARM_IASM_DPIOP_REG_IMM8ROT_COND [(ARMOpcode_val ARMOP_SBC), rd, rn, imm8, 0, cond]"
| "I_SBC shift_t True rd rn (Imm8 imm8) cond =
    ARM_IASM_DPIOP_S_REG_IMM8ROT_COND [(ARMOpcode_val ARMOP_SBC), rd, rn, imm8, 0, cond]"
| "I_SBC shift_t False rd rn (Reg rm) cond =
    ARM_IASM_DPIOP_REG_REG_COND [(ARMOpcode_val ARMOP_SBC), rd, rn, rm, cond]"
| "I_SBC shift_t True rd rn (Reg rm) cond =
    ARM_IASM_DPIOP_S_REG_REG_COND [(ARMOpcode_val ARMOP_SBC), rd, rn, rm, cond]"
| "I_SBC shift_t False rd rn (ImmShift rm shift_type imm_shift) cond =
    ARM_IASM_DPIOP_REG_IMMSHIFT_COND [(ARMOpcode_val ARMOP_SBC), rd, rn, rm, shift_type, imm_shift, cond]"
| "I_SBC shift_t True rd rn (ImmShift rm shift_type imm_shift) cond =
    ARM_IASM_DPIOP_S_REG_IMMSHIFT_COND [(ARMOpcode_val ARMOP_SBC), rd, rn, rm, shift_type, imm_shift, cond]"
| "I_SBC shift_t False rd rn (RegShift rm shift_type rs) cond =
    (case shift_t of None \<Rightarrow> (\<lambda>c. None) | Some t \<Rightarrow> ARM_IASM_DPIOP_REG_REGSHIFT_COND [(ARMOpcode_val ARMOP_SBC), rd, rn, rm, t, rs, cond])"
| "I_SBC shift_t True rd rn (RegShift rm shift_type rs) cond =
    (case shift_t of None \<Rightarrow> (\<lambda>c. None) | Some t \<Rightarrow> ARM_IASM_DPIOP_S_REG_REGSHIFT_COND [(ARMOpcode_val ARMOP_SBC), rd, rn, rm, t, rs, cond])"

fun ARM_RSC :: "u32 option \<Rightarrow> bool \<Rightarrow> u32 \<Rightarrow> u32 \<Rightarrow> operand2 \<Rightarrow> u32 \<Rightarrow> code \<Rightarrow> code option" where
  "ARM_RSC shift_t False rd rn (Imm imm8 rot) cond =
    ARM_DPIOP_REG_IMM8ROT_COND (ARMOpcode_val ARMOP_RSC) rd rn imm8 rot cond"
| "ARM_RSC shift_t True rd rn (Imm imm8 rot) cond =
    ARM_DPIOP_S_REG_IMM8ROT_COND (ARMOpcode_val ARMOP_RSC) rd rn imm8 rot cond"
| "ARM_RSC shift_t False rd rn (Imm8 imm8) cond =
    ARM_DPIOP_REG_IMM8ROT_COND (ARMOpcode_val ARMOP_RSC) rd rn imm8 0 cond"
| "ARM_RSC shift_t True rd rn (Imm8 imm8) cond =
    ARM_DPIOP_S_REG_IMM8ROT_COND (ARMOpcode_val ARMOP_RSC) rd rn imm8 0 cond"
| "ARM_RSC shift_t False rd rn (Reg rm) cond =
    ARM_DPIOP_REG_REG_COND (ARMOpcode_val ARMOP_RSC) rd rn rm cond"
| "ARM_RSC shift_t True rd rn (Reg rm) cond =
    ARM_DPIOP_S_REG_REG_COND (ARMOpcode_val ARMOP_RSC) rd rn rm cond"
| "ARM_RSC shift_t False rd rn (ImmShift rm shift_type imm_shift) cond =
    ARM_DPIOP_REG_IMMSHIFT_COND (ARMOpcode_val ARMOP_RSC) rd rn rm shift_type imm_shift cond"
| "ARM_RSC shift_t True rd rn (ImmShift rm shift_type imm_shift) cond =
    ARM_DPIOP_S_REG_IMMSHIFT_COND (ARMOpcode_val ARMOP_RSC) rd rn rm shift_type imm_shift cond"
| "ARM_RSC shift_t False rd rn (RegShift rm shift_type rs) cond =
    (case shift_t of None \<Rightarrow> (\<lambda>c. None) | Some t \<Rightarrow> ARM_DPIOP_REG_REGSHIFT_COND (ARMOpcode_val ARMOP_RSC) rd rn rm t rs cond)"
| "ARM_RSC shift_t True rd rn (RegShift rm shift_type rs) cond =
    (case shift_t of None \<Rightarrow> (\<lambda>c. None) | Some t \<Rightarrow> ARM_DPIOP_S_REG_REGSHIFT_COND (ARMOpcode_val ARMOP_RSC) rd rn rm t rs cond)"

fun I_RSC :: "u32 option \<Rightarrow> bool \<Rightarrow> u32 \<Rightarrow> u32 \<Rightarrow> operand2 \<Rightarrow> u32 \<Rightarrow> code \<Rightarrow> code option" where
  "I_RSC shift_t False rd rn (Imm imm8 rot) cond =
    ARM_IASM_DPIOP_REG_IMM8ROT_COND [(ARMOpcode_val ARMOP_RSC), rd, rn, imm8, rot, cond]"
| "I_RSC shift_t True rd rn (Imm imm8 rot) cond =
    ARM_IASM_DPIOP_S_REG_IMM8ROT_COND [(ARMOpcode_val ARMOP_RSC), rd, rn, imm8, rot, cond]"
| "I_RSC shift_t False rd rn (Imm8 imm8) cond =
    ARM_IASM_DPIOP_REG_IMM8ROT_COND [(ARMOpcode_val ARMOP_RSC), rd, rn, imm8, 0, cond]"
| "I_RSC shift_t True rd rn (Imm8 imm8) cond =
    ARM_IASM_DPIOP_S_REG_IMM8ROT_COND [(ARMOpcode_val ARMOP_RSC), rd, rn, imm8, 0, cond]"
| "I_RSC shift_t False rd rn (Reg rm) cond =
    ARM_IASM_DPIOP_REG_REG_COND [(ARMOpcode_val ARMOP_RSC), rd, rn, rm, cond]"
| "I_RSC shift_t True rd rn (Reg rm) cond =
    ARM_IASM_DPIOP_S_REG_REG_COND [(ARMOpcode_val ARMOP_RSC), rd, rn, rm, cond]"
| "I_RSC shift_t False rd rn (ImmShift rm shift_type imm_shift) cond =
    ARM_IASM_DPIOP_REG_IMMSHIFT_COND [(ARMOpcode_val ARMOP_RSC), rd, rn, rm, shift_type, imm_shift, cond]"
| "I_RSC shift_t True rd rn (ImmShift rm shift_type imm_shift) cond =
    ARM_IASM_DPIOP_S_REG_IMMSHIFT_COND [(ARMOpcode_val ARMOP_RSC), rd, rn, rm, shift_type, imm_shift, cond]"
| "I_RSC shift_t False rd rn (RegShift rm shift_type rs) cond =
    (case shift_t of None \<Rightarrow> (\<lambda>c. None) | Some t \<Rightarrow> ARM_IASM_DPIOP_REG_REGSHIFT_COND [(ARMOpcode_val ARMOP_RSC), rd, rn, rm, t, rs, cond])"
| "I_RSC shift_t True rd rn (RegShift rm shift_type rs) cond =
    (case shift_t of None \<Rightarrow> (\<lambda>c. None) | Some t \<Rightarrow> ARM_IASM_DPIOP_S_REG_REGSHIFT_COND [(ARMOpcode_val ARMOP_RSC), rd, rn, rm, t, rs, cond])"

fun ARM_ORR :: "u32 option \<Rightarrow> bool \<Rightarrow> u32 \<Rightarrow> u32 \<Rightarrow> operand2 \<Rightarrow> u32 \<Rightarrow> code \<Rightarrow> code option" where
  "ARM_ORR shift_t False rd rn (Imm imm8 rot) cond =
    ARM_DPIOP_REG_IMM8ROT_COND (ARMOpcode_val ARMOP_ORR) rd rn imm8 rot cond"
| "ARM_ORR shift_t True rd rn (Imm imm8 rot) cond =
    ARM_DPIOP_S_REG_IMM8ROT_COND (ARMOpcode_val ARMOP_ORR) rd rn imm8 rot cond"
| "ARM_ORR shift_t False rd rn (Imm8 imm8) cond =
    ARM_DPIOP_REG_IMM8ROT_COND (ARMOpcode_val ARMOP_ORR) rd rn imm8 0 cond"
| "ARM_ORR shift_t True rd rn (Imm8 imm8) cond =
    ARM_DPIOP_S_REG_IMM8ROT_COND (ARMOpcode_val ARMOP_ORR) rd rn imm8 0 cond"
| "ARM_ORR shift_t False rd rn (Reg rm) cond =
    ARM_DPIOP_REG_REG_COND (ARMOpcode_val ARMOP_ORR) rd rn rm cond"
| "ARM_ORR shift_t True rd rn (Reg rm) cond =
    ARM_DPIOP_S_REG_REG_COND (ARMOpcode_val ARMOP_ORR) rd rn rm cond"
| "ARM_ORR shift_t False rd rn (ImmShift rm shift_type imm_shift) cond =
    ARM_DPIOP_REG_IMMSHIFT_COND (ARMOpcode_val ARMOP_ORR) rd rn rm shift_type imm_shift cond"
| "ARM_ORR shift_t True rd rn (ImmShift rm shift_type imm_shift) cond =
    ARM_DPIOP_S_REG_IMMSHIFT_COND (ARMOpcode_val ARMOP_ORR) rd rn rm shift_type imm_shift cond"
| "ARM_ORR shift_t False rd rn (RegShift rm shift_type rs) cond =
    (case shift_t of None \<Rightarrow> (\<lambda>c. None) | Some t \<Rightarrow> ARM_DPIOP_REG_REGSHIFT_COND (ARMOpcode_val ARMOP_ORR) rd rn rm t rs cond)"
| "ARM_ORR shift_t True rd rn (RegShift rm shift_type rs) cond =
    (case shift_t of None \<Rightarrow> (\<lambda>c. None) | Some t \<Rightarrow> ARM_DPIOP_S_REG_REGSHIFT_COND (ARMOpcode_val ARMOP_ORR) rd rn rm t rs cond)"

fun I_ORR :: "u32 option \<Rightarrow> bool \<Rightarrow> u32 \<Rightarrow> u32 \<Rightarrow> operand2 \<Rightarrow> u32 \<Rightarrow> code \<Rightarrow> code option" where
  "I_ORR shift_t False rd rn (Imm imm8 rot) cond =
    ARM_IASM_DPIOP_REG_IMM8ROT_COND [(ARMOpcode_val ARMOP_ORR), rd, rn, imm8, rot, cond]"
| "I_ORR shift_t True rd rn (Imm imm8 rot) cond =
    ARM_IASM_DPIOP_S_REG_IMM8ROT_COND [(ARMOpcode_val ARMOP_ORR), rd, rn, imm8, rot, cond]"
| "I_ORR shift_t False rd rn (Imm8 imm8) cond =
    ARM_IASM_DPIOP_REG_IMM8ROT_COND [(ARMOpcode_val ARMOP_ORR), rd, rn, imm8, 0, cond]"
| "I_ORR shift_t True rd rn (Imm8 imm8) cond =
    ARM_IASM_DPIOP_S_REG_IMM8ROT_COND [(ARMOpcode_val ARMOP_ORR), rd, rn, imm8, 0, cond]"
| "I_ORR shift_t False rd rn (Reg rm) cond =
    ARM_IASM_DPIOP_REG_REG_COND [(ARMOpcode_val ARMOP_ORR), rd, rn, rm, cond]"
| "I_ORR shift_t True rd rn (Reg rm) cond =
    ARM_IASM_DPIOP_S_REG_REG_COND [(ARMOpcode_val ARMOP_ORR), rd, rn, rm, cond]"
| "I_ORR shift_t False rd rn (ImmShift rm shift_type imm_shift) cond =
    ARM_IASM_DPIOP_REG_IMMSHIFT_COND [(ARMOpcode_val ARMOP_ORR), rd, rn, rm, shift_type, imm_shift, cond]"
| "I_ORR shift_t True rd rn (ImmShift rm shift_type imm_shift) cond =
    ARM_IASM_DPIOP_S_REG_IMMSHIFT_COND [(ARMOpcode_val ARMOP_ORR), rd, rn, rm, shift_type, imm_shift, cond]"
| "I_ORR shift_t False rd rn (RegShift rm shift_type rs) cond =
    (case shift_t of None \<Rightarrow> (\<lambda>c. None) | Some t \<Rightarrow> ARM_IASM_DPIOP_REG_REGSHIFT_COND [(ARMOpcode_val ARMOP_ORR), rd, rn, rm, t, rs, cond])"
| "I_ORR shift_t True rd rn (RegShift rm shift_type rs) cond =
    (case shift_t of None \<Rightarrow> (\<lambda>c. None) | Some t \<Rightarrow> ARM_IASM_DPIOP_S_REG_REGSHIFT_COND [(ARMOpcode_val ARMOP_ORR), rd, rn, rm, t, rs, cond])"

fun ARM_BIC :: "u32 option \<Rightarrow> bool \<Rightarrow> u32 \<Rightarrow> u32 \<Rightarrow> operand2 \<Rightarrow> u32 \<Rightarrow> code \<Rightarrow> code option" where
  "ARM_BIC shift_t False rd rn (Imm imm8 rot) cond =
    ARM_DPIOP_REG_IMM8ROT_COND (ARMOpcode_val ARMOP_BIC) rd rn imm8 rot cond"
| "ARM_BIC shift_t True rd rn (Imm imm8 rot) cond =
    ARM_DPIOP_S_REG_IMM8ROT_COND (ARMOpcode_val ARMOP_BIC) rd rn imm8 rot cond"
| "ARM_BIC shift_t False rd rn (Imm8 imm8) cond =
    ARM_DPIOP_REG_IMM8ROT_COND (ARMOpcode_val ARMOP_BIC) rd rn imm8 0 cond"
| "ARM_BIC shift_t True rd rn (Imm8 imm8) cond =
    ARM_DPIOP_S_REG_IMM8ROT_COND (ARMOpcode_val ARMOP_BIC) rd rn imm8 0 cond"
| "ARM_BIC shift_t False rd rn (Reg rm) cond =
    ARM_DPIOP_REG_REG_COND (ARMOpcode_val ARMOP_BIC) rd rn rm cond"
| "ARM_BIC shift_t True rd rn (Reg rm) cond =
    ARM_DPIOP_S_REG_REG_COND (ARMOpcode_val ARMOP_BIC) rd rn rm cond"
| "ARM_BIC shift_t False rd rn (ImmShift rm shift_type imm_shift) cond =
    ARM_DPIOP_REG_IMMSHIFT_COND (ARMOpcode_val ARMOP_BIC) rd rn rm shift_type imm_shift cond"
| "ARM_BIC shift_t True rd rn (ImmShift rm shift_type imm_shift) cond =
    ARM_DPIOP_S_REG_IMMSHIFT_COND (ARMOpcode_val ARMOP_BIC) rd rn rm shift_type imm_shift cond"
| "ARM_BIC shift_t False rd rn (RegShift rm shift_type rs) cond =
    (case shift_t of None \<Rightarrow> (\<lambda>c. None) | Some t \<Rightarrow> ARM_DPIOP_REG_REGSHIFT_COND (ARMOpcode_val ARMOP_BIC) rd rn rm t rs cond)"
| "ARM_BIC shift_t True rd rn (RegShift rm shift_type rs) cond =
    (case shift_t of None \<Rightarrow> (\<lambda>c. None) | Some t \<Rightarrow> ARM_DPIOP_S_REG_REGSHIFT_COND (ARMOpcode_val ARMOP_BIC) rd rn rm t rs cond)"

fun I_BIC :: "u32 option \<Rightarrow> bool \<Rightarrow> u32 \<Rightarrow> u32 \<Rightarrow> operand2 \<Rightarrow> u32 \<Rightarrow> code \<Rightarrow> code option" where
  "I_BIC shift_t False rd rn (Imm imm8 rot) cond =
    ARM_IASM_DPIOP_REG_IMM8ROT_COND [(ARMOpcode_val ARMOP_BIC), rd, rn, imm8, rot, cond]"
| "I_BIC shift_t True rd rn (Imm imm8 rot) cond =
    ARM_IASM_DPIOP_S_REG_IMM8ROT_COND [(ARMOpcode_val ARMOP_BIC), rd, rn, imm8, rot, cond]"
| "I_BIC shift_t False rd rn (Imm8 imm8) cond =
    ARM_IASM_DPIOP_REG_IMM8ROT_COND [(ARMOpcode_val ARMOP_BIC), rd, rn, imm8, 0, cond]"
| "I_BIC shift_t True rd rn (Imm8 imm8) cond =
    ARM_IASM_DPIOP_S_REG_IMM8ROT_COND [(ARMOpcode_val ARMOP_BIC), rd, rn, imm8, 0, cond]"
| "I_BIC shift_t False rd rn (Reg rm) cond =
    ARM_IASM_DPIOP_REG_REG_COND [(ARMOpcode_val ARMOP_BIC), rd, rn, rm, cond]"
| "I_BIC shift_t True rd rn (Reg rm) cond =
    ARM_IASM_DPIOP_S_REG_REG_COND [(ARMOpcode_val ARMOP_BIC), rd, rn, rm, cond]"
| "I_BIC shift_t False rd rn (ImmShift rm shift_type imm_shift) cond =
    ARM_IASM_DPIOP_REG_IMMSHIFT_COND [(ARMOpcode_val ARMOP_BIC), rd, rn, rm, shift_type, imm_shift, cond]"
| "I_BIC shift_t True rd rn (ImmShift rm shift_type imm_shift) cond =
    ARM_IASM_DPIOP_S_REG_IMMSHIFT_COND [(ARMOpcode_val ARMOP_BIC), rd, rn, rm, shift_type, imm_shift, cond]"
| "I_BIC shift_t False rd rn (RegShift rm shift_type rs) cond =
    (case shift_t of None \<Rightarrow> (\<lambda>c. None) | Some t \<Rightarrow> ARM_IASM_DPIOP_REG_REGSHIFT_COND [(ARMOpcode_val ARMOP_BIC), rd, rn, rm, t, rs, cond])"
| "I_BIC shift_t True rd rn (RegShift rm shift_type rs) cond =
    (case shift_t of None \<Rightarrow> (\<lambda>c. None) | Some t \<Rightarrow> ARM_IASM_DPIOP_S_REG_REGSHIFT_COND [(ARMOpcode_val ARMOP_BIC), rd, rn, rm, t, rs, cond])"

section \<open>Comparisons\<close>

text \<open>There are no macros for an operand shifted by a register.\<close>

fun ARM_TST :: "u32 \<Rightarrow> operand2 \<Rightarrow> u32 \<Rightarrow> code \<Rightarrow> code option" where
  "ARM_TST rn (Imm imm8 rot) cond =
    ARM_DPIOP_S_REG_IMM8ROT_COND (ARMOpcode_val ARMOP_TST) 0 rn imm8 rot cond"
| "ARM_TST rn (Imm8 imm8) cond =
    ARM_DPIOP_S_REG_IMM8ROT_COND (ARMOpcode_val ARMOP_TST) 0 rn imm8 0 cond"
| "ARM_TST rn (Reg rm) cond =
    ARM_DPIOP_S_REG_REG_COND (ARMOpcode_val ARMOP_TST) 0 rn rm cond"
| "ARM_TST rn (ImmShift rm shift_type imm_shift) cond =
    ARM_DPIOP_S_REG_IMMSHIFT_COND (ARMOpcode_val ARMOP_TST) 0 rn rm shift_type imm_shift cond"
| "ARM_TST rn (RegShift rm shift_type rs) cond = (\<lambda>c. None)"

fun I_TST :: "u32 \<Rightarrow> operand2 \<Rightarrow> u32 \<Rightarrow> code \<Rightarrow> code option" where
  "I_TST rn (Imm imm8 rot) cond =
    ARM_IASM_DPIOP_S_REG_IMM8ROT_COND [(ARMOpcode_val ARMOP_TST), 0, rn, imm8, rot, cond]"
| "I_TST rn (Imm8 imm8) cond =
    ARM_IASM_DPIOP_S_REG_IMM8ROT_COND [(ARMOpcode_val ARMOP_TST), 0, rn, imm8, 0, cond]"
| "I_TST rn (Reg rm) cond =
    ARM_IASM_DPIOP_S_REG_REG_COND [(ARMOpcode_val ARMOP_TST), 0, rn, rm, cond]"
| "I_TST rn (ImmShift rm shift_type imm_shift) cond =
    ARM_IASM_DPIOP_S_REG_IMMSHIFT_COND [(ARMOpcode_val ARMOP_TST), 0, rn, rm, shift_type, imm_shift, cond]"
| "I_TST rn (RegShift rm shift_type rs) cond = (\<lambda>c. None)"

fun ARM_TEQ :: "u32 \<Rightarrow> operand2 \<Rightarrow> u32 \<Rightarrow> code \<Rightarrow> code option" where
  "ARM_TEQ rn (Imm imm8 rot) cond =
    ARM_DPIOP_S_REG_IMM8ROT_COND (ARMOpcode_val ARMOP_TEQ) 0 rn imm8 rot cond"
| "ARM_TEQ rn (Imm8 imm8) cond =
    ARM_DPIOP_S_REG_IMM8ROT_COND (ARMOpcode_val ARMOP_TEQ) 0 rn imm8 0 cond"
| "ARM_TEQ rn (Reg rm) cond =
    ARM_DPIOP_S_REG_REG_COND (ARMOpcode_val ARMOP_TEQ) 0 rn rm cond"
| "ARM_TEQ rn (ImmShift rm shift_type imm_shift) cond =
    ARM_DPIOP_S_REG_IMMSHIFT_COND (ARMOpcode_val ARMOP_TEQ) 0 rn rm shift_type imm_shift cond"
| "ARM_TEQ rn (RegShift rm shift_type rs) cond = (\<lambda>c. None)"

fun I_TEQ :: "u32 \<Rightarrow> operand2 \<Rightarrow> u32 \<Rightarrow> code \<Rightarrow> code option" where
  "I_TEQ rn (Imm imm8 rot) cond =
    ARM_IASM_DPIOP_S_REG_IMM8ROT_COND [(ARMOpcode_val ARMOP_TEQ), 0, rn, imm8, rot, cond]"
| "I_TEQ rn (Imm8 imm8) cond =
    ARM_IASM_DPIOP_S_REG_IMM8ROT_COND [(ARMOpcode_val ARMOP_TEQ), 0, rn, imm8, 0, cond]"
| "I_TEQ rn (Reg rm) cond =
    ARM_IASM_DPIOP_S_REG_REG_COND [(ARMOpcode_val ARMOP_TEQ), 0, rn, rm, cond]"
| "I_TEQ rn (ImmShift rm shift_type imm_shift) cond =
    ARM_IASM_DPIOP_S_REG_IMMSHIFT_COND [(ARMOpcode_val ARMOP_TEQ), 0, rn, rm, shift_type, imm_shift, cond]"
| "I_TEQ rn (RegShift rm shift_type rs) cond = (\<lambda>c. None)"

fun ARM_CMP :: "u32 \<Rightarrow> operand2 \<Rightarrow> u32 \<Rightarrow> code \<Rightarrow> code option" where
  "ARM_CMP rn (Imm imm8 rot) cond =
    ARM_DPIOP_S_REG_IMM8ROT_COND (ARMOpcode_val ARMOP_CMP) 0 rn imm8 rot cond"
| "ARM_CMP rn (Imm8 imm8) cond =
    ARM_DPIOP_S_REG_IMM8ROT_COND (ARMOpcode_val ARMOP_CMP) 0 rn imm8 0 cond"
| "ARM_CMP rn (Reg rm) cond =
    ARM_DPIOP_S_REG_REG_COND (ARMOpcode_val ARMOP_CMP) 0 rn rm cond"
| "ARM_CMP rn (ImmShift rm shift_type imm_shift) cond =
    ARM_DPIOP_S_REG_IMMSHIFT_COND (ARMOpcode_val ARMOP_CMP) 0 rn rm shift_type imm_shift cond"
| "ARM_CMP rn (RegShift rm shift_type rs) cond = (\<lambda>c. None)"

fun I_CMP :: "u32 \<Rightarrow> operand2 \<Rightarrow> u32 \<Rightarrow> code \<Rightarrow> code option" where
  "I_CMP rn (Imm imm8 rot) cond =
    ARM_IASM_DPIOP_S_REG_IMM8ROT_COND [(ARMOpcode_val ARMOP_CMP), 0, rn, imm8, rot, cond]"
| "I_CMP rn (Imm8 imm8) cond =
    ARM_IASM_DPIOP_S_REG_IMM8ROT_COND [(ARMOpcode_val ARMOP_CMP), 0, rn, imm8, 0, cond]"
| "I_CMP rn (Reg rm) cond =
    ARM_IASM_DPIOP_S_REG_REG_COND [(ARMOpcode_val ARMOP_CMP), 0, rn, rm, cond]"
| "I_CMP rn (ImmShift rm shift_type imm_shift) cond =
    ARM_IASM_DPIOP_S_REG_IMMSHIFT_COND [(ARMOpcode_val ARMOP_CMP), 0, rn, rm, shift_type, imm_shift, cond]"
| "I_CMP rn (RegShift rm shift_type rs) cond = (\<lambda>c. None)"

fun ARM_CMN :: "u32 \<Rightarrow> operand2 \<Rightarrow> u32 \<Rightarrow> code \<Rightarrow> code option" where
  "ARM_CMN rn (Imm imm8 rot) cond =
    ARM_DPIOP_S_REG_IMM8ROT_COND (ARMOpcode_val ARMOP_CMN) 0 rn imm8 rot cond"
| "ARM_CMN rn (Imm8 imm8) cond =
    ARM_DPIOP_S_REG_IMM8ROT_COND (ARMOpcode_val ARMOP_CMN) 0 rn imm8 0 cond"
| "ARM_CMN rn (Reg rm) cond =
    ARM_DPIOP_S_REG_REG_COND (ARMOpcode_val ARMOP_CMN) 0 rn rm cond"
| "ARM_CMN rn (ImmShift rm shift_type imm_shift) cond =
    ARM_DPIOP_S_REG_IMMSHIFT_COND (ARMOpcode_val ARMOP_CMN) 0 rn rm shift_type imm_shift cond"
| "ARM_CMN rn (RegShift rm shift_type rs) cond = (\<lambda>c. None)"

fun I_CMN :: "u32 \<Rightarrow> operand2 \<Rightarrow> u32 \<Rightarrow> code \<Rightarrow> code option" where
  "I_CMN rn (Imm imm8 rot) cond =
    ARM_IASM_DPIOP_S_REG_IMM8ROT_COND [(ARMOpcode_val ARMOP_CMN), 0, rn, imm8, rot, cond]"
| "I_CMN rn (Imm8 imm8) cond =
    ARM_IASM_DPIOP_S_REG_IMM8ROT_COND [(ARMOpcode_val ARMOP_CMN), 0, rn, imm8, 0, cond]"
| "I_CMN rn (Reg rm) cond =
    ARM_IASM_DPIOP_S_REG_REG_COND [(ARMOpcode_val ARMOP_CMN), 0, rn, rm, cond]"
| "I_CMN rn (ImmShift rm shift_type imm_shift) cond =
    ARM_IASM_DPIOP_S_REG_IMMSHIFT_COND [(ARMOpcode_val ARMOP_CMN), 0, rn, rm, shift_type, imm_shift, cond]"
| "I_CMN rn (RegShift rm shift_type rs) cond = (\<lambda>c. None)"

end
