(* ===== verification/ArmPseudo.thy ===== *)
theory ArmPseudo
  imports ArmDpi
begin

text \<open>
  The rest of the emitting macros of \<open>arm-codegen.h\<close>: shifts as moves, the pseudo
  instructions, wide moves, coprocessor transfers, division and the synchronisation
  instructions.
\<close>

definition ARM_NOP where
  "ARM_NOP = ARM_MOV False (ARMReg_val ARMREG_R0) (Reg (ARMReg_val ARMREG_R0)) AL"

definition ARM_SHL_IMM_COND :: "u32 \<Rightarrow> u32 \<Rightarrow> u32 \<Rightarrow> u32
     \<Rightarrow> code \<Rightarrow> code option" where
  "ARM_SHL_IMM_COND rd rm imm cond = ARM_MOV False rd (ImmShift rm (ARMShiftType_val ARMSHIFT_LSL)
     imm) cond"

definition ARM_SHL_IMM :: "u32 \<Rightarrow> u32 \<Rightarrow> u32 \<Rightarrow> code
     \<Rightarrow> code option" where
  "ARM_SHL_IMM rd rm imm = ARM_SHL_IMM_COND rd rm imm AL"

definition ARM_SHLS_IMM_COND :: "u32 \<Rightarrow> u32 \<Rightarrow> u32 \<Rightarrow> u32
     \<Rightarrow> code \<Rightarrow> code option" where
  "ARM_SHLS_IMM_COND rd rm imm cond = ARM_MOV True rd (ImmShift rm (ARMShiftType_val ARMSHIFT_LSL)
     imm) cond"

definition ARM_SHLS_IMM :: "u32 \<Rightarrow> u32 \<Rightarrow> u32 \<Rightarrow> code
     \<Rightarrow> code option" where
  "ARM_SHLS_IMM rd rm imm = ARM_SHLS_IMM_COND rd rm imm AL"

definition ARM_SHR_IMM_COND :: "u32 \<Rightarrow> u32 \<Rightarrow> u32 \<Rightarrow> u32
     \<Rightarrow> code \<Rightarrow> code option" where
  "ARM_SHR_IMM_COND rd rm imm cond = ARM_MOV False rd (ImmShift rm (ARMShiftType_val ARMSHIFT_LSR)
     imm) cond"

definition ARM_SHR_IMM :: "u32 \<Rightarrow> u32 \<Rightarrow> u32 \<Rightarrow> code
     \<Rightarrow> code option" where
  "ARM_SHR_IMM rd rm imm = ARM_SHR_IMM_COND rd rm imm AL"

definition ARM_SHRS_IMM_COND :: "u32 \<Rightarrow> u32 \<Rightarrow> u32 \<Rightarrow> u32
     \<Rightarrow> code \<Rightarrow> code option" where
  "ARM_SHRS_IMM_COND rd rm imm cond = ARM_MOV True rd (ImmShift rm (ARMShiftType_val ARMSHIFT_LSR)
     imm) cond"

definition ARM_SHRS_IMM :: "u32 \<Rightarrow> u32 \<Rightarrow> u32 \<Rightarrow> code
     \<Rightarrow> code option" where
  "ARM_SHRS_IMM rd rm imm = ARM_SHRS_IMM_COND rd rm imm AL"

definition ARM_SAR_IMM_COND :: "u32 \<Rightarrow> u32 \<Rightarrow> u32 \<Rightarrow> u32
     \<Rightarrow> code \<Rightarrow> code option" where
  "ARM_SAR_IMM_COND rd rm imm cond = ARM_MOV False rd (ImmShift rm (ARMShiftType_val ARMSHIFT_ASR)
     imm) cond"

definition ARM_SAR_IMM :: "u32 \<Rightarrow> u32 \<Rightarrow> u32 \<Rightarrow> code
     \<Rightarrow> code option" where
  "ARM_SAR_IMM rd rm imm = ARM_SAR_IMM_COND rd rm imm AL"

definition ARM_SARS_IMM_COND :: "u32 \<Rightarrow> u32 \<Rightarrow> u32 \<Rightarrow> u32
     \<Rightarrow> code \<Rightarrow> code option" where
  "ARM_SARS_IMM_COND rd rm imm cond = ARM_MOV True rd (ImmShift rm (ARMShiftType_val ARMSHIFT_ASR)
     imm) cond"

definition ARM_SARS_IMM :: "u32 \<Rightarrow> u32 \<Rightarrow> u32 \<Rightarrow> code
     \<Rightarrow> code option" where
  "ARM_SARS_IMM rd rm imm = ARM_SARS_IMM_COND rd rm imm AL"

definition ARM_ROR_IMM_COND :: "u32 \<Rightarrow> u32 \<Rightarrow> u32 \<Rightarrow> u32
     \<Rightarrow> code \<Rightarrow> code option" where
  "ARM_ROR_IMM_COND rd rm imm cond = ARM_MOV False rd (ImmShift rm (ARMShiftType_val ARMSHIFT_ROR)
     imm) cond"

definition ARM_ROR_IMM :: "u32 \<Rightarrow> u32 \<Rightarrow> u32 \<Rightarrow> code
     \<Rightarrow> code option" where
  "ARM_ROR_IMM rd rm imm = ARM_ROR_IMM_COND rd rm imm AL"

definition ARM_RORS_IMM_COND :: "u32 \<Rightarrow> u32 \<Rightarrow> u32 \<Rightarrow> u32
     \<Rightarrow> code \<Rightarrow> code option" where
  "ARM_RORS_IMM_COND rd rm imm cond = ARM_MOV True rd (ImmShift rm (ARMShiftType_val ARMSHIFT_ROR)
     imm) cond"

definition ARM_RORS_IMM :: "u32 \<Rightarrow> u32 \<Rightarrow> u32 \<Rightarrow> code
     \<Rightarrow> code option" where
  "ARM_RORS_IMM rd rm imm = ARM_RORS_IMM_COND rd rm imm AL"

definition ARM_SHL_REG_COND :: "u32 \<Rightarrow> u32 \<Rightarrow> u32 \<Rightarrow> u32
     \<Rightarrow> code \<Rightarrow> code option" where
  "ARM_SHL_REG_COND rd rm rs cond = ARM_MOV False rd (RegShift rm (ARMShiftType_val ARMSHIFT_LSL)
     rs) cond"

definition ARM_SHL_REG :: "u32 \<Rightarrow> u32 \<Rightarrow> u32 \<Rightarrow> code
     \<Rightarrow> code option" where
  "ARM_SHL_REG rd rm rs = ARM_SHL_REG_COND rd rm rs AL"

definition ARM_SHLS_REG_COND :: "u32 \<Rightarrow> u32 \<Rightarrow> u32 \<Rightarrow> u32
     \<Rightarrow> code \<Rightarrow> code option" where
  "ARM_SHLS_REG_COND rd rm rs cond = ARM_MOV True rd (RegShift rm (ARMShiftType_val ARMSHIFT_LSL)
     rs) cond"

definition ARM_SHLS_REG :: "u32 \<Rightarrow> u32 \<Rightarrow> u32 \<Rightarrow> code
     \<Rightarrow> code option" where
  "ARM_SHLS_REG rd rm rs = ARM_SHLS_REG_COND rd rm rs AL"

definition ARM_SHLS_REG_REG :: "u32 \<Rightarrow> u32 \<Rightarrow> u32 \<Rightarrow> code
     \<Rightarrow> code option" where
  "ARM_SHLS_REG_REG rd rm rs = ARM_SHLS_REG rd rm rs"

definition ARM_SHR_REG_COND :: "u32 \<Rightarrow> u32 \<Rightarrow> u32 \<Rightarrow> u32
     \<Rightarrow> code \<Rightarrow> code option" where
  "ARM_SHR_REG_COND rd rm rs cond = ARM_MOV False rd (RegShift rm (ARMShiftType_val ARMSHIFT_LSR)
     rs) cond"

definition ARM_SHR_REG :: "u32 \<Rightarrow> u32 \<Rightarrow> u32 \<Rightarrow> code
     \<Rightarrow> code option" where
  "ARM_SHR_REG rd rm rs = ARM_SHR_REG_COND rd rm rs AL"

definition ARM_SHRS_REG_COND :: "u32 \<Rightarrow> u32 \<Rightarrow> u32 \<Rightarrow> u32
     \<Rightarrow> code \<Rightarrow> code option" where
  "ARM_SHRS_REG_COND rd rm rs cond = ARM_MOV True rd (RegShift rm (ARMShiftType_val ARMSHIFT_LSR)
     rs) cond"

definition ARM_SHRS_REG :: "u32 \<Rightarrow> u32 \<Rightarrow> u32 \<Rightarrow> code
     \<Rightarrow> code option" where
  "ARM_SHRS_REG rd rm rs = ARM_SHRS_REG_COND rd rm rs AL"

definition ARM_SHRS_REG_REG :: "u32 \<Rightarrow> u32 \<Rightarrow> u32 \<Rightarrow> code
     \<Rightarrow> code option" where
  "ARM_SHRS_REG_REG rd rm rs = ARM_SHRS_REG rd rm rs"

definition ARM_SAR_REG_COND :: "u32 \<Rightarrow> u32 \<Rightarrow> u32 \<Rightarrow> u32
     \<Rightarrow> code \<Rightarrow> code option" where
  "ARM_SAR_REG_COND rd rm rs cond = ARM_MOV False rd (RegShift rm (ARMShiftType_val ARMSHIFT_ASR)
     rs) cond"

definition ARM_SAR_REG :: "u32 \<Rightarrow> u32 \<Rightarrow> u32 \<Rightarrow> code
     \<Rightarrow> code option" where
  "ARM_SAR_REG rd rm rs = ARM_SAR_REG_COND rd rm rs AL"

definition ARM_SARS_REG_COND :: "u32 \<Rightarrow> u32 \<Rightarrow> u32 \<Rightarrow> u32
     \<Rightarrow> code \<Rightarrow> code option" where
  "ARM_SARS_REG_COND rd rm rs cond = ARM_MOV True rd (RegShift rm (ARMShiftType_val ARMSHIFT_ASR)
     rs) cond"

definition ARM_SARS_REG :: "u32 \<Rightarrow> u32 \<Rightarrow> u32 \<Rightarrow> code
     \<Rightarrow> code option" where
  "ARM_SARS_REG rd rm rs = ARM_SARS_REG_COND rd rm rs AL"

definition ARM_SARS_REG_REG :: "u32 \<Rightarrow> u32 \<Rightarrow> u32 \<Rightarrow> code
     \<Rightarrow> code option" where
  "ARM_SARS_REG_REG rd rm rs = ARM_SARS_REG rd rm rs"

definition ARM_ROR_REG_COND :: "u32 \<Rightarrow> u32 \<Rightarrow> u32 \<Rightarrow> u32
     \<Rightarrow> code \<Rightarrow> code option" where
  "ARM_ROR_REG_COND rd rm rs cond = ARM_MOV False rd (RegShift rm (ARMShiftType_val ARMSHIFT_ROR)
     rs) cond"

definition ARM_ROR_REG :: "u32 \<Rightarrow> u32 \<Rightarrow> u32 \<Rightarrow> code
     \<Rightarrow> code option" where
  "ARM_ROR_REG rd rm rs = ARM_ROR_REG_COND rd rm rs AL"

definition ARM_RORS_REG_COND :: "u32 \<Rightarrow> u32 \<Rightarrow> u32 \<Rightarrow> u32
     \<Rightarrow> code \<Rightarrow> code option" where
  "ARM_RORS_REG_COND rd rm rs cond = ARM_MOV True rd (RegShift rm (ARMShiftType_val ARMSHIFT_ROR)
     rs) cond"

definition ARM_RORS_REG :: "u32 \<Rightarrow> u32 \<Rightarrow> u32 \<Rightarrow> code
     \<Rightarrow> code option" where
  "ARM_RORS_REG rd rm rs = ARM_RORS_REG_COND rd rm rs AL"

definition ARM_RORS_REG_REG :: "u32 \<Rightarrow> u32 \<Rightarrow> u32 \<Rightarrow> code
     \<Rightarrow> code option" where
  "ARM_RORS_REG_REG rd rm rs = ARM_RORS_REG rd rm rs"

definition ARM_DBRK :: "code \<Rightarrow> code option" where
  "ARM_DBRK = ARM_EMIT 0xE6000010"

definition ARM_MLS :: "u32 \<Rightarrow> u32 \<Rightarrow> u32 \<Rightarrow> u32 \<Rightarrow>
     code \<Rightarrow> code option" where
  "ARM_MLS rd rn rm ra = ARM_EMIT ((push_bit 28 AL) OR (push_bit 20 0x6) OR (push_bit 16 rd) OR
     (push_bit 12 ra) OR (push_bit 8 rm) OR (push_bit 4 0x9) OR (push_bit 0 rn))"

definition ARM_MOVW_REG_IMM_COND :: "u32 \<Rightarrow> u32 \<Rightarrow> u32 \<Rightarrow> code
     \<Rightarrow> code option" where
  "ARM_MOVW_REG_IMM_COND rd imm16 cond = ARM_EMIT ((push_bit 28 cond) OR (push_bit 24 3) OR
     (push_bit 20 0) OR (push_bit 16 (drop_bit 12 imm16)) OR (push_bit 12 rd) OR (imm16 AND
     0xfff))"

definition ARM_MOVW_REG_IMM :: "u32 \<Rightarrow> u32 \<Rightarrow> code \<Rightarrow> code
     option" where
  "ARM_MOVW_REG_IMM rd imm16 = ARM_MOVW_REG_IMM_COND rd imm16 AL"

definition ARM_MOVT_REG_IMM_COND :: "u32 \<Rightarrow> u32 \<Rightarrow> u32 \<Rightarrow> code
     \<Rightarrow> code option" where
  "ARM_MOVT_REG_IMM_COND rd imm16 cond = ARM_EMIT ((push_bit 28 cond) OR (push_bit 24 3) OR
     (push_bit 20 4) OR (push_bit 16 (drop_bit 12 imm16)) OR (push_bit 12 rd) OR (imm16 AND
     0xfff))"

definition ARM_MOVT_REG_IMM :: "u32 \<Rightarrow> u32 \<Rightarrow> code \<Rightarrow> code
     option" where
  "ARM_MOVT_REG_IMM rd imm16 = ARM_MOVT_REG_IMM_COND rd imm16 AL"

definition ARM_MCR_COND :: "u32 \<Rightarrow> u32 \<Rightarrow> u32 \<Rightarrow> u32
     \<Rightarrow> u32 \<Rightarrow> u32 \<Rightarrow> u32 \<Rightarrow> code \<Rightarrow> code
     option" where
  "ARM_MCR_COND coproc opc1 rt crn crm opc2 cond = ARM_EMIT (ARM_DEF_MCR_COND coproc opc1 rt crn
     crm opc2 cond)"

definition ARM_MCR :: "u32 \<Rightarrow> u32 \<Rightarrow> u32 \<Rightarrow> u32 \<Rightarrow> u32
     \<Rightarrow> u32 \<Rightarrow> code \<Rightarrow> code option" where
  "ARM_MCR coproc opc1 rt crn crm opc2 = ARM_MCR_COND coproc opc1 rt crn crm opc2 AL"

definition ARM_MRC_COND :: "u32 \<Rightarrow> u32 \<Rightarrow> u32 \<Rightarrow> u32
     \<Rightarrow> u32 \<Rightarrow> u32 \<Rightarrow> u32 \<Rightarrow> code \<Rightarrow> code
     option" where
  "ARM_MRC_COND coproc opc1 rt crn crm opc2 cond = ARM_EMIT (ARM_DEF_MRC_COND coproc opc1 rt crn
     crm opc2 cond)"

definition ARM_MRC :: "u32 \<Rightarrow> u32 \<Rightarrow> u32 \<Rightarrow> u32 \<Rightarrow> u32
     \<Rightarrow> u32 \<Rightarrow> code \<Rightarrow> code option" where
  "ARM_MRC coproc opc1 rt crn crm opc2 = ARM_MRC_COND coproc opc1 rt crn crm opc2 AL"

definition ARM_SDIV_COND :: "u32 \<Rightarrow> u32 \<Rightarrow> u32 \<Rightarrow> u32
     \<Rightarrow> code \<Rightarrow> code option" where
  "ARM_SDIV_COND rd rn rm cond = ARM_EMIT ((push_bit 28 cond) OR (push_bit 23 0xe) OR (push_bit 20
     0x1) OR (push_bit 16 rd) OR (push_bit 12 0xf) OR (push_bit 8 rm) OR (push_bit 5 0x0) OR
     (push_bit 4 0x1) OR (push_bit 0 rn))"

definition ARM_SDIV :: "u32 \<Rightarrow> u32 \<Rightarrow> u32 \<Rightarrow> code \<Rightarrow>
     code option" where
  "ARM_SDIV rd rn rm = ARM_SDIV_COND rd rn rm AL"

definition ARM_UDIV_COND :: "u32 \<Rightarrow> u32 \<Rightarrow> u32 \<Rightarrow> u32
     \<Rightarrow> code \<Rightarrow> code option" where
  "ARM_UDIV_COND rd rn rm cond = ARM_EMIT ((push_bit 28 cond) OR (push_bit 23 0xe) OR (push_bit 20
     0x3) OR (push_bit 16 rd) OR (push_bit 12 0xf) OR (push_bit 8 rm) OR (push_bit 5 0x0) OR
     (push_bit 4 0x1) OR (push_bit 0 rn))"

definition ARM_UDIV :: "u32 \<Rightarrow> u32 \<Rightarrow> u32 \<Rightarrow> code \<Rightarrow>
     code option" where
  "ARM_UDIV rd rn rm = ARM_UDIV_COND rd rn rm AL"

definition ARM_DMB :: "u32 \<Rightarrow> code \<Rightarrow> code option" where
  "ARM_DMB option = ARM_EMIT ((push_bit 28 0xf) OR (push_bit 20 0x57) OR (push_bit 16 0xf) OR
     (push_bit 12 0xf) OR (push_bit 8 0x0) OR (push_bit 4 0x5) OR (push_bit 0 option))"

definition ARM_LDREX_REG :: "u32 \<Rightarrow> u32 \<Rightarrow> code \<Rightarrow> code option"
     where
  "ARM_LDREX_REG rt rn = ARM_EMIT ((push_bit 28 AL) OR (push_bit 21 0xc) OR (push_bit 20 0x1) OR
     (push_bit 16 rn) OR (push_bit 12 rt) OR (push_bit 8 0xf) OR (push_bit 4 0x9) OR (push_bit 0
     0xf))"

definition ARM_STREX_REG :: "u32 \<Rightarrow> u32 \<Rightarrow> u32 \<Rightarrow> code
     \<Rightarrow> code option" where
  "ARM_STREX_REG rd rt rn = ARM_EMIT ((push_bit 28 AL) OR (push_bit 21 0xc) OR (push_bit 20 0x0)
     OR (push_bit 16 rn) OR (push_bit 12 rd) OR (push_bit 8 0xf) OR (push_bit 4 0x9) OR (push_bit
     0 rt))"

definition ARM_INC where
  "ARM_INC reg = ARM_ADD None False reg reg (Imm8 1) AL"

definition ARM_DEC where
  "ARM_DEC reg = ARM_SUB None False reg reg (Imm8 1) AL"

end
