(* ===== verification/ArmProps.thy ===== *)
theory ArmProps
  imports ArmPseudo
begin

text \<open>
  Properties of the ARM encoder: what each family of macros emits, read back through the
  structs, and the macros that do not do what their names say.
\<close>

section \<open>Emitting one word\<close>

lemma ARM_EMIT_at [simp]: "p < length buf \<Longrightarrow> ARM_EMIT i (p, buf) = Some (Suc p, buf[p := i])"
  by (simp add: ARM_EMIT_def)

lemma DPI_of_raw:
  assumes "fits 12 (dpi_op2 s)" "fits 4 (dpi_rd s)" "fits 4 (dpi_rn s)" "fits 1 (dpi_s s)"
    "fits 4 (dpi_opcode s)" "fits 1 (dpi_type s)" "fits 2 (dpi_tag s)" "fits 4 (dpi_cond s)"
  shows "ARMInstrDPI_of (ARMInstrDPI_raw s) = s"
  unfolding ARMInstrDPI_of_def ARMInstrDPI_raw_def
  by (rule dpi.decode_encode) (use assms in \<open>simp add: ARMInstrDPI_fields_def\<close>)

section \<open>Data processing\<close>

text \<open>The second operand as the 12 bits of the instruction and its type bit.\<close>

fun op2_word :: "operand2 \<Rightarrow> u32" where
  "op2_word (Imm imm8 rot) = pack [8, 4] [imm8, drop_bit 1 rot]"
| "op2_word (Imm8 imm8) = pack [8, 4] [imm8, 0]"
| "op2_word (Reg rm) = pack [4, 1, 2, 5] [rm, 0, 0, 0]"
| "op2_word (ImmShift rm t n) = pack [4, 1, 2, 5] [rm, 0, t, n]"
| "op2_word (RegShift rm t rs) = pack [4, 1, 2, 1, 4] [rm, 1, t, 0, rs]"

fun op2_type :: "operand2 \<Rightarrow> u32" where
  "op2_type (Imm imm8 rot) = 1"
| "op2_type (Imm8 imm8) = 1"
| "op2_type _ = 0"

text \<open>The registers of the operand are registers; the other parts are cut to their fields.\<close>

fun op2_ok :: "operand2 \<Rightarrow> bool" where
  "op2_ok (Imm imm8 rot) = True"
| "op2_ok (Imm8 imm8) = True"
| "op2_ok (Reg rm) = fits 4 rm"
| "op2_ok (ImmShift rm t n) = fits 4 rm"
| "op2_ok (RegShift rm t rs) = (fits 4 rm \<and> fits 4 rs)"

definition dpi_struct :: "operand2 \<Rightarrow> u32 \<Rightarrow> u32 \<Rightarrow> bool \<Rightarrow> ARMOpcode \<Rightarrow> u32 \<Rightarrow> ARMInstrDPI" where
  "dpi_struct q rd rn s op cond = \<lparr>dpi_op2 = op2_word q, dpi_rd = rd, dpi_rn = rn, dpi_s = c_int s,
     dpi_opcode = ARMOpcode_val op, dpi_type = op2_type q, dpi_tag = 0, dpi_cond = take_bit 4 cond\<rparr>"

lemma fits_c_int: "fits 1 (c_int b)"
  using fits_0_1 by (simp add: c_int_def)

lemma fits_opcode: "fits 4 (ARMOpcode_val op)"
  by (cases op) (simp_all add: fits_def)

lemma fits_op2: "fits 12 (op2_word q)" "fits 1 (op2_type q)"
  by (cases q; simp only: op2_word.simps op2_type.simps op2_fits fits_0_1)+

lemma dpi_struct_decoded:
  "\<lbrakk>fits 4 rd; fits 4 rn\<rbrakk> \<Longrightarrow>
     ARMInstrDPI_of (ARMInstrDPI_raw (dpi_struct q rd rn s op cond)) = dpi_struct q rd rn s op cond"
  by (rule DPI_of_raw) (simp_all add: dpi_struct_def fits_op2 [simplified] fits_c_int [simplified] fits_opcode,
    simp_all add: fits_def)

text \<open>A code step that emits exactly one word, with this struct in it.\<close>

definition emits_dpi :: "(code \<Rightarrow> code option) \<Rightarrow> ARMInstrDPI \<Rightarrow> bool" where
  "emits_dpi f d \<longleftrightarrow> (\<exists>w. f = ARM_EMIT w \<and> ARMInstrDPI_of w = d)"

lemma emits_dpiI:
  "\<lbrakk>f = ARM_EMIT (ARMInstrDPI_raw (dpi_struct q rd rn s op cond)); fits 4 rd; fits 4 rn\<rbrakk>
     \<Longrightarrow> emits_dpi f (dpi_struct q rd rn s op cond)"
  using dpi_struct_decoded by (auto simp: emits_dpi_def)

text \<open>The ten forms of the generic macros.\<close>

lemma DPIOP_emits:
  assumes "fits 4 rd" "fits 4 rn"
  shows "emits_dpi (ARM_DPIOP_REG_IMM8ROT_COND (ARMOpcode_val op) rd rn imm8 rot cond)
           (dpi_struct (Imm imm8 rot) rd rn False op cond)"
    and "emits_dpi (ARM_DPIOP_S_REG_IMM8ROT_COND (ARMOpcode_val op) rd rn imm8 rot cond)
           (dpi_struct (Imm imm8 rot) rd rn True op cond)"
    and "emits_dpi (ARM_DPIOP_REG_IMM8ROT_COND (ARMOpcode_val op) rd rn imm8 0 cond)
           (dpi_struct (Imm8 imm8) rd rn False op cond)"
    and "emits_dpi (ARM_DPIOP_S_REG_IMM8ROT_COND (ARMOpcode_val op) rd rn imm8 0 cond)
           (dpi_struct (Imm8 imm8) rd rn True op cond)"
  by (rule emits_dpiI [OF _ assms], simp only: ARM_DPIOP_REG_IMM8ROT_COND_def
      ARM_DPIOP_S_REG_IMM8ROT_COND_def dpi_struct_def c_int_def DEF_DPI_IMM_raw assms fits_opcode
      fits_0_1 op2_word.simps op2_type.simps drop_bit_of_0 if_True if_False)+

lemma DPIOP_shift_emits:
  assumes "fits 4 rd" "fits 4 rn" "fits 4 rm"
  shows "emits_dpi (ARM_DPIOP_REG_REG_COND (ARMOpcode_val op) rd rn rm cond)
           (dpi_struct (Reg rm) rd rn False op cond)"
    and "emits_dpi (ARM_DPIOP_S_REG_REG_COND (ARMOpcode_val op) rd rn rm cond)
           (dpi_struct (Reg rm) rd rn True op cond)"
    and "emits_dpi (ARM_DPIOP_REG_IMMSHIFT_COND (ARMOpcode_val op) rd rn rm t n cond)
           (dpi_struct (ImmShift rm t n) rd rn False op cond)"
    and "emits_dpi (ARM_DPIOP_S_REG_IMMSHIFT_COND (ARMOpcode_val op) rd rn rm t n cond)
           (dpi_struct (ImmShift rm t n) rd rn True op cond)"
    and "fits 4 rs \<Longrightarrow> emits_dpi (ARM_DPIOP_REG_REGSHIFT_COND (ARMOpcode_val op) rd rn rm t rs cond)
           (dpi_struct (RegShift rm t rs) rd rn False op cond)"
    and "fits 4 rs \<Longrightarrow> emits_dpi (ARM_DPIOP_S_REG_REGSHIFT_COND (ARMOpcode_val op) rd rn rm t rs cond)
           (dpi_struct (RegShift rm t rs) rd rn True op cond)"
  by (rule emits_dpiI [OF _ assms(1,2)], simp only: ARM_DPIOP_REG_REG_COND_def ARM_DPIOP_S_REG_REG_COND_def
      ARM_DPIOP_REG_IMMSHIFT_COND_def ARM_DPIOP_S_REG_IMMSHIFT_COND_def
      ARM_DPIOP_REG_REGSHIFT_COND_def ARM_DPIOP_S_REG_REGSHIFT_COND_def
      dpi_struct_def c_int_def DEF_DPI_REG_IMMSHIFT_raw DEF_DPI_REG_REGSHIFT_raw assms fits_opcode
      fits_0_1 op2_word.simps op2_type.simps ARMShiftType_val.simps if_True if_False)+

lemmas dpi_emits = DPIOP_emits DPIOP_shift_emits

text \<open>The operations of \<open>arm_dpimacros.h\<close> with the opcode each is to emit.\<close>

definition arith_ops ::
  "((u32 option \<Rightarrow> bool \<Rightarrow> u32 \<Rightarrow> u32 \<Rightarrow> operand2 \<Rightarrow> u32 \<Rightarrow> code \<Rightarrow> code option) \<times> ARMOpcode) list" where
  "arith_ops = [(ARM_AND, ARMOP_AND), (ARM_EOR, ARMOP_EOR), (ARM_SUB, ARMOP_SUB), (ARM_RSB, ARMOP_RSB),
     (ARM_ADD, ARMOP_ADD), (ARM_ADC, ARMOP_ADC), (ARM_SBC, ARMOP_SBC), (ARM_RSC, ARMOP_RSC),
     (ARM_ORR, ARMOP_ORR), (ARM_BIC, ARMOP_BIC)]"

definition move_ops ::
  "((bool \<Rightarrow> u32 \<Rightarrow> operand2 \<Rightarrow> u32 \<Rightarrow> code \<Rightarrow> code option) \<times> ARMOpcode) list" where
  "move_ops = [(ARM_MOV, ARMOP_MOV), (ARM_MVN, ARMOP_MVN)]"

definition test_ops ::
  "((u32 \<Rightarrow> operand2 \<Rightarrow> u32 \<Rightarrow> code \<Rightarrow> code option) \<times> ARMOpcode) list" where
  "test_ops = [(ARM_TST, ARMOP_TST), (ARM_TEQ, ARMOP_TEQ), (ARM_CMP, ARMOP_CMP), (ARM_CMN, ARMOP_CMN)]"

lemma arith_emits:
  assumes "(f, op) \<in> set arith_ops" "fits 4 rd" "fits 4 rn" "op2_ok q"
    and "\<And>rm t rs. q = RegShift rm t rs \<Longrightarrow> shift_t = Some t"
  shows "emits_dpi (f shift_t s rd rn q cond) (dpi_struct q rd rn s op cond)"
proof (cases q)
  case (RegShift rm t rs)
  then have "shift_t = Some t" using assms(5) by blast
  with RegShift show ?thesis
    using assms(1-4) by (cases s) (auto simp: arith_ops_def dpi_emits simp del: ARMOpcode_val.simps)
qed (use assms(1-4) in \<open>cases s; auto simp: arith_ops_def dpi_emits simp del: ARMOpcode_val.simps\<close>)+

lemma fits_zero: "fits 4 0"
  by (simp add: fits_def)

lemma move_emits:
  assumes "(f, op) \<in> set move_ops" "fits 4 rd" "op2_ok q"
  shows "emits_dpi (f s rd q cond) (dpi_struct q rd 0 s op cond)"
  by (cases q; cases s) (use assms fits_zero in \<open>auto simp: move_ops_def dpi_emits simp del: ARMOpcode_val.simps\<close>)

lemma test_emits:
  assumes "(f, op) \<in> set test_ops" "fits 4 rn" "op2_ok q" "\<And>rm t rs. q \<noteq> RegShift rm t rs"
  shows "emits_dpi (f rn q cond) (dpi_struct q 0 rn True op cond)"
  by (cases q) (use assms fits_zero in \<open>auto simp: test_ops_def dpi_emits simp del: ARMOpcode_val.simps\<close>)

lemma emits_dpi_run:
  assumes "emits_dpi f d"
  shows "\<exists>w. ARMInstrDPI_of w = d \<and>
    (\<forall>p buf. f (p, buf) = (if p < length buf then Some (Suc p, buf[p := w]) else None))"
  using assms by (auto simp: emits_dpi_def ARM_EMIT_def)

text \<open>
  The operand that an instruction applies, and what becomes of one asked for: a register is read as itself shifted by nothing, an
  immediate keeps its low 8 bits, a rotation the even part of its low 5, a shift type its low 2 and an amount its low 5.
\<close>

definition read_operand :: "ARMInstrDPI \<Rightarrow> operand2" where
  "read_operand d =
    (let w = dpi_op2 d in
     if dpi_type d = 1 then Imm (take_bit 8 w) (push_bit 1 (drop_bit 8 w))
     else if bit w 4 then RegShift (take_bit 4 w) (take_bit 2 (drop_bit 5 w)) (drop_bit 8 w)
     else ImmShift (take_bit 4 w) (take_bit 2 (drop_bit 5 w)) (drop_bit 7 w))"

fun cut_operand :: "operand2 \<Rightarrow> operand2" where
  "cut_operand (Imm imm8 rot) = Imm (take_bit 8 imm8) (push_bit 1 (take_bit 4 (drop_bit 1 rot)))"
| "cut_operand (Imm8 imm8) = Imm (take_bit 8 imm8) 0"
| "cut_operand (Reg rm) = ImmShift rm 0 0"
| "cut_operand (ImmShift rm t n) = ImmShift rm (take_bit 2 t) (take_bit 5 n)"
| "cut_operand (RegShift rm t rs) = RegShift rm (take_bit 2 t) rs"

lemma pack_low: "take_bit w (pack (w # ws) (v # vs)) = take_bit w v"
  by (simp only: pack.simps low_field [OF fits_take_bit])

lemma pack_rest: "w + sum_list ws \<le> 32 \<Longrightarrow> drop_bit w (pack (w # ws) (v # vs)) = pack ws vs"
  by (simp only: pack.simps high_fields [OF fits_take_bit pack_fits])

lemma pack_rests: "w + sum_list ws \<le> 32 \<Longrightarrow> drop_bit (n + w) (pack (w # ws) (v # vs)) = drop_bit n (pack ws vs)"
  using pack_rest [of w ws v vs] by (simp only: drop_bit_drop_bit [symmetric])

lemma pack_last: "take_bit w (pack [w] [v]) = pack [w] [v]" "pack [w] [v] = take_bit w v"
  by simp_all

lemma bit_4: "bit w 4 \<longleftrightarrow> take_bit 1 (drop_bit 4 (w :: u32)) = 1"
  by (simp add: bit_iff_odd_drop_bit take_bit_Suc odd_iff_mod_2_eq_one)

lemma shift_fields:
  assumes "sum_list ws \<le> 25" and w_def: "w = pack (4 # 1 # 2 # ws) (r # b # t # vs)"
  shows "take_bit 4 w = take_bit 4 r" "bit w 4 \<longleftrightarrow> take_bit 1 b = 1" "take_bit 2 (drop_bit 5 w) = take_bit 2 t" "drop_bit 7 w = pack ws vs"
proof -
  have 4: "drop_bit 4 w = pack (1 # 2 # ws) (b # t # vs)" using assms(1) unfolding w_def by (intro pack_rest) simp
  have 5: "drop_bit 5 w = pack (2 # ws) (t # vs)"
    using pack_rests [of 4 "1 # 2 # ws" 1 r "b # t # vs"] pack_rest [of 1 "2 # ws" b "t # vs"] assms(1) by (simp add: w_def del: pack.simps)
  have 7: "drop_bit 7 w = drop_bit 2 (drop_bit 5 w)" by (simp add: drop_bit_drop_bit)
  show "take_bit 4 w = take_bit 4 r" unfolding w_def by (rule pack_low)
  show "bit w 4 \<longleftrightarrow> take_bit 1 b = 1" unfolding bit_4 4 by (simp only: pack_low)
  show "take_bit 2 (drop_bit 5 w) = take_bit 2 t" unfolding 5 by (rule pack_low)
  show "drop_bit 7 w = pack ws vs" unfolding 7 5 using assms(1) by (intro pack_rest) simp
qed

lemma immediate_fields:
  "take_bit 8 (pack [8, 4] [v, r]) = take_bit 8 v" "drop_bit 8 (pack [8, 4] [v, r]) = take_bit 4 r"
  using pack_low [of 8 "[4]" v "[r]"] pack_rest [of 8 "[4]" v "[r]"] by (simp_all del: pack.simps add: pack_last)

lemma read_dpi_struct:
  assumes "op2_ok q"
  shows "read_operand (dpi_struct q rd rn s op cond) = cut_operand q"
proof (cases q)
  case (RegShift rm t rs)
  let ?w = "pack [4, 1, 2, 1, 4] [rm, 1, t, 0, rs]"
  note fields = shift_fields [of "[1, 4]" ?w rm 1 t "[0, rs]", OF _ refl]
  have "drop_bit 8 ?w = drop_bit 1 (drop_bit 7 ?w)" by (simp add: drop_bit_drop_bit)
  also have "\<dots> = pack [4] [rs]" using fields(4) pack_rest [of 1 "[4]" 0 "[rs]"]
    by (simp del: pack.simps)
  finally have "drop_bit 8 ?w = take_bit 4 rs" by simp
  then show ?thesis using RegShift assms fields
    by (simp add: read_operand_def dpi_struct_def Let_def fitsD del: pack.simps)
next
  case (ImmShift rm t n)
  then show ?thesis using assms shift_fields [of "[5]" _ rm 0 t "[n]", OF _ refl]
    by (simp add: read_operand_def dpi_struct_def Let_def fitsD pack_last del: pack.simps)
next
  case (Reg rm)
  then show ?thesis using assms shift_fields [of "[5]" _ rm 0 0 "[0]", OF _ refl]
    by (simp add: read_operand_def dpi_struct_def Let_def fitsD pack_last del: pack.simps)
qed (use immediate_fields in \<open>simp_all add: read_operand_def dpi_struct_def Let_def del: pack.simps\<close>)

text \<open>
  The operand a macro is given to encode: for one shifted by a register, the type of the shift is not the argument but the value of an
  identifier \<open>shift_t\<close>, where there is one.
\<close>

fun operand_used :: "u32 option \<Rightarrow> operand2 \<Rightarrow> operand2 option" where
  "operand_used shift_t (RegShift rm t rs) = map_option (\<lambda>t. RegShift rm t rs) shift_t"
| "operand_used shift_t q = Some q"

section \<open>Properties\<close>

text \<open>
  The arithmetic macros for an operand shifted by a register ignore the shift type they are
  given, and do not compile where no identifier \<open>shift_t\<close> is in scope; the move macros use it.
\<close>
lemma regshift_ignores_shift_type:
  assumes "(f, op) \<in> set arith_ops"
  shows "f shift_t s rd rn (RegShift rm ty rs) cond = f shift_t s rd rn (RegShift rm ty' rs) cond \<and>
    f None s rd rn (RegShift rm ty rs) cond c = None"
  using assms by (cases s) (auto simp: arith_ops_def split: option.splits)

lemma regshift_ignores_shift_type_witness:
  "ARM_ADD (Some 0) False 1 2 (RegShift 3 1 4) 14 (0, [0]) = ARM_ADD (Some 0) False 1 2 (RegShift 3 2 4) 14 (0, [0])"
proof -
  have "(ARM_ADD, ARMOP_ADD) \<in> set arith_ops" by (simp add: arith_ops_def)
  from regshift_ignores_shift_type [OF this, of "Some 0" False 1 2 3 1 4 14 2] show ?thesis by simp
qed

text \<open>
  C39: Every arithmetic and logical macro, with or without the S bit and with every form of second operand, on every branch: an operand
  shifted by a register takes the type of the shift from an identifier \<open>shift_t\<close> in scope, not from its argument, and the macro does not
  compile where there is none. In every other case exactly one word is emitted, at the code pointer (running past the buffer is the only
  failure), and read as a data-processing instruction it has the operation's opcode, the given registers and S bit, the low four bits of
  the condition, and as its operand the one used with an immediate cut to 8 bits, a rotation to an even one below 32, a shift type to 2 bits
  and an amount to 5.
\<close>
theorem arithmetic_macros_encode:
  assumes "(f, op) \<in> set arith_ops" and "fits 4 rd" and "fits 4 rn" and "op2_ok q"
  shows "case operand_used shift_t q of None \<Rightarrow> f shift_t s rd rn q cond c = None
    | Some q' \<Rightarrow> \<exists>w. ARMInstrDPI_of w = dpi_struct q' rd rn s op cond \<and> read_operand (ARMInstrDPI_of w) = cut_operand q' \<and>
        (\<forall>p buf. f shift_t s rd rn q cond (p, buf) = (if p < length buf then Some (Suc p, buf[p := w]) else None))"
proof (cases "operand_used shift_t q")
  case None
  then obtain rm t rs where "q = RegShift rm t rs" "shift_t = None" by (cases q) auto
  then show ?thesis using regshift_ignores_shift_type [OF assms(1)] by simp
next
  case (Some q')
  note used = this
  have same: "f shift_t s rd rn q cond = f shift_t s rd rn q' cond"
  proof (cases q)
    case (RegShift rm t rs)
    then obtain t' where "q' = RegShift rm t' rs" using used by auto
    then show ?thesis using RegShift regshift_ignores_shift_type [OF assms(1)] by (metis ext)
  qed (use used in auto)
  have ok: "op2_ok q'" using used assms(4) by (cases q) auto
  have "emits_dpi (f shift_t s rd rn q cond) (dpi_struct q' rd rn s op cond)"
    unfolding same using assms(1-3) ok by (rule arith_emits) (use used in \<open>cases q; auto\<close>)
  from emits_dpi_run [OF this] show ?thesis by (simp add: used) (metis read_dpi_struct [OF ok])
qed

theorem arithmetic_macros_encode_witness:
  "(\<exists>w. ARM_SUB None True 1 2 (ImmShift 3 0 4) 14 (0, [0]) = Some (1, [w]) \<and>
     ARMInstrDPI_of w = dpi_struct (ImmShift 3 0 4) 1 2 True ARMOP_SUB 14) \<and>
   (\<exists>w. ARM_ADD (Some 0) False 1 2 (RegShift 3 1 4) 14 (0, [0]) = Some (1, [w]) \<and>
     read_operand (ARMInstrDPI_of w) = RegShift 3 0 4) \<and>
   ARM_ADD None False 1 2 (RegShift 3 1 4) 14 (0, [0]) = None"
proof (intro conjI)
  have ops: "(ARM_SUB, ARMOP_SUB) \<in> set arith_ops" "(ARM_ADD, ARMOP_ADD) \<in> set arith_ops" by (simp_all add: arith_ops_def)
  have r: "fits 4 1" "fits 4 2" "op2_ok (ImmShift 3 0 4)" "op2_ok (RegShift 3 1 4)" by (simp_all add: fits_def)
  obtain w where "ARMInstrDPI_of w = dpi_struct (ImmShift 3 0 4) 1 2 True ARMOP_SUB 14"
    "ARM_SUB None True 1 2 (ImmShift 3 0 4) 14 (0, [0]) = Some (Suc 0, [0][0 := w])"
    using arithmetic_macros_encode [OF ops(1) r(1-3), of None True 14 "(0, [0])"] by auto
  then show "\<exists>w. ARM_SUB None True 1 2 (ImmShift 3 0 4) 14 (0, [0]) = Some (1, [w]) \<and>
     ARMInstrDPI_of w = dpi_struct (ImmShift 3 0 4) 1 2 True ARMOP_SUB 14" by auto
  obtain w where "read_operand (ARMInstrDPI_of w) = RegShift 3 0 4"
    "ARM_ADD (Some 0) False 1 2 (RegShift 3 1 4) 14 (0, [0]) = Some (Suc 0, [0][0 := w])"
    using arithmetic_macros_encode [OF ops(2) r(1,2,4), of "Some 0" False 14 "(0, [0])"]
    by (clarsimp simp del: ARM_ADD.simps) (metis length_Cons zero_less_Suc)
  then show "\<exists>w. ARM_ADD (Some 0) False 1 2 (RegShift 3 1 4) 14 (0, [0]) = Some (1, [w]) \<and>
     read_operand (ARMInstrDPI_of w) = RegShift 3 0 4" by auto
  show "ARM_ADD None False 1 2 (RegShift 3 1 4) 14 (0, [0]) = None"
    using arithmetic_macros_encode [OF ops(2) r(1,2,4), of None False 14 "(0, [0])"] by simp
qed

text \<open>
  The move and the comparison macros emit exactly one word with their opcode: moves have no
  first operand register, comparisons have no destination and always set the flags.
\<close>
lemma move_and_test_macros_encode:
  assumes "fits 4 r" and "op2_ok q"
  shows "((f, op) \<in> set move_ops \<longrightarrow>
      (\<exists>w. ARMInstrDPI_of w = dpi_struct q r 0 s op cond \<and>
        (\<forall>p buf. f s r q cond (p, buf) = (if p < length buf then Some (Suc p, buf[p := w]) else None)))) \<and>
    ((g, op) \<in> set test_ops \<and> (\<forall>rm t rs. q \<noteq> RegShift rm t rs) \<longrightarrow>
      (\<exists>w. ARMInstrDPI_of w = dpi_struct q 0 r True op cond \<and>
        (\<forall>p buf. g r q cond (p, buf) = (if p < length buf then Some (Suc p, buf[p := w]) else None))))"
  using emits_dpi_run [OF move_emits [of f op r q s cond]] emits_dpi_run [OF test_emits [of g op r q cond]] assms
  by blast

lemma move_and_test_macros_encode_witness:
  "\<exists>w. ARM_CMP 5 (Imm8 7) 14 (0, [0]) = Some (1, [w]) \<and>
     ARMInstrDPI_of w = dpi_struct (Imm8 7) 0 5 True ARMOP_CMP 14"
proof -
  have "(ARM_CMP, ARMOP_CMP) \<in> set test_ops" by (simp add: test_ops_def)
  then obtain w where "ARMInstrDPI_of w = dpi_struct (Imm8 7) 0 5 True ARMOP_CMP 14"
    "ARM_CMP 5 (Imm8 7) 14 (0, [0]) = Some (Suc 0, [0][0 := w])"
    using move_and_test_macros_encode [of 5 "Imm8 7" ARM_MOV ARMOP_CMP False 14 ARM_CMP]
    by (auto simp: fits_def)
  then show ?thesis by auto
qed

text \<open>
  None of the inline-assembler macros of the data-processing operations can be used: each
  calls a macro that is declared with one parameter more.
\<close>
lemma inline_macros_do_not_compile:
  "list_all (\<lambda>f. f shift_t s rd rn q cond c = None)
     [I_AND, I_EOR, I_SUB, I_RSB, I_ADD, I_ADC, I_SBC, I_RSC, I_ORR, I_BIC] \<and>
   list_all (\<lambda>f. f s rd q cond c = None) [I_MOV, I_MVN] \<and>
   list_all (\<lambda>f. f rn q cond c = None) [I_TST, I_TEQ, I_CMP, I_CMN]"
  by (cases q; cases s; cases shift_t) (simp_all add: call_macro_def ARM_IASM_DPIOP_REG_IMM8ROT_COND_def
      ARM_IASM_DPIOP_S_REG_IMM8ROT_COND_def ARM_IASM_DPIOP_REG_IMMSHIFT_COND_def
      ARM_IASM_DPIOP_S_REG_IMMSHIFT_COND_def ARM_IASM_DPIOP_REG_REG_COND_def
      ARM_IASM_DPIOP_S_REG_REG_COND_def ARM_IASM_DPIOP_REG_REGSHIFT_COND_def
      ARM_IASM_DPIOP_S_REG_REGSHIFT_COND_def)

section \<open>Offsets\<close>

lemma fits_uint: "fits n x \<longleftrightarrow> uint x < 2 ^ n"
  unfolding fits_def word_uint_eq_iff unsigned_take_bit_eq by (simp add: take_bit_int_eq_self_iff)

lemma magnitude_small:
  assumes "-2147483648 < k" "k < 2147483648"
  shows "uint (magnitude (word_of_int k)) = \<bar>k\<bar>"
proof -
  have "magnitude (word_of_int k) = word_of_int \<bar>k\<bar>"
    using assms by (simp add: magnitude_def sint_small)
  then show ?thesis using assms by (simp add: uint_word_of_int_eq take_bit_int_eq_self)
qed

text \<open>The signed offset of a transfer: magnitude and direction.\<close>

definition wx_offset :: "ARMInstrWXfer \<Rightarrow> int" where
  "wx_offset d = (if wx_u d = 1 then uint (wx_op2_imm d) else - uint (wx_op2_imm d))"

definition hx_offset :: "ARMInstrHXfer \<Rightarrow> int" where
  "hx_offset d = (let m = 16 * uint (hx_imm_hi d) + uint (hx_rm d) in if hx_u d = 1 then m else - m)"

lemma WX_of_raw:
  assumes "fits 12 (wx_op2_imm s)" "fits 4 (wx_rd s)" "fits 4 (wx_rn s)" "fits 1 (wx_ls s)" "fits 1 (wx_wb s)"
    "fits 1 (wx_b s)" "fits 1 (wx_u s)" "fits 1 (wx_p s)" "fits 1 (wx_type s)" "fits 2 (wx_tag s)" "fits 4 (wx_cond s)"
  shows "ARMInstrWXfer_of (ARMInstrWXfer_raw s) = s"
  unfolding ARMInstrWXfer_of_def ARMInstrWXfer_raw_def
  by (rule wx.decode_encode) (use assms in \<open>simp add: ARMInstrWXfer_fields_def\<close>)

lemma HX_of_raw:
  assumes "fits 4 (hx_rm s)" "fits 1 (hx_tag3 s)" "fits 1 (hx_h s)" "fits 1 (hx_s s)" "fits 1 (hx_tag2 s)"
    "fits 4 (hx_imm_hi s)" "fits 4 (hx_rd s)" "fits 4 (hx_rn s)" "fits 1 (hx_ls s)" "fits 1 (hx_wb s)"
    "fits 1 (hx_type s)" "fits 1 (hx_u s)" "fits 1 (hx_p s)" "fits 3 (hx_tag s)" "fits 4 (hx_cond s)"
  shows "ARMInstrHXfer_of (ARMInstrHXfer_raw s) = s"
  unfolding ARMInstrHXfer_of_def ARMInstrHXfer_raw_def
  by (rule hx.decode_encode) (use assms in \<open>simp add: ARMInstrHXfer_fields_def\<close>)

lemma const_fits_fields: "fits 1 0" "fits 1 1" "fits 2 1" "fits 3 0" "fits 4 0"
  by (simp_all add: fits_def)

text \<open>The nearest offset that the field can hold.\<close>

definition clamp :: "int \<Rightarrow> int" where
  "clamp k = max (- 4095) (min 4095 k)"

lemma EMIT_WXFER_IMM_decoded:
  assumes "fits 4 rd" "fits 4 rn" "fits 1 ls" "fits 1 wb" "fits 1 b" "fits 1 p" and k_def: "k = clamp (sint imm12)"
  shows "ARM_EMIT_WXFER_IMM imm12 rd rn ls wb b p cond =
      ARM_EMIT (ARM_DEF_WXFER_IMM (word_of_int k) rd rn ls wb b p cond)"
    and "ARMInstrWXfer_of (ARM_DEF_WXFER_IMM (word_of_int k) rd rn ls wb b p cond) =
      \<lparr>wx_op2_imm = magnitude (word_of_int k), wx_rd = rd, wx_rn = rn,
       wx_ls = ls, wx_wb = wb, wx_b = b, wx_u = c_int (k \<ge> 0), wx_p = p, wx_type = 0, wx_tag = 1,
       wx_cond = take_bit 4 cond\<rparr>"
    and "uint (magnitude (word_of_int k :: u32)) = \<bar>k\<bar>"
proof -
  have k: "- 4095 \<le> k" "k \<le> 4095" by (simp_all add: k_def clamp_def)
  have "(if sint imm12 < - ARM_WXFER_MAX_OFFS then - ARM_WXFER_MAX_OFFS
      else if sint imm12 > ARM_WXFER_MAX_OFFS then ARM_WXFER_MAX_OFFS else sint imm12) = k"
    by (auto simp: k_def clamp_def ARM_WXFER_MAX_OFFS_def)
  then show "ARM_EMIT_WXFER_IMM imm12 rd rn ls wb b p cond =
      ARM_EMIT (ARM_DEF_WXFER_IMM (word_of_int k) rd rn ls wb b p cond)"
    by (simp only: ARM_EMIT_WXFER_IMM_def Let_def)
  show m: "uint (magnitude (word_of_int k :: u32)) = \<bar>k\<bar>"
    by (rule magnitude_small) (use k in simp_all)
  then have fit: "fits 12 (magnitude (word_of_int k))" using k by (simp add: fits_uint)
  have s: "sint (word_of_int k :: u32) = k" by (rule sint_small) (use k in simp_all)
  show "ARMInstrWXfer_of (ARM_DEF_WXFER_IMM (word_of_int k) rd rn ls wb b p cond) =
      \<lparr>wx_op2_imm = magnitude (word_of_int k), wx_rd = rd, wx_rn = rn,
       wx_ls = ls, wx_wb = wb, wx_b = b, wx_u = c_int (k \<ge> 0), wx_p = p, wx_type = 0, wx_tag = 1,
       wx_cond = take_bit 4 cond\<rparr>"
    unfolding DEF_WXFER_IMM_raw [OF fit assms(1-6)] s
    by (rule WX_of_raw) (simp_all only: ARMInstrWXfer.simps fit assms(1-6) fits_c_int const_fits_fields fits_take_bit)
qed

lemma nibbles: "16 * uint (take_bit 4 (drop_bit 4 m)) + uint (take_bit 4 m) = uint (m :: u32) mod 256"
proof -
  have "uint m mod 4294967296 = uint m" using uint_lt2p [of m] by simp
  then have "uint (take_bit 4 m) = uint m mod 16" "uint (take_bit 4 (drop_bit 4 m)) = uint m div 16 mod 16"
    by (simp_all only: unsigned_take_bit_eq unsigned_drop_bit_eq) (simp_all add: take_bit_eq_mod drop_bit_eq_div)
  moreover have "16 * (x div 16 mod 16) + x mod 16 = x mod 256" for x :: int
    using zmod_zmult2_eq [of 16 x 16] by simp
  ultimately show ?thesis by simp
qed

text \<open>
  A store with an immediate offset (\<open>ARM_STR_IMM\<close>, through \<open>ARM_EMIT_WXFER_IMM\<close>) emits
  one word that, read as a transfer, has the given registers and the offset nearest to the one
  asked for that the 12-bit field and the direction bit can express.
\<close>
lemma store_offset_is_clamped:
  assumes "fits 4 rd" and "fits 4 rn"
  shows "\<exists>w. (\<forall>p buf. ARM_STR_IMM_COND rd rn imm cond (p, buf) =
        (if p < length buf then Some (Suc p, buf[p := w]) else None)) \<and>
     wx_offset (ARMInstrWXfer_of w) = clamp (sint imm) \<and>
     wx_rd (ARMInstrWXfer_of w) = rd \<and> wx_rn (ARMInstrWXfer_of w) = rn \<and>
     wx_ls (ARMInstrWXfer_of w) = 0 \<and> wx_p (ARMInstrWXfer_of w) = 1 \<and>
     wx_cond (ARMInstrWXfer_of w) = take_bit 4 cond"
proof -
  note dec = EMIT_WXFER_IMM_decoded [where k = "clamp (sint imm)" and ?imm12.0 = imm,
      OF assms const_fits_fields(1,1,1,2) refl]
  note e = dec(1) [of cond] dec(2) [of cond] dec(3)
  let ?w = "ARM_DEF_WXFER_IMM (word_of_int (clamp (sint imm))) rd rn 0 0 0 1 cond"
  have run: "ARM_STR_IMM_COND rd rn imm cond = ARM_EMIT ?w"
    unfolding ARM_STR_IMM_COND_def ARMOpcode_val.simps by (rule e(1))
  show ?thesis
    unfolding run
    by (rule exI [of _ ?w]) (simp add: e(2,3) wx_offset_def c_int_def ARM_EMIT_def)
qed

lemma store_offset_is_clamped_witness:
  "\<exists>w. ARM_STR_IMM_COND 1 13 5000 14 (0, [0]) = Some (1, [w]) \<and> wx_offset (ARMInstrWXfer_of w) = 4095"
proof -
  obtain w where "ARM_STR_IMM_COND 1 13 5000 14 (0, [0]) = Some (Suc 0, [0][0 := w])"
    "wx_offset (ARMInstrWXfer_of w) = clamp (sint (5000 :: u32))"
    using store_offset_is_clamped [of 1 13 5000 14] by (auto simp: fits_def)
  then show ?thesis by (auto simp: clamp_def)
qed

text \<open>
  The offset of a half-word transfer is taken modulo 256, with the direction of its sign: it
  is the offset asked for exactly when its magnitude is below 256, and is not clamped otherwise.
\<close>
lemma half_word_offset:
  assumes "fits 1 h" and "fits 1 s" and "fits 4 rd" and "fits 4 rn" and "fits 1 ls" and "fits 1 wb"
    and "fits 1 p" and "sint imm \<noteq> - (2 ^ 31)"
  shows "hx_offset (ARMInstrHXfer_of (ARM_DEF_HXFER_IMM_COND imm h s rd rn ls wb p cond)) =
     sgn (sint imm) * (\<bar>sint imm\<bar> mod 256)"
proof -
  have "- 2147483648 \<le> sint imm" "sint imm < 2147483648"
    using sint_range_size [of imm] by (simp_all add: word_size)
  then have m: "uint (magnitude imm) = \<bar>sint imm\<bar>"
    using magnitude_small [of "sint imm"] assms(8) by simp
  have "ARMInstrHXfer_of (ARM_DEF_HXFER_IMM_COND imm h s rd rn ls wb p cond) =
     \<lparr>hx_rm = take_bit 4 (magnitude imm), hx_tag3 = 1, hx_h = h, hx_s = s, hx_tag2 = 1,
       hx_imm_hi = take_bit 4 (drop_bit 4 (magnitude imm)), hx_rd = rd, hx_rn = rn, hx_ls = ls, hx_wb = wb,
       hx_type = 1, hx_u = c_int (sint imm \<ge> 0), hx_p = p, hx_tag = 0, hx_cond = take_bit 4 cond\<rparr>"
    unfolding DEF_HXFER_IMM_raw [OF assms(1-7)]
    by (rule HX_of_raw) (simp_all only: ARMInstrHXfer.simps assms(1-7) fits_c_int const_fits_fields fits_take_bit)
  then show ?thesis
    using nibbles [of "magnitude imm"] m by (simp only: hx_offset_def Let_def ARMInstrHXfer.simps)
      (auto simp: c_int_def sgn_if)
qed

lemma half_word_offset_witness:
  "hx_offset (ARMInstrHXfer_of (ARM_DEF_HXFER_IMM_COND (- 300) 1 0 2 3 1 0 1 14)) = - 44"
  using half_word_offset [of 1 0 2 3 1 0 1 "- 300" 14] by (simp add: fits_def)

section \<open>Branches, classes and register lists\<close>

lemma BR_of_raw:
  assumes "fits 24 (br_offset s)" "fits 1 (br_link s)" "fits 3 (br_tag s)" "fits 4 (br_cond s)"
  shows "ARMInstrBR_of (ARMInstrBR_raw s) = s"
  unfolding ARMInstrBR_of_def ARMInstrBR_raw_def
  by (rule br.decode_encode) (use assms in \<open>simp add: ARMInstrBR_fields_def\<close>)

lemma high_byte: "(\<And>k. 24 \<le> k \<Longrightarrow> k < 32 \<Longrightarrow> bit x k) \<Longrightarrow> drop_bit 24 x = (mask 8 :: u32)"
  by (rule bit_eqI) (auto simp: bit_simps dest: bit_imp_le_length)

lemma fits_5: "fits 3 5"
  by (simp add: fits_def)

text \<open>
  A branch word has the offset, link bit and condition it was made from when the offset is a
  24-bit number; a negative offset (any \<open>- n - 1\<close> with \<open>n\<close> of 24 bits) is not cut to the
  field: it sets the link bit and overwrites the condition with \<open>never\<close> (15) and the tag.
\<close>
lemma branch_offset:
  assumes "fits 24 n" and "fits 1 l" and "fits 4 cond"
  shows "ARMInstrBR_of (ARM_DEF_BR n l cond) = \<lparr>br_offset = n, br_link = l, br_tag = 5, br_cond = cond\<rparr> \<and>
     br_cond (ARMInstrBR_of (ARM_DEF_BR (- n - 1) l cond)) = 15 \<and>
     br_link (ARMInstrBR_of (ARM_DEF_BR (- n - 1) l cond)) = 1 \<and>
     br_tag (ARMInstrBR_of (ARM_DEF_BR (- n - 1) l cond)) = 7"
proof -
  have 1: "ARMInstrBR_of (ARM_DEF_BR n l cond) = \<lparr>br_offset = n, br_link = l, br_tag = 5, br_cond = cond\<rparr>"
    unfolding DEF_BR_raw [OF assms]
    by (rule BR_of_raw) (simp_all only: ARMInstrBR.simps assms fits_5)
  let ?x = "ARM_DEF_BR (- n - 1) l cond"
  have "- n - 1 = NOT n" by (simp add: not_eq_complement)
  then have "bit ?x k" if "24 \<le> k" "k < 32" for k
    using that fits_bit [OF assms(1), of k] by (auto simp: ARM_DEF_BR_def bit_or_iff bit_not_iff)
  then have "drop_bit 24 ?x = mask 8" by (rule high_byte)
  then have "take_bit 1 (drop_bit 24 ?x) = 1" "take_bit 3 (drop_bit 1 (drop_bit 24 ?x)) = 7"
    "take_bit 4 (drop_bit 3 (drop_bit 1 (drop_bit 24 ?x))) = 15"
    by (simp_all add: mask_eq_exp_minus_1)
  then show ?thesis
    using 1 by (simp add: ARMInstrBR_of_def ARMInstrBR_make_def)
qed

lemma branch_offset_witness:
  "br_cond (ARMInstrBR_of (ARM_DEF_BR (- 2) 0 14)) = 15"
  using branch_offset [of 1 0 14] by (simp add: fits_def)

lemma masked_test:
  assumes "fits m t" "n + m \<le> 32"
  shows "w AND push_bit n (mask m) = push_bit n t \<longleftrightarrow> take_bit m (drop_bit n (w :: u32)) = t"
proof -
  have "w AND push_bit n (mask m) = push_bit n (take_bit m (drop_bit n w))"
    by (rule bit_eqI) (auto simp: bit_simps)
  moreover have "push_bit n a = push_bit n b \<longleftrightarrow> a = b" if "fits m a" "fits m b" for a b :: u32
  proof
    assume "push_bit n a = push_bit n b"
    then have "drop_bit n (0 OR push_bit n a) = drop_bit n (0 OR push_bit n b)" by simp
    moreover have "fits n 0" by (simp add: fits_def)
    ultimately show "a = b" using high_fields [OF \<open>fits n 0\<close>] that assms(2) by metis
  qed simp
  ultimately show ?thesis using assms(1) by simp
qed

text \<open>
  The mask-and-tag tests of the header are tests of the tag field of the format, for branches,
  data processing, multiple, word and coprocessor transfers and software interrupts; the test for
  the count-leading-zeros format, whose mask contains a comparison in place of a shift, fails on
  every word.
\<close>
lemma class_tests:
  "(w AND ARM_BR_MASK = ARM_BR_TAG \<longleftrightarrow> br_tag (ARMInstrBR_of w) = 5) \<and>
   (w AND ARM_DPI_MASK = ARM_DPI_TAG \<longleftrightarrow> dpi_tag (ARMInstrDPI_of w) = 0) \<and>
   (w AND ARM_MRT_MASK = ARM_MRT_TAG \<longleftrightarrow> mrt_tag (ARMInstrMRT_of w) = 4) \<and>
   (w AND ARM_WXFER_MASK = ARM_WXFER_TAG \<longleftrightarrow> wx_tag (ARMInstrWXfer_of w) = 1) \<and>
   (w AND ARM_CDT_MASK = ARM_CDT_TAG \<longleftrightarrow> cdt_tag (ARMInstrCDT_of w) = 6) \<and>
   (w AND ARM_SWI_MASK = ARM_SWI_TAG \<longleftrightarrow> swi_tag (ARMInstrSWI_of w) = 15) \<and>
   w AND ARM_CLZ_MASK \<noteq> ARM_CLZ_TAG"
proof -
  have masks: "(7 :: u32) = mask 3" "(3 :: u32) = mask 2" "(0xF :: u32) = mask 4"
    by (simp_all add: mask_eq_exp_minus_1)
  have fit: "fits 3 5" "fits 2 0" "fits 3 4" "fits 2 1" "fits 3 6" "fits 4 15"
    by (simp_all add: fits_def)
  have "\<not> bit (w AND ARM_CLZ_MASK) 4" "bit ARM_CLZ_TAG 4"
    by (simp_all add: ARM_CLZ_MASK_def ARM_CLZ_TAG_def c_int_def bit_simps)
  then have clz: "w AND ARM_CLZ_MASK \<noteq> ARM_CLZ_TAG" by metis
  have tags: "br_tag (ARMInstrBR_of w) = take_bit 3 (drop_bit 25 w)"
    "dpi_tag (ARMInstrDPI_of w) = take_bit 2 (drop_bit 26 w)"
    "mrt_tag (ARMInstrMRT_of w) = take_bit 3 (drop_bit 25 w)"
    "wx_tag (ARMInstrWXfer_of w) = take_bit 2 (drop_bit 26 w)"
    "cdt_tag (ARMInstrCDT_of w) = take_bit 3 (drop_bit 25 w)"
    "swi_tag (ARMInstrSWI_of w) = take_bit 4 (drop_bit 24 w)"
    by (simp_all add: struct_of_defs ARMInstrBR_make_def ARMInstrDPI_make_def ARMInstrMRT_make_def
        ARMInstrWXfer_make_def ARMInstrCDT_make_def ARMInstrSWI_make_def numeral_eq_Suc)
  show ?thesis
    unfolding tags ARM_BR_MASK_def ARM_BR_TAG_def ARM_DPI_MASK_def ARM_DPI_TAG_def ARM_MRT_MASK_def
      ARM_MRT_TAG_def ARM_WXFER_MASK_def ARM_WXFER_TAG_def ARM_CDT_MASK_def ARM_CDT_TAG_def
      ARM_SWI_MASK_def ARM_SWI_TAG_def
    using clz masked_test [OF fit(1), of 25 w] masked_test [OF fit(2), of 26 w] masked_test [OF fit(3), of 25 w]
      masked_test [OF fit(4), of 26 w] masked_test [OF fit(5), of 25 w] masked_test [OF fit(6), of 24 w]
    by (simp only: masks) simp
qed


lemma MRT_of_raw:
  assumes "fits 16 (mrt_reg_list s)" "fits 4 (mrt_rn s)" "fits 1 (mrt_ls s)" "fits 1 (mrt_wb s)" "fits 1 (mrt_s s)"
    "fits 1 (mrt_u s)" "fits 1 (mrt_p s)" "fits 3 (mrt_tag s)" "fits 4 (mrt_cond s)"
  shows "ARMInstrMRT_of (ARMInstrMRT_raw s) = s"
  unfolding ARMInstrMRT_of_def ARMInstrMRT_raw_def
  by (rule mrt.decode_encode) (use assms in \<open>simp add: ARMInstrMRT_fields_def\<close>)

lemma fits_mrt: "fits 4 13" "fits 3 4" "fits 4 14"
  by (simp_all add: fits_def)

lemma fits_register: "fits 4 r \<Longrightarrow> unat r < 16"
proof -
  assume "fits 4 r"
  then have "unat r = take_bit 4 (unat r)" by (metis fitsD unsigned_take_bit_eq)
  also have "\<dots> < 2 ^ 4" by (rule take_bit_nat_less_exp)
  finally show ?thesis by simp
qed

lemma DEF_MRT_decoded:
  assumes "fits 16 regs" "fits 1 l" "fits 1 u" "fits 1 p"
  shows "ARMInstrMRT_of (ARM_DEF_MRT regs 13 l 1 0 u p AL) =
     \<lparr>mrt_reg_list = regs, mrt_rn = 13, mrt_ls = l, mrt_wb = 1, mrt_s = 0, mrt_u = u, mrt_p = p,
      mrt_tag = 4, mrt_cond = 14\<rparr>"
proof -
  have al: "take_bit 4 AL = 14" by simp
  show ?thesis
    unfolding DEF_MRT_raw [OF assms(1) fits_mrt(1) assms(2) fits_0_1(2,1) assms(3,4)] al
    by (rule MRT_of_raw) (simp_all only: ARMInstrMRT.simps assms fits_mrt fits_0_1)
qed

text \<open>
  C38: Pushing and popping eight registers emit one word each: the store-multiple that decrements the stack pointer before
  (\<open>0xE92D0000\<close> with the register list) and the load-multiple that increments it after (\<open>0xE8BD0000\<close>), both with write-back,
  on the same register list, whose bits are exactly those of the registers named; read as a multiple transfer, the words
  have these fields.
\<close>
theorem push_pop_register_lists:
  assumes "list_all (fits 4) [r1, r2, r3, r4, r5, r6, r7, r8]"
  shows "\<exists>regs w v. ARM_PUSH8 r1 r2 r3 r4 r5 r6 r7 r8 = ARM_EMIT w \<and>
     ARM_POP8 r1 r2 r3 r4 r5 r6 r7 r8 = ARM_EMIT v \<and> w = 0xE92D0000 OR regs \<and> v = 0xE8BD0000 OR regs \<and>
     ARMInstrMRT_of w = \<lparr>mrt_reg_list = regs, mrt_rn = 13, mrt_ls = 0, mrt_wb = 1, mrt_s = 0, mrt_u = 0,
       mrt_p = 1, mrt_tag = 4, mrt_cond = 14\<rparr> \<and>
     ARMInstrMRT_of v = \<lparr>mrt_reg_list = regs, mrt_rn = 13, mrt_ls = 1, mrt_wb = 1, mrt_s = 0, mrt_u = 1,
       mrt_p = 0, mrt_tag = 4, mrt_cond = 14\<rparr> \<and>
     (\<forall>k. bit regs k \<longleftrightarrow> k \<in> unat ` {r1, r2, r3, r4, r5, r6, r7, r8})"
proof -
  define regs :: u32 where "regs = push_bit (unat r1) 1 OR push_bit (unat r2) 1 OR push_bit (unat r3) 1 OR
    push_bit (unat r4) 1 OR push_bit (unat r5) 1 OR push_bit (unat r6) 1 OR push_bit (unat r7) 1 OR
    push_bit (unat r8) 1"
  have one: "fits 4 r \<Longrightarrow> bit (push_bit (unat r) (1 :: u32)) k \<longleftrightarrow> k = unat r" for r k
    using fits_register [of r] by (auto simp: bit_simps)
  have small: "fits 4 r1" "fits 4 r2" "fits 4 r3" "fits 4 r4" "fits 4 r5" "fits 4 r6" "fits 4 r7" "fits 4 r8"
    using assms by simp_all
  have bits: "bit regs k \<longleftrightarrow> k \<in> unat ` {r1, r2, r3, r4, r5, r6, r7, r8}" for k
    by (simp only: regs_def bit_or_iff small [THEN one] image_insert image_empty insert_iff empty_iff
        disj_assoc simp_thms)
  have "fits 16 regs"
    unfolding fits_def
  proof (rule bit_eqI)
    fix k
    have "bit regs k \<Longrightarrow> k < 16" using small [THEN fits_register] by (simp only: bits) blast
    then show "bit (take_bit 16 regs) k \<longleftrightarrow> bit regs k" by (metis bit_take_bit_iff)
  qed
  note d = DEF_MRT_decoded [OF this]
  have push: "ARM_PUSH8 r1 r2 r3 r4 r5 r6 r7 r8 = ARM_EMIT (ARM_DEF_MRT regs 13 0 1 0 0 1 AL)"
    by (simp only: ARM_PUSH8_def ARM_PUSH_def regs_def or.assoc ARMReg_val.simps)
  have pop: "ARM_POP8 r1 r2 r3 r4 r5 r6 r7 r8 = ARM_EMIT (ARM_DEF_MRT regs 13 1 1 0 1 0 AL)"
    by (simp only: ARM_POP8_def ARM_POP_def regs_def or.assoc ARMReg_val.simps)
  have words: "ARM_DEF_MRT regs 13 0 1 0 0 1 AL = 0xE92D0000 OR regs" "ARM_DEF_MRT regs 13 1 1 0 1 0 AL = 0xE8BD0000 OR regs"
    by (simp_all add: ARM_DEF_MRT_def arm_defs or_ac)
  from push pop d [OF fits_0_1(1,1,2)] d [OF fits_0_1(2,2,1)] bits words show ?thesis by blast
qed

theorem push_pop_register_lists_witness:
  "\<exists>regs w. ARM_PUSH8 4 5 6 7 8 9 10 14 = ARM_EMIT w \<and> mrt_reg_list (ARMInstrMRT_of w) = regs \<and>
     bit regs 14 \<and> \<not> bit regs 13"
proof -
  have "list_all (fits 4) [4, 5, 6, 7, 8, 9, 10, 14 :: u32]" by (simp add: fits_def)
  from push_pop_register_lists [OF this] obtain regs w where
    w: "ARM_PUSH8 4 5 6 7 8 9 10 14 = ARM_EMIT w" and
    s: "ARMInstrMRT_of w = \<lparr>mrt_reg_list = regs, mrt_rn = 13, mrt_ls = 0, mrt_wb = 1, mrt_s = 0, mrt_u = 0,
       mrt_p = 1, mrt_tag = 4, mrt_cond = 14\<rparr>" and
    bits: "\<forall>k. bit regs k \<longleftrightarrow> k \<in> unat ` {4, 5, 6, 7, 8, 9, 10, 14 :: u32}"
    by blast
  show ?thesis by (intro exI [of _ regs] exI [of _ w]) (simp add: w s bits)
qed

end
