(* ===== verification/ArmVfp.thy ===== *)
theory ArmVfp
  imports ArmCodegen
begin

text \<open>
  \<open>mono/arch/arm/arm-vfp-codegen.h\<close> and \<open>arm_vfpmacros.h\<close>: the floating-point
  instructions. Registers are numbered as single-precision registers, so a double-precision
  register is an even number. The enumeration is a datatype with the values of its constants.
\<close>

unbundle bit_operations_syntax

section \<open>Registers and operations\<close>

definition ARM_VFP_OP :: "u32 \<Rightarrow> u32 \<Rightarrow> u32 \<Rightarrow> u32 \<Rightarrow> u32" where
  "ARM_VFP_OP p q r s = push_bit 23 p OR push_bit 21 q OR push_bit 20 r OR push_bit 6 s"

definition ARM_VFP_OP2 :: "u32 \<Rightarrow> u32 \<Rightarrow> u32" where
  "ARM_VFP_OP2 Fn N = ARM_VFP_OP 1 1 1 1 OR push_bit 16 Fn OR push_bit 7 N"

datatype (plugins only: ) ARMVfp =
  ARM_VFP_F0 | ARM_VFP_F1 | ARM_VFP_F2 | ARM_VFP_F3 | ARM_VFP_F4 | ARM_VFP_F5 | ARM_VFP_F6 |
  ARM_VFP_F7 | ARM_VFP_F8 | ARM_VFP_F9 | ARM_VFP_F10 | ARM_VFP_F11 | ARM_VFP_F12 | ARM_VFP_F13
  | ARM_VFP_F14 | ARM_VFP_F15 | ARM_VFP_F16 | ARM_VFP_F17 | ARM_VFP_F18 | ARM_VFP_F19 |
  ARM_VFP_F20 | ARM_VFP_F21 | ARM_VFP_F22 | ARM_VFP_F23 | ARM_VFP_F24 | ARM_VFP_F25 |
  ARM_VFP_F26 | ARM_VFP_F27 | ARM_VFP_F28 | ARM_VFP_F29 | ARM_VFP_F30 | ARM_VFP_F31 |
  ARM_VFP_D0 | ARM_VFP_D1 | ARM_VFP_D2 | ARM_VFP_D3 | ARM_VFP_D4 | ARM_VFP_D5 | ARM_VFP_D6 |
  ARM_VFP_D7 | ARM_VFP_D8 | ARM_VFP_D9 | ARM_VFP_D10 | ARM_VFP_D11 | ARM_VFP_D12 | ARM_VFP_D13
  | ARM_VFP_D14 | ARM_VFP_D15 | ARM_VFP_COPROC_SINGLE | ARM_VFP_COPROC_DOUBLE | ARM_VFP_MUL |
  ARM_VFP_NMUL | ARM_VFP_ADD | ARM_VFP_SUB | ARM_VFP_DIV | ARM_VFP_CPY | ARM_VFP_ABS |
  ARM_VFP_NEG | ARM_VFP_SQRT | ARM_VFP_CMP | ARM_VFP_CMPE | ARM_VFP_CMPZ | ARM_VFP_CMPEZ |
  ARM_VFP_CVT | ARM_VFP_UITO | ARM_VFP_SITO | ARM_VFP_TOUI | ARM_VFP_TOSI | ARM_VFP_TOUIZ |
  ARM_VFP_TOSIZ | ARM_VFP_SID | ARM_VFP_SCR | ARM_VFP_EXC

primrec ARMVfp_val :: "ARMVfp \<Rightarrow> u32" where
  "ARMVfp_val ARM_VFP_F0 = 0"
| "ARMVfp_val ARM_VFP_F1 = 1"
| "ARMVfp_val ARM_VFP_F2 = 2"
| "ARMVfp_val ARM_VFP_F3 = 3"
| "ARMVfp_val ARM_VFP_F4 = 4"
| "ARMVfp_val ARM_VFP_F5 = 5"
| "ARMVfp_val ARM_VFP_F6 = 6"
| "ARMVfp_val ARM_VFP_F7 = 7"
| "ARMVfp_val ARM_VFP_F8 = 8"
| "ARMVfp_val ARM_VFP_F9 = 9"
| "ARMVfp_val ARM_VFP_F10 = 10"
| "ARMVfp_val ARM_VFP_F11 = 11"
| "ARMVfp_val ARM_VFP_F12 = 12"
| "ARMVfp_val ARM_VFP_F13 = 13"
| "ARMVfp_val ARM_VFP_F14 = 14"
| "ARMVfp_val ARM_VFP_F15 = 15"
| "ARMVfp_val ARM_VFP_F16 = 16"
| "ARMVfp_val ARM_VFP_F17 = 17"
| "ARMVfp_val ARM_VFP_F18 = 18"
| "ARMVfp_val ARM_VFP_F19 = 19"
| "ARMVfp_val ARM_VFP_F20 = 20"
| "ARMVfp_val ARM_VFP_F21 = 21"
| "ARMVfp_val ARM_VFP_F22 = 22"
| "ARMVfp_val ARM_VFP_F23 = 23"
| "ARMVfp_val ARM_VFP_F24 = 24"
| "ARMVfp_val ARM_VFP_F25 = 25"
| "ARMVfp_val ARM_VFP_F26 = 26"
| "ARMVfp_val ARM_VFP_F27 = 27"
| "ARMVfp_val ARM_VFP_F28 = 28"
| "ARMVfp_val ARM_VFP_F29 = 29"
| "ARMVfp_val ARM_VFP_F30 = 30"
| "ARMVfp_val ARM_VFP_F31 = 31"
| "ARMVfp_val ARM_VFP_D0 = 0"
| "ARMVfp_val ARM_VFP_D1 = 2"
| "ARMVfp_val ARM_VFP_D2 = 4"
| "ARMVfp_val ARM_VFP_D3 = 6"
| "ARMVfp_val ARM_VFP_D4 = 8"
| "ARMVfp_val ARM_VFP_D5 = 10"
| "ARMVfp_val ARM_VFP_D6 = 12"
| "ARMVfp_val ARM_VFP_D7 = 14"
| "ARMVfp_val ARM_VFP_D8 = 16"
| "ARMVfp_val ARM_VFP_D9 = 18"
| "ARMVfp_val ARM_VFP_D10 = 20"
| "ARMVfp_val ARM_VFP_D11 = 22"
| "ARMVfp_val ARM_VFP_D12 = 24"
| "ARMVfp_val ARM_VFP_D13 = 26"
| "ARMVfp_val ARM_VFP_D14 = 28"
| "ARMVfp_val ARM_VFP_D15 = 30"
| "ARMVfp_val ARM_VFP_COPROC_SINGLE = 10"
| "ARMVfp_val ARM_VFP_COPROC_DOUBLE = 11"
| "ARMVfp_val ARM_VFP_MUL = ARM_VFP_OP 0 1 0 0"
| "ARMVfp_val ARM_VFP_NMUL = ARM_VFP_OP 0 1 0 1"
| "ARMVfp_val ARM_VFP_ADD = ARM_VFP_OP 0 1 1 0"
| "ARMVfp_val ARM_VFP_SUB = ARM_VFP_OP 0 1 1 1"
| "ARMVfp_val ARM_VFP_DIV = ARM_VFP_OP 1 0 0 0"
| "ARMVfp_val ARM_VFP_CPY = ARM_VFP_OP2 0 0"
| "ARMVfp_val ARM_VFP_ABS = ARM_VFP_OP2 0 1"
| "ARMVfp_val ARM_VFP_NEG = ARM_VFP_OP2 1 0"
| "ARMVfp_val ARM_VFP_SQRT = ARM_VFP_OP2 1 1"
| "ARMVfp_val ARM_VFP_CMP = ARM_VFP_OP2 4 0"
| "ARMVfp_val ARM_VFP_CMPE = ARM_VFP_OP2 4 1"
| "ARMVfp_val ARM_VFP_CMPZ = ARM_VFP_OP2 5 0"
| "ARMVfp_val ARM_VFP_CMPEZ = ARM_VFP_OP2 5 1"
| "ARMVfp_val ARM_VFP_CVT = ARM_VFP_OP2 7 1"
| "ARMVfp_val ARM_VFP_UITO = ARM_VFP_OP2 8 0"
| "ARMVfp_val ARM_VFP_SITO = ARM_VFP_OP2 8 1"
| "ARMVfp_val ARM_VFP_TOUI = ARM_VFP_OP2 12 0"
| "ARMVfp_val ARM_VFP_TOSI = ARM_VFP_OP2 13 0"
| "ARMVfp_val ARM_VFP_TOUIZ = ARM_VFP_OP2 12 1"
| "ARMVfp_val ARM_VFP_TOSIZ = ARM_VFP_OP2 13 1"
| "ARMVfp_val ARM_VFP_SID = 0"
| "ARMVfp_val ARM_VFP_SCR = push_bit 1 1"
| "ARMVfp_val ARM_VFP_EXC = push_bit 1 8"

section \<open>Instruction words\<close>

definition ARM_DEF_VFP_DYADIC ::
  "u32 \<Rightarrow> u32 \<Rightarrow> u32 \<Rightarrow> u32 \<Rightarrow> u32 \<Rightarrow>
   u32 \<Rightarrow> u32" where
  "ARM_DEF_VFP_DYADIC cond cp op Fd Fn Fm =
     (push_bit 24 14) OR (push_bit 8 cp) OR op OR (push_bit 12 (drop_bit 1 Fd)) OR (push_bit 22
     (Fd AND 1)) OR (push_bit 16 (drop_bit 1 Fn)) OR (push_bit 7 (Fn AND 1)) OR (push_bit 0
     (drop_bit 1 Fm)) OR (push_bit 5 (Fm AND 1)) OR (ARM_DEF_COND cond)"

definition ARM_DEF_VFP_MONADIC ::
  "u32 \<Rightarrow> u32 \<Rightarrow> u32 \<Rightarrow> u32 \<Rightarrow> u32 \<Rightarrow>
   u32" where
  "ARM_DEF_VFP_MONADIC cond cp op Fd Fm =
     (push_bit 24 14) OR (push_bit 8 cp) OR op OR (push_bit 12 (drop_bit 1 Fd)) OR (push_bit 22
     (Fd AND 1)) OR (push_bit 0 (drop_bit 1 Fm)) OR (push_bit 5 (Fm AND 1)) OR (ARM_DEF_COND
     cond)"

text \<open>The offset is a signed number of bytes; the arithmetic shift of the code is on its magnitude.\<close>

definition ARM_DEF_VFP_LSF ::
  "u32 \<Rightarrow> u32 \<Rightarrow> u32 \<Rightarrow> u32 \<Rightarrow> u32 \<Rightarrow> u32 \<Rightarrow> u32 \<Rightarrow> u32 \<Rightarrow> u32" where
  "ARM_DEF_VFP_LSF cond cp post ls wback basereg Fd offset =
     (if sint offset \<ge> 0 then signed_drop_bit 2 offset else signed_drop_bit 2 (- offset)) OR push_bit 25 6 OR
     push_bit 8 cp OR push_bit 12 (drop_bit 1 Fd) OR push_bit 22 (Fd AND 1) OR push_bit 16 basereg OR
     push_bit 20 ls OR push_bit 21 wback OR push_bit 23 (c_int (sint offset \<ge> 0)) OR push_bit 21 wback OR
     push_bit 24 post OR ARM_DEF_COND cond"

definition ARM_DEF_VFP_CPT ::
  "u32 \<Rightarrow> u32 \<Rightarrow> u32 \<Rightarrow> u32 \<Rightarrow> u32 \<Rightarrow>
   u32 \<Rightarrow> u32" where
  "ARM_DEF_VFP_CPT cond cp op L Fn Rd =
     (push_bit 24 14) OR (push_bit 4 1) OR (push_bit 8 cp) OR (push_bit 21 op) OR (push_bit 20 L)
     OR (push_bit 12 Rd) OR (push_bit 16 (drop_bit 1 Fn)) OR (push_bit 7 (Fn AND 1)) OR
     (ARM_DEF_COND cond)"

definition ARM_DEF_MCRR ::
  "u32 \<Rightarrow> u32 \<Rightarrow> u32 \<Rightarrow> u32 \<Rightarrow> u32 \<Rightarrow>
   u32 \<Rightarrow> u32" where
  "ARM_DEF_MCRR cond cp rn rd Fm M =
     (push_bit 0 Fm) OR (push_bit 4 1) OR (push_bit 5 M) OR (push_bit 8 cp) OR (push_bit 12 rd)
     OR (push_bit 16 rn) OR (push_bit 21 2) OR (push_bit 24 12) OR (ARM_DEF_COND cond)"

definition ARM_DEF_FMRRD ::
  "u32 \<Rightarrow> u32 \<Rightarrow> u32 \<Rightarrow> u32 \<Rightarrow> u32 \<Rightarrow>
   u32 \<Rightarrow> u32" where
  "ARM_DEF_FMRRD cond cp rn rd Dm D =
     (push_bit 0 Dm) OR (push_bit 4 1) OR (push_bit 8 cp) OR (push_bit 12 rd) OR (push_bit 16 rn)
     OR (push_bit 20 0xc5) OR (ARM_DEF_COND cond)"

definition ARM_DEF_FUITOS ::
  "u32 \<Rightarrow> u32 \<Rightarrow> u32 \<Rightarrow> u32 \<Rightarrow> u32 \<Rightarrow>
   u32" where
  "ARM_DEF_FUITOS cond Dd D Fm M =
     (push_bit 28 cond) OR (push_bit 23 0x1d) OR (push_bit 22 D) OR (push_bit 20 0x3) OR
     (push_bit 16 8) OR (push_bit 12 Dd) OR (push_bit 8 0xa) OR (push_bit 6 1) OR (push_bit 5 M)
     OR (push_bit 0 Fm)"

definition ARM_DEF_FUITOD ::
  "u32 \<Rightarrow> u32 \<Rightarrow> u32 \<Rightarrow> u32 \<Rightarrow> u32 \<Rightarrow>
   u32" where
  "ARM_DEF_FUITOD cond Dd D Fm M =
     (push_bit 28 cond) OR (push_bit 23 0x1d) OR (push_bit 22 D) OR (push_bit 20 0x3) OR
     (push_bit 16 8) OR (push_bit 12 Dd) OR (push_bit 8 0xb) OR (push_bit 6 1) OR (push_bit 5 M)
     OR (push_bit 0 Fm)"

definition ARM_DEF_FSITOS ::
  "u32 \<Rightarrow> u32 \<Rightarrow> u32 \<Rightarrow> u32 \<Rightarrow> u32 \<Rightarrow>
   u32" where
  "ARM_DEF_FSITOS cond Dd D Fm M =
     (push_bit 28 cond) OR (push_bit 23 0x1d) OR (push_bit 22 D) OR (push_bit 20 0x3) OR
     (push_bit 16 8) OR (push_bit 12 Dd) OR (push_bit 8 0xa) OR (push_bit 7 1) OR (push_bit 6 1)
     OR (push_bit 5 M) OR (push_bit 0 Fm)"

definition ARM_DEF_FSITOD ::
  "u32 \<Rightarrow> u32 \<Rightarrow> u32 \<Rightarrow> u32 \<Rightarrow> u32 \<Rightarrow>
   u32" where
  "ARM_DEF_FSITOD cond Dd D Fm M =
     (push_bit 28 cond) OR (push_bit 23 0x1d) OR (push_bit 22 D) OR (push_bit 20 0x3) OR
     (push_bit 16 8) OR (push_bit 12 Dd) OR (push_bit 8 0xb) OR (push_bit 7 1) OR (push_bit 6 1)
     OR (push_bit 5 M) OR (push_bit 0 Fm)"

section \<open>Loads, stores and transfers\<close>

definition ARM_FLDS_COND :: "u32 \<Rightarrow> u32 \<Rightarrow> u32 \<Rightarrow> u32 \<Rightarrow> code \<Rightarrow>
     code option" where
  "ARM_FLDS_COND freg base offset cond = ARM_EMIT (ARM_DEF_VFP_LSF cond (ARMVfp_val ARM_VFP_COPROC_SINGLE) 1 (ARMOpcode_val
     ARMOP_LDR) 0 base freg offset)"

definition ARM_FLDS :: "u32 \<Rightarrow> u32 \<Rightarrow> u32 \<Rightarrow> code \<Rightarrow> code option" where
  "ARM_FLDS freg base offset = ARM_FLDS_COND freg base offset (AL)"

definition ARM_FLDD_COND :: "u32 \<Rightarrow> u32 \<Rightarrow> u32 \<Rightarrow> u32 \<Rightarrow> code \<Rightarrow>
     code option" where
  "ARM_FLDD_COND freg base offset cond = ARM_EMIT (ARM_DEF_VFP_LSF cond (ARMVfp_val ARM_VFP_COPROC_DOUBLE) 1 (ARMOpcode_val
     ARMOP_LDR) 0 base freg offset)"

definition ARM_FLDD :: "u32 \<Rightarrow> u32 \<Rightarrow> u32 \<Rightarrow> code \<Rightarrow> code option" where
  "ARM_FLDD freg base offset = ARM_FLDD_COND freg base offset (AL)"

definition ARM_FSTS_COND :: "u32 \<Rightarrow> u32 \<Rightarrow> u32 \<Rightarrow> u32 \<Rightarrow> code \<Rightarrow>
     code option" where
  "ARM_FSTS_COND freg base offset cond = ARM_EMIT (ARM_DEF_VFP_LSF cond (ARMVfp_val ARM_VFP_COPROC_SINGLE) 1 (ARMOpcode_val
     ARMOP_STR) 0 base freg offset)"

definition ARM_FSTS :: "u32 \<Rightarrow> u32 \<Rightarrow> u32 \<Rightarrow> code \<Rightarrow> code option" where
  "ARM_FSTS freg base offset = ARM_FSTS_COND freg base offset (AL)"

definition ARM_FSTD_COND :: "u32 \<Rightarrow> u32 \<Rightarrow> u32 \<Rightarrow> u32 \<Rightarrow> code \<Rightarrow>
     code option" where
  "ARM_FSTD_COND freg base offset cond = ARM_EMIT (ARM_DEF_VFP_LSF cond (ARMVfp_val ARM_VFP_COPROC_DOUBLE) 1 (ARMOpcode_val
     ARMOP_STR) 0 base freg offset)"

definition ARM_FSTD :: "u32 \<Rightarrow> u32 \<Rightarrow> u32 \<Rightarrow> code \<Rightarrow> code option" where
  "ARM_FSTD freg base offset = ARM_FSTD_COND freg base offset (AL)"

definition ARM_FLDMD_COND :: "u32 \<Rightarrow> u32 \<Rightarrow> u32 \<Rightarrow> u32 \<Rightarrow> code \<Rightarrow>
     code option" where
  "ARM_FLDMD_COND first_reg nregs base cond = ARM_EMIT (ARM_DEF_VFP_LSF cond (ARMVfp_val ARM_VFP_COPROC_DOUBLE) 0 (ARMOpcode_val
     ARMOP_LDR) 0 base first_reg (push_bit 2 (nregs * 2)))"

definition ARM_FLDMD :: "u32 \<Rightarrow> u32 \<Rightarrow> u32 \<Rightarrow> code \<Rightarrow> code option" where
  "ARM_FLDMD first_reg nregs base = ARM_FLDMD_COND first_reg nregs base (AL)"

definition ARM_FSTMD_COND :: "u32 \<Rightarrow> u32 \<Rightarrow> u32 \<Rightarrow> u32 \<Rightarrow> code \<Rightarrow>
     code option" where
  "ARM_FSTMD_COND first_reg nregs base cond = ARM_EMIT (ARM_DEF_VFP_LSF cond (ARMVfp_val ARM_VFP_COPROC_DOUBLE) 0 (ARMOpcode_val
     ARMOP_STR) 0 base first_reg (push_bit 2 (nregs * 2)))"

definition ARM_FSTMD :: "u32 \<Rightarrow> u32 \<Rightarrow> u32 \<Rightarrow> code \<Rightarrow> code option" where
  "ARM_FSTMD first_reg nregs base = ARM_FSTMD_COND first_reg nregs base (AL)"

definition ARM_FMSR :: "u32 \<Rightarrow> u32 \<Rightarrow> code \<Rightarrow> code option" where
  "ARM_FMSR freg reg = ARM_EMIT (ARM_DEF_VFP_CPT (AL) (ARMVfp_val ARM_VFP_COPROC_SINGLE) 0 0 freg reg)"

definition ARM_FMRS :: "u32 \<Rightarrow> u32 \<Rightarrow> code \<Rightarrow> code option" where
  "ARM_FMRS reg freg = ARM_EMIT (ARM_DEF_VFP_CPT (AL) (ARMVfp_val ARM_VFP_COPROC_SINGLE) 0 1 freg reg)"

definition ARM_FMDLR :: "u32 \<Rightarrow> u32 \<Rightarrow> code \<Rightarrow> code option" where
  "ARM_FMDLR freg reg = ARM_EMIT (ARM_DEF_VFP_CPT (AL) (ARMVfp_val ARM_VFP_COPROC_DOUBLE) 0 0 freg reg)"

definition ARM_FMRDL :: "u32 \<Rightarrow> u32 \<Rightarrow> code \<Rightarrow> code option" where
  "ARM_FMRDL reg freg = ARM_EMIT (ARM_DEF_VFP_CPT (AL) (ARMVfp_val ARM_VFP_COPROC_DOUBLE) 0 1 freg reg)"

definition ARM_FMDHR :: "u32 \<Rightarrow> u32 \<Rightarrow> code \<Rightarrow> code option" where
  "ARM_FMDHR freg reg = ARM_EMIT (ARM_DEF_VFP_CPT (AL) (ARMVfp_val ARM_VFP_COPROC_DOUBLE) 1 0 freg reg)"

definition ARM_FMRDH :: "u32 \<Rightarrow> u32 \<Rightarrow> code \<Rightarrow> code option" where
  "ARM_FMRDH reg freg = ARM_EMIT (ARM_DEF_VFP_CPT (AL) (ARMVfp_val ARM_VFP_COPROC_DOUBLE) 1 1 freg reg)"

definition ARM_FMXR :: "u32 \<Rightarrow> u32 \<Rightarrow> code \<Rightarrow> code option" where
  "ARM_FMXR freg reg = ARM_EMIT (ARM_DEF_VFP_CPT (AL) (ARMVfp_val ARM_VFP_COPROC_SINGLE) 7 0 freg reg)"

definition ARM_FMRX :: "u32 \<Rightarrow> u32 \<Rightarrow> code \<Rightarrow> code option" where
  "ARM_FMRX reg fcreg = ARM_EMIT (ARM_DEF_VFP_CPT (AL) (ARMVfp_val ARM_VFP_COPROC_SINGLE) 7 1 fcreg reg)"

definition ARM_FMSTAT :: "code \<Rightarrow> code option" where
  "ARM_FMSTAT = ARM_FMRX (ARMReg_val ARMREG_R15) (ARMVfp_val ARM_VFP_SCR)"

definition ARM_FMDRR :: "u32 \<Rightarrow> u32 \<Rightarrow> u32 \<Rightarrow> code \<Rightarrow> code option" where
  "ARM_FMDRR rd rn dm = ARM_EMIT (ARM_DEF_MCRR (AL) (ARMVfp_val ARM_VFP_COPROC_DOUBLE) rn rd (drop_bit 1 dm) (dm AND
     1))"

definition ARM_FMRRD :: "u32 \<Rightarrow> u32 \<Rightarrow> u32 \<Rightarrow> code \<Rightarrow> code option" where
  "ARM_FMRRD rd rn dm = ARM_EMIT (ARM_DEF_FMRRD (AL) (ARMVfp_val ARM_VFP_COPROC_DOUBLE) rn rd (drop_bit 1 dm) (dm
     AND 1))"

definition ARM_FUITOS :: "u32 \<Rightarrow> u32 \<Rightarrow> code \<Rightarrow> code option" where
  "ARM_FUITOS dreg sreg = ARM_EMIT (ARM_DEF_FUITOS (AL) (drop_bit 1 dreg) (dreg AND 1) (drop_bit 1 sreg) (sreg AND 1))"

definition ARM_FUITOD :: "u32 \<Rightarrow> u32 \<Rightarrow> code \<Rightarrow> code option" where
  "ARM_FUITOD dreg sreg = ARM_EMIT (ARM_DEF_FUITOD (AL) (drop_bit 1 dreg) (dreg AND 1) (drop_bit 1 sreg) (sreg AND 1))"

definition ARM_FSITOS :: "u32 \<Rightarrow> u32 \<Rightarrow> code \<Rightarrow> code option" where
  "ARM_FSITOS dreg sreg = ARM_EMIT (ARM_DEF_FSITOS (AL) (drop_bit 1 dreg) (dreg AND 1) (drop_bit 1 sreg) (sreg AND 1))"

definition ARM_FSITOD :: "u32 \<Rightarrow> u32 \<Rightarrow> code \<Rightarrow> code option" where
  "ARM_FSITOD dreg sreg = ARM_EMIT (ARM_DEF_FSITOD (AL) (drop_bit 1 dreg) (dreg AND 1) (drop_bit 1 sreg) (sreg AND 1))"

section \<open>Arithmetic and conversions\<close>

definition ARM_VFP_ADDD_COND :: "u32 \<Rightarrow> u32 \<Rightarrow> u32 \<Rightarrow> u32 \<Rightarrow> code \<Rightarrow>
     code option" where
  "ARM_VFP_ADDD_COND rd rn rm cond = ARM_EMIT (ARM_DEF_VFP_DYADIC cond (ARMVfp_val ARM_VFP_COPROC_DOUBLE) (ARMVfp_val
     ARM_VFP_ADD) rd rn rm)"

definition ARM_VFP_ADDD :: "u32 \<Rightarrow> u32 \<Rightarrow> u32 \<Rightarrow> code \<Rightarrow> code option" where
  "ARM_VFP_ADDD rd rn rm = ARM_VFP_ADDD_COND rd rn rm (AL)"

definition ARM_VFP_ADDS_COND :: "u32 \<Rightarrow> u32 \<Rightarrow> u32 \<Rightarrow> u32 \<Rightarrow> code \<Rightarrow>
     code option" where
  "ARM_VFP_ADDS_COND rd rn rm cond = ARM_EMIT (ARM_DEF_VFP_DYADIC cond (ARMVfp_val ARM_VFP_COPROC_SINGLE) (ARMVfp_val
     ARM_VFP_ADD) rd rn rm)"

definition ARM_VFP_ADDS :: "u32 \<Rightarrow> u32 \<Rightarrow> u32 \<Rightarrow> code \<Rightarrow> code option" where
  "ARM_VFP_ADDS rd rn rm = ARM_VFP_ADDS_COND rd rn rm (AL)"

definition ARM_VFP_SUBD_COND :: "u32 \<Rightarrow> u32 \<Rightarrow> u32 \<Rightarrow> u32 \<Rightarrow> code \<Rightarrow>
     code option" where
  "ARM_VFP_SUBD_COND rd rn rm cond = ARM_EMIT (ARM_DEF_VFP_DYADIC cond (ARMVfp_val ARM_VFP_COPROC_DOUBLE) (ARMVfp_val
     ARM_VFP_SUB) rd rn rm)"

definition ARM_VFP_SUBD :: "u32 \<Rightarrow> u32 \<Rightarrow> u32 \<Rightarrow> code \<Rightarrow> code option" where
  "ARM_VFP_SUBD rd rn rm = ARM_VFP_SUBD_COND rd rn rm (AL)"

definition ARM_VFP_SUBS_COND :: "u32 \<Rightarrow> u32 \<Rightarrow> u32 \<Rightarrow> u32 \<Rightarrow> code \<Rightarrow>
     code option" where
  "ARM_VFP_SUBS_COND rd rn rm cond = ARM_EMIT (ARM_DEF_VFP_DYADIC cond (ARMVfp_val ARM_VFP_COPROC_SINGLE) (ARMVfp_val
     ARM_VFP_SUB) rd rn rm)"

definition ARM_VFP_SUBS :: "u32 \<Rightarrow> u32 \<Rightarrow> u32 \<Rightarrow> code \<Rightarrow> code option" where
  "ARM_VFP_SUBS rd rn rm = ARM_VFP_SUBS_COND rd rn rm (AL)"

definition ARM_VFP_MULD_COND :: "u32 \<Rightarrow> u32 \<Rightarrow> u32 \<Rightarrow> u32 \<Rightarrow> code \<Rightarrow>
     code option" where
  "ARM_VFP_MULD_COND rd rn rm cond = ARM_EMIT (ARM_DEF_VFP_DYADIC cond (ARMVfp_val ARM_VFP_COPROC_DOUBLE) (ARMVfp_val
     ARM_VFP_MUL) rd rn rm)"

definition ARM_VFP_MULD :: "u32 \<Rightarrow> u32 \<Rightarrow> u32 \<Rightarrow> code \<Rightarrow> code option" where
  "ARM_VFP_MULD rd rn rm = ARM_VFP_MULD_COND rd rn rm (AL)"

definition ARM_VFP_MULS_COND :: "u32 \<Rightarrow> u32 \<Rightarrow> u32 \<Rightarrow> u32 \<Rightarrow> code \<Rightarrow>
     code option" where
  "ARM_VFP_MULS_COND rd rn rm cond = ARM_EMIT (ARM_DEF_VFP_DYADIC cond (ARMVfp_val ARM_VFP_COPROC_SINGLE) (ARMVfp_val
     ARM_VFP_MUL) rd rn rm)"

definition ARM_VFP_MULS :: "u32 \<Rightarrow> u32 \<Rightarrow> u32 \<Rightarrow> code \<Rightarrow> code option" where
  "ARM_VFP_MULS rd rn rm = ARM_VFP_MULS_COND rd rn rm (AL)"

definition ARM_VFP_NMULD_COND :: "u32 \<Rightarrow> u32 \<Rightarrow> u32 \<Rightarrow> u32 \<Rightarrow> code \<Rightarrow>
     code option" where
  "ARM_VFP_NMULD_COND rd rn rm cond = ARM_EMIT (ARM_DEF_VFP_DYADIC cond (ARMVfp_val ARM_VFP_COPROC_DOUBLE) (ARMVfp_val
     ARM_VFP_NMUL) rd rn rm)"

definition ARM_VFP_NMULD :: "u32 \<Rightarrow> u32 \<Rightarrow> u32 \<Rightarrow> code \<Rightarrow> code option" where
  "ARM_VFP_NMULD rd rn rm = ARM_VFP_NMULD_COND rd rn rm (AL)"

definition ARM_VFP_NMULS_COND :: "u32 \<Rightarrow> u32 \<Rightarrow> u32 \<Rightarrow> u32 \<Rightarrow> code \<Rightarrow>
     code option" where
  "ARM_VFP_NMULS_COND rd rn rm cond = ARM_EMIT (ARM_DEF_VFP_DYADIC cond (ARMVfp_val ARM_VFP_COPROC_SINGLE) (ARMVfp_val
     ARM_VFP_NMUL) rd rn rm)"

definition ARM_VFP_NMULS :: "u32 \<Rightarrow> u32 \<Rightarrow> u32 \<Rightarrow> code \<Rightarrow> code option" where
  "ARM_VFP_NMULS rd rn rm = ARM_VFP_NMULS_COND rd rn rm (AL)"

definition ARM_VFP_DIVD_COND :: "u32 \<Rightarrow> u32 \<Rightarrow> u32 \<Rightarrow> u32 \<Rightarrow> code \<Rightarrow>
     code option" where
  "ARM_VFP_DIVD_COND rd rn rm cond = ARM_EMIT (ARM_DEF_VFP_DYADIC cond (ARMVfp_val ARM_VFP_COPROC_DOUBLE) (ARMVfp_val
     ARM_VFP_DIV) rd rn rm)"

definition ARM_VFP_DIVD :: "u32 \<Rightarrow> u32 \<Rightarrow> u32 \<Rightarrow> code \<Rightarrow> code option" where
  "ARM_VFP_DIVD rd rn rm = ARM_VFP_DIVD_COND rd rn rm (AL)"

definition ARM_VFP_DIVS_COND :: "u32 \<Rightarrow> u32 \<Rightarrow> u32 \<Rightarrow> u32 \<Rightarrow> code \<Rightarrow>
     code option" where
  "ARM_VFP_DIVS_COND rd rn rm cond = ARM_EMIT (ARM_DEF_VFP_DYADIC cond (ARMVfp_val ARM_VFP_COPROC_SINGLE) (ARMVfp_val
     ARM_VFP_DIV) rd rn rm)"

definition ARM_VFP_DIVS :: "u32 \<Rightarrow> u32 \<Rightarrow> u32 \<Rightarrow> code \<Rightarrow> code option" where
  "ARM_VFP_DIVS rd rn rm = ARM_VFP_DIVS_COND rd rn rm (AL)"

definition ARM_CPYD_COND :: "u32 \<Rightarrow> u32 \<Rightarrow> u32 \<Rightarrow> code \<Rightarrow> code option" where
  "ARM_CPYD_COND dreg sreg cond = ARM_EMIT (ARM_DEF_VFP_MONADIC cond (ARMVfp_val ARM_VFP_COPROC_DOUBLE) (ARMVfp_val
     ARM_VFP_CPY) dreg sreg)"

definition ARM_CPYD :: "u32 \<Rightarrow> u32 \<Rightarrow> code \<Rightarrow> code option" where
  "ARM_CPYD dreg sreg = ARM_CPYD_COND dreg sreg (AL)"

definition ARM_CPYS_COND :: "u32 \<Rightarrow> u32 \<Rightarrow> u32 \<Rightarrow> code \<Rightarrow> code option" where
  "ARM_CPYS_COND dreg sreg cond = ARM_EMIT (ARM_DEF_VFP_MONADIC cond (ARMVfp_val ARM_VFP_COPROC_SINGLE) (ARMVfp_val
     ARM_VFP_CPY) dreg sreg)"

definition ARM_CPYS :: "u32 \<Rightarrow> u32 \<Rightarrow> code \<Rightarrow> code option" where
  "ARM_CPYS dreg sreg = ARM_CPYS_COND dreg sreg (AL)"

definition ARM_ABSD_COND :: "u32 \<Rightarrow> u32 \<Rightarrow> u32 \<Rightarrow> code \<Rightarrow> code option" where
  "ARM_ABSD_COND dreg sreg cond = ARM_EMIT (ARM_DEF_VFP_MONADIC cond (ARMVfp_val ARM_VFP_COPROC_DOUBLE) (ARMVfp_val
     ARM_VFP_ABS) dreg sreg)"

definition ARM_ABSD :: "u32 \<Rightarrow> u32 \<Rightarrow> code \<Rightarrow> code option" where
  "ARM_ABSD dreg sreg = ARM_ABSD_COND dreg sreg (AL)"

definition ARM_ABSS_COND :: "u32 \<Rightarrow> u32 \<Rightarrow> u32 \<Rightarrow> code \<Rightarrow> code option" where
  "ARM_ABSS_COND dreg sreg cond = ARM_EMIT (ARM_DEF_VFP_MONADIC cond (ARMVfp_val ARM_VFP_COPROC_SINGLE) (ARMVfp_val
     ARM_VFP_ABS) dreg sreg)"

definition ARM_ABSS :: "u32 \<Rightarrow> u32 \<Rightarrow> code \<Rightarrow> code option" where
  "ARM_ABSS dreg sreg = ARM_ABSS_COND dreg sreg (AL)"

definition ARM_NEGD_COND :: "u32 \<Rightarrow> u32 \<Rightarrow> u32 \<Rightarrow> code \<Rightarrow> code option" where
  "ARM_NEGD_COND dreg sreg cond = ARM_EMIT (ARM_DEF_VFP_MONADIC cond (ARMVfp_val ARM_VFP_COPROC_DOUBLE) (ARMVfp_val
     ARM_VFP_NEG) dreg sreg)"

definition ARM_NEGD :: "u32 \<Rightarrow> u32 \<Rightarrow> code \<Rightarrow> code option" where
  "ARM_NEGD dreg sreg = ARM_NEGD_COND dreg sreg (AL)"

definition ARM_NEGS_COND :: "u32 \<Rightarrow> u32 \<Rightarrow> u32 \<Rightarrow> code \<Rightarrow> code option" where
  "ARM_NEGS_COND dreg sreg cond = ARM_EMIT (ARM_DEF_VFP_MONADIC cond (ARMVfp_val ARM_VFP_COPROC_SINGLE) (ARMVfp_val
     ARM_VFP_NEG) dreg sreg)"

definition ARM_NEGS :: "u32 \<Rightarrow> u32 \<Rightarrow> code \<Rightarrow> code option" where
  "ARM_NEGS dreg sreg = ARM_NEGS_COND dreg sreg (AL)"

definition ARM_SQRTD_COND :: "u32 \<Rightarrow> u32 \<Rightarrow> u32 \<Rightarrow> code \<Rightarrow> code option" where
  "ARM_SQRTD_COND dreg sreg cond = ARM_EMIT (ARM_DEF_VFP_MONADIC cond (ARMVfp_val ARM_VFP_COPROC_DOUBLE) (ARMVfp_val
     ARM_VFP_SQRT) dreg sreg)"

definition ARM_SQRTD :: "u32 \<Rightarrow> u32 \<Rightarrow> code \<Rightarrow> code option" where
  "ARM_SQRTD dreg sreg = ARM_SQRTD_COND dreg sreg (AL)"

definition ARM_SQRTS_COND :: "u32 \<Rightarrow> u32 \<Rightarrow> u32 \<Rightarrow> code \<Rightarrow> code option" where
  "ARM_SQRTS_COND dreg sreg cond = ARM_EMIT (ARM_DEF_VFP_MONADIC cond (ARMVfp_val ARM_VFP_COPROC_SINGLE) (ARMVfp_val
     ARM_VFP_SQRT) dreg sreg)"

definition ARM_SQRTS :: "u32 \<Rightarrow> u32 \<Rightarrow> code \<Rightarrow> code option" where
  "ARM_SQRTS dreg sreg = ARM_SQRTS_COND dreg sreg (AL)"

definition ARM_CMPD_COND :: "u32 \<Rightarrow> u32 \<Rightarrow> u32 \<Rightarrow> code \<Rightarrow> code option" where
  "ARM_CMPD_COND dreg sreg cond = ARM_EMIT (ARM_DEF_VFP_MONADIC cond (ARMVfp_val ARM_VFP_COPROC_DOUBLE) (ARMVfp_val
     ARM_VFP_CMP) dreg sreg)"

definition ARM_CMPD :: "u32 \<Rightarrow> u32 \<Rightarrow> code \<Rightarrow> code option" where
  "ARM_CMPD dreg sreg = ARM_CMPD_COND dreg sreg (AL)"

definition ARM_CMPS_COND :: "u32 \<Rightarrow> u32 \<Rightarrow> u32 \<Rightarrow> code \<Rightarrow> code option" where
  "ARM_CMPS_COND dreg sreg cond = ARM_EMIT (ARM_DEF_VFP_MONADIC cond (ARMVfp_val ARM_VFP_COPROC_SINGLE) (ARMVfp_val
     ARM_VFP_CMP) dreg sreg)"

definition ARM_CMPS :: "u32 \<Rightarrow> u32 \<Rightarrow> code \<Rightarrow> code option" where
  "ARM_CMPS dreg sreg = ARM_CMPS_COND dreg sreg (AL)"

definition ARM_CMPED_COND :: "u32 \<Rightarrow> u32 \<Rightarrow> u32 \<Rightarrow> code \<Rightarrow> code option" where
  "ARM_CMPED_COND dreg sreg cond = ARM_EMIT (ARM_DEF_VFP_MONADIC cond (ARMVfp_val ARM_VFP_COPROC_DOUBLE) (ARMVfp_val
     ARM_VFP_CMPE) dreg sreg)"

definition ARM_CMPED :: "u32 \<Rightarrow> u32 \<Rightarrow> code \<Rightarrow> code option" where
  "ARM_CMPED dreg sreg = ARM_CMPED_COND dreg sreg (AL)"

definition ARM_CMPES_COND :: "u32 \<Rightarrow> u32 \<Rightarrow> u32 \<Rightarrow> code \<Rightarrow> code option" where
  "ARM_CMPES_COND dreg sreg cond = ARM_EMIT (ARM_DEF_VFP_MONADIC cond (ARMVfp_val ARM_VFP_COPROC_SINGLE) (ARMVfp_val
     ARM_VFP_CMPE) dreg sreg)"

definition ARM_CMPES :: "u32 \<Rightarrow> u32 \<Rightarrow> code \<Rightarrow> code option" where
  "ARM_CMPES dreg sreg = ARM_CMPES_COND dreg sreg (AL)"

definition ARM_CMPZD_COND :: "u32 \<Rightarrow> u32 \<Rightarrow> u32 \<Rightarrow> code \<Rightarrow> code option" where
  "ARM_CMPZD_COND dreg sreg cond = ARM_EMIT (ARM_DEF_VFP_MONADIC cond (ARMVfp_val ARM_VFP_COPROC_DOUBLE) (ARMVfp_val
     ARM_VFP_CMPZ) dreg sreg)"

definition ARM_CMPZD :: "u32 \<Rightarrow> u32 \<Rightarrow> code \<Rightarrow> code option" where
  "ARM_CMPZD dreg sreg = ARM_CMPZD_COND dreg sreg (AL)"

definition ARM_CMPZS_COND :: "u32 \<Rightarrow> u32 \<Rightarrow> u32 \<Rightarrow> code \<Rightarrow> code option" where
  "ARM_CMPZS_COND dreg sreg cond = ARM_EMIT (ARM_DEF_VFP_MONADIC cond (ARMVfp_val ARM_VFP_COPROC_SINGLE) (ARMVfp_val
     ARM_VFP_CMPZ) dreg sreg)"

definition ARM_CMPZS :: "u32 \<Rightarrow> u32 \<Rightarrow> code \<Rightarrow> code option" where
  "ARM_CMPZS dreg sreg = ARM_CMPZS_COND dreg sreg (AL)"

definition ARM_CMPEZD_COND :: "u32 \<Rightarrow> u32 \<Rightarrow> u32 \<Rightarrow> code \<Rightarrow> code option" where
  "ARM_CMPEZD_COND dreg sreg cond = ARM_EMIT (ARM_DEF_VFP_MONADIC cond (ARMVfp_val ARM_VFP_COPROC_DOUBLE) (ARMVfp_val
     ARM_VFP_CMPEZ) dreg sreg)"

definition ARM_CMPEZD :: "u32 \<Rightarrow> u32 \<Rightarrow> code \<Rightarrow> code option" where
  "ARM_CMPEZD dreg sreg = ARM_CMPEZD_COND dreg sreg (AL)"

definition ARM_CMPEZS_COND :: "u32 \<Rightarrow> u32 \<Rightarrow> u32 \<Rightarrow> code \<Rightarrow> code option" where
  "ARM_CMPEZS_COND dreg sreg cond = ARM_EMIT (ARM_DEF_VFP_MONADIC cond (ARMVfp_val ARM_VFP_COPROC_SINGLE) (ARMVfp_val
     ARM_VFP_CMPEZ) dreg sreg)"

definition ARM_CMPEZS :: "u32 \<Rightarrow> u32 \<Rightarrow> code \<Rightarrow> code option" where
  "ARM_CMPEZS dreg sreg = ARM_CMPEZS_COND dreg sreg (AL)"

definition ARM_CVTD_COND :: "u32 \<Rightarrow> u32 \<Rightarrow> u32 \<Rightarrow> code \<Rightarrow> code option" where
  "ARM_CVTD_COND dreg sreg cond = ARM_EMIT (ARM_DEF_VFP_MONADIC cond (ARMVfp_val ARM_VFP_COPROC_DOUBLE) (ARMVfp_val
     ARM_VFP_CVT) dreg sreg)"

definition ARM_CVTD :: "u32 \<Rightarrow> u32 \<Rightarrow> code \<Rightarrow> code option" where
  "ARM_CVTD dreg sreg = ARM_CVTD_COND dreg sreg (AL)"

definition ARM_CVTS_COND :: "u32 \<Rightarrow> u32 \<Rightarrow> u32 \<Rightarrow> code \<Rightarrow> code option" where
  "ARM_CVTS_COND dreg sreg cond = ARM_EMIT (ARM_DEF_VFP_MONADIC cond (ARMVfp_val ARM_VFP_COPROC_SINGLE) (ARMVfp_val
     ARM_VFP_CVT) dreg sreg)"

definition ARM_CVTS :: "u32 \<Rightarrow> u32 \<Rightarrow> code \<Rightarrow> code option" where
  "ARM_CVTS dreg sreg = ARM_CVTS_COND dreg sreg (AL)"

definition ARM_UITOD_COND :: "u32 \<Rightarrow> u32 \<Rightarrow> u32 \<Rightarrow> code \<Rightarrow> code option" where
  "ARM_UITOD_COND dreg sreg cond = ARM_EMIT (ARM_DEF_VFP_MONADIC cond (ARMVfp_val ARM_VFP_COPROC_DOUBLE) (ARMVfp_val
     ARM_VFP_UITO) dreg sreg)"

definition ARM_UITOD :: "u32 \<Rightarrow> u32 \<Rightarrow> code \<Rightarrow> code option" where
  "ARM_UITOD dreg sreg = ARM_UITOD_COND dreg sreg (AL)"

definition ARM_UITOS_COND :: "u32 \<Rightarrow> u32 \<Rightarrow> u32 \<Rightarrow> code \<Rightarrow> code option" where
  "ARM_UITOS_COND dreg sreg cond = ARM_EMIT (ARM_DEF_VFP_MONADIC cond (ARMVfp_val ARM_VFP_COPROC_SINGLE) (ARMVfp_val
     ARM_VFP_UITO) dreg sreg)"

definition ARM_UITOS :: "u32 \<Rightarrow> u32 \<Rightarrow> code \<Rightarrow> code option" where
  "ARM_UITOS dreg sreg = ARM_UITOS_COND dreg sreg (AL)"

definition ARM_SITOD_COND :: "u32 \<Rightarrow> u32 \<Rightarrow> u32 \<Rightarrow> code \<Rightarrow> code option" where
  "ARM_SITOD_COND dreg sreg cond = ARM_EMIT (ARM_DEF_VFP_MONADIC cond (ARMVfp_val ARM_VFP_COPROC_DOUBLE) (ARMVfp_val
     ARM_VFP_SITO) dreg sreg)"

definition ARM_SITOD :: "u32 \<Rightarrow> u32 \<Rightarrow> code \<Rightarrow> code option" where
  "ARM_SITOD dreg sreg = ARM_SITOD_COND dreg sreg (AL)"

definition ARM_SITOS_COND :: "u32 \<Rightarrow> u32 \<Rightarrow> u32 \<Rightarrow> code \<Rightarrow> code option" where
  "ARM_SITOS_COND dreg sreg cond = ARM_EMIT (ARM_DEF_VFP_MONADIC cond (ARMVfp_val ARM_VFP_COPROC_SINGLE) (ARMVfp_val
     ARM_VFP_SITO) dreg sreg)"

definition ARM_SITOS :: "u32 \<Rightarrow> u32 \<Rightarrow> code \<Rightarrow> code option" where
  "ARM_SITOS dreg sreg = ARM_SITOS_COND dreg sreg (AL)"

definition ARM_TOUID_COND :: "u32 \<Rightarrow> u32 \<Rightarrow> u32 \<Rightarrow> code \<Rightarrow> code option" where
  "ARM_TOUID_COND dreg sreg cond = ARM_EMIT (ARM_DEF_VFP_MONADIC cond (ARMVfp_val ARM_VFP_COPROC_DOUBLE) (ARMVfp_val
     ARM_VFP_TOUI) dreg sreg)"

definition ARM_TOUID :: "u32 \<Rightarrow> u32 \<Rightarrow> code \<Rightarrow> code option" where
  "ARM_TOUID dreg sreg = ARM_TOUID_COND dreg sreg (AL)"

definition ARM_TOUIS_COND :: "u32 \<Rightarrow> u32 \<Rightarrow> u32 \<Rightarrow> code \<Rightarrow> code option" where
  "ARM_TOUIS_COND dreg sreg cond = ARM_EMIT (ARM_DEF_VFP_MONADIC cond (ARMVfp_val ARM_VFP_COPROC_SINGLE) (ARMVfp_val
     ARM_VFP_TOUI) dreg sreg)"

definition ARM_TOUIS :: "u32 \<Rightarrow> u32 \<Rightarrow> code \<Rightarrow> code option" where
  "ARM_TOUIS dreg sreg = ARM_TOUIS_COND dreg sreg (AL)"

definition ARM_TOSID_COND :: "u32 \<Rightarrow> u32 \<Rightarrow> u32 \<Rightarrow> code \<Rightarrow> code option" where
  "ARM_TOSID_COND dreg sreg cond = ARM_EMIT (ARM_DEF_VFP_MONADIC cond (ARMVfp_val ARM_VFP_COPROC_DOUBLE) (ARMVfp_val
     ARM_VFP_TOSI) dreg sreg)"

definition ARM_TOSID :: "u32 \<Rightarrow> u32 \<Rightarrow> code \<Rightarrow> code option" where
  "ARM_TOSID dreg sreg = ARM_TOSID_COND dreg sreg (AL)"

definition ARM_TOSIS_COND :: "u32 \<Rightarrow> u32 \<Rightarrow> u32 \<Rightarrow> code \<Rightarrow> code option" where
  "ARM_TOSIS_COND dreg sreg cond = ARM_EMIT (ARM_DEF_VFP_MONADIC cond (ARMVfp_val ARM_VFP_COPROC_SINGLE) (ARMVfp_val
     ARM_VFP_TOSI) dreg sreg)"

definition ARM_TOSIS :: "u32 \<Rightarrow> u32 \<Rightarrow> code \<Rightarrow> code option" where
  "ARM_TOSIS dreg sreg = ARM_TOSIS_COND dreg sreg (AL)"

definition ARM_TOUIZD_COND :: "u32 \<Rightarrow> u32 \<Rightarrow> u32 \<Rightarrow> code \<Rightarrow> code option" where
  "ARM_TOUIZD_COND dreg sreg cond = ARM_EMIT (ARM_DEF_VFP_MONADIC cond (ARMVfp_val ARM_VFP_COPROC_DOUBLE) (ARMVfp_val
     ARM_VFP_TOUIZ) dreg sreg)"

definition ARM_TOUIZD :: "u32 \<Rightarrow> u32 \<Rightarrow> code \<Rightarrow> code option" where
  "ARM_TOUIZD dreg sreg = ARM_TOUIZD_COND dreg sreg (AL)"

definition ARM_TOUIZS_COND :: "u32 \<Rightarrow> u32 \<Rightarrow> u32 \<Rightarrow> code \<Rightarrow> code option" where
  "ARM_TOUIZS_COND dreg sreg cond = ARM_EMIT (ARM_DEF_VFP_MONADIC cond (ARMVfp_val ARM_VFP_COPROC_SINGLE) (ARMVfp_val
     ARM_VFP_TOUIZ) dreg sreg)"

definition ARM_TOUIZS :: "u32 \<Rightarrow> u32 \<Rightarrow> code \<Rightarrow> code option" where
  "ARM_TOUIZS dreg sreg = ARM_TOUIZS_COND dreg sreg (AL)"

definition ARM_TOSIZD_COND :: "u32 \<Rightarrow> u32 \<Rightarrow> u32 \<Rightarrow> code \<Rightarrow> code option" where
  "ARM_TOSIZD_COND dreg sreg cond = ARM_EMIT (ARM_DEF_VFP_MONADIC cond (ARMVfp_val ARM_VFP_COPROC_DOUBLE) (ARMVfp_val
     ARM_VFP_TOSIZ) dreg sreg)"

definition ARM_TOSIZD :: "u32 \<Rightarrow> u32 \<Rightarrow> code \<Rightarrow> code option" where
  "ARM_TOSIZD dreg sreg = ARM_TOSIZD_COND dreg sreg (AL)"

definition ARM_TOSIZS_COND :: "u32 \<Rightarrow> u32 \<Rightarrow> u32 \<Rightarrow> code \<Rightarrow> code option" where
  "ARM_TOSIZS_COND dreg sreg cond = ARM_EMIT (ARM_DEF_VFP_MONADIC cond (ARMVfp_val ARM_VFP_COPROC_SINGLE) (ARMVfp_val
     ARM_VFP_TOSIZ) dreg sreg)"

definition ARM_TOSIZS :: "u32 \<Rightarrow> u32 \<Rightarrow> code \<Rightarrow> code option" where
  "ARM_TOSIZS dreg sreg = ARM_TOSIZS_COND dreg sreg (AL)"

end
