(* ===== verification/ArmVfpProps.thy ===== *)
theory ArmVfpProps
  imports ArmVfp
begin

text \<open>
  The floating-point encoder: two sets of conversion macros emit the same words, and the register
  numbers, the precision and the operation can be read back from an arithmetic instruction.
\<close>

section \<open>Conversions\<close>

lemma or_numerals: "(numeral a :: u32) OR (numeral b OR c) = (numeral a OR numeral b) OR c"
  by (simp only: or.assoc)

text \<open>Constants move to the left, so that they meet.\<close>

lemma numerals_left:
  "NO_MATCH (numeral v) x \<Longrightarrow> (x :: u32) OR (numeral a OR y) = numeral a OR (x OR y)"
  "NO_MATCH (numeral v) x \<Longrightarrow> (x :: u32) OR numeral a = numeral a OR x"
  by (simp_all only: or_ac)

text \<open>
  The hand-written integer-to-float conversions emit the same instruction as the generated
  ones, for all registers.
\<close>
lemma conversions_agree:
  "ARM_FUITOS d s = ARM_UITOS d s \<and> ARM_FUITOD d s = ARM_UITOD d s \<and>
   ARM_FSITOS d s = ARM_SITOS d s \<and> ARM_FSITOD d s = ARM_SITOD d s"
  unfolding ARM_FUITOS_def ARM_UITOS_def ARM_FUITOD_def ARM_UITOD_def ARM_FSITOS_def ARM_SITOS_def
    ARM_FSITOD_def ARM_SITOD_def ARM_UITOS_COND_def ARM_UITOD_COND_def ARM_SITOS_COND_def ARM_SITOD_COND_def
  apply (simp add: ARM_DEF_FUITOS_def ARM_DEF_FUITOD_def ARM_DEF_FSITOS_def ARM_DEF_FSITOD_def
      ARM_DEF_VFP_MONADIC_def ARM_VFP_OP_def ARM_VFP_OP2_def ARM_DEF_COND_def or.assoc or_numerals numerals_left)
  apply (simp only: or_ac)
  done

section \<open>Registers\<close>

text \<open>The register numbers of an arithmetic instruction: four bits and the lowest one elsewhere.\<close>

definition vfp_Fd :: "u32 \<Rightarrow> u32" where
  "vfp_Fd w = push_bit 1 (take_bit 4 (drop_bit 12 w)) OR take_bit 1 (drop_bit 22 w)"

definition vfp_Fn :: "u32 \<Rightarrow> u32" where
  "vfp_Fn w = push_bit 1 (take_bit 4 (drop_bit 16 w)) OR take_bit 1 (drop_bit 7 w)"

definition vfp_Fm :: "u32 \<Rightarrow> u32" where
  "vfp_Fm w = push_bit 1 (take_bit 4 w) OR take_bit 1 (drop_bit 5 w)"

definition vfp_op_mask :: u32 where
  "vfp_op_mask = ARM_VFP_OP 1 1 1 1"

lemma bit_AND_1: "bit (x AND (1 :: u32)) k \<longleftrightarrow> k = 0 \<and> bit x 0"
  by (cases k) (auto simp: bit_and_iff bit_1_iff)

lemma bit_14: "bit (14 :: u32) k \<longleftrightarrow> k \<in> {1, 2, 3}"
proof -
  have "bit (14 :: u32) k \<Longrightarrow> k < 4" using fits_bit [of 4 14 k] by (simp add: fits_def)
  moreover have "k < 4 \<Longrightarrow> k \<in> {0, 1, 2, 3}" by auto
  ultimately show ?thesis by auto
qed

lemma bit_AND_15: "bit (x AND (15 :: u32)) k \<longleftrightarrow> k < 4 \<and> bit x k"
proof -
  have "(15 :: u32) = mask 4" by (simp add: mask_eq_exp_minus_1)
  then show ?thesis by (simp only: take_bit_eq_mask [symmetric] bit_take_bit_iff)
qed

lemma bit_dyadic:
  "bit (ARM_DEF_VFP_DYADIC cond cp op Fd Fn Fm) k \<longleftrightarrow>
    (k < 32 \<and> 24 \<le> k \<and> k - 24 \<in> {1, 2, 3}) \<or> (k < 32 \<and> 8 \<le> k \<and> bit cp (k - 8)) \<or> bit op k \<or>
    (k < 32 \<and> 12 \<le> k \<and> bit Fd (k - 12 + 1)) \<or> (k < 32 \<and> k = 22 \<and> bit Fd 0) \<or>
    (k < 32 \<and> 16 \<le> k \<and> bit Fn (k - 16 + 1)) \<or> (k < 32 \<and> k = 7 \<and> bit Fn 0) \<or>
    (k < 32 \<and> 0 \<le> k \<and> bit Fm (k - 0 + 1)) \<or> (k < 32 \<and> k = 5 \<and> bit Fm 0) \<or>
    (k < 32 \<and> 28 \<le> k \<and> k - 28 < 4 \<and> bit cond (k - 28))"
proof -
  have d: "bit (push_bit n (drop_bit 1 (x :: u32))) k \<longleftrightarrow> k < 32 \<and> n \<le> k \<and> bit x (k - n + 1)" for n x
    by (auto simp: bit_push_bit_iff bit_drop_bit_eq)
  have l: "bit (push_bit n (x AND 1 :: u32)) k \<longleftrightarrow> k < 32 \<and> k = n \<and> bit x 0" for n x
    unfolding bit_push_bit_iff bit_AND_1 by auto
  have p: "bit (push_bit n (x :: u32)) k \<longleftrightarrow> k < 32 \<and> n \<le> k \<and> bit x (k - n)" for n x
    by (auto simp: bit_push_bit_iff)
  show ?thesis
    unfolding ARM_DEF_VFP_DYADIC_def ARM_DEF_COND_def bit_or_iff d l
    unfolding p bit_AND_15 bit_14 by (simp only: disj_assoc)
qed

lemma five_bits:
  assumes "fits 5 x" "fits 5 y" "bit x 0 = bit y 0" "bit x 1 = bit y 1" "bit x 2 = bit y 2" "bit x 3 = bit y 3"
    "bit x 4 = bit y 4"
  shows "x = y"
proof (rule bit_eqI)
  fix n
  have "n < 5 \<Longrightarrow> n \<in> {0, 1, 2, 3, 4 :: nat}" by auto
  with assms(3-7) have "n < 5 \<Longrightarrow> bit x n = bit y n" by auto
  then show "bit x n = bit y n" using fits_bit [OF assms(1)] fits_bit [OF assms(2)] by blast
qed

lemma bit_reg_number:
  "bit (push_bit 1 (take_bit 4 x) OR take_bit 1 (y :: u32)) n \<longleftrightarrow>
     (if n = 0 then bit y 0 else n < 5 \<and> bit x (n - 1))"
  unfolding bit_or_iff bit_push_bit_iff bit_take_bit_iff using bit_imp_le_length [of x "n - 1"] by auto

lemma fits_reg_number: "fits 5 (push_bit 1 (take_bit 4 x) OR take_bit 1 y)"
  unfolding fits_def by (rule bit_eqI) (auto simp only: bit_take_bit_iff bit_reg_number split: if_splits)

lemma dyadic_fields:
  assumes f: "fits 5 Fd" "fits 5 Fn" "fits 5 Fm" and cp: "cp = 10 \<or> cp = 11" and "op AND vfp_op_mask = op"
    and w: "w = ARM_DEF_VFP_DYADIC cond cp op Fd Fn Fm"
  shows "vfp_Fd w = Fd" "vfp_Fn w = Fn" "vfp_Fm w = Fm" "bit w 8 \<longleftrightarrow> cp = 11"
    "w AND vfp_op_mask = op" "drop_bit 28 w = take_bit 4 cond"
proof -
  have "fits 4 cp" using cp by (auto simp: fits_def)
  note fits = f this
  have small [simp]: "5 \<le> k \<Longrightarrow> \<not> bit Fd k" "5 \<le> k \<Longrightarrow> \<not> bit Fn k" "5 \<le> k \<Longrightarrow> \<not> bit Fm k" "4 \<le> k \<Longrightarrow> \<not> bit cp k" for k
    using fits [THEN fits_bit, of k] by auto
  have mask: "bit vfp_op_mask k \<longleftrightarrow> k = 6 \<or> k = 20 \<or> k = 21 \<or> k = 23" for k
    unfolding vfp_op_mask_def ARM_VFP_OP_def bit_or_iff bit_push_bit_iff bit_1_iff by auto
  have op [simp]: "\<not> (k = 6 \<or> k = 20 \<or> k = 21 \<or> k = 23) \<Longrightarrow> \<not> bit op k" for k
    using assms(5) mask bit_and_iff by metis
  have two: "Suc (Suc 0) = 2" by simp
  have low: "bit cp 0 \<longleftrightarrow> cp = 11" "\<not> bit cp 2" using cp by auto
  have b: "bit w k \<longleftrightarrow> bit (ARM_DEF_VFP_DYADIC cond cp op Fd Fn Fm) k" for k by (simp only: w)
  show "vfp_Fd w = Fd"
    by (rule five_bits) (simp_all only: vfp_Fd_def fits_reg_number f bit_reg_number bit_drop_bit_eq, simp_all add: b bit_dyadic two)
  show "vfp_Fn w = Fn"
    by (rule five_bits) (simp_all only: vfp_Fn_def fits_reg_number f bit_reg_number bit_drop_bit_eq, simp_all add: b bit_dyadic two)
  show "vfp_Fm w = Fm"
    by (rule five_bits) (simp_all only: vfp_Fm_def fits_reg_number f bit_reg_number bit_drop_bit_eq, simp_all add: b bit_dyadic two)
  show "bit w 8 \<longleftrightarrow> cp = 11" by (simp add: b bit_dyadic low)
  show "w AND vfp_op_mask = op"
  proof (rule bit_eqI)
    fix k
    show "bit (w AND vfp_op_mask) k \<longleftrightarrow> bit op k"
    proof (cases "k = 6 \<or> k = 20 \<or> k = 21 \<or> k = 23")
      case True
      then show ?thesis using cp by (elim disjE) (simp_all add: bit_and_iff mask b bit_dyadic)
    qed (simp add: bit_and_iff mask)
  qed
  show "drop_bit 28 w = take_bit 4 cond"
  proof (rule bit_eqI)
    fix k
    show "bit (drop_bit 28 w) k \<longleftrightarrow> bit (take_bit 4 cond) k"
      unfolding bit_drop_bit_eq bit_take_bit_iff b bit_dyadic by (cases "k < 4") auto
  qed
qed

text \<open>The arithmetic emitters: the macro, whether it is double precision, and the operation.\<close>

definition vfp_arithmetic where
  "vfp_arithmetic = [(ARM_VFP_ADDD_COND, True, ARM_VFP_ADD), (ARM_VFP_ADDS_COND, False, ARM_VFP_ADD),
     (ARM_VFP_SUBD_COND, True, ARM_VFP_SUB), (ARM_VFP_SUBS_COND, False, ARM_VFP_SUB),
     (ARM_VFP_MULD_COND, True, ARM_VFP_MUL), (ARM_VFP_MULS_COND, False, ARM_VFP_MUL),
     (ARM_VFP_NMULD_COND, True, ARM_VFP_NMUL), (ARM_VFP_NMULS_COND, False, ARM_VFP_NMUL),
     (ARM_VFP_DIVD_COND, True, ARM_VFP_DIV), (ARM_VFP_DIVS_COND, False, ARM_VFP_DIV)]"

lemma vfp_arithmetic_word:
  assumes "(f, dbl, op) \<in> set vfp_arithmetic"
  shows "f rd rn rm cond = ARM_EMIT (ARM_DEF_VFP_DYADIC cond (if dbl then 11 else 10) (ARMVfp_val op) rd rn rm) \<and>
    ARMVfp_val op AND vfp_op_mask = ARMVfp_val op"
  using assms unfolding vfp_arithmetic_def
  by (auto simp: ARM_VFP_ADDD_COND_def ARM_VFP_ADDS_COND_def ARM_VFP_SUBD_COND_def ARM_VFP_SUBS_COND_def
      ARM_VFP_MULD_COND_def ARM_VFP_MULS_COND_def ARM_VFP_NMULD_COND_def ARM_VFP_NMULS_COND_def
      ARM_VFP_DIVD_COND_def ARM_VFP_DIVS_COND_def vfp_op_mask_def ARM_VFP_OP_def)

text \<open>
  C40: Every floating-point arithmetic macro emits one word from which the three register numbers,
  the precision, the operation and the condition can be read back, for all 32 registers.
\<close>
theorem vfp_arithmetic_decoded:
  assumes "(f, dbl, op) \<in> set vfp_arithmetic" "fits 5 rd" "fits 5 rn" "fits 5 rm"
  shows "\<exists>w. f rd rn rm cond = ARM_EMIT w \<and> vfp_Fd w = rd \<and> vfp_Fn w = rn \<and> vfp_Fm w = rm \<and>
    (bit w 8 \<longleftrightarrow> dbl) \<and> w AND vfp_op_mask = ARMVfp_val op \<and> drop_bit 28 w = take_bit 4 cond"
proof -
  note v = vfp_arithmetic_word [OF assms(1)]
  have "(if dbl then 11 else 10 :: u32) = 10 \<or> (if dbl then 11 else 10 :: u32) = 11" by simp
  note d = dyadic_fields [OF assms(2-4) this conjunct2 [OF v] refl]
  show ?thesis
    by (rule exI [of _ "ARM_DEF_VFP_DYADIC cond (if dbl then 11 else 10) (ARMVfp_val op) rd rn rm"])
      (simp only: v d, simp)
qed

theorem vfp_arithmetic_decoded_witness:
  "\<exists>w. ARM_VFP_SUBD_COND 4 2 30 14 = ARM_EMIT w \<and> vfp_Fd w = 4 \<and> vfp_Fm w = 30"
proof -
  have "(ARM_VFP_SUBD_COND, True, ARM_VFP_SUB) \<in> set vfp_arithmetic" by (simp add: vfp_arithmetic_def)
  from vfp_arithmetic_decoded [OF this, of 4 2 30 14] show ?thesis by (auto simp: fits_def)
qed

end
