(* ===== verification/ListSort.thy ===== *)
theory ListSort
  imports Prelude "HOL-Library.Monad_Syntax" "HOL-Library.Multiset"
begin

text \<open>
  \<open>mono/eglib/sort.frag.h\<close>: the bottom-up merge sort of the linked lists of eglib, over an
  explicit heap of nodes. A pointer is a number, 0 the null pointer; a heap maps the address of
  an allocated node to its contents. \<open>None\<close> is a run that never returns or goes wrong: a
  null or dangling pointer, an index outside \<open>ranks\<close>, or the use of an element of
  \<open>ranks\<close> that was never written. The comparison is a parameter.
\<close>

section \<open>Nodes and the state of a sort\<close>

type_synonym ptr = nat

record 'a list_node =
  data :: 'a
  "next" :: ptr

type_synonym 'a heap = "ptr \<Rightarrow> 'a list_node option"

type_synonym 'a GCompareFunc = "'a \<Rightarrow> 'a \<Rightarrow> int"

definition FLOOR_LOG2 :: "nat \<Rightarrow> nat" where
  "FLOOR_LOG2 x = of_bool (x \<ge> 2) + of_bool (x \<ge> 4) + of_bool (x \<ge> 8) + of_bool (x \<ge> 16) +
     of_bool (x \<ge> 32) + of_bool (x \<ge> 64) + of_bool (x \<ge> 128)"

text \<open>\<open>size_t\<close> has four bytes; the size of a node is a parameter.\<close>

definition MAX_RANKS :: "nat \<Rightarrow> nat" where
  "MAX_RANKS sizeof_list_node = 4 * 8 - FLOOR_LOG2 sizeof_list_node - 1"

text \<open>An element of \<open>ranks\<close> that is \<open>None\<close> was never written.\<close>

record 'a sort_info =
  min_rank :: nat
  n_ranks :: nat
  func :: "'a GCompareFunc"
  ranks :: "ptr option list"

definition init_sort_info :: "nat \<Rightarrow> 'a GCompareFunc \<Rightarrow> 'a sort_info" where
  "init_sort_info sz f = \<lparr>min_rank = 0, n_ranks = 0, func = f, ranks = replicate (MAX_RANKS sz) None\<rparr>"

definition rank_at :: "'a sort_info \<Rightarrow> nat \<Rightarrow> ptr option" where
  "rank_at si i = (if i < length (ranks si) then ranks si ! i else None)"

definition set_rank :: "nat \<Rightarrow> ptr \<Rightarrow> 'a sort_info \<Rightarrow> 'a sort_info option" where
  "set_rank i p si = (if i < length (ranks si) then Some (si\<lparr>ranks := (ranks si)[i := Some p]\<rparr>) else None)"

definition set_next :: "'a heap \<Rightarrow> ptr \<Rightarrow> ptr \<Rightarrow> 'a heap option" where
  "set_next h p q = do { n \<leftarrow> h p; Some (h(p \<mapsto> n\<lparr>next := q\<rparr>)) }"

section \<open>Merging\<close>

text \<open>\<open>*pos = p\<close>, where \<open>pos\<close> is the address of the local \<open>list\<close> (\<open>None\<close>) or of the \<open>next\<close> of a node.\<close>

fun store :: "ptr option \<Rightarrow> ptr \<Rightarrow> 'a heap \<times> ptr \<Rightarrow> ('a heap \<times> ptr) option" where
  "store None p (h, list) = Some (h, p)"
| "store (Some a) p (h, list) = do { h \<leftarrow> set_next h a p; Some (h, list) }"

partial_function (option) merge_loop ::
  "'a GCompareFunc \<Rightarrow> 'a heap \<Rightarrow> ptr \<Rightarrow> ptr option \<Rightarrow> ptr \<Rightarrow> ptr \<Rightarrow> ('a heap \<times> ptr) option" where
  "merge_loop f h list pos first second =
    (if first \<noteq> 0 \<and> second \<noteq> 0 then do {
       a \<leftarrow> h first;
       b \<leftarrow> h second;
       if f (data a) (data b) > 0 then do {
         (h, list) \<leftarrow> store pos second (h, list);
         n \<leftarrow> h second;
         merge_loop f h list (Some second) first (next n)
       } else do {
         (h, list) \<leftarrow> store pos first (h, list);
         n \<leftarrow> h first;
         merge_loop f h list (Some first) (next n) second
       }
     } else store pos (if first \<noteq> 0 then first else second) (h, list))"

definition merge_lists :: "'a heap \<Rightarrow> ptr \<Rightarrow> ptr \<Rightarrow> 'a GCompareFunc \<Rightarrow> ('a heap \<times> ptr) option" where
  "merge_lists h first second f = merge_loop f h 0 None first second"

section \<open>The ranks\<close>

function sweep_loop ::
  "nat \<Rightarrow> nat \<Rightarrow> 'a heap \<Rightarrow> 'a sort_info \<Rightarrow> ptr \<Rightarrow> ('a heap \<times> 'a sort_info \<times> ptr) option" where
  "sweep_loop i up h si list =
    (if i < up then do {
       r \<leftarrow> rank_at si i;
       (h, list) \<leftarrow> merge_lists h r list (func si);
       si \<leftarrow> set_rank i 0 si;
       sweep_loop (Suc i) up h si list
     } else Some (h, si, list))"
  by pat_completeness auto
termination by (relation "measure (\<lambda>(i, up, _). up - i)") auto

definition sweep_up ::
  "'a heap \<Rightarrow> 'a sort_info \<Rightarrow> ptr \<Rightarrow> nat \<Rightarrow> ('a heap \<times> 'a sort_info \<times> ptr) option" where
  "sweep_up h si list up = sweep_loop (min_rank si) up h si list"

function clear_loop :: "nat \<Rightarrow> nat \<Rightarrow> 'a sort_info \<Rightarrow> 'a sort_info option" where
  "clear_loop i rank si =
    (if i < rank then do { si \<leftarrow> set_rank i 0 si; clear_loop (Suc i) rank si } else Some si)"
  by pat_completeness auto
termination by (relation "measure (\<lambda>(i, rank, _). rank - i)") auto

text \<open>
  The loop that carries a list up, as an increment carries a bit, while \<open>i < n_ranks\<close>, which
  the loop does not change; it answers the index where it stops.
\<close>

function carry_loop ::
  "nat \<Rightarrow> nat \<Rightarrow> 'a heap \<Rightarrow> 'a sort_info \<Rightarrow> ptr \<Rightarrow> (nat \<times> 'a heap \<times> 'a sort_info \<times> ptr) option" where
  "carry_loop i n h si list =
    (if i < n then do {
       r \<leftarrow> rank_at si i;
       if r \<noteq> 0 then do {
         (h, list) \<leftarrow> merge_lists h r list (func si);
         si \<leftarrow> set_rank i 0 si;
         carry_loop (Suc i) n h si list
       } else Some (i, h, si, list)
     } else Some (i, h, si, list))"
  by pat_completeness auto
termination by (relation "measure (\<lambda>(i, n, _). n - i)") auto

text \<open>
  The part of \<open>insert_list\<close> that finds the rank, then the part that stores the list there. The
  warning for a rank above \<open>MAX_RANKS\<close> is left out.
\<close>

definition insert_find ::
  "nat \<Rightarrow> 'a heap \<Rightarrow> 'a sort_info \<Rightarrow> ptr \<Rightarrow> nat \<Rightarrow> (nat \<times> 'a heap \<times> 'a sort_info \<times> ptr) option" where
  "insert_find sz h si list rank =
    (if rank > n_ranks si then
       let rank = (if rank > MAX_RANKS sz then MAX_RANKS sz else rank)
       in do {
         (h, si, swept) \<leftarrow> sweep_up h si 0 (n_ranks si);
         (h, list) \<leftarrow> merge_lists h swept list (func si);
         si \<leftarrow> clear_loop (n_ranks si) rank si;
         Some (max (n_ranks si) rank, h, si, list)
       }
     else do {
       (h, si, list) \<leftarrow>
         (if rank \<noteq> 0 then do {
            (h, si, swept) \<leftarrow> sweep_up h si 0 rank;
            (h, list) \<leftarrow> merge_lists h swept list (func si);
            Some (h, si, list)
          } else Some (h, si, list));
       carry_loop rank (n_ranks si) h si list
     })"

definition insert_store :: "nat \<Rightarrow> nat \<Rightarrow> 'a sort_info \<Rightarrow> ptr \<Rightarrow> 'a sort_info option" where
  "insert_store sz i si list =
    (let i = (if i = MAX_RANKS sz then i - 1 else i);
         si = (if i \<ge> n_ranks si then si\<lparr>n_ranks := i + 1\<rparr> else si)
     in set_rank i list (si\<lparr>min_rank := i\<rparr>))"

definition insert_list ::
  "nat \<Rightarrow> 'a heap \<Rightarrow> 'a sort_info \<Rightarrow> ptr \<Rightarrow> nat \<Rightarrow> ('a heap \<times> 'a sort_info) option" where
  "insert_list sz h si list rank = do {
     (i, h, si, list) \<leftarrow> insert_find sz h si list rank;
     si \<leftarrow> insert_store sz i si list;
     Some (h, si)
   }"

section \<open>The sort\<close>

text \<open>One round: the first two nodes are cut off as a list of two, in order.\<close>

definition cut_pair :: "'a GCompareFunc \<Rightarrow> 'a heap \<Rightarrow> ptr \<Rightarrow> ptr \<Rightarrow> ('a heap \<times> ptr) option" where
  "cut_pair f h list nx = do {
     a \<leftarrow> h list;
     b \<leftarrow> h nx;
     (h, list, nx) \<leftarrow>
       (if f (data a) (data b) > 0 then do {
          h \<leftarrow> set_next h nx list;
          let nx' = list;
          n \<leftarrow> h list;
          Some (h, next n, nx')
        } else Some (h, list, nx));
     h \<leftarrow> set_next h nx 0;
     Some (h, list)
   }"

partial_function (option) sort_loop ::
  "nat \<Rightarrow> 'a heap \<Rightarrow> 'a sort_info \<Rightarrow> ptr \<Rightarrow> ('a heap \<times> 'a sort_info \<times> ptr) option" where
  "sort_loop sz h si list =
    (if list = 0 then Some (h, si, list)
     else do {
       a \<leftarrow> h list;
       if next a = 0 then Some (h, si, list)
       else do {
         b \<leftarrow> h (next a);
         let tail = next b;
         (h, list) \<leftarrow> cut_pair (func si) h list (next a);
         (h, si) \<leftarrow> insert_list sz h si list 0;
         sort_loop sz h si tail
       }
     })"

definition do_sort :: "nat \<Rightarrow> 'a heap \<Rightarrow> ptr \<Rightarrow> 'a GCompareFunc \<Rightarrow> ('a heap \<times> ptr) option" where
  "do_sort sz h list f = do {
     (h, si, list) \<leftarrow> sort_loop sz h (init_sort_info sz f) list;
     (h, si, list) \<leftarrow> sweep_up h si list (n_ranks si);
     Some (h, list)
   }"

end
