(* ===== verification/ListSortProps.thy ===== *)
theory ListSortProps
  imports ListSort
begin

text \<open>
  The sort is correct: it terminates without a memory error on every null-terminated list, it
  only relinks the nodes of the list, and the result is the stable sorting of the nodes.
\<close>

section \<open>Lists in the heap\<close>

fun ls :: "'a heap \<Rightarrow> ptr \<Rightarrow> ptr list \<Rightarrow> bool" where
  "ls h p [] = (p = 0)"
| "ls h p (a # as) = (p \<noteq> 0 \<and> a = p \<and> (\<exists>n. h p = Some n \<and> ls h (next n) as))"

definition same_data :: "'a heap \<Rightarrow> 'a heap \<Rightarrow> bool" where
  "same_data h h' \<longleftrightarrow> (\<forall>a. map_option data (h' a) = map_option data (h a))"

definition frame :: "'a heap \<Rightarrow> 'a heap \<Rightarrow> ptr set \<Rightarrow> bool" where
  "frame h h' S \<longleftrightarrow> (\<forall>a. a \<notin> S \<longrightarrow> h' a = h a)"

named_theorems heap_intros

lemma ls_ConsE:
  assumes "ls h p (a # as)"
  obtains n where "a \<noteq> 0" "p = a" "h a = Some n" "ls h (next n) as"
  using assms by (metis ls.simps(2))

lemma ls_frame: "\<lbrakk>ls h p as; \<And>a. a \<in> set as \<Longrightarrow> h' a = h a\<rbrakk> \<Longrightarrow> ls h' p as"
  by (induction as arbitrary: p) auto

lemma ls_frame_set: "\<lbrakk>ls h p as; frame h h' S; set as \<inter> S = {}\<rbrakk> \<Longrightarrow> ls h' p as"
  unfolding frame_def by (erule ls_frame) blast

lemma ls_nonnull: "ls h p as \<Longrightarrow> 0 \<notin> set as"
  by (induction as arbitrary: p) auto

lemma ls_dom: "ls h p as \<Longrightarrow> set as \<subseteq> dom h"
  by (induction as arbitrary: p) auto

lemma ls_0 [simp]: "ls h 0 as \<longleftrightarrow> as = []"
  by (cases as) auto

lemma ls_empty_iff: "ls h p as \<Longrightarrow> p = 0 \<longleftrightarrow> as = []"
  by (cases as) auto

lemma same_data_refl [simp, heap_intros]: "same_data h h"
  by (simp add: same_data_def)

lemma frame_refl [simp, heap_intros]: "frame h h S"
  by (simp add: frame_def)

lemma same_data_trans [trans, heap_intros]: "\<lbrakk>same_data h h'; same_data h' h''\<rbrakk> \<Longrightarrow> same_data h h''"
  by (simp add: same_data_def)

lemma frame_trans: "\<lbrakk>frame h h' S; frame h' h'' T; S \<subseteq> U; T \<subseteq> U\<rbrakk> \<Longrightarrow> frame h h'' U"
  unfolding frame_def by (metis subsetD)

lemma frame_mono: "\<lbrakk>frame h h' S; S \<subseteq> U\<rbrakk> \<Longrightarrow> frame h h' U"
  unfolding frame_def by blast

lemma frame_at: "\<lbrakk>frame h h' S; a \<notin> S\<rbrakk> \<Longrightarrow> h' a = h a"
  by (simp add: frame_def)

lemma same_data_dom: "same_data h h' \<Longrightarrow> dom h' = dom h"
  unfolding same_data_def dom_def by (metis option.map_disc_iff)

lemma set_next_ok:
  "p \<in> dom h \<Longrightarrow> \<exists>h' n. set_next h p q = Some h' \<and> h' p = Some n \<and> next n = q \<and> same_data h h' \<and> frame h h' {p}"
  by (auto simp: set_next_def same_data_def frame_def)

section \<open>Merging\<close>

text \<open>The comparison of two nodes through the heap, and merging as a function on lists of addresses.\<close>

definition gt_of :: "'a GCompareFunc \<Rightarrow> 'a heap \<Rightarrow> ptr \<Rightarrow> ptr \<Rightarrow> bool" where
  "gt_of f h a b = (case (map_option data (h a), map_option data (h b)) of
     (Some x, Some y) \<Rightarrow> f x y > 0 | _ \<Rightarrow> False)"

lemma gt_of_same: "same_data h h' \<Longrightarrow> gt_of f h' = gt_of f h"
  by (simp add: gt_of_def same_data_def fun_eq_iff)

fun merge_runs :: "(ptr \<Rightarrow> ptr \<Rightarrow> bool) \<Rightarrow> ptr list \<Rightarrow> ptr list \<Rightarrow> ptr list" where
  "merge_runs gt (x # xs) (y # ys) =
     (if gt x y then y # merge_runs gt (x # xs) ys else x # merge_runs gt xs (y # ys))"
| "merge_runs gt [] ys = ys"
| "merge_runs gt xs [] = xs"

lemma merge_runs_Nil [simp]: "merge_runs gt xs [] = xs"
  by (cases xs) auto

lemma mset_merge_runs [simp]: "mset (merge_runs gt xs ys) = mset xs + mset ys"
  by (induction gt xs ys rule: merge_runs.induct) auto

lemma set_merge_runs [simp]: "set (merge_runs gt xs ys) = set xs \<union> set ys"
  by (metis mset_merge_runs set_mset_mset set_mset_union)

lemma length_merge_runs [simp]: "length (merge_runs gt xs ys) = length xs + length ys"
  by (metis mset_merge_runs size_mset size_union)

lemma distinct_merge_runs [simp]: "distinct (merge_runs gt xs ys) \<longleftrightarrow> distinct (xs @ ys)"
  by (metis mset_append mset_merge_runs mset_eq_imp_distinct_iff)

text \<open>The pointer that \<open>pos\<close> refers to.\<close>

fun slot :: "ptr option \<Rightarrow> 'a heap \<Rightarrow> ptr \<Rightarrow> ptr option" where
  "slot None h l = Some l"
| "slot (Some a) h l = map_option next (h a)"

lemma store_ok:
  assumes "set_option pos \<subseteq> dom h"
  shows "\<exists>h1 l1. store pos v (h, l) = Some (h1, l1) \<and> slot pos h1 l1 = Some v \<and> same_data h h1 \<and>
    frame h h1 (set_option pos) \<and> (pos \<noteq> None \<longrightarrow> l1 = l)"
proof (cases pos)
  case (Some a)
  with set_next_ok [of a h v] assms show ?thesis by auto
qed simp

lemma slot_frame: "\<lbrakk>frame h h' S; set_option pos \<inter> S = {}\<rbrakk> \<Longrightarrow> slot pos h' l = slot pos h l"
  by (cases pos) (auto simp: frame_def)

definition merged ::
  "'a GCompareFunc \<Rightarrow> 'a heap \<Rightarrow> ptr \<Rightarrow> ptr option \<Rightarrow> ptr \<Rightarrow> ptr \<Rightarrow> ptr set \<Rightarrow> ptr list \<Rightarrow> bool" where
  "merged f h l pos p q S zs \<longleftrightarrow> (\<exists>h' l' v. merge_loop f h l pos p q = Some (h', l') \<and>
     slot pos h' l' = Some v \<and> ls h' v zs \<and> (pos \<noteq> None \<longrightarrow> l' = l) \<and> same_data h h' \<and>
     frame h h' (S \<union> set_option pos))"

lemma merged_step:
  assumes "store pos x (h, l) = Some (h1, l1)" "slot pos h1 l1 = Some x" "same_data h h1"
    "frame h h1 (set_option pos)" "pos \<noteq> None \<longrightarrow> l1 = l"
    and "merged f h1 l1 (Some x) p' q' S zs"
    and "merge_loop f h l pos p q = merge_loop f h1 l1 (Some x) p' q'"
    and "x \<noteq> 0" "set_option pos \<inter> insert x S = {}"
  shows "merged f h l pos p q (insert x S) (x # zs)"
proof -
  from assms(6) obtain h' v where h': "merge_loop f h1 l1 (Some x) p' q' = Some (h', l1)"
    "map_option next (h' x) = Some v" "ls h' v zs" "same_data h1 h'" "frame h1 h' (S \<union> {x})"
    by (auto simp: merged_def)
  have "slot pos h' l1 = Some x"
    using slot_frame [OF h'(5), of pos l1] assms(2,9) by auto
  moreover have "ls h' x (x # zs)" using h'(2,3) assms(8) by auto
  moreover have "frame h h' (insert x S \<union> set_option pos)"
    by (rule frame_trans [OF assms(4) h'(5)]) auto
  moreover have "same_data h h'" using assms(3) h'(4) by (rule same_data_trans)
  ultimately show ?thesis
    unfolding merged_def assms(7) h'(1) using assms(5) by auto
qed

lemma merge_loop_correct:
  assumes "gt = gt_of f h" "ls h p xs" "ls h q ys" "distinct (xs @ ys)"
    "set_option pos \<inter> (set xs \<union> set ys) = {}" "set_option pos \<subseteq> dom h"
  shows "merged f h l pos p q (set xs \<union> set ys) (merge_runs gt xs ys)"
  using assms
proof (induction gt xs ys arbitrary: h l pos p q rule: merge_runs.induct)
  case (1 gt x xs y ys)
  note pr = "1.prems"
  from ls_ConsE [OF pr(2)] ls_ConsE [OF pr(3)] obtain a b where ab: "h x = Some a" "h y = Some b"
    "p = x" "q = y" "x \<noteq> 0" "y \<noteq> 0" "ls h (next a) xs" "ls h (next b) ys" by metis
  have gt: "gt x y \<longleftrightarrow> f (data a) (data b) > 0" by (simp add: gt_of_def ab pr(1))
  have disj: "set_option pos \<inter> set xs = {}" "set_option pos \<inter> set ys = {}" "x \<notin> set_option pos"
    "y \<notin> set_option pos" "x \<notin> set xs" "x \<noteq> y" "x \<notin> set ys" "y \<notin> set xs" "y \<notin> set ys" "set xs \<inter> set ys = {}"
    "distinct xs" "distinct ys"
    using pr(4,5) by auto
  show ?case
  proof (cases "gt x y")
    case True
    from store_ok [OF pr(6), of y l] obtain h1 l1 where
      st: "store pos y (h, l) = Some (h1, l1)" "slot pos h1 l1 = Some y" "same_data h h1"
      "frame h h1 (set_option pos)" "pos \<noteq> None \<longrightarrow> l1 = l" by blast
    have x: "h1 x = Some a" "h1 y = Some b" using frame_at [OF st(4)] disj ab by simp_all
    have "merged f h1 l1 (Some y) x (next b) (set (x # xs) \<union> set ys) (merge_runs gt (x # xs) ys)"
    proof (rule "1.IH"(1) [OF True])
      show "gt = gt_of f h1" using gt_of_same [OF st(3)] pr(1) by simp
      show "ls h1 x (x # xs)" using ls_frame_set [OF ab(7) st(4)] disj ab x by auto
      show "ls h1 (next b) ys" by (rule ls_frame_set [OF ab(8) st(4)]) (use disj in auto)
    qed (use disj x in auto)
    moreover have "merge_loop f h l pos p q = merge_loop f h1 l1 (Some y) x (next b)"
      using True by (subst merge_loop.simps) (simp add: ab gt st x)
    ultimately have "merged f h l pos p q (insert y (set (x # xs) \<union> set ys)) (y # merge_runs gt (x # xs) ys)"
      using ab(6) disj by (intro merged_step [OF st]) auto
    with True show ?thesis by (simp add: insert_commute)
  next
    case False
    from store_ok [OF pr(6), of x l] obtain h1 l1 where
      st: "store pos x (h, l) = Some (h1, l1)" "slot pos h1 l1 = Some x" "same_data h h1"
      "frame h h1 (set_option pos)" "pos \<noteq> None \<longrightarrow> l1 = l" by blast
    have x: "h1 x = Some a" "h1 y = Some b" using frame_at [OF st(4)] disj ab by simp_all
    have "merged f h1 l1 (Some x) (next a) y (set xs \<union> set (y # ys)) (merge_runs gt xs (y # ys))"
    proof (rule "1.IH"(2) [OF False])
      show "gt = gt_of f h1" using gt_of_same [OF st(3)] pr(1) by simp
      show "ls h1 (next a) xs" by (rule ls_frame_set [OF ab(7) st(4)]) (use disj in auto)
      show "ls h1 y (y # ys)" using ls_frame_set [OF ab(8) st(4)] disj ab x by auto
    qed (use disj x in auto)
    moreover have "merge_loop f h l pos p q = merge_loop f h1 l1 (Some x) (next a) y"
      using False by (subst merge_loop.simps) (simp add: ab gt st x)
    ultimately have "merged f h l pos p q (insert x (set xs \<union> set (y # ys))) (x # merge_runs gt xs (y # ys))"
      using ab(5) disj by (intro merged_step [OF st]) auto
    with False show ?thesis by (simp add: insert_commute)
  qed
next
  case (2 gt ys)
  from store_ok [OF "2.prems"(6), of q l] obtain h1 l1 where
    st: "store pos q (h, l) = Some (h1, l1)" "slot pos h1 l1 = Some q" "same_data h h1"
    "frame h h1 (set_option pos)" "pos \<noteq> None \<longrightarrow> l1 = l" by blast
  have "ls h1 q ys" by (rule ls_frame_set [OF "2.prems"(3) st(4)]) (use "2.prems"(5) in auto)
  moreover have "merge_loop f h l pos p q = Some (h1, l1)"
    using "2.prems"(2) st(1) by (subst merge_loop.simps) simp
  ultimately show ?case using st unfolding merged_def by (auto intro: frame_mono)
next
  case (3 gt x xs)
  from store_ok [OF "3.prems"(6), of p l] obtain h1 l1 where
    st: "store pos p (h, l) = Some (h1, l1)" "slot pos h1 l1 = Some p" "same_data h h1"
    "frame h h1 (set_option pos)" "pos \<noteq> None \<longrightarrow> l1 = l" by blast
  have "ls h1 p (x # xs)" by (rule ls_frame_set [OF "3.prems"(2) st(4)]) (use "3.prems"(5) in auto)
  moreover have "merge_loop f h l pos p q = Some (h1, l1)"
    using "3.prems"(2,3) st(1) by (subst merge_loop.simps) simp
  ultimately show ?case using st unfolding merged_def by (auto intro: frame_mono)
qed

lemma merge_lists_correct:
  assumes "ls h p xs" "ls h q ys" "distinct (xs @ ys)"
  shows "\<exists>h' r. merge_lists h p q f = Some (h', r) \<and> ls h' r (merge_runs (gt_of f h) xs ys) \<and>
    same_data h h' \<and> frame h h' (set xs \<union> set ys)"
  using merge_loop_correct [OF refl assms, of None f 0] by (auto simp: merged_def merge_lists_def)


section \<open>Sweeping and carrying\<close>

definition sweep_runs :: "(ptr \<Rightarrow> ptr \<Rightarrow> bool) \<Rightarrow> ptr list \<Rightarrow> ptr list list \<Rightarrow> ptr list" where
  "sweep_runs gt xs A = foldl (\<lambda>l r. merge_runs gt r l) xs A"

lemma sweep_runs_simps [simp]:
  "sweep_runs gt xs [] = xs"
  "sweep_runs gt xs (r # A) = sweep_runs gt (merge_runs gt r xs) A"
  by (simp_all add: sweep_runs_def)

lemma mset_sweep_runs [simp]: "mset (sweep_runs gt xs A) = mset xs + mset (concat A)"
  by (induction A arbitrary: xs) auto

lemma set_sweep_runs [simp]: "set (sweep_runs gt xs A) = set xs \<union> set (concat A)"
  by (metis mset_sweep_runs set_mset_mset set_mset_union)

lemma length_sweep_runs [simp]: "length (sweep_runs gt xs A) = length xs + length (concat A)"
  by (metis mset_sweep_runs size_mset size_union)

lemma sweep_runs_empties: "(\<And>r. r \<in> set A \<Longrightarrow> r = []) \<Longrightarrow> sweep_runs gt xs (A @ B) = sweep_runs gt xs B"
proof (induction A)
  case (Cons r A)
  then have "r = []" by simp
  with Cons show ?case by simp
qed simp

text \<open>The elements from \<open>i\<close> to \<open>up\<close> set to null.\<close>

definition zeros :: "nat \<Rightarrow> nat \<Rightarrow> ptr option list \<Rightarrow> ptr option list" where
  "zeros i up R = map (\<lambda>k. if i \<le> k \<and> k < up then Some 0 else R ! k) [0..<length R]"

lemma length_zeros [simp]: "length (zeros i up R) = length R"
  by (simp add: zeros_def)

lemma nth_zeros [simp]: "k < length R \<Longrightarrow> zeros i up R ! k = (if i \<le> k \<and> k < up then Some 0 else R ! k)"
  by (simp add: zeros_def)

lemma zeros_step: "i < up \<Longrightarrow> zeros (Suc i) up (R[i := Some 0]) = zeros i up R"
  by (rule nth_equalityI) (auto simp: nth_list_update)

lemma zeros_id [simp]: "up \<le> i \<Longrightarrow> zeros i up R = R"
  by (rule nth_equalityI) auto

definition readable :: "'a heap \<Rightarrow> ptr option list \<Rightarrow> nat \<Rightarrow> ptr list list \<Rightarrow> bool" where
  "readable h R i A \<longleftrightarrow> i + length A \<le> length R \<and>
     (\<forall>k < length A. \<exists>p. R ! (i + k) = Some p \<and> ls h p (A ! k))"

lemma readable_Cons:
  "readable h R i (r # A) \<longleftrightarrow> i < length R \<and> (\<exists>p. R ! i = Some p \<and> ls h p r) \<and> readable h R (Suc i) A"
  unfolding readable_def by (auto simp: All_less_Suc2)

lemma readable_update: "readable h (R[i := v]) (Suc i) A \<longleftrightarrow> readable h R (Suc i) A"
  by (simp add: readable_def)

lemma readable_frame:
  assumes "readable h R i A" "frame h h' S" "set (concat A) \<inter> S = {}"
  shows "readable h' R i A"
  unfolding readable_def
proof (intro conjI allI impI)
  fix k assume k: "k < length A"
  then obtain p where p: "R ! (i + k) = Some p" "ls h p (A ! k)" using assms(1) by (auto simp: readable_def)
  have "ls h' p (A ! k)"
    by (rule ls_frame_set [OF p(2) assms(2)]) (use assms(3) nth_mem [OF k] in \<open>fastforce\<close>)
  with p show "\<exists>p. R ! (i + k) = Some p \<and> ls h' p (A ! k)" by blast
qed (use assms(1) in \<open>simp add: readable_def\<close>)

lemma sweep_loop_correct:
  assumes "readable h (ranks si) i A" "ls h l xs" "distinct (concat A @ xs)"
  shows "\<exists>h' r. sweep_loop i (i + length A) h si l =
      Some (h', si\<lparr>ranks := zeros i (i + length A) (ranks si)\<rparr>, r) \<and>
    ls h' r (sweep_runs (gt_of (func si) h) xs A) \<and> same_data h h' \<and>
    frame h h' (set (concat A) \<union> set xs)"
  using assms
proof (induction A arbitrary: i h si l xs)
  case Nil
  then show ?case by simp
next
  case (Cons run A)
  from Cons.prems(1) obtain p where p: "i < length (ranks si)" "ranks si ! i = Some p" "ls h p run"
    "readable h (ranks si) (Suc i) A" unfolding readable_Cons by blast
  have "distinct (run @ xs)" using Cons.prems(3) by auto
  from merge_lists_correct [OF p(3) Cons.prems(2) this, of "func si"] obtain h1 l1 where
    m: "merge_lists h p l (func si) = Some (h1, l1)" "ls h1 l1 (merge_runs (gt_of (func si) h) run xs)"
    "same_data h h1" "frame h h1 (set run \<union> set xs)" by blast
  let ?si = "si\<lparr>ranks := (ranks si)[i := Some 0]\<rparr>"
  have "readable h1 (ranks si) (Suc i) A"
    by (rule readable_frame [OF p(4) m(4)]) (use Cons.prems(3) in auto)
  then have "readable h1 (ranks ?si) (Suc i) A" by (simp add: readable_update)
  from Cons.IH [OF this m(2)] obtain h' r where
    s: "sweep_loop (Suc i) (Suc i + length A) h1 ?si l1 =
        Some (h', si\<lparr>ranks := zeros i (i + length (run # A)) (ranks si)\<rparr>, r)"
    "ls h' r (sweep_runs (gt_of (func si) h1) (merge_runs (gt_of (func si) h) run xs) A)" "same_data h1 h'"
    "frame h1 h' (set (concat A) \<union> (set run \<union> set xs))"
    using Cons.prems(3) by (force simp: zeros_step simp del: sweep_loop.simps)
  have "sweep_loop i (i + length (run # A)) h si l = sweep_loop (Suc i) (Suc i + length A) h1 ?si l1"
    by (subst sweep_loop.simps) (simp add: rank_at_def set_rank_def p m del: sweep_loop.simps)
  moreover have "frame h h' (set (concat (run # A)) \<union> set xs)"
    by (rule frame_trans [OF m(4) s(4)]) auto
  ultimately show ?case
    using s same_data_trans [OF m(3) s(3)] gt_of_same [OF m(3)] by (simp del: sweep_loop.simps)
qed

text \<open>Carrying is sweeping up to the first empty rank.\<close>

lemma carry_loop_is_sweep:
  assumes "i + m \<le> n" "n \<le> length (ranks si)" "\<And>k. k < m \<Longrightarrow> \<exists>p. ranks si ! (i + k) = Some p \<and> p \<noteq> 0"
    and "i + m < n \<Longrightarrow> ranks si ! (i + m) = Some 0"
  shows "carry_loop i n h si l = map_option (Pair (i + m)) (sweep_loop i (i + m) h si l)"
  using assms
proof (induction m arbitrary: i h si l)
  case 0
  then show ?case by (subst carry_loop.simps, subst sweep_loop.simps) (auto simp: rank_at_def)
next
  case (Suc m)
  from Suc.prems(3) [of 0] obtain p where p: "ranks si ! i = Some p" "p \<noteq> 0" by auto
  have i: "i < n" "i < length (ranks si)" using Suc.prems(1,2) by auto
  let ?si = "si\<lparr>ranks := (ranks si)[i := Some 0]\<rparr>"
  have "carry_loop (Suc i) n h1 ?si l1 = map_option (Pair (Suc i + m)) (sweep_loop (Suc i) (Suc i + m) h1 ?si l1)" for h1 l1
    by (rule Suc.IH) (use Suc.prems(1,2) Suc.prems(3) [of "Suc _"] Suc.prems(4) in auto)
  then show ?case
    by (subst carry_loop.simps, subst sweep_loop.simps)
      (simp add: rank_at_def set_rank_def p i bind_map_option split: Option.bind_split del: carry_loop.simps sweep_loop.simps)
qed

lemma readable_append:
  "readable h R i (A @ B) \<longleftrightarrow> readable h R i A \<and> readable h R (i + length A) B"
  by (induction A arbitrary: i) (auto simp: readable_Cons, auto simp: readable_def)

lemma readable_cong:
  "\<lbrakk>readable h R i A; length R' = length R; \<And>k. \<lbrakk>i \<le> k; k < i + length A\<rbrakk> \<Longrightarrow> R' ! k = R ! k\<rbrakk> \<Longrightarrow> readable h R' i A"
  by (auto simp: readable_def)

lemma readable_empties:
  "readable h R i (replicate n []) \<longleftrightarrow> i + n \<le> length R \<and> (\<forall>k < n. R ! (i + k) = Some 0)"
  by (auto simp: readable_def)

section \<open>Inserting a run\<close>

definition full_ranks :: "ptr list list \<Rightarrow> nat" where
  "full_ranks A = length (takeWhile (\<lambda>r. r \<noteq> []) A)"

definition insert_runs ::
  "nat \<Rightarrow> (ptr \<Rightarrow> ptr \<Rightarrow> bool) \<Rightarrow> ptr list \<Rightarrow> ptr list list \<Rightarrow> ptr list list" where
  "insert_runs M gt xs A =
    (let m = full_ranks A; i = (if m = M then m - 1 else m)
     in replicate i [] @ sweep_runs gt xs (take m A) # drop (Suc i) A)"

lemma full_ranks_le: "full_ranks A \<le> length A"
  by (simp add: full_ranks_def length_takeWhile_le)

lemma full_ranks_nonempty:
  assumes "k < full_ranks A"
  shows "A ! k \<noteq> []"
proof -
  have "takeWhile (\<lambda>r. r \<noteq> []) A ! k \<noteq> []"
    using nth_mem [OF assms [unfolded full_ranks_def]] set_takeWhileD by fastforce
  then show ?thesis using takeWhile_nth [OF assms [unfolded full_ranks_def]] by simp
qed

lemma full_ranks_stop: "full_ranks A < length A \<Longrightarrow> A ! full_ranks A = []"
  unfolding full_ranks_def by (drule nth_length_takeWhile) simp

text \<open>
  The state of a sort represents the runs \<open>A\<close>, one per rank: everything below \<open>n_ranks\<close>
  was written, and the ranks below \<open>min_rank\<close> are empty.
\<close>

definition sort_inv :: "nat \<Rightarrow> 'a heap \<Rightarrow> 'a sort_info \<Rightarrow> ptr list list \<Rightarrow> bool" where
  "sort_inv sz h si A \<longleftrightarrow> n_ranks si = length A \<and> length (ranks si) = MAX_RANKS sz \<and>
     min_rank si \<le> length A \<and> (\<forall>i < min_rank si. A ! i = []) \<and> readable h (ranks si) 0 A"

lemma sort_inv_frame:
  "\<lbrakk>sort_inv sz h si A; frame h h' S; set (concat A) \<inter> S = {}\<rbrakk> \<Longrightarrow> sort_inv sz h' si A"
  unfolding sort_inv_def using readable_frame [of h "ranks si" 0 A h' S] by blast

lemma MAX_RANKS_pos: "0 < MAX_RANKS sz"
proof -
  have "FLOOR_LOG2 sz \<le> 7" by (simp add: FLOOR_LOG2_def of_bool_def)
  then show ?thesis by (simp add: MAX_RANKS_def)
qed

lemma carry_correct:
  assumes "sort_inv sz h si A" "ls h p xs" "distinct (concat A @ xs)"
  defines "m \<equiv> full_ranks A"
  shows "\<exists>h' r. carry_loop 0 (n_ranks si) h si p =
      Some (m, h', si\<lparr>ranks := zeros 0 m (ranks si)\<rparr>, r) \<and>
    ls h' r (sweep_runs (gt_of (func si) h) xs (take m A)) \<and> same_data h h' \<and>
    frame h h' (set (concat (take m A)) \<union> set xs)"
proof -
  have m: "m \<le> length A" by (simp add: m_def full_ranks_le)
  have R: "readable h (ranks si) 0 (take m A @ drop m A)" "n_ranks si = length A"
    "length (ranks si) = MAX_RANKS sz"
    using assms(1) by (simp_all add: sort_inv_def)
  have p: "\<exists>p. ranks si ! k = Some p \<and> ls h p (A ! k)" if "k < length A" for k
    using R(1) that by (simp add: readable_def)
  have "carry_loop 0 (n_ranks si) h si p = map_option (Pair (0 + m)) (sweep_loop 0 (0 + m) h si p)"
  proof (rule carry_loop_is_sweep)
    show "n_ranks si \<le> length (ranks si)" using R by (simp add: readable_def)
    show "\<exists>p. ranks si ! (0 + k) = Some p \<and> p \<noteq> 0" if "k < m" for k
      using p [of k] m that full_ranks_nonempty [of k A] ls_empty_iff by (fastforce simp: m_def)
    show "ranks si ! (0 + m) = Some 0" if "0 + m < n_ranks si"
      using p [of m] that R(2) full_ranks_stop [of A] by (auto simp: m_def)
  qed (use m R in simp)
  moreover have "distinct (concat (take m A) @ xs)"
  proof -
    have "concat A = concat (take m A) @ concat (drop m A)" by (metis append_take_drop_id concat_append)
    with assms(3) show ?thesis by auto
  qed
  moreover have "readable h (ranks si) 0 (take m A)" "length (take m A) = m"
    using R(1) [unfolded readable_append] m by simp_all
  ultimately show ?thesis
    using sweep_loop_correct [of h si 0 "take m A" p xs] assms(2) by fastforce
qed

lemma insert_list_correct:
  assumes "sort_inv sz h si A" "ls h p xs" "distinct (concat A @ xs)"
  shows "\<exists>h' si'. insert_list sz h si p 0 = Some (h', si') \<and>
    sort_inv sz h' si' (insert_runs (MAX_RANKS sz) (gt_of (func si) h) xs A) \<and> func si' = func si \<and>
    same_data h h' \<and> frame h h' (set (concat A) \<union> set xs)"
proof -
  let ?M = "MAX_RANKS sz"
  define m where "m = full_ranks A"
  define i where "i = (if m = ?M then m - 1 else m)"
  from carry_correct [OF assms] obtain h' r where
    c: "carry_loop 0 (n_ranks si) h si p = Some (m, h', si\<lparr>ranks := zeros 0 m (ranks si)\<rparr>, r)"
    "ls h' r (sweep_runs (gt_of (func si) h) xs (take m A))" "same_data h h'"
    "frame h h' (set (concat (take m A)) \<union> set xs)"
    unfolding m_def by blast
  have R: "n_ranks si = length A" "length (ranks si) = ?M" "readable h (ranks si) 0 A"
    using assms(1) by (simp_all add: sort_inv_def)
  have m: "m \<le> length A" by (simp add: m_def full_ranks_le)
  have i: "i < ?M" "i \<le> m" "m \<le> Suc i"
    using m R(2,3) MAX_RANKS_pos [of sz] by (auto simp: i_def readable_def)
  define si' where "si' = si\<lparr>ranks := (zeros 0 m (ranks si))[i := Some r], min_rank := i,
    n_ranks := max (n_ranks si) (Suc i)\<rparr>"
  have run: "insert_list sz h si p 0 = Some (h', si')"
    unfolding insert_list_def insert_find_def insert_store_def set_rank_def si'_def
    using i R(2) by (simp add: c i_def [symmetric] Let_def max_def del: carry_loop.simps)
  let ?A = "insert_runs ?M (gt_of (func si) h) xs A"
  have A: "?A = replicate i [] @ sweep_runs (gt_of (func si) h) xs (take m A) # drop (Suc i) A"
    by (simp add: insert_runs_def m_def [symmetric] i_def [symmetric] Let_def)
  have cat: "concat A = concat (take (Suc i) A) @ concat (drop (Suc i) A)"
    by (metis append_take_drop_id concat_append)
  have sub: "set (take m A) \<subseteq> set (take (Suc i) A)" by (rule set_take_subset_set_take [OF i(3)])
  have "set (concat (take (Suc i) A)) \<inter> set (concat (drop (Suc i) A)) = {}"
    "set (concat (drop (Suc i) A)) \<inter> set xs = {}"
    using assms(3) unfolding cat by auto
  moreover have "set (concat (take m A)) \<subseteq> set (concat (take (Suc i) A))" using sub by auto
  ultimately have disj: "set (concat (drop (Suc i) A)) \<inter> (set (concat (take m A)) \<union> set xs) = {}" by blast
  have "readable h (ranks si) (0 + length (take (Suc i) A)) (drop (Suc i) A)"
    using R(3) readable_append [of h "ranks si" 0 "take (Suc i) A" "drop (Suc i) A"] by simp
  then have "readable h' (ranks si) (0 + length (take (Suc i) A)) (drop (Suc i) A)"
    by (rule readable_frame [OF _ c(4) disj])
  then have "readable h' (ranks si') (Suc i) (drop (Suc i) A)"
    using i R(2) by (cases "Suc i \<le> length A") (auto simp: readable_def si'_def min_absorb2 nth_list_update)
  moreover have "readable h' (ranks si') i [sweep_runs (gt_of (func si) h) xs (take m A)]"
    using c(2) i R(2) by (simp add: readable_def si'_def)
  moreover have "readable h' (ranks si') 0 (replicate i [])"
    using i R(2) by (simp add: readable_empties si'_def)
  ultimately have "readable h' (ranks si') 0 ?A"
    unfolding A by (simp add: readable_append readable_Cons [of _ _ _ _ "drop _ _"]) (simp add: readable_Cons)
  moreover have "length ?A = max (length A) (Suc i)" unfolding A by simp
  ultimately have "sort_inv sz h' si' ?A"
    using R(1,2) by (simp add: sort_inv_def si'_def A nth_append)
  moreover have "frame h h' (set (concat A) \<union> set xs)"
    by (rule frame_mono [OF c(4)]) (use sub in \<open>unfold cat, auto\<close>)
  ultimately show ?thesis using run c(3) by (simp add: si'_def)
qed

section \<open>The loop\<close>

fun sort_runs ::
  "nat \<Rightarrow> (ptr \<Rightarrow> ptr \<Rightarrow> bool) \<Rightarrow> ptr list list \<Rightarrow> ptr list \<Rightarrow> ptr list list \<times> ptr list" where
  "sort_runs M gt A (a # b # as) =
     sort_runs M gt (insert_runs M gt (if gt a b then [b, a] else [a, b]) A) as"
| "sort_runs M gt A [] = (A, [])"
| "sort_runs M gt A [a] = (A, [a])"

lemma cut_pair_correct:
  assumes "ls h a (a # b # as)" "distinct (a # b # as)"
  shows "\<exists>h' p. cut_pair f h a b = Some (h', p) \<and> ls h' p (if gt_of f h a b then [b, a] else [a, b]) \<and>
    same_data h h' \<and> frame h h' {a, b}"
proof -
  from assms(1) obtain m n where mn: "h a = Some m" "next m = b" "h b = Some n" "a \<noteq> 0" "b \<noteq> 0"
    by (elim ls_ConsE) metis
  have gt: "gt_of f h a b \<longleftrightarrow> f (data m) (data n) > 0" by (simp add: gt_of_def mn)
  show ?thesis
    using assms(2) mn(4,5) by (simp add: cut_pair_def set_next_def mn(1-3) gt same_data_def frame_def)
qed

lemma concat_drop_full_ranks:
  assumes "i = (if full_ranks A = M then full_ranks A - 1 else full_ranks A)"
  shows "concat (drop (full_ranks A) A) = concat (drop (Suc i) A)"
proof (cases "i = full_ranks A")
  case True
  show ?thesis
  proof (cases "i < length A")
    case less: True
    with full_ranks_stop [of A] True have "A ! i = []" by simp
    then have "drop i A = [] # drop (Suc i) A" using Cons_nth_drop_Suc [OF less] by simp
    with True show ?thesis by simp
  qed (use True in simp)
next
  case False
  with assms have "Suc i = full_ranks A" by (auto split: if_splits)
  then show ?thesis by simp
qed

lemma mset_insert_runs [simp]: "mset (concat (insert_runs M gt xs A)) = mset (concat A) + mset xs"
proof -
  let ?m = "full_ranks A" and ?i = "if full_ranks A = M then full_ranks A - 1 else full_ranks A"
  have "concat A = concat (take ?m A) @ concat (drop ?m A)" by (metis append_take_drop_id concat_append)
  also have "concat (drop ?m A) = concat (drop (Suc ?i) A)" by (rule concat_drop_full_ranks) simp
  finally show ?thesis by (simp add: insert_runs_def Let_def)
qed

lemma mset_sort_runs:
  "sort_runs M gt A as = (A', rest) \<Longrightarrow> mset (concat A') + mset rest = mset (concat A) + mset as"
  by (induction M gt A as rule: sort_runs.induct) (auto split: if_splits)

lemma sort_loop_correct:
  assumes "sort_inv sz h si A" "ls h p as" "distinct (concat A @ as)" "gt = gt_of (func si) h"
  shows "\<exists>h' si' r. sort_loop sz h si p = Some (h', si', r) \<and>
    sort_inv sz h' si' (fst (sort_runs (MAX_RANKS sz) gt A as)) \<and>
    ls h' r (snd (sort_runs (MAX_RANKS sz) gt A as)) \<and>
    func si' = func si \<and> same_data h h' \<and> frame h h' (set (concat A) \<union> set as)"
  using assms
proof (induction "MAX_RANKS sz" gt A as arbitrary: h si p rule: sort_runs.induct)
  case (1 gt A a b as)
  note pr = "1.prems"
  from pr(2) obtain m n where mn: "p = a" "h a = Some m" "next m = b" "h b = Some n" "a \<noteq> 0" "b \<noteq> 0"
    "ls h (next n) as"
    by (elim ls_ConsE) metis
  let ?run = "if gt a b then [b, a] else [a, b]"
  from cut_pair_correct [of h a b as "func si"] pr(2,3) obtain h1 q where
    c: "cut_pair (func si) h a b = Some (h1, q)" "ls h1 q ?run" "same_data h h1" "frame h h1 {a, b}"
    by (auto simp: mn(1) pr(4) simp del: ls.simps)
  have inv: "sort_inv sz h1 si A" by (rule sort_inv_frame [OF pr(1) c(4)]) (use pr(3) in auto)
  have gt1: "gt_of (func si) h1 = gt" by (simp add: gt_of_same [OF c(3)] pr(4))
  have "distinct (concat A @ ?run)" using pr(3) by auto
  from insert_list_correct [OF inv c(2) this] obtain h2 si2 where
    i: "insert_list sz h1 si q 0 = Some (h2, si2)"
    "sort_inv sz h2 si2 (insert_runs (MAX_RANKS sz) gt ?run A)" "func si2 = func si" "same_data h1 h2"
    "frame h1 h2 (set (concat A) \<union> set ?run)"
    unfolding gt1 by blast
  have "ls h1 (next n) as" by (rule ls_frame_set [OF mn(7) c(4)]) (use pr(3) in auto)
  then have tail: "ls h2 (next n) as" by (rule ls_frame_set [OF _ i(5)]) (use pr(3) in \<open>auto split: if_splits\<close>)
  have sd: "same_data h h2" using c(3) i(4) by (rule same_data_trans)
  have "mset (concat (insert_runs (MAX_RANKS sz) gt ?run A) @ as) = mset (concat A @ a # b # as)" by simp
  then have dis: "distinct (concat (insert_runs (MAX_RANKS sz) gt ?run A) @ as)"
    using pr(3) mset_eq_imp_distinct_iff by blast
  have "gt = gt_of (func si2) h2" by (simp add: i(3) gt_of_same [OF sd] pr(4))
  from "1.hyps" [OF i(2) tail dis this] obtain h' si' r where
    l: "sort_loop sz h2 si2 (next n) = Some (h', si', r)"
    "sort_inv sz h' si' (fst (sort_runs (MAX_RANKS sz) gt A (a # b # as)))"
    "ls h' r (snd (sort_runs (MAX_RANKS sz) gt A (a # b # as)))" "func si' = func si" "same_data h2 h'"
    "frame h2 h' (set (concat (insert_runs (MAX_RANKS sz) gt ?run A)) \<union> set as)"
    by (auto simp: i(3))
  have "sort_loop sz h si p = Some (h', si', r)"
    using mn by (subst sort_loop.simps) (simp add: c(1) i(1) l(1))
  moreover have "set (concat (insert_runs (MAX_RANKS sz) gt ?run A)) = set (concat A) \<union> {a, b}"
    by (simp only: set_mset_mset [symmetric] mset_insert_runs set_mset_union) auto
  then have "frame h h' (set (concat A) \<union> set (a # b # as))"
    by (intro frame_trans [OF frame_trans [OF c(4) i(5) _ subset_refl] l(6)]) auto
  ultimately show ?case
    using l(2-4) same_data_trans [OF sd l(5)] by (intro exI [of _ h'] exI [of _ si'] exI [of _ r] conjI)
next
  case (2 gt A)
  then show ?case by (subst sort_loop.simps) simp
next
  case (3 gt A a)
  from "3.prems"(2) obtain m where "h p = Some m" "next m = 0" "p \<noteq> 0" by (elim ls_ConsE) auto
  with "3.prems" show ?case by (subst sort_loop.simps) simp
qed

section \<open>The whole sort refines a sort of address lists\<close>

definition sorted_nodes :: "nat \<Rightarrow> (ptr \<Rightarrow> ptr \<Rightarrow> bool) \<Rightarrow> ptr list \<Rightarrow> ptr list" where
  "sorted_nodes M gt as = sweep_runs gt (snd (sort_runs M gt [] as)) (fst (sort_runs M gt [] as))"

lemma ls_unique: "\<lbrakk>ls h p as; ls h p bs\<rbrakk> \<Longrightarrow> as = bs"
proof (induction as arbitrary: p bs)
  case (Cons a as)
  then show ?case by (cases bs) (auto elim!: ls_ConsE)
qed simp

lemma ls_suffix: "\<lbrakk>ls h p (as @ a # bs)\<rbrakk> \<Longrightarrow> ls h a (a # bs)"
  by (induction as arbitrary: p) auto

lemma ls_distinct: "ls h p as \<Longrightarrow> distinct as"
proof (induction as arbitrary: p)
  case (Cons a as)
  then obtain n where n: "a \<noteq> 0" "p = a" "h a = Some n" "ls h (next n) as" by (elim ls_ConsE)
  have "a \<notin> set as"
  proof
    assume "a \<in> set as"
    then obtain us vs where "as = us @ a # vs" by (auto simp: in_set_conv_decomp)
    with ls_suffix [of h "next n" us a vs] n(4) have "ls h a (a # vs)" by simp
    moreover have "ls h a (a # as)" using Cons.prems n(2) by simp
    ultimately have "vs = as" using ls_unique by blast
    with \<open>as = us @ a # vs\<close> show False by simp
  qed
  with Cons.IH n(4) show ?case by simp
qed simp

lemma sort_inv_init: "sort_inv sz h (init_sort_info sz f) []"
  by (simp add: sort_inv_def init_sort_info_def readable_def)

lemma sweep_up_correct:
  assumes "sort_inv sz h si A" "ls h p xs" "distinct (concat A @ xs)"
  shows "\<exists>h' si' r. sweep_up h si p (n_ranks si) = Some (h', si', r) \<and>
    ls h' r (sweep_runs (gt_of (func si) h) xs A) \<and> same_data h h' \<and> frame h h' (set (concat A) \<union> set xs)"
proof -
  let ?k = "min_rank si"
  have inv: "n_ranks si = length A" "?k \<le> length A" "\<forall>i < ?k. A ! i = []" "readable h (ranks si) 0 A"
    using assms(1) by (simp_all add: sort_inv_def)
  have empties: "r = []" if "r \<in> set (take ?k A)" for r
    using that inv(2,3) by (auto simp: in_set_conv_nth)
  have cat: "concat A = concat (drop ?k A)"
    using empties by (subst append_take_drop_id [of ?k A, symmetric]) (simp only: concat_append, simp)
  have "readable h (ranks si) ?k (drop ?k A)"
    using inv(2,4) readable_append [of h "ranks si" 0 "take ?k A" "drop ?k A"] by (simp add: min_absorb2)
  moreover have "distinct (concat (drop ?k A) @ xs)" using assms(3) cat by simp
  ultimately obtain h' si' r where "sweep_loop ?k (?k + length (drop ?k A)) h si p = Some (h', si', r)"
    "ls h' r (sweep_runs (gt_of (func si) h) xs (drop ?k A))" "same_data h h'"
    "frame h h' (set (concat (drop ?k A)) \<union> set xs)"
    using sweep_loop_correct [OF _ assms(2)] by blast
  moreover have "sweep_runs (gt_of (func si) h) xs (drop ?k A) = sweep_runs (gt_of (func si) h) xs A"
    using sweep_runs_empties [of "take ?k A" "gt_of (func si) h" xs "drop ?k A", OF empties] by simp
  ultimately show ?thesis
    using inv(1,2) cat by (simp add: sweep_up_def del: sweep_loop.simps)
qed

lemma do_sort_refines:
  assumes "ls h p as"
  shows "\<exists>h' q. do_sort sz h p f = Some (h', q) \<and> ls h' q (sorted_nodes (MAX_RANKS sz) (gt_of f h) as) \<and>
    same_data h h' \<and> frame h h' (set as)"
proof -
  have init: "func (init_sort_info sz f) = f" by (simp add: init_sort_info_def)
  let ?gt = "gt_of f h"
  define A where "A = fst (sort_runs (MAX_RANKS sz) ?gt [] as)"
  define rest where "rest = snd (sort_runs (MAX_RANKS sz) ?gt [] as)"
  from sort_loop_correct [OF sort_inv_init assms] ls_distinct [OF assms] obtain h1 si r where
    l: "sort_loop sz h (init_sort_info sz f) p = Some (h1, si, r)" "sort_inv sz h1 si A" "ls h1 r rest"
    "func si = f" "same_data h h1" "frame h h1 (set as)"
    by (force simp: A_def rest_def init)
  have ms: "mset (concat A @ rest) = mset as"
    using mset_sort_runs [of "MAX_RANKS sz" ?gt "[]" as A rest] by (simp add: A_def rest_def)
  then have "distinct (concat A @ rest)" using ls_distinct [OF assms] mset_eq_imp_distinct_iff by blast
  from sweep_up_correct [OF l(2,3) this] obtain h' si' q where
    s: "sweep_up h1 si r (n_ranks si) = Some (h', si', q)" "ls h' q (sweep_runs (gt_of f h1) rest A)"
    "same_data h1 h'" "frame h1 h' (set (concat A) \<union> set rest)"
    unfolding l(4) by blast
  have "do_sort sz h p f = Some (h', q)" by (simp add: do_sort_def l(1) s(1))
  moreover have "ls h' q (sorted_nodes (MAX_RANKS sz) ?gt as)"
    using s(2) by (simp add: sorted_nodes_def A_def rest_def gt_of_same [OF l(5)])
  moreover have "set (concat A) \<union> set rest = set as" using ms by (metis set_append set_mset_mset)
  then have "frame h h' (set as)" using frame_trans [OF l(6) s(4)] by simp
  ultimately show ?thesis using same_data_trans [OF l(5) s(3)] by blast
qed

lemma mset_sorted_nodes [simp]: "mset (sorted_nodes M gt as) = mset as"
  using mset_sort_runs [of M gt "[]" as, OF prod.collapse [symmetric]]
  by (simp add: sorted_nodes_def add.commute)

section \<open>Order and stability\<close>

text \<open>\<open>gt\<close> is a strict weak order on the nodes \<open>S\<close>; a class of ties is a set of pairwise unordered nodes.\<close>

definition weak_order :: "ptr set \<Rightarrow> (ptr \<Rightarrow> ptr \<Rightarrow> bool) \<Rightarrow> bool" where
  "weak_order S gt \<longleftrightarrow> (\<forall>a\<in>S. \<forall>b\<in>S. gt a b \<longrightarrow> \<not> gt b a) \<and>
     (\<forall>a\<in>S. \<forall>b\<in>S. \<forall>c\<in>S. \<not> gt a b \<longrightarrow> \<not> gt b c \<longrightarrow> \<not> gt a c)"

definition ties :: "ptr set \<Rightarrow> (ptr \<Rightarrow> ptr \<Rightarrow> bool) \<Rightarrow> (ptr \<Rightarrow> bool) \<Rightarrow> bool" where
  "ties S gt P \<longleftrightarrow> (\<forall>a\<in>S. \<forall>b\<in>S. P a \<longrightarrow> P b \<longrightarrow> \<not> gt a b)"

abbreviation in_order :: "(ptr \<Rightarrow> ptr \<Rightarrow> bool) \<Rightarrow> ptr list \<Rightarrow> bool" where
  "in_order gt \<equiv> sorted_wrt (\<lambda>a b. \<not> gt a b)"

lemma in_order_merge_runs:
  assumes "weak_order S gt" "set xs \<subseteq> S" "set ys \<subseteq> S" "in_order gt xs" "in_order gt ys"
  shows "in_order gt (merge_runs gt xs ys)"
  using assms
proof (induction gt xs ys rule: merge_runs.induct)
  case (1 gt x xs y ys)
  have tr: "\<not> gt a c" if "\<not> gt a b" "\<not> gt b c" "a \<in> S" "b \<in> S" "c \<in> S" for a b c
    using "1.prems"(1) that unfolding weak_order_def by blast
  show ?case
  proof (cases "gt x y")
    case True
    then have "\<not> gt y x" using "1.prems"(1,2,3) unfolding weak_order_def by auto
    then have "\<forall>z \<in> set (x # xs) \<union> set ys. \<not> gt y z"
      using "1.prems"(2-5) tr [of y x] by auto
    with True "1.IH"(1) "1.prems" show ?thesis by simp
  next
    case False
    then have "\<forall>z \<in> set xs \<union> set (y # ys). \<not> gt x z"
      using "1.prems"(2-5) tr [of x y] by auto
    with False "1.IH"(2) "1.prems" show ?thesis by simp
  qed
qed auto

lemma filter_merge_runs:
  assumes "weak_order S gt" "ties S gt P" "set xs \<subseteq> S" "set ys \<subseteq> S" "in_order gt xs"
  shows "filter P (merge_runs gt xs ys) = filter P xs @ filter P ys"
  using assms
proof (induction gt xs ys rule: merge_runs.induct)
  case (1 gt x xs y ys)
  show ?case
  proof (cases "gt x y")
    case True
    have "filter P (x # xs) = []" if "P y"
    proof -
      have "\<not> P z" if z: "z \<in> set (x # xs)" for z
      proof
        assume "P z"
        have S: "x \<in> S" "y \<in> S" "z \<in> S" using "1.prems"(3,4) z by auto
        have "\<not> gt x z"
        proof (cases "z = x")
          case True
          then show ?thesis using "1.prems"(1) S unfolding weak_order_def by blast
        next
          case False
          then show ?thesis using "1.prems"(5) z by simp
        qed
        moreover have "\<not> gt z y" using "1.prems"(2) S \<open>P y\<close> \<open>P z\<close> unfolding ties_def by blast
        ultimately show False using "1.prems"(1) S True unfolding weak_order_def by blast
      qed
      then show ?thesis by (simp add: filter_empty_conv)
    qed
    then show ?thesis using True 1 by auto
  next
    case False
    then show ?thesis using 1 by simp
  qed
qed auto

lemma sweep_runs_sorts:
  assumes "weak_order S gt" "ties S gt P" "set xs \<subseteq> S" "in_order gt xs"
    and "\<And>r. r \<in> set A \<Longrightarrow> set r \<subseteq> S \<and> in_order gt r"
  shows "in_order gt (sweep_runs gt xs A) \<and>
    filter P (sweep_runs gt xs A) = filter P (concat (rev A)) @ filter P xs"
  using assms(3-5)
proof (induction A arbitrary: xs)
  case (Cons r A)
  then have "set r \<subseteq> S" "in_order gt r" by auto
  then show ?case
    using Cons.IH [of "merge_runs gt r xs"] Cons.prems in_order_merge_runs [OF assms(1)]
      filter_merge_runs [OF assms(1,2)] by simp
qed simp

text \<open>The runs of a state, the highest rank first, keep the order of arrival of tied nodes.\<close>

definition runs_ok :: "ptr set \<Rightarrow> (ptr \<Rightarrow> ptr \<Rightarrow> bool) \<Rightarrow> ptr list list \<Rightarrow> bool" where
  "runs_ok S gt A \<longleftrightarrow> (\<forall>r \<in> set A. set r \<subseteq> S \<and> in_order gt r)"

lemma insert_runs_sorts:
  assumes "weak_order S gt" "ties S gt P" "set xs \<subseteq> S" "in_order gt xs" "runs_ok S gt A"
  shows "runs_ok S gt (insert_runs M gt xs A) \<and>
    filter P (concat (rev (insert_runs M gt xs A))) = filter P (concat (rev A)) @ filter P xs"
proof -
  define m where "m = full_ranks A"
  define i where "i = (if m = M then m - 1 else m)"
  define r where "r = sweep_runs gt xs (take m A)"
  have ins: "insert_runs M gt xs A = replicate i [] @ r # drop (Suc i) A"
    by (simp only: insert_runs_def Let_def m_def i_def r_def)
  have B: "concat (rev (drop m A)) = concat (rev (drop (Suc i) A))"
  proof (cases "i = m \<and> m < length A")
    case True
    then have "drop m A = [] # drop (Suc i) A"
      using full_ranks_stop [of A] Cons_nth_drop_Suc [of m A] by (simp add: m_def)
    then show ?thesis by simp
  next
    case False
    then show ?thesis using full_ranks_le [of A] by (auto simp: i_def m_def split: if_splits)
  qed
  have "rev A = rev (drop m A) @ rev (take m A)" by (metis append_take_drop_id rev_append)
  then have A: "filter P (concat (rev A)) =
      filter P (concat (rev (drop (Suc i) A))) @ filter P (concat (rev (take m A)))"
    by (simp only: concat_append filter_append B)
  have ok: "\<And>q. q \<in> set A \<Longrightarrow> set q \<subseteq> S \<and> in_order gt q" using assms(5) unfolding runs_ok_def by blast
  have r: "in_order gt r \<and> filter P r = filter P (concat (rev (take m A))) @ filter P xs"
    unfolding r_def by (rule sweep_runs_sorts [OF assms(1-4)]) (blast dest: in_set_takeD ok)
  have "set r \<subseteq> S" unfolding r_def using assms(3) by (auto dest!: in_set_takeD dest: ok)
  with r have "runs_ok S gt (insert_runs M gt xs A)"
    unfolding ins runs_ok_def by (auto dest!: in_set_dropD dest: ok)
  moreover have "concat (rev (replicate i [])) = ([] :: ptr list)" by simp
  then have "filter P (concat (rev (insert_runs M gt xs A))) = filter P (concat (rev A)) @ filter P xs"
    unfolding ins A using r by simp
  ultimately show ?thesis by blast
qed

lemma sort_runs_sorts:
  assumes "weak_order S gt" "ties S gt P" "set as \<subseteq> S" "runs_ok S gt A"
  shows "runs_ok S gt (fst (sort_runs M gt A as)) \<and> in_order gt (snd (sort_runs M gt A as)) \<and>
    filter P (concat (rev (fst (sort_runs M gt A as))) @ snd (sort_runs M gt A as)) = filter P (concat (rev A) @ as)"
  using assms
proof (induction M gt A as rule: sort_runs.induct)
  case (1 M gt A a b as)
  let ?run = "if gt a b then [b, a] else [a, b]"
  have "\<not> gt b a" if "gt a b" using that "1.prems"(1,3) unfolding weak_order_def by auto
  then have run: "in_order gt ?run" "set ?run \<subseteq> S" using "1.prems"(3) by auto
  have "filter P ?run = filter P [a, b]"
    using "1.prems"(2,3) unfolding ties_def by auto
  with insert_runs_sorts [OF "1.prems"(1,2) run(2,1) "1.prems"(4), of M] "1.IH" "1.prems"
  show ?case by simp
qed (auto simp: runs_ok_def)

lemma sorted_nodes_sorts:
  assumes "weak_order (set as) gt" "ties (set as) gt P"
  shows "in_order gt (sorted_nodes M gt as) \<and> filter P (sorted_nodes M gt as) = filter P as"
proof -
  have s: "runs_ok (set as) gt (fst (sort_runs M gt [] as))" "in_order gt (snd (sort_runs M gt [] as))"
    "filter P (concat (rev (fst (sort_runs M gt [] as))) @ snd (sort_runs M gt [] as)) = filter P as"
    using sort_runs_sorts [OF assms subset_refl, of "[]" M] by (auto simp: runs_ok_def)
  have "set (snd (sort_runs M gt [] as)) \<subseteq> set as"
    using mset_sort_runs [of M gt "[]" as, OF prod.collapse [symmetric]]
    by (metis concat.simps(1) mset.simps(1) add_0 mset_subset_eq_add_right set_mset_mono set_mset_mset)
  from sweep_runs_sorts [OF assms this s(2), of "fst (sort_runs M gt [] as)"] s(1,3)
  show ?thesis by (simp add: sorted_nodes_def runs_ok_def)
qed

section \<open>The properties\<close>

definition key :: "'a heap \<Rightarrow> ptr \<Rightarrow> 'a" where
  "key h a = data (the (h a))"

lemma gt_of_key: "\<lbrakk>a \<in> dom h; b \<in> dom h\<rbrakk> \<Longrightarrow> gt_of f h a b \<longleftrightarrow> f (key h a) (key h b) > 0"
  by (auto simp: gt_of_def key_def)

lemma weak_order_gt_of:
  assumes "consistent f" "S \<subseteq> dom h"
  shows "weak_order S (gt_of f h)"
proof -
  have k: "gt_of f h a b \<longleftrightarrow> f (key h a) (key h b) > 0" if "a \<in> S" "b \<in> S" for a b
    by (rule gt_of_key) (rule subsetD [OF assms(2)], fact that)+
  show ?thesis
    unfolding weak_order_def
    by (intro conjI ballI impI; simp add: k not_less) (use assms(1) in \<open>unfold consistent_def, blast\<close>)+
qed

lemma ties_gt_of:
  assumes "consistent f" "S \<subseteq> dom h"
  shows "ties S (gt_of f h) (\<lambda>a. f (key h a) v \<le> 0 \<and> f v (key h a) \<le> 0)"
  unfolding ties_def
proof (intro ballI impI)
  fix a b
  assume ab: "a \<in> S" "b \<in> S" and "f (key h a) v \<le> 0 \<and> f v (key h a) \<le> 0"
    "f (key h b) v \<le> 0 \<and> f v (key h b) \<le> 0"
  then have "f (key h a) (key h b) \<le> 0" using assms(1) unfolding consistent_def by blast
  moreover have "a \<in> dom h" "b \<in> dom h" using ab assms(2) by auto
  ultimately show "\<not> gt_of f h a b" by (simp add: gt_of_key)
qed

text \<open>
  C9: Whatever the comparison answers, the sort of a null-terminated list returns: every loop
  ends, no null, dangling or uninitialised pointer is used and no index leaves \<open>ranks\<close>. The
  result is a null-terminated list of exactly the same nodes; only their \<open>next\<close> fields have
  changed and no other node was touched.
\<close>
theorem do_sort_returns:
  assumes "ls h p as"
  shows "\<exists>h' q bs. do_sort sz h p f = Some (h', q) \<and> ls h' q bs \<and> mset bs = mset as \<and>
    (\<forall>a. map_option data (h' a) = map_option data (h a)) \<and> (\<forall>a. a \<notin> set as \<longrightarrow> h' a = h a)"
proof -
  from do_sort_refines [OF assms, of sz f] obtain h' q where
    "do_sort sz h p f = Some (h', q)" "ls h' q (sorted_nodes (MAX_RANKS sz) (gt_of f h) as)"
    "same_data h h'" "frame h h' (set as)" by blast
  then show ?thesis
    unfolding same_data_def frame_def using mset_sorted_nodes by blast
qed

definition example_heap :: "int heap" where
  "example_heap = [8 \<mapsto> \<lparr>data = 5, next = 16\<rparr>, 16 \<mapsto> \<lparr>data = 3, next = 24\<rparr>, 24 \<mapsto> \<lparr>data = 5, next = 0\<rparr>]"

lemma example_list: "ls example_heap 8 [8, 16, 24]"
  by (simp add: example_heap_def)

theorem do_sort_returns_witness: "\<exists>h' q. do_sort 8 example_heap 8 (\<lambda>x y. 0) = Some (h', q)"
  using do_sort_returns [OF example_list, of 8 "\<lambda>x y. 0"] by blast

text \<open>
  C10: With a consistent comparison the result is in order and the sort is stable: the nodes tied
  with any given value appear in the order they had.
\<close>
theorem do_sort_sorts:
  assumes "ls h p as" "consistent f"
  shows "\<exists>h' q bs. do_sort sz h p f = Some (h', q) \<and> ls h' q bs \<and> mset bs = mset as \<and>
    sorted_wrt (\<lambda>a b. f (key h a) (key h b) \<le> 0) bs \<and>
    (\<forall>v. filter (\<lambda>a. f (key h a) v \<le> 0 \<and> f v (key h a) \<le> 0) bs =
         filter (\<lambda>a. f (key h a) v \<le> 0 \<and> f v (key h a) \<le> 0) as)"
proof -
  have dom: "set as \<subseteq> dom h" by (rule ls_dom [OF assms(1)])
  define bs where "bs = sorted_nodes (MAX_RANKS sz) (gt_of f h) as"
  have set: "set bs = set as" by (metis bs_def mset_sorted_nodes set_mset_mset)
  have k: "gt_of f h a b \<longleftrightarrow> f (key h a) (key h b) > 0" if "a \<in> set as" "b \<in> set as" for a b
    by (rule gt_of_key) (rule subsetD [OF dom], fact that)+
  have wo: "weak_order (set as) (gt_of f h)" by (rule weak_order_gt_of [OF assms(2) dom])
  have stable: "in_order (gt_of f h) bs \<and> filter (\<lambda>a. f (key h a) v \<le> 0 \<and> f v (key h a) \<le> 0) bs =
      filter (\<lambda>a. f (key h a) v \<le> 0 \<and> f v (key h a) \<le> 0) as" for v
    unfolding bs_def
  proof (rule sorted_nodes_sorts [OF wo])
    show "ties (set as) (gt_of f h) (\<lambda>a. f (key h a) v \<le> 0 \<and> f v (key h a) \<le> 0)"
      by (rule ties_gt_of [OF assms(2) dom])
  qed
  have "sorted_wrt (\<lambda>a b. f (key h a) (key h b) \<le> 0) bs"
    by (rule sorted_wrt_mono_rel [OF _ conjunct1 [OF stable]]) (simp add: set k)
  moreover from do_sort_refines [OF assms(1), of sz f] obtain h' q where
    "do_sort sz h p f = Some (h', q)" "ls h' q bs" unfolding bs_def by blast
  moreover have "mset bs = mset as" by (simp add: bs_def)
  ultimately show ?thesis using stable by blast
qed

theorem do_sort_sorts_witness:
  "\<exists>h' q bs. do_sort 8 example_heap 8 (\<lambda>x y. x - y) = Some (h', q) \<and> ls h' q bs \<and>
     mset bs = {#8, 16, 24#} \<and> sorted_wrt (\<lambda>a b. key example_heap a - key example_heap b \<le> 0) bs"
proof -
  have "consistent (\<lambda>x y :: int. x - y)" by (auto simp: consistent_def)
  from do_sort_sorts [OF example_list this, of 8] show ?thesis by (elim exE conjE) (intro exI conjI, assumption+, simp)
qed

text \<open>The comment of the source: \<open>ranks[i]\<close> is null or has at least \<open>2 ^ (i + 1)\<close> nodes.\<close>

definition ranks_long :: "ptr list list \<Rightarrow> bool" where
  "ranks_long A \<longleftrightarrow> (\<forall>i < length A. A ! i = [] \<or> 2 ^ (i + 1) \<le> length (A ! i))"

lemma full_ranks_nodes:
  assumes "ranks_long A" "m \<le> full_ranks A"
  shows "2 ^ (m + 1) \<le> length (concat (take m A)) + 2"
  using assms(2)
proof (induction m)
  case (Suc m)
  then have m: "m < length A" "A ! m \<noteq> []"
    using full_ranks_le [of A] full_ranks_nonempty [of m A] by auto
  with assms(1) have "2 ^ (m + 1) \<le> length (A ! m)" unfolding ranks_long_def by blast
  with Suc m(1) show ?case by (simp add: take_Suc_conv_app_nth)
qed simp

text \<open>
  C11: Inserting a run of two nodes keeps the representation of the ranks and the documented lower
  bound on their lengths, loses no node, and never reaches the rank \<open>MAX_RANKS\<close> as long as
  there are fewer than \<open>2 ^ (MAX_RANKS + 1)\<close> nodes.
\<close>
theorem insert_list_keeps_ranks:
  assumes "sort_inv sz h si A" "ranks_long A" "ls h p xs" "length xs = 2" "distinct (concat A @ xs)"
  shows "\<exists>h' si' A'. insert_list sz h si p 0 = Some (h', si') \<and> sort_inv sz h' si' A' \<and> ranks_long A' \<and>
    mset (concat A') = mset (concat A @ xs) \<and>
    (length (concat A @ xs) < 2 ^ (MAX_RANKS sz + 1) \<longrightarrow> full_ranks A < MAX_RANKS sz)"
proof -
  define m where "m = full_ranks A"
  define i where "i = (if m = MAX_RANKS sz then m - 1 else m)"
  let ?gt = "gt_of (func si) h"
  have A': "insert_runs (MAX_RANKS sz) ?gt xs A =
      replicate i [] @ sweep_runs ?gt xs (take m A) # drop (Suc i) A"
    by (simp only: insert_runs_def Let_def m_def i_def)
  have nodes: "2 ^ (m + 1) \<le> length (concat (take m A)) + 2"
    using full_ranks_nodes [OF assms(2), of m] by (simp add: m_def)
  have "(2 :: nat) ^ (i + 1) \<le> 2 ^ (m + 1)" by (rule power_increasing) (auto simp: i_def)
  from le_trans [OF this nodes] have run: "2 ^ (i + 1) \<le> length (sweep_runs ?gt xs (take m A))"
    by (simp only: length_sweep_runs assms(4) add.commute)
  have "ranks_long (insert_runs (MAX_RANKS sz) ?gt xs A)"
    unfolding ranks_long_def
  proof (intro allI impI)
    fix k assume k: "k < length (insert_runs (MAX_RANKS sz) ?gt xs A)"
    consider "k < i" | "k = i" | "i < k" by linarith
    then show "insert_runs (MAX_RANKS sz) ?gt xs A ! k = [] \<or>
        2 ^ (k + 1) \<le> length (insert_runs (MAX_RANKS sz) ?gt xs A ! k)"
    proof cases
      case 3
      then obtain d where d: "k = Suc (i + d)" using less_iff_Suc_add by blast
      with k have "Suc (i + d) < length A" unfolding A' by simp
      with assms(2) [unfolded ranks_long_def] have "A ! k = [] \<or> 2 ^ (k + 1) \<le> length (A ! k)"
        unfolding d by blast
      moreover have "insert_runs (MAX_RANKS sz) ?gt xs A ! k = A ! k"
        using \<open>Suc (i + d) < length A\<close> unfolding A' d by (simp add: nth_append)
      ultimately show ?thesis by simp
    qed (use run in \<open>simp_all add: A' nth_append\<close>)
  qed
  moreover have "full_ranks A < MAX_RANKS sz" if "length (concat A @ xs) < 2 ^ (MAX_RANKS sz + 1)"
  proof -
    have "concat A = concat (take m A) @ concat (drop m A)" by (metis append_take_drop_id concat_append)
    then have "length (concat (take m A)) \<le> length (concat A)" by simp
    then have "(2 :: nat) ^ (m + 1) < 2 ^ (MAX_RANKS sz + 1)"
      using nodes that [unfolded length_append assms(4)] by linarith
    then have "m + 1 < MAX_RANKS sz + 1" by (rule power_less_imp_less_exp [rotated]) simp
    then show ?thesis by (simp add: m_def)
  qed
  ultimately show ?thesis
    using insert_list_correct [OF assms(1,3,5)] mset_insert_runs [of "MAX_RANKS sz" ?gt xs A]
    by (metis mset_append)
qed

theorem insert_list_keeps_ranks_witness:
  "\<exists>h si A. insert_list 8 [8 \<mapsto> \<lparr>data = 1, next = 16\<rparr>, 16 \<mapsto> \<lparr>data = 2 :: int, next = 0\<rparr>]
      (init_sort_info 8 (\<lambda>x y. x - y)) 8 0 = Some (h, si) \<and> sort_inv 8 h si A \<and> ranks_long A"
  using insert_list_keeps_ranks [OF sort_inv_init,
      of "[8 \<mapsto> \<lparr>data = 1, next = 16\<rparr>, 16 \<mapsto> \<lparr>data = 2 :: int, next = 0\<rparr>]" 8 "[8, 16]" 8 "\<lambda>x y. x - y"]
  by (simp add: ranks_long_def) blast

end
