(* ===== verification/LazyInit.thy ===== *)
theory LazyInit
  imports Prelude
begin

text \<open>
  \<open>mono/utils/mono-lazy-init.h\<close>: initialisation on demand and clean-up, called by any number of
  threads at once. A thread is a program counter with its local \<open>status\<close>; every access to the
  shared variable, plain or atomic, is one step, and the steps of the threads interleave in any
  order (the barriers of the code make its plain reads ordered). The callbacks \<open>initialize\<close> and
  \<open>cleanup\<close> are steps of their own that count their calls.
\<close>

section \<open>The shared variable\<close>

datatype lazy_status =
    MONO_LAZY_INIT_STATUS_NOT_INITIALIZED
  | MONO_LAZY_INIT_STATUS_INITIALIZING
  | MONO_LAZY_INIT_STATUS_INITIALIZED
  | MONO_LAZY_INIT_STATUS_CLEANING
  | MONO_LAZY_INIT_STATUS_CLEANED

abbreviation "NOT_INITIALIZED \<equiv> MONO_LAZY_INIT_STATUS_NOT_INITIALIZED"
abbreviation "INITIALIZING \<equiv> MONO_LAZY_INIT_STATUS_INITIALIZING"
abbreviation "INITIALIZED \<equiv> MONO_LAZY_INIT_STATUS_INITIALIZED"
abbreviation "CLEANING \<equiv> MONO_LAZY_INIT_STATUS_CLEANING"
abbreviation "CLEANED \<equiv> MONO_LAZY_INIT_STATUS_CLEANED"

text \<open>The values of the enumeration, by which the code compares.\<close>

primrec status_val :: "lazy_status \<Rightarrow> nat" where
  "status_val NOT_INITIALIZED = 0"
| "status_val INITIALIZING = 1"
| "status_val INITIALIZED = 2"
| "status_val CLEANING = 3"
| "status_val CLEANED = 4"

lemma status_val_inject: "status_val a = status_val b \<Longrightarrow> a = b"
  by (cases a; cases b) simp_all

instantiation lazy_status :: linorder
begin

definition less_eq_lazy_status :: "lazy_status \<Rightarrow> lazy_status \<Rightarrow> bool" where
  "less_eq_lazy_status a b \<longleftrightarrow> status_val a \<le> status_val b"

definition less_lazy_status :: "lazy_status \<Rightarrow> lazy_status \<Rightarrow> bool" where
  "less_lazy_status a b \<longleftrightarrow> status_val a < status_val b"

instance
  by standard (auto simp: less_eq_lazy_status_def less_lazy_status_def intro: status_val_inject)

end

text \<open>\<open>mono_atomic_cas_i32\<close>: the new value of the variable and the value read.\<close>

definition mono_atomic_cas :: "lazy_status \<Rightarrow> lazy_status \<Rightarrow> lazy_status \<Rightarrow> lazy_status \<times> lazy_status" where
  "mono_atomic_cas var new old = (if var = old then new else var, var)"

section \<open>The two operations, one shared access at a time\<close>

text \<open>
  The points of \<open>mono_lazy_initialize\<close> and of \<open>mono_lazy_cleanup\<close>; the argument is the
  local \<open>status\<close>. \<open>Init_abort\<close> and \<open>Clean_abort\<close> are failed assertions.
\<close>

datatype point =
    Idle
  | Init_enter
  | Init_test lazy_status
  | Init_wait
  | Init_assert
  | Init_result
  | Init_call            \<comment> \<open>about to call \<open>initialize\<close>\<close>
  | Init_store
  | Init_return bool
  | Init_abort
  | Clean_enter
  | Clean_first lazy_status
  | Clean_wait_init
  | Clean_second lazy_status
  | Clean_wait
  | Clean_assert
  | Clean_call           \<comment> \<open>about to call \<open>cleanup\<close>\<close>
  | Clean_store
  | Clean_return
  | Clean_abort

fun mono_lazy_initialize :: "point \<Rightarrow> lazy_status \<Rightarrow> point \<times> lazy_status" where
  "mono_lazy_initialize Init_enter v = (Init_test v, v)"
| "mono_lazy_initialize (Init_test status) v =
    (if status \<ge> INITIALIZED then (Init_return (status = INITIALIZED), v)
     else if status = INITIALIZING then (Init_wait, v)
     else let (v', read) = mono_atomic_cas v INITIALIZING NOT_INITIALIZED
          in if read \<noteq> NOT_INITIALIZED then (Init_wait, v') else (Init_call, v'))"
| "mono_lazy_initialize Init_wait v = (if v = INITIALIZING then (Init_wait, v) else (Init_assert, v))"
| "mono_lazy_initialize Init_assert v = (if v \<ge> INITIALIZED then (Init_result, v) else (Init_abort, v))"
| "mono_lazy_initialize Init_result v = (Init_return (v = INITIALIZED), v)"
| "mono_lazy_initialize Init_call v = (Init_store, v)"
| "mono_lazy_initialize Init_store v = (Init_return True, INITIALIZED)"
| "mono_lazy_initialize p v = (p, v)"

fun mono_lazy_cleanup :: "point \<Rightarrow> lazy_status \<Rightarrow> point \<times> lazy_status" where
  "mono_lazy_cleanup Clean_enter v = (Clean_first v, v)"
| "mono_lazy_cleanup (Clean_first status) v =
    (let after = (if status = INITIALIZING then Clean_wait_init else Clean_second status)
     in if status = NOT_INITIALIZED then
          let (v', read) = mono_atomic_cas v CLEANED NOT_INITIALIZED
          in if read = NOT_INITIALIZED then (Clean_return, v') else (after, v')
        else (after, v))"
| "mono_lazy_cleanup Clean_wait_init v = (if v = INITIALIZING then (Clean_wait_init, v) else (Clean_second v, v))"
| "mono_lazy_cleanup (Clean_second status) v =
    (if status = CLEANED then (Clean_return, v)
     else if status = CLEANING then (Clean_wait, v)
     else let (v', read) = mono_atomic_cas v CLEANING INITIALIZED
          in if read \<noteq> INITIALIZED then (Clean_wait, v') else (Clean_call, v'))"
| "mono_lazy_cleanup Clean_wait v = (if v = CLEANING then (Clean_wait, v) else (Clean_assert, v))"
| "mono_lazy_cleanup Clean_assert v = (if v = CLEANED then (Clean_return, v) else (Clean_abort, v))"
| "mono_lazy_cleanup Clean_call v = (Clean_store, v)"
| "mono_lazy_cleanup Clean_store v = (Clean_return, CLEANED)"
| "mono_lazy_cleanup p v = (p, v)"

definition mono_lazy_is_initialized :: "lazy_status \<Rightarrow> bool" where
  "mono_lazy_is_initialized v \<longleftrightarrow> v = INITIALIZED"

section \<open>Threads\<close>

type_synonym thread = nat

record lazy_state =
  lazy_init :: lazy_status
  point_of :: "thread \<Rightarrow> point"
  initialize_calls :: nat
  cleanup_calls :: nat

definition lazy_start :: lazy_state where
  "lazy_start = \<lparr>lazy_init = NOT_INITIALIZED, point_of = (\<lambda>_. Idle), initialize_calls = 0, cleanup_calls = 0\<rparr>"

datatype event = Call_initialize thread | Call_cleanup thread | Run thread

definition at_rest :: "point \<Rightarrow> bool" where
  "at_rest p \<longleftrightarrow> p = Idle \<or> p = Clean_return \<or> (\<exists>b. p = Init_return b)"

lemma at_rest_simps [simp]:
  "at_rest Idle" "at_rest Clean_return" "at_rest (Init_return b)"
  "\<not> at_rest Init_enter" "\<not> at_rest (Init_test s)" "\<not> at_rest Init_wait" "\<not> at_rest Init_assert"
  "\<not> at_rest Init_result" "\<not> at_rest Init_call" "\<not> at_rest Init_store" "\<not> at_rest Init_abort"
  "\<not> at_rest Clean_enter" "\<not> at_rest (Clean_first s)" "\<not> at_rest Clean_wait_init"
  "\<not> at_rest (Clean_second s)" "\<not> at_rest Clean_wait" "\<not> at_rest Clean_assert" "\<not> at_rest Clean_call"
  "\<not> at_rest Clean_store" "\<not> at_rest Clean_abort"
  by (simp_all add: at_rest_def)

text \<open>One step of a thread; a thread that waits, rests or has aborted stays where it is.\<close>

definition thread_step :: "point \<Rightarrow> lazy_status \<Rightarrow> point \<times> lazy_status" where
  "thread_step p v = (case p of
     Clean_enter \<Rightarrow> mono_lazy_cleanup p v | Clean_first _ \<Rightarrow> mono_lazy_cleanup p v
   | Clean_wait_init \<Rightarrow> mono_lazy_cleanup p v | Clean_second _ \<Rightarrow> mono_lazy_cleanup p v
   | Clean_wait \<Rightarrow> mono_lazy_cleanup p v | Clean_assert \<Rightarrow> mono_lazy_cleanup p v
   | Clean_call \<Rightarrow> mono_lazy_cleanup p v | Clean_store \<Rightarrow> mono_lazy_cleanup p v
   | _ \<Rightarrow> mono_lazy_initialize p v)"

fun exec :: "event \<Rightarrow> lazy_state \<Rightarrow> lazy_state" where
  "exec (Call_initialize t) s =
    (if at_rest (point_of s t) then s\<lparr>point_of := (point_of s)(t := Init_enter)\<rparr> else s)"
| "exec (Call_cleanup t) s =
    (if at_rest (point_of s t) then s\<lparr>point_of := (point_of s)(t := Clean_enter)\<rparr> else s)"
| "exec (Run t) s =
    (let (p, v) = thread_step (point_of s t) (lazy_init s)
     in s\<lparr>lazy_init := v, point_of := (point_of s)(t := p),
          initialize_calls := initialize_calls s + of_bool (point_of s t = Init_call),
          cleanup_calls := cleanup_calls s + of_bool (point_of s t = Clean_call)\<rparr>)"

inductive lazy_reachable :: "lazy_state \<Rightarrow> bool" where
  start: "lazy_reachable lazy_start"
| step: "lazy_reachable s \<Longrightarrow> lazy_reachable (exec e s)"

end
