(* ===== verification/LazyInitProps.thy ===== *)
theory LazyInitProps
  imports LazyInit "HOL-Library.Countable"
begin

text \<open>
  What holds of lazy initialisation under every interleaving: the callbacks run at most once and
  never together, waiting ends, and the one race in which an assertion fails.
\<close>

section \<open>The invariant\<close>

abbreviation starting :: "point \<Rightarrow> bool" where "starting p \<equiv> p = Init_call \<or> p = Init_store"
abbreviation cleaning :: "point \<Rightarrow> bool" where "cleaning p \<equiv> p = Clean_call \<or> p = Clean_store"

text \<open>Exactly one thread is inside while the variable says so, and none otherwise.\<close>

definition owners :: "(point \<Rightarrow> bool) \<Rightarrow> lazy_state \<Rightarrow> thread set" where
  "owners P s = {t. P (point_of s t)}"

definition one_owner :: "(point \<Rightarrow> bool) \<Rightarrow> lazy_status \<Rightarrow> lazy_state \<Rightarrow> bool" where
  "one_owner P v s \<longleftrightarrow> (if lazy_init s = v then \<exists>t. owners P s = {t} else owners P s = {})"

lemmas status_order = less_eq_lazy_status_def less_lazy_status_def

named_theorems lazy_simps

lemma status_bounds [lazy_simps]:
  "INITIALIZING \<le> v \<longleftrightarrow> v \<noteq> NOT_INITIALIZED"
  "INITIALIZED \<le> v \<longleftrightarrow> v \<noteq> NOT_INITIALIZED \<and> v \<noteq> INITIALIZING"
  "v < CLEANING \<longleftrightarrow> v \<noteq> CLEANING \<and> v \<noteq> CLEANED"
  "NOT_INITIALIZED \<le> v" "v \<le> CLEANED" "v \<le> NOT_INITIALIZED \<longleftrightarrow> v = NOT_INITIALIZED"
  by (cases v; simp add: status_order)+

lemmas [lazy_simps] = thread_step_def mono_atomic_cas_def Let_def

lemma exec_Run:
  "exec (Run t) s = s\<lparr>lazy_init := snd (thread_step (point_of s t) (lazy_init s)),
     point_of := (point_of s)(t := fst (thread_step (point_of s t) (lazy_init s))),
     initialize_calls := initialize_calls s + of_bool (point_of s t = Init_call),
     cleanup_calls := cleanup_calls s + of_bool (point_of s t = Clean_call)\<rparr>"
  by (simp add: case_prod_beta Let_def)

declare exec.simps(3) [simp del]

text \<open>How one step moves the variable.\<close>

lemma step_variable:
  "snd (thread_step p v) =
    (if p = Init_test NOT_INITIALIZED \<and> v = NOT_INITIALIZED then INITIALIZING
     else if p = Init_store then INITIALIZED
     else if p = Clean_first NOT_INITIALIZED \<and> v = NOT_INITIALIZED then CLEANED
     else if (\<exists>st. p = Clean_second st \<and> st \<noteq> CLEANING \<and> st \<noteq> CLEANED) \<and> v = INITIALIZED then CLEANING
     else if p = Clean_store then CLEANED else v)"
  by (cases p; cases v) (auto simp: lazy_simps)

lemma step_starting:
  "starting (fst (thread_step p v)) \<longleftrightarrow> p = Init_call \<or> (p = Init_test NOT_INITIALIZED \<and> v = NOT_INITIALIZED)"
  by (cases p; cases v) (auto simp: lazy_simps)

lemma step_cleaning:
  "cleaning (fst (thread_step p v)) \<longleftrightarrow>
     p = Clean_call \<or> ((\<exists>st. p = Clean_second st \<and> st \<noteq> CLEANING \<and> st \<noteq> CLEANED) \<and> v = INITIALIZED)"
  by (cases p; cases v) (auto simp: lazy_simps)

text \<open>What each thread knows of the variable and of the calls made.\<close>

fun knows :: "point \<Rightarrow> lazy_status \<Rightarrow> nat \<Rightarrow> bool" where
  "knows (Init_test st) v n = (st \<le> v \<and> (st = INITIALIZED \<longrightarrow> n = 1))"
| "knows Init_wait v n = (INITIALIZING \<le> v)"
| "knows Init_assert v n = (INITIALIZED \<le> v)"
| "knows Init_result v n = (INITIALIZED \<le> v)"
| "knows Init_store v n = (n = 1)"
| "knows Init_call v n = (n = 0)"
| "knows (Init_return b) v n = (b \<longrightarrow> INITIALIZED \<le> v \<and> n = 1)"
| "knows Init_abort v n = False"
| "knows (Clean_first st) v n = (st \<le> v)"
| "knows (Clean_second st) v n = (st \<le> v)"
| "knows Clean_wait_init v n = (INITIALIZING \<le> v)"
| "knows p v n = True"

definition counts :: "lazy_status \<Rightarrow> nat \<Rightarrow> nat \<Rightarrow> bool" where
  "counts v n m \<longleftrightarrow> n \<le> 1 \<and> m \<le> n \<and> (v = NOT_INITIALIZED \<longrightarrow> n = 0) \<and>
    (v = INITIALIZED \<or> v = CLEANING \<longrightarrow> n = 1) \<and> (v < CLEANING \<longrightarrow> m = 0) \<and> (v = CLEANED \<longrightarrow> m = n)"

definition clean_point :: "point \<Rightarrow> nat \<Rightarrow> bool" where
  "clean_point p m \<longleftrightarrow> (p = Clean_call \<longrightarrow> m = 0) \<and> (p = Clean_store \<longrightarrow> m = 1)"

definition counted :: "lazy_state \<Rightarrow> bool" where
  "counted s \<longleftrightarrow> counts (lazy_init s) (initialize_calls s) (cleanup_calls s) \<and>
    (\<forall>t. clean_point (point_of s t) (cleanup_calls s))"

definition lazy_inv :: "lazy_state \<Rightarrow> bool" where
  "lazy_inv s \<longleftrightarrow> one_owner starting INITIALIZING s \<and> one_owner cleaning CLEANING s \<and> counted s \<and>
    (\<forall>t. knows (point_of s t) (lazy_init s) (initialize_calls s))"

lemma lazy_inv_start: "lazy_inv lazy_start"
  by (simp add: lazy_inv_def lazy_start_def one_owner_def owners_def counted_def counts_def clean_point_def)

lemma owners_upd:
  "owners P (s\<lparr>lazy_init := v, point_of := (point_of s)(t := p), initialize_calls := m, cleanup_calls := n\<rparr>) =
    (if P p then insert t (owners P s) else owners P s - {t})"
  by (auto simp: owners_def)

lemma owner_knows: "\<lbrakk>one_owner P v s; P (point_of s t)\<rbrakk> \<Longrightarrow> lazy_init s = v \<and> owners P s = {t}"
proof -
  assume "one_owner P v s" "P (point_of s t)"
  moreover from this(2) have "t \<in> owners P s" by (simp add: owners_def)
  ultimately show ?thesis by (auto simp: one_owner_def split: if_splits)
qed

lemma one_owner_starting_step:
  assumes "one_owner starting INITIALIZING s" "one_owner cleaning CLEANING s"
  shows "one_owner starting INITIALIZING (exec (Run t) s)"
proof -
  let ?p = "point_of s t" and ?v = "lazy_init s"
  have c: "?v = CLEANING" if "?p = Clean_store" using owner_knows [OF assms(2), of t] that by simp
  consider "starting ?p" | "?p = Init_test NOT_INITIALIZED" "?v = NOT_INITIALIZED" |
      "\<not> starting ?p" "\<not> (?p = Init_test NOT_INITIALIZED \<and> ?v = NOT_INITIALIZED)" by blast
  then show ?thesis
  proof cases
    case 1
    with owner_knows [OF assms(1), of t] have "?v = INITIALIZED \<or> ?v = INITIALIZING" "owners starting s = {t}"
      "?v = INITIALIZING" by auto
    with 1 show ?thesis
      unfolding exec_Run one_owner_def owners_upd by (auto simp: step_variable step_starting)
  next
    case 2
    with assms(1) have "owners starting s = {}" by (simp add: one_owner_def)
    with 2 show ?thesis
      unfolding exec_Run one_owner_def owners_upd by (simp add: step_variable step_starting)
  next
    case 3
    then have "owners starting s - {t} = owners starting s" by (auto simp: owners_def)
    with 3 assms(1) c show ?thesis
      unfolding exec_Run one_owner_def owners_upd
      by (auto simp: step_variable step_starting)
  qed
qed

lemma one_owner_cleaning_step:
  assumes "one_owner starting INITIALIZING s" "one_owner cleaning CLEANING s"
  shows "one_owner cleaning CLEANING (exec (Run t) s)"
proof -
  let ?p = "point_of s t" and ?v = "lazy_init s"
  let ?enters = "(\<exists>st. ?p = Clean_second st \<and> st \<noteq> CLEANING \<and> st \<noteq> CLEANED) \<and> ?v = INITIALIZED"
  have c: "?v = INITIALIZING" if "?p = Init_store" using owner_knows [OF assms(1), of t] that by simp
  consider "cleaning ?p" | "?enters" | "\<not> cleaning ?p" "\<not> ?enters" by blast
  then show ?thesis
  proof cases
    case 1
    with owner_knows [OF assms(2), of t] have "?v = CLEANING" "owners cleaning s = {t}" by auto
    with 1 show ?thesis
      unfolding exec_Run one_owner_def owners_upd by (auto simp: step_variable step_cleaning)
  next
    case 2
    with assms(2) have "owners cleaning s = {}" by (simp add: one_owner_def)
    with 2 show ?thesis
      unfolding exec_Run one_owner_def owners_upd by (auto simp: step_variable step_cleaning)
  next
    case 3
    then have "owners cleaning s - {t} = owners cleaning s" by (auto simp: owners_def)
    with 3 assms(2) c show ?thesis
      unfolding exec_Run one_owner_def owners_upd
      by (auto simp: step_variable step_cleaning)
  qed
qed

lemma one_owner_call:
  "\<lbrakk>one_owner P v s; \<not> P p; \<not> P (point_of s t)\<rbrakk> \<Longrightarrow> one_owner P v (s\<lparr>point_of := (point_of s)(t := p)\<rparr>)"
proof -
  assume "one_owner P v s" "\<not> P p" "\<not> P (point_of s t)"
  moreover from this have "owners P (s\<lparr>point_of := (point_of s)(t := p)\<rparr>) = owners P s"
    by (auto simp: owners_def)
  ultimately show ?thesis by (simp add: one_owner_def)
qed

text \<open>What a thread knows stays true while the others move, and its own steps establish the rest.\<close>

lemma step_grows:
  assumes "starting p \<longrightarrow> v = INITIALIZING" "cleaning p \<longrightarrow> v = CLEANING"
  shows "v \<le> snd (thread_step p v)"
  using assms by (auto simp: step_variable status_order)

lemma knows_mono:
  assumes "knows p v n" "v \<le> v'" "n' = n \<or> (n = 0 \<and> n' = 1 \<and> p \<noteq> Init_call)"
  shows "knows p v' n'"
  using assms by (cases p; cases v; cases v') (auto simp: status_order)

lemma knows_own_step:
  assumes "knows p v n" "starting p \<longrightarrow> v = INITIALIZING" "v = INITIALIZED \<longrightarrow> n = 1" "v = NOT_INITIALIZED \<longrightarrow> n = 0"
  shows "knows (fst (thread_step p v)) (snd (thread_step p v)) (n + of_bool (p = Init_call))"
  using assms by (cases p; cases v) (auto simp: lazy_simps)

lemma lazy_inv_facts:
  assumes "lazy_inv s"
  shows "starting (point_of s t) \<Longrightarrow> lazy_init s = INITIALIZING \<and> owners starting s = {t}"
    and "cleaning (point_of s t) \<Longrightarrow> lazy_init s = CLEANING \<and> owners cleaning s = {t}"
    and "knows (point_of s t) (lazy_init s) (initialize_calls s)"
  using assms owner_knows unfolding lazy_inv_def by blast+

lemma knows_step:
  assumes "lazy_inv s"
  shows "knows (point_of (exec (Run t) s) u) (lazy_init (exec (Run t) s)) (initialize_calls (exec (Run t) s))"
proof -
  let ?p = "point_of s t" and ?v = "lazy_init s" and ?n = "initialize_calls s"
  note f = lazy_inv_facts [OF assms]
  have c: "?v = INITIALIZED \<longrightarrow> ?n = 1" "?v = NOT_INITIALIZED \<longrightarrow> ?n = 0"
    using assms by (auto simp: lazy_inv_def counted_def counts_def)
  show ?thesis
  proof (cases "u = t")
    case True
    have "knows (fst (thread_step ?p ?v)) (snd (thread_step ?p ?v)) (?n + of_bool (?p = Init_call))"
      by (rule knows_own_step) (use f c in auto)
    with True show ?thesis by (simp add: exec_Run)
  next
    case False
    have "?v \<le> snd (thread_step ?p ?v)" by (rule step_grows) (use f in auto)
    moreover have "?n = 0 \<and> point_of s u \<noteq> Init_call" if "?p = Init_call"
      using f(1) [of t] f(1) [of u] f(3) [of t] that False by auto
    ultimately have "knows (point_of s u) (snd (thread_step ?p ?v)) (?n + of_bool (?p = Init_call))"
      by (intro knows_mono [OF f(3) [of u]]) auto
    with False show ?thesis by (simp add: exec_Run)
  qed
qed

lemma counts_step:
  assumes "counts v n m" "knows p v n" "clean_point p m" "starting p \<longrightarrow> v = INITIALIZING" "cleaning p \<longrightarrow> v = CLEANING"
  shows "counts (snd (thread_step p v)) (n + of_bool (p = Init_call)) (m + of_bool (p = Clean_call))"
  using assms by (cases v) (auto simp: step_variable counts_def clean_point_def status_bounds)

lemma clean_point_step:
  assumes "counts v n m" "clean_point p m"
  shows "clean_point (fst (thread_step p v)) (m + of_bool (p = Clean_call))"
  using assms by (cases p; cases v) (auto simp: counts_def clean_point_def lazy_simps)

lemma counted_step:
  assumes "lazy_inv s"
  shows "counted (exec (Run t) s)"
proof -
  let ?p = "point_of s t" and ?v = "lazy_init s" and ?m = "cleanup_calls s"
  note f = lazy_inv_facts [OF assms]
  have c: "counts ?v (initialize_calls s) ?m" "\<And>u. clean_point (point_of s u) ?m"
    using assms by (simp_all add: lazy_inv_def counted_def)
  have "clean_point (point_of s u) (?m + of_bool (?p = Clean_call))" if "u \<noteq> t" for u
    using f(2) [of u] f(2) [of t] c(2) [of u] that by (auto simp: clean_point_def)
  with counts_step [OF c(1) f(3) c(2)] clean_point_step [OF c(1) c(2) [of t]] f(1,2) show ?thesis
    by (auto simp: counted_def exec_Run)
qed

lemma lazy_inv_exec: "lazy_inv s \<Longrightarrow> lazy_inv (exec e s)"
proof (cases e)
  case (Run t)
  assume "lazy_inv s"
  with Run knows_step counted_step one_owner_starting_step one_owner_cleaning_step show ?thesis
    unfolding lazy_inv_def by blast
next
  case (Call_initialize t)
  assume "lazy_inv s"
  with Call_initialize show ?thesis
    by (auto simp: lazy_inv_def counted_def clean_point_def at_rest_def intro!: one_owner_call)
next
  case (Call_cleanup t)
  assume "lazy_inv s"
  with Call_cleanup show ?thesis
    by (auto simp: lazy_inv_def counted_def clean_point_def at_rest_def intro!: one_owner_call)
qed

lemma lazy_reachable_inv: "lazy_reachable s \<Longrightarrow> lazy_inv s"
  by (induction rule: lazy_reachable.induct) (simp_all add: lazy_inv_start lazy_inv_exec)

section \<open>Safety\<close>

text \<open>
  The assertion of \<open>mono_lazy_initialize\<close> never fails, and a caller that gets \<open>TRUE\<close>
  finds \<open>initialize\<close> called exactly once and the module initialised, being cleaned or cleaned.
\<close>

definition true_means_initialized :: "lazy_state \<Rightarrow> bool" where
  "true_means_initialized s \<longleftrightarrow> (\<forall>t. point_of s t \<noteq> Init_abort \<and>
    (point_of s t = Init_return True \<longrightarrow> initialize_calls s = 1 \<and> INITIALIZED \<le> lazy_init s))"

lemma initialize_result: "lazy_reachable s \<Longrightarrow> true_means_initialized s"
proof -
  assume "lazy_reachable s"
  note k = lazy_inv_facts(3) [OF lazy_reachable_inv [OF this]]
  show ?thesis
    unfolding true_means_initialized_def
  proof (intro allI conjI impI)
    show "point_of s t \<noteq> Init_abort" for t using k [of t] by auto
    show "initialize_calls s = 1" "INITIALIZED \<le> lazy_init s" if "point_of s t = Init_return True" for t
      using k [of t] that by auto
  qed
qed

text \<open>
  C28: Under every interleaving of any number of threads, \<open>initialize\<close> and \<open>cleanup\<close>
  are each called at most once, \<open>cleanup\<close> only after \<open>initialize\<close> was called, no two
  threads are ever inside the callbacks, and the shared variable never moves back; the assertion of \<open>mono_lazy_initialize\<close> never
  fails and \<open>TRUE\<close> is returned only once the module was initialised.
\<close>
theorem callbacks_once:
  assumes "lazy_reachable s"
  shows "initialize_calls s \<le> 1 \<and> cleanup_calls s \<le> initialize_calls s \<and>
    (\<forall>t u. (starting (point_of s t) \<or> cleaning (point_of s t)) \<and> (starting (point_of s u) \<or> cleaning (point_of s u))
      \<longrightarrow> t = u) \<and> lazy_init s \<le> lazy_init (exec e s) \<and> true_means_initialized s"
proof -
  have inv: "lazy_inv s" by (rule lazy_reachable_inv [OF assms])
  note f = lazy_inv_facts [OF inv]
  have "lazy_init s \<le> lazy_init (exec (Run t) s)" for t
    using step_grows [of "point_of s t" "lazy_init s"] f(1,2) [of t] by (auto simp: exec_Run)
  then have "lazy_init s \<le> lazy_init (exec e s)" by (cases e) auto
  moreover have "t = u" if "starting (point_of s t) \<or> cleaning (point_of s t)"
      "starting (point_of s u) \<or> cleaning (point_of s u)" for t u
    using f(1) [of t] f(1) [of u] f(2) [of t] f(2) [of u] that by auto
  moreover have "initialize_calls s \<le> 1 \<and> cleanup_calls s \<le> initialize_calls s"
    using inv by (simp add: lazy_inv_def counted_def counts_def)
  ultimately show ?thesis using initialize_result [OF assms] by blast
qed

fun run_events :: "event list \<Rightarrow> lazy_state \<Rightarrow> lazy_state" where
  "run_events [] s = s"
| "run_events (e # es) s = run_events es (exec e s)"

lemma reachable_run: "lazy_reachable s \<Longrightarrow> lazy_reachable (run_events es s)"
  by (induction es arbitrary: s) (auto intro: lazy_reachable.step simp del: exec.simps)

lemmas run_simps = lazy_start_def exec_Run lazy_simps status_order

theorem callbacks_once_witness:
  "\<exists>s :: lazy_state. lazy_init s = INITIALIZED \<and> initialize_calls s \<le> 1 \<and> cleanup_calls s \<le> initialize_calls s"
proof -
  define s where "s = run_events [Call_initialize 1, Run 1, Run 1, Run 1, Run 1] lazy_start"
  have "lazy_reachable s" unfolding s_def by (rule reachable_run [OF lazy_reachable.start])
  from callbacks_once [OF this] have "initialize_calls s \<le> 1" "cleanup_calls s \<le> initialize_calls s" by auto
  moreover have "lazy_init s = INITIALIZED" by (simp add: s_def run_simps)
  ultimately show ?thesis by (intro exI [of _ s]) simp
qed

section \<open>The assertion of the clean-up\<close>

text \<open>What a clean-up knows of the variable as long as it has not taken a running initialisation for none.\<close>

fun clean_knows :: "point \<Rightarrow> lazy_status \<Rightarrow> bool" where
  "clean_knows (Clean_second st) v \<longleftrightarrow> st \<noteq> INITIALIZING \<and> (st = NOT_INITIALIZED \<longrightarrow> v \<noteq> NOT_INITIALIZED)"
| "clean_knows Clean_wait v \<longleftrightarrow> v = CLEANING \<or> v = CLEANED"
| "clean_knows Clean_assert v \<longleftrightarrow> v = CLEANED"
| "clean_knows Clean_abort v \<longleftrightarrow> False"
| "clean_knows p v \<longleftrightarrow> True"

lemma clean_knows_mono: "clean_knows p v \<Longrightarrow> v \<le> v' \<Longrightarrow> clean_knows p v'"
  by (cases p; cases v; cases v') (auto simp: status_order)

lemma clean_knows_own:
  assumes "clean_knows p v" "knows p v n" "\<not> (p = Clean_second NOT_INITIALIZED \<and> v = INITIALIZING)"
  shows "clean_knows (fst (thread_step p v)) (snd (thread_step p v))"
proof (cases p)
  case (Clean_second st)
  then show ?thesis using assms by (cases st; cases v) (auto simp: lazy_simps status_order)
next
  case (Clean_first st)
  then show ?thesis using assms by (cases st; cases v) (auto simp: lazy_simps status_order)
qed (use assms in \<open>cases v; auto simp: lazy_simps status_order\<close>)+

definition missed_start :: "thread \<Rightarrow> lazy_state \<Rightarrow> bool" where
  "missed_start t s \<longleftrightarrow> point_of s t = Clean_second NOT_INITIALIZED \<and> lazy_init s = INITIALIZING"

lemma clean_knows_exec:
  assumes inv: "lazy_inv s" and know: "clean_knows (point_of s t) (lazy_init s)" and miss: "\<not> (e = Run t \<and> missed_start t s)"
  shows "clean_knows (point_of (exec e s) t) (lazy_init (exec e s))"
proof (cases e)
  case (Run u)
  note f = lazy_inv_facts [OF inv]
  show ?thesis
  proof (cases "u = t")
    case True
    then show ?thesis using Run clean_knows_own [OF know f(3)] miss by (simp add: exec_Run missed_start_def)
  next
    case False
    have "lazy_init s \<le> snd (thread_step (point_of s u) (lazy_init s))" by (rule step_grows) (use f in auto)
    then show ?thesis using Run False clean_knows_mono [OF know] by (simp add: exec_Run)
  qed
qed (use know in auto)

lemma run_append: "run_events (es @ fs) s = run_events fs (run_events es s)"
  by (induction es arbitrary: s) auto

lemma never_missed_knows:
  assumes "\<forall>k < length es. \<not> (es ! k = Run t \<and> missed_start t (run_events (take k es) lazy_start))"
  shows "clean_knows (point_of (run_events es lazy_start) t) (lazy_init (run_events es lazy_start))"
  using assms
proof (induction es rule: rev_induct)
  case (snoc e es)
  have "\<forall>k < length es. \<not> (es ! k = Run t \<and> missed_start t (run_events (take k es) lazy_start))"
    using snoc.prems by (fastforce simp: nth_append)
  then have know: "clean_knows (point_of (run_events es lazy_start) t) (lazy_init (run_events es lazy_start))"
    by (rule snoc.IH)
  have "\<not> (e = Run t \<and> missed_start t (run_events es lazy_start))"
    using spec [OF snoc.prems, of "length es"] by simp
  moreover have "lazy_inv (run_events es lazy_start)"
    by (rule lazy_reachable_inv [OF reachable_run [OF lazy_reachable.start]])
  ultimately show ?case using clean_knows_exec know by (simp add: run_append del: exec.simps)
qed (simp add: lazy_start_def)

text \<open>The way of a clean-up that read \<open>NOT_INITIALIZED\<close> to its assertion.\<close>

fun lost_steps :: "point \<Rightarrow> nat option" where
  "lost_steps (Clean_first st) = (if st = NOT_INITIALIZED then Some 0 else None)"
| "lost_steps (Clean_second st) = (if st = NOT_INITIALIZED then Some 1 else None)"
| "lost_steps Clean_wait = Some 2"
| "lost_steps Clean_assert = Some 3"
| "lost_steps Clean_abort = Some 4"
| "lost_steps p = None"

lemma lost_exec:
  assumes "lazy_init s = INITIALIZING" "lost_steps (point_of s t) = Some n"
  shows "lost_steps (point_of (exec e s) t) = Some (if e = Run t then min 4 (Suc n) else n)"
proof -
  have "\<not> at_rest (point_of s t)" using assms(2) by (cases "point_of s t") auto
  then show ?thesis using assms
    by (cases e; cases "point_of s t") (auto simp: exec_Run lazy_simps split: if_splits)
qed

lemma lost_run:
  assumes "\<forall>k \<le> length fs. lazy_init (run_events (take k fs) s) = INITIALIZING" "lost_steps (point_of s t) = Some n" "n \<le> 4"
  shows "lost_steps (point_of (run_events fs s) t) = Some (min 4 (n + count_list fs (Run t)))"
  using assms
proof (induction fs arbitrary: s n)
  case (Cons e fs)
  have "lazy_init s = INITIALIZING" using Cons.prems(1) by (metis run_events.simps(1) take0 zero_le)
  note step = lost_exec [OF this Cons.prems(2), of e]
  have "\<forall>k \<le> length fs. lazy_init (run_events (take k fs) (exec e s)) = INITIALIZING"
    using Cons.prems(1) by (metis Suc_le_mono length_Cons run_events.simps(2) take_Suc_Cons)
  from Cons.IH [OF this step] show ?case using Cons.prems(3) by (auto simp: min_def simp del: exec.simps)
qed simp

text \<open>
  C30: when the assertion of \<open>mono_lazy_cleanup\<close> fails. In every execution a clean-up that aborts has before, at its second exchange, held
  the old status \<open>NOT_INITIALIZED\<close> while an initialisation was running, for which it means to wait. Conversely, a clean-up that
  has read \<open>NOT_INITIALIZED\<close> aborts under every interleaving in which it takes four steps while the initialisation runs.
\<close>
theorem cleanup_abort_exact:
  "(point_of (run_events es lazy_start) t = Clean_abort \<longrightarrow>
      (\<exists>k < length es. es ! k = Run t \<and> missed_start t (run_events (take k es) lazy_start))) \<and>
   (point_of s t = Clean_first NOT_INITIALIZED \<and> (\<forall>k \<le> length fs. lazy_init (run_events (take k fs) s) = INITIALIZING) \<and>
      4 \<le> count_list fs (Run t) \<longrightarrow> point_of (run_events fs s) t = Clean_abort)"
proof (intro conjI impI)
  assume "point_of (run_events es lazy_start) t = Clean_abort"
  then show "\<exists>k < length es. es ! k = Run t \<and> missed_start t (run_events (take k es) lazy_start)"
    using never_missed_knows [of es t] by fastforce
next
  assume s: "point_of s t = Clean_first NOT_INITIALIZED \<and> (\<forall>k \<le> length fs. lazy_init (run_events (take k fs) s) = INITIALIZING) \<and>
      4 \<le> count_list fs (Run t)"
  then have "lost_steps (point_of (run_events fs s) t) = Some (min 4 (0 + count_list fs (Run t)))"
    by (intro lost_run) auto
  then have "lost_steps (point_of (run_events fs s) t) = Some 4" using s by simp
  then show "point_of (run_events fs s) t = Clean_abort"
    by (cases "point_of (run_events fs s) t") (auto split: if_splits)
qed

text \<open>Thread 1 initialises, thread 2 cleans up and reads the status just before; thread 3 waits meanwhile.\<close>

theorem cleanup_abort_exact_witness:
  "point_of (run_events [Run 2, Run 3, Run 2, Run 2, Call_initialize 4, Run 2]
     (run_events [Call_initialize 1, Call_cleanup 2, Call_initialize 3, Run 1, Run 2, Run 1] lazy_start)) 2 = Clean_abort"
proof -
  let ?s = "run_events [Call_initialize 1, Call_cleanup 2, Call_initialize 3, Run 1, Run 2, Run 1] lazy_start"
  let ?fs = "[Run 2, Run 3, Run 2, Run 2, Call_initialize 4, Run 2]"
  have "point_of ?s 2 = Clean_first NOT_INITIALIZED" by (simp add: run_simps)
  moreover have "lazy_init (run_events (take k ?fs) ?s) = INITIALIZING" if "k \<le> length ?fs" for k
  proof -
    have "k \<in> {0, 1, 2, 3, 4, 5, 6}" using that by auto
    then show ?thesis by (auto simp: run_simps)
  qed
  moreover have "4 \<le> count_list ?fs (Run 2)" by simp
  ultimately show ?thesis using conjunct2 [OF cleanup_abort_exact [of "[]" 2 ?s ?fs]] by blast
qed

section \<open>Liveness\<close>

text \<open>An infinite schedule of events; it is fair when every thread runs again and again.\<close>

primrec state_at :: "(nat \<Rightarrow> event) \<Rightarrow> nat \<Rightarrow> lazy_state" where
  "state_at sched 0 = lazy_start"
| "state_at sched (Suc n) = exec (sched n) (state_at sched n)"

definition fair :: "(nat \<Rightarrow> event) \<Rightarrow> bool" where
  "fair sched \<longleftrightarrow> (\<forall>t i. \<exists>j \<ge> i. sched j = Run t)"

abbreviation point_at :: "(nat \<Rightarrow> event) \<Rightarrow> nat \<Rightarrow> thread \<Rightarrow> point" where
  "point_at sched i t \<equiv> point_of (state_at sched i) t"

abbreviation variable_at :: "(nat \<Rightarrow> event) \<Rightarrow> nat \<Rightarrow> lazy_status" where
  "variable_at sched i \<equiv> lazy_init (state_at sched i)"

definition in_initialize :: "point \<Rightarrow> bool" where
  "in_initialize p \<longleftrightarrow> p \<in> {Init_enter, Init_wait, Init_assert, Init_result, Init_call, Init_store} \<or>
     (\<exists>st. p = Init_test st)"

lemma reachable_at: "lazy_reachable (state_at sched i)"
  by (induction i) (auto intro: lazy_reachable.intros simp del: exec.simps)

lemma inv_at: "lazy_inv (state_at sched i)"
  by (rule lazy_reachable_inv [OF reachable_at])

lemma other_event: "\<lbrakk>e \<noteq> Run t; \<not> at_rest (point_of s t)\<rbrakk> \<Longrightarrow> point_of (exec e s) t = point_of s t"
  by (cases e) (auto simp: exec_Run)

lemma variable_mono: "i \<le> j \<Longrightarrow> variable_at sched i \<le> variable_at sched j"
proof (induction j)
  case (Suc j)
  have "variable_at sched j \<le> variable_at sched (Suc j)"
  proof (cases "sched j")
    case (Run t)
    with lazy_inv_facts(1,2) [OF inv_at [of sched j], of t] show ?thesis
      by (simp add: exec_Run step_grows)
  qed auto
  with Suc show ?case by (metis le_SucE order.trans order.refl)
qed simp

lemma next_run:
  assumes "fair sched" "\<not> at_rest (point_at sched i t)"
  shows "\<exists>j \<ge> i. point_at sched j t = point_at sched i t \<and>
    point_at sched (Suc j) t = fst (thread_step (point_at sched i t) (variable_at sched j))"
proof -
  define j where "j = (LEAST j. i \<le> j \<and> sched j = Run t)"
  obtain k where "i \<le> k \<and> sched k = Run t" using assms(1) unfolding fair_def by blast
  then have j: "i \<le> j \<and> sched j = Run t" unfolding j_def by (rule LeastI)
  have "point_at sched k t = point_at sched i t" if "i \<le> k" "k \<le> j" for k
    using that
  proof (induction k)
    case (Suc k)
    show ?case
    proof (cases "i = Suc k")
      case False
      then have k: "i \<le> k" "k < j" using Suc.prems by auto
      then have "sched k \<noteq> Run t" using not_less_Least [of k "\<lambda>j. i \<le> j \<and> sched j = Run t"] by (auto simp: j_def)
      with k Suc.IH assms(2) show ?thesis by (simp add: other_event)
    qed simp
  qed simp
  then have "point_at sched j t = point_at sched i t" using j by blast
  with j show ?thesis by (intro exI [of _ j]) (simp add: exec_Run)
qed

lemma store_returns:
  assumes "fair sched" "point_at sched i t = Init_store"
  shows "\<exists>j \<ge> i. point_at sched j t = Init_return True"
  using next_run [OF assms(1), of i t] assms(2) by (auto simp: thread_step_def intro: le_SucI)

lemma call_returns:
  assumes "fair sched" "starting (point_at sched i t)"
  shows "\<exists>j \<ge> i. point_at sched j t = Init_return True"
proof (cases "point_at sched i t = Init_call")
  case True
  with next_run [OF assms(1), of i t] obtain j where "j \<ge> i" "point_at sched (Suc j) t = Init_store"
    by (auto simp: thread_step_def)
  with store_returns [OF assms(1), of "Suc j" t] show ?thesis by (meson Suc_leD order.trans)
qed (use assms store_returns in blast)

lemma initialization_ends:
  assumes "fair sched"
  shows "\<exists>j \<ge> i. variable_at sched j \<noteq> INITIALIZING"
proof (cases "variable_at sched i = INITIALIZING")
  case True
  with inv_at [of sched i] obtain t where "starting (point_at sched i t)"
    by (auto simp: lazy_inv_def one_owner_def owners_def)
  from call_returns [OF assms this] obtain j where j: "j \<ge> i" "point_at sched j t = Init_return True" by blast
  with lazy_inv_facts(3) [OF inv_at [of sched j], of t] have "INITIALIZED \<le> variable_at sched j" by simp
  then show ?thesis using j by (auto simp: status_bounds)
qed auto

lemma wait_or_assert:
  assumes "point_at sched i t = Init_wait" "i \<le> k"
  shows "point_at sched k t = Init_wait \<or> (\<exists>j \<ge> i. point_at sched j t = Init_assert)"
  using assms(2)
proof (induction k)
  case (Suc k)
  show ?case
  proof (cases "i = Suc k")
    case False
    with Suc have "i \<le> k" "point_at sched k t = Init_wait \<or> (\<exists>j \<ge> i. point_at sched j t = Init_assert)" by auto
    moreover have "point_at sched (Suc k) t \<in> {Init_wait, Init_assert}" if "point_at sched k t = Init_wait"
      using that other_event [of "sched k" t "state_at sched k"]
      by (cases "sched k = Run t") (auto simp: exec_Run thread_step_def)
    ultimately show ?thesis using Suc.prems by (metis empty_iff insert_iff)
  qed (use assms(1) in simp)
qed (use assms(1) in simp)

lemma wait_ends:
  assumes "fair sched" "point_at sched i t = Init_wait"
  shows "\<exists>j \<ge> i. point_at sched j t = Init_assert"
proof -
  from initialization_ends [OF assms(1)] obtain k where k: "k \<ge> i" "variable_at sched k \<noteq> INITIALIZING" by blast
  show ?thesis
  proof (cases "point_at sched k t = Init_wait")
    case True
    with next_run [OF assms(1), of k t] obtain j where j: "j \<ge> k"
      "point_at sched (Suc j) t = fst (thread_step Init_wait (variable_at sched j))" by auto
    have "INITIALIZING \<le> variable_at sched k"
      using lazy_inv_facts(3) [OF inv_at [of sched k], of t] True by simp
    then have "INITIALIZED \<le> variable_at sched k" using k(2) by (simp add: status_bounds)
    with variable_mono [OF j(1)] have "variable_at sched j \<noteq> INITIALIZING"
      by (metis order.trans status_bounds(2))
    with j(2) have "point_at sched (Suc j) t = Init_assert" by (simp add: thread_step_def)
    then show ?thesis using j(1) k(1) by (intro exI [of _ "Suc j"]) simp
  next
    case False
    with wait_or_assert [OF assms(2) k(1)] show ?thesis by blast
  qed
qed

lemma assert_returns:
  assumes "fair sched" "point_at sched i t \<in> {Init_assert, Init_result}"
  shows "\<exists>j \<ge> i. \<exists>b. point_at sched j t = Init_return b"
proof -
  have result: "\<exists>j \<ge> k. \<exists>b. point_at sched j t = Init_return b" if r: "point_at sched k t = Init_result" for k
  proof -
    from next_run [OF assms(1), of k t] r obtain j where "j \<ge> k"
      "\<exists>b. point_at sched (Suc j) t = Init_return b" by (auto simp: thread_step_def)
    then show ?thesis by (intro exI [of _ "Suc j"]) simp
  qed
  show ?thesis
  proof (cases "point_at sched i t = Init_result")
    case False
    then have a: "point_at sched i t = Init_assert" using assms(2) by simp
    with next_run [OF assms(1), of i t] obtain j where j: "j \<ge> i"
      "point_at sched j t = Init_assert" "point_at sched (Suc j) t = fst (thread_step Init_assert (variable_at sched j))"
      by auto
    have "INITIALIZED \<le> variable_at sched j" using lazy_inv_facts(3) [OF inv_at [of sched j], of t] j(2) by simp
    with j(3) have "point_at sched (Suc j) t = Init_result" by (simp add: thread_step_def)
    from result [OF this] j(1) show ?thesis by (meson Suc_leD order.trans)
  qed (rule result)
qed

text \<open>
  C29: Under a fair schedule every call of \<open>mono_lazy_initialize\<close> returns, whatever the other
  threads do: the wait for another thread's initialisation ends.
\<close>
theorem initialize_returns:
  assumes "fair sched" "in_initialize (point_at sched i t)"
  shows "\<exists>j \<ge> i. \<exists>b. point_at sched j t = Init_return b"
proof -
  let ?ends = "\<lambda>k. \<exists>j \<ge> k. \<exists>b. point_at sched j t = Init_return b"
  have later: "?ends i" if "i \<le> k" "?ends k" for i k using that by (meson order.trans)
  have waits: "?ends k" if "point_at sched k t = Init_wait" for k
    using wait_ends [OF assms(1) that] assert_returns [OF assms(1), of _ t] later by blast
  have calls: "?ends k" if "starting (point_at sched k t)" for k
    using call_returns [OF assms(1) that] by blast
  have tests: "?ends k" if st: "point_at sched k t = Init_test st" for k st
  proof -
    from next_run [OF assms(1), of k t] st obtain j where j: "j \<ge> k"
      "point_at sched (Suc j) t = fst (thread_step (Init_test st) (variable_at sched j))" by auto
    then have "(\<exists>b. point_at sched (Suc j) t = Init_return b) \<or> point_at sched (Suc j) t = Init_wait \<or>
      point_at sched (Suc j) t = Init_call"
      by (simp add: thread_step_def mono_atomic_cas_def split: if_splits)
    then have "?ends (Suc j)" using waits calls by blast
    with j(1) show ?thesis using later [of k "Suc j"] by simp
  qed
  have enters: "?ends i" if "point_at sched i t = Init_enter"
  proof -
    from next_run [OF assms(1), of i t] that obtain j where j: "j \<ge> i"
      "\<exists>st. point_at sched (Suc j) t = Init_test st" by (auto simp: thread_step_def)
    then show ?thesis using tests later [of i "Suc j"] by auto
  qed
  show ?thesis
    using assms(2) enters tests [of i] waits [of i] calls [of i] assert_returns [OF assms(1), of i t]
    unfolding in_initialize_def by blast
qed

text \<open>Thread 1 calls \<open>mono_lazy_initialize\<close>, then every thread runs again and again.\<close>

definition example_sched :: "nat \<Rightarrow> event" where
  "example_sched n = (if n = 0 then Call_initialize 1 else Run (fst (prod_decode n)))"

theorem initialize_returns_witness: "\<exists>j b. point_at example_sched j 1 = Init_return b"
proof -
  have "\<exists>j \<ge> i. example_sched j = Run t" for t i
  proof -
    have "prod_encode (t, Suc i) \<ge> Suc i" by (rule le_prod_encode_2)
    then show ?thesis
      by (intro exI [of _ "prod_encode (t, Suc i)"]) (simp add: example_sched_def)
  qed
  then have "fair example_sched" by (simp add: fair_def)
  moreover have "in_initialize (point_at example_sched 1 1)"
    by (simp add: example_sched_def lazy_start_def in_initialize_def)
  ultimately show ?thesis using initialize_returns by blast
qed

end
