(* ===== verification/Refcount.thy ===== *)
theory Refcount
  imports Prelude
begin

text \<open>
  \<open>mono/utils/refcount.h\<close>: the counter of references that is embedded in an object, used by any
  number of threads at once. The operations are loops around a compare-and-exchange; every access to
  the counter is one step and the steps of the threads interleave in any order. The loops end a call
  with a result, or with the fatal error of \<open>g_error\<close>. Ghost counters record how often each
  operation took effect.
\<close>

section \<open>The operations, one access to the counter at a time\<close>

datatype ref_op = Try_increment | Increment | Decrement

datatype ref_point =
    Ref_idle
  | Ref_load ref_op              \<comment> \<open>about to read \<open>oldref\<close>\<close>
  | Ref_cas ref_op u32           \<comment> \<open>about to exchange, with \<open>oldref\<close>\<close>
  | Ref_destructor               \<comment> \<open>about to call the destructor\<close>
  | Ref_bool bool                \<comment> \<open>\<open>mono_refcount_tryincrement\<close> returned\<close>
  | Ref_done                     \<comment> \<open>\<open>mono_refcount_increment\<close> returned\<close>
  | Ref_value u32                \<comment> \<open>\<open>mono_refcount_decrement\<close> returned\<close>
  | Ref_error

text \<open>\<open>mono_atomic_cas_i32\<close>: the new value of the variable and the value read.\<close>

definition cas_i32 :: "u32 \<Rightarrow> u32 \<Rightarrow> u32 \<Rightarrow> u32 \<times> u32" where
  "cas_i32 var new old = (if var = old then new else var, var)"

fun mono_refcount_tryincrement :: "ref_point \<Rightarrow> u32 \<Rightarrow> ref_point \<times> u32" where
  "mono_refcount_tryincrement (Ref_load op) v =
    (let oldref = v in if oldref = 0 then (Ref_bool False, v) else (Ref_cas op oldref, v))"
| "mono_refcount_tryincrement (Ref_cas op oldref) v =
    (let newref = oldref + 1; (v', read) = cas_i32 v newref oldref
     in if read \<noteq> oldref then (Ref_load op, v') else (Ref_bool True, v'))"
| "mono_refcount_tryincrement p v = (p, v)"

text \<open>The result of the inner call decides between returning and the fatal error.\<close>

definition mono_refcount_increment :: "ref_point \<Rightarrow> u32 \<Rightarrow> ref_point \<times> u32" where
  "mono_refcount_increment p v =
    (case mono_refcount_tryincrement p v of
       (Ref_bool ok, v') \<Rightarrow> (if \<not> ok then Ref_error else Ref_done, v')
     | r \<Rightarrow> r)"

fun mono_refcount_decrement :: "bool \<Rightarrow> ref_point \<Rightarrow> u32 \<Rightarrow> ref_point \<times> u32" where
  "mono_refcount_decrement destructor (Ref_load op) v =
    (let oldref = v in if oldref = 0 then (Ref_error, v) else (Ref_cas op oldref, v))"
| "mono_refcount_decrement destructor (Ref_cas op oldref) v =
    (let newref = oldref - 1; (v', read) = cas_i32 v newref oldref
     in if read \<noteq> oldref then (Ref_load op, v')
        else if newref = 0 \<and> destructor then (Ref_destructor, v') else (Ref_value newref, v'))"
| "mono_refcount_decrement destructor Ref_destructor v = (Ref_value 0, v)"
| "mono_refcount_decrement destructor p v = (p, v)"

definition ref_step :: "bool \<Rightarrow> ref_point \<Rightarrow> u32 \<Rightarrow> ref_point \<times> u32" where
  "ref_step destructor p v = (case p of
     Ref_load Try_increment \<Rightarrow> mono_refcount_tryincrement p v
   | Ref_cas Try_increment _ \<Rightarrow> mono_refcount_tryincrement p v
   | Ref_load Increment \<Rightarrow> mono_refcount_increment p v
   | Ref_cas Increment _ \<Rightarrow> mono_refcount_increment p v
   | _ \<Rightarrow> mono_refcount_decrement destructor p v)"

section \<open>Threads\<close>

record MonoRefCount =
  ref :: u32
  destructor :: bool                \<comment> \<open>not null\<close>
  ref_points :: "nat \<Rightarrow> ref_point"
  increments :: nat
  decrements :: nat
  destructor_calls :: nat

definition mono_refcount_initialize :: "bool \<Rightarrow> MonoRefCount" where
  "mono_refcount_initialize d = \<lparr>ref = 1, destructor = d, ref_points = (\<lambda>_. Ref_idle),
     increments = 0, decrements = 0, destructor_calls = 0\<rparr>"

datatype ref_event = Ref_call ref_op nat | Ref_run nat

definition ref_at_rest :: "ref_point \<Rightarrow> bool" where
  "ref_at_rest p \<longleftrightarrow> (case p of Ref_idle \<Rightarrow> True | Ref_bool _ \<Rightarrow> True | Ref_done \<Rightarrow> True | Ref_value _ \<Rightarrow> True | _ \<Rightarrow> False)"

text \<open>The exchange of this step succeeds.\<close>

definition takes_effect :: "(ref_op \<Rightarrow> bool) \<Rightarrow> ref_point \<Rightarrow> u32 \<Rightarrow> bool" where
  "takes_effect P p v = (case p of Ref_cas op oldref \<Rightarrow> P op \<and> oldref = v | _ \<Rightarrow> False)"

fun ref_exec :: "ref_event \<Rightarrow> MonoRefCount \<Rightarrow> MonoRefCount" where
  "ref_exec (Ref_call op t) s =
    (if ref_at_rest (ref_points s t) then s\<lparr>ref_points := (ref_points s)(t := Ref_load op)\<rparr> else s)"
| "ref_exec (Ref_run t) s =
    (let p = ref_points s t; (p', v) = ref_step (destructor s) p (ref s)
     in s\<lparr>ref := v, ref_points := (ref_points s)(t := p'),
          increments := increments s + of_bool (takes_effect (\<lambda>op. op \<noteq> Decrement) p (ref s)),
          decrements := decrements s + of_bool (takes_effect (\<lambda>op. op = Decrement) p (ref s)),
          destructor_calls := destructor_calls s + of_bool (p = Ref_destructor)\<rparr>)"

inductive ref_reachable :: "bool \<Rightarrow> MonoRefCount \<Rightarrow> bool" for d where
  start: "ref_reachable d (mono_refcount_initialize d)"
| step: "ref_reachable d s \<Longrightarrow> ref_reachable d (ref_exec e s)"

end
