(* ===== verification/RefcountProps.thy ===== *)
theory RefcountProps
  imports Refcount
begin

text \<open>
  The reference counter under every interleaving: its operations are atomic, the destructor runs
  exactly once as long as the counter does not wrap around, and what happens when it does.
\<close>

section \<open>Single steps\<close>

named_theorems ref_simps

lemma ref_run:
  "ref_exec (Ref_run t) s = s\<lparr>ref := snd (ref_step (destructor s) (ref_points s t) (ref s)),
     ref_points := (ref_points s)(t := fst (ref_step (destructor s) (ref_points s t) (ref s))),
     increments := increments s + of_bool (takes_effect (\<lambda>op. op \<noteq> Decrement) (ref_points s t) (ref s)),
     decrements := decrements s + of_bool (takes_effect (\<lambda>op. op = Decrement) (ref_points s t) (ref s)),
     destructor_calls := destructor_calls s + of_bool (ref_points s t = Ref_destructor)\<rparr>"
  by (simp add: case_prod_beta Let_def)

declare ref_exec.simps(2) [simp del]

lemmas [ref_simps] = ref_step_def cas_i32_def Let_def takes_effect_def mono_refcount_increment_def

text \<open>The counter moves exactly when an operation takes effect, by one.\<close>

lemma ref_step_counter:
  "snd (ref_step d p v) =
    (if takes_effect (\<lambda>op. op \<noteq> Decrement) p v then v + 1
     else if takes_effect (\<lambda>op. op = Decrement) p v then v - 1 else v)"
  by (cases p) (auto simp: ref_simps split: ref_op.splits)

lemma ref_step_destructor:
  "fst (ref_step d p v) = Ref_destructor \<longleftrightarrow> d \<and> v = 1 \<and> takes_effect (\<lambda>op. op = Decrement) p v"
  by (cases p) (auto simp: ref_simps split: ref_op.splits)

text \<open>An operation that is about to exchange saw a counter that was not zero.\<close>

fun saw_reference :: "ref_point \<Rightarrow> bool" where
  "saw_reference (Ref_cas op oldref) = (oldref \<noteq> 0)"
| "saw_reference p = True"

lemma saw_reference_step: "saw_reference p \<Longrightarrow> saw_reference (fst (ref_step d p v))"
  by (cases p) (auto simp: ref_simps split: ref_op.splits)

lemma takes_effect_nonzero: "\<lbrakk>takes_effect P p v; saw_reference p\<rbrakk> \<Longrightarrow> v \<noteq> 0 \<and> p \<noteq> Ref_destructor"
  by (cases p) (auto simp: takes_effect_def)

section \<open>The invariant\<close>

definition destroyers :: "MonoRefCount \<Rightarrow> nat set" where
  "destroyers s = {t. ref_points s t = Ref_destructor}"

text \<open>The destructor is due, or has run, exactly when the counter is zero.\<close>

definition destroyed_once :: "MonoRefCount \<Rightarrow> bool" where
  "destroyed_once s \<longleftrightarrow>
    (if ref s = 0 \<and> destructor s
     then (destructor_calls s = 0 \<and> (\<exists>t. destroyers s = {t})) \<or> (destructor_calls s = 1 \<and> destroyers s = {})
     else destructor_calls s = 0 \<and> destroyers s = {})"

definition ref_inv :: "bool \<Rightarrow> MonoRefCount \<Rightarrow> bool" where
  "ref_inv d s \<longleftrightarrow> destructor s = d \<and> (\<forall>t. saw_reference (ref_points s t)) \<and>
    (increments s < 2 ^ 32 - 1 \<longrightarrow> unat (ref s) + decrements s = 1 + increments s \<and> destroyed_once s)"

lemma ref_inv_start: "ref_inv d (mono_refcount_initialize d)"
  by (simp add: ref_inv_def mono_refcount_initialize_def destroyed_once_def destroyers_def)

lemma destroyers_run:
  "destroyers (ref_exec (Ref_run t) s) =
    (if fst (ref_step (destructor s) (ref_points s t) (ref s)) = Ref_destructor
     then insert t (destroyers s) else destroyers s - {t})"
  by (auto simp: destroyers_def ref_run)

lemma counter_run:
  assumes "unat (ref s) + decrements s = 1 + increments s" "\<forall>t. saw_reference (ref_points s t)"
    "increments (ref_exec (Ref_run t) s) < 2 ^ 32 - 1"
  shows "unat (ref (ref_exec (Ref_run t) s)) + decrements (ref_exec (Ref_run t) s) =
    1 + increments (ref_exec (Ref_run t) s)"
proof -
  let ?p = "ref_points s t"
  have nz: "ref s \<noteq> 0" if "takes_effect P ?p (ref s)" for P
    using takes_effect_nonzero [OF that] assms(2) by blast
  consider "takes_effect (\<lambda>op. op \<noteq> Decrement) ?p (ref s)" | "takes_effect (\<lambda>op. op = Decrement) ?p (ref s)"
      "\<not> takes_effect (\<lambda>op. op \<noteq> Decrement) ?p (ref s)" |
    "\<not> takes_effect (\<lambda>op. op \<noteq> Decrement) ?p (ref s)" "\<not> takes_effect (\<lambda>op. op = Decrement) ?p (ref s)" by blast
  then show ?thesis
  proof cases
    case 1
    then have no: "\<not> takes_effect (\<lambda>op. op = Decrement) ?p (ref s)"
      by (auto simp: takes_effect_def split: ref_point.splits)
    have "unat (ref s) + 1 < 2 ^ 32" using 1 assms(1,3) by (simp add: ref_run)
    then have "unat (ref s + 1) = unat (ref s) + 1" using unat_add_lem [of "ref s" 1] by simp
    with 1 no assms(1) show ?thesis by (simp add: ref_run ref_step_counter)
  next
    case 2
    have "unat (ref s - 1) = unat (ref s) - 1" "unat (ref s) > 0"
      using nz [OF 2(1)] by (simp_all add: unat_minus_one unat_gt_0)
    with 2 assms(1) show ?thesis by (simp add: ref_run ref_step_counter)
  next
    case 3
    with assms(1) show ?thesis by (simp add: ref_run ref_step_counter)
  qed
qed

lemma destroyed_once_run:
  assumes "destroyed_once s" "unat (ref s) + decrements s = 1 + increments s" "\<forall>t. saw_reference (ref_points s t)"
    "increments (ref_exec (Ref_run t) s) < 2 ^ 32 - 1"
  shows "destroyed_once (ref_exec (Ref_run t) s)"
proof -
  let ?p = "ref_points s t" and ?v = "ref s" and ?s' = "ref_exec (Ref_run t) s"
  let ?inc = "takes_effect (\<lambda>op. op \<noteq> Decrement) ?p ?v" and ?dec = "takes_effect (\<lambda>op. op = Decrement) ?p ?v"
  have nz: "?v \<noteq> 0 \<and> ?p \<noteq> Ref_destructor" if "takes_effect P ?p ?v" for P
    using takes_effect_nonzero [OF that] assms(3) by blast
  have d: "destructor ?s' = destructor s" by (simp add: ref_run)
  have new: "ref ?s' = (if ?inc then ?v + 1 else if ?dec then ?v - 1 else ?v)"
    by (simp add: ref_run ref_step_counter)
  have other: "destroyers s - {t} = destroyers s" if "?p \<noteq> Ref_destructor"
    using that by (auto simp: destroyers_def)
  have calls: "destructor_calls ?s' = destructor_calls s + of_bool (?p = Ref_destructor)" by (simp add: ref_run)
  have own: "destroyers ?s' = (if destructor s \<and> ?v = 1 \<and> ?dec then insert t (destroyers s) else destroyers s - {t})"
    unfolding destroyers_run ref_step_destructor by (rule refl)
  note counter = counter_run [OF assms(2,3,4)]
  consider "?p = Ref_destructor" | "?inc" "\<not> ?dec" | "?dec" "\<not> ?inc" | "?p \<noteq> Ref_destructor" "\<not> ?inc" "\<not> ?dec"
    by (cases ?p) (auto simp: takes_effect_def)
  then show ?thesis
  proof cases
    case 1
    then have t: "t \<in> destroyers s" by (simp add: destroyers_def)
    have no: "\<not> ?inc" "\<not> ?dec" using 1 nz by blast+
    from t assms(1) have s: "?v = 0" "destructor s" "destructor_calls s = 0" "destroyers s = {t}"
      by (auto simp: destroyed_once_def split: if_splits)
    have "ref ?s' = 0" "destroyers ?s' = {}" "destructor_calls ?s' = 1"
      using new own calls s no 1 by simp_all
    with s d show ?thesis by (simp add: destroyed_once_def)
  next
    case 2
    have "ref ?s' \<noteq> 0"
    proof
      assume "ref ?s' = 0"
      then show False using counter 2 assms(2) nz [OF 2(1)] by (simp add: ref_run unat_eq_zero)
    qed
    moreover have "destroyers ?s' = destroyers s" "destructor_calls ?s' = destructor_calls s"
      using own calls 2 nz [OF 2(1)] other by simp_all
    ultimately show ?thesis using assms(1) nz [OF 2(1)] by (simp add: destroyed_once_def)
  next
    case 3
    with nz [OF 3(1)] assms(1) have s: "destructor_calls s = 0" "destroyers s = {}"
      by (auto simp: destroyed_once_def)
    have "ref ?s' = ?v - 1" "destructor_calls ?s' = 0" using new calls 3 nz [OF 3(1)] s by simp_all
    moreover have "destroyers ?s' = (if destructor s \<and> ?v = 1 then {t} else {})" using own 3 s by simp
    moreover have "?v - 1 = 0 \<longleftrightarrow> ?v = 1" by simp
    ultimately show ?thesis using d by (simp add: destroyed_once_def)
  next
    case 4
    then have "ref ?s' = ?v" "destroyers ?s' = destroyers s" "destructor_calls ?s' = destructor_calls s"
      using new own calls other by simp_all
    then show ?thesis using assms(1) unfolding destroyed_once_def d by (simp only:)
  qed
qed

lemma increments_mono: "increments s \<le> increments (ref_exec e s)"
  by (cases e) (auto simp: ref_run)

lemma ref_inv_exec:
  assumes "ref_inv d s"
  shows "ref_inv d (ref_exec e s)"
proof (cases e)
  case (Ref_run t)
  have saw: "\<forall>t. saw_reference (ref_points s t)" and d: "destructor s = d"
    using assms by (simp_all add: ref_inv_def)
  have "unat (ref (ref_exec e s)) + decrements (ref_exec e s) = 1 + increments (ref_exec e s) \<and>
      destroyed_once (ref_exec e s)" if lim: "increments (ref_exec e s) < 2 ^ 32 - 1"
  proof -
    have "increments s < 2 ^ 32 - 1" using increments_mono [of s e] lim by linarith
    then have "unat (ref s) + decrements s = 1 + increments s" "destroyed_once s"
      using assms by (simp_all add: ref_inv_def)
    then show ?thesis
      using counter_run [OF _ saw] destroyed_once_run [OF _ _ saw] lim unfolding Ref_run by blast
  qed
  moreover have "saw_reference (ref_points (ref_exec e s) u)" for u
    using saw saw_reference_step by (simp add: Ref_run ref_run)
  moreover have "destructor (ref_exec e s) = d" using d by (simp add: Ref_run ref_run)
  ultimately show ?thesis unfolding ref_inv_def by blast
next
  case (Ref_call op t)
  have "destroyers (ref_exec e s) = destroyers s"
    by (auto simp: Ref_call destroyers_def ref_at_rest_def)
  with assms Ref_call show ?thesis by (auto simp: ref_inv_def destroyed_once_def)
qed

lemma ref_reachable_inv: "ref_reachable d s \<Longrightarrow> ref_inv d s"
  by (induction rule: ref_reachable.induct) (simp_all add: ref_inv_start ref_inv_exec)

section \<open>Properties\<close>

text \<open>
  C36: Whatever the threads do, while fewer than \<open>2 ^ 32 - 1\<close> increments took effect the counter is one plus
  the increments minus the decrements that took effect, and the destructor is called exactly once,
  by the thread whose decrement brought the counter to zero: before that it has not run and is not due,
  afterwards one single thread is about to call it or it has been called.
\<close>
theorem destructor_once:
  assumes "ref_reachable d s" "increments s < 2 ^ 32 - 1"
  shows "unat (ref s) + decrements s = 1 + increments s \<and> destroyed_once s"
  using ref_reachable_inv [OF assms(1)] assms(2) by (simp only: ref_inv_def simp_thms)

lemma ref_reachable_fold: "ref_reachable d s \<Longrightarrow> ref_reachable d (fold ref_exec es s)"
  by (induction es arbitrary: s) (simp_all add: ref_reachable.step)

text \<open>Two threads: one takes a second reference, both drop theirs, the second of them destroys.\<close>

definition two_owners :: "ref_event list" where
  "two_owners = [Ref_call Increment 0, Ref_run 0, Ref_run 0, Ref_call Decrement 0, Ref_call Decrement 1,
     Ref_run 0, Ref_run 1, Ref_run 0, Ref_run 1, Ref_run 1, Ref_run 1]"

lemma two_owners_run:
  "fold ref_exec two_owners (mono_refcount_initialize True) =
    \<lparr>ref = 0, destructor = True, ref_points = (\<lambda>_. Ref_idle)(0 := Ref_value 1, 1 := Ref_destructor),
     increments = 1, decrements = 2, destructor_calls = 0\<rparr>"
  by (simp add: two_owners_def mono_refcount_initialize_def ref_run ref_at_rest_def ref_simps fun_eq_iff)

theorem destructor_once_witness:
  "let s = fold ref_exec two_owners (mono_refcount_initialize True)
   in ref s = 0 \<and> decrements s = 2 \<and> destroyed_once s"
proof -
  have "destroyed_once (fold ref_exec two_owners (mono_refcount_initialize True))"
    using destructor_once [OF ref_reachable_fold [OF ref_reachable.start], of two_owners True]
    unfolding two_owners_run by simp
  then show ?thesis unfolding Let_def by (simp add: two_owners_run)
qed

text \<open>One undisturbed call of \<open>mono_refcount_tryincrement\<close>.\<close>

lemma tryincrement_alone:
  assumes "ref s \<noteq> 0" "ref_at_rest (ref_points s t)"
  shows "fold ref_exec [Ref_call Try_increment t, Ref_run t, Ref_run t] s =
    s\<lparr>ref := ref s + 1, ref_points := (ref_points s)(t := Ref_bool True), increments := Suc (increments s)\<rparr>"
  using assms by (simp add: ref_run ref_simps)

lemma increments_reachable:
  assumes "n < 2 ^ 32"
  shows "\<exists>s :: MonoRefCount. ref_reachable d s \<and> ref s = 1 + of_nat n \<and> increments s = n \<and> decrements s = 0 \<and>
    destructor_calls s = 0 \<and> ref_points s = (if n = 0 then (\<lambda>_. Ref_idle) else (\<lambda>_. Ref_idle)(t := Ref_bool True))"
  using assms
proof (induction n)
  case 0
  show ?case
    by (rule exI [of _ "mono_refcount_initialize d"])
      (use ref_reachable.start [of d] in \<open>simp add: mono_refcount_initialize_def\<close>)
next
  case (Suc n)
  then obtain s :: MonoRefCount where s: "ref_reachable d s" "ref s = 1 + of_nat n" "increments s = n" "decrements s = 0"
      "destructor_calls s = 0" "ref_points s = (if n = 0 then (\<lambda>_. Ref_idle) else (\<lambda>_. Ref_idle)(t := Ref_bool True))"
    using Suc_lessD by blast
  have "(of_nat (Suc n) :: u32) \<noteq> 0"
    using Suc.prems nat_dvd_not_less [of "Suc n" "2 ^ 32"]
    by (simp add: word_of_nat_eq_0_iff del: of_nat_Suc)
  then have "ref s \<noteq> 0" using s(2) by simp
  moreover have "ref_at_rest (ref_points s t)" using s(6) by (simp add: ref_at_rest_def)
  ultimately have run: "fold ref_exec [Ref_call Try_increment t, Ref_run t, Ref_run t] s =
    s\<lparr>ref := ref s + 1, ref_points := (ref_points s)(t := Ref_bool True), increments := Suc (increments s)\<rparr>"
    by (rule tryincrement_alone)
  have "(ref_points s)(t := Ref_bool True) = (\<lambda>_. Ref_idle)(t := Ref_bool True)"
    using s(6) by (cases "n = 0") simp_all
  then show ?case
    using ref_reachable_fold [OF s(1), of "[Ref_call Try_increment t, Ref_run t, Ref_run t]"] s(2-5)
    unfolding run by (intro exI [of _ "s\<lparr>ref := ref s + 1, ref_points := (ref_points s)(t := Ref_bool True),
      increments := Suc (increments s)\<rparr>"]) simp
qed

text \<open>
  The bound on the increments is sharp: nothing stops the counter from overflowing. After
  \<open>2 ^ 32 - 1\<close> successful increments and not one decrement the counter is zero, the last increment has
  reported success, and the destructor has never run; from then on every operation treats the object as dead.
\<close>
lemma increment_wraps:
  "\<exists>s :: MonoRefCount. ref_reachable d s \<and> ref_points s t = Ref_bool True \<and> increments s = 2 ^ 32 - 1 \<and>
    decrements s = 0 \<and> ref s = 0 \<and> destructor_calls s = 0 \<and>
    ref_points (fold ref_exec [Ref_call Decrement u, Ref_run u] s) u = Ref_error"
proof -
  obtain s :: MonoRefCount where s: "ref_reachable d s" "ref s = 1 + of_nat (2 ^ 32 - 1)" "increments s = 2 ^ 32 - 1"
      "decrements s = 0" "destructor_calls s = 0" "ref_points s = (\<lambda>_. Ref_idle)(t := Ref_bool True)"
    using increments_reachable [of "2 ^ 32 - 1" d t] by auto
  have zero: "ref s = 0" using s(2) by simp
  have "ref_points (fold ref_exec [Ref_call Decrement u, Ref_run u] s) u = Ref_error"
    using s(6) zero by (simp add: ref_run ref_simps ref_at_rest_def)
  with s zero show ?thesis by (intro exI [of _ s]) simp
qed

end
