(* ===== verification/Qsort.thy ===== *)
theory Qsort
  imports Prelude
begin

text \<open>
  \<open>mono/sgen/sgen-qsort.h\<close>: the quick sort that \<open>DEF_QSORT_INLINE\<close> defines for an element
  type and a comparison. Indices are \<open>ssize_t\<close> of 32 bits: an index computation that leaves the range is
  undefined, like an access outside the array; both are \<open>None\<close>. The temporaries are shared by all
  levels of the recursion, as in the code, and start without a value. Two ghost fields count the calls of
  \<open>qsort_rec\<close> that are active inside the outermost one, and their maximum.
\<close>

record 'a sort_state =
  array :: "'a list"
  pivot_tmp :: "'a option"
  swap_tmp :: "'a option"
  depth :: nat
  deepest :: nat

definition ssize :: "int \<Rightarrow> int option" where
  "ssize k = (if - (2 ^ 31) \<le> k \<and> k < 2 ^ 31 then Some k else None)"

definition in_array :: "'a sort_state \<Rightarrow> int \<Rightarrow> bool" where
  "in_array s i \<longleftrightarrow> 0 \<le> i \<and> i < int (length (array s))"

definition array_get :: "'a sort_state \<Rightarrow> int \<Rightarrow> 'a option" where
  "array_get s i = (if in_array s i then Some (array s ! nat i) else None)"

definition array_set :: "'a sort_state \<Rightarrow> int \<Rightarrow> 'a \<Rightarrow> 'a sort_state option" where
  "array_set s i x = (if in_array s i then Some (s\<lparr>array := (array s)[nat i := x]\<rparr>) else None)"

definition qsort_swap :: "'a sort_state \<Rightarrow> int \<Rightarrow> int \<Rightarrow> 'a sort_state option" where
  "qsort_swap s i j = do {
     x \<leftarrow> array_get s i;
     s \<leftarrow> Some (s\<lparr>swap_tmp := Some x\<rparr>);
     y \<leftarrow> array_get s j;
     s \<leftarrow> array_set s i y;
     x \<leftarrow> swap_tmp s;
     array_set s j x }"

text \<open>\<open>if (compare (array [i], array [j]) < 0) swap\<close>\<close>

definition order_pair :: "('a \<Rightarrow> 'a \<Rightarrow> int) \<Rightarrow> 'a sort_state \<Rightarrow> int \<Rightarrow> int \<Rightarrow> 'a sort_state option" where
  "order_pair compare s i j = do {
     x \<leftarrow> array_get s i;
     y \<leftarrow> array_get s j;
     if compare x y < 0 then qsort_swap s i j else Some s }"

text \<open>The index of the pivot, whose value is copied to \<open>pivot_tmp\<close>.\<close>

definition choose_pivot :: "('a \<Rightarrow> 'a \<Rightarrow> int) \<Rightarrow> int \<Rightarrow> int \<Rightarrow> 'a sort_state \<Rightarrow> (int \<times> 'a sort_state) option" where
  "choose_pivot compare left right s = do {
     dist \<leftarrow> ssize (right - left);
     middle \<leftarrow> ssize (left + dist div 2);
     s \<leftarrow> order_pair compare s middle left;
     s \<leftarrow> order_pair compare s right left;
     s \<leftarrow> order_pair compare s right middle;
     x \<leftarrow> array_get s middle;
     Some (middle, s\<lparr>pivot_tmp := Some x\<rparr>) }"

partial_function (option) scan_left :: "('a \<Rightarrow> 'a \<Rightarrow> int) \<Rightarrow> 'a sort_state \<Rightarrow> int \<Rightarrow> int \<Rightarrow> int option" where
  "scan_left compare s left right =
    (if left \<le> right then do {
       x \<leftarrow> array_get s left;
       p \<leftarrow> pivot_tmp s;
       if compare x p \<le> 0 then do { left \<leftarrow> ssize (left + 1); scan_left compare s left right }
       else Some left }
     else Some left)"

partial_function (option) scan_right :: "('a \<Rightarrow> 'a \<Rightarrow> int) \<Rightarrow> 'a sort_state \<Rightarrow> int \<Rightarrow> int \<Rightarrow> int option" where
  "scan_right compare s left right =
    (if left \<le> right then do {
       x \<leftarrow> array_get s right;
       p \<leftarrow> pivot_tmp s;
       if compare x p > 0 then do { right \<leftarrow> ssize (right - 1); scan_right compare s left right }
       else Some right }
     else Some right)"

partial_function (option) split_loop ::
  "('a \<Rightarrow> 'a \<Rightarrow> int) \<Rightarrow> int \<Rightarrow> int \<Rightarrow> int \<Rightarrow> 'a sort_state \<Rightarrow> (int \<times> int \<times> int \<times> 'a sort_state) option" where
  "split_loop compare left right pivot s = do {
     left \<leftarrow> scan_left compare s left right;
     right \<leftarrow> scan_right compare s left right;
     if left > right then Some (left, right, pivot, s)
     else do {
       s \<leftarrow> qsort_swap s left right;
       pivot \<leftarrow> Some (if pivot = right then left else pivot);
       left' \<leftarrow> ssize (left + 1);
       right' \<leftarrow> ssize (right - 1);
       split_loop compare left' right' pivot s } }"

text \<open>One round of the outer loop up to the recursive call: the new \<open>left\<close> and \<open>right\<close>.\<close>

definition split_range :: "('a \<Rightarrow> 'a \<Rightarrow> int) \<Rightarrow> int \<Rightarrow> int \<Rightarrow> 'a sort_state \<Rightarrow> (int \<times> int \<times> 'a sort_state) option" where
  "split_range compare lo hi s = do {
     (pivot, s) \<leftarrow> choose_pivot compare lo hi s;
     (left, right, pivot, s) \<leftarrow> split_loop compare lo hi pivot s;
     x \<leftarrow> array_get s right;
     s \<leftarrow> array_set s pivot x;
     p \<leftarrow> pivot_tmp s;
     s \<leftarrow> array_set s right p;
     right \<leftarrow> ssize (right - 1);
     Some (left, right, s) }"

definition enter_call :: "'a sort_state \<Rightarrow> 'a sort_state" where
  "enter_call s = s\<lparr>depth := depth s + 1, deepest := max (deepest s) (depth s + 1)\<rparr>"

definition leave_call :: "'a sort_state \<Rightarrow> 'a sort_state" where
  "leave_call s = s\<lparr>depth := depth s - 1\<rparr>"

text \<open>\<open>begin\<close> and \<open>end\<close> of the code are \<open>lo\<close> and \<open>hi\<close>; the next round of its loop is the last call.\<close>

partial_function (option) qsort_rec :: "('a \<Rightarrow> 'a \<Rightarrow> int) \<Rightarrow> int \<Rightarrow> int \<Rightarrow> 'a sort_state \<Rightarrow> 'a sort_state option" where
  "qsort_rec compare lo hi s =
    (if lo < hi then do {
       (left, right, s) \<leftarrow> split_range compare lo hi s;
       size1 \<leftarrow> ssize (right - lo);
       size2 \<leftarrow> ssize (hi - left);
       if size1 < size2 then do {
         s \<leftarrow> qsort_rec compare lo right (enter_call s);
         qsort_rec compare left hi (leave_call s) }
       else do {
         s \<leftarrow> qsort_rec compare left hi (enter_call s);
         qsort_rec compare lo right (leave_call s) } }
     else Some s)"

definition qsort :: "('a \<Rightarrow> 'a \<Rightarrow> int) \<Rightarrow> 'a list \<Rightarrow> u32 \<Rightarrow> 'a sort_state option" where
  "qsort compare xs n = do {
     hi \<leftarrow> ssize (sint n - 1);
     qsort_rec compare 0 hi \<lparr>array = xs, pivot_tmp = None, swap_tmp = None, depth = 0, deepest = 0\<rparr> }"

end
