(* ===== verification/QsortProps.thy ===== *)
theory QsortProps
  imports Qsort "HOL-Library.Multiset"
begin

text \<open>
  The quick sort of the collector: memory safety and termination for every comparison that never puts
  an element behind itself, the order of the result, and the depth of the recursion.
\<close>

section \<open>Rearranging a range of an array\<close>

abbreviation elem :: "'a sort_state \<Rightarrow> int \<Rightarrow> 'a" where
  "elem s k \<equiv> array s ! nat k"

abbreviation size_of :: "'a sort_state \<Rightarrow> int" where
  "size_of s \<equiv> int (length (array s))"

text \<open>Only the range changes, and every element of it was in it before.\<close>

definition rearranged :: "int \<Rightarrow> int \<Rightarrow> 'a sort_state \<Rightarrow> 'a sort_state \<Rightarrow> bool" where
  "rearranged lo hi s t \<longleftrightarrow> mset (array t) = mset (array s) \<and>
    (\<forall>k. 0 \<le> k \<and> k < size_of s \<and> \<not> (lo \<le> k \<and> k \<le> hi) \<longrightarrow> elem t k = elem s k) \<and>
    (\<forall>k. lo \<le> k \<and> k \<le> hi \<longrightarrow> (\<exists>j. lo \<le> j \<and> j \<le> hi \<and> elem t k = elem s j))"

lemma rearranged_refl: "rearranged lo hi s s"
  by (auto simp: rearranged_def)

lemma rearranged_length: "rearranged lo hi s t \<Longrightarrow> length (array t) = length (array s)"
  unfolding rearranged_def using mset_eq_length by blast

lemma rearranged_trans:
  assumes st: "rearranged lo hi s t" and tu: "rearranged lo hi t u"
  shows "rearranged lo hi s u"
  unfolding rearranged_def
proof (intro conjI allI impI)
  show "mset (array u) = mset (array s)" using st tu by (simp add: rearranged_def)
next
  fix k assume "0 \<le> k \<and> k < size_of s \<and> \<not> (lo \<le> k \<and> k \<le> hi)"
  then show "elem u k = elem s k" using st tu rearranged_length [OF st] by (simp add: rearranged_def)
next
  fix k assume "lo \<le> k \<and> k \<le> hi"
  then obtain j where "lo \<le> j" "j \<le> hi" "elem u k = elem t j" using tu unfolding rearranged_def by blast
  moreover from this obtain i where "lo \<le> i" "i \<le> hi" "elem t j = elem s i"
    using st unfolding rearranged_def by blast
  ultimately show "\<exists>j. lo \<le> j \<and> j \<le> hi \<and> elem u k = elem s j" by auto
qed

lemma rearranged_outside:
  "\<lbrakk>rearranged lo hi s t; 0 \<le> k; k < size_of s; k < lo \<or> hi < k\<rbrakk> \<Longrightarrow> elem t k = elem s k"
  by (auto simp: rearranged_def)

lemma rearranged_all:
  assumes "rearranged lo hi s t" "\<And>k. \<lbrakk>lo \<le> k; k \<le> hi\<rbrakk> \<Longrightarrow> P (elem s k)" "lo \<le> k" "k \<le> hi"
  shows "P (elem t k)"
  using assms unfolding rearranged_def by metis

lemma rearranged_mono:
  assumes "rearranged lo' hi' s t" "lo \<le> lo'" "hi' \<le> hi" "0 \<le> lo" "hi < size_of s"
  shows "rearranged lo hi s t"
proof -
  have "\<exists>j. lo \<le> j \<and> j \<le> hi \<and> elem t k = elem s j" if "lo \<le> k" "k \<le> hi" for k
  proof (cases "lo' \<le> k \<and> k \<le> hi'")
    case True
    then obtain j where "lo' \<le> j" "j \<le> hi'" "elem t k = elem s j"
      using assms(1) unfolding rearranged_def by blast
    with assms(2,3) show ?thesis by (intro exI [of _ j]) simp
  next
    case False
    then have "elem t k = elem s k" using assms(1,4,5) that by (auto simp: rearranged_def)
    with that show ?thesis by blast
  qed
  then show ?thesis using assms unfolding rearranged_def by auto
qed

lemma rearranged_array_eq:
  "\<lbrakk>array s' = array s; array t' = array t\<rbrakk> \<Longrightarrow> rearranged lo hi s' t' \<longleftrightarrow> rearranged lo hi s t"
  by (simp add: rearranged_def)

section \<open>Memory operations\<close>

lemma ssize_ok: "\<lbrakk>-1 \<le> k; k \<le> size_of s; size_of s < 2 ^ 31\<rbrakk> \<Longrightarrow> ssize k = Some k"
  by (simp add: ssize_def)

lemma get_ok: "\<lbrakk>0 \<le> i; i < size_of s\<rbrakk> \<Longrightarrow> array_get s i = Some (elem s i)"
  by (simp add: array_get_def in_array_def)

lemma set_ok: "\<lbrakk>0 \<le> i; i < size_of s\<rbrakk> \<Longrightarrow> array_set s i x = Some (s\<lparr>array := (array s)[nat i := x]\<rparr>)"
  by (simp add: array_set_def in_array_def)

text \<open>Everything but the array and the temporary of the exchange.\<close>

definition same_rest :: "'a sort_state \<Rightarrow> 'a sort_state \<Rightarrow> bool" where
  "same_rest s t \<longleftrightarrow> depth t = depth s \<and> deepest t = deepest s"

lemma rearranged_exchange:
  assumes "lo \<le> i" "i \<le> hi" "lo \<le> j" "j \<le> hi" "0 \<le> lo" "hi < size_of s"
    and t: "array t = (array s)[nat i := elem s j, nat j := elem s i]"
  shows "rearranged lo hi s t"
    and "\<forall>k \<ge> 0. elem t k = (if k = i then elem s j else if k = j then elem s i else elem s k)"
proof -
  show at: "\<forall>k \<ge> 0. elem t k = (if k = i then elem s j else if k = j then elem s i else elem s k)"
    using assms by (auto simp: nth_list_update)
  have "mset (array t) = mset (array s)"
    using assms by (simp add: mset_swap)
  then show "rearranged lo hi s t"
    unfolding rearranged_def using at assms(1-6) by auto
qed

lemma swap_ok:
  assumes "lo \<le> i" "i \<le> hi" "lo \<le> j" "j \<le> hi" "0 \<le> lo" "hi < size_of s"
  shows "\<exists>t. qsort_swap s i j = Some t \<and> rearranged lo hi s t \<and> same_rest s t \<and> pivot_tmp t = pivot_tmp s \<and>
    (\<forall>k \<ge> 0. elem t k = (if k = i then elem s j else if k = j then elem s i else elem s k))"
proof -
  let ?xs = "(array s)[nat i := elem s j, nat j := elem s i]"
  let ?t = "s\<lparr>array := ?xs, swap_tmp := Some (elem s i)\<rparr>"
  have run: "qsort_swap s i j = Some ?t"
    using assms by (simp add: qsort_swap_def array_get_def array_set_def in_array_def)
  from rearranged_exchange [OF assms, of ?t] run show ?thesis unfolding same_rest_def by auto
qed

section \<open>The scans\<close>

lemma order_pair_ok:
  assumes "lo \<le> i" "i \<le> hi" "lo \<le> j" "j \<le> hi" "0 \<le> lo" "hi < size_of s"
  shows "\<exists>t. order_pair cmp s i j = Some t \<and> rearranged lo hi s t \<and> same_rest s t"
proof (cases "cmp (elem s i) (elem s j) < 0")
  case True
  then show ?thesis
    using swap_ok [OF assms] get_ok [of i s] get_ok [of j s] assms by (auto simp: order_pair_def)
next
  case False
  then show ?thesis
    using get_ok [of i s] get_ok [of j s] assms
    by (auto simp: order_pair_def same_rest_def intro: rearranged_refl)
qed

lemma choose_pivot_ok:
  assumes "0 \<le> lo" "lo < hi" "hi < size_of s" "size_of s < 2 ^ 31"
  shows "\<exists>m t. choose_pivot cmp lo hi s = Some (m, t) \<and> lo \<le> m \<and> m \<le> hi \<and> rearranged lo hi s t \<and>
    same_rest s t \<and> pivot_tmp t = Some (elem t m)"
proof -
  define m where "m = lo + (hi - lo) div 2"
  have m: "lo \<le> m" "m \<le> hi" using assms(2) by (simp_all add: m_def)
  have index: "ssize (hi - lo) = Some (hi - lo)" "ssize m = Some m"
    using assms m by (simp_all add: ssize_def)
  obtain s1 where s1: "order_pair cmp s m lo = Some s1" "rearranged lo hi s s1" "same_rest s s1"
    using order_pair_ok [of lo m hi lo s cmp] assms m by auto
  note n1 = rearranged_length [OF s1(2)]
  obtain s2 where s2: "order_pair cmp s1 hi lo = Some s2" "rearranged lo hi s1 s2" "same_rest s1 s2"
    using order_pair_ok [of lo hi hi lo s1 cmp] assms m n1 by auto
  note n2 = rearranged_length [OF s2(2)]
  obtain s3 where s3: "order_pair cmp s2 hi m = Some s3" "rearranged lo hi s2 s3" "same_rest s2 s3"
    using order_pair_ok [of lo hi hi m s2 cmp] assms m n1 n2 by auto
  have "array_get s3 m = Some (elem s3 m)"
    using get_ok [of m s3] assms m n1 n2 rearranged_length [OF s3(2)] by simp
  then have run: "choose_pivot cmp lo hi s = Some (m, s3\<lparr>pivot_tmp := Some (elem s3 m)\<rparr>)"
    using index s1(1) s2(1) s3(1) by (simp add: choose_pivot_def m_def [symmetric])
  moreover have "rearranged lo hi s s3"
    by (rule rearranged_trans [OF rearranged_trans [OF s1(2) s2(2)] s3(2)])
  ultimately show ?thesis
    using m s1(3) s2(3) s3(3) by (simp add: same_rest_def rearranged_array_eq [of s s "s3\<lparr>pivot_tmp := _\<rparr>" s3])
qed

lemma scan_left_ok:
  assumes "0 \<le> left" "left \<le> right + 1" "right < size_of s" "size_of s < 2 ^ 31" "pivot_tmp s = Some p"
  shows "\<exists>l. scan_left cmp s left right = Some l \<and> left \<le> l \<and> l \<le> right + 1 \<and>
    (\<forall>k. left \<le> k \<and> k < l \<longrightarrow> cmp (elem s k) p \<le> 0) \<and> (l \<le> right \<longrightarrow> cmp (elem s l) p > 0)"
  using assms
proof (induction "nat (right + 1 - left)" arbitrary: left rule: less_induct)
  case less
  show ?case
  proof (cases "left \<le> right \<and> cmp (elem s left) p \<le> 0")
    case True
    then obtain l where l: "scan_left cmp s (left + 1) right = Some l" "left + 1 \<le> l" "l \<le> right + 1"
        "\<forall>k. left + 1 \<le> k \<and> k < l \<longrightarrow> cmp (elem s k) p \<le> 0" "l \<le> right \<longrightarrow> cmp (elem s l) p > 0"
      using less.hyps [of "left + 1"] less.prems by auto
    have "scan_left cmp s left right = Some l"
      using True less.prems l(1) get_ok [of left s] ssize_ok [of "left + 1" s]
      by (subst scan_left.simps) simp
    moreover have "cmp (elem s k) p \<le> 0" if "left \<le> k" "k < l" for k
      using that True l(4) by (cases "k = left") auto
    ultimately show ?thesis using l by auto
  next
    case False
    then have "scan_left cmp s left right = Some left"
      using less.prems get_ok [of left s] by (subst scan_left.simps) auto
    with False less.prems show ?thesis by auto
  qed
qed

lemma scan_right_ok:
  assumes "0 \<le> left" "left \<le> right + 1" "right < size_of s" "size_of s < 2 ^ 31" "pivot_tmp s = Some p"
  shows "\<exists>r. scan_right cmp s left right = Some r \<and> left \<le> r + 1 \<and> r \<le> right \<and>
    (\<forall>k. r < k \<and> k \<le> right \<longrightarrow> cmp (elem s k) p > 0) \<and> (left \<le> r \<longrightarrow> cmp (elem s r) p \<le> 0)"
  using assms
proof (induction "nat (right + 1 - left)" arbitrary: right rule: less_induct)
  case less
  show ?case
  proof (cases "left \<le> right \<and> cmp (elem s right) p > 0")
    case True
    then obtain r where r: "scan_right cmp s left (right - 1) = Some r" "left \<le> r + 1" "r \<le> right - 1"
        "\<forall>k. r < k \<and> k \<le> right - 1 \<longrightarrow> cmp (elem s k) p > 0" "left \<le> r \<longrightarrow> cmp (elem s r) p \<le> 0"
      using less.hyps [of "right - 1"] less.prems by auto
    have "scan_right cmp s left right = Some r"
      using True less.prems r(1) get_ok [of right s] ssize_ok [of "right - 1" s]
      by (subst scan_right.simps) simp
    moreover have "cmp (elem s k) p > 0" if "r < k" "k \<le> right" for k
      using that True r(4) by (cases "k = right") auto
    ultimately show ?thesis using r by auto
  next
    case False
    then have "scan_right cmp s left right = Some right"
      using less.prems get_ok [of right s] by (subst scan_right.simps) auto
    with False less.prems show ?thesis by auto
  qed
qed

section \<open>Splitting a range at a pivot\<close>

text \<open>What holds at the head of the loop and at its end.\<close>

definition split_inv :: "('a \<Rightarrow> 'a \<Rightarrow> int) \<Rightarrow> 'a \<Rightarrow> int \<Rightarrow> int \<Rightarrow> int \<Rightarrow> int \<Rightarrow> int \<Rightarrow> 'a sort_state \<Rightarrow> bool" where
  "split_inv cmp p lo hi left right pivot s \<longleftrightarrow>
     0 \<le> lo \<and> hi < size_of s \<and> size_of s < 2 ^ 31 \<and> lo \<le> left \<and> left \<le> right + 1 \<and> right \<le> hi \<and>
     lo \<le> pivot \<and> pivot \<le> right \<and> elem s pivot = p \<and> pivot_tmp s = Some p \<and>
     (\<forall>k. lo \<le> k \<and> k < left \<longrightarrow> cmp (elem s k) p \<le> 0) \<and>
     (\<forall>k. right < k \<and> k \<le> hi \<longrightarrow> cmp (elem s k) p > 0)"

lemma split_inv_scanned:
  assumes "split_inv cmp p lo hi left right pivot s" "cmp p p \<le> 0"
  obtains l r where "scan_left cmp s left right = Some l" "scan_right cmp s l right = Some r"
    "split_inv cmp p lo hi l r pivot s" "left \<le> l" "r \<le> right"
    "l \<le> right \<longrightarrow> cmp (elem s l) p > 0" "l \<le> r \<longrightarrow> cmp (elem s r) p \<le> 0"
proof -
  note inv = assms(1) [unfolded split_inv_def]
  obtain l where l: "scan_left cmp s left right = Some l" "left \<le> l" "l \<le> right + 1"
      "\<forall>k. left \<le> k \<and> k < l \<longrightarrow> cmp (elem s k) p \<le> 0" "l \<le> right \<longrightarrow> cmp (elem s l) p > 0"
    using scan_left_ok [of left right s p cmp] inv by auto
  obtain r where r: "scan_right cmp s l right = Some r" "l \<le> r + 1" "r \<le> right"
      "\<forall>k. r < k \<and> k \<le> right \<longrightarrow> cmp (elem s k) p > 0" "l \<le> r \<longrightarrow> cmp (elem s r) p \<le> 0"
    using scan_right_ok [of l right s p cmp] inv l by auto
  have "pivot \<le> r"
  proof (rule ccontr)
    assume "\<not> pivot \<le> r"
    then show False using r(4) inv assms(2) by (metis linorder_not_le order_less_irrefl)
  qed
  moreover have "cmp (elem s k) p \<le> 0" if "lo \<le> k" "k < l" for k
    using that inv l(4) by (cases "k < left") auto
  moreover have "cmp (elem s k) p > 0" if "r < k" "k \<le> hi" for k
    using that inv r(4) by (cases "right < k") auto
  ultimately have "split_inv cmp p lo hi l r pivot s"
    using inv l(2) r(2,3) unfolding split_inv_def by auto
  with l r show ?thesis by (intro that)
qed

lemma split_inv_swapped:
  assumes inv: "split_inv cmp p lo hi l r pivot s" and refl: "cmp p p \<le> 0"
    and l: "l \<le> r" "cmp (elem s l) p > 0" and r: "cmp (elem s r) p \<le> 0"
  obtains t where "qsort_swap s l r = Some t" "rearranged lo hi s t" "same_rest s t"
    "split_inv cmp p lo hi (l + 1) (r - 1) (if pivot = r then l else pivot) t"
proof -
  note i = inv [unfolded split_inv_def]
  obtain t where t: "qsort_swap s l r = Some t" "rearranged lo hi s t" "same_rest s t" "pivot_tmp t = pivot_tmp s"
      "\<forall>k \<ge> 0. elem t k = (if k = l then elem s r else if k = r then elem s l else elem s k)"
    using swap_ok [of lo l hi r s] i l(1) by auto
  have lr: "l < r" using l r by (metis linorder_not_le order_le_less)
  have pl: "pivot \<noteq> l" using i refl l(2) by auto
  have "elem t (if pivot = r then l else pivot) = p"
    using t(5) i pl by auto
  moreover have "cmp (elem t k) p \<le> 0" if "lo \<le> k" "k < l + 1" for k
    using that t(5) i r lr by auto
  moreover have "cmp (elem t k) p > 0" if "r - 1 < k" "k \<le> hi" for k
    using that t(5) i l(2) lr by auto
  ultimately have "split_inv cmp p lo hi (l + 1) (r - 1) (if pivot = r then l else pivot) t"
    using i lr t(4) rearranged_length [OF t(2)] unfolding split_inv_def by auto
  with t show ?thesis by (intro that)
qed

lemma same_rest_trans: "\<lbrakk>same_rest s t; same_rest t u\<rbrakk> \<Longrightarrow> same_rest s u"
  by (simp add: same_rest_def)

lemma split_loop_ok:
  assumes "split_inv cmp p lo hi left right pivot s" "cmp p p \<le> 0"
  shows "\<exists>r q t. split_loop cmp left right pivot s = Some (r + 1, r, q, t) \<and>
    split_inv cmp p lo hi (r + 1) r q t \<and> rearranged lo hi s t \<and> same_rest s t"
  using assms(1)
proof (induction "nat (right + 1 - left)" arbitrary: left right pivot s rule: less_induct)
  case less
  obtain l r where lr: "scan_left cmp s left right = Some l" "scan_right cmp s l right = Some r"
      "split_inv cmp p lo hi l r pivot s" "left \<le> l" "r \<le> right"
      "l \<le> right \<longrightarrow> cmp (elem s l) p > 0" "l \<le> r \<longrightarrow> cmp (elem s r) p \<le> 0"
    by (rule split_inv_scanned [OF less.prems assms(2)])
  have range: "0 \<le> l" "l \<le> r + 1" "r < size_of s" "size_of s < 2 ^ 31" "0 \<le> r"
    using lr(3) by (auto simp: split_inv_def)
  show ?case
  proof (cases "l \<le> r")
    case False
    then have "l = r + 1" using range by simp
    then have "split_loop cmp left right pivot s = Some (r + 1, r, pivot, s)"
      using lr(1,2) by (subst split_loop.simps) simp
    with lr(3) \<open>l = r + 1\<close> show ?thesis
      by (intro exI [of _ r] exI [of _ pivot] exI [of _ s]) (simp add: rearranged_refl same_rest_def)
  next
    case True
    then obtain t where t: "qsort_swap s l r = Some t" "rearranged lo hi s t" "same_rest s t"
        "split_inv cmp p lo hi (l + 1) (r - 1) (if pivot = r then l else pivot) t"
      using split_inv_swapped [OF lr(3) assms(2) True] lr(5,6,7) by auto
    have run: "split_loop cmp left right pivot s =
        split_loop cmp (l + 1) (r - 1) (if pivot = r then l else pivot) t"
      using lr(1,2) t(1) True range ssize_ok [of "l + 1" s] ssize_ok [of "r - 1" s]
      by (subst split_loop.simps) simp
    have "nat (r - 1 + 1 - (l + 1)) < nat (right + 1 - left)" using True lr(4,5) by simp
    from less.hyps [OF this t(4)] obtain r' q u where
      "split_loop cmp (l + 1) (r - 1) (if pivot = r then l else pivot) t = Some (r' + 1, r', q, u)"
      "split_inv cmp p lo hi (r' + 1) r' q u" "rearranged lo hi t u" "same_rest t u"
      by blast
    with run t(2,3) show ?thesis
      by (intro exI [of _ r'] exI [of _ q] exI [of _ u])
        (simp add: rearranged_trans [of lo hi s t u] same_rest_trans [of s t u])
  qed
qed

text \<open>The pivot stands where it belongs.\<close>

definition split_at :: "('a \<Rightarrow> 'a \<Rightarrow> int) \<Rightarrow> int \<Rightarrow> int \<Rightarrow> int \<Rightarrow> 'a sort_state \<Rightarrow> bool" where
  "split_at cmp lo hi m t \<longleftrightarrow> lo \<le> m \<and> m \<le> hi \<and>
    (\<forall>k. lo \<le> k \<and> k < m \<longrightarrow> cmp (elem t k) (elem t m) \<le> 0) \<and>
    (\<forall>k. m < k \<and> k \<le> hi \<longrightarrow> cmp (elem t k) (elem t m) > 0)"

lemma place_pivot:
  assumes inv: "split_inv cmp p lo hi (r + 1) r q s"
  obtains t where "array_get s r = Some (elem s r)" "(do { u \<leftarrow> array_set s q (elem s r); v \<leftarrow> pivot_tmp u; array_set u r v }) = Some t"
    "split_at cmp lo hi r t" "rearranged lo hi s t" "same_rest s t"
proof -
  note i = inv [unfolded split_inv_def]
  let ?t = "s\<lparr>array := (array s)[nat q := elem s r, nat r := elem s q]\<rparr>"
  have r: "0 \<le> r" "r < size_of s" "0 \<le> q" "q < size_of s" using i by auto
  have run: "array_get s r = Some (elem s r)"
      "(do { u \<leftarrow> array_set s q (elem s r); v \<leftarrow> pivot_tmp u; array_set u r v }) = Some ?t"
    using r i by (simp_all add: array_get_def array_set_def in_array_def)
  note ex = rearranged_exchange [of lo q hi r s ?t]
  have re: "rearranged lo hi s ?t"
    and at: "\<forall>k \<ge> 0. elem ?t k = (if k = q then elem s r else if k = r then elem s q else elem s k)"
    using ex i by auto
  have below: "cmp (elem s k) p \<le> 0" if "lo \<le> k" "k \<le> r" for k using that i by simp
  have "split_at cmp lo hi r ?t"
    unfolding split_at_def
  proof (intro conjI allI impI)
    have p: "elem ?t r = p" using at r i by auto
    show "cmp (elem ?t k) (elem ?t r) \<le> 0" if k: "lo \<le> k \<and> k < r" for k
    proof -
      have "elem ?t k = (if k = q then elem s r else elem s k)" using at k i by auto
      then show ?thesis using below [of k] below [of r] k i p by (auto split: if_splits)
    qed
    show "cmp (elem ?t k) (elem ?t r) > 0" if k: "r < k \<and> k \<le> hi" for k
    proof -
      have "elem ?t k = elem s k" using at k i by auto
      then show ?thesis using k i p by simp
    qed
  qed (use i in auto)
  then show ?thesis using run re by (intro that [of ?t]) (simp_all add: same_rest_def)
qed

lemma split_range_ok:
  assumes "0 \<le> lo" "lo < hi" "hi < size_of s" "size_of s < 2 ^ 31" "\<forall>x. cmp x x \<le> 0"
  shows "\<exists>m t. split_range cmp lo hi s = Some (m + 1, m - 1, t) \<and> split_at cmp lo hi m t \<and>
    rearranged lo hi s t \<and> same_rest s t"
proof -
  obtain m s1 where s1: "choose_pivot cmp lo hi s = Some (m, s1)" "lo \<le> m" "m \<le> hi" "rearranged lo hi s s1"
      "same_rest s s1" "pivot_tmp s1 = Some (elem s1 m)"
    using choose_pivot_ok [OF assms(1-4), of cmp] by blast
  have "split_inv cmp (elem s1 m) lo hi lo hi m s1"
    using s1 assms rearranged_length [OF s1(4)] by (simp add: split_inv_def)
  from split_loop_ok [OF this] assms(5) obtain r q s2 where s2:
      "split_loop cmp lo hi m s1 = Some (r + 1, r, q, s2)" "split_inv cmp (elem s1 m) lo hi (r + 1) r q s2"
      "rearranged lo hi s1 s2" "same_rest s1 s2"
    by blast
  obtain t where t: "array_get s2 r = Some (elem s2 r)"
      "(do { u \<leftarrow> array_set s2 q (elem s2 r); v \<leftarrow> pivot_tmp u; array_set u r v }) = Some t"
      "split_at cmp lo hi r t" "rearranged lo hi s2 t" "same_rest s2 t"
    by (rule place_pivot [OF s2(2)])
  have "ssize (r - 1) = Some (r - 1)" using s2(2) by (simp add: split_inv_def ssize_def)
  then have "split_range cmp lo hi s = Some (r + 1, r - 1, t)"
    using s1(1) s2(1) t(1,2) by (auto simp: split_range_def split: Option.bind_splits)
  moreover have "rearranged lo hi s t" by (rule rearranged_trans [OF rearranged_trans [OF s1(4) s2(3)] t(4)])
  moreover have "same_rest s t" by (rule same_rest_trans [OF same_rest_trans [OF s1(5) s2(4)] t(5)])
  ultimately show ?thesis using t(3) by blast
qed

section \<open>The recursion\<close>

definition in_order :: "('a \<Rightarrow> 'a \<Rightarrow> int) \<Rightarrow> int \<Rightarrow> int \<Rightarrow> 'a sort_state \<Rightarrow> bool" where
  "in_order cmp lo hi s \<longleftrightarrow> (\<forall>i j. lo \<le> i \<and> i < j \<and> j \<le> hi \<longrightarrow> cmp (elem s i) (elem s j) \<le> 0)"

lemma in_order_outside:
  assumes "in_order cmp a b s" "rearranged c d s t" "b < c \<or> d < a" "0 \<le> a" "b < size_of s"
  shows "in_order cmp a b t"
proof -
  have "elem t k = elem s k" if "a \<le> k" "k \<le> b" for k
    using rearranged_outside [OF assms(2), of k] that assms(3-5) by auto
  then show ?thesis using assms(1) by (simp add: in_order_def)
qed

lemma split_at_rearranged:
  assumes "split_at cmp lo hi m s" "rearranged lo (m - 1) s t \<or> rearranged (m + 1) hi s t"
    "0 \<le> lo" "hi < size_of s"
  shows "split_at cmp lo hi m t"
proof -
  note m = assms(1) [unfolded split_at_def]
  have pivot: "elem t m = elem s m"
    using assms(2) rearranged_outside [of _ _ s t m] m assms(3,4) by auto
  have "cmp (elem t k) (elem s m) \<le> 0" if k: "lo \<le> k" "k < m" for k
    using assms(2)
  proof
    assume "rearranged lo (m - 1) s t"
    from rearranged_all [OF this, of "\<lambda>x. cmp x (elem s m) \<le> 0" k] show ?thesis using m k by simp
  next
    assume "rearranged (m + 1) hi s t"
    from rearranged_outside [OF this, of k] show ?thesis using m k assms(3,4) by simp
  qed
  moreover have "cmp (elem t k) (elem s m) > 0" if k: "m < k" "k \<le> hi" for k
    using assms(2)
  proof
    assume "rearranged (m + 1) hi s t"
    from rearranged_all [OF this, of "\<lambda>x. cmp x (elem s m) > 0" k] show ?thesis using m k by simp
  next
    assume "rearranged lo (m - 1) s t"
    from rearranged_outside [OF this, of k] show ?thesis using m k assms(3,4) by simp
  qed
  ultimately show ?thesis using m pivot by (simp add: split_at_def)
qed

lemma in_order_join:
  assumes "split_at cmp lo hi m t" "in_order cmp lo (m - 1) t" "in_order cmp (m + 1) hi t" "consistent cmp"
  shows "in_order cmp lo hi t"
  unfolding in_order_def
proof (intro allI impI)
  fix i j assume ij: "lo \<le> i \<and> i < j \<and> j \<le> hi"
  note m = assms(1) [unfolded split_at_def]
  note cmp = consistent_refl [OF assms(4)] consistent_total [OF assms(4)] consistent_trans [OF assms(4)]
  have left: "cmp (elem t i) (elem t m) \<le> 0" if "i \<le> m"
    using that m ij cmp(1) by (cases "i = m") auto
  have right: "cmp (elem t m) (elem t j) \<le> 0" if "m \<le> j"
    using that m ij cmp(1,2) by (cases "j = m") auto
  consider "j < m" | "m < i" | "i \<le> m" "m \<le> j" by linarith
  then show "cmp (elem t i) (elem t j) \<le> 0"
  proof cases
    case 1
    then show ?thesis using assms(2) ij by (simp add: in_order_def)
  next
    case 2
    then show ?thesis using assms(3) ij by (simp add: in_order_def)
  next
    case 3
    then show ?thesis using left right cmp(3) by blast
  qed
qed

text \<open>What a call of \<open>qsort_rec\<close> does, with at most \<open>d\<close> further calls active at once.\<close>

definition sorts_range :: "('a \<Rightarrow> 'a \<Rightarrow> int) \<Rightarrow> int \<Rightarrow> int \<Rightarrow> nat \<Rightarrow> 'a sort_state \<Rightarrow> 'a sort_state \<Rightarrow> bool" where
  "sorts_range cmp lo hi d s t \<longleftrightarrow> rearranged lo hi s t \<and> depth t = depth s \<and>
    deepest t \<le> max (deepest s) (depth s + d) \<and> (consistent cmp \<longrightarrow> in_order cmp lo hi t)"

lemma sorts_range_parts:
  assumes split: "split_at cmp lo hi m s" and range: "0 \<le> lo" "hi < size_of s" "0 < d"
    and first: "sorts_range cmp a b (d - 1) (enter_call s) t" and second: "sorts_range cmp a' b' d (leave_call t) u"
    and parts: "(a, b, a', b') = (lo, m - 1, m + 1, hi) \<or> (a, b, a', b') = (m + 1, hi, lo, m - 1)"
  shows "sorts_range cmp lo hi d s u"
proof -
  note m = split [unfolded split_at_def]
  have r1: "rearranged a b s t" and r2: "rearranged a' b' t u"
    using first second by (simp_all add: sorts_range_def enter_call_def leave_call_def rearranged_def)
  have n: "size_of t = size_of s" "size_of u = size_of s"
    using rearranged_length [OF r1] rearranged_length [OF r2] by simp_all
  have bounds: "lo \<le> a" "b \<le> hi" "lo \<le> a'" "b' \<le> hi" "b < a' \<or> b' < a" using parts m by auto
  have su: "rearranged lo hi s u"
    using rearranged_trans [OF rearranged_mono [OF r1] rearranged_mono [OF r2]] bounds range n by simp
  have "split_at cmp lo hi m t"
    using split_at_rearranged [OF split, of t] r1 parts range by auto
  then have "split_at cmp lo hi m u"
    using split_at_rearranged [of cmp lo hi m t u] r2 parts range n by auto
  moreover have "in_order cmp a b u \<and> in_order cmp a' b' u" if "consistent cmp"
  proof
    have "in_order cmp a b t" using first that by (simp add: sorts_range_def)
    then show "in_order cmp a b u" using in_order_outside [OF _ r2] bounds range n by simp
    show "in_order cmp a' b' u" using second that by (simp add: sorts_range_def)
  qed
  ultimately have "consistent cmp \<longrightarrow> in_order cmp lo hi u"
    using in_order_join [of cmp lo hi m u] parts by auto
  moreover have "depth u = depth s" "deepest u \<le> max (deepest s) (depth s + d)"
    using first second range(3) by (auto simp: sorts_range_def enter_call_def leave_call_def)
  ultimately show ?thesis using su by (simp add: sorts_range_def)
qed

lemma sorts_range_small: "hi \<le> lo \<Longrightarrow> sorts_range cmp lo hi d s s"
  by (auto simp: sorts_range_def in_order_def rearranged_refl)

lemma qsort_rec_ok:
  assumes "0 \<le> lo" "lo \<le> hi + 1" "hi < size_of s" "size_of s < 2 ^ 31" "\<forall>x. cmp x x \<le> 0"
    "hi - lo + 2 \<le> 2 ^ (d + 1)"
  shows "\<exists>t. qsort_rec cmp lo hi s = Some t \<and> sorts_range cmp lo hi d s t"
  using assms
proof (induction "nat (hi + 1 - lo)" arbitrary: lo hi s d rule: less_induct)
  case less
  note refl = less.prems(5)
  show ?case
  proof (cases "lo < hi")
    case False
    then show ?thesis by (subst qsort_rec.simps) (simp add: sorts_range_small)
  next
    case True
    obtain m s1 where m: "split_range cmp lo hi s = Some (m + 1, m - 1, s1)" "split_at cmp lo hi m s1"
        "rearranged lo hi s s1" "same_rest s s1"
      using split_range_ok [of lo hi s cmp] less.prems True by blast
    have lm: "lo \<le> m" "m \<le> hi" using m(2) by (simp_all add: split_at_def)
    have n1: "size_of s1 = size_of s" using rearranged_length [OF m(3)] by simp
    have d: "0 < d" using less.prems(6) True by (cases d) auto
    then have pow: "(2 :: int) ^ (d + 1) = 2 * 2 ^ (d - 1 + 1)" by simp
    have part: "\<exists>t. qsort_rec cmp a b u = Some t \<and> sorts_range cmp a b d' u t"
      if "(a, b) = (lo, m - 1) \<or> (a, b) = (m + 1, hi)" "size_of u = size_of s" "b - a + 2 \<le> 2 ^ (d' + 1)" for a b u d'
      using less.hyps [of b a u d'] that less.prems lm by auto
    have index: "ssize (m - 1 - lo) = Some (m - 1 - lo)" "ssize (hi - (m + 1)) = Some (hi - (m + 1))"
      using lm less.prems by (simp_all add: ssize_def)
    have both: "\<exists>t u. qsort_rec cmp a b (enter_call s1) = Some t \<and> qsort_rec cmp a' b' (leave_call t) = Some u \<and>
        sorts_range cmp lo hi d s1 u"
      if ab: "(a, b, a', b') = (lo, m - 1, m + 1, hi) \<or> (a, b, a', b') = (m + 1, hi, lo, m - 1)" "b - a \<le> b' - a'"
      for a b a' b'
    proof -
      have "b - a + 2 \<le> 2 ^ (d - 1 + 1)" "b' - a' + 2 \<le> 2 ^ (d + 1)"
        using ab less.prems(6) pow lm by auto
      moreover obtain t where t: "qsort_rec cmp a b (enter_call s1) = Some t" "sorts_range cmp a b (d - 1) (enter_call s1) t"
        using part [of a b "enter_call s1" "d - 1"] ab(1) calculation(1) n1 by (auto simp: enter_call_def)
      moreover have "size_of (leave_call t) = size_of s"
        using t(2) n1 rearranged_length [of a b "enter_call s1" t] by (simp add: sorts_range_def enter_call_def leave_call_def)
      ultimately obtain u where u: "qsort_rec cmp a' b' (leave_call t) = Some u" "sorts_range cmp a' b' d (leave_call t) u"
        using part [of a' b' "leave_call t" d] ab(1) by auto
      from sorts_range_parts [OF m(2) less.prems(1) _ d t(2) u(2) ab(1)] t(1) u(1) less.prems(3) n1
      show ?thesis by auto
    qed
    have "\<exists>u. qsort_rec cmp lo hi s = Some u \<and> sorts_range cmp lo hi d s1 u"
    proof (cases "m - 1 - lo < hi - (m + 1)")
      case True
      then obtain t u where "qsort_rec cmp lo (m - 1) (enter_call s1) = Some t"
          "qsort_rec cmp (m + 1) hi (leave_call t) = Some u" "sorts_range cmp lo hi d s1 u"
        using both [of lo "m - 1" "m + 1" hi] by auto
      then show ?thesis using \<open>lo < hi\<close> True m(1) index by (subst qsort_rec.simps) simp
    next
      case False
      then obtain t u where "qsort_rec cmp (m + 1) hi (enter_call s1) = Some t"
          "qsort_rec cmp lo (m - 1) (leave_call t) = Some u" "sorts_range cmp lo hi d s1 u"
        using both [of "m + 1" hi lo "m - 1"] by auto
      then show ?thesis using \<open>lo < hi\<close> False m(1) index by (subst qsort_rec.simps) simp
    qed
    then show ?thesis
      using m(3,4) rearranged_trans [OF m(3)] by (auto simp: sorts_range_def same_rest_def)
  qed
qed

section \<open>Properties\<close>

lemma qsort_ok:
  assumes "\<forall>x. cmp x x \<le> 0" "length xs < 2 ^ 31" "length xs + 1 \<le> 2 ^ (d + 1)"
  shows "\<exists>t. qsort cmp xs (of_nat (length xs)) = Some t \<and>
    sorts_range cmp 0 (int (length xs) - 1) d
      \<lparr>array = xs, pivot_tmp = None, swap_tmp = None, depth = 0, deepest = 0\<rparr> t"
proof -
  have "sint (of_nat (length xs) :: u32) = int (length xs)"
    using sint_small [of "int (length xs)"] assms(2) by simp
  moreover have "int (length xs) + 1 \<le> 2 ^ (d + 1)" using assms(3) by (metis of_nat_1 of_nat_add of_nat_le_iff of_nat_numeral of_nat_power)
  ultimately show ?thesis
    using qsort_rec_ok [of 0 "int (length xs) - 1" "\<lparr>array = xs, pivot_tmp = None, swap_tmp = None, depth = 0, deepest = 0\<rparr>" cmp d]
      assms(1,2) by (simp add: qsort_def ssize_def)
qed

text \<open>
  C22: For every array of less than \<open>2 ^ 31\<close> elements and every comparison that never puts an
  element behind itself, however inconsistent it is otherwise, the sort returns, without an access outside the
  array or an index that overflows, and leaves a permutation of the elements.
\<close>
theorem qsort_returns:
  assumes "\<forall>x. cmp x x \<le> 0" "length xs < 2 ^ 31"
  shows "\<exists>t. qsort cmp xs (of_nat (length xs)) = Some t \<and> mset (array t) = mset xs"
proof -
  have "length xs + 1 \<le> 2 ^ (30 + 1)" using assms(2) by simp
  with qsort_ok [of cmp xs 30] assms show ?thesis by (auto simp: sorts_range_def rearranged_def)
qed

theorem qsort_returns_witness:
  "\<exists>t. qsort (\<lambda>x y. if x = y then 0 else 1) [2, 1, 0 :: int] 3 = Some t \<and> mset (array t) = {#2, 1, 0#}"
  using qsort_returns [of "\<lambda>x y. if x = y then 0 else 1" "[2, 1, 0 :: int]"] by simp

text \<open>
  C23: With a consistent comparison the elements of the result are in order.
\<close>
theorem qsort_sorts:
  assumes "consistent cmp" "length xs < 2 ^ 31"
  shows "\<exists>t. qsort cmp xs (of_nat (length xs)) = Some t \<and> mset (array t) = mset xs \<and>
    sorted_wrt (\<lambda>x y. cmp x y \<le> 0) (array t)"
proof -
  have "length xs + 1 \<le> 2 ^ (30 + 1)" using assms(2) by simp
  with qsort_ok [of cmp xs 30] consistent_refl [OF assms(1)] assms(2)
  obtain t where sorts: "qsort cmp xs (of_nat (length xs)) = Some t" "sorts_range cmp 0 (int (length xs) - 1) 30
      \<lparr>array = xs, pivot_tmp = None, swap_tmp = None, depth = 0, deepest = 0\<rparr> t"
    by blast
  then have t: "qsort cmp xs (of_nat (length xs)) = Some t" "mset (array t) = mset xs"
      "in_order cmp 0 (int (length xs) - 1) t"
    using assms(1) by (simp_all add: sorts_range_def rearranged_def)
  have "cmp (array t ! i) (array t ! j) \<le> 0" if "i < j" "j < length (array t)" for i j
  proof -
    have "0 \<le> int i \<and> int i < int j \<and> int j \<le> int (length xs) - 1"
      using that mset_eq_length [OF t(2)] by simp
    then have "cmp (elem t (int i)) (elem t (int j)) \<le> 0"
      using t(3) unfolding in_order_def by blast
    then show ?thesis by simp
  qed
  with t(1,2) show ?thesis by (auto simp: sorted_wrt_iff_nth_less)
qed

theorem qsort_sorts_witness:
  "\<exists>t. qsort (\<lambda>x y. x - y) [3, 1, 2, 1 :: int] 4 = Some t \<and> mset (array t) = {#1, 1, 2, 3#} \<and>
    sorted_wrt (\<lambda>x y. x - y \<le> 0) (array t)"
proof -
  have "consistent (\<lambda>x y :: int. x - y)" by (auto simp: consistent_def)
  from qsort_sorts [OF this, of "[3, 1, 2, 1]"] show ?thesis by (simp add: add_mset_commute)
qed

text \<open>
  C24: The recursion goes into the smaller part and the loop into the larger one, so its depth is at most
  logarithmic: an array of \<open>n\<close> elements with \<open>n + 1 \<le> 2 ^ (d + 1)\<close> is sorted with at most \<open>d\<close> calls
  of \<open>qsort_rec\<close> inside the first one, at most 30 for any array.
\<close>
theorem qsort_depth:
  assumes "\<forall>x. cmp x x \<le> 0" "length xs < 2 ^ 31" "length xs + 1 \<le> 2 ^ (d + 1)"
  shows "\<exists>t. qsort cmp xs (of_nat (length xs)) = Some t \<and> deepest t \<le> d"
  using qsort_ok [of cmp xs d] assms by (auto simp: sorts_range_def)

theorem qsort_depth_witness:
  "\<exists>t. qsort (\<lambda>x y. x - y) [3, 1, 2 :: int] 3 = Some t \<and> deepest t \<le> 1"
  using qsort_depth [of "\<lambda>x y. x - y" "[3, 1, 2 :: int]" 1] by simp

text \<open>
  The condition on the comparison is needed: when it puts every element behind every other, the scan from
  the right passes the pivot, and the pivot is exchanged with the element before the array.
\<close>

lemma qsort_leaves_array: "qsort (\<lambda>x y. 1) [a, b] 2 = None"
proof -
  let ?s = "\<lparr>array = [a, b], pivot_tmp = Some a, swap_tmp = None, depth = 0, deepest = 0\<rparr>"
  have "scan_left (\<lambda>x y. 1) ?s 0 1 = Some 0"
    by (subst scan_left.simps) (simp add: array_get_def in_array_def)
  moreover have "scan_right (\<lambda>x y. 1) ?s 0 1 = Some (- 1)"
    by (subst scan_right.simps, simp add: array_get_def in_array_def ssize_def)+
  ultimately have "split_loop (\<lambda>x y. 1) 0 1 0 ?s = Some (0, - 1, 0, ?s)"
    by (subst split_loop.simps) simp
  then have "split_range (\<lambda>x y. 1) 0 1 \<lparr>array = [a, b], pivot_tmp = None, swap_tmp = None, depth = 0, deepest = 0\<rparr> = None"
    by (simp add: split_range_def choose_pivot_def order_pair_def array_get_def in_array_def ssize_def)
  then show ?thesis by (simp add: qsort_def ssize_def qsort_rec.simps)
qed

end
