(* ===== verification/ArrayList.thy ===== *)
theory ArrayList
  imports Prelude
begin

text \<open>
  \<open>mono/sgen/sgen-array-list.h\<close>: an array of pointers in buckets that are never moved. Indices are
  words of 32 bits. \<open>None\<close> is undefined behaviour: \<open>__builtin_clz\<close> of zero, a shift by the width
  of the type or more, a pointer into a bucket that is not allocated or too short, and a failed assertion.
  A slot is the number of its bucket and its offset in it.
\<close>

definition SGEN_ARRAY_LIST_BUCKETS :: nat where
  "SGEN_ARRAY_LIST_BUCKETS = 32"

definition SGEN_ARRAY_LIST_MIN_BUCKET_BITS :: u32 where
  "SGEN_ARRAY_LIST_MIN_BUCKET_BITS = 5"

definition SGEN_ARRAY_LIST_MIN_BUCKET_SIZE :: u32 where
  "SGEN_ARRAY_LIST_MIN_BUCKET_SIZE = push_bit (unat SGEN_ARRAY_LIST_MIN_BUCKET_BITS) 1"

text \<open>A bucket is a pointer, \<open>None\<close> for null, to an array of pointers.\<close>

record SgenArrayList =
  entries :: "u32 list option list"
  capacity :: u32
  slot_hint :: u32
  next_slot :: u32

definition SGEN_ARRAY_LIST_INIT :: SgenArrayList where
  "SGEN_ARRAY_LIST_INIT =
    \<lparr>entries = replicate SGEN_ARRAY_LIST_BUCKETS None, capacity = 0, slot_hint = 0, next_slot = 0\<rparr>"

section \<open>Counting leading zeros\<close>

text \<open>The builtin of the compiler: the zero bits above the highest bit that is set.\<close>

definition builtin_clz :: "u32 \<Rightarrow> u32 option" where
  "builtin_clz x =
    (if x = 0 then None else Some (of_nat (length (takeWhile (\<lambda>i. \<not> bit x i) (rev [0..<32])))))"

definition sgen_clz :: "u32 \<Rightarrow> u32 option" where
  "sgen_clz x = builtin_clz x"

text \<open>The definition for other compilers.\<close>

function clz_loop :: "u32 \<Rightarrow> u32 \<Rightarrow> u32" where
  "clz_loop x count = (if x \<noteq> 0 then clz_loop (drop_bit 1 x) (count + 1) else 32 - count)"
  by auto
termination
proof (relation "measure (unat \<circ> fst)")
  fix x :: u32
  assume "x \<noteq> 0"
  then have "unat x div 2 < unat x" by (simp add: unat_gt_0)
  then show "((drop_bit 1 x, count + 1), (x, count)) \<in> measure (unat \<circ> fst)" for count :: u32
    by (simp add: drop_bit_eq_div unat_div)
qed simp

declare clz_loop.simps [simp del]

definition sgen_clz_portable :: "u32 \<Rightarrow> u32" where
  "sgen_clz_portable x = clz_loop x 0"

section \<open>Buckets and offsets\<close>

definition sgen_array_list_index_bucket :: "u32 \<Rightarrow> u32 option" where
  "sgen_array_list_index_bucket index = do {
     zeros \<leftarrow> sgen_clz (index + SGEN_ARRAY_LIST_MIN_BUCKET_SIZE);
     Some (8 * 4 - zeros - 1 - SGEN_ARRAY_LIST_MIN_BUCKET_BITS) }"

text \<open>\<open>1 << n\<close>, with the sign bit as the compiler sets it.\<close>

definition shift_one :: "u32 \<Rightarrow> u32 option" where
  "shift_one n = (if n < 32 then Some (push_bit (unat n) 1) else None)"

definition sgen_array_list_bucket_size :: "u32 \<Rightarrow> u32 option" where
  "sgen_array_list_bucket_size index = shift_one (index + SGEN_ARRAY_LIST_MIN_BUCKET_BITS)"

definition sgen_array_list_bucketize :: "u32 \<Rightarrow> (u32 \<times> u32) option" where
  "sgen_array_list_bucketize index = do {
     bucket \<leftarrow> sgen_array_list_index_bucket index;
     slots \<leftarrow> sgen_array_list_bucket_size bucket;
     Some (bucket, index - slots + SGEN_ARRAY_LIST_MIN_BUCKET_SIZE) }"

text \<open>\<open>&(array->entries [bucket] [offset])\<close>\<close>

definition slot_of :: "SgenArrayList \<Rightarrow> u32 \<Rightarrow> u32 \<Rightarrow> (u32 \<times> u32) option" where
  "slot_of array bucket offset =
    (if unat bucket < length (entries array) then do {
       b \<leftarrow> entries array ! unat bucket;
       if unat offset < length b then Some (bucket, offset) else None }
     else None)"

definition sgen_array_list_get_slot :: "SgenArrayList \<Rightarrow> u32 \<Rightarrow> (u32 \<times> u32) option" where
  "sgen_array_list_get_slot array index =
    (if index < capacity array then do {
       (bucket, offset) \<leftarrow> sgen_array_list_bucketize index;
       slot_of array bucket offset }
     else None)"

section \<open>Iteration\<close>

text \<open>The slots the body of the loop sees, and the index behind them; \<open>break\<close> leaves the inner loop only.\<close>

function foreach_offset ::
  "SgenArrayList \<Rightarrow> u32 \<Rightarrow> u32 \<Rightarrow> u32 \<Rightarrow> u32 \<Rightarrow> u32 \<Rightarrow> ((u32 \<times> u32) list \<times> u32) option" where
  "foreach_offset array bucket slots last_index offset index =
    (if offset < slots then
       if index \<ge> last_index then Some ([], index)
       else do {
         slot \<leftarrow> slot_of array bucket offset;
         (visited, index) \<leftarrow> foreach_offset array bucket slots last_index (offset + 1) (index + 1);
         Some (slot # visited, index) }
     else Some ([], index))"
  by pat_completeness auto
termination
  by (relation "measure (\<lambda>(array, bucket, slots, last_index, offset, index). unat slots - unat offset)") (auto simp: word_count_up)

declare foreach_offset.simps [simp del]

function foreach_bucket ::
  "SgenArrayList \<Rightarrow> u32 \<Rightarrow> u32 \<Rightarrow> u32 \<Rightarrow> u32 \<Rightarrow> (u32 \<times> u32) list option" where
  "foreach_bucket array max_bucket last_index bucket index =
    (if bucket < max_bucket then do {
       slots \<leftarrow> sgen_array_list_bucket_size bucket;
       (visited, index) \<leftarrow> foreach_offset array bucket slots last_index 0 index;
       rest \<leftarrow> foreach_bucket array max_bucket last_index (bucket + 1) index;
       Some (visited @ rest) }
     else Some [])"
  by pat_completeness auto
termination
  by (relation "measure (\<lambda>(array, max_bucket, last_index, bucket, index). unat max_bucket - unat bucket)") (auto simp: word_count_up)

declare foreach_bucket.simps [simp del]

definition SGEN_ARRAY_LIST_FOREACH_SLOT :: "SgenArrayList \<Rightarrow> (u32 \<times> u32) list option" where
  "SGEN_ARRAY_LIST_FOREACH_SLOT array = do {
     max_bucket \<leftarrow> sgen_array_list_index_bucket (capacity array);
     foreach_bucket array max_bucket (next_slot array) 0 0 }"

function SGEN_ARRAY_LIST_FOREACH_SLOT_RANGE :: "SgenArrayList \<Rightarrow> u32 \<Rightarrow> u32 \<Rightarrow> (u32 \<times> u32) list option" where
  "SGEN_ARRAY_LIST_FOREACH_SLOT_RANGE array index last_index =
    (if index < last_index then do {
       (bucket, offset) \<leftarrow> sgen_array_list_bucketize index;
       slot \<leftarrow> slot_of array bucket offset;
       rest \<leftarrow> SGEN_ARRAY_LIST_FOREACH_SLOT_RANGE array (index + 1) last_index;
       Some (slot # rest) }
     else Some [])"
  by pat_completeness auto
termination
  by (relation "measure (\<lambda>(array, index, last_index). unat last_index - unat index)") (auto simp: word_count_up)

declare SGEN_ARRAY_LIST_FOREACH_SLOT_RANGE.simps [simp del]

end
