(* ===== verification/ArrayListProps.thy ===== *)
theory ArrayListProps
  imports ArrayList
begin

text \<open>
  The array of buckets: the number of leading zeros, the correspondence between indices and slots, the
  two iterations, and the indices that no bucket can hold.
\<close>

section \<open>The highest bit of a word\<close>

text \<open>The exponent of the highest bit is determined by the size of the number.\<close>

lemma highest_bit_unique: "\<lbrakk>2 ^ k \<le> (m :: nat); m < 2 ^ (k + 1); 2 ^ l \<le> m; m < 2 ^ (l + 1)\<rbrakk> \<Longrightarrow> k = l"
  by (metis Suc_eq_plus1 le_less_trans less_Suc_eq_le linorder_neqE_nat not_less power_strict_increasing_iff
      one_less_numeral_iff semiring_norm(76))

lemma highest_bit_exists:
  assumes "(x :: u32) \<noteq> 0"
  obtains k where "k < 32" "bit x k" "\<forall>j > k. \<not> bit x j" "2 ^ k \<le> unat x" "unat x < 2 ^ (k + 1)"
proof -
  let ?S = "{j. bit x j}"
  have "?S \<subseteq> {..<32}" using bit_imp_le_length [of x] by auto
  then have fin: "finite ?S" by (rule finite_subset) simp
  moreover have "?S \<noteq> {}" using assms by (auto simp: bit_eq_iff)
  ultimately have top: "bit x (Max ?S)" using Max_in [of ?S] by simp
  have above: "\<forall>j > Max ?S. \<not> bit x j" using Max_ge [OF fin] by (metis linorder_not_less mem_Collect_eq)
  have "Max ?S < 32" using bit_imp_le_length [OF top] by simp
  moreover have "2 ^ Max ?S \<le> unat x"
    by (rule bit_unat_exp) (rule top)
  moreover have "unat x < 2 ^ (Max ?S + 1)"
  proof (rule bit_below_exp)
    fix j assume "Max ?S + 1 \<le> j"
    then have "Max ?S < j" by linarith
    then have "\<not> bit x j" by (rule above [rule_format])
    then show "\<not> bit (unat x) j" unfolding bit_unsigned_iff by simp
  qed
  ultimately show ?thesis by (intro that [of "Max ?S"] top above)
qed

lemma builtin_clz_highest:
  assumes "2 ^ k \<le> unat x" "unat x < 2 ^ (k + 1)"
  shows "k < 32 \<and> builtin_clz x = Some (of_nat (31 - k))"
proof -
  have "x \<noteq> 0" using assms(1) by (metis not_le unsigned_0 zero_less_numeral zero_less_power)
  then obtain l where l: "l < 32" "bit x l" "\<forall>j > l. \<not> bit x j" "2 ^ l \<le> unat x" "unat x < 2 ^ (l + 1)"
    by (rule highest_bit_exists)
  have "k = l" by (rule highest_bit_unique [OF assms l(4,5)])
  have "[0..<32] = [0..<l] @ l # [Suc l..<32]"
    using l(1) upt_add_eq_append [of 0 l "32 - l"] by (simp add: upt_conv_Cons)
  then have split: "rev [0..<32] = rev [Suc l..<32] @ l # rev [0..<l]" by simp
  have "takeWhile (\<lambda>i. \<not> bit x i) (rev [Suc l..<32] @ l # rev [0..<l]) =
      rev [Suc l..<32] @ takeWhile (\<lambda>i. \<not> bit x i) (l # rev [0..<l])"
    by (rule takeWhile_append2) (use l(3) in auto)
  then have "takeWhile (\<lambda>i. \<not> bit x i) (rev [0..<32]) = rev [Suc l..<32]"
    unfolding split using l(2) by simp
  with \<open>x \<noteq> 0\<close> l(1) \<open>k = l\<close> show ?thesis by (simp add: builtin_clz_def)
qed

lemma clz_loop_highest:
  assumes "2 ^ k \<le> unat x" "unat x < 2 ^ (k + 1)"
  shows "clz_loop x c = 32 - (c + of_nat k + 1)"
  using assms
proof (induction k arbitrary: x c)
  case 0
  then have "x = 1" by (simp add: word_unat_eq_iff)
  then show ?case by (simp add: clz_loop.simps)
next
  case (Suc k)
  have "x \<noteq> 0" using Suc.prems(1) by (metis not_le unsigned_0 zero_less_numeral zero_less_power)
  have "unat (drop_bit 1 x) = unat x div 2" by (simp add: drop_bit_eq_div unat_div)
  with Suc.prems have "2 ^ k \<le> unat (drop_bit 1 x)" "unat (drop_bit 1 x) < 2 ^ (k + 1)" by auto
  from Suc.IH [OF this, of "c + 1"] \<open>x \<noteq> 0\<close> show ?case by (subst clz_loop.simps) (simp add: algebra_simps)
qed

text \<open>
  The three definitions of \<open>sgen_clz\<close> agree where the first is defined: the loop that is
  compiled where no builtin exists answers the number of leading zeros, and 32 for zero.
\<close>
lemma clz_definitions_agree:
  "sgen_clz x = (if x = 0 then None else Some (sgen_clz_portable x)) \<and> sgen_clz_portable 0 = 32"
proof
  show "sgen_clz_portable 0 = 32" by (simp add: sgen_clz_portable_def clz_loop.simps)
  show "sgen_clz x = (if x = 0 then None else Some (sgen_clz_portable x))"
  proof (cases "x = 0")
    case True
    then show ?thesis by (simp add: sgen_clz_def builtin_clz_def)
  next
    case False
    then obtain k where k: "2 ^ k \<le> unat x" "unat x < 2 ^ (k + 1)" by (rule highest_bit_exists)
    from builtin_clz_highest [OF k] clz_loop_highest [OF k] False show ?thesis
      by (simp add: sgen_clz_def sgen_clz_portable_def of_nat_diff)
  qed
qed

section \<open>Indices and slots\<close>

lemma min_bucket_size [simp]: "SGEN_ARRAY_LIST_MIN_BUCKET_SIZE = 32"
  by (simp add: SGEN_ARRAY_LIST_MIN_BUCKET_SIZE_def SGEN_ARRAY_LIST_MIN_BUCKET_BITS_def)

lemma index_bucket_value:
  assumes "2 ^ (b + 5) \<le> unat (i + 32)" "unat (i + 32) < 2 ^ (b + 6)"
  shows "b \<le> 26 \<and> sgen_array_list_index_bucket i = Some (of_nat b)"
proof -
  have "b + 5 < 32 \<and> builtin_clz (i + 32) = Some (of_nat (31 - (b + 5)))"
    by (rule builtin_clz_highest) (use assms in \<open>simp_all add: add.commute\<close>)
  then show ?thesis
    by (simp add: sgen_array_list_index_bucket_def sgen_clz_def
        SGEN_ARRAY_LIST_MIN_BUCKET_BITS_def of_nat_diff)
qed

lemma bucket_size_value:
  assumes "b \<le> 26"
  shows "sgen_array_list_bucket_size (of_nat b) = Some (2 ^ (b + 5)) \<and> unat (2 ^ (b + 5) :: u32) = 2 ^ (b + 5)"
proof -
  have "of_nat b + 5 = (of_nat (b + 5) :: u32)" by simp
  moreover have "unat (of_nat (b + 5) :: u32) = b + 5"
    by (rule unat_of_nat_u32) (use assms in simp)
  moreover have "(2 :: nat) ^ (b + 5) < 2 ^ 32" by (rule power_strict_increasing) (use assms in simp_all)
  then have "unat (of_nat (2 ^ (b + 5)) :: u32) = 2 ^ (b + 5)" by (intro unat_of_nat_u32) simp
  ultimately show ?thesis using assms
    by (simp add: sgen_array_list_bucket_size_def shift_one_def SGEN_ARRAY_LIST_MIN_BUCKET_BITS_def
        word_less_nat_alt push_bit_eq_mult)
qed

lemma unat_plus_32: "unat i + 32 < 2 ^ 32 \<Longrightarrow> unat (i + 32 :: u32) = unat i + 32"
  using unat_add_lem [of i 32] by simp

text \<open>The number that precedes the first index of a bucket, shifted by the size of the first bucket.\<close>

lemma bucketize_value:
  assumes "unat i + 32 = 2 ^ (b + 5) + off" "off < 2 ^ (b + 5)" "unat i + 32 < 2 ^ 32"
  shows "b \<le> 26 \<and> sgen_array_list_bucketize i = Some (of_nat b, of_nat off)"
proof -
  have "2 ^ (b + 5) \<le> unat (i + 32)" "unat (i + 32) < 2 ^ (b + 6)"
    unfolding unat_plus_32 [OF assms(3)] using assms(1,2) by (simp_all add: power_add)
  then have b: "b \<le> 26" "sgen_array_list_index_bucket i = Some (of_nat b)"
    using index_bucket_value by auto
  have "(of_nat (unat i + 32) :: u32) = of_nat (2 ^ (b + 5) + off)" using assms(1) by (rule arg_cong)
  then have "i - 2 ^ (b + 5) + 32 = of_nat off" by (simp add: algebra_simps)
  with b bucket_size_value [OF b(1)] show ?thesis
    by (simp add: sgen_array_list_bucketize_def
        SGEN_ARRAY_LIST_MIN_BUCKET_BITS_def)
qed

lemma bucket_exists:
  assumes "32 \<le> (m :: nat)" "m < 2 ^ 32"
  obtains b off where "m = 2 ^ (b + 5) + off" "off < 2 ^ (b + 5)"
proof -
  have "(of_nat m :: u32) \<noteq> 0" using unat_of_nat_u32 [OF assms(2)] assms(1) by (metis not_numeral_le_zero unsigned_0)
  then obtain k where k: "2 ^ k \<le> m" "m < 2 ^ (k + 1)"
    by (rule highest_bit_exists) (use unat_of_nat_u32 [OF assms(2)] in auto)
  have "5 \<le> k"
  proof (rule ccontr)
    assume "\<not> 5 \<le> k"
    then have "(2 :: nat) ^ (k + 1) \<le> 2 ^ 5" by (intro power_increasing) simp_all
    with k(2) assms(1) show False by simp
  qed
  with k show ?thesis by (intro that [of "k - 5" "m - 2 ^ k"]) simp_all
qed

lemma bucket_number:
  assumes "unat i < 2 ^ 32 - 32"
  shows "sgen_array_list_bucketize i = Some (bucket, offset) \<longleftrightarrow>
    unat bucket \<le> 26 \<and> unat offset < 2 ^ (unat bucket + 5) \<and>
    unat i = (\<Sum>k < unat bucket. 2 ^ (k + 5)) + unat offset"
proof -
  have sum: "(\<Sum>k < b. 2 ^ (k + 5)) + 32 = (2 :: nat) ^ (b + 5)" for b by (induction b) (simp_all add: power_add)
  have small: "unat i + 32 < 2 ^ 32" using assms by simp
  obtain b off where b: "unat i + 32 = 2 ^ (b + 5) + off" "off < 2 ^ (b + 5)"
    using bucket_exists [of "unat i + 32"] small by auto
  note val = bucketize_value [OF b small]
  have off: "unat (of_nat off :: u32) = off" using b small by (intro unat_of_nat_u32) simp
  have num: "unat (of_nat b :: u32) = b" using val by (intro unat_of_nat_u32) simp
  show ?thesis
  proof
    assume "sgen_array_list_bucketize i = Some (bucket, offset)"
    with val have "bucket = of_nat b" "offset = of_nat off" by simp_all
    with val off num b sum [of b] show "unat bucket \<le> 26 \<and> unat offset < 2 ^ (unat bucket + 5) \<and>
        unat i = (\<Sum>k < unat bucket. 2 ^ (k + 5)) + unat offset" by simp
  next
    assume "unat bucket \<le> 26 \<and> unat offset < 2 ^ (unat bucket + 5) \<and>
      unat i = (\<Sum>k < unat bucket. 2 ^ (k + 5)) + unat offset"
    then have "unat i + 32 = 2 ^ (unat bucket + 5) + unat offset" "unat offset < 2 ^ (unat bucket + 5)"
      using sum [of "unat bucket"] by simp_all
    from bucketize_value [OF this small] show "sgen_array_list_bucketize i = Some (bucket, offset)" by simp
  qed
qed

text \<open>
  \<open>sgen_array_list_bucketize\<close> is the bijection between the indices below \<open>2 ^ 32 - 32\<close> and the
  slots of the first 27 buckets, bucket \<open>b\<close> with \<open>2 ^ (b + 5)\<close> slots, that counts the slots in order.
\<close>
lemma bucketize_bijection:
  assumes "unat i < 2 ^ 32 - 32"
  shows "sgen_array_list_bucketize i = Some (bucket, offset) \<longleftrightarrow>
    unat bucket \<le> 26 \<and> unat offset < 2 ^ (unat bucket + 5) \<and>
    unat i = (\<Sum>k < unat bucket. 2 ^ (k + 5)) + unat offset"
  by (rule bucket_number [OF assms])

lemma bucketize_bijection_witness:
  "sgen_array_list_bucketize 100 = Some (2, 4)"
proof -
  have "(\<Sum>k < 2. 2 ^ (k + 5)) = (96 :: nat)" by (simp add: lessThan_nat_numeral)
  then show ?thesis using bucketize_bijection [of 100 2 4] by simp
qed

text \<open>
  The last 32 indices have no slot: the sum with the size of the first bucket wraps around, so either the
  builtin is undefined or the number of the bucket is negative.
\<close>

lemma last_indices_unreachable:
  assumes "2 ^ 32 - 32 \<le> unat i" "length (entries array) = SGEN_ARRAY_LIST_BUCKETS"
  shows "sgen_array_list_get_slot array i = None"
proof (cases "i + 32 = 0")
  case True
  then show ?thesis
    by (simp add: sgen_array_list_get_slot_def sgen_array_list_bucketize_def sgen_array_list_index_bucket_def
        sgen_clz_def builtin_clz_def SGEN_ARRAY_LIST_MIN_BUCKET_BITS_def)
next
  case False
  have "unat (i + 32) = unat i + 32 - 2 ^ 32"
    using assms(1) unat_u32_less [of i] by (simp add: unat_word_ariths mod_if)
  then have "unat (i + 32) < 32" using unat_u32_less [of i] assms(1) by linarith
  moreover obtain k where k: "k < 32" "2 ^ k \<le> unat (i + 32)" "unat (i + 32) < 2 ^ (k + 1)"
    using False by (rule highest_bit_exists)
  ultimately have "(2 :: nat) ^ k < 2 ^ 5" by simp
  then have "k < 5" by (rule power_less_imp_less_exp [rotated]) simp
  have "sgen_array_list_index_bucket i = Some (of_nat k - 5)"
    using builtin_clz_highest [OF k(2,3)] \<open>k < 5\<close>
    by (simp add: sgen_array_list_index_bucket_def sgen_clz_def
        SGEN_ARRAY_LIST_MIN_BUCKET_BITS_def of_nat_diff add.commute)
  moreover have "k \<in> {0, 1, 2, 3, 4}" using \<open>k < 5\<close> by auto
  then have "length (entries array) \<le> unat (of_nat k - 5 :: u32)"
    using assms(2) by (auto simp: SGEN_ARRAY_LIST_BUCKETS_def unsigned_minus_1_eq_mask mask_eq_exp_minus_1)
  ultimately show ?thesis
    by (auto simp: sgen_array_list_get_slot_def sgen_array_list_bucketize_def slot_of_def split: Option.bind_splits)
qed

section \<open>Iteration\<close>

text \<open>An array with its first \<open>n\<close> buckets, and no slot in use behind them.\<close>

definition grown :: "nat \<Rightarrow> SgenArrayList \<Rightarrow> bool" where
  "grown n array \<longleftrightarrow> n \<le> 26 \<and> length (entries array) = SGEN_ARRAY_LIST_BUCKETS \<and>
    (\<forall>k < n. \<exists>b. entries array ! k = Some b \<and> length b = 2 ^ (k + 5)) \<and>
    unat (capacity array) + 32 = 2 ^ (n + 5) \<and> next_slot array \<le> capacity array"

definition slot_at :: "nat \<Rightarrow> u32 \<times> u32" where
  "slot_at i = the (sgen_array_list_bucketize (of_nat i))"

lemma grown_bounds:
  assumes "grown n array" "b < n"
  shows "b \<le> 26" "2 ^ (b + 6) \<le> unat (capacity array) + 32" "unat (capacity array) + 32 < 2 ^ 32"
    "unat (of_nat b :: u32) = b"
proof -
  have n: "n \<le> 26" "unat (capacity array) + 32 = 2 ^ (n + 5)" using assms(1) by (simp_all add: grown_def)
  show "b \<le> 26" using n assms(2) by simp
  have "(2 :: nat) ^ (b + 6) \<le> 2 ^ (n + 5)" by (rule power_increasing) (use assms(2) in simp_all)
  then show "2 ^ (b + 6) \<le> unat (capacity array) + 32" using n by simp
  have "(2 :: nat) ^ (n + 5) \<le> 2 ^ 31" by (rule power_increasing) (use n in simp_all)
  then show "unat (capacity array) + 32 < 2 ^ 32" using n by simp
  show "unat (of_nat b :: u32) = b" by (rule unat_of_nat_u32) (use n assms(2) in simp)
qed

lemma slot_of_grown:
  assumes "grown n array" "b < n" "unat i + 32 = 2 ^ (b + 5) + off" "off < 2 ^ (b + 5)"
  shows "sgen_array_list_bucketize i = Some (of_nat b, of_nat off)"
    "slot_of array (of_nat b) (of_nat off) = Some (slot_at (unat i))" "i < capacity array"
proof -
  note b = grown_bounds [OF assms(1,2)]
  have i: "unat i + 32 < 2 ^ (b + 6)" using assms(3,4) by (simp add: power_add)
  then show "i < capacity array" using b(2) by (simp add: word_less_nat_alt)
  have "unat i + 32 < 2 ^ 32" using i b(2,3) by linarith
  then show bucketize: "sgen_array_list_bucketize i = Some (of_nat b, of_nat off)"
    using bucketize_value [OF assms(3,4)] by simp
  have "unat (of_nat off :: u32) = off" using assms(3,4) \<open>unat i + 32 < 2 ^ 32\<close> by (intro unat_of_nat_u32) simp
  with bucketize assms b(1,4) show "slot_of array (of_nat b) (of_nat off) = Some (slot_at (unat i))"
    by (auto simp: slot_of_def slot_at_def grown_def SGEN_ARRAY_LIST_BUCKETS_def)
qed

lemma capacity_bucket:
  assumes "grown n array" "i < capacity array"
  obtains b off where "b < n" "unat i + 32 = 2 ^ (b + 5) + off" "off < 2 ^ (b + 5)"
proof -
  have n: "n \<le> 26" "unat i + 32 < 2 ^ (n + 5)"
    using assms by (simp_all add: grown_def word_less_nat_alt)
  have "(2 :: nat) ^ (n + 5) \<le> 2 ^ 31" by (rule power_increasing) (use n in simp_all)
  then obtain b off where b: "unat i + 32 = 2 ^ (b + 5) + off" "off < 2 ^ (b + 5)"
    using bucket_exists [of "unat i + 32"] n(2) by auto
  have "b < n"
  proof (rule ccontr)
    assume "\<not> b < n"
    then have "(2 :: nat) ^ (n + 5) \<le> 2 ^ (b + 5)" by (intro power_increasing) simp_all
    with b n(2) show False by simp
  qed
  with b show ?thesis by (intro that)
qed

lemma range_visits:
  assumes "grown n array" "i \<le> j" "j \<le> capacity array"
  shows "SGEN_ARRAY_LIST_FOREACH_SLOT_RANGE array i j = Some (map slot_at [unat i..<unat j])"
  using assms(2)
proof (induction "unat j - unat i" arbitrary: i)
  case 0
  then show ?case by (subst SGEN_ARRAY_LIST_FOREACH_SLOT_RANGE.simps) (auto simp: word_le_nat_alt word_less_nat_alt)
next
  case (Suc d)
  then have less: "i < j" by (simp add: word_less_nat_alt)
  then have "i < capacity array" using assms(3) by (rule less_le_trans)
  with assms(1) obtain b off where b: "b < n" "unat i + 32 = 2 ^ (b + 5) + off" "off < 2 ^ (b + 5)"
    by (rule capacity_bucket)
  note slot = slot_of_grown [OF assms(1) b]
  have next_i: "unat (i + 1) = unat i + 1" by (rule unat_plus_one [OF less])
  have "SGEN_ARRAY_LIST_FOREACH_SLOT_RANGE array (i + 1) j = Some (map slot_at [unat (i + 1)..<unat j])"
    by (rule Suc.hyps(1)) (use Suc.hyps(2) less next_i in \<open>simp_all add: word_le_nat_alt word_less_nat_alt\<close>)
  moreover have "[unat i..<unat j] = unat i # [unat i + 1..<unat j]"
    using less by (simp add: word_less_nat_alt upt_conv_Cons)
  ultimately show ?case
    using less slot next_i by (subst SGEN_ARRAY_LIST_FOREACH_SLOT_RANGE.simps) simp
qed

lemma foreach_offset_past: "index \<ge> lim \<Longrightarrow> foreach_offset array bucket slots lim offset index = Some ([], index)"
  by (subst foreach_offset.simps) simp

lemma foreach_offset_visits:
  assumes "grown n array" "b < n" "unat index + 32 = 2 ^ (b + 5) + unat offset" "unat offset \<le> 2 ^ (b + 5)"
    "index \<le> lim" "lim \<le> capacity array"
  shows "\<exists>index'. foreach_offset array (of_nat b) (2 ^ (b + 5)) lim offset index =
      Some (map slot_at [unat index..<unat index'], index') \<and>
    unat index' = min (unat lim) (2 ^ (b + 6) - 32)"
  using assms(3-5)
proof (induction "2 ^ (b + 5) - unat offset" arbitrary: offset index)
  case 0
  have size: "unat (2 ^ (b + 5) :: u32) = 2 ^ (b + 5)"
    using bucket_size_value grown_bounds(1) [OF assms(1,2)] by blast
  with 0 have "unat index = 2 ^ (b + 6) - 32" "\<not> offset < 2 ^ (b + 5)"
    by (simp_all add: word_less_nat_alt power_add)
  with 0 show ?case by (subst foreach_offset.simps) (simp add: word_le_nat_alt)
next
  case (Suc d)
  have size: "unat (2 ^ (b + 5) :: u32) = 2 ^ (b + 5)"
    using bucket_size_value grown_bounds(1) [OF assms(1,2)] by blast
  have off: "unat offset < 2 ^ (b + 5)" "offset < 2 ^ (b + 5)"
    using Suc.hyps(2) size by (simp_all add: word_less_nat_alt)
  show ?case
  proof (cases "index = lim")
    case True
    moreover have "unat index < 2 ^ (b + 6) - 32" using Suc.prems(1) off(1) by (simp add: power_add)
    ultimately show ?thesis by (intro exI [of _ lim]) (simp add: foreach_offset_past)
  next
    case False
    with Suc.prems(3) have less: "index < lim" by simp
    note slot = slot_of_grown [OF assms(1,2) Suc.prems(1) off(1)]
    have steps: "unat (index + 1) = unat index + 1" "unat (offset + 1) = unat offset + 1"
      using unat_plus_one less off(2) by blast+
    have rest: "d = 2 ^ (b + 5) - unat (offset + 1)" "unat (index + 1) + 32 = 2 ^ (b + 5) + unat (offset + 1)"
      "unat (offset + 1) \<le> 2 ^ (b + 5)" "index + 1 \<le> lim"
      using Suc.hyps(2) Suc.prems(1) off(1) less steps by (simp_all add: word_le_nat_alt word_less_nat_alt)
    obtain index' where i: "foreach_offset array (of_nat b) (2 ^ (b + 5)) lim (offset + 1) (index + 1) =
          Some (map slot_at [unat (index + 1)..<unat index'], index')"
        "unat index' = min (unat lim) (2 ^ (b + 6) - 32)"
      using Suc.hyps(1) [OF rest] by blast
    have "unat index < unat index'" using i(2) less Suc.prems(1) off(1)
      by (simp add: word_less_nat_alt power_add)
    then have "[unat index..<unat index'] = unat index # [unat index + 1..<unat index']"
      by (simp add: upt_conv_Cons)
    with i slot less off(2) steps show ?thesis
      by (subst foreach_offset.simps) (auto simp: not_le)
  qed
qed

lemma foreach_bucket_visits:
  assumes "grown n array" "lim \<le> capacity array" "b \<le> n"
    "(unat index + 32 = 2 ^ (b + 5) \<and> index \<le> lim) \<or> index = lim \<and> unat lim + 32 \<le> 2 ^ (b + 5)"
  shows "foreach_bucket array (of_nat n) lim (of_nat b) index = Some (map slot_at [unat index..<unat lim])"
  using assms(3,4)
proof (induction "n - b" arbitrary: b index)
  case 0
  then have "b = n" by simp
  with 0 assms(1,2) have "unat lim \<le> unat index"
    by (auto simp: grown_def word_le_nat_alt)
  with \<open>b = n\<close> show ?case by (subst foreach_bucket.simps) simp
next
  case (Suc d)
  then have b: "b < n" by simp
  note bounds = grown_bounds [OF assms(1) b]
  have num: "unat (of_nat n :: u32) = n" by (rule unat_of_nat_u32) (use assms(1) in \<open>simp add: grown_def\<close>)
  have less: "(of_nat b :: u32) < of_nat n" using bounds(4) num b by (simp add: word_less_nat_alt)
  have size: "sgen_array_list_bucket_size (of_nat b) = Some (2 ^ (b + 5))" using bucket_size_value bounds(1) by blast
  have "\<exists>index'. foreach_offset array (of_nat b) (2 ^ (b + 5)) lim 0 index =
      Some (map slot_at [unat index..<unat index'], index') \<and> unat index \<le> unat index' \<and> unat index' \<le> unat lim \<and>
      ((unat index' + 32 = 2 ^ (Suc b + 5) \<and> index' \<le> lim) \<or> index' = lim \<and> unat lim + 32 \<le> 2 ^ (Suc b + 5))"
  proof (cases "index = lim")
    case True
    with Suc.prems(2) show ?thesis by (intro exI [of _ lim]) (auto simp: foreach_offset_past power_add)
  next
    case False
    with Suc.prems(2) have i: "unat index + 32 = 2 ^ (b + 5)" "index \<le> lim" by auto
    obtain index' where o: "foreach_offset array (of_nat b) (2 ^ (b + 5)) lim 0 index =
        Some (map slot_at [unat index..<unat index'], index')" "unat index' = min (unat lim) (2 ^ (b + 6) - 32)"
      using foreach_offset_visits [OF assms(1) b, of index 0 lim] i assms(2) by auto
    have "index' = lim" if "unat lim \<le> 2 ^ (b + 6) - 32" using o(2) that by (simp add: word_unat_eq_iff)
    with o i show ?thesis by (intro exI [of _ index']) (auto simp: word_le_nat_alt min_def power_add)
  qed
  then obtain index' where o: "foreach_offset array (of_nat b) (2 ^ (b + 5)) lim 0 index =
      Some (map slot_at [unat index..<unat index'], index')" "unat index \<le> unat index'" "unat index' \<le> unat lim"
      "(unat index' + 32 = 2 ^ (Suc b + 5) \<and> index' \<le> lim) \<or> index' = lim \<and> unat lim + 32 \<le> 2 ^ (Suc b + 5)"
    by blast
  have "foreach_bucket array (of_nat n) lim (of_nat (Suc b)) index' = Some (map slot_at [unat index'..<unat lim])"
    by (rule Suc.hyps(1)) (use Suc.hyps(2) b o(4) in auto)
  moreover have "[unat index..<unat lim] = [unat index..<unat index'] @ [unat index'..<unat lim]"
    using o(2,3) upt_add_eq_append [of "unat index" "unat index'" "unat lim - unat index'"] by simp
  ultimately show ?case
    using less size o(1) by (subst foreach_bucket.simps) (simp add: add.commute)
qed

lemma slots_in_use:
  assumes "grown n array" "i < unat (next_slot array)"
  shows "unat (of_nat i :: u32) = i" "of_nat i < capacity array"
    "sgen_array_list_bucketize (of_nat i) = Some (slot_at i)"
    "sgen_array_list_get_slot array (of_nat i) = Some (slot_at i)"
proof -
  have le: "next_slot array \<le> capacity array" using assms(1) by (simp add: grown_def)
  show num: "unat (of_nat i :: u32) = i"
    using assms(2) unat_u32_less [of "next_slot array"] by (intro unat_of_nat_u32) simp
  show less: "of_nat i < capacity array"
    using num assms(2) le by (simp add: word_less_nat_alt word_le_nat_alt)
  with assms(1) obtain b off where "b < n" "unat (of_nat i :: u32) + 32 = 2 ^ (b + 5) + off" "off < 2 ^ (b + 5)"
    by (rule capacity_bucket)
  from slot_of_grown [OF assms(1) this] num less show "sgen_array_list_bucketize (of_nat i) = Some (slot_at i)"
      "sgen_array_list_get_slot array (of_nat i) = Some (slot_at i)"
    by (simp_all add: sgen_array_list_get_slot_def slot_at_def)
qed

lemma grown_capacity: "grown n array \<Longrightarrow> unat (capacity array) + 32 < 2 ^ 32"
proof -
  assume g: "grown n array"
  have "(2 :: nat) ^ (n + 5) \<le> 2 ^ 31" by (rule power_increasing) (use g in \<open>simp_all add: grown_def\<close>)
  then show ?thesis using g by (simp add: grown_def)
qed

lemma slot_number:
  assumes "grown n array" "i < unat (next_slot array)"
  shows "(\<Sum>k < unat (fst (slot_at i)). 2 ^ (k + 5)) + unat (snd (slot_at i)) = i"
proof -
  note slot = slots_in_use [OF assms]
  have "unat (of_nat i :: u32) < 2 ^ 32 - 32"
    using slot(1,2) grown_capacity [OF assms(1)] by (simp add: word_less_nat_alt)
  from bucket_number [OF this, of "fst (slot_at i)" "snd (slot_at i)"] slot(1,3) show ?thesis by simp
qed

text \<open>
  C27: The iteration over all slots visits the same slots, in the same order, as the iteration over the
  range of the indices in use and as looking up these indices one by one; no other slot and none twice.
\<close>
theorem iterations_agree:
  assumes "grown n array"
  shows "\<exists>slots. SGEN_ARRAY_LIST_FOREACH_SLOT array = Some slots \<and>
    SGEN_ARRAY_LIST_FOREACH_SLOT_RANGE array 0 (next_slot array) = Some slots \<and>
    map Some slots = map (\<lambda>i. sgen_array_list_get_slot array (of_nat i)) [0..<unat (next_slot array)] \<and> distinct slots"
proof -
  let ?n = "unat (next_slot array)"
  note g = assms [unfolded grown_def]
  have le: "next_slot array \<le> capacity array" using g by simp
  have "unat (capacity array) + 32 < 2 ^ 32" by (rule grown_capacity [OF assms])
  then have "sgen_array_list_index_bucket (capacity array) = Some (of_nat n)"
    using index_bucket_value [of n "capacity array"] g unat_plus_32 [of "capacity array"] by (simp add: power_add)
  moreover have "foreach_bucket array (of_nat n) (next_slot array) (of_nat 0) 0 = Some (map slot_at [unat (0 :: u32)..<?n])"
    by (rule foreach_bucket_visits [OF assms le]) simp_all
  ultimately have all: "SGEN_ARRAY_LIST_FOREACH_SLOT array = Some (map slot_at [0..<?n])"
    by (simp add: SGEN_ARRAY_LIST_FOREACH_SLOT_def)
  have range: "SGEN_ARRAY_LIST_FOREACH_SLOT_RANGE array 0 (next_slot array) = Some (map slot_at [0..<?n])"
    using range_visits [OF assms _ le, of 0] by simp
  note one = slots_in_use [OF assms]
  have "(\<Sum>k < unat (fst (slot_at i)). 2 ^ (k + 5)) + unat (snd (slot_at i)) = i" if "i < ?n" for i
    using slot_number [OF assms that] .
  then have "inj_on slot_at {0..<?n}"
    by (intro inj_on_inverseI [where g = "\<lambda>(b, off). (\<Sum>k < unat b. 2 ^ (k + 5)) + unat off"]) (simp add: case_prod_beta)
  then have "distinct (map slot_at [0..<?n])" by (simp add: distinct_map)
  with all range one(4) show ?thesis by simp
qed

definition demo_list :: SgenArrayList where
  "demo_list = \<lparr>entries = Some (replicate 32 0) # replicate 31 None, capacity = 32, slot_hint = 0, next_slot = 3\<rparr>"

theorem iterations_agree_witness:
  "\<exists>slots. SGEN_ARRAY_LIST_FOREACH_SLOT demo_list = Some slots \<and>
    SGEN_ARRAY_LIST_FOREACH_SLOT_RANGE demo_list 0 3 = Some slots \<and> length slots = 3 \<and> distinct slots"
proof -
  have "grown 1 demo_list" by (simp add: grown_def demo_list_def SGEN_ARRAY_LIST_BUCKETS_def)
  from iterations_agree [OF this] obtain slots where
    "SGEN_ARRAY_LIST_FOREACH_SLOT demo_list = Some slots" "SGEN_ARRAY_LIST_FOREACH_SLOT_RANGE demo_list 0 3 = Some slots"
    "distinct slots" "map Some slots = map (\<lambda>i. sgen_array_list_get_slot demo_list (of_nat i)) [0..<3]"
    by (auto simp: demo_list_def)
  moreover from this(4) have "length slots = 3" by (metis length_map length_upt minus_nat.diff_0)
  ultimately show ?thesis by blast
qed

end
