(* ===== verification/DynArray.thy ===== *)
theory DynArray
  imports Prelude
begin

text \<open>
  \<open>mono/metadata/sgen-dynarray.h\<close>: growable arrays, with two optimisations: an array of integers
  may share the buffer of another one (a copy, its capacity is negative), and an array of one pointer may hold it
  in the place of the buffer (a singleton, its capacity is one). Memory is a map of blocks of cells; a cell that was
  never written is \<open>None\<close>. The allocator is a parameter: it chooses the address of the new block.
  The outcome \<open>None\<close> is a failed assertion or undefined behaviour: an access outside a block or to a freed one,
  a read of a cell that was never written, a release with the wrong size, an overflow of \<open>int\<close>. Calls of
  \<open>memcpy\<close> with no bytes are taken as doing nothing, also for null pointers.
\<close>

section \<open>Memory\<close>

record 'c block =
  block_bytes :: int
  block_cells :: "'c option list"

record DynArray =
  da_size :: int
  da_capacity :: int
  da_data :: nat

text \<open>The array structures are variables of the caller, named by numbers.\<close>

record 'c dyn_state =
  blocks :: "nat \<Rightarrow> 'c block option"
  arrays :: "nat \<Rightarrow> DynArray"

type_synonym 'c allocator = "(nat \<Rightarrow> 'c block option) \<Rightarrow> int \<Rightarrow> nat"

definition c_int :: "int \<Rightarrow> int option" where
  "c_int k = (if - (2 ^ 31) \<le> k \<and> k < 2 ^ 31 then Some k else None)"

definition put :: "nat \<Rightarrow> DynArray \<Rightarrow> 'c dyn_state \<Rightarrow> 'c dyn_state" where
  "put a da s = s\<lparr>arrays := (arrays s)(a := da)\<rparr>"

definition alloc_internal :: "'c allocator \<Rightarrow> int \<Rightarrow> int \<Rightarrow> 'c dyn_state \<Rightarrow> nat \<times> 'c dyn_state" where
  "alloc_internal alloc elem_size bytes s =
    (let p = alloc (blocks s) bytes
     in (p, s\<lparr>blocks := (blocks s)(p \<mapsto>
       \<lparr>block_bytes = bytes, block_cells = replicate (nat (bytes div elem_size)) None\<rparr>)\<rparr>))"

definition free_internal :: "nat \<Rightarrow> int \<Rightarrow> 'c dyn_state \<Rightarrow> 'c dyn_state option" where
  "free_internal p bytes s = do {
     b \<leftarrow> blocks s p;
     if block_bytes b = bytes then Some (s\<lparr>blocks := (blocks s)(p := None)\<rparr>) else None }"

definition read_cell :: "nat \<Rightarrow> int \<Rightarrow> 'c dyn_state \<Rightarrow> 'c option" where
  "read_cell p i s = do {
     b \<leftarrow> blocks s p;
     if 0 \<le> i \<and> i < int (length (block_cells b)) then block_cells b ! nat i else None }"

definition write_cell :: "nat \<Rightarrow> int \<Rightarrow> 'c \<Rightarrow> 'c dyn_state \<Rightarrow> 'c dyn_state option" where
  "write_cell p i v s = do {
     b \<leftarrow> blocks s p;
     if 0 \<le> i \<and> i < int (length (block_cells b))
     then Some (s\<lparr>blocks := (blocks s)(p \<mapsto> b\<lparr>block_cells := (block_cells b)[nat i := Some v]\<rparr>)\<rparr>)
     else None }"

text \<open>\<open>memcpy\<close> of \<open>n\<close> elements.\<close>

definition copy_cells :: "nat \<Rightarrow> nat \<Rightarrow> int \<Rightarrow> 'c dyn_state \<Rightarrow> 'c dyn_state option" where
  "copy_cells dst src n s =
    (if n = 0 then Some s
     else if n < 0 \<or> dst = src then None
     else do {
       d \<leftarrow> blocks s dst;
       b \<leftarrow> blocks s src;
       if n \<le> int (length (block_cells d)) \<and> n \<le> int (length (block_cells b))
       then Some (s\<lparr>blocks := (blocks s)(dst \<mapsto>
         d\<lparr>block_cells := take (nat n) (block_cells b) @ drop (nat n) (block_cells d)\<rparr>)\<rparr>)
       else None })"

section \<open>Arrays of any element\<close>

definition dyn_array_init :: "nat \<Rightarrow> 'c dyn_state \<Rightarrow> 'c dyn_state" where
  "dyn_array_init da = put da \<lparr>da_size = 0, da_capacity = 0, da_data = 0\<rparr>"

definition dyn_array_uninit :: "nat \<Rightarrow> int \<Rightarrow> 'c dyn_state \<Rightarrow> 'c dyn_state option" where
  "dyn_array_uninit da elem_size s =
    (let d = arrays s da in
     if da_capacity d < 0 then Some (dyn_array_init da s)
     else if da_capacity d = 0 then Some s
     else do {
       bytes \<leftarrow> c_int (elem_size * da_capacity d);
       s \<leftarrow> free_internal (da_data d) bytes s;
       Some (put da (d\<lparr>da_data := 0\<rparr>) s) })"

definition dyn_array_empty :: "nat \<Rightarrow> 'c dyn_state \<Rightarrow> 'c dyn_state" where
  "dyn_array_empty da s =
    (let d = arrays s da in
     if da_capacity d < 0 then dyn_array_init da s else put da (d\<lparr>da_size := 0\<rparr>) s)"

partial_function (option) double_capacity :: "int \<Rightarrow> int \<Rightarrow> int option" where
  "double_capacity capacity current =
    (if capacity > current then do { twice \<leftarrow> c_int (current * 2); double_capacity capacity twice }
     else Some current)"

definition dyn_array_ensure_capacity_internal ::
  "'c allocator \<Rightarrow> nat \<Rightarrow> int \<Rightarrow> int \<Rightarrow> 'c dyn_state \<Rightarrow> (nat \<times> 'c dyn_state) option" where
  "dyn_array_ensure_capacity_internal alloc da capacity elem_size s =
    (let d = arrays s da in do {
       new_capacity \<leftarrow> double_capacity capacity (if da_capacity d \<le> 0 then 2 else da_capacity d);
       bytes \<leftarrow> c_int (elem_size * new_capacity);
       Some (alloc_internal alloc elem_size bytes (put da (d\<lparr>da_capacity := new_capacity\<rparr>) s)) })"

definition dyn_array_ensure_capacity ::
  "'c allocator \<Rightarrow> nat \<Rightarrow> int \<Rightarrow> int \<Rightarrow> 'c dyn_state \<Rightarrow> 'c dyn_state option" where
  "dyn_array_ensure_capacity alloc da capacity elem_size s =
    (let old_capacity = da_capacity (arrays s da) in
     if \<not> capacity > 0 then None
     else if capacity \<le> old_capacity then Some s
     else do {
       (new_data, s) \<leftarrow> dyn_array_ensure_capacity_internal alloc da capacity elem_size s;
       d \<leftarrow> Some (arrays s da);
       _ \<leftarrow> c_int (elem_size * da_size d);
       s \<leftarrow> copy_cells new_data (da_data d) (da_size d) s;
       s \<leftarrow> (if old_capacity > 0 then do {
              bytes \<leftarrow> c_int (elem_size * old_capacity);
              free_internal (da_data d) bytes s }
            else Some s);
       Some (put da (d\<lparr>da_data := new_data\<rparr>) s) })"

definition dyn_array_is_copy :: "nat \<Rightarrow> 'c dyn_state \<Rightarrow> bool" where
  "dyn_array_is_copy da s \<longleftrightarrow> da_capacity (arrays s da) < 0"

definition dyn_array_ensure_independent :: "'c allocator \<Rightarrow> nat \<Rightarrow> int \<Rightarrow> 'c dyn_state \<Rightarrow> 'c dyn_state option" where
  "dyn_array_ensure_independent alloc da elem_size s =
    (if \<not> dyn_array_is_copy da s then Some s
     else do {
       s \<leftarrow> dyn_array_ensure_capacity alloc da (da_size (arrays s da)) elem_size s;
       if da_capacity (arrays s da) > 0 then Some s else None })"

text \<open>The result is the address of the new cell: its block and its index.\<close>

definition dyn_array_add :: "'c allocator \<Rightarrow> nat \<Rightarrow> int \<Rightarrow> 'c dyn_state \<Rightarrow> ((nat \<times> int) \<times> 'c dyn_state) option" where
  "dyn_array_add alloc da elem_size s = do {
     n \<leftarrow> c_int (da_size (arrays s da) + 1);
     s \<leftarrow> dyn_array_ensure_capacity alloc da n elem_size s;
     d \<leftarrow> Some (arrays s da);
     _ \<leftarrow> c_int (da_size d * elem_size);
     Some ((da_data d, da_size d), put da (d\<lparr>da_size := da_size d + 1\<rparr>) s) }"

definition dyn_array_copy :: "nat \<Rightarrow> nat \<Rightarrow> int \<Rightarrow> 'c dyn_state \<Rightarrow> 'c dyn_state option" where
  "dyn_array_copy dst src elem_size s = do {
     s \<leftarrow> dyn_array_uninit dst elem_size s;
     if da_size (arrays s src) = 0 then Some s
     else Some (put dst \<lparr>da_size = da_size (arrays s src), da_capacity = - 1, da_data = da_data (arrays s src)\<rparr> s) }"

section \<open>Arrays of integers\<close>

definition dyn_array_int_init :: "nat \<Rightarrow> int dyn_state \<Rightarrow> int dyn_state" where
  "dyn_array_int_init da = dyn_array_init da"

definition dyn_array_int_uninit :: "nat \<Rightarrow> int dyn_state \<Rightarrow> int dyn_state option" where
  "dyn_array_int_uninit da = dyn_array_uninit da 4"

definition dyn_array_int_size :: "nat \<Rightarrow> int dyn_state \<Rightarrow> int" where
  "dyn_array_int_size da s = da_size (arrays s da)"

definition dyn_array_int_empty :: "nat \<Rightarrow> int dyn_state \<Rightarrow> int dyn_state" where
  "dyn_array_int_empty da = dyn_array_empty da"

definition dyn_array_int_add :: "int allocator \<Rightarrow> nat \<Rightarrow> int \<Rightarrow> int dyn_state \<Rightarrow> int dyn_state option" where
  "dyn_array_int_add alloc da x s = do {
     (p, s) \<leftarrow> dyn_array_add alloc da 4 s;
     write_cell (fst p) (snd p) x s }"

definition dyn_array_int_get :: "nat \<Rightarrow> int \<Rightarrow> int dyn_state \<Rightarrow> int option" where
  "dyn_array_int_get da x s = read_cell (da_data (arrays s da)) x s"

definition dyn_array_int_set :: "nat \<Rightarrow> int \<Rightarrow> int \<Rightarrow> int dyn_state \<Rightarrow> int dyn_state option" where
  "dyn_array_int_set da idx val s = write_cell (da_data (arrays s da)) idx val s"

definition dyn_array_int_ensure_independent :: "int allocator \<Rightarrow> nat \<Rightarrow> int dyn_state \<Rightarrow> int dyn_state option" where
  "dyn_array_int_ensure_independent alloc da = dyn_array_ensure_independent alloc da 4"

definition dyn_array_int_copy :: "nat \<Rightarrow> nat \<Rightarrow> int dyn_state \<Rightarrow> int dyn_state option" where
  "dyn_array_int_copy dst src = dyn_array_copy dst src 4"

definition dyn_array_int_is_copy :: "nat \<Rightarrow> int dyn_state \<Rightarrow> bool" where
  "dyn_array_int_is_copy da s = dyn_array_is_copy da s"

section \<open>Arrays of pointers\<close>

text \<open>The flag says whether \<open>OPTIMIZATION_SINGLETON_DYN_ARRAY\<close> is defined. A pointer is a number.\<close>

definition dyn_array_ptr_init :: "nat \<Rightarrow> nat dyn_state \<Rightarrow> nat dyn_state" where
  "dyn_array_ptr_init da = dyn_array_init da"

definition singleton :: "bool \<Rightarrow> nat \<Rightarrow> nat dyn_state \<Rightarrow> bool" where
  "singleton opt da s \<longleftrightarrow> opt \<and> da_capacity (arrays s da) = 1"

definition dyn_array_ptr_uninit :: "bool \<Rightarrow> nat \<Rightarrow> nat dyn_state \<Rightarrow> nat dyn_state option" where
  "dyn_array_ptr_uninit opt da s =
    (if singleton opt da s then Some (dyn_array_ptr_init da s) else dyn_array_uninit da 4 s)"

definition dyn_array_ptr_size :: "nat \<Rightarrow> nat dyn_state \<Rightarrow> int" where
  "dyn_array_ptr_size da s = da_size (arrays s da)"

definition dyn_array_ptr_empty :: "bool \<Rightarrow> nat \<Rightarrow> nat dyn_state \<Rightarrow> nat dyn_state" where
  "dyn_array_ptr_empty opt da s =
    (if singleton opt da s then dyn_array_ptr_init da s else dyn_array_empty da s)"

definition dyn_array_ptr_get :: "bool \<Rightarrow> nat \<Rightarrow> int \<Rightarrow> nat dyn_state \<Rightarrow> nat option" where
  "dyn_array_ptr_get opt da x s =
    (if singleton opt da s then (if x = 0 then Some (da_data (arrays s da)) else None)
     else read_cell (da_data (arrays s da)) x s)"

definition dyn_array_ptr_set :: "bool \<Rightarrow> nat \<Rightarrow> int \<Rightarrow> nat \<Rightarrow> nat dyn_state \<Rightarrow> nat dyn_state option" where
  "dyn_array_ptr_set opt da x ptr s =
    (if singleton opt da s then
       (if x = 0 then Some (put da ((arrays s da)\<lparr>da_data := ptr\<rparr>) s) else None)
     else write_cell (da_data (arrays s da)) x ptr s)"

definition dyn_array_ptr_add :: "bool \<Rightarrow> nat allocator \<Rightarrow> nat \<Rightarrow> nat \<Rightarrow> nat dyn_state \<Rightarrow> nat dyn_state option" where
  "dyn_array_ptr_add opt alloc da ptr s =
    (let d = arrays s da in
     if opt \<and> da_capacity d = 0 then
       Some (put da (d\<lparr>da_capacity := 1, da_size := 1, da_data := ptr\<rparr>) s)
     else if singleton opt da s then do {
       ptr0 \<leftarrow> Some (da_data d);
       (p0, s) \<leftarrow> dyn_array_add alloc da 4 (dyn_array_init da s);
       s \<leftarrow> write_cell (fst p0) (snd p0) ptr0 s;
       (p, s) \<leftarrow> dyn_array_add alloc da 4 s;
       write_cell (fst p) (snd p) ptr s }
     else do {
       (p, s) \<leftarrow> dyn_array_add alloc da 4 s;
       write_cell (fst p) (snd p) ptr s })"

definition dyn_array_ptr_pop :: "bool \<Rightarrow> nat allocator \<Rightarrow> nat \<Rightarrow> nat dyn_state \<Rightarrow> (nat \<times> nat dyn_state) option" where
  "dyn_array_ptr_pop opt alloc da s =
    (let n = da_size (arrays s da) in
     if \<not> n > 0 then None
     else if singleton opt da s then do {
       p \<leftarrow> dyn_array_ptr_get opt da 0 s;
       Some (p, dyn_array_init da s) }
     else if \<not> da_capacity (arrays s da) > 1 then None
     else do {
       s \<leftarrow> dyn_array_ensure_independent alloc da 4 s;
       p \<leftarrow> dyn_array_ptr_get opt da (n - 1) s;
       d \<leftarrow> Some (arrays s da);
       Some (p, put da (d\<lparr>da_size := da_size d - 1\<rparr>) s) })"

definition dyn_array_ptr_ensure_capacity :: "bool \<Rightarrow> nat allocator \<Rightarrow> nat \<Rightarrow> int \<Rightarrow> nat dyn_state \<Rightarrow> nat dyn_state option" where
  "dyn_array_ptr_ensure_capacity opt alloc da capacity s = do {
     s \<leftarrow> (if opt then
            if capacity = 1 \<and> da_capacity (arrays s da) < 1 then
              Some (put da ((arrays s da)\<lparr>da_capacity := 1\<rparr>) s)
            else if da_capacity (arrays s da) = 1 then
              if capacity > 1 then do {
                ptr \<leftarrow> dyn_array_ptr_get opt da 0 s;
                (new_data, s) \<leftarrow> dyn_array_ensure_capacity_internal alloc da capacity 4 s;
                s \<leftarrow> Some (put da ((arrays s da)\<lparr>da_data := new_data\<rparr>) s);
                dyn_array_ptr_set opt da 0 ptr s }
              else Some s
            else Some s
          else Some s);
     dyn_array_ensure_capacity alloc da capacity 4 s }"

definition dyn_array_ptr_set_all :: "bool \<Rightarrow> nat allocator \<Rightarrow> nat \<Rightarrow> nat \<Rightarrow> nat dyn_state \<Rightarrow> nat dyn_state option" where
  "dyn_array_ptr_set_all opt alloc dst src s =
    (let copysize = da_size (arrays s src) in do {
       s \<leftarrow> (if copysize > 0 then do {
              s \<leftarrow> dyn_array_ptr_ensure_capacity opt alloc dst copysize s;
              if opt \<and> copysize = 1 then do {
                ptr \<leftarrow> dyn_array_ptr_get opt src 0 s;
                dyn_array_ptr_set opt dst 0 ptr s }
              else copy_cells (da_data (arrays s dst)) (da_data (arrays s src)) copysize s }
            else Some s);
       Some (put dst ((arrays s dst)\<lparr>da_size := da_size (arrays s src)\<rparr>) s) })"

end
