(* ===== verification/DynArrayProps.thy ===== *)
theory DynArrayProps
  imports DynArray
begin

text \<open>
  The growable arrays refine lists, array by array: what an operation does to the list of its array, and
  that it leaves the lists of the others alone, copies of other buffers included.
\<close>

section \<open>Arrays and their contents\<close>

definition fresh_alloc :: "'c allocator \<Rightarrow> bool" where
  "fresh_alloc alloc \<longleftrightarrow> (\<forall>h n. finite (dom h) \<longrightarrow> alloc h n \<notin> dom h)"

abbreviation size_at :: "'c dyn_state \<Rightarrow> nat \<Rightarrow> int" where "size_at s a \<equiv> da_size (arrays s a)"
abbreviation capacity_at :: "'c dyn_state \<Rightarrow> nat \<Rightarrow> int" where "capacity_at s a \<equiv> da_capacity (arrays s a)"
abbreviation data_at :: "'c dyn_state \<Rightarrow> nat \<Rightarrow> nat" where "data_at s a \<equiv> da_data (arrays s a)"

definition vacant :: "'c dyn_state \<Rightarrow> nat \<Rightarrow> bool" where
  "vacant s a \<longleftrightarrow> size_at s a = 0 \<and> capacity_at s a = 0"

definition owner :: "int \<Rightarrow> 'c dyn_state \<Rightarrow> nat \<Rightarrow> bool" where
  "owner es s a \<longleftrightarrow> 0 < capacity_at s a \<and> 0 \<le> size_at s a \<and> size_at s a \<le> capacity_at s a \<and>
    es * capacity_at s a < 2 ^ 31 \<and>
    (\<exists>b. blocks s (data_at s a) = Some b \<and> block_bytes b = es * capacity_at s a \<and>
      int (length (block_cells b)) = capacity_at s a)"

definition copied :: "'c dyn_state \<Rightarrow> nat \<Rightarrow> bool" where
  "copied s a \<longleftrightarrow> capacity_at s a < 0 \<and> 0 < size_at s a \<and>
    (\<exists>b. blocks s (data_at s a) = Some b \<and> size_at s a \<le> int (length (block_cells b)))"

text \<open>Every buffer has at most one owner; \<open>L\<close> are the arrays in use.\<close>

definition wf_arrays :: "nat set \<Rightarrow> int \<Rightarrow> 'c dyn_state \<Rightarrow> bool" where
  "wf_arrays L es s \<longleftrightarrow> finite (dom (blocks s)) \<and> (\<forall>a \<in> L. vacant s a \<or> owner es s a \<or> copied s a) \<and>
    (\<forall>a \<in> L. \<forall>b \<in> L. a \<noteq> b \<longrightarrow> 0 < capacity_at s a \<longrightarrow> 0 < capacity_at s b \<longrightarrow> data_at s a \<noteq> data_at s b)"

text \<open>The list an array stands for.\<close>

definition holds :: "'c dyn_state \<Rightarrow> nat \<Rightarrow> 'c list \<Rightarrow> bool" where
  "holds s a xs \<longleftrightarrow> size_at s a = int (length xs) \<and>
    (xs = [] \<or> (\<exists>b. blocks s (data_at s a) = Some b \<and> take (length xs) (block_cells b) = map Some xs))"

text \<open>No array but the owner uses its buffer.\<close>

definition unshared :: "nat set \<Rightarrow> 'c dyn_state \<Rightarrow> nat \<Rightarrow> bool" where
  "unshared L s a \<longleftrightarrow> (0 < capacity_at s a \<longrightarrow>
    (\<forall>b \<in> L. b \<noteq> a \<longrightarrow> capacity_at s b < 0 \<longrightarrow> data_at s b \<noteq> data_at s a))"

lemma holds_cells:
  assumes "holds s a xs" "xs \<noteq> []"
  obtains b where "blocks s (data_at s a) = Some b" "take (length xs) (block_cells b) = map Some xs"
    "length xs \<le> length (block_cells b)"
proof -
  obtain b where b: "blocks s (data_at s a) = Some b" "take (length xs) (block_cells b) = map Some xs"
    using assms by (auto simp: holds_def)
  have "min (length (block_cells b)) (length xs) = length xs"
    using arg_cong [OF b(2), of length] by simp
  then have "length xs \<le> length (block_cells b)" by linarith
  with b show ?thesis by (rule that)
qed

lemma c_int_ok: "\<lbrakk>0 \<le> k; k < 2 ^ 31\<rbrakk> \<Longrightarrow> c_int k = Some k"
  by (simp add: c_int_def)

section \<open>Growing\<close>

lemma double_capacity_ok:
  assumes "0 < c" "2 * w < 2 ^ 31"
  shows "\<exists>k. double_capacity w c = Some k \<and> w \<le> k \<and> c \<le> k \<and> (k = c \<or> k < 2 * w)"
  using assms(1)
proof (induction "nat (w - c)" arbitrary: c rule: less_induct)
  case less
  show ?case
  proof (cases "w > c")
    case False
    then show ?thesis by (subst double_capacity.simps) simp
  next
    case True
    obtain k where k: "double_capacity w (c * 2) = Some k" "w \<le> k" "c * 2 \<le> k" "k = c * 2 \<or> k < 2 * w"
      using less.hyps [of "c * 2"] less.prems True by auto
    have "c_int (c * 2) = Some (c * 2)" using True assms(2) less.prems by (intro c_int_ok) simp_all
    with True k(1) have "double_capacity w c = Some k" by (subst double_capacity.simps) simp
    with k True less.prems show ?thesis by (intro exI [of _ k]) auto
  qed
qed

text \<open>What may have changed when array \<open>a\<close> has got a buffer of its own.\<close>

definition grown_from :: "int \<Rightarrow> nat \<Rightarrow> 'c dyn_state \<Rightarrow> 'c dyn_state \<Rightarrow> bool" where
  "grown_from es a s t \<longleftrightarrow> owner es t a \<and> size_at t a = size_at s a \<and> finite (dom (blocks t)) \<and>
    (\<forall>b. b \<noteq> a \<longrightarrow> arrays t b = arrays s b) \<and>
    (\<forall>q \<in> dom (blocks s). \<not> (0 < capacity_at s a \<and> q = data_at s a) \<longrightarrow> blocks t q = blocks s q) \<and>
    (0 < capacity_at s a \<and> data_at t a = data_at s a \<or> data_at t a \<notin> dom (blocks s))"

lemma ensure_capacity_grows:
  assumes "fresh_alloc alloc" "finite (dom (blocks s))" "vacant s a \<or> owner es s a \<or> copied s a" "holds s a xs"
    and n: "capacity_at s a < n" "0 < n" "size_at s a \<le> n" and es: "0 < es" "es * (2 * n) < 2 ^ 31"
  shows "\<exists>t. dyn_array_ensure_capacity alloc a n es s = Some t \<and> grown_from es a s t \<and> holds t a xs \<and> n \<le> capacity_at t a \<and>
    (capacity_at s a \<noteq> 1 \<longrightarrow> capacity_at t a \<noteq> 1)"
proof -
  let ?c = "if capacity_at s a \<le> 0 then 2 else capacity_at s a"
  have es1: "2 * n \<le> es * (2 * n)" using es(1) n(2) by simp
  have small: "2 * n < 2 ^ 31" by (rule le_less_trans [OF es1 es(2)])
  have "0 < ?c" by simp
  from double_capacity_ok [OF this small] obtain k where
    k: "double_capacity n ?c = Some k" "n \<le> k" "?c \<le> k" "k = ?c \<or> k < 2 * n" by (elim exE conjE) rule
  have pos: "0 < k" "k \<le> 2 * n" using k n by auto
  have bytes: "es * k < 2 ^ 31" "0 \<le> es * k"
    using le_less_trans [OF mult_left_mono [of k "2 * n" es] es(2)] pos es(1) by simp_all
  define p where "p = alloc (blocks s) (es * k)"
  have fresh: "p \<notin> dom (blocks s)" using assms(1,2) by (simp add: p_def fresh_alloc_def)
  have len: "int (length xs) = size_at s a" using assms(4) by (simp add: holds_def)
  let ?cells = "map Some xs @ replicate (nat k - length xs) None"
  let ?s1 = "s\<lparr>arrays := (arrays s)(a := (arrays s a)\<lparr>da_capacity := k\<rparr>),
    blocks := (blocks s)(p \<mapsto> \<lparr>block_bytes = es * k, block_cells = replicate (nat k) None\<rparr>)\<rparr>"
  let ?s2 = "s\<lparr>arrays := (arrays s)(a := (arrays s a)\<lparr>da_capacity := k\<rparr>),
    blocks := (blocks s)(p \<mapsto> \<lparr>block_bytes = es * k, block_cells = ?cells\<rparr>)\<rparr>"
  have internal: "dyn_array_ensure_capacity_internal alloc a n es s = Some (p, ?s1)"
    using k(1) bytes es(1) by (simp add: dyn_array_ensure_capacity_internal_def c_int_ok alloc_internal_def
        put_def p_def Let_def)
  have copy: "copy_cells p (data_at s a) (size_at s a) ?s1 = Some ?s2"
  proof (cases "xs = []")
    case True
    then show ?thesis using len by (simp add: copy_cells_def)
  next
    case False
    with assms(4) obtain b where b: "blocks s (data_at s a) = Some b" "take (length xs) (block_cells b) = map Some xs"
        "length xs \<le> length (block_cells b)"
      by (rule holds_cells)
    moreover have "p \<noteq> data_at s a" using fresh b(1) by auto
    moreover have "nat (size_at s a) = length xs" "0 < size_at s a"
      using len False by (cases xs, auto)+
    ultimately show ?thesis using len False n(3) k(2) by (simp add: copy_cells_def)
  qed
  define u where "u = (if 0 < capacity_at s a then ?s2\<lparr>blocks := (blocks ?s2)(data_at s a := None)\<rparr> else ?s2)"
  have release: "c_int (es * capacity_at s a) = Some (es * capacity_at s a)"
    "free_internal (data_at s a) (es * capacity_at s a) ?s2 = Some u" if pos_cap: "0 < capacity_at s a"
  proof -
    obtain b where b: "blocks s (data_at s a) = Some b" "block_bytes b = es * capacity_at s a"
        "es * capacity_at s a < 2 ^ 31"
      using assms(3) pos_cap by (auto simp: vacant_def owner_def copied_def)
    moreover have "p \<noteq> data_at s a" using fresh b(1) by auto
    ultimately show "c_int (es * capacity_at s a) = Some (es * capacity_at s a)"
        "free_internal (data_at s a) (es * capacity_at s a) ?s2 = Some u"
      using pos_cap es(1) by (simp_all add: u_def free_internal_def c_int_ok)
  qed
  have keep: "\<not> 0 < capacity_at s a \<Longrightarrow> u = ?s2" by (simp add: u_def)
  let ?t = "put a ((arrays s a)\<lparr>da_capacity := k, da_data := p\<rparr>) u"
  have "0 \<le> es * size_at s a" "es * size_at s a < 2 ^ 31"
    using le_less_trans [OF mult_left_mono [of "size_at s a" "2 * n" es] es(2)] len es(1) n by simp_all
  then have run: "dyn_array_ensure_capacity alloc a n es s = Some ?t"
    using n(1,2) internal copy release keep
    by (simp add: dyn_array_ensure_capacity_def c_int_ok Let_def)
  have arr: "arrays ?t a = (arrays s a)\<lparr>da_capacity := k, da_data := p\<rparr>" "b \<noteq> a \<Longrightarrow> arrays ?t b = arrays s b" for b
    by (simp_all add: put_def u_def)
  have old: "p \<noteq> data_at s a" if "0 < capacity_at s a"
    using that fresh assms(3) by (auto simp: vacant_def owner_def copied_def)
  then have cell: "blocks ?t p = Some \<lparr>block_bytes = es * k, block_cells = ?cells\<rparr>"
    by (simp add: put_def u_def)
  have "length xs \<le> nat k" using len n(3) k(2) by simp
  then have "owner es ?t a" using arr cell pos(1) bytes(1) len by (simp add: owner_def)
  moreover have "holds ?t a xs" using arr cell len by (simp add: holds_def)
  moreover have "finite (dom (blocks ?t))" using assms(2) by (simp add: put_def u_def)
  moreover have "blocks ?t q = blocks s q" if "q \<in> dom (blocks s)" "\<not> (0 < capacity_at s a \<and> q = data_at s a)" for q
    using that fresh by (auto simp: put_def u_def)
  ultimately have "grown_from es a s ?t" using arr fresh by (simp add: grown_from_def)
  moreover have "capacity_at s a \<noteq> 1 \<longrightarrow> k \<noteq> 1" using k(3) by (cases "capacity_at s a \<le> 0") auto
  ultimately show ?thesis using run \<open>holds ?t a xs\<close> arr(1) k(2) by (intro exI [of _ ?t]) simp
qed

lemma ensure_capacity_ok:
  assumes "fresh_alloc alloc" "wf_arrays L es s" "a \<in> L" "holds s a xs"
    and n: "0 < n" "size_at s a \<le> n" and es: "0 < es" "es * (2 * n) < 2 ^ 31"
  shows "\<exists>t. dyn_array_ensure_capacity alloc a n es s = Some t \<and> grown_from es a s t \<and> holds t a xs \<and> n \<le> capacity_at t a \<and>
    (capacity_at s a \<noteq> 1 \<longrightarrow> capacity_at t a \<noteq> 1)"
proof (cases "capacity_at s a < n")
  case True
  show ?thesis
    by (rule ensure_capacity_grows) (use assms True in \<open>auto simp: wf_arrays_def\<close>)
next
  case False
  then have "owner es s a" using assms(2,3) n(1) by (auto simp: wf_arrays_def vacant_def copied_def)
  then have "grown_from es a s s" using assms(2) by (auto simp: grown_from_def wf_arrays_def owner_def)
  moreover have "dyn_array_ensure_capacity alloc a n es s = Some s"
    using False n(1) by (simp add: dyn_array_ensure_capacity_def Let_def)
  ultimately show ?thesis using False assms(4) by auto
qed

lemma other_buffer:
  assumes "wf_arrays L es s" "a \<in> L" "b \<in> L" "b \<noteq> a" "unshared L s a" "0 < capacity_at s a" "capacity_at s b \<noteq> 0"
  shows "data_at s b \<noteq> data_at s a"
  using assms unfolding wf_arrays_def unshared_def by (metis linorder_neqE_linordered_idom)

lemma grown_from_keeps:
  assumes wf: "wf_arrays L es s" and a: "a \<in> L" and t: "grown_from es a s t" and un: "unshared L s a"
  shows "wf_arrays L es t" "unshared L t a" "\<And>b ys. \<lbrakk>b \<in> L; b \<noteq> a; holds s b ys\<rbrakk> \<Longrightarrow> holds t b ys"
proof -
  have arr: "arrays t b = arrays s b" if "b \<noteq> a" for b using t that by (simp add: grown_from_def)
  have mem: "blocks t (data_at s b) = blocks s (data_at s b)" and other: "data_at t a \<noteq> data_at s b"
    if b: "b \<in> L" "b \<noteq> a" "capacity_at s b \<noteq> 0" for b
  proof -
    have in_dom: "data_at s b \<in> dom (blocks s)"
      using wf b by (auto simp: wf_arrays_def vacant_def owner_def copied_def)
    have ne: "\<not> (0 < capacity_at s a \<and> data_at s b = data_at s a)"
      using other_buffer [OF wf a b(1,2) un _ b(3)] by blast
    with in_dom t show "blocks t (data_at s b) = blocks s (data_at s b)" by (simp add: grown_from_def)
    show "data_at t a \<noteq> data_at s b" using t ne in_dom unfolding grown_from_def by metis
  qed
  have kind: "vacant t b \<or> owner es t b \<or> copied t b" if "b \<in> L" "b \<noteq> a" for b
    using wf that mem [OF that] arr [OF that(2)]
    by (auto simp: wf_arrays_def vacant_def owner_def copied_def)
  have own: "owner es t a" "finite (dom (blocks t))" using t by (simp_all add: grown_from_def)
  show "unshared L t a"
    unfolding unshared_def
  proof (intro impI ballI)
    fix b assume b: "b \<in> L" "b \<noteq> a" "capacity_at t b < 0"
    then show "data_at t b \<noteq> data_at t a" using other [of b] arr [of b] by auto
  qed
  show "wf_arrays L es t"
    unfolding wf_arrays_def
  proof (intro conjI ballI impI)
    fix b assume "b \<in> L" then show "vacant t b \<or> owner es t b \<or> copied t b" using kind own by (cases "b = a") auto
  next
    fix b c assume bc: "b \<in> L" "c \<in> L" "b \<noteq> c" "0 < capacity_at t b" "0 < capacity_at t c"
    consider "b = a" | "c = a" | "b \<noteq> a" "c \<noteq> a" by blast
    then show "data_at t b \<noteq> data_at t c"
    proof cases
      case 1
      then show ?thesis using other [of c] arr [of c] bc by auto
    next
      case 2
      then show ?thesis using other [of b] arr [of b] bc by auto
    next
      case 3
      then show ?thesis using wf bc arr [of b] arr [of c] by (auto simp: wf_arrays_def)
    qed
  qed (rule own(2))
  show "holds t b ys" if "b \<in> L" "b \<noteq> a" "holds s b ys" for b ys
  proof (cases "ys = []")
    case False
    with that(3) have "0 < size_at s b" by (cases ys) (auto simp: holds_def)
    then have "capacity_at s b \<noteq> 0" using wf that(1) by (auto simp: wf_arrays_def vacant_def owner_def copied_def)
    with that arr mem show ?thesis by (simp add: holds_def)
  qed (use that arr in \<open>simp add: holds_def\<close>)
qed

text \<open>Writing into the buffer of one array, and setting its size.\<close>

lemma write_own:
  assumes wf: "wf_arrays L es t" and a: "a \<in> L" and own: "owner es t a" and un: "unshared L t a"
    and i: "0 \<le> i" "i < capacity_at t a" and n: "0 \<le> n" "n \<le> capacity_at t a"
  shows "\<exists>b u. blocks t (data_at t a) = Some b \<and>
      write_cell (data_at t a) i x (put a ((arrays t a)\<lparr>da_size := n\<rparr>) t) = Some u \<and>
      wf_arrays L es u \<and> unshared L u a \<and> owner es u a \<and> arrays u = (arrays t)(a := (arrays t a)\<lparr>da_size := n\<rparr>) \<and>
      blocks u = (blocks t)(data_at t a \<mapsto> b\<lparr>block_cells := (block_cells b)[nat i := Some x]\<rparr>) \<and>
      (\<forall>c ys. c \<in> L \<longrightarrow> c \<noteq> a \<longrightarrow> holds t c ys \<longrightarrow> holds u c ys)"
proof -
  obtain b where b: "blocks t (data_at t a) = Some b" "block_bytes b = es * capacity_at t a"
      "int (length (block_cells b)) = capacity_at t a"
    using own by (auto simp: owner_def)
  let ?u = "t\<lparr>arrays := (arrays t)(a := (arrays t a)\<lparr>da_size := n\<rparr>),
    blocks := (blocks t)(data_at t a \<mapsto> b\<lparr>block_cells := (block_cells b)[nat i := Some x]\<rparr>)\<rparr>"
  have run: "write_cell (data_at t a) i x (put a ((arrays t a)\<lparr>da_size := n\<rparr>) t) = Some ?u"
    using b i by (simp add: write_cell_def put_def)
  have own': "owner es ?u a" using own b n by (simp add: owner_def)
  have ne: "data_at t c \<noteq> data_at t a" if "c \<in> L" "c \<noteq> a" "capacity_at t c \<noteq> 0" for c
    using other_buffer [OF wf a that(1,2) un _ that(3)] own by (simp add: owner_def)
  have kind: "vacant ?u c \<or> owner es ?u c \<or> copied ?u c" if "c \<in> L" "c \<noteq> a" for c
    using wf that ne [OF that] by (auto simp: wf_arrays_def vacant_def owner_def copied_def)
  have "wf_arrays L es ?u"
    using wf kind own' by (auto simp: wf_arrays_def)
  moreover have "unshared L ?u a" using un by (auto simp: unshared_def)
  moreover have "holds ?u c ys" if "c \<in> L" "c \<noteq> a" "holds t c ys" for c ys
  proof (cases "ys = []")
    case False
    with that(3) have "0 < size_at t c" by (cases ys) (auto simp: holds_def)
    then have "capacity_at t c \<noteq> 0" using wf that(1) by (auto simp: wf_arrays_def vacant_def owner_def copied_def)
    with that ne show ?thesis by (simp add: holds_def)
  qed (use that in \<open>simp add: holds_def\<close>)
  ultimately show ?thesis using b(1) run own' by (intro exI [of _ b] exI [of _ ?u]) simp
qed

lemma add_ok:
  assumes "fresh_alloc alloc" "wf_arrays L es s" "a \<in> L" "holds s a xs" "unshared L s a"
    and es: "0 < es" "es * (2 * (size_at s a + 1)) < 2 ^ 31"
  shows "\<exists>p t u. dyn_array_add alloc a es s = Some (p, t) \<and> write_cell (fst p) (snd p) x t = Some u \<and>
    wf_arrays L es u \<and> unshared L u a \<and> holds u a (xs @ [x]) \<and> 0 < capacity_at u a \<and>
    (capacity_at s a \<noteq> 1 \<longrightarrow> capacity_at u a \<noteq> 1) \<and>
    (\<forall>b. b \<noteq> a \<longrightarrow> arrays u b = arrays s b) \<and> (\<forall>b \<in> L. b \<noteq> a \<longrightarrow> (\<forall>ys. holds s b ys \<longrightarrow> holds u b ys))"
proof -
  let ?n = "size_at s a + 1"
  have len: "size_at s a = int (length xs)" using assms(4) by (simp add: holds_def)
  have "2 * ?n \<le> es * (2 * ?n)" using es(1) len by simp
  then have small: "2 * ?n < 2 ^ 31" by (rule le_less_trans) (rule es(2))
  obtain t where t: "dyn_array_ensure_capacity alloc a ?n es s = Some t" "grown_from es a s t" "holds t a xs"
      "?n \<le> capacity_at t a" "capacity_at s a \<noteq> 1 \<longrightarrow> capacity_at t a \<noteq> 1"
    using ensure_capacity_ok [OF assms(1-4) _ _ es] len by auto
  note keeps = grown_from_keeps [OF assms(2,3) t(2) assms(5)]
  have size: "size_at t a = size_at s a" "owner es t a" and others: "b \<noteq> a \<Longrightarrow> arrays t b = arrays s b" for b
    using t(2) by (simp_all add: grown_from_def)
  have "size_at s a * es < 2 ^ 31" "0 \<le> size_at s a * es"
    using le_less_trans [OF mult_left_mono [of "size_at s a" "2 * ?n" es] es(2)] len es(1) by (simp_all add: mult.commute)
  then have run: "dyn_array_add alloc a es s =
      Some ((data_at t a, size_at t a), put a ((arrays t a)\<lparr>da_size := size_at t a + 1\<rparr>) t)"
    using t(1) size(1) len small by (simp add: dyn_array_add_def c_int_ok)
  obtain b u where u: "blocks t (data_at t a) = Some b"
      "write_cell (data_at t a) (size_at t a) x (put a ((arrays t a)\<lparr>da_size := size_at t a + 1\<rparr>) t) = Some u"
      "wf_arrays L es u" "unshared L u a" "owner es u a" "arrays u = (arrays t)(a := (arrays t a)\<lparr>da_size := size_at t a + 1\<rparr>)"
      "blocks u = (blocks t)(data_at t a \<mapsto> b\<lparr>block_cells := (block_cells b)[nat (size_at t a) := Some x]\<rparr>)"
      "\<forall>c ys. c \<in> L \<longrightarrow> c \<noteq> a \<longrightarrow> holds t c ys \<longrightarrow> holds u c ys"
    using write_own [OF keeps(1) assms(3) size(2) keeps(2), of "size_at t a" "size_at t a + 1" x] t(4) size(1) len by auto
  have "length xs < length (block_cells b)"
    using size(2) u(1) t(4) len by (auto simp: owner_def)
  moreover have "take (length xs) (block_cells b) = map Some xs" using t(3) u(1) by (auto simp: holds_def)
  ultimately have "holds u a (xs @ [x])"
    using u(6,7) size(1) len by (simp add: holds_def take_Suc_conv_app_nth)
  with run u t(5) keeps(3) others show ?thesis by (intro exI [of _ "(data_at t a, size_at t a)"] exI) (auto simp: owner_def)
qed

section \<open>Arrays of integers\<close>






text \<open>An allocator, and a state in which array 0 owns a buffer and array 1 has none.\<close>

definition next_address :: "'c allocator" where
  "next_address h n = (if finite (dom h) then Suc (Max (insert 0 (dom h))) else 0)"

lemma next_address_fresh: "fresh_alloc next_address"
  unfolding fresh_alloc_def
proof (intro allI impI)
  fix h :: "nat \<Rightarrow> 'c block option" and n
  assume fin: "finite (dom h)"
  show "next_address h n \<notin> dom h"
  proof
    assume "next_address h n \<in> dom h"
    then have "next_address h n \<le> Max (insert 0 (dom h))" using fin by (intro Max_ge) simp_all
    with fin show False by (simp add: next_address_def)
  qed
qed

definition two_arrays :: "int dyn_state" where
  "two_arrays = \<lparr>blocks = [8 \<mapsto> \<lparr>block_bytes = 8, block_cells = [Some 5, Some 6]\<rparr>],
     arrays = (\<lambda>_. \<lparr>da_size = 0, da_capacity = 0, da_data = 0\<rparr>)(0 := \<lparr>da_size = 2, da_capacity = 2, da_data = 8\<rparr>)\<rparr>"

lemma two_arrays_wf: "wf_arrays {0, 1} 4 two_arrays" "holds two_arrays 0 [5, 6]" "unshared {0, 1} two_arrays 0"
  "vacant two_arrays 1"
  by (simp_all add: wf_arrays_def holds_def two_arrays_def unshared_def vacant_def owner_def)




text \<open>The outcome of sharing a buffer: the new array stands for the same list.\<close>

lemma copy_ok:
  assumes wf: "wf_arrays L es s" and L: "dst \<in> L" "src \<in> L" "dst \<noteq> src" and dst: "vacant s dst"
    and src: "holds s src xs" "xs \<noteq> []"
  shows "\<exists>t. dyn_array_copy dst src es s = Some t \<and> wf_arrays L es t \<and> holds t dst xs \<and> capacity_at t dst = - 1 \<and>
    (\<forall>b \<in> L. b \<noteq> dst \<longrightarrow> arrays t b = arrays s b \<and> (\<forall>ys. holds s b ys \<longrightarrow> holds t b ys))"
proof -
  let ?t = "put dst \<lparr>da_size = size_at s src, da_capacity = - 1, da_data = data_at s src\<rparr> s"
  have size: "0 < size_at s src" using src by (cases xs) (simp_all add: holds_def)
  have "dyn_array_uninit dst es s = Some s" using dst by (simp add: dyn_array_uninit_def vacant_def)
  then have run: "dyn_array_copy dst src es s = Some ?t" using size by (simp add: dyn_array_copy_def)
  obtain b where b: "blocks s (data_at s src) = Some b" "length xs \<le> length (block_cells b)"
    by (rule holds_cells [OF src])
  then have "copied ?t dst" using src(1) size by (simp add: copied_def put_def holds_def)
  moreover have "vacant ?t c \<or> owner es ?t c \<or> copied ?t c" if "c \<in> L" "c \<noteq> dst" for c
    using wf that by (auto simp: wf_arrays_def vacant_def owner_def copied_def put_def)
  ultimately have "wf_arrays L es ?t" using wf by (auto simp: wf_arrays_def put_def)
  with run src L show ?thesis by (intro exI [of _ ?t]) (auto simp: holds_def put_def)
qed

text \<open>
  A copy shares the buffer until it is made independent; what is then written into it does
  not reach the array it was copied from.
\<close>
lemma copy_becomes_independent:
  assumes "fresh_alloc alloc" "wf_arrays L 4 s" "dst \<in> L" "src \<in> L" "dst \<noteq> src" "vacant s dst" "holds s src xs"
    "i < length xs" "length xs < 2 ^ 28"
  shows "\<exists>t u v. dyn_array_int_copy dst src s = Some t \<and> dyn_array_int_is_copy dst t \<and> holds t dst xs \<and>
    dyn_array_int_ensure_independent alloc dst t = Some u \<and> \<not> dyn_array_int_is_copy dst u \<and> holds u dst xs \<and>
    dyn_array_int_set dst (int i) x u = Some v \<and> wf_arrays L 4 v \<and> holds v dst (xs[i := x]) \<and> holds v src xs"
proof -
  have "xs \<noteq> []" using assms(8) by auto
  then obtain t where t: "dyn_array_copy dst src 4 s = Some t" "wf_arrays L 4 t" "holds t dst xs"
      "capacity_at t dst = - 1" "holds t src xs"
    using copy_ok [OF assms(2-7)] assms(4,7) not_sym [OF assms(5)] by auto
  have len: "size_at t dst = int (length xs)" "0 < length xs" using t(3) \<open>xs \<noteq> []\<close> by (simp_all add: holds_def)
  have un: "unshared L t dst" using t(4) by (simp add: unshared_def)
  obtain u where u: "dyn_array_ensure_capacity alloc dst (size_at t dst) 4 t = Some u" "grown_from 4 dst t u"
      "holds u dst xs" "size_at t dst \<le> capacity_at u dst"
    using ensure_capacity_ok [OF assms(1) t(2) assms(3) t(3), of "size_at t dst"] len assms(9) by auto
  note keeps = grown_from_keeps [OF t(2) assms(3) u(2) un]
  have own: "owner 4 u dst" "0 < capacity_at u dst" "size_at u dst = int (length xs)"
    using u(2) len by (simp_all add: grown_from_def owner_def)
  have same: "put dst ((arrays u dst)\<lparr>da_size := size_at u dst\<rparr>) u = u" by (simp add: put_def)
  obtain b v where v: "blocks u (data_at u dst) = Some b"
      "write_cell (data_at u dst) (int i) x (put dst ((arrays u dst)\<lparr>da_size := size_at u dst\<rparr>) u) = Some v"
      "wf_arrays L 4 v" "arrays v = (arrays u)(dst := (arrays u dst)\<lparr>da_size := size_at u dst\<rparr>)"
      "blocks v = (blocks u)(data_at u dst \<mapsto> b\<lparr>block_cells := (block_cells b)[nat (int i) := Some x]\<rparr>)"
      "\<forall>c ys. c \<in> L \<longrightarrow> c \<noteq> dst \<longrightarrow> holds u c ys \<longrightarrow> holds v c ys"
    using write_own [OF keeps(1) assms(3) own(1) keeps(2), of "int i" "size_at u dst" x] own(3) u(4) len assms(8) by auto
  have "take (length xs) (block_cells b) = map Some xs" using u(3) v(1) \<open>xs \<noteq> []\<close> by (simp add: holds_def)
  then have "holds v dst (xs[i := x])"
    using v(4,5) own(3) by (simp add: holds_def take_update_swap map_update)
  moreover have "holds v src xs" using v(6) keeps(3) t(5) assms(4,5) by auto
  moreover have "dyn_array_ensure_independent alloc dst 4 t = Some u"
    using u(1) t(4) own(2) by (simp add: dyn_array_ensure_independent_def dyn_array_is_copy_def)
  ultimately show ?thesis
    using t u(3) v(2,3) own(2) unfolding same
    by (intro exI [of _ t] exI [of _ u] exI [of _ v])
      (simp add: dyn_array_int_copy_def dyn_array_int_is_copy_def dyn_array_is_copy_def
        dyn_array_int_ensure_independent_def dyn_array_int_set_def)
qed

lemma copy_becomes_independent_witness:
  "\<exists>t u v. dyn_array_int_copy 1 0 two_arrays = Some t \<and> dyn_array_int_ensure_independent next_address 1 t = Some u \<and>
    dyn_array_int_set 1 1 9 u = Some v \<and> holds v 1 [5, 9] \<and> holds v 0 [5, 6]"
  using copy_becomes_independent [OF next_address_fresh two_arrays_wf(1) _ _ _ two_arrays_wf(4,2), of 1 9]
  by auto

text \<open>
  Copying an empty array over one that owns a buffer leaves the target broken: its buffer is released
  but its size and capacity stay, so that every read of an element it still claims to have is undefined.
\<close>
lemma copy_of_empty_breaks_target:
  assumes "wf_arrays L 4 s" "dst \<in> L" "owner 4 s dst" "src \<noteq> dst" "size_at s src = 0" "blocks s 0 = None"
  shows "\<exists>t. dyn_array_int_copy dst src s = Some t \<and> dyn_array_int_size dst t = size_at s dst \<and>
    \<not> dyn_array_int_is_copy dst t \<and> (\<forall>i. dyn_array_int_get dst i t = None) \<and> dyn_array_int_uninit dst t = None"
proof -
  obtain b where b: "blocks s (data_at s dst) = Some b" "block_bytes b = 4 * capacity_at s dst"
    using assms(3) by (auto simp: owner_def)
  have cap: "0 < capacity_at s dst" "c_int (4 * capacity_at s dst) = Some (4 * capacity_at s dst)"
    using assms(3) by (simp_all add: owner_def c_int_ok)
  let ?t = "put dst ((arrays s dst)\<lparr>da_data := 0\<rparr>) (s\<lparr>blocks := (blocks s)(data_at s dst := None)\<rparr>)"
  have "dyn_array_int_copy dst src s = Some ?t"
    using b cap assms(4,5) by (simp add: dyn_array_int_copy_def dyn_array_copy_def dyn_array_uninit_def
        free_internal_def put_def Let_def)
  with cap assms(6) show ?thesis
    by (intro exI [of _ ?t]) (simp add: dyn_array_int_size_def dyn_array_int_is_copy_def dyn_array_is_copy_def
        dyn_array_int_get_def read_cell_def dyn_array_int_uninit_def dyn_array_uninit_def free_internal_def put_def)
qed

lemma copy_of_empty_breaks_target_witness:
  "\<exists>t. dyn_array_int_copy 0 1 two_arrays = Some t \<and> dyn_array_int_size 0 t = 2 \<and> dyn_array_int_get 0 1 t = None"
proof -
  have "owner 4 two_arrays 0" "size_at two_arrays 1 = 0" "blocks two_arrays 0 = None" "size_at two_arrays 0 = 2"
    by (simp_all add: two_arrays_def owner_def)
  from copy_of_empty_breaks_target [OF two_arrays_wf(1) _ this(1) _ this(2,3)] this(4) show ?thesis by auto
qed

section \<open>Arrays of pointers\<close>

text \<open>The list of an array of pointers, singletons included; there are no copies among them.\<close>

definition holds_ptr :: "bool \<Rightarrow> nat dyn_state \<Rightarrow> nat \<Rightarrow> nat list \<Rightarrow> bool" where
  "holds_ptr opt s a xs \<longleftrightarrow> (if singleton opt a s then xs = [data_at s a] else holds s a xs)"

definition buffered :: "bool \<Rightarrow> nat set \<Rightarrow> nat dyn_state \<Rightarrow> nat set" where
  "buffered opt L s = {a \<in> L. \<not> singleton opt a s}"

definition wf_ptr :: "bool \<Rightarrow> nat set \<Rightarrow> nat dyn_state \<Rightarrow> bool" where
  "wf_ptr opt L s \<longleftrightarrow> wf_arrays (buffered opt L s) 4 s \<and>
    (\<forall>a \<in> L. 0 \<le> capacity_at s a \<and> (singleton opt a s \<longrightarrow> size_at s a = 1) \<and> (\<not> opt \<longrightarrow> capacity_at s a \<noteq> 1))"

lemma wf_ptr_unshared: "wf_ptr opt L s \<Longrightarrow> K \<subseteq> L \<Longrightarrow> unshared K s a"
  unfolding wf_ptr_def unshared_def by (meson linorder_not_less subsetD)

lemma wf_arrays_cong:
  "\<lbrakk>wf_arrays K es s; blocks t = blocks s; \<And>a. a \<in> K' \<Longrightarrow> a \<in> K \<and> arrays t a = arrays s a\<rbrakk> \<Longrightarrow> wf_arrays K' es t"
  unfolding wf_arrays_def vacant_def owner_def copied_def by simp

lemma wf_arrays_vacant:
  "\<lbrakk>wf_arrays K es s; vacant s a\<rbrakk> \<Longrightarrow> wf_arrays (insert a K) es s"
  unfolding wf_arrays_def by (auto simp: vacant_def)

lemma holds_cong: "\<lbrakk>blocks t = blocks s; arrays t a = arrays s a\<rbrakk> \<Longrightarrow> holds t a xs \<longleftrightarrow> holds s a xs"
  by (simp add: holds_def)

lemma init_wf:
  assumes "wf_arrays K es s" "a \<notin> K"
  shows "wf_arrays (insert a K) es (dyn_array_init a s)" "vacant (dyn_array_init a s) a" "holds (dyn_array_init a s) a []"
proof -
  show v: "vacant (dyn_array_init a s) a" by (simp add: vacant_def dyn_array_init_def put_def)
  show "wf_arrays (insert a K) es (dyn_array_init a s)"
    by (rule wf_arrays_vacant [OF wf_arrays_cong [OF assms(1)] v])
      (use assms(2) in \<open>auto simp: dyn_array_init_def put_def\<close>)
  show "holds (dyn_array_init a s) a []" by (simp add: holds_def dyn_array_init_def put_def)
qed

text \<open>Adding to a singleton makes an array of two, whatever the size field said.\<close>

lemma add_to_singleton:
  assumes alloc: "fresh_alloc alloc" and wf: "wf_arrays K 4 s" "a \<notin> K" and one: "singleton opt a s"
    and owners: "\<forall>b \<in> K. 0 \<le> capacity_at s b"
  shows "\<exists>u. dyn_array_ptr_add opt alloc a x s = Some u \<and> wf_arrays (insert a K) 4 u \<and> holds u a [data_at s a, x] \<and>
    capacity_at u a \<noteq> 1 \<and> 0 < capacity_at u a \<and>
    (\<forall>b. b \<noteq> a \<longrightarrow> arrays u b = arrays s b) \<and> (\<forall>b \<in> K. \<forall>ys. holds s b ys \<longrightarrow> holds u b ys)"
proof -
  let ?s = "dyn_array_init a s"
  have arr: "arrays ?s b = arrays s b" if "b \<noteq> a" for b using that by (simp add: dyn_array_init_def put_def)
  have ne: "b \<noteq> a" if "b \<in> K" for b using that wf(2) by auto
  note init = init_wf [OF wf]
  have zero: "size_at ?s a = 0" "capacity_at ?s a = 0" using init(2) by (simp_all add: vacant_def)
  have un: "unshared (insert a K) ?s a" using zero by (simp add: unshared_def)
  obtain p t v where v: "dyn_array_add alloc a 4 ?s = Some (p, t)" "write_cell (fst p) (snd p) (data_at s a) t = Some v"
      "wf_arrays (insert a K) 4 v" "unshared (insert a K) v a" "holds v a [data_at s a]" "capacity_at v a \<noteq> 1"
      "\<forall>b. b \<noteq> a \<longrightarrow> arrays v b = arrays ?s b" "\<forall>b \<in> K. b \<noteq> a \<longrightarrow> (\<forall>ys. holds ?s b ys \<longrightarrow> holds v b ys)"
    using add_ok [OF alloc init(1) _ init(3) un, of "data_at s a"] zero by auto
  have "size_at v a = 1" using v(5) by (simp add: holds_def)
  then obtain q w u where u: "dyn_array_add alloc a 4 v = Some (q, w)" "write_cell (fst q) (snd q) x w = Some u"
      "wf_arrays (insert a K) 4 u" "holds u a [data_at s a, x]" "capacity_at u a \<noteq> 1" "0 < capacity_at u a"
      "\<forall>b. b \<noteq> a \<longrightarrow> arrays u b = arrays v b" "\<forall>b \<in> K. b \<noteq> a \<longrightarrow> (\<forall>ys. holds v b ys \<longrightarrow> holds u b ys)"
    using add_ok [OF alloc v(3) _ v(5) v(4), of x] v(6) by auto
  have "holds ?s b ys" if "b \<in> K" "holds s b ys" for b ys
    using that ne by (simp add: holds_def dyn_array_init_def put_def)
  then have "\<forall>b \<in> K. \<forall>ys. holds s b ys \<longrightarrow> holds u b ys" "\<forall>b. b \<noteq> a \<longrightarrow> arrays u b = arrays s b"
    using u(7,8) v(7,8) arr ne by auto
  moreover have "dyn_array_ptr_add opt alloc a x s = Some u"
    using one v(1,2) u(1,2) by (simp add: dyn_array_ptr_add_def singleton_def Let_def)
  ultimately show ?thesis using u by (intro exI [of _ u]) simp
qed

text \<open>From an array that got a buffer of two cells or more to all of them.\<close>

lemma wf_ptr_after:
  assumes "wf_ptr opt L s" "a \<in> L" "wf_arrays K 4 u" "buffered opt L s \<subseteq> K" "a \<in> K" "K \<subseteq> L"
    "0 \<le> capacity_at u a" "capacity_at u a \<noteq> 1" "holds u a xs"
    "\<forall>b. b \<noteq> a \<longrightarrow> arrays u b = arrays s b" "\<forall>b \<in> buffered opt L s. b \<noteq> a \<longrightarrow> (\<forall>ys. holds s b ys \<longrightarrow> holds u b ys)"
  shows "wf_ptr opt L u \<and> holds_ptr opt u a xs \<and>
    (\<forall>b \<in> L. b \<noteq> a \<longrightarrow> (\<forall>ys. holds_ptr opt s b ys \<longrightarrow> holds_ptr opt u b ys))"
proof -
  have same: "singleton opt b u = singleton opt b s" if "b \<noteq> a" for b using assms(10) that by (simp add: singleton_def)
  have a: "\<not> singleton opt a u" using assms(8) by (simp add: singleton_def)
  have "buffered opt L u \<subseteq> K"
  proof
    fix b assume "b \<in> buffered opt L u"
    then show "b \<in> K" using same [of b] assms(4,5) by (cases "b = a") (auto simp: buffered_def)
  qed
  then have "wf_arrays (buffered opt L u) 4 u" by (intro wf_arrays_cong [OF assms(3)]) auto
  then have "wf_ptr opt L u"
    using assms(1,7,8,10) same a unfolding wf_ptr_def by metis
  moreover have "holds_ptr opt u a xs" using a assms(9) by (simp add: holds_ptr_def)
  moreover have "holds_ptr opt u b ys" if "b \<in> L" "b \<noteq> a" "holds_ptr opt s b ys" for b ys
    using that same [of b] assms(10,11) by (auto simp: holds_ptr_def buffered_def split: if_splits)
  ultimately show ?thesis by blast
qed

text \<open>The first pointer is held in the place of the buffer.\<close>

lemma add_first:
  assumes wf: "wf_ptr opt L s" and a: "a \<in> L" and opt: "opt" "capacity_at s a = 0" and xs: "holds_ptr opt s a xs"
  shows "\<exists>u. dyn_array_ptr_add opt alloc a x s = Some u \<and> wf_ptr opt L u \<and> holds_ptr opt u a (xs @ [x]) \<and>
    (\<forall>b \<in> L. b \<noteq> a \<longrightarrow> (\<forall>ys. holds_ptr opt s b ys \<longrightarrow> holds_ptr opt u b ys))"
proof -
  have K: "wf_arrays (buffered opt L s) 4 s" using wf by (simp add: wf_ptr_def)
  then have "vacant s a" using a opt by (auto simp: wf_arrays_def buffered_def singleton_def owner_def copied_def)
  then have "xs = []" using xs opt by (simp add: holds_ptr_def singleton_def holds_def vacant_def)
  let ?u = "put a ((arrays s a)\<lparr>da_capacity := 1, da_size := 1, da_data := x\<rparr>) s"
  have same: "singleton opt b ?u = singleton opt b s" if "b \<noteq> a" for b using that by (simp add: singleton_def put_def)
  have one: "singleton opt a ?u" using opt by (simp add: singleton_def put_def)
  have "wf_arrays (buffered opt L ?u) 4 ?u"
    by (rule wf_arrays_cong [OF K]) (use one same in \<open>auto simp: buffered_def put_def\<close>)
  then have "wf_ptr opt L ?u" using wf opt by (auto simp: wf_ptr_def put_def singleton_def)
  moreover have "holds_ptr opt ?u b ys" if "b \<noteq> a" "holds_ptr opt s b ys" for b ys
    using that same [of b] by (auto simp: holds_ptr_def holds_def put_def split: if_splits)
  moreover have "holds_ptr opt ?u a [x]" using one by (simp add: holds_ptr_def put_def)
  moreover have "dyn_array_ptr_add opt alloc a x s = Some ?u"
    using opt by (simp add: dyn_array_ptr_add_def Let_def)
  ultimately show ?thesis using \<open>xs = []\<close> by auto
qed

text \<open>
  With or without the optimisation for single pointers, adding to an array of pointers appends to its
  list, and no other array changes.
\<close>
lemma ptr_add_ok:
  assumes "fresh_alloc alloc" "wf_ptr opt L s" "a \<in> L" "holds_ptr opt s a xs" "length xs + 1 < 2 ^ 28"
  shows "\<exists>u. dyn_array_ptr_add opt alloc a x s = Some u \<and> wf_ptr opt L u \<and> holds_ptr opt u a (xs @ [x]) \<and>
    (\<forall>b \<in> L. b \<noteq> a \<longrightarrow> (\<forall>ys. holds_ptr opt s b ys \<longrightarrow> holds_ptr opt u b ys))"
proof -
  let ?K = "buffered opt L s"
  have K: "wf_arrays ?K 4 s" "?K \<subseteq> L" using assms(2) by (auto simp: wf_ptr_def buffered_def)
  have owners: "\<forall>b \<in> L. 0 \<le> capacity_at s b" using assms(2) by (simp add: wf_ptr_def)
  consider "singleton opt a s" | "opt" "capacity_at s a = 0" | "a \<in> ?K" "\<not> (opt \<and> capacity_at s a = 0)" "\<not> singleton opt a s"
    using assms(3) by (auto simp: buffered_def)
  then show ?thesis
  proof cases
    case 1
    then have "a \<notin> ?K" by (simp add: buffered_def)
    from add_to_singleton [OF assms(1) K(1) this 1] owners K(2) obtain u where u:
        "dyn_array_ptr_add opt alloc a x s = Some u" "wf_arrays (insert a ?K) 4 u" "holds u a [data_at s a, x]"
        "capacity_at u a \<noteq> 1" "0 < capacity_at u a" "\<forall>b. b \<noteq> a \<longrightarrow> arrays u b = arrays s b"
        "\<forall>b \<in> ?K. \<forall>ys. holds s b ys \<longrightarrow> holds u b ys"
      by blast
    have "xs = [data_at s a]" using 1 assms(4) by (simp add: holds_ptr_def)
    with wf_ptr_after [OF assms(2,3) u(2), of "[data_at s a, x]"] u K(2) assms(3) show ?thesis by auto
  next
    case 2
    from add_first [OF assms(2,3) 2 assms(4)] show ?thesis by blast
  next
    case 3
    have h: "holds s a xs" using 3(3) assms(4) by (simp add: holds_ptr_def)
    have "4 * (2 * (size_at s a + 1)) < 2 ^ 31" using h assms(5) by (simp add: holds_def)
    from add_ok [OF assms(1) K(1) 3(1) h wf_ptr_unshared [OF assms(2) K(2)] zero_less_numeral this, of x]
    obtain p t u where u: "dyn_array_add alloc a 4 s = Some (p, t)" "write_cell (fst p) (snd p) x t = Some u"
        "wf_arrays ?K 4 u" "holds u a (xs @ [x])" "0 < capacity_at u a" "capacity_at s a \<noteq> 1 \<longrightarrow> capacity_at u a \<noteq> 1"
        "\<forall>b. b \<noteq> a \<longrightarrow> arrays u b = arrays s b" "\<forall>b \<in> ?K. b \<noteq> a \<longrightarrow> (\<forall>ys. holds s b ys \<longrightarrow> holds u b ys)"
      by (elim exE conjE) rule
    have "capacity_at s a \<noteq> 1" using 3(3) assms(2,3) by (auto simp: wf_ptr_def singleton_def)
    with u(6) have "capacity_at u a \<noteq> 1" by blast
    moreover have "dyn_array_ptr_add opt alloc a x s = Some u"
      unfolding dyn_array_ptr_add_def Let_def using 3(2,3) u(1,2) by (simp only: if_False simp_thms) simp
    ultimately show ?thesis
      using wf_ptr_after [OF assms(2,3) u(3) _ 3(1) K(2) _ _ u(4,7,8)] u(5) by auto
  qed
qed

text \<open>Removing the last pointer.\<close>

lemma ptr_pop_ok:
  assumes wf: "wf_ptr opt L s" and a: "a \<in> L" and xs: "holds_ptr opt s a (xs @ [x])"
  shows "\<exists>u. dyn_array_ptr_pop opt alloc a s = Some (x, u) \<and> wf_ptr opt L u \<and> holds_ptr opt u a xs \<and>
    (\<forall>b \<in> L. b \<noteq> a \<longrightarrow> (\<forall>ys. holds_ptr opt s b ys \<longrightarrow> holds_ptr opt u b ys))"
proof (cases "singleton opt a s")
  case True
  let ?u = "dyn_array_init a s"
  have K: "wf_arrays (buffered opt L s) 4 s" "a \<notin> buffered opt L s" using wf True by (simp_all add: wf_ptr_def buffered_def)
  note init = init_wf [OF K]
  have x: "xs = []" "x = data_at s a" using xs True by (simp_all add: holds_ptr_def)
  have one: "size_at s a = 1" using wf a True by (simp add: wf_ptr_def)
  have keep: "arrays ?u b = arrays s b" "holds s b ys \<longrightarrow> holds ?u b ys" if "b \<noteq> a" for b ys
    using that by (simp_all add: dyn_array_init_def put_def holds_def)
  have "dyn_array_ptr_pop opt alloc a s = Some (x, ?u)"
    using True one x by (simp add: dyn_array_ptr_pop_def dyn_array_ptr_get_def)
  moreover have "capacity_at ?u a = 0" using init(2) by (simp add: vacant_def)
  ultimately show ?thesis
    using wf_ptr_after [OF wf a init(1) _ _ _ _ _ init(3)] keep a x by (auto simp: buffered_def)
next
  case False
  let ?u = "put a ((arrays s a)\<lparr>da_size := size_at s a - 1\<rparr>) s"
  have K: "wf_arrays (buffered opt L s) 4 s" "a \<in> buffered opt L s" using wf False a by (simp_all add: wf_ptr_def buffered_def)
  have h: "holds s a (xs @ [x])" using xs False by (simp add: holds_ptr_def)
  then obtain b where b: "blocks s (data_at s a) = Some b" "take (length xs + 1) (block_cells b) = map Some xs @ [Some x]"
      "length xs + 1 \<le> length (block_cells b)"
    by (rule holds_cells) simp_all
  have size: "size_at s a = int (length xs) + 1" using h by (simp add: holds_def)
  have "0 \<le> capacity_at s a" "capacity_at s a \<noteq> 1" using wf a False by (auto simp: wf_ptr_def singleton_def)
  with K size have own: "owner 4 s a" "capacity_at s a > 1"
    by (auto simp: wf_arrays_def vacant_def copied_def owner_def)
  have cell: "take (length xs) (block_cells b) = map Some xs" "block_cells b ! length xs = Some x"
    using b(2,3) by (simp_all add: take_Suc_conv_app_nth Suc_le_eq)
  have "dyn_array_ptr_pop opt alloc a s = Some (x, ?u)"
    using False own(2) size b cell by (simp add: dyn_array_ptr_pop_def Let_def dyn_array_ensure_independent_def
        dyn_array_is_copy_def dyn_array_ptr_get_def read_cell_def)
  moreover have "wf_arrays (buffered opt L s) 4 ?u"
    using K own(1) size by (auto simp: wf_arrays_def vacant_def copied_def owner_def put_def)
  moreover have "holds ?u a xs" using b(1) cell(1) size by (simp add: holds_def put_def)
  moreover have "arrays ?u c = arrays s c" "holds s c ys \<longrightarrow> holds ?u c ys" if "c \<noteq> a" for c ys
    using that by (simp_all add: put_def holds_def)
  ultimately show ?thesis
    using wf_ptr_after [OF wf a, of "buffered opt L s" ?u xs] K(2) own(2) by (auto simp: buffered_def put_def)
qed

text \<open>Two empty arrays.\<close>

definition empty_arrays :: "nat dyn_state" where
  "empty_arrays = \<lparr>blocks = Map.empty, arrays = (\<lambda>_. \<lparr>da_size = 0, da_capacity = 0, da_data = 0\<rparr>)\<rparr>"

lemma empty_arrays_wf: "wf_ptr opt L empty_arrays" "holds_ptr opt empty_arrays a []"
  by (simp_all add: empty_arrays_def wf_ptr_def wf_arrays_def buffered_def singleton_def vacant_def holds_ptr_def holds_def)

text \<open>
  What was added to an array of pointers is what is removed from it next, and the array is back at the
  list it had; in both settings of the optimisation, across every change of representation in between.
\<close>
lemma ptr_add_then_pop:
  assumes "fresh_alloc alloc" "wf_ptr opt L s" "a \<in> L" "holds_ptr opt s a xs" "length xs + 1 < 2 ^ 28"
  shows "\<exists>t u. dyn_array_ptr_add opt alloc a x s = Some t \<and> dyn_array_ptr_pop opt alloc a t = Some (x, u) \<and>
    wf_ptr opt L u \<and> holds_ptr opt u a xs \<and>
    (\<forall>b \<in> L. b \<noteq> a \<longrightarrow> (\<forall>ys. holds_ptr opt s b ys \<longrightarrow> holds_ptr opt u b ys))"
proof -
  from ptr_add_ok [OF assms, of x] obtain t where t: "dyn_array_ptr_add opt alloc a x s = Some t" "wf_ptr opt L t"
      "holds_ptr opt t a (xs @ [x])" "\<forall>b \<in> L. b \<noteq> a \<longrightarrow> (\<forall>ys. holds_ptr opt s b ys \<longrightarrow> holds_ptr opt t b ys)"
    by blast
  from ptr_pop_ok [OF t(2) assms(3) t(3), of alloc] t(1,4) show ?thesis by fastforce
qed

lemma ptr_add_then_pop_witness:
  "\<exists>t u. dyn_array_ptr_add True next_address 3 7 empty_arrays = Some t \<and> dyn_array_ptr_pop True next_address 3 t = Some (7, u) \<and>
    holds_ptr True u 3 []"
  using ptr_add_then_pop [OF next_address_fresh empty_arrays_wf(1) _ empty_arrays_wf(2), of 3 "{3}" True 7] by auto

text \<open>
  With the optimisation, assigning an empty array to one that holds a single pointer does not remove
  that pointer: the size becomes zero, but the array stays a singleton, and the pointer is back
  as the first element as soon as another one is added.
\<close>
lemma set_all_of_empty_keeps_pointer:
  assumes "fresh_alloc alloc" "wf_ptr True L s" "dst \<in> L" "src \<in> L" "dst \<noteq> src"
    "holds_ptr True s dst [y]" "singleton True dst s" "holds_ptr True s src []"
  shows "\<exists>t u. dyn_array_ptr_set_all True alloc dst src s = Some t \<and> dyn_array_ptr_size dst t = 0 \<and>
    dyn_array_ptr_add True alloc dst x t = Some u \<and> holds_ptr True u dst [y, x]"
proof -
  let ?t = "put dst ((arrays s dst)\<lparr>da_size := 0\<rparr>) s"
  have src: "size_at s src = 0" using assms(8) by (auto simp: holds_ptr_def holds_def split: if_splits)
  have y: "y = data_at s dst" using assms(6,7) by (simp add: holds_ptr_def)
  have set: "dyn_array_ptr_set_all True alloc dst src s = Some ?t"
    using src by (simp add: dyn_array_ptr_set_all_def Let_def)
  have one: "singleton True dst ?t" using assms(7) by (simp add: singleton_def put_def)
  have K: "wf_arrays (buffered True L s) 4 ?t" "dst \<notin> buffered True L s"
    using assms(2,7) by (auto simp: wf_ptr_def wf_arrays_def buffered_def put_def vacant_def owner_def copied_def)
  moreover have "\<forall>b \<in> buffered True L s. 0 \<le> capacity_at ?t b"
    using assms(2) K(2) by (auto simp: wf_ptr_def buffered_def put_def)
  ultimately obtain u where "dyn_array_ptr_add True alloc dst x ?t = Some u" "holds u dst [data_at ?t dst, x]"
      "capacity_at u dst \<noteq> 1"
    using add_to_singleton [OF assms(1) K one] by blast
  with set y show ?thesis
    by (intro exI [of _ ?t] exI [of _ u]) (simp add: dyn_array_ptr_size_def holds_ptr_def singleton_def put_def)
qed

definition one_pointer :: "nat dyn_state" where
  "one_pointer = \<lparr>blocks = Map.empty,
     arrays = (\<lambda>_. \<lparr>da_size = 0, da_capacity = 0, da_data = 0\<rparr>)(0 := \<lparr>da_size = 1, da_capacity = 1, da_data = 5\<rparr>)\<rparr>"

lemma set_all_of_empty_keeps_pointer_witness:
  "\<exists>t u. dyn_array_ptr_set_all True next_address 0 1 one_pointer = Some t \<and> dyn_array_ptr_size 0 t = 0 \<and>
    dyn_array_ptr_add True next_address 0 7 t = Some u \<and> holds_ptr True u 0 [5, 7]"
proof -
  have "wf_ptr True {0, 1} one_pointer" "holds_ptr True one_pointer 0 [5]" "singleton True 0 one_pointer"
    "holds_ptr True one_pointer 1 []"
    by (auto simp: one_pointer_def wf_ptr_def wf_arrays_def buffered_def singleton_def vacant_def holds_ptr_def holds_def)
  from set_all_of_empty_keeps_pointer [OF next_address_fresh this(1) _ _ _ this(2-4), of 7] show ?thesis by simp
qed



end
