(* ===== verification/GcDescr.thy ===== *)
theory GcDescr
  imports Prelude
begin

text \<open>
  \<open>mono/sgen/sgen-descriptor.h\<close>, with the dispatch of \<open>sgen-scan-object.h\<close>: how a descriptor says which
  words of an object are references. The macros take a macro \<open>HANDLE_PTR\<close>; their model is the list of
  addresses they hand to it, in order. Pointer arithmetic beyond the address space, \<open>__builtin_ctz\<close> of zero,
  shifts by the width of the type and reads behind a bitmap are undefined and give \<open>None\<close>, as does a
  failed assertion. The bitmaps of complex descriptors are a parameter, as are the length and the element size of an
  array object.
\<close>

section \<open>Descriptors\<close>

definition DESC_TYPE_MASK :: u32 where "DESC_TYPE_MASK = 7"
definition MAX_ELEMENT_SIZE :: u32 where "MAX_ELEMENT_SIZE = 0x3ff"
definition VECTOR_INFO_SHIFT :: nat where "VECTOR_INFO_SHIFT = 14"
definition VECTOR_ELSIZE_SHIFT :: nat where "VECTOR_ELSIZE_SHIFT = 3"
definition LOW_TYPE_BITS :: nat where "LOW_TYPE_BITS = 3"
definition OBJECT_HEADER_WORDS :: nat where "OBJECT_HEADER_WORDS = 2"
definition GC_BITS_PER_WORD :: nat where "GC_BITS_PER_WORD = 32"

datatype (plugins only: ) desc_type =
    DESC_TYPE_RUN_LENGTH | DESC_TYPE_BITMAP | DESC_TYPE_SMALL_PTRFREE | DESC_TYPE_COMPLEX | DESC_TYPE_VECTOR
  | DESC_TYPE_COMPLEX_ARR | DESC_TYPE_COMPLEX_PTRFREE

fun desc_type_val :: "desc_type \<Rightarrow> u32" where
  "desc_type_val DESC_TYPE_RUN_LENGTH = 1"
| "desc_type_val DESC_TYPE_BITMAP = 2"
| "desc_type_val DESC_TYPE_SMALL_PTRFREE = 3"
| "desc_type_val DESC_TYPE_COMPLEX = 4"
| "desc_type_val DESC_TYPE_VECTOR = 5"
| "desc_type_val DESC_TYPE_COMPLEX_ARR = 6"
| "desc_type_val DESC_TYPE_COMPLEX_PTRFREE = 7"

definition DESC_TYPE_PTRFREE_MASK :: u32 where "DESC_TYPE_PTRFREE_MASK = 3"
definition DESC_TYPE_PTRFREE_BITS :: u32 where "DESC_TYPE_PTRFREE_BITS = 3"

datatype (plugins only: ) vector_type = DESC_TYPE_V_PTRFREE | DESC_TYPE_V_REFS | DESC_TYPE_V_RUN_LEN | DESC_TYPE_V_BITMAP

fun vector_type_val :: "vector_type \<Rightarrow> u32" where
  "vector_type_val DESC_TYPE_V_PTRFREE = 0"
| "vector_type_val DESC_TYPE_V_REFS = 1"
| "vector_type_val DESC_TYPE_V_RUN_LEN = 2"
| "vector_type_val DESC_TYPE_V_BITMAP = 3"

definition VECTOR_SUBTYPE_PTRFREE :: u32 where
  "VECTOR_SUBTYPE_PTRFREE = push_bit VECTOR_INFO_SHIFT (vector_type_val DESC_TYPE_V_PTRFREE)"

definition sgen_gc_descr_has_references :: "u32 \<Rightarrow> bool" where
  "sgen_gc_descr_has_references desc =
    (if desc AND DESC_TYPE_PTRFREE_MASK = DESC_TYPE_PTRFREE_BITS then False
     else if desc AND 0xC007 = desc_type_val DESC_TYPE_VECTOR OR VECTOR_SUBTYPE_PTRFREE then False
     else True)"

section \<open>Objects and pointers\<close>

text \<open>An object: its address, and what the runtime answers when it is an array.\<close>

record gc_object =
  obj_addr :: u32
  array_length :: u32
  element_size :: u32

text \<open>\<open>MonoArray\<close>: the header of two words, \<open>bounds\<close>, \<open>max_length\<close>, then the elements.\<close>

definition sgen_client_array_data_start :: "gc_object \<Rightarrow> u32" where
  "sgen_client_array_data_start obj = obj_addr obj + 16"

definition advance_bytes :: "u32 \<Rightarrow> nat \<Rightarrow> u32 option" where
  "advance_bytes p n = (if unat p + n < 2 ^ 32 then Some (p + of_nat n) else None)"

definition advance :: "u32 \<Rightarrow> nat \<Rightarrow> u32 option" where
  "advance p n = advance_bytes p (4 * n)"

lemma advance_bytes_unat: "advance_bytes p n = Some q \<Longrightarrow> unat q = unat p + n"
  by (auto simp: advance_bytes_def unat_word_ariths unat_of_nat split: if_splits)

lemma advance_unat: "advance p n = Some q \<Longrightarrow> unat q = unat p + 4 * n"
  unfolding advance_def by (rule advance_bytes_unat)

definition builtin_ctz :: "u32 \<Rightarrow> nat option" where
  "builtin_ctz x = (if x = 0 then None else Some (length (takeWhile (\<lambda>i. \<not> bit x i) [0..<32])))"

section \<open>The loops\<close>

text \<open>\<open>while (p < end) { HANDLE_PTR (p); p++; }\<close>\<close>

function words_loop :: "u32 \<Rightarrow> u32 \<Rightarrow> u32 list option" where
  "words_loop p e =
    (if p < e then do { q \<leftarrow> advance p 1; rest \<leftarrow> words_loop q e; Some (p # rest) } else Some [])"
  by auto
termination
  by (relation "measure (\<lambda>(p, e). unat e - unat p)") (auto simp: word_less_nat_alt dest: advance_unat)

text \<open>\<open>while (bmap) { if (bmap & 1) HANDLE_PTR (p); bmap >>= 1; ++p; }\<close>\<close>

lemma unat_drop_bit_div: "unat (drop_bit n (x :: u32)) = unat x div 2 ^ n"
proof -
  have "take_bit 32 (unat x) = unat x" by (rule take_bit_nat_eq_self) (rule unat_u32_less)
  then have "unat (drop_bit n x) = drop_bit n (unat x)" 
    using unsigned_drop_bit_eq [of n x, where 'a = nat] by simp
  then show ?thesis by (simp only: drop_bit_eq_div)
qed

lemma half_less: "(x :: u32) \<noteq> 0 \<Longrightarrow> unat (drop_bit 1 x) < unat x"
  by (simp add: drop_bit_eq_div unat_div unat_gt_0)

function bits_loop :: "u32 \<Rightarrow> u32 \<Rightarrow> u32 list option" where
  "bits_loop bmap p =
    (if bmap \<noteq> 0 then do {
       q \<leftarrow> advance p 1;
       rest \<leftarrow> bits_loop (drop_bit 1 bmap) q;
       Some (if bmap AND 1 \<noteq> 0 then p # rest else rest) }
     else Some [])"
  by auto
termination
  by (relation "measure (\<lambda>(bmap, p). unat bmap)") (simp_all add: half_less del: One_nat_def)

text \<open>The loop for the GNU compiler, which skips the zero bits at once.\<close>

lemma ctz_less:
  assumes "builtin_ctz x = Some i"
  shows "unat (drop_bit (Suc i) x) < unat x"
proof -
  have "x \<noteq> 0" using assms by (auto simp: builtin_ctz_def)
  moreover have "(1 :: nat) < 2 ^ Suc i" by (rule one_less_power) simp_all
  ultimately have "unat x div 2 ^ Suc i < unat x" by (intro div_less_dividend) (simp_all add: unat_gt_0)
  then show ?thesis by (simp only: unat_drop_bit_div)
qed

function ctz_loop :: "u32 \<Rightarrow> u32 \<Rightarrow> u32 list option" where
  "ctz_loop bmap p = do {
     index \<leftarrow> builtin_ctz bmap;
     p \<leftarrow> advance p index;
     rest_map \<leftarrow> (if index + 1 < 32 then Some (drop_bit (index + 1) bmap) else None);
     q \<leftarrow> advance p 1;
     rest \<leftarrow> (if rest_map \<noteq> 0 then ctz_loop rest_map q else Some []);
     Some (p # rest) }"
  by auto
termination
  by (relation "measure (\<lambda>(bmap, p). unat bmap)") (auto simp: ctz_less split: if_splits)

declare words_loop.simps [simp del] bits_loop.simps [simp del] ctz_loop.simps [simp del]

text \<open>The words of a bitmap of several words; reading behind it is undefined.\<close>

fun bitmap_loop :: "u32 list \<Rightarrow> u32 \<Rightarrow> u32 \<Rightarrow> u32 list option" where
  "bitmap_loop [] bwords run = (if bwords > 0 then None else Some [])"
| "bitmap_loop (w # ws) bwords run =
    (if bwords > 0 then do {
       found \<leftarrow> bits_loop w run;
       run' \<leftarrow> advance run GC_BITS_PER_WORD;
       rest \<leftarrow> bitmap_loop ws (bwords - 1) run';
       Some (found @ rest) }
     else Some [])"

text \<open>\<open>while (e_start < e_end) { ...; e_start += el_size; }\<close>\<close>

partial_function (option) elements_loop :: "(u32 \<Rightarrow> u32 list option) \<Rightarrow> u32 \<Rightarrow> u32 \<Rightarrow> u32 \<Rightarrow> u32 list option" where
  "elements_loop scan el_size e_start e_end =
    (if e_start < e_end then do {
       found \<leftarrow> scan e_start;
       e' \<leftarrow> advance_bytes e_start (unat el_size);
       rest \<leftarrow> elements_loop scan el_size e' e_end;
       Some (found @ rest) }
     else Some [])"

section \<open>The macros\<close>

definition OBJ_RUN_LEN_FOREACH_PTR :: "u32 \<Rightarrow> gc_object \<Rightarrow> u32 list option" where
  "OBJ_RUN_LEN_FOREACH_PTR desc obj =
    (if desc AND 0xffff0000 \<noteq> 0 then do {
       p \<leftarrow> advance (obj_addr obj) (unat (drop_bit 16 desc AND 0xff));
       e \<leftarrow> advance p (unat (drop_bit 24 desc AND 0xff));
       words_loop p e }
     else Some [])"

definition OBJ_BITMAP_FOREACH_PTR :: "u32 \<Rightarrow> gc_object \<Rightarrow> u32 list option" where
  "OBJ_BITMAP_FOREACH_PTR desc obj = do {
     p \<leftarrow> advance (obj_addr obj) OBJECT_HEADER_WORDS;
     ctz_loop (drop_bit LOW_TYPE_BITS desc) p }"

text \<open>The definition for other compilers; its loop tests the bitmap at the end of a round only.\<close>

definition OBJ_BITMAP_FOREACH_PTR_portable :: "u32 \<Rightarrow> gc_object \<Rightarrow> u32 list option" where
  "OBJ_BITMAP_FOREACH_PTR_portable desc obj = do {
     p \<leftarrow> advance (obj_addr obj) OBJECT_HEADER_WORDS;
     bmap \<leftarrow> Some (drop_bit LOW_TYPE_BITS desc);
     q \<leftarrow> advance p 1;
     rest \<leftarrow> bits_loop (drop_bit 1 bmap) q;
     Some (if bmap AND 1 \<noteq> 0 then p # rest else rest) }"

definition OBJ_COMPLEX_FOREACH_PTR :: "(u32 \<Rightarrow> u32 list) \<Rightarrow> u32 \<Rightarrow> gc_object \<Rightarrow> u32 list option" where
  "OBJ_COMPLEX_FOREACH_PTR sgen_get_complex_descriptor desc obj =
    (case sgen_get_complex_descriptor desc of
       [] \<Rightarrow> None
     | bwords # bitmap_data \<Rightarrow> bitmap_loop bitmap_data (bwords - 1) (obj_addr obj))"

definition OBJ_COMPLEX_ARR_FOREACH_PTR :: "(u32 \<Rightarrow> u32 list) \<Rightarrow> u32 \<Rightarrow> gc_object \<Rightarrow> u32 list option" where
  "OBJ_COMPLEX_ARR_FOREACH_PTR sgen_get_complex_descriptor desc obj =
    (case sgen_get_complex_descriptor desc of
       [] \<Rightarrow> None
     | mbwords # mbitmap_data \<Rightarrow> do {
         e_start \<leftarrow> Some (sgen_client_array_data_start obj);
         e_end \<leftarrow> advance_bytes e_start (unat (element_size obj * array_length obj));
         elements_loop (bitmap_loop mbitmap_data (mbwords - 1)) (element_size obj) e_start e_end })"

definition OBJ_VECTOR_FOREACH_PTR :: "u32 \<Rightarrow> gc_object \<Rightarrow> u32 list option" where
  "OBJ_VECTOR_FOREACH_PTR desc obj =
    (if desc AND 0xffffc000 \<noteq> 0 then
       let el_size = drop_bit 3 desc AND MAX_ELEMENT_SIZE;
           etype = desc AND 0xc000;
           e_start = sgen_client_array_data_start obj
       in if etype = push_bit 14 (vector_type_val DESC_TYPE_V_REFS) then do {
            end_refs \<leftarrow> advance_bytes e_start (unat (el_size * array_length obj));
            words_loop e_start end_refs }
          else if etype = push_bit 14 (vector_type_val DESC_TYPE_V_RUN_LEN) then do {
            e_end \<leftarrow> advance_bytes e_start (unat (el_size * array_length obj));
            elements_loop (\<lambda>e. do {
                p \<leftarrow> advance e (unat (drop_bit 16 desc AND 0xff));
                those (map (advance p) [0..<unat (drop_bit 24 desc AND 0xff)]) })
              el_size e_start e_end }
          else if etype = push_bit 14 (vector_type_val DESC_TYPE_V_BITMAP) then do {
            e_end \<leftarrow> advance_bytes e_start (unat (el_size * array_length obj));
            elements_loop (bits_loop (drop_bit 16 desc)) el_size e_start e_end }
          else Some []
     else Some [])"

section \<open>Scanning an object\<close>

definition scan_object :: "(u32 \<Rightarrow> u32 list) \<Rightarrow> u32 \<Rightarrow> gc_object \<Rightarrow> u32 list option" where
  "scan_object sgen_get_complex_descriptor desc obj =
    (let type = desc AND DESC_TYPE_MASK in
     if type = desc_type_val DESC_TYPE_RUN_LENGTH then OBJ_RUN_LEN_FOREACH_PTR desc obj
     else if type = desc_type_val DESC_TYPE_VECTOR then OBJ_VECTOR_FOREACH_PTR desc obj
     else if type = desc_type_val DESC_TYPE_BITMAP then OBJ_BITMAP_FOREACH_PTR desc obj
     else if type = desc_type_val DESC_TYPE_COMPLEX then OBJ_COMPLEX_FOREACH_PTR sgen_get_complex_descriptor desc obj
     else if type = desc_type_val DESC_TYPE_COMPLEX_ARR then OBJ_COMPLEX_ARR_FOREACH_PTR sgen_get_complex_descriptor desc obj
     else if type = desc_type_val DESC_TYPE_SMALL_PTRFREE \<or> type = desc_type_val DESC_TYPE_COMPLEX_PTRFREE then Some []
     else None)"

end
