(* ===== verification/GcDescrProps.thy ===== *)
theory GcDescrProps
  imports GcDescr
begin

text \<open>
  Descriptors: what the macros visit, in terms of the bits of the descriptor, that both definitions for
  bitmaps agree, and that a descriptor without references makes a scan visit nothing.
\<close>

section \<open>Pointer-free descriptors\<close>

lemma unat_mono_and: "unat (x AND y) \<le> unat (y :: u32)"
  by transfer (simp add: nat_le_eq_zle)

lemma pointer_free_scan:
  assumes "\<not> sgen_gc_descr_has_references desc"
  shows "scan_object complex desc obj = Some []"
proof -
  have "desc AND 3 = 3 \<or> desc AND 0xC007 = 5"
    using assms by (simp add: sgen_gc_descr_has_references_def DESC_TYPE_PTRFREE_MASK_def DESC_TYPE_PTRFREE_BITS_def
        VECTOR_SUBTYPE_PTRFREE_def split: if_splits)
  then show ?thesis
  proof
    assume low: "desc AND 3 = 3"
    have "unat (desc AND 7) \<le> unat (7 :: u32)" by (rule unat_mono_and)
    then have "unat (desc AND 7) \<in> set [0..<8]" by auto
    then have "desc AND 7 \<in> {0, 1, 2, 3, 4, 5, 6, 7}" by (auto simp: upt_rec word_unat_eq_iff)
    moreover have "(desc AND 7) AND 3 = 3" using low by (simp add: and.assoc)
    ultimately have "desc AND 7 = 3 \<or> desc AND 7 = 7" by auto
    then show ?thesis by (auto simp: scan_object_def DESC_TYPE_MASK_def)
  next
    assume vector: "desc AND 0xC007 = 5"
    have "desc AND 7 = (desc AND 0xC007) AND 7" "desc AND 0xc000 = (desc AND 0xC007) AND 0xc000"
      by (simp_all add: and.assoc)
    then have "desc AND 7 = 5" "desc AND 0xc000 = 0" using vector by simp_all
    then show ?thesis
      by (simp add: scan_object_def DESC_TYPE_MASK_def OBJ_VECTOR_FOREACH_PTR_def Let_def)
  qed
qed

text \<open>
  When \<open>sgen_gc_descr_has_references\<close> answers no, for whatever descriptor, scanning the object
  succeeds and visits no word at all.
\<close>
lemma no_references_no_pointers:
  assumes "\<not> sgen_gc_descr_has_references desc"
  shows "scan_object complex desc obj = Some []"
  using assms by (rule pointer_free_scan)

lemma no_references_no_pointers_witness:
  "scan_object (\<lambda>_. []) 0x12343 \<lparr>obj_addr = 64, array_length = 0, element_size = 0\<rparr> = Some []"
  by (rule no_references_no_pointers)
    (simp add: sgen_gc_descr_has_references_def DESC_TYPE_PTRFREE_MASK_def DESC_TYPE_PTRFREE_BITS_def)

section \<open>Bitmaps\<close>

lemma advance_ok: "unat p + 4 * n < 2 ^ 32 \<Longrightarrow> advance p n = Some (p + 4 * of_nat n)"
  by (simp add: advance_def advance_bytes_def)

lemma advance_ok_unat: "unat (p :: u32) + 4 * n < 2 ^ 32 \<Longrightarrow> unat (p + 4 * of_nat n) = unat p + 4 * n"
  by (rule advance_unat [OF advance_ok])

text \<open>The addresses of the words whose bits are set, the first word being at \<open>p\<close>.\<close>

definition words_at :: "u32 \<Rightarrow> nat list \<Rightarrow> u32 list" where
  "words_at p = map (\<lambda>i. p + 4 * of_nat i)"

lemma words_at_Suc: "words_at p (map Suc is) = words_at (p + 4) is"
  by (simp add: words_at_def algebra_simps)

lemma bits_upt_Suc:
  "filter (bit x) [0..<Suc k] = (if bit x 0 then [0] else []) @ map Suc (filter (bit (drop_bit 1 x)) [0..<k])"
proof -
  have "[0..<Suc k] = 0 # map Suc [0..<k]" by (simp add: upt_conv_Cons map_Suc_upt del: upt_Suc)
  then show ?thesis by (simp add: filter_map comp_def bit_drop_bit_eq)
qed

lemma drop_one_less: "unat (x :: u32) < 2 ^ Suc k \<Longrightarrow> unat (drop_bit 1 x) < 2 ^ k"
  unfolding unat_drop_bit_div by auto

lemma odd_bit: "(x :: u32) AND 1 \<noteq> 0 \<longleftrightarrow> bit x 0"
  by (simp add: and_one_eq bit_0 mod_2_eq_odd)

lemma bits_loop_visits:
  assumes "unat x < 2 ^ k" "unat p + 4 * k < 2 ^ 32"
  shows "bits_loop x p = Some (words_at p (filter (bit x) [0..<k]))"
  using assms
proof (induction k arbitrary: x p)
  case 0
  then show ?case by (subst bits_loop.simps) (simp add: words_at_def unat_eq_zero)
next
  case (Suc k)
  show ?case
  proof (cases "x = 0")
    case True
    then show ?thesis by (subst bits_loop.simps) (simp add: words_at_def)
  next
    case False
    have p: "advance p 1 = Some (p + 4)" "unat (p + 4) = unat p + 4"
      using advance_ok [of p 1] advance_ok_unat [of p 1] Suc.prems(2) by simp_all
    have "bits_loop (drop_bit 1 x) (p + 4) = Some (words_at (p + 4) (filter (bit (drop_bit 1 x)) [0..<k]))"
      by (rule Suc.IH) (use drop_one_less [OF Suc.prems(1)] Suc.prems(2) p(2) in simp_all)
    then have "bits_loop x p = Some ((if bit x 0 then [p] else []) @ words_at (p + 4) (filter (bit (drop_bit 1 x)) [0..<k]))"
      using False p(1) odd_bit [of x] by (subst bits_loop.simps) simp
    then show ?thesis
      unfolding bits_upt_Suc by (simp add: words_at_Suc [symmetric]) (simp add: words_at_def)
  qed
qed

text \<open>The loop of the GNU compiler moves over a zero bit like the other one.\<close>

lemma ctz_odd: "bit x 0 \<Longrightarrow> builtin_ctz x = Some 0"
  by (auto simp: builtin_ctz_def upt_rec)

lemma ctz_even:
  assumes "x \<noteq> 0" "\<not> bit x 0"
  shows "drop_bit 1 x \<noteq> 0 \<and> (\<exists>i. builtin_ctz (drop_bit 1 x) = Some i \<and> builtin_ctz x = Some (Suc i))"
proof -
  let ?y = "drop_bit 1 x"
  obtain j where j: "bit x j" "j < 32" using assms(1) bit_imp_le_length by (fastforce simp: bit_eq_iff)
  with assms(2) obtain i where i: "j = Suc i" by (cases j) auto
  with j have yi: "bit ?y i" "i \<in> set [0..<31]" by (simp_all add: bit_drop_bit_eq)
  then have y: "?y \<noteq> 0" by auto
  have cons: "[0..<32] = 0 # map Suc [0..<31]" and snoc: "[0..<32] = [0..<31] @ [31]" by (simp_all add: upt_conv_Cons)
  have "takeWhile (\<lambda>i. \<not> bit x i) [0..<32] = 0 # map Suc (takeWhile (\<lambda>i. \<not> bit ?y i) [0..<31])"
    unfolding cons using assms(2) by (simp add: takeWhile_map comp_def bit_drop_bit_eq)
  moreover have "takeWhile (\<lambda>i. \<not> bit ?y i) ([0..<31] @ [31]) = takeWhile (\<lambda>i. \<not> bit ?y i) [0..<31]"
    by (rule takeWhile_append1 [OF yi(2)]) (use yi(1) in simp)
  ultimately have "takeWhile (\<lambda>i. \<not> bit x i) [0..<32] = 0 # map Suc (takeWhile (\<lambda>i. \<not> bit ?y i) [0..<32])"
    unfolding snoc by simp
  then show ?thesis using y assms(1) by (simp add: builtin_ctz_def)
qed

lemma ctz_bound: "builtin_ctz x = Some i \<Longrightarrow> i < 32 \<and> bit x i"
proof -
  assume i: "builtin_ctz x = Some i"
  then have x: "x \<noteq> 0" "i = length (takeWhile (\<lambda>j. \<not> bit x j) [0..<32])" by (auto simp: builtin_ctz_def split: if_splits)
  obtain j where j: "bit x j" "j < 32" using x(1) bit_imp_le_length by (fastforce simp: bit_eq_iff)
  have "i \<noteq> 32"
  proof
    assume "i = 32"
    then have "takeWhile (\<lambda>j. \<not> bit x j) [0..<32] = [0..<32]"
      using x(2) takeWhile_eq_take [of "\<lambda>j. \<not> bit x j" "[0..<32]"] by simp
    then show False using j set_takeWhileD [of j "\<lambda>j. \<not> bit x j" "[0..<32]"] by simp
  qed
  moreover have "i \<le> 32" using x(2) length_takeWhile_le [of "\<lambda>j. \<not> bit x j" "[0..<32]"] by simp
  ultimately have "i < 32" by simp
  moreover have "\<not> \<not> bit x ([0..<32] ! i)"
    using nth_length_takeWhile [of "\<lambda>j. \<not> bit x j" "[0..<32]"] x(2) \<open>i < 32\<close> by simp
  ultimately show ?thesis by simp
qed

lemma ctz_loop_visits:
  assumes "x \<noteq> 0" "unat x < 2 ^ k" "k < 32" "unat p + 4 * k < 2 ^ 32"
  shows "ctz_loop x p = Some (words_at p (filter (bit x) [0..<k]))"
  using assms
proof (induction k arbitrary: x p)
  case 0
  then show ?case by (simp add: unat_eq_zero)
next
  case (Suc k)
  let ?y = "drop_bit 1 x"
  have p: "advance p 1 = Some (p + 4)" "unat (p + 4) = unat p + 4"
    using advance_ok [of p 1] advance_ok_unat [of p 1] Suc.prems(4) by simp_all
  have rest: "ctz_loop ?y (p + 4) = Some (words_at (p + 4) (filter (bit ?y) [0..<k]))" if "?y \<noteq> 0"
    by (rule Suc.IH [OF that]) (use drop_one_less [OF Suc.prems(2)] Suc.prems(3,4) p(2) in simp_all)
  show ?case
  proof (cases "bit x 0")
    case True
    have empty: "filter (bit ?y) [0..<k] = []" if "?y = 0" using that by simp
    have "advance p 0 = Some p" using advance_ok [of p 0] unat_u32_less [of p] by simp
    then have "ctz_loop x p = Some (p # words_at (p + 4) (filter (bit ?y) [0..<k]))"
      using ctz_odd [OF True] p(1) rest empty by (subst ctz_loop.simps) (auto simp: words_at_def simp del: One_nat_def)
    then show ?thesis
      unfolding bits_upt_Suc using True by (simp add: words_at_Suc [symmetric]) (simp add: words_at_def)
  next
    case False
    obtain i where i: "?y \<noteq> 0" "builtin_ctz ?y = Some i" "builtin_ctz x = Some (Suc i)"
      using ctz_even [OF Suc.prems(1) False] by blast
    have "i < k"
    proof (rule ccontr)
      assume "\<not> i < k"
      then have "2 ^ k \<le> (2 :: nat) ^ i" by simp
      moreover have "2 ^ i \<le> unat ?y" using ctz_bound [OF i(2)] by (simp add: bit_unat_exp)
      ultimately show False using drop_one_less [OF Suc.prems(2)] by linarith
    qed
    then have "unat p + 4 * Suc i < 2 ^ 32" "unat (p + 4) + 4 * i < 2 ^ 32" "Suc i + 1 < 32"
      using Suc.prems(3,4) p(2) by simp_all
    then have "advance p (Suc i) = advance (p + 4) i"
      using advance_ok [of p "Suc i"] advance_ok [of "p + 4" i] by (simp add: algebra_simps)
    then have "ctz_loop x p = ctz_loop ?y (p + 4)"
      using i \<open>Suc i + 1 < 32\<close> by (subst (1 2) ctz_loop.simps) simp
    with rest [OF i(1)] show ?thesis
      unfolding bits_upt_Suc using False by (simp add: words_at_Suc)
  qed
qed

lemma bitmap_scans:
  assumes "drop_bit 3 desc \<noteq> 0" "unat (obj_addr obj) + 8 + 4 * 29 < 2 ^ 32"
  shows "OBJ_BITMAP_FOREACH_PTR desc obj =
      Some (map (\<lambda>i. obj_addr obj + 8 + 4 * of_nat i) (filter (\<lambda>i. bit desc (i + 3)) [0..<29])) \<and>
    OBJ_BITMAP_FOREACH_PTR_portable desc obj = OBJ_BITMAP_FOREACH_PTR desc obj"
proof -
  let ?p = "obj_addr obj + 8" and ?x = "drop_bit 3 desc"
  have p: "advance (obj_addr obj) 2 = Some ?p" "unat ?p + 4 * 29 < 2 ^ 32"
    using advance_ok [of "obj_addr obj" 2] advance_ok_unat [of "obj_addr obj" 2] assms(2) by simp_all
  have "unat ?x < 2 ^ 29" unfolding unat_drop_bit_div using unat_u32_less [of desc] by simp
  then have gnu: "ctz_loop ?x ?p = Some (words_at ?p (filter (bit ?x) [0..<29]))"
    and port: "bits_loop ?x ?p = Some (words_at ?p (filter (bit ?x) [0..<29]))"
    using ctz_loop_visits [OF assms(1) _ _ p(2)] bits_loop_visits [OF _ p(2)] by simp_all
  have "filter (bit ?x) [0..<29] = filter (\<lambda>i. bit desc (i + 3)) [0..<29]"
    by (rule filter_cong) (simp_all add: bit_drop_bit_eq add.commute)
  with gnu p(1) have first: "OBJ_BITMAP_FOREACH_PTR desc obj =
      Some (map (\<lambda>i. obj_addr obj + 8 + 4 * of_nat i) (filter (\<lambda>i. bit desc (i + 3)) [0..<29]))"
    by (simp add: OBJ_BITMAP_FOREACH_PTR_def OBJECT_HEADER_WORDS_def LOW_TYPE_BITS_def words_at_def)
  have "OBJ_BITMAP_FOREACH_PTR_portable desc obj = bits_loop ?x ?p"
    using assms(1) p(1) by (subst bits_loop.simps)
      (simp add: OBJ_BITMAP_FOREACH_PTR_portable_def OBJECT_HEADER_WORDS_def LOW_TYPE_BITS_def)
  moreover have "OBJ_BITMAP_FOREACH_PTR desc obj = ctz_loop ?x ?p"
    using p(1) by (simp add: OBJ_BITMAP_FOREACH_PTR_def OBJECT_HEADER_WORDS_def LOW_TYPE_BITS_def)
  ultimately show ?thesis using first gnu port by simp
qed

text \<open>
  The two definitions of \<open>OBJ_BITMAP_FOREACH_PTR\<close> visit the same words for every descriptor
  with a bit set: the word \<open>i\<close> behind the header of the object if and only if bit \<open>i\<close> of
  the bitmap is set, in ascending order.
\<close>
lemma bitmap_definitions_agree:
  assumes "drop_bit 3 desc \<noteq> 0" "unat (obj_addr obj) + 8 + 4 * 29 < 2 ^ 32"
  shows "OBJ_BITMAP_FOREACH_PTR desc obj =
      Some (map (\<lambda>i. obj_addr obj + 8 + 4 * of_nat i) (filter (\<lambda>i. bit desc (i + 3)) [0..<29])) \<and>
    OBJ_BITMAP_FOREACH_PTR_portable desc obj = OBJ_BITMAP_FOREACH_PTR desc obj"
  using assms by (rule bitmap_scans)

lemma bitmap_definitions_agree_witness:
  "OBJ_BITMAP_FOREACH_PTR 0x2A \<lparr>obj_addr = 64, array_length = 0, element_size = 0\<rparr> = Some [72, 80]"
  using bitmap_definitions_agree [of "0x2A" "\<lparr>obj_addr = 64, array_length = 0, element_size = 0\<rparr>"]
  by (simp add: upt_rec bit_numeral_rec)

section \<open>Arrays\<close>

lemma words_loop_visits:
  assumes "unat p + 4 * n < 2 ^ 32"
  shows "words_loop p (p + 4 * of_nat n) = Some (words_at p [0..<n])"
  using assms
proof (induction n arbitrary: p)
  case 0
  then show ?case by (subst words_loop.simps) (simp add: words_at_def)
next
  case (Suc n)
  have p: "advance p 1 = Some (p + 4)" "unat (p + 4) = unat p + 4"
    using advance_ok [of p 1] advance_ok_unat [of p 1] Suc.prems by simp_all
  have less: "p < p + 4 * of_nat (Suc n)"
    using advance_ok_unat [OF Suc.prems] by (simp add: word_less_nat_alt)
  have "words_loop (p + 4) (p + 4 + 4 * of_nat n) = Some (words_at (p + 4) [0..<n])"
    by (rule Suc.IH) (use p(2) Suc.prems in simp)
  moreover have "p + 4 + 4 * of_nat n = p + 4 * of_nat (Suc n)" by (simp add: algebra_simps)
  ultimately have "words_loop p (p + 4 * of_nat (Suc n)) = Some (p # words_at (p + 4) [0..<n])"
    using less p(1) by (subst words_loop.simps) (simp del: of_nat_Suc)
  moreover have "[0..<Suc n] = 0 # map Suc [0..<n]" by (simp add: upt_conv_Cons map_Suc_upt del: upt_Suc)
  ultimately show ?case by (simp add: words_at_Suc [symmetric] del: upt_Suc) (simp add: words_at_def)
qed

lemma advance_bytes_ok: "unat p + n < 2 ^ 32 \<Longrightarrow> advance_bytes p n = Some (p + of_nat n)"
  by (simp add: advance_bytes_def)

lemma elements_loop_visits:
  assumes "0 < unat el" "unat e + unat el * n < 2 ^ 32"
    "\<And>k. k < n \<Longrightarrow> scan (e + of_nat (unat el * k)) = Some (f k)"
  shows "elements_loop scan el e (e + of_nat (unat el * n)) = Some (concat (map f [0..<n]))"
  using assms(2,3)
proof (induction n arbitrary: e f)
  case 0
  then show ?case by (subst elements_loop.simps) simp
next
  case (Suc n)
  let ?e = "e + of_nat (unat el)"
  have "unat e + unat el < 2 ^ 32" using Suc.prems(1) by simp
  from advance_bytes_ok [OF this] have e: "advance_bytes e (unat el) = Some ?e" "unat ?e = unat e + unat el"
    by (simp, rule advance_bytes_unat)
  have goal: "e + of_nat (unat el * Suc n) = ?e + of_nat (unat el * n)"
    by (simp only: mult_Suc_right of_nat_add add.assoc)
  have "unat (e + of_nat (unat el * Suc n)) = unat e + unat el * Suc n"
    by (rule advance_bytes_unat [OF advance_bytes_ok [OF Suc.prems(1)]])
  then have less: "e < e + of_nat (unat el * Suc n)" using assms(1) by (simp add: word_less_nat_alt)
  have "elements_loop scan el ?e (?e + of_nat (unat el * n)) = Some (concat (map (f \<circ> Suc) [0..<n]))"
  proof (rule Suc.IH)
    show "unat ?e + unat el * n < 2 ^ 32" using Suc.prems(1) e(2) by simp
    show "scan (?e + of_nat (unat el * k)) = Some ((f \<circ> Suc) k)" if "k < n" for k
      using Suc.prems(2) [of "Suc k"] that unfolding mult_Suc_right of_nat_add add.assoc by simp
  qed
  moreover have "scan e = Some (f 0)" using Suc.prems(2) [of 0] by simp
  moreover have "[0..<Suc n] = 0 # map Suc [0..<n]" by (simp add: upt_conv_Cons map_Suc_upt del: upt_Suc)
  ultimately show ?case
    using less e(1) unfolding goal by (subst elements_loop.simps) (simp add: goal [symmetric] del: upt_Suc of_nat_mult)
qed

text \<open>The words of an element that the descriptor of an array declares to be references.\<close>

definition vector_element_size :: "u32 \<Rightarrow> nat" where
  "vector_element_size desc = unat (drop_bit 3 desc AND 0x3ff)"

definition element_refs :: "u32 \<Rightarrow> nat list" where
  "element_refs desc =
    (if desc AND 0xc000 = 0x4000 then [0..<vector_element_size desc div 4]
     else if desc AND 0xc000 = 0x8000 then
       [unat (drop_bit 16 desc AND 0xff)..<unat (drop_bit 16 desc AND 0xff) + unat (drop_bit 24 desc AND 0xff)]
     else if desc AND 0xc000 = 0xc000 then filter (\<lambda>i. bit desc (i + 16)) [0..<16]
     else [])"

lemma those_advance:
  assumes "unat p + 4 * n < 2 ^ 32"
  shows "those (map (advance p) [0..<n]) = Some (words_at p [0..<n])"
proof -
  have "map (advance p) [0..<n] = map (\<lambda>i. Some (p + 4 * of_nat i)) [0..<n]"
    using assms by (intro map_cong refl advance_ok) auto
  moreover have "those (map (\<lambda>i. Some (g i)) xs) = Some (map g xs)" for g :: "nat \<Rightarrow> u32" and xs
    by (induction xs) simp_all
  ultimately show ?thesis by (simp only: words_at_def)
qed

lemma words_at_shift: "words_at (p + 4 * of_nat d) [0..<n] = words_at p [d..<d + n]"
proof -
  have "[d..<d + n] = map (\<lambda>i. i + d) [0..<n]" by (simp add: map_add_upt add.commute)
  then show ?thesis by (simp add: words_at_def algebra_simps)
qed

lemma concat_words: "concat (map (\<lambda>k. words_at (p + of_nat (4 * m * k)) [0..<m]) [0..<n]) = words_at p [0..<m * n]"
proof (induction n)
  case (Suc n)
  have "words_at (p + of_nat (4 * m * n)) [0..<m] = words_at p [m * n..<m * n + m]"
    using words_at_shift [of p "m * n" m] by (simp add: mult.assoc)
  moreover have "[0..<m * Suc n] = [0..<m * n] @ [m * n..<m * n + m]"
    using upt_add_eq_append [of 0 "m * n" m] by (simp add: add.commute)
  ultimately show ?case using Suc.IH by (simp add: words_at_def del: of_nat_mult mult_Suc_right)
qed (simp add: words_at_def)

lemma byte_bound: "unat (x AND 0xff :: u32) \<le> 255"
  using unat_mono_and [of x "0xff"] by simp

lemma element_at:
  assumes "unat b + el * n + r < 2 ^ 32" "k \<le> n"
  shows "unat (b + of_nat (el * k) :: u32) + r < 2 ^ 32"
proof -
  have "el * k \<le> el * n" using assms(2) by simp
  then have "unat b + el * k < 2 ^ 32" using assms(1) by linarith
  then have "unat (b + of_nat (el * k)) = unat b + el * k" by (rule advance_bytes_unat [OF advance_bytes_ok])
  then show ?thesis using \<open>el * k \<le> el * n\<close> assms(1) by linarith
qed

text \<open>The scan of one element that is described by a run or by a bitmap.\<close>

lemma scan_run_element:
  assumes "unat e + 2048 < 2 ^ 32" "desc AND 0xc000 = 0x8000"
  shows "(do { p \<leftarrow> advance e (unat (drop_bit 16 desc AND 0xff));
      those (map (advance p) [0..<unat (drop_bit 24 desc AND 0xff)]) }) = Some (words_at e (element_refs desc))"
proof -
  let ?off = "unat (drop_bit 16 desc AND 0xff)" and ?num = "unat (drop_bit 24 desc AND 0xff)"
  have b: "?off \<le> 255" "?num \<le> 255" by (rule byte_bound)+
  then have p: "unat e + 4 * ?off < 2 ^ 32" using assms(1) by linarith
  note q = advance_ok_unat [OF p]
  have "unat (e + 4 * of_nat ?off) + 4 * ?num < 2 ^ 32" unfolding q using b assms(1) by linarith
  from those_advance [OF this] advance_ok [OF p] words_at_shift [of e ?off ?num] assms(2) show ?thesis
    by (simp add: element_refs_def)
qed

lemma scan_bitmap_element:
  assumes "unat e + 2048 < 2 ^ 32" "desc AND 0xc000 = 0xc000"
  shows "bits_loop (drop_bit 16 desc) e = Some (words_at e (element_refs desc))"
proof -
  have "unat (drop_bit 16 desc) < 2 ^ 16" unfolding unat_drop_bit_div using unat_u32_less [of desc] by simp
  moreover have "filter (bit (drop_bit 16 desc)) [0..<16] = filter (\<lambda>i. bit desc (i + 16)) [0..<16]"
    by (rule filter_cong) (simp_all add: bit_drop_bit_eq add.commute)
  ultimately show ?thesis using bits_loop_visits [of "drop_bit 16 desc" 16 e] assms by (simp add: element_refs_def)
qed

text \<open>The words visited in an array of \<open>n\<close> elements whose data start at \<open>b\<close>.\<close>

definition array_refs :: "u32 \<Rightarrow> u32 \<Rightarrow> nat \<Rightarrow> u32 list" where
  "array_refs desc b n =
    concat (map (\<lambda>k. words_at (b + of_nat (vector_element_size desc * k)) (element_refs desc)) [0..<n])"

lemma vector_scan:
  assumes el: "0 < vector_element_size desc" "desc AND 0xc000 = 0x4000 \<Longrightarrow> 4 dvd vector_element_size desc"
    and len: "n = unat (array_length obj)"
    and room: "unat (obj_addr obj) + 16 + vector_element_size desc * n + 2048 < 2 ^ 32"
  shows "OBJ_VECTOR_FOREACH_PTR desc obj = Some (array_refs desc (obj_addr obj + 16) n)"
proof -
  let ?b = "obj_addr obj + 16" and ?el = "drop_bit 3 desc AND 0x3ff" and ?n = "vector_element_size desc * n"
  have b: "unat ?b = unat (obj_addr obj) + 16"
    using advance_ok_unat [of "obj_addr obj" 4] room by simp
  have data: "unat ?b + ?n + 2048 < 2 ^ 32" using room b by simp
  have prod: "unat (?el * array_length obj) = ?n"
    using room unat_mult_lem [of ?el "array_length obj"] by (simp add: vector_element_size_def len)
  have e_end: "advance_bytes ?b ?n = Some (?b + of_nat ?n)" using data by (intro advance_bytes_ok) simp
  have each: "elements_loop scan ?el ?b (?b + of_nat ?n) = Some (array_refs desc ?b n)"
    if "\<And>e. unat e + 2048 < 2 ^ 32 \<Longrightarrow> scan e = Some (words_at e (element_refs desc))" for scan
    using elements_loop_visits [of ?el ?b n scan] el(1) data that element_at [OF data]
    by (simp add: vector_element_size_def array_refs_def)
  have high: "desc AND 0xffffc000 \<noteq> 0" if "desc AND 0xc000 \<noteq> 0"
  proof
    assume "desc AND 0xffffc000 = 0"
    then have "(desc AND 0xffffc000) AND 0xc000 = 0" by simp
    with that show False by (simp add: and.assoc)
  qed
  note unfold = OBJ_VECTOR_FOREACH_PTR_def sgen_client_array_data_start_def MAX_ELEMENT_SIZE_def Let_def
  consider "desc AND 0xc000 = 0x4000" | "desc AND 0xc000 = 0x8000" | "desc AND 0xc000 = 0xc000" |
    "element_refs desc = []" "desc AND 0xc000 \<notin> {0x4000, 0x8000, 0xc000}"
    by (auto simp: element_refs_def)
  then show ?thesis
  proof cases
    case 1
    obtain m where four: "vector_element_size desc = 4 * m" using el(2) [OF 1] by (rule dvdE)
    then have refs: "element_refs desc = [0..<m]" using 1 by (simp add: element_refs_def)
    have "array_refs desc ?b n = words_at ?b [0..<m * n]"
      unfolding array_refs_def refs four by (rule concat_words)
    moreover have words: "of_nat ?n = (4 * of_nat (m * n) :: u32)" unfolding four by (simp add: mult.assoc)
    have "unat ?b + 4 * (m * n) < 2 ^ 32" using data unfolding four by (simp add: mult.assoc)
    from words_loop_visits [OF this] have "words_loop ?b (?b + of_nat ?n) = Some (words_at ?b [0..<m * n])"
      unfolding words .
    ultimately show ?thesis using 1 high e_end prod by (simp add: unfold)
  next
    case 2
    from each [OF scan_run_element [OF _ 2]] show ?thesis using 2 high e_end prod by (simp add: unfold)
  next
    case 3
    from each [OF scan_bitmap_element [OF _ 3]] show ?thesis using 3 high e_end prod by (simp add: unfold)
  next
    case 4
    then show ?thesis by (simp add: unfold array_refs_def words_at_def)
  qed
qed

text \<open>
  C26: Scanning an array visits, element by element and in ascending order, exactly the words that its descriptor
  declares to be references in one element, for all three ways to describe an element; and when they fit in an element,
  every visited word lies inside the data of the array.
\<close>
theorem vector_visits_elements:
  assumes "0 < vector_element_size desc" "desc AND 0xc000 = 0x4000 \<Longrightarrow> 4 dvd vector_element_size desc"
    "n = unat (array_length obj)" "unat (obj_addr obj) + 16 + vector_element_size desc * n + 2048 < 2 ^ 32"
  shows "OBJ_VECTOR_FOREACH_PTR desc obj = Some (array_refs desc (obj_addr obj + 16) n) \<and>
    ((\<forall>i \<in> set (element_refs desc). 4 * i + 4 \<le> vector_element_size desc) \<longrightarrow>
     (\<forall>a \<in> set (array_refs desc (obj_addr obj + 16) n). unat (obj_addr obj) + 16 \<le> unat a \<and>
        unat a + 4 \<le> unat (obj_addr obj) + 16 + vector_element_size desc * n))"
proof (intro conjI impI ballI)
  show "OBJ_VECTOR_FOREACH_PTR desc obj = Some (array_refs desc (obj_addr obj + 16) n)"
    using vector_scan [OF assms] .
next
  let ?b = "obj_addr obj + 16" and ?el = "vector_element_size desc"
  fix a
  assume fit: "\<forall>i \<in> set (element_refs desc). 4 * i + 4 \<le> ?el" and a: "a \<in> set (array_refs desc ?b n)"
  have b: "unat ?b = unat (obj_addr obj) + 16"
    using advance_ok_unat [of "obj_addr obj" 4] assms(4) by simp
  from a obtain k i where k: "k < n" and i: "i \<in> set (element_refs desc)" and
      ai: "a = ?b + of_nat (?el * k) + 4 * of_nat i"
    by (auto simp: array_refs_def words_at_def)
  have "?el * Suc k \<le> ?el * n" using k by (intro mult_le_mono2) simp
  then have up: "?el * k + ?el \<le> ?el * n" by simp
  have i4: "4 * i + 4 \<le> ?el" using fit i by blast
  have "unat ?b + ?el * k < 2 ^ 32" using up assms(4) b by linarith
  then have e: "unat (?b + of_nat (?el * k)) = unat ?b + ?el * k" by (rule advance_bytes_unat [OF advance_bytes_ok])
  have "unat (?b + of_nat (?el * k)) + 4 * i < 2 ^ 32" using up assms(4) b i4 e by linarith
  from advance_ok_unat [OF this] have "unat a = unat ?b + ?el * k + 4 * i" unfolding ai e by simp
  then show "unat (obj_addr obj) + 16 \<le> unat a" "unat a + 4 \<le> unat (obj_addr obj) + 16 + ?el * n"
    using b up i4 by linarith+
qed

theorem vector_visits_elements_witness:
  "OBJ_VECTOR_FOREACH_PTR 0x2C045 \<lparr>obj_addr = 64, array_length = 2, element_size = 8\<rparr> = Some [84, 92]"
proof -
  let ?o = "\<lparr>obj_addr = 64, array_length = 2, element_size = 8\<rparr>"
  have "vector_element_size 0x2C045 = 8" by (simp add: vector_element_size_def)
  then have "OBJ_VECTOR_FOREACH_PTR 0x2C045 ?o = Some (array_refs 0x2C045 (obj_addr ?o + 16) 2)"
    by (intro conjunct1 [OF vector_visits_elements]) simp_all
  also have "... = Some [84, 92]" by code_simp
  finally show ?thesis .
qed

section \<open>Bitmaps of several words\<close>

lemma bitmap_loop_visits:
  assumes "unat bwords \<le> length ws" "unat run + 128 * unat bwords < 2 ^ 32"
  shows "bitmap_loop ws bwords run =
    Some (words_at run (filter (\<lambda>i. bit (ws ! (i div 32)) (i mod 32)) [0..<32 * unat bwords]))"
  using assms
proof (induction ws arbitrary: bwords run)
  case Nil
  then show ?case by (simp add: unat_eq_zero words_at_def)
next
  case (Cons w ws)
  let ?P = "\<lambda>ws i. bit (ws ! (i div 32)) (i mod 32 :: nat)"
  show ?case
  proof (cases "bwords > 0")
    case False
    then have "bwords = 0" using word_gt_0 by blast
    then show ?thesis by (simp add: words_at_def)
  next
    case True
    then have less: "unat (bwords - 1) = unat bwords - 1" "0 < unat bwords"
      by (simp_all add: unat_minus_one unat_gt_0 word_neq_0_conv)
    have r: "unat run + 4 * 32 < 2 ^ 32" using Cons.prems(2) less(2) by linarith
    let ?run = "run + 128"
    have run: "advance run 32 = Some ?run" "unat ?run = unat run + 128"
      using advance_ok [OF r] advance_ok_unat [OF r] by simp_all
    have "bits_loop w run = Some (words_at run (filter (bit w) [0..<32]))"
      by (rule bits_loop_visits [OF _ r]) (rule unat_u32_less)
    moreover have "bitmap_loop ws (bwords - 1) ?run =
        Some (words_at ?run (filter (?P ws) [0..<32 * unat (bwords - 1)]))"
      by (rule Cons.IH) (use Cons.prems less run(2) in simp_all)
    ultimately have "bitmap_loop (w # ws) bwords run =
        Some (words_at run (filter (bit w) [0..<32]) @ words_at ?run (filter (?P ws) [0..<32 * unat (bwords - 1)]))"
      using True run(1) by (simp add: GC_BITS_PER_WORD_def)
    moreover have "[0..<32 * unat bwords] = [0..<32] @ map (\<lambda>i. i + 32) [0..<32 * unat (bwords - 1)]"
      using less upt_add_eq_append [of 0 32 "32 * unat (bwords - 1)"] by (simp add: map_add_upt diff_mult_distrib2)
    moreover have "filter (?P (w # ws)) [0..<32] = filter (bit w) [0..<32]" by (rule filter_cong) simp_all
    moreover have "filter (?P (w # ws)) (map (\<lambda>i. i + 32) [0..<32 * unat (bwords - 1)]) =
        map (\<lambda>i. i + 32) (filter (?P ws) [0..<32 * unat (bwords - 1)])"
    proof -
      have "(i + 32) div 32 = Suc (i div 32)" for i :: nat by simp
      then show ?thesis by (simp add: filter_map comp_def)
    qed
    moreover have "words_at run (map (\<lambda>i. i + 32) js) = words_at ?run js" for js
      by (simp add: words_at_def algebra_simps)
    ultimately show ?thesis by (simp add: words_at_def)
  qed
qed

text \<open>
  Scanning an object with a complex descriptor visits, in ascending order, the words of the object whose bit is set
  in the bitmap, the bit of word \<open>i\<close> being bit \<open>i mod 32\<close> of word \<open>i div 32\<close> of the bitmap.
\<close>
lemma complex_visits_bits:
  assumes "complex desc = bwords # bitmap" "bwords = of_nat (length bitmap) + 1"
    "unat (obj_addr obj) + 128 * length bitmap < 2 ^ 32"
  shows "OBJ_COMPLEX_FOREACH_PTR complex desc obj = Some (map (\<lambda>i. obj_addr obj + 4 * of_nat i)
    (filter (\<lambda>i. bit (bitmap ! (i div 32)) (i mod 32)) [0..<32 * length bitmap]))"
proof -
  have "unat (of_nat (length bitmap) :: u32) = length bitmap"
    using assms(3) by (intro unat_of_nat_u32) simp
  with bitmap_loop_visits [of "of_nat (length bitmap)" bitmap "obj_addr obj"] assms show ?thesis
    by (simp add: OBJ_COMPLEX_FOREACH_PTR_def words_at_def)
qed

lemma complex_visits_bits_witness:
  "OBJ_COMPLEX_FOREACH_PTR (\<lambda>_. [3, 4, 1]) 4 \<lparr>obj_addr = 64, array_length = 0, element_size = 0\<rparr> = Some [72, 192]"
proof -
  let ?o = "\<lparr>obj_addr = 64, array_length = 0, element_size = 0\<rparr>"
  have "OBJ_COMPLEX_FOREACH_PTR (\<lambda>_. [3, 4, 1]) 4 ?o = Some (map (\<lambda>i. obj_addr ?o + 4 * of_nat i)
      (filter (\<lambda>i. bit ([4 :: u32, 1] ! (i div 32)) (i mod 32)) [0..<32 * length [4 :: u32, 1]]))"
    by (rule complex_visits_bits [of _ _ 3]) simp_all
  also have "... = Some [72, 192]" by code_simp
  finally show ?thesis .
qed

end
