(* ===== verification/CardTable.thy ===== *)
theory CardTable
  imports Prelude
begin

text \<open>
  \<open>mono/sgen/sgen-cardtable.h\<close>: one byte per 512 bytes of memory that says whether references were written there.
  The first section is the table of a 32-bit address space, the second the one for longer addresses, in which
  several regions share a card and scanning reads a shadow of the table. A table is a function of the index of the
  card; the address of a card is its index.
\<close>

definition CARD_BITS :: nat where "CARD_BITS = 9"
definition CARD_TABLE_BITS :: nat where "CARD_TABLE_BITS = 32"
definition CARD_SIZE_IN_BYTES :: nat where "CARD_SIZE_IN_BYTES = 2 ^ CARD_BITS"
definition CARD_COUNT_BITS :: nat where "CARD_COUNT_BITS = CARD_TABLE_BITS - CARD_BITS"
definition CARD_COUNT_IN_BYTES :: nat where "CARD_COUNT_IN_BYTES = 2 ^ CARD_COUNT_BITS"
definition CARD_MASK :: u64 where "CARD_MASK = push_bit CARD_COUNT_BITS 1 - 1"

type_synonym cards = "nat \<Rightarrow> u8"

section \<open>One card for one region\<close>

definition sgen_card_table_get_card_address :: "u32 \<Rightarrow> nat" where
  "sgen_card_table_get_card_address address = unat (drop_bit CARD_BITS address)"

definition sgen_card_table_card_begin_scanning :: "u32 \<Rightarrow> cards \<Rightarrow> bool \<times> cards" where
  "sgen_card_table_card_begin_scanning address t =
    (let c = sgen_card_table_get_card_address address in (t c \<noteq> 0, t(c := 0)))"

definition sgen_card_table_prepare_card_for_scanning :: "nat \<Rightarrow> cards \<Rightarrow> cards" where
  "sgen_card_table_prepare_card_for_scanning c t = t(c := 0)"

definition sgen_card_table_address_is_marked :: "u32 \<Rightarrow> cards \<Rightarrow> bool" where
  "sgen_card_table_address_is_marked address t \<longleftrightarrow> t (sgen_card_table_get_card_address address) \<noteq> 0"

definition sgen_card_table_mark_address :: "u32 \<Rightarrow> cards \<Rightarrow> cards" where
  "sgen_card_table_mark_address address t = t(sgen_card_table_get_card_address address := 1)"

text \<open>The difference of two pointers is signed.\<close>

definition sgen_card_table_get_card_offset :: "u32 \<Rightarrow> u32 \<Rightarrow> u32" where
  "sgen_card_table_get_card_offset ptr base = signed_drop_bit CARD_BITS (ptr - base)"

section \<open>Overlapping cards\<close>

definition overlapping_get_card_address :: "u64 \<Rightarrow> nat" where
  "overlapping_get_card_address address = unat (drop_bit CARD_BITS address AND CARD_MASK)"

definition sgen_card_table_get_shadow_card_address :: "u64 \<Rightarrow> nat" where
  "sgen_card_table_get_shadow_card_address address = unat (drop_bit CARD_BITS address AND CARD_MASK)"

text \<open>The tables: the table and its shadow.\<close>

definition overlapping_card_begin_scanning :: "u64 \<Rightarrow> cards \<times> cards \<Rightarrow> bool" where
  "overlapping_card_begin_scanning address ts \<longleftrightarrow> snd ts (sgen_card_table_get_shadow_card_address address) \<noteq> 0"

definition overlapping_prepare_card_for_scanning :: "nat \<Rightarrow> cards \<times> cards \<Rightarrow> cards \<times> cards" where
  "overlapping_prepare_card_for_scanning c ts = ts"

definition overlapping_address_is_marked :: "u64 \<Rightarrow> cards \<times> cards \<Rightarrow> bool" where
  "overlapping_address_is_marked address ts \<longleftrightarrow> fst ts (overlapping_get_card_address address) \<noteq> 0"

definition overlapping_mark_address :: "u64 \<Rightarrow> cards \<times> cards \<Rightarrow> cards \<times> cards" where
  "overlapping_mark_address address ts = ((fst ts)(overlapping_get_card_address address := 1), snd ts)"

section \<open>Facts\<close>

lemma card_of: "sgen_card_table_get_card_address a = unat a div 512"
proof -
  have "take_bit 32 (unat a) = unat a" by (rule take_bit_nat_eq_self) (rule unat_u32_less)
  then have "unat (drop_bit 9 a) = drop_bit 9 (unat a)" using unsigned_drop_bit_eq [of 9 a, where 'a = nat] by simp
  then show ?thesis by (simp add: sgen_card_table_get_card_address_def CARD_BITS_def drop_bit_eq_div)
qed

text \<open>Marking a sequence of addresses.\<close>

lemma fold_mark: "fold sgen_card_table_mark_address as t c = (if \<exists>a \<in> set as. unat a div 512 = c then 1 else t c)"
  by (induction as arbitrary: t) (auto simp: sgen_card_table_mark_address_def card_of)

text \<open>
  Marking and scanning cards agree: after any sequence of marks on a table, an address counts as marked exactly when
  it was marked before or an address of the same 512 bytes was in the sequence; the start of scanning reports that
  and clears this card, so that it is not reported again, while the marks of all other cards stay. The
  card always lies in the table.
\<close>
lemma card_marks:
  "let u = fold sgen_card_table_mark_address as t in
    (sgen_card_table_address_is_marked a u \<longleftrightarrow>
      sgen_card_table_address_is_marked a t \<or> (\<exists>x \<in> set as. unat x div 512 = unat a div 512)) \<and>
    fst (sgen_card_table_card_begin_scanning a u) = sgen_card_table_address_is_marked a u \<and>
    (sgen_card_table_address_is_marked b (snd (sgen_card_table_card_begin_scanning a u)) \<longleftrightarrow>
      unat a div 512 \<noteq> unat b div 512 \<and> sgen_card_table_address_is_marked b u) \<and>
    sgen_card_table_get_card_address a < CARD_COUNT_IN_BYTES"
proof -
  have "sgen_card_table_get_card_address a < CARD_COUNT_IN_BYTES"
    using unat_u32_less [of a]
    by (simp add: card_of CARD_COUNT_IN_BYTES_def CARD_COUNT_BITS_def CARD_TABLE_BITS_def CARD_BITS_def)
  then show ?thesis
    by (auto simp: sgen_card_table_card_begin_scanning_def sgen_card_table_address_is_marked_def fold_mark card_of Let_def)
qed

lemma card_offset:
  assumes "unat base \<le> unat ptr" "unat ptr < unat base + 2 ^ 31"
  shows "unat (sgen_card_table_get_card_offset ptr base) = (unat ptr - unat base) div 512"
proof -
  have u: "unat (ptr - base) = unat ptr - unat base" using assms(1) by (intro unat_sub) (simp add: word_le_nat_alt)
  have "unat (ptr - base) < 2 ^ 31" unfolding u using assms by (simp add: less_diff_conv2)
  then have top: "\<not> bit (ptr - base) 31" using bit_unat_exp [of "ptr - base" 31] by linarith
  have "signed_drop_bit 9 (ptr - base) = drop_bit 9 (ptr - base)"
    using top by (intro bit_eqI) (auto simp: bit_simps dest: bit_imp_le_length)
  then have "sgen_card_table_get_card_offset ptr base = drop_bit 9 (ptr - base)"
    by (simp add: sgen_card_table_get_card_offset_def CARD_BITS_def)
  then show ?thesis using card_of [of "ptr - base"] u by (simp add: sgen_card_table_get_card_address_def CARD_BITS_def)
qed

end
