(* ===== verification/WordHeap.thy ===== *)
theory WordHeap
  imports Prelude
begin

text \<open>
  Memory as the parts of the runtime use it that work on whole words: a map of addresses to words, in which an access
  outside of it or with a wrong alignment is undefined.
\<close>

type_synonym memory = "u32 \<rightharpoonup> u32"

definition load :: "memory \<Rightarrow> u32 \<Rightarrow> u32 option" where
  "load m a = (if 4 dvd unat a then m a else None)"

definition store :: "u32 \<Rightarrow> u32 \<Rightarrow> memory \<Rightarrow> memory option" where
  "store a v m = (if 4 dvd unat a \<and> m a \<noteq> None then Some (m(a \<mapsto> v)) else None)"

end
