(* ===== verification/GcTags.thy ===== *)
theory GcTags
  imports Prelude
begin

text \<open>
  \<open>mono/sgen/sgen-tagged-pointer.h\<close> and the macros of \<open>sgen-gc.h\<close> on words: tags in the low bits of
  a pointer, alignment, the test for the nursery, and the reading of the vtable word of an object, whose tags
  say whether the object is forwarded, pinned or cemented. A word of the machine is \<open>u32\<close>; a null pointer is zero.
\<close>

section \<open>Tagged pointers\<close>

definition SGEN_TAGGED_POINTER_MASK :: u32 where "SGEN_TAGGED_POINTER_MASK = 7"

definition SGEN_POINTER_IS_TAGGED_1 :: "u32 \<Rightarrow> bool" where "SGEN_POINTER_IS_TAGGED_1 p \<longleftrightarrow> p AND 1 \<noteq> 0"
definition SGEN_POINTER_TAG_1 :: "u32 \<Rightarrow> u32" where "SGEN_POINTER_TAG_1 p = p OR 1"
definition SGEN_POINTER_UNTAG_1 :: "u32 \<Rightarrow> u32" where "SGEN_POINTER_UNTAG_1 p = p AND NOT 1"

definition SGEN_POINTER_IS_TAGGED_2 :: "u32 \<Rightarrow> bool" where "SGEN_POINTER_IS_TAGGED_2 p \<longleftrightarrow> p AND 2 \<noteq> 0"
definition SGEN_POINTER_TAG_2 :: "u32 \<Rightarrow> u32" where "SGEN_POINTER_TAG_2 p = p OR 2"
definition SGEN_POINTER_UNTAG_2 :: "u32 \<Rightarrow> u32" where "SGEN_POINTER_UNTAG_2 p = p AND NOT 2"

definition SGEN_POINTER_TAG_12 :: "u32 \<Rightarrow> u32" where "SGEN_POINTER_TAG_12 p = p AND 3"
definition SGEN_POINTER_SET_TAG_12 :: "u32 \<Rightarrow> u32 \<Rightarrow> u32" where "SGEN_POINTER_SET_TAG_12 p t = (p AND NOT 3) OR t"

definition SGEN_POINTER_IS_TAGGED_4 :: "u32 \<Rightarrow> bool" where "SGEN_POINTER_IS_TAGGED_4 p \<longleftrightarrow> p AND 4 \<noteq> 0"
definition SGEN_POINTER_TAG_4 :: "u32 \<Rightarrow> u32" where "SGEN_POINTER_TAG_4 p = p OR 4"
definition SGEN_POINTER_UNTAG_4 :: "u32 \<Rightarrow> u32" where "SGEN_POINTER_UNTAG_4 p = p AND NOT 4"

definition SGEN_POINTER_UNTAG_12 :: "u32 \<Rightarrow> u32" where "SGEN_POINTER_UNTAG_12 p = p AND NOT 3"
definition SGEN_POINTER_UNTAG_24 :: "u32 \<Rightarrow> u32" where "SGEN_POINTER_UNTAG_24 p = p AND NOT 6"

definition SGEN_POINTER_IS_TAGGED_ANY :: "u32 \<Rightarrow> bool" where
  "SGEN_POINTER_IS_TAGGED_ANY p \<longleftrightarrow> p AND SGEN_TAGGED_POINTER_MASK \<noteq> 0"
definition SGEN_POINTER_UNTAG_ALL :: "u32 \<Rightarrow> u32" where
  "SGEN_POINTER_UNTAG_ALL p = p AND NOT SGEN_TAGGED_POINTER_MASK"

section \<open>The states of the vtable word\<close>

definition SGEN_POINTER_IS_TAGGED_FORWARDED :: "u32 \<Rightarrow> bool" where
  "SGEN_POINTER_IS_TAGGED_FORWARDED p = SGEN_POINTER_IS_TAGGED_1 p"
definition SGEN_POINTER_TAG_FORWARDED :: "u32 \<Rightarrow> u32" where
  "SGEN_POINTER_TAG_FORWARDED p = SGEN_POINTER_TAG_1 p"
definition SGEN_POINTER_IS_TAGGED_PINNED :: "u32 \<Rightarrow> bool" where
  "SGEN_POINTER_IS_TAGGED_PINNED p = SGEN_POINTER_IS_TAGGED_2 p"
definition SGEN_POINTER_TAG_PINNED :: "u32 \<Rightarrow> u32" where
  "SGEN_POINTER_TAG_PINNED p = SGEN_POINTER_TAG_2 p"
definition SGEN_POINTER_IS_TAGGED_CEMENTED :: "u32 \<Rightarrow> bool" where
  "SGEN_POINTER_IS_TAGGED_CEMENTED p = SGEN_POINTER_IS_TAGGED_4 p"
definition SGEN_POINTER_TAG_CEMENTED :: "u32 \<Rightarrow> u32" where
  "SGEN_POINTER_TAG_CEMENTED p = SGEN_POINTER_TAG_4 p"
definition SGEN_POINTER_UNTAG_VTABLE :: "u32 \<Rightarrow> u32" where
  "SGEN_POINTER_UNTAG_VTABLE p = SGEN_POINTER_UNTAG_ALL p"

definition SGEN_VTABLE_IS_FORWARDED :: "u32 \<Rightarrow> u32" where
  "SGEN_VTABLE_IS_FORWARDED vtable =
    (if SGEN_POINTER_IS_TAGGED_FORWARDED vtable then SGEN_POINTER_UNTAG_VTABLE vtable else 0)"
definition SGEN_VTABLE_IS_PINNED :: "u32 \<Rightarrow> bool" where
  "SGEN_VTABLE_IS_PINNED vtable = SGEN_POINTER_IS_TAGGED_PINNED vtable"

section \<open>Alignment and the nursery\<close>

definition SGEN_ALIGN_UP_TO :: "u32 \<Rightarrow> u32 \<Rightarrow> u32" where
  "SGEN_ALIGN_UP_TO val align = (val + (align - 1)) AND NOT (align - 1)"
definition SGEN_ALIGN_DOWN_TO :: "u32 \<Rightarrow> u32 \<Rightarrow> u32" where
  "SGEN_ALIGN_DOWN_TO val align = val AND NOT (align - 1)"
definition SGEN_ALLOC_ALIGN :: u32 where "SGEN_ALLOC_ALIGN = 8"
definition SGEN_CAN_ALIGN_UP :: "u32 \<Rightarrow> bool" where
  "SGEN_CAN_ALIGN_UP s \<longleftrightarrow> s \<le> 0xffffffff - (SGEN_ALLOC_ALIGN - 1)"
definition SGEN_ALIGN_UP :: "u32 \<Rightarrow> u32" where
  "SGEN_ALIGN_UP s = SGEN_ALIGN_UP_TO s SGEN_ALLOC_ALIGN"
definition SGEN_ALIGN_DOWN :: "u32 \<Rightarrow> u32" where
  "SGEN_ALIGN_DOWN s = SGEN_ALIGN_DOWN_TO s SGEN_ALLOC_ALIGN"

definition sgen_aligned_addr_hash :: "u32 \<Rightarrow> u32" where
  "sgen_aligned_addr_hash ptr = drop_bit 3 ptr"

definition SGEN_PTR_IN_NURSERY :: "u32 \<Rightarrow> nat \<Rightarrow> u32 \<Rightarrow> bool" where
  "SGEN_PTR_IN_NURSERY p bits start \<longleftrightarrow> p AND NOT (push_bit bits 1 - 1) = start"

section \<open>Facts\<close>

lemma low_mask: "(7 :: u32) = mask 3" "(3 :: u32) = mask 2" "(1 :: u32) = mask 1"
  by (simp_all add: mask_eq_exp_minus_1)

lemma unat_take_bit_u32: "unat (take_bit n (p :: u32)) = unat p mod 2 ^ n"
  by (simp add: unsigned_take_bit_eq flip: take_bit_eq_mod)

lemma and_mask_zero: "(p :: u32) AND mask n = 0 \<longleftrightarrow> 2 ^ n dvd unat p"
proof -
  have "p AND mask n = 0 \<longleftrightarrow> unat (take_bit n p) = 0" by (simp add: take_bit_eq_mask unat_eq_0)
  then show ?thesis by (simp only: unat_take_bit_u32 dvd_eq_mod_eq_0)
qed

lemma aligned_and_7: "8 dvd unat (p :: u32) \<longleftrightarrow> p AND 7 = 0"
  using and_mask_zero [of p 3] by (simp add: low_mask(1))

lemma clear_mask: "(p :: u32) AND NOT (mask n) = push_bit n (drop_bit n p)"
  by (rule bit_eqI) (auto simp: bit_simps)

lemma unat_clear_mask: "unat ((p :: u32) AND NOT (mask n)) = unat p - unat p mod 2 ^ n"
proof -
  have split: "push_bit n (drop_bit n p) + take_bit n p = p" by (rule bits_ident)
  have "take_bit n p \<le> p" unfolding word_le_nat_alt unat_take_bit_u32 by simp
  then have "unat (p - take_bit n p) = unat p - unat (take_bit n p)" by (rule unat_sub)
  moreover have "push_bit n (drop_bit n p) = p - take_bit n p" using split by (metis add_diff_cancel_right')
  ultimately show ?thesis by (simp add: clear_mask unat_take_bit_u32)
qed

lemma aligned_clear: "8 dvd unat (p :: u32) \<Longrightarrow> p AND NOT 7 = p"
  using unat_clear_mask [of p 3] by (simp add: low_mask(1) word_unat_eq_iff mod_0_imp_dvd dvd_imp_mod_0)

lemma aligned_low:
  assumes "8 dvd unat (p :: u32)" "t AND NOT 7 = 0"
  shows "p AND t = 0"
proof -
  have "p AND t = (p AND NOT 7) AND t" by (simp only: aligned_clear [OF assms(1)])
  also have "\<dots> = p AND (t AND NOT 7)" by (simp only: and.assoc and.commute and.left_commute)
  also have "\<dots> = 0" unfolding assms(2) by simp
  finally show ?thesis .
qed

text \<open>What is read of a pointer to an aligned object with tags in its low bits.\<close>

lemma tag_read:
  assumes "8 dvd unat (p :: u32)" "t AND NOT 7 = 0"
  shows "(p OR t) AND NOT 7 = p" "(p OR t) AND 1 = t AND 1" "(p OR t) AND 2 = t AND 2" "(p OR t) AND 4 = t AND 4"
proof -
  have "p AND 1 = 0" "p AND 2 = 0" "p AND 4 = 0" by (rule aligned_low [OF assms(1)], simp)+
  then show "(p OR t) AND 1 = t AND 1" "(p OR t) AND 2 = t AND 2" "(p OR t) AND 4 = t AND 4"
    by (simp_all add: bit.conj_disj_distrib2)
  show "(p OR t) AND NOT 7 = p"
    by (simp only: bit.conj_disj_distrib2 aligned_clear [OF assms(1)] assms(2) or.right_neutral)
qed

lemmas tag_defs = SGEN_TAGGED_POINTER_MASK_def SGEN_POINTER_IS_TAGGED_1_def SGEN_POINTER_TAG_1_def
  SGEN_POINTER_IS_TAGGED_2_def SGEN_POINTER_TAG_2_def SGEN_POINTER_IS_TAGGED_4_def SGEN_POINTER_TAG_4_def
  SGEN_POINTER_UNTAG_ALL_def SGEN_POINTER_IS_TAGGED_FORWARDED_def SGEN_POINTER_TAG_FORWARDED_def
  SGEN_POINTER_IS_TAGGED_PINNED_def SGEN_POINTER_TAG_PINNED_def SGEN_POINTER_IS_TAGGED_CEMENTED_def
  SGEN_POINTER_TAG_CEMENTED_def SGEN_POINTER_UNTAG_VTABLE_def SGEN_VTABLE_IS_FORWARDED_def SGEN_VTABLE_IS_PINNED_def

text \<open>
  The four states of a vtable word read back. Forwarding to an aligned address is found again as that
  address, and the word is then neither pinned nor cemented; a vtable that is not forwarded, with or without the
  tags of pinning and cementing, never reads as forwarded and gives the vtable back when its tags are removed.
\<close>
lemma vtable_word_states:
  assumes "8 dvd unat p"
  shows "SGEN_VTABLE_IS_FORWARDED (SGEN_POINTER_TAG_FORWARDED p) = p \<and>
    \<not> SGEN_VTABLE_IS_PINNED (SGEN_POINTER_TAG_FORWARDED p) \<and> \<not> SGEN_POINTER_IS_TAGGED_CEMENTED (SGEN_POINTER_TAG_FORWARDED p) \<and>
    (\<forall>w \<in> {p, SGEN_POINTER_TAG_PINNED p, SGEN_POINTER_TAG_CEMENTED (SGEN_POINTER_TAG_PINNED p)}.
       SGEN_VTABLE_IS_FORWARDED w = 0 \<and> SGEN_POINTER_UNTAG_VTABLE w = p) \<and>
    \<not> SGEN_VTABLE_IS_PINNED p \<and> SGEN_VTABLE_IS_PINNED (SGEN_POINTER_TAG_PINNED p) \<and>
    SGEN_POINTER_IS_TAGGED_CEMENTED (SGEN_POINTER_TAG_CEMENTED (SGEN_POINTER_TAG_PINNED p))"
  using tag_read [OF assms, of 0] tag_read [OF assms, of 1] tag_read [OF assms, of 2] tag_read [OF assms, of 6]
  by (simp add: tag_defs or.assoc)

lemma vtable_word_states_witness:
  "SGEN_VTABLE_IS_FORWARDED (SGEN_POINTER_TAG_FORWARDED 0x81200040) = 0x81200040"
  using vtable_word_states [of "0x81200040"] by simp

text \<open>
  The nursery test is the interval it stands for, and does not wrap around at the end of the address space.
\<close>

lemma nursery_interval:
  assumes "bits < 32" "2 ^ bits dvd unat start"
  shows "SGEN_PTR_IN_NURSERY p bits start \<longleftrightarrow> unat start \<le> unat p \<and> unat p < unat start + 2 ^ bits"
proof -
  have "push_bit bits 1 - 1 = (mask bits :: u32)" by (simp add: mask_eq_exp_minus_1 push_bit_eq_mult)
  then have "SGEN_PTR_IN_NURSERY p bits start \<longleftrightarrow> unat p - unat p mod 2 ^ bits = unat start"
    unfolding SGEN_PTR_IN_NURSERY_def by (simp only: word_unat_eq_iff [of _ start] unat_clear_mask)
  also have "\<dots> \<longleftrightarrow> unat start \<le> unat p \<and> unat p < unat start + 2 ^ bits"
  proof -
    obtain k where k: "unat start = 2 ^ bits * k" using assms(2) by (rule dvdE)
    have "unat p = 2 ^ bits * (unat p div 2 ^ bits) + unat p mod 2 ^ bits" by simp
    moreover have "unat p mod 2 ^ bits < 2 ^ bits" by simp
    ultimately show ?thesis unfolding k
      by (smt (verit) add_diff_cancel_right' add_less_cancel_left div_nat_eqI le_add1 mult.commute mult_Suc_right add.commute)
  qed
  finally show ?thesis .
qed

lemma align_up_least:
  assumes "unat s \<le> 2 ^ 32 - 8"
  shows "unat (SGEN_ALIGN_UP s) = (unat s + 7) div 8 * 8"
proof -
  have "unat (s + 7) = unat s + 7" using assms unat_add_lem [of s 7] by simp
  then show ?thesis using unat_clear_mask [of "s + 7" 3] 
    by (simp add: SGEN_ALIGN_UP_def SGEN_ALIGN_UP_TO_def SGEN_ALLOC_ALIGN_def low_mask(1) minus_mod_eq_div_mult)
qed

end
