(* ===== verification/GcHeap.thy ===== *)
theory GcHeap
  imports WordHeap GcTags GcDescr
begin

text \<open>
  Objects in memory: the vtable word and its macros (\<open>sgen-gc.h\<close>), the size of an object
  (\<open>sgen-client-mono.h\<close>), the to-space of a split nursery and the tests for live objects (\<open>sgen-gc.h\<close>).
  \<open>None\<close> is an access outside of memory or with a wrong alignment, a failed
  assertion of a level that is compiled in, or an overflow of \<open>int\<close>. Tables of the runtime, of its vtables and classes, are a
  parameter.
\<close>

section \<open>Tables of the runtime\<close>

text \<open>Fields of \<open>MonoVTable\<close> and \<open>MonoClass\<close>, by the address of the structure.\<close>

record gc_runtime =
  gc_descr :: "u32 \<Rightarrow> u32"
  klass :: "u32 \<Rightarrow> u32"
  vtable_rank :: "u32 \<Rightarrow> u8"
  class_rank :: "u32 \<Rightarrow> u8"
  class_element_size :: "u32 \<Rightarrow> u32"
  class_instance_size :: "u32 \<Rightarrow> u32"
  array_element_size :: "u32 \<Rightarrow> u32"
  string_class :: u32
  complex_descriptor :: "u32 \<Rightarrow> u32 list"
  nursery_bits :: nat
  nursery_start :: u32
  space_bitmap :: "u8 list"
  generation :: int
  los_is_pinned :: "u32 \<Rightarrow> bool"
  major_is_live :: "u32 \<Rightarrow> bool"

definition sgen_vtable_get_descriptor :: "gc_runtime \<Rightarrow> u32 \<Rightarrow> u32" where
  "sgen_vtable_get_descriptor R vtable = gc_descr R vtable"

definition SGEN_VTABLE_HAS_REFERENCES :: "gc_runtime \<Rightarrow> u32 \<Rightarrow> bool" where
  "SGEN_VTABLE_HAS_REFERENCES R vt = sgen_gc_descr_has_references (sgen_vtable_get_descriptor R vt)"

definition sgen_ptr_in_nursery :: "gc_runtime \<Rightarrow> u32 \<Rightarrow> bool" where
  "sgen_ptr_in_nursery R p = SGEN_PTR_IN_NURSERY p (nursery_bits R) (nursery_start R)"

section \<open>The vtable word\<close>

definition SGEN_LOAD_VTABLE_UNCHECKED :: "u32 \<Rightarrow> memory \<Rightarrow> u32 option" where
  "SGEN_LOAD_VTABLE_UNCHECKED obj m = load m obj"

definition SGEN_LOAD_VTABLE :: "u32 \<Rightarrow> memory \<Rightarrow> u32 option" where
  "SGEN_LOAD_VTABLE obj m = map_option SGEN_POINTER_UNTAG_ALL (SGEN_LOAD_VTABLE_UNCHECKED obj m)"

definition SGEN_OBJECT_IS_FORWARDED :: "u32 \<Rightarrow> memory \<Rightarrow> u32 option" where
  "SGEN_OBJECT_IS_FORWARDED obj m = map_option SGEN_VTABLE_IS_FORWARDED (load m obj)"

definition SGEN_OBJECT_IS_PINNED :: "u32 \<Rightarrow> memory \<Rightarrow> bool option" where
  "SGEN_OBJECT_IS_PINNED obj m = map_option SGEN_VTABLE_IS_PINNED (load m obj)"

definition SGEN_OBJECT_IS_CEMENTED :: "u32 \<Rightarrow> memory \<Rightarrow> bool option" where
  "SGEN_OBJECT_IS_CEMENTED obj m = map_option SGEN_POINTER_IS_TAGGED_CEMENTED (load m obj)"

definition SGEN_FORWARD_OBJECT :: "u32 \<Rightarrow> u32 \<Rightarrow> memory \<Rightarrow> memory option" where
  "SGEN_FORWARD_OBJECT obj fw_addr m = store obj (SGEN_POINTER_TAG_FORWARDED fw_addr) m"

text \<open>
  The parallel collector: the word is read, and if it does not forward the object, compared and exchanged in a second
  step, between which other threads may run. Each step gives the final address, the first one only if
  the object is already forwarded.
\<close>

definition SGEN_FORWARD_OBJECT_PAR_read :: "u32 \<Rightarrow> memory \<Rightarrow> (u32 \<times> u32) option" where
  "SGEN_FORWARD_OBJECT_PAR_read obj m = do {
     old_vtable_word \<leftarrow> load m obj;
     Some (old_vtable_word, SGEN_VTABLE_IS_FORWARDED old_vtable_word) }"

definition SGEN_FORWARD_OBJECT_PAR_exchange :: "u32 \<Rightarrow> u32 \<Rightarrow> u32 \<Rightarrow> memory \<Rightarrow> (u32 \<times> memory) option" where
  "SGEN_FORWARD_OBJECT_PAR_exchange obj fw_addr old_vtable_word m = do {
     read \<leftarrow> load m obj;
     m \<leftarrow> (if read = old_vtable_word then store obj (SGEN_POINTER_TAG_FORWARDED fw_addr) m else Some m);
     final_fw_addr \<leftarrow> Some (SGEN_VTABLE_IS_FORWARDED read);
     Some (if final_fw_addr = 0 then fw_addr else final_fw_addr, m) }"

definition SGEN_PIN_OBJECT :: "u32 \<Rightarrow> memory \<Rightarrow> memory option" where
  "SGEN_PIN_OBJECT obj m = do { w \<leftarrow> load m obj; store obj (SGEN_POINTER_TAG_PINNED w) m }"

definition SGEN_CEMENT_OBJECT :: "u32 \<Rightarrow> memory \<Rightarrow> memory option" where
  "SGEN_CEMENT_OBJECT obj m = do { w \<leftarrow> load m obj; store obj (SGEN_POINTER_TAG_CEMENTED w) m }"

definition SGEN_UNPIN_OBJECT :: "u32 \<Rightarrow> memory \<Rightarrow> memory option" where
  "SGEN_UNPIN_OBJECT obj m = do { w \<leftarrow> load m obj; store obj (SGEN_POINTER_UNTAG_VTABLE w) m }"

definition sgen_obj_get_descriptor :: "gc_runtime \<Rightarrow> u32 \<Rightarrow> memory \<Rightarrow> u32 option" where
  "sgen_obj_get_descriptor R obj m = map_option (sgen_vtable_get_descriptor R) (SGEN_LOAD_VTABLE_UNCHECKED obj m)"

definition sgen_obj_get_descriptor_safe :: "gc_runtime \<Rightarrow> u32 \<Rightarrow> memory \<Rightarrow> u32 option" where
  "sgen_obj_get_descriptor_safe R obj m = map_option (sgen_vtable_get_descriptor R) (SGEN_LOAD_VTABLE obj m)"

section \<open>Sizes\<close>

text \<open>The number of bytes of the characters of a string, computed in \<open>int\<close>.\<close>

definition string_bytes :: "u32 \<Rightarrow> u32 option" where
  "string_bytes len = (if - (2 ^ 31) \<le> 2 * sint len \<and> 2 * sint len < 2 ^ 31 then Some (2 * len) else None)"

text \<open>The size of an array and of its bounds with the padding before them.\<close>

definition sgen_mono_array_size :: "gc_runtime \<Rightarrow> u32 \<Rightarrow> u32 \<Rightarrow> u32 \<Rightarrow> memory \<Rightarrow> (u32 \<times> u32) option" where
  "sgen_mono_array_size R vtable array descr m = do {
     let element_size = (if descr AND DESC_TYPE_MASK = desc_type_val DESC_TYPE_VECTOR
       then drop_bit VECTOR_ELSIZE_SHIFT descr AND MAX_ELEMENT_SIZE
       else class_element_size R (klass R vtable));
     len \<leftarrow> load m (array + 12);
     let size_without_bounds = 16 + element_size * len;
     bounds \<leftarrow> load m (array + 8);
     let size = (if bounds \<noteq> 0
       then ((size_without_bounds + 3) AND NOT 3) + 8 * ucast (class_rank R (klass R vtable))
       else size_without_bounds);
     Some (size, size - size_without_bounds) }"

definition sgen_client_slow_object_get_size :: "gc_runtime \<Rightarrow> u32 \<Rightarrow> u32 \<Rightarrow> memory \<Rightarrow> u32 option" where
  "sgen_client_slow_object_get_size R vtable ob m =
    (if klass R vtable = string_class R then do {
       len \<leftarrow> load m (ob + 8);
       chars \<leftarrow> string_bytes len;
       Some (12 + chars + 2) }
     else if class_rank R (klass R vtable) \<noteq> 0 then map_option fst (sgen_mono_array_size R vtable ob 0 m)
     else Some (class_instance_size R (klass R vtable)))"

definition SGEN_DESC_STRING :: u32 where
  "SGEN_DESC_STRING = desc_type_val DESC_TYPE_COMPLEX_PTRFREE OR push_bit LOW_TYPE_BITS 1"

definition sgen_client_par_object_get_size :: "gc_runtime \<Rightarrow> u32 \<Rightarrow> u32 \<Rightarrow> memory \<Rightarrow> u32 option" where
  "sgen_client_par_object_get_size R vtable ob m =
    (let descr = sgen_vtable_get_descriptor R vtable; type = descr AND DESC_TYPE_MASK in
     if type = desc_type_val DESC_TYPE_RUN_LENGTH \<or> type = desc_type_val DESC_TYPE_SMALL_PTRFREE then Some (descr AND 0xfff8)
     else if descr = SGEN_DESC_STRING then do {
       len \<leftarrow> load m (ob + 8);
       chars \<leftarrow> string_bytes len;
       Some (12 + chars + 2) }
     else if type = desc_type_val DESC_TYPE_VECTOR then map_option fst (sgen_mono_array_size R vtable ob descr m)
     else sgen_client_slow_object_get_size R vtable ob m)"

definition sgen_safe_object_get_size :: "gc_runtime \<Rightarrow> u32 \<Rightarrow> memory \<Rightarrow> u32 option" where
  "sgen_safe_object_get_size R obj m = do {
     vtable \<leftarrow> SGEN_LOAD_VTABLE_UNCHECKED obj m;
     let forwarded = SGEN_VTABLE_IS_FORWARDED vtable;
     if forwarded \<noteq> 0 then do {
       vt \<leftarrow> SGEN_LOAD_VTABLE forwarded m;
       sgen_client_par_object_get_size R vt obj m }
     else sgen_client_par_object_get_size R (SGEN_POINTER_UNTAG_ALL vtable) obj m }"

definition sgen_safe_object_get_size_unaligned :: "gc_runtime \<Rightarrow> u32 \<Rightarrow> memory \<Rightarrow> u32 option" where
  "sgen_safe_object_get_size_unaligned R obj m = do {
     forwarded \<leftarrow> SGEN_OBJECT_IS_FORWARDED obj m;
     let obj = (if forwarded \<noteq> 0 then forwarded else obj);
     vt \<leftarrow> SGEN_LOAD_VTABLE obj m;
     sgen_client_slow_object_get_size R vt obj m }"

definition SGEN_MAX_SMALL_OBJ_SIZE :: u32 where "SGEN_MAX_SMALL_OBJ_SIZE = 8000"
definition DESC_TYPE_MAX_SMALL_OBJ :: u32 where "DESC_TYPE_MAX_SMALL_OBJ = 3"

definition sgen_safe_object_is_small :: "gc_runtime \<Rightarrow> u32 \<Rightarrow> u32 \<Rightarrow> memory \<Rightarrow> bool option" where
  "sgen_safe_object_is_small R obj type m =
    (if type \<le> DESC_TYPE_MAX_SMALL_OBJ then Some True
     else do {
       size \<leftarrow> sgen_safe_object_get_size R obj m;
       Some (SGEN_ALIGN_UP size \<le> SGEN_MAX_SMALL_OBJ_SIZE) })"

section \<open>The to-space and live objects\<close>

definition sgen_nursery_is_to_space :: "gc_runtime \<Rightarrow> u32 \<Rightarrow> bool option" where
  "sgen_nursery_is_to_space R ob =
    (let idx = drop_bit 9 (ob - nursery_start R); byte = drop_bit 3 idx; bit' = idx AND 7 in
     if \<not> sgen_ptr_in_nursery R ob then None
     else if \<not> unat byte < length (space_bitmap R) then None
     else Some ((space_bitmap R ! unat byte) AND push_bit (unat bit') 1 \<noteq> 0))"

definition sgen_nursery_is_from_space :: "gc_runtime \<Rightarrow> u32 \<Rightarrow> bool option" where
  "sgen_nursery_is_from_space R ob = map_option Not (sgen_nursery_is_to_space R ob)"

definition sgen_nursery_is_object_alive :: "gc_runtime \<Rightarrow> u32 \<Rightarrow> memory \<Rightarrow> bool option" where
  "sgen_nursery_is_object_alive R obj m =
    (if \<not> sgen_ptr_in_nursery R obj then None
     else do {
       to_space \<leftarrow> sgen_nursery_is_to_space R obj;
       if to_space then Some True
       else do {
         pinned \<leftarrow> SGEN_OBJECT_IS_PINNED obj m;
         if pinned then Some True
         else do { forwarded \<leftarrow> SGEN_OBJECT_IS_FORWARDED obj m; Some (forwarded \<noteq> 0) } } })"

definition sgen_major_is_object_alive :: "gc_runtime \<Rightarrow> u32 \<Rightarrow> memory \<Rightarrow> bool option" where
  "sgen_major_is_object_alive R ob m = do {
     pinned \<leftarrow> SGEN_OBJECT_IS_PINNED ob m;
     if pinned then Some True
     else do {
       forwarded \<leftarrow> SGEN_OBJECT_IS_FORWARDED ob m;
       if forwarded \<noteq> 0 then Some True
       else do {
         size \<leftarrow> sgen_safe_object_get_size R ob m;
         if SGEN_ALIGN_UP size > SGEN_MAX_SMALL_OBJ_SIZE then Some (los_is_pinned R ob)
         else Some (major_is_live R ob) } } }"

definition sgen_is_object_alive :: "gc_runtime \<Rightarrow> u32 \<Rightarrow> memory \<Rightarrow> bool option" where
  "sgen_is_object_alive R ob m =
    (if sgen_ptr_in_nursery R ob then sgen_nursery_is_object_alive R ob m else sgen_major_is_object_alive R ob m)"

definition GENERATION_NURSERY :: int where "GENERATION_NURSERY = 0"

definition sgen_is_object_alive_for_current_gen :: "gc_runtime \<Rightarrow> u32 \<Rightarrow> memory \<Rightarrow> bool option" where
  "sgen_is_object_alive_for_current_gen R ob m =
    (if sgen_ptr_in_nursery R ob then sgen_nursery_is_object_alive R ob m
     else if generation R = GENERATION_NURSERY then Some True
     else sgen_major_is_object_alive R ob m)"

end
