(* ===== verification/GrayQueue.thy ===== *)
theory GrayQueue
  imports Prelude
begin

text \<open>
  \<open>mono/sgen/sgen-gray.h\<close>: the stack of gray objects, a chain of sections with a cursor at the last entry of
  the first one. The header holds the fast paths; the slow paths are declared only and are parameters. \<open>GRAY_OBJECT_ENQUEUE\<close> and
  \<open>GRAY_OBJECT_DEQUEUE\<close> refine pushing and popping when the slow paths do. A cursor is the index of the entry it points to in
  the first section; \<open>None\<close> is an access outside of the section.
\<close>

definition SGEN_GRAY_QUEUE_HEADER_SIZE :: nat where "SGEN_GRAY_QUEUE_HEADER_SIZE = 3"
definition SGEN_GRAY_QUEUE_SECTION_SIZE :: nat where
  "SGEN_GRAY_QUEUE_SECTION_SIZE = 512 - SGEN_GRAY_QUEUE_HEADER_SIZE"

text \<open>An entry: an object and its descriptor.\<close>

type_synonym GrayQueueEntry = "u32 \<times> u32"

record GrayQueueSection =
  section_size :: nat
  section_entries :: "GrayQueueEntry list"

text \<open>The sections from \<open>first\<close> on along \<open>next\<close>.\<close>

record SgenGrayQueue =
  cursor :: nat
  sections :: "GrayQueueSection list"
  free_list :: "GrayQueueSection list"
  num_sections :: int

type_synonym enqueue_slow = "SgenGrayQueue \<Rightarrow> u32 \<Rightarrow> u32 \<Rightarrow> bool \<Rightarrow> SgenGrayQueue option"
type_synonym dequeue_slow = "SgenGrayQueue \<Rightarrow> bool \<Rightarrow> (GrayQueueEntry \<times> SgenGrayQueue) option"

definition GRAY_LAST_CURSOR_POSITION :: nat where
  "GRAY_LAST_CURSOR_POSITION = SGEN_GRAY_QUEUE_SECTION_SIZE - 1"
definition GRAY_FIRST_CURSOR_POSITION :: nat where
  "GRAY_FIRST_CURSOR_POSITION = 0"

definition sgen_gray_object_queue_is_empty :: "SgenGrayQueue \<Rightarrow> bool" where
  "sgen_gray_object_queue_is_empty queue \<longleftrightarrow> sections queue = []"

definition GRAY_OBJECT_ENQUEUE :: "enqueue_slow \<Rightarrow> SgenGrayQueue \<Rightarrow> u32 \<Rightarrow> u32 \<Rightarrow> bool \<Rightarrow> SgenGrayQueue option" where
  "GRAY_OBJECT_ENQUEUE sgen_gray_object_enqueue queue obj desc is_parallel =
    (case sections queue of
       [] \<Rightarrow> sgen_gray_object_enqueue queue obj desc is_parallel
     | s # rest \<Rightarrow>
         if cursor queue = GRAY_LAST_CURSOR_POSITION then sgen_gray_object_enqueue queue obj desc is_parallel
         else
           let c = cursor queue + 1 in
           if c < length (section_entries s)
           then Some (queue\<lparr>cursor := c, sections := s\<lparr>section_entries := (section_entries s)[c := (obj, desc)]\<rparr> # rest\<rparr>)
           else None)"

text \<open>The variables of the caller for the object and the descriptor; the descriptor is kept when there is no object.\<close>

definition GRAY_OBJECT_DEQUEUE :: "dequeue_slow \<Rightarrow> SgenGrayQueue \<Rightarrow> u32 \<Rightarrow> bool \<Rightarrow> (GrayQueueEntry \<times> SgenGrayQueue) option" where
  "GRAY_OBJECT_DEQUEUE sgen_gray_object_dequeue queue desc is_parallel =
    (case sections queue of
       [] \<Rightarrow> Some ((0, desc), queue)
     | s # rest \<Rightarrow>
         if cursor queue = GRAY_FIRST_CURSOR_POSITION then sgen_gray_object_dequeue queue is_parallel
         else if cursor queue < length (section_entries s)
         then Some (section_entries s ! cursor queue, queue\<lparr>cursor := cursor queue - 1\<rparr>)
         else None)"

definition GRAY_OBJECT_ENQUEUE_SERIAL :: "enqueue_slow \<Rightarrow> SgenGrayQueue \<Rightarrow> u32 \<Rightarrow> u32 \<Rightarrow> SgenGrayQueue option" where
  "GRAY_OBJECT_ENQUEUE_SERIAL slow queue obj desc = GRAY_OBJECT_ENQUEUE slow queue obj desc False"
definition GRAY_OBJECT_ENQUEUE_PARALLEL :: "enqueue_slow \<Rightarrow> SgenGrayQueue \<Rightarrow> u32 \<Rightarrow> u32 \<Rightarrow> SgenGrayQueue option" where
  "GRAY_OBJECT_ENQUEUE_PARALLEL slow queue obj desc = GRAY_OBJECT_ENQUEUE slow queue obj desc True"
definition GRAY_OBJECT_DEQUEUE_SERIAL :: "dequeue_slow \<Rightarrow> SgenGrayQueue \<Rightarrow> u32 \<Rightarrow> (GrayQueueEntry \<times> SgenGrayQueue) option" where
  "GRAY_OBJECT_DEQUEUE_SERIAL slow queue desc = GRAY_OBJECT_DEQUEUE slow queue desc False"
definition GRAY_OBJECT_DEQUEUE_PARALLEL :: "dequeue_slow \<Rightarrow> SgenGrayQueue \<Rightarrow> u32 \<Rightarrow> (GrayQueueEntry \<times> SgenGrayQueue) option" where
  "GRAY_OBJECT_DEQUEUE_PARALLEL slow queue desc = GRAY_OBJECT_DEQUEUE slow queue desc True"

section \<open>The stack it stands for\<close>

text \<open>
  The entries from the last one on: those of the first section up to the cursor, then those of the others up to
  their sizes.
\<close>

definition gray_items :: "SgenGrayQueue \<Rightarrow> GrayQueueEntry list" where
  "gray_items q = (case sections q of [] \<Rightarrow> []
     | s # rest \<Rightarrow> rev (take (cursor q + 1) (section_entries s)) @
         concat (map (\<lambda>t. rev (take (section_size t) (section_entries t))) rest))"

definition gray_ok :: "SgenGrayQueue \<Rightarrow> bool" where
  "gray_ok q \<longleftrightarrow> (sections q \<noteq> [] \<longrightarrow> cursor q < SGEN_GRAY_QUEUE_SECTION_SIZE) \<and>
     (\<forall>s \<in> set (sections q). length (section_entries s) = SGEN_GRAY_QUEUE_SECTION_SIZE) \<and>
     (\<forall>s \<in> set (tl (sections q)). 0 < section_size s \<and> section_size s \<le> SGEN_GRAY_QUEUE_SECTION_SIZE)"

text \<open>What the header says of the slow paths: they push and pop an entry of a stack.\<close>

definition slow_paths :: "enqueue_slow \<Rightarrow> dequeue_slow \<Rightarrow> bool" where
  "slow_paths enq deq \<longleftrightarrow>
    (\<forall>q obj desc par. gray_ok q \<longrightarrow>
       (\<exists>q'. enq q obj desc par = Some q' \<and> gray_ok q' \<and> gray_items q' = (obj, desc) # gray_items q)) \<and>
    (\<forall>q par e rest. gray_ok q \<longrightarrow> gray_items q = e # rest \<longrightarrow>
       (\<exists>q'. deq q par = Some (e, q') \<and> gray_ok q' \<and> gray_items q' = rest))"

lemma gray_empty_iff: "gray_ok q \<Longrightarrow> gray_items q = [] \<longleftrightarrow> sections q = []"
  by (auto simp: gray_items_def gray_ok_def SGEN_GRAY_QUEUE_SECTION_SIZE_def SGEN_GRAY_QUEUE_HEADER_SIZE_def split: list.splits)

lemma enqueue_pushes:
  assumes "slow_paths enq deq" "gray_ok q"
  shows "\<exists>q'. GRAY_OBJECT_ENQUEUE enq q obj desc par = Some q' \<and> gray_ok q' \<and> gray_items q' = (obj, desc) # gray_items q"
proof (cases "sections q = [] \<or> cursor q = GRAY_LAST_CURSOR_POSITION")
  case True
  then have "GRAY_OBJECT_ENQUEUE enq q obj desc par = enq q obj desc par"
    by (auto simp: GRAY_OBJECT_ENQUEUE_def split: list.splits)
  then show ?thesis using assms by (simp add: slow_paths_def)
next
  case False
  then obtain s rest where s: "sections q = s # rest" by (cases "sections q") auto
  then have len: "cursor q + 1 < length (section_entries s)" using False assms(2)
    by (auto simp: gray_ok_def GRAY_LAST_CURSOR_POSITION_def SGEN_GRAY_QUEUE_SECTION_SIZE_def)
  let ?q = "q\<lparr>cursor := cursor q + 1, sections := s\<lparr>section_entries := (section_entries s)[cursor q + 1 := (obj, desc)]\<rparr> # rest\<rparr>"
  have "GRAY_OBJECT_ENQUEUE enq q obj desc par = Some ?q" using False s len by (simp add: GRAY_OBJECT_ENQUEUE_def Let_def)
  moreover have "gray_ok ?q" using assms(2) s len by (auto simp: gray_ok_def)
  moreover have "gray_items ?q = (obj, desc) # gray_items q" using s len by (simp add: gray_items_def take_Suc_conv_app_nth)
  ultimately show ?thesis by blast
qed

lemma dequeue_pops:
  assumes "slow_paths enq deq" "gray_ok q"
  shows "(gray_items q = [] \<and> GRAY_OBJECT_DEQUEUE deq q desc par = Some ((0, desc), q)) \<or>
    (\<exists>e rest q'. gray_items q = e # rest \<and> GRAY_OBJECT_DEQUEUE deq q desc par = Some (e, q') \<and> gray_ok q' \<and> gray_items q' = rest)"
proof (cases "sections q")
  case Nil
  then show ?thesis by (simp add: GRAY_OBJECT_DEQUEUE_def gray_items_def)
next
  case (Cons s rest)
  then have "gray_items q \<noteq> []" using gray_empty_iff [OF assms(2)] by simp
  then obtain e es where es: "gray_items q = e # es" by (cases "gray_items q") auto
  show ?thesis
  proof (cases "cursor q = GRAY_FIRST_CURSOR_POSITION")
    case True
    then have "GRAY_OBJECT_DEQUEUE deq q desc par = deq q par" using Cons by (simp add: GRAY_OBJECT_DEQUEUE_def)
    moreover obtain q' where "deq q par = Some (e, q')" "gray_ok q'" "gray_items q' = es"
      using assms es unfolding slow_paths_def by blast
    ultimately show ?thesis using es by auto
  next
    case False
    then obtain c where c: "cursor q = Suc c" by (cases "cursor q") (auto simp: GRAY_FIRST_CURSOR_POSITION_def)
    then have len: "Suc c < length (section_entries s)" using Cons assms(2) by (auto simp: gray_ok_def)
    let ?q = "q\<lparr>cursor := c\<rparr>"
    have items: "gray_items q = section_entries s ! Suc c # gray_items ?q"
      using Cons c len by (simp add: gray_items_def take_Suc_conv_app_nth)
    have "GRAY_OBJECT_DEQUEUE deq q desc par = Some (section_entries s ! Suc c, ?q)"
      using Cons c len False by (simp add: GRAY_OBJECT_DEQUEUE_def)
    moreover have "gray_ok ?q" using assms(2) Cons c by (auto simp: gray_ok_def)
    ultimately show ?thesis using items by blast
  qed
qed

text \<open>
  C21: The gray queue is a stack: whatever its sections, adding an object through the fast or the slow path puts
  it on top and removing gives the top back and leaves the rest; an empty queue answers with a null object
  and stays as it is.
\<close>
theorem gray_queue_refines_stack:
  assumes "slow_paths enq deq" "gray_ok q"
  shows "(\<exists>q'. GRAY_OBJECT_ENQUEUE enq q obj desc par = Some q' \<and> gray_ok q' \<and> gray_items q' = (obj, desc) # gray_items q) \<and>
    (gray_items q = [] \<longrightarrow> GRAY_OBJECT_DEQUEUE deq q desc par = Some ((0, desc), q)) \<and>
    (\<forall>e rest. gray_items q = e # rest \<longrightarrow>
       (\<exists>q'. GRAY_OBJECT_DEQUEUE deq q desc par = Some (e, q') \<and> gray_ok q' \<and> gray_items q' = rest))"
  using enqueue_pushes [OF assms] dequeue_pops [OF assms, of desc par] by auto

text \<open>Slow paths that keep the promise: a new section when the first one is full, the next one when it is used up.\<close>

definition demo_enqueue :: enqueue_slow where
  "demo_enqueue q obj desc par =
    (let s = \<lparr>section_size = SGEN_GRAY_QUEUE_SECTION_SIZE,
         section_entries = (obj, desc) # replicate (SGEN_GRAY_QUEUE_SECTION_SIZE - 1) (0, 0)\<rparr>
     in Some (q\<lparr>cursor := 0, sections := s #
       (case sections q of [] \<Rightarrow> [] | t # rest \<Rightarrow> t\<lparr>section_size := cursor q + 1\<rparr> # rest)\<rparr>))"

definition demo_dequeue :: dequeue_slow where
  "demo_dequeue q par = (case sections q of [] \<Rightarrow> None
     | s # rest \<Rightarrow> Some (section_entries s ! cursor q,
         if 0 < cursor q then q\<lparr>cursor := cursor q - 1\<rparr>
         else (case rest of [] \<Rightarrow> q\<lparr>sections := []\<rparr>
           | t # _ \<Rightarrow> q\<lparr>cursor := section_size t - 1, sections := rest\<rparr>)))"

lemma demo_slow_paths: "slow_paths demo_enqueue demo_dequeue"
  unfolding slow_paths_def
proof (intro conjI allI impI)
  fix q obj desc par
  assume ok: "gray_ok q"
  then show "\<exists>q'. demo_enqueue q obj desc par = Some q' \<and> gray_ok q' \<and> gray_items q' = (obj, desc) # gray_items q"
    by (auto simp: demo_enqueue_def gray_ok_def gray_items_def SGEN_GRAY_QUEUE_SECTION_SIZE_def
        SGEN_GRAY_QUEUE_HEADER_SIZE_def split: list.splits)
next
  fix q par e es
  assume ok: "gray_ok q" and items: "gray_items q = e # es"
  then obtain s rest where s: "sections q = s # rest" by (cases "sections q") (auto simp: gray_items_def)
  have len: "cursor q < length (section_entries s)" using ok s by (simp add: gray_ok_def)
  then have top: "e = section_entries s ! cursor q" 
      "es = rev (take (cursor q) (section_entries s)) @ concat (map (\<lambda>t. rev (take (section_size t) (section_entries t))) rest)"
    using items s by (simp_all add: gray_items_def take_Suc_conv_app_nth)
  show "\<exists>q'. demo_dequeue q par = Some (e, q') \<and> gray_ok q' \<and> gray_items q' = es"
  proof (cases "cursor q")
    case 0
    then show ?thesis using ok s top 
      by (cases rest) (auto simp: demo_dequeue_def gray_ok_def gray_items_def)
  next
    case (Suc c)
    then show ?thesis using ok s top by (auto simp: demo_dequeue_def gray_ok_def gray_items_def)
  qed
qed

definition empty_queue :: SgenGrayQueue where
  "empty_queue = \<lparr>cursor = 0, sections = [], free_list = [], num_sections = 0\<rparr>"

lemma empty_queue_ok: "gray_ok empty_queue" "gray_items empty_queue = []"
  by (simp_all add: empty_queue_def gray_ok_def gray_items_def)

theorem gray_queue_refines_stack_witness:
  "\<exists>q. GRAY_OBJECT_ENQUEUE demo_enqueue empty_queue 64 9 False = Some q \<and> gray_items q = [(64, 9)]"
  using gray_queue_refines_stack [OF demo_slow_paths empty_queue_ok(1), of 64 9 False] empty_queue_ok(2) by auto

end
