(* ===== verification/MinorCopy.thy ===== *)
theory MinorCopy
  imports GcHeap GrayQueue
begin

text \<open>
  The nursery collector: copying an object (\<open>sgen-copy-object.h\<close>), updating a reference
  (\<open>sgen-minor-copy-object.h\<close>), scanning an object and draining the gray stack
  (\<open>sgen-minor-scan-object.h\<close>), in the serial configurations for a simple and for a split nursery. The allocator
  for promoted objects, the pinning of an object, the remembered set and the slow paths of the gray queue are not in
  the headers and are parameters or recorded calls. Statistics, logging and the binary protocol, which the build leaves
  out, and memory fences, which order nothing in one thread, are left out. Draining is a partial function in which
  \<open>None\<close> is a run that does not return or goes wrong.
\<close>

section \<open>State and parameters\<close>

datatype gc_call = Global_remset u32 u32 | Pinned_from_failed_allocation u32 | Registered_move u32 u32

record gc_state =
  mem :: memory
  gray :: SgenGrayQueue
  calls :: "gc_call list"

record gc_collector =
  simple_nursery :: bool
  gc_moves :: bool
  alloc_for_promotion :: "u32 \<Rightarrow> u32 \<Rightarrow> u32 \<Rightarrow> bool \<Rightarrow> memory \<Rightarrow> u32 \<times> memory"
  pin_object :: "u32 \<Rightarrow> gc_state \<Rightarrow> gc_state option"
  enqueue_path :: enqueue_slow
  dequeue_path :: dequeue_slow

definition record_call :: "gc_call \<Rightarrow> gc_state \<Rightarrow> gc_state" where
  "record_call c s = s\<lparr>calls := calls s @ [c]\<rparr>"

definition sgen_add_to_global_remset :: "u32 \<Rightarrow> u32 \<Rightarrow> gc_state \<Rightarrow> gc_state" where
  "sgen_add_to_global_remset ptr obj = record_call (Global_remset ptr obj)"

definition on_memory :: "(memory \<Rightarrow> memory option) \<Rightarrow> gc_state \<Rightarrow> gc_state option" where
  "on_memory f s = map_option (\<lambda>m. s\<lparr>mem := m\<rparr>) (f (mem s))"

definition SGEN_UPDATE_REFERENCE :: "u32 \<Rightarrow> u32 \<Rightarrow> gc_state \<Rightarrow> gc_state option" where
  "SGEN_UPDATE_REFERENCE p ob = on_memory (store p ob)"

section \<open>Copying\<close>

text \<open>\<open>memcpy\<close> of whole words between regions that do not overlap.\<close>

fun copy_words :: "nat \<Rightarrow> u32 \<Rightarrow> u32 \<Rightarrow> memory \<Rightarrow> memory option" where
  "copy_words 0 dst src m = Some m"
| "copy_words (Suc n) dst src m = do {
     v \<leftarrow> load m src;
     m \<leftarrow> store dst v m;
     copy_words n (dst + 4) (src + 4) m }"

definition memcpy :: "u32 \<Rightarrow> u32 \<Rightarrow> nat \<Rightarrow> memory \<Rightarrow> memory option" where
  "memcpy dst src n m =
    (if (unat dst + 4 * n \<le> unat src \<or> unat src + 4 * n \<le> unat dst) \<and> unat dst + 4 * n \<le> 2 ^ 32 \<and> unat src + 4 * n \<le> 2 ^ 32
     then copy_words n dst src m else None)"

definition sgen_client_update_copied_object ::
  "gc_collector \<Rightarrow> gc_runtime \<Rightarrow> u32 \<Rightarrow> u32 \<Rightarrow> u32 \<Rightarrow> u32 \<Rightarrow> gc_state \<Rightarrow> gc_state option" where
  "sgen_client_update_copied_object C R destination vt obj objsize s = do {
     s \<leftarrow> (if vtable_rank R vt \<noteq> 0 then do {
            bounds \<leftarrow> load (mem s) (obj + 8);
            if bounds \<noteq> 0 then on_memory (store (destination + 8) (destination + (bounds - obj))) s else Some s }
          else Some s);
     Some (if gc_moves C then record_call (Registered_move obj destination) s else s) }"

definition par_copy_object_no_checks ::
  "gc_collector \<Rightarrow> gc_runtime \<Rightarrow> u32 \<Rightarrow> u32 \<Rightarrow> u32 \<Rightarrow> u32 \<Rightarrow> gc_state \<Rightarrow> gc_state option" where
  "par_copy_object_no_checks C R destination vt obj objsize s = do {
     s \<leftarrow> on_memory (memcpy (destination + 4) (obj + 4) (unat (objsize - 4) div 4)) s;
     sgen_client_update_copied_object C R destination vt obj objsize s }"

definition enqueue_gray :: "gc_collector \<Rightarrow> u32 \<Rightarrow> u32 \<Rightarrow> gc_state \<Rightarrow> gc_state option" where
  "enqueue_gray C obj desc s =
    map_option (\<lambda>q. s\<lparr>gray := q\<rparr>) (GRAY_OBJECT_ENQUEUE_SERIAL (enqueue_path C) (gray s) obj desc)"

definition copy_object_no_checks :: "gc_collector \<Rightarrow> gc_runtime \<Rightarrow> u32 \<Rightarrow> gc_state \<Rightarrow> (u32 \<times> gc_state) option" where
  "copy_object_no_checks C R obj s = do {
     vt \<leftarrow> SGEN_LOAD_VTABLE_UNCHECKED obj (mem s);
     has_references \<leftarrow> Some (SGEN_VTABLE_HAS_REFERENCES R vt);
     size \<leftarrow> sgen_client_par_object_get_size R vt obj (mem s);
     objsize \<leftarrow> Some (SGEN_ALIGN_UP size);
     (destination, m) \<leftarrow> Some (alloc_for_promotion C vt obj objsize has_references (mem s));
     s \<leftarrow> Some (s\<lparr>mem := m\<rparr>);
     if destination = 0 then do {
       s \<leftarrow> pin_object C obj s;
       Some (obj, record_call (Pinned_from_failed_allocation objsize) s) }
     else do {
       s \<leftarrow> par_copy_object_no_checks C R destination vt obj objsize s;
       s \<leftarrow> on_memory (SGEN_FORWARD_OBJECT obj destination) s;
       s \<leftarrow> (if has_references then enqueue_gray C destination (sgen_vtable_get_descriptor R vt) s else Some s);
       Some (destination, s) } }"

section \<open>Updating a reference\<close>

definition SERIAL_COPY_OBJECT :: "gc_collector \<Rightarrow> gc_runtime \<Rightarrow> u32 \<Rightarrow> gc_state \<Rightarrow> gc_state option" where
  "SERIAL_COPY_OBJECT C R obj_slot s = do {
     obj \<leftarrow> load (mem s) obj_slot;
     if \<not> sgen_ptr_in_nursery R obj then Some s
     else do {
       forwarded \<leftarrow> SGEN_OBJECT_IS_FORWARDED obj (mem s);
       if forwarded \<noteq> 0 then SGEN_UPDATE_REFERENCE obj_slot forwarded s
       else do {
         pinned \<leftarrow> SGEN_OBJECT_IS_PINNED obj (mem s);
         if pinned then Some s
         else do {
           to_space \<leftarrow> (if simple_nursery C then Some False else sgen_nursery_is_to_space R obj);
           if to_space then Some s
           else do {
             (copy, s) \<leftarrow> copy_object_no_checks C R obj s;
             SGEN_UPDATE_REFERENCE obj_slot copy s } } } } }"

text \<open>A reference into the nursery from outside of it is remembered, unless the object is cemented.\<close>

definition remember :: "gc_runtime \<Rightarrow> u32 \<Rightarrow> u32 \<Rightarrow> gc_state \<Rightarrow> gc_state option" where
  "remember R obj_slot obj s =
    (if \<not> sgen_ptr_in_nursery R obj_slot then do {
       cemented \<leftarrow> SGEN_OBJECT_IS_CEMENTED obj (mem s);
       Some (if cemented then s else sgen_add_to_global_remset obj_slot obj s) }
     else Some s)"

definition SERIAL_COPY_OBJECT_FROM_OBJ :: "gc_collector \<Rightarrow> gc_runtime \<Rightarrow> u32 \<Rightarrow> gc_state \<Rightarrow> gc_state option" where
  "SERIAL_COPY_OBJECT_FROM_OBJ C R obj_slot s = do {
     obj \<leftarrow> load (mem s) obj_slot;
     if \<not> sgen_ptr_in_nursery R obj then Some s
     else do {
       forwarded \<leftarrow> SGEN_OBJECT_IS_FORWARDED obj (mem s);
       if forwarded \<noteq> 0 then do {
         s \<leftarrow> SGEN_UPDATE_REFERENCE obj_slot forwarded s;
         if \<not> simple_nursery C \<and> sgen_ptr_in_nursery R forwarded then remember R obj_slot forwarded s else Some s }
       else do {
         pinned \<leftarrow> SGEN_OBJECT_IS_PINNED obj (mem s);
         if pinned then remember R obj_slot obj s
         else do {
           to_space \<leftarrow> (if simple_nursery C then Some False else sgen_nursery_is_to_space R obj);
           if to_space then remember R obj_slot obj s
           else do {
             (copy, s) \<leftarrow> copy_object_no_checks C R obj s;
             s \<leftarrow> SGEN_UPDATE_REFERENCE obj_slot copy s;
             if (\<not> simple_nursery C \<or> obj = copy) \<and> sgen_ptr_in_nursery R copy then remember R obj_slot copy s
             else Some s } } } } }"

section \<open>Scanning and draining\<close>

definition HANDLE_PTR :: "gc_collector \<Rightarrow> gc_runtime \<Rightarrow> u32 \<Rightarrow> gc_state \<Rightarrow> gc_state option" where
  "HANDLE_PTR C R ptr s = do {
     old \<leftarrow> load (mem s) ptr;
     if old \<noteq> 0 then SERIAL_COPY_OBJECT_FROM_OBJ C R ptr s else Some s }"

fun handle_all :: "gc_collector \<Rightarrow> gc_runtime \<Rightarrow> u32 list \<Rightarrow> gc_state \<Rightarrow> gc_state option" where
  "handle_all C R [] s = Some s"
| "handle_all C R (p # ps) s = do { s \<leftarrow> HANDLE_PTR C R p s; handle_all C R ps s }"

text \<open>
  The object as the macros of the descriptors read it. Only the descriptors of arrays read the length, before their
  loops, and only the one of complex elements the vtable; handling a reference changes neither.
\<close>

definition is_vector_desc :: "u32 \<Rightarrow> bool" where
  "is_vector_desc desc \<longleftrightarrow> desc AND DESC_TYPE_MASK = desc_type_val DESC_TYPE_VECTOR"
definition is_complex_arr_desc :: "u32 \<Rightarrow> bool" where
  "is_complex_arr_desc desc \<longleftrightarrow> desc AND DESC_TYPE_MASK = desc_type_val DESC_TYPE_COMPLEX_ARR"

definition object_view :: "gc_runtime \<Rightarrow> u32 \<Rightarrow> u32 \<Rightarrow> memory \<Rightarrow> gc_object option" where
  "object_view R start desc m = do {
     len \<leftarrow> (if is_vector_desc desc \<or> is_complex_arr_desc desc then load m (start + 12) else Some 0);
     elements \<leftarrow> (if is_complex_arr_desc desc then do {
                   vt \<leftarrow> SGEN_LOAD_VTABLE start m;
                   Some (array_element_size R (klass R vt)) }
                 else Some 0);
     Some \<lparr>obj_addr = start, array_length = len, element_size = elements\<rparr> }"

definition SERIAL_SCAN_OBJECT :: "gc_collector \<Rightarrow> gc_runtime \<Rightarrow> u32 \<Rightarrow> u32 \<Rightarrow> gc_state \<Rightarrow> gc_state option" where
  "SERIAL_SCAN_OBJECT C R full_object desc s = do {
     view \<leftarrow> object_view R full_object desc (mem s);
     slots \<leftarrow> scan_object (complex_descriptor R) desc view;
     handle_all C R slots s }"

text \<open>A value type in memory: no header before it, and no arrays of complex elements.\<close>

definition SERIAL_SCAN_VTYPE :: "gc_collector \<Rightarrow> gc_runtime \<Rightarrow> u32 \<Rightarrow> u32 \<Rightarrow> gc_state \<Rightarrow> gc_state option" where
  "SERIAL_SCAN_VTYPE C R start desc s = do {
     let start = start - 8;
     if is_complex_arr_desc desc then None
     else do {
       view \<leftarrow> object_view R start desc (mem s);
       slots \<leftarrow> scan_object (complex_descriptor R) desc view;
       handle_all C R slots s } }"

definition SERIAL_SCAN_PTR_FIELD :: "gc_collector \<Rightarrow> gc_runtime \<Rightarrow> u32 \<Rightarrow> u32 \<Rightarrow> gc_state \<Rightarrow> gc_state option" where
  "SERIAL_SCAN_PTR_FIELD C R full_object ptr s = HANDLE_PTR C R ptr s"

partial_function (option) SERIAL_DRAIN_GRAY_STACK ::
  "gc_collector \<Rightarrow> gc_runtime \<Rightarrow> gc_state \<Rightarrow> (bool \<times> gc_state) option" where
  "SERIAL_DRAIN_GRAY_STACK C R s = do {
     (entry, q) \<leftarrow> GRAY_OBJECT_DEQUEUE_SERIAL (dequeue_path C) (gray s) 0;
     s \<leftarrow> Some (s\<lparr>gray := q\<rparr>);
     if fst entry = 0 then Some (True, s)
     else do {
       s \<leftarrow> SERIAL_SCAN_OBJECT C R (fst entry) (snd entry) s;
       SERIAL_DRAIN_GRAY_STACK C R s } }"

end
