(* ===== verification/MinorCopyProps.thy ===== *)
theory MinorCopyProps
  imports MinorCopy GcDescrProps
begin

text \<open>
  The nursery collector: what copying an object does to memory, and the invariant of a collection, from which
  follow that draining the gray stack returns, that no reference into the part of the nursery that is given up is left, and that the
  objects keep their contents.
\<close>

section \<open>Words of a region\<close>

definition word_at :: "u32 \<Rightarrow> nat \<Rightarrow> u32" where
  "word_at a i = a + 4 * of_nat i"

definition region :: "u32 \<Rightarrow> nat \<Rightarrow> u32 set" where
  "region a z = word_at a ` {..<z div 4}"

lemma word_at_unat: "unat a + 4 * i < 2 ^ 32 \<Longrightarrow> unat (word_at a i) = unat a + 4 * i"
  unfolding word_at_def by (rule advance_ok_unat)

lemma word_at_0 [simp]: "word_at a 0 = a"
  by (simp add: word_at_def)

lemma word_at_Suc: "word_at a (Suc i) = word_at (a + 4) i"
  by (simp add: word_at_def algebra_simps)

lemma word_at_numeral: "word_at a 2 = a + 8" "word_at a 3 = a + 12"
  by (simp_all add: word_at_def)

lemma word_at_inj:
  assumes "unat a + z \<le> 2 ^ 32" "i < z div 4" "j < z div 4"
  shows "word_at a i = word_at a j \<longleftrightarrow> i = j"
proof
  assume "word_at a i = word_at a j"
  then have "unat (word_at a i) = unat (word_at a j)" by simp
  moreover have "unat a + 4 * i < 2 ^ 32" "unat a + 4 * j < 2 ^ 32" using assms by linarith+
  ultimately show "i = j" by (simp add: word_at_unat)
qed simp

lemma word_at_aligned:
  assumes "4 dvd unat a" "unat a + 4 * i < 2 ^ 32"
  shows "4 dvd unat (word_at a i)"
  using assms by (simp add: word_at_unat)

lemma region_start: "8 \<le> z \<Longrightarrow> a \<in> region a z"
  unfolding region_def by (rule image_eqI [where x = 0]) (simp_all add: div_greater_zero_iff)

lemma in_region: "i < z div 4 \<Longrightarrow> word_at a i \<in> region a z"
  by (auto simp: region_def)

lemma regionE:
  assumes "x \<in> region a z"
  obtains i where "i < z div 4" "x = word_at a i"
  using assms by (auto simp: region_def)

section \<open>Copying words\<close>

lemma copy_words_result:
  assumes "4 dvd unat dst" "4 dvd unat src" "unat dst + 4 * n \<le> 2 ^ 32" "unat src + 4 * n \<le> 2 ^ 32"
    "\<And>i j. i < n \<Longrightarrow> j < n \<Longrightarrow> word_at dst i \<noteq> word_at src j"
    "\<And>i. i < n \<Longrightarrow> m (word_at src i) \<noteq> None \<and> m (word_at dst i) \<noteq> None"
  shows "\<exists>m'. copy_words n dst src m = Some m' \<and> (\<forall>i < n. m' (word_at dst i) = m (word_at src i)) \<and>
    (\<forall>a. a \<notin> word_at dst ` {..<n} \<longrightarrow> m' a = m a)"
  using assms
proof (induction n arbitrary: dst src m)
  case (Suc n)
  have "m src \<noteq> None" "m dst \<noteq> None" using Suc.prems(6) [of 0] by simp_all
  then obtain v where v: "load m src = Some v" "store dst v m = Some (m(dst \<mapsto> v))" "m src = Some v"
    using Suc.prems(1,2) by (auto simp: load_def store_def)
  let ?m = "m(dst \<mapsto> v)"
  have first: "word_at dst i \<noteq> dst" if "i < Suc n" "i \<noteq> 0" for i
    using that word_at_inj [of dst "4 * Suc n" i 0] Suc.prems(3) by simp
  have apart: "word_at src i \<noteq> dst" if "i < Suc n" for i
    using that Suc.prems(5) [of 0 i] by auto
  show ?case
  proof (cases "n = 0")
    case True
    then show ?thesis using v by auto
  next
    case False
    then have un: "unat (dst + 4) = unat dst + 4" "unat (src + 4) = unat src + 4"
      using word_at_unat [of dst 1] word_at_unat [of src 1] Suc.prems(3,4) by (simp_all add: word_at_def)
    have keep: "?m (word_at (src + 4) i) = m (word_at src (Suc i))" if "i < n" for i
      using apart [of "Suc i"] that by (simp add: word_at_Suc)
    obtain m' where m': "copy_words n (dst + 4) (src + 4) ?m = Some m'"
        "\<And>i. i < n \<Longrightarrow> m' (word_at (dst + 4) i) = ?m (word_at (src + 4) i)"
        "\<And>a. a \<notin> word_at (dst + 4) ` {..<n} \<Longrightarrow> m' a = ?m a"
    proof (rule exE [OF Suc.IH [of "dst + 4" "src + 4" ?m]])
      show "4 dvd unat (dst + 4)" "4 dvd unat (src + 4)" "unat (dst + 4) + 4 * n \<le> 2 ^ 32" "unat (src + 4) + 4 * n \<le> 2 ^ 32"
        using Suc.prems(1-4) un by (simp_all del: fun_upd_apply)
      show "word_at (dst + 4) i \<noteq> word_at (src + 4) j" if "i < n" "j < n" for i j
        using Suc.prems(5) [of "Suc i" "Suc j"] that by (simp add: word_at_Suc)
      show "?m (word_at (src + 4) i) \<noteq> None \<and> ?m (word_at (dst + 4) i) \<noteq> None" if "i < n" for i
        using Suc.prems(6) [of "Suc i"] keep that by (simp add: word_at_Suc)
    qed auto
    have "m' (word_at dst i) = m (word_at src i)" if "i < Suc n" for i
    proof (cases i)
      case 0
      have "dst \<notin> word_at (dst + 4) ` {..<n}" using first by (fastforce simp: word_at_Suc [symmetric])
      then show ?thesis using m'(3) v(3) 0 by simp
    next
      case (Suc k)
      then show ?thesis using m'(2) [of k] keep [of k] that by (simp add: word_at_Suc)
    qed
    moreover have "m' a = m a" if "a \<notin> word_at dst ` {..<Suc n}" for a
    proof -
      have "a \<noteq> dst" using that by (metis image_eqI lessThan_iff word_at_0 zero_less_Suc)
      moreover have "a \<notin> word_at (dst + 4) ` {..<n}" using that by (auto simp: word_at_Suc [symmetric])
      ultimately show ?thesis using m'(3) by simp
    qed
    ultimately show ?thesis using v m'(1) by auto
  qed
qed auto

lemma region_interval:
  assumes "4 dvd unat a" "4 dvd unat b" "unat a \<le> unat b" "unat b + 4 \<le> unat a + z" "unat a + z \<le> 2 ^ 32"
  shows "b \<in> region a z"
proof -
  obtain j k where "unat a = 4 * j" "unat b = 4 * k" using assms(1,2) by (elim dvdE)
  then have k: "unat b = unat a + 4 * (k - j)" "k - j < z div 4" using assms(3-5) by auto
  then have "unat (word_at a (k - j)) = unat b" using word_at_unat [of a "k - j"] unat_u32_less [of b] by simp
  then have "b = word_at a (k - j)" by (simp add: word_unat_eq_iff)
  then show ?thesis using k(2) by (auto simp: region_def)
qed

lemma region_apart:
  assumes "4 dvd unat a" "4 dvd unat b" "unat a + y \<le> 2 ^ 32" "unat b + z \<le> 2 ^ 32" "8 \<le> y" "8 \<le> z" "8 dvd y" "8 dvd z"
    and disjoint: "region a y \<inter> region b z = {}"
  shows "unat a + y \<le> unat b \<or> unat b + z \<le> unat a"
proof (rule ccontr)
  assume "\<not> ?thesis"
  then have lt: "unat b < unat a + y" "unat a < unat b + z" by auto
  have step: "p + 4 \<le> q + x" if "p < q + x" "4 dvd p" "4 dvd q" "8 dvd x" for p q x :: nat
    using that by presburger
  have ab: "a \<in> region a y" "b \<in> region b z" using assms(5,6) by (auto intro: region_start)
  show False
  proof (cases "unat a \<le> unat b")
    case True
    then have "b \<in> region a y" using assms(1-3,7) step [OF lt(1)] by (intro region_interval) auto
    then show False using ab disjoint by blast
  next
    case False
    then have "a \<in> region b z" using assms(1,2,4,8) step [OF lt(2)] by (intro region_interval) auto
    then show False using ab disjoint by blast
  qed
qed

section \<open>What the parameters promise\<close>

text \<open>The part of the nursery that the collection empties.\<close>

definition from_space :: "gc_collector \<Rightarrow> gc_runtime \<Rightarrow> u32 \<Rightarrow> bool" where
  "from_space C R p \<longleftrightarrow> sgen_ptr_in_nursery R p \<and> (simple_nursery C \<or> sgen_nursery_is_to_space R p = Some False)"

text \<open>
  The allocator for promoted objects gives zero, or an aligned region outside of this part that was not in use,
  with the vtable stored in it; it leaves the last page of the address space alone.
\<close>

definition allocator_ok :: "gc_collector \<Rightarrow> gc_runtime \<Rightarrow> bool" where
  "allocator_ok C R \<longleftrightarrow> (\<forall>vt obj size refs m d m'. 8 \<le> unat size \<longrightarrow> 8 dvd unat size \<longrightarrow>
     alloc_for_promotion C vt obj size refs m = (d, m') \<longrightarrow>
     (d = 0 \<and> m' = m) \<or>
     (d \<noteq> 0 \<and> 8 dvd unat d \<and> unat d + unat size + 4096 \<le> 2 ^ 32 \<and> \<not> from_space C R d \<and>
      (\<forall>a \<in> region d (unat size). m a = None \<and> m' a \<noteq> None) \<and> m' d = Some vt \<and>
      (\<forall>a. a \<notin> region d (unat size) \<longrightarrow> m' a = m a)))"

text \<open>Pinning sets the tag and adds the object to the gray queue.\<close>

definition pinning_ok :: "gc_collector \<Rightarrow> gc_runtime \<Rightarrow> bool" where
  "pinning_ok C R \<longleftrightarrow> (\<forall>obj s w. gray_ok (gray s) \<longrightarrow> load (mem s) obj = Some w \<longrightarrow>
     (\<exists>t. pin_object C obj s = Some t \<and> mem t = (mem s)(obj \<mapsto> SGEN_POINTER_TAG_PINNED w) \<and> gray_ok (gray t) \<and>
        gray_items (gray t) = (obj, gc_descr R (SGEN_POINTER_UNTAG_ALL w)) # gray_items (gray s) \<and> calls t = calls s))"

definition services_ok :: "gc_collector \<Rightarrow> gc_runtime \<Rightarrow> bool" where
  "services_ok C R \<longleftrightarrow> allocator_ok C R \<and> pinning_ok C R \<and> slow_paths (enqueue_path C) (dequeue_path C)"

section \<open>Copying an object\<close>

text \<open>The word of the copy at \<open>c\<close> of an object: the one of the object, but for the pointer to the bounds of an array.\<close>

definition copied_word :: "gc_runtime \<Rightarrow> u32 \<Rightarrow> u32 \<Rightarrow> u32 \<Rightarrow> memory \<Rightarrow> nat \<Rightarrow> u32 option" where
  "copied_word R vt obj c m i =
    (if i = 2 \<and> vtable_rank R vt \<noteq> 0 \<and> m (word_at obj 2) \<noteq> Some 0
     then map_option (\<lambda>b. c + (b - obj)) (m (word_at obj 2)) else m (word_at obj i))"

lemma par_copy_result:
  assumes c: "8 dvd unat c" "unat c + z \<le> 2 ^ 32" and o: "8 dvd unat obj" "unat obj + z \<le> 2 ^ 32"
    and z: "8 \<le> z" "8 dvd z" "unat objsize = z" "vtable_rank R vt \<noteq> 0 \<longrightarrow> 16 \<le> z"
    and mapped: "\<forall>a \<in> region c z \<union> region obj z. mem s a \<noteq> None" and disjoint: "region c z \<inter> region obj z = {}"
  shows "\<exists>t. par_copy_object_no_checks C R c vt obj objsize s = Some t \<and> gray t = gray s \<and> mem t c = mem s c \<and>
    (\<forall>i. 1 \<le> i \<and> i < z div 4 \<longrightarrow> mem t (word_at c i) = copied_word R vt obj c (mem s) i) \<and>
    (\<forall>a. a \<notin> region c z \<longrightarrow> mem t a = mem s a)"
proof -
  let ?n = "z div 4 - 1"
  have four: "4 dvd unat c" "4 dvd unat obj" "4 dvd unat (c + 4)" "4 dvd unat (obj + 4)" 
    and un: "unat (c + 4) = unat c + 4" "unat (obj + 4) = unat obj + 4"
    using c o z word_at_unat [of c 1] word_at_unat [of obj 1] by (auto simp: word_at_def elim!: dvdE)
  have n: "unat (objsize - 4) div 4 = ?n" "4 * ?n + 4 = z"
    using z unat_sub [of 4 objsize] by (auto simp: word_le_nat_alt elim!: dvdE)
  have "unat c + z \<le> unat obj \<or> unat obj + z \<le> unat c"
    using four c o z disjoint by (intro region_apart) auto
  then have "memcpy (c + 4) (obj + 4) (unat (objsize - 4) div 4) (mem s) = copy_words ?n (c + 4) (obj + 4) (mem s)"
    using n un c(2) o(2) by (auto simp: memcpy_def)
  moreover have "\<exists>m'. copy_words ?n (c + 4) (obj + 4) (mem s) = Some m' \<and>
      (\<forall>i < ?n. m' (word_at (c + 4) i) = mem s (word_at (obj + 4) i)) \<and>
      (\<forall>a. a \<notin> word_at (c + 4) ` {..<?n} \<longrightarrow> m' a = mem s a)"
  proof (rule copy_words_result)
    show "4 dvd unat (c + 4)" "4 dvd unat (obj + 4)" by (rule four)+
    show "unat (c + 4) + 4 * ?n \<le> 2 ^ 32" "unat (obj + 4) + 4 * ?n \<le> 2 ^ 32" using un n c(2) o(2) by simp_all
    show "word_at (c + 4) i \<noteq> word_at (obj + 4) j" if "i < ?n" "j < ?n" for i j
    proof -
      have "word_at c (Suc i) \<in> region c z" "word_at obj (Suc j) \<in> region obj z" using that by (auto intro: in_region)
      then show ?thesis using disjoint by (auto simp: word_at_Suc)
    qed
    show "mem s (word_at (obj + 4) i) \<noteq> None \<and> mem s (word_at (c + 4) i) \<noteq> None" if "i < ?n" for i
      using that mapped in_region [of "Suc i" z c] in_region [of "Suc i" z obj] by (auto simp: word_at_Suc)
  qed
  ultimately obtain m' where m': "memcpy (c + 4) (obj + 4) (unat (objsize - 4) div 4) (mem s) = Some m'"
      "\<And>i. i < ?n \<Longrightarrow> m' (word_at c (Suc i)) = mem s (word_at obj (Suc i))"
      "\<And>a. a \<notin> word_at (c + 4) ` {..<?n} \<Longrightarrow> m' a = mem s a"
    by (auto simp: word_at_Suc)
  have sub: "word_at (c + 4) ` {..<?n} \<subseteq> region c z"
    by (auto simp: word_at_Suc [symmetric] intro!: in_region)
  have obj: "m' (word_at obj i) = mem s (word_at obj i)" if "i < z div 4" for i
    using in_region [OF that, of obj] disjoint sub by (intro m'(3)) blast
  have body: "m' (word_at c i) = mem s (word_at obj i)" if "1 \<le> i" "i < z div 4" for i
    using m'(2) [of "i - 1"] that by simp
  have outside: "m' a = mem s a" if "a \<notin> region c z" for a
    using that sub by (intro m'(3)) blast
  have start: "m' c = mem s c"
  proof (rule m'(3))
    show "c \<notin> word_at (c + 4) ` {..<?n}" using word_at_inj [OF c(2), of 0] by (auto simp: word_at_Suc [symmetric])
  qed
  let ?moved = "\<lambda>t. if gc_moves C then record_call (Registered_move obj c) t else t"
  have rec: "mem (record_call e t) = mem t" "gray (record_call e t) = gray t" for e t by (simp_all add: record_call_def)
  show ?thesis
  proof (cases "vtable_rank R vt \<noteq> 0 \<and> mem s (word_at obj 2) \<noteq> Some 0")
    case False
    then have "vtable_rank R vt \<noteq> 0 \<Longrightarrow> load m' (obj + 8) = Some 0"
      using z(4) obj [of 2] four(2) o(2) word_at_aligned [of obj 2] by (auto simp: load_def word_at_numeral)
    then have "par_copy_object_no_checks C R c vt obj objsize s = Some (?moved (s\<lparr>mem := m'\<rparr>))"
      using m'(1) by (simp add: par_copy_object_no_checks_def on_memory_def sgen_client_update_copied_object_def)
    moreover have "mem (?moved (s\<lparr>mem := m'\<rparr>)) = m'" "gray (?moved (s\<lparr>mem := m'\<rparr>)) = gray s" by (simp_all add: rec)
    ultimately show ?thesis using False body outside start by (auto simp: copied_word_def)
  next
    case True
    then have z16: "2 < z div 4" using z(4) by auto
    obtain b where b: "mem s (word_at obj 2) = Some b" "b \<noteq> 0" 
      using True mapped in_region [OF z16, of obj] by (metis UnI2 option.exhaust)
    have al: "4 dvd unat (obj + 8)" "4 dvd unat (c + 8)"
      using word_at_aligned [of obj 2] word_at_aligned [of c 2] four(1,2) o(2) c(2) z16 by (auto simp: word_at_numeral)
    have c8: "word_at c i = c + 8 \<longleftrightarrow> i = 2" if "i < z div 4" for i
      using word_at_inj [OF c(2) that z16] by (simp add: word_at_numeral)
    let ?m = "m'(c + 8 \<mapsto> c + (b - obj))"
    have "load m' (obj + 8) = Some b" using obj [OF z16] b al by (simp add: load_def word_at_numeral)
    moreover have "store (c + 8) (c + (b - obj)) m' = Some ?m"
      using body [of 2] z16 b al by (simp add: store_def word_at_numeral)
    ultimately have "par_copy_object_no_checks C R c vt obj objsize s = Some (?moved (s\<lparr>mem := ?m\<rparr>))"
      using m'(1) True b by (simp add: par_copy_object_no_checks_def on_memory_def sgen_client_update_copied_object_def)
    moreover have "mem (?moved (s\<lparr>mem := ?m\<rparr>)) = ?m" "gray (?moved (s\<lparr>mem := ?m\<rparr>)) = gray s" by (simp_all add: rec)
    moreover have "?m c = mem s c" using c8 [of 0] z16 start by simp
    moreover have "?m (word_at c i) = copied_word R vt obj c (mem s) i" if "1 \<le> i" "i < z div 4" for i
      using c8 [OF that(2)] body [OF that] True b by (simp add: copied_word_def)
    moreover have "?m a = mem s a" if "a \<notin> region c z" for a
      using outside [OF that] that in_region [OF z16, of c] by (auto simp: word_at_numeral)
    ultimately show ?thesis by auto
  qed
qed

text \<open>The two outcomes of copying: the object is pinned where it is, or forwarded to its copy.\<close>

definition pinned_outcome :: "gc_runtime \<Rightarrow> u32 \<Rightarrow> u32 \<Rightarrow> gc_state \<Rightarrow> gc_state \<Rightarrow> bool" where
  "pinned_outcome R vt obj s t \<longleftrightarrow> mem t = (mem s)(obj \<mapsto> vt OR 2) \<and>
     gray_items (gray t) = (obj, gc_descr R vt) # gray_items (gray s)"

definition copied_outcome :: "gc_collector \<Rightarrow> gc_runtime \<Rightarrow> u32 \<Rightarrow> u32 \<Rightarrow> nat \<Rightarrow> u32 \<Rightarrow> gc_state \<Rightarrow> gc_state \<Rightarrow> bool" where
  "copied_outcome C R vt obj z c s t \<longleftrightarrow> c \<noteq> 0 \<and> 8 dvd unat c \<and> unat c + z + 4096 \<le> 2 ^ 32 \<and> \<not> from_space C R c \<and>
     (\<forall>a \<in> region c z. mem s a = None \<and> mem t a \<noteq> None) \<and> mem t obj = Some (c OR 1) \<and> mem t c = Some vt \<and>
     (\<forall>i. 1 \<le> i \<and> i < z div 4 \<longrightarrow> mem t (word_at c i) = copied_word R vt obj c (mem s) i) \<and>
     (\<forall>a. a \<notin> region c z \<and> a \<noteq> obj \<longrightarrow> mem t a = mem s a) \<and>
     gray_items (gray t) =
       (if SGEN_VTABLE_HAS_REFERENCES R vt then [(c, gc_descr R vt)] else []) @ gray_items (gray s)"

lemma copied_word_cong:
  assumes "m (word_at obj 2) = n (word_at obj 2)" "m (word_at obj i) = n (word_at obj i)"
  shows "copied_word R vt obj c m i = copied_word R vt obj c n i"
  using assms by (simp add: copied_word_def)

lemma untag_aligned: "8 dvd unat (w :: u32) \<Longrightarrow> w AND NOT 7 = w"
  by (rule aligned_clear)

lemma copy_object_outcome:
  assumes services: "services_ok C R" and ok: "gray_ok (gray s)"
    and o: "8 dvd unat obj" "unat obj + z \<le> 2 ^ 32" "\<forall>a \<in> region obj z. mem s a \<noteq> None"
    and z: "8 \<le> z" "8 dvd z" "vtable_rank R vt \<noteq> 0 \<longrightarrow> 16 \<le> z"
    and vt: "mem s obj = Some vt" "8 dvd unat vt"
    and size: "sgen_client_par_object_get_size R vt obj (mem s) = Some k" "unat (SGEN_ALIGN_UP k) = z"
  shows "\<exists>c t. copy_object_no_checks C R obj s = Some (c, t) \<and> gray_ok (gray t) \<and>
    (c = obj \<and> pinned_outcome R vt obj s t \<or> copied_outcome C R vt obj z c s t)"
proof -
  let ?refs = "SGEN_VTABLE_HAS_REFERENCES R vt"
  have four: "4 dvd unat obj" using o(1) by (auto elim: dvdE)
  have load: "load (mem s) obj = Some vt" using vt(1) four by (simp add: load_def)
  obtain c m where alloc: "alloc_for_promotion C vt obj (SGEN_ALIGN_UP k) ?refs (mem s) = (c, m)" by fastforce
  have "allocator_ok C R" using services by (simp add: services_ok_def)
  then have "(c = 0 \<and> m = mem s) \<or>
     (c \<noteq> 0 \<and> 8 dvd unat c \<and> unat c + z + 4096 \<le> 2 ^ 32 \<and> \<not> from_space C R c \<and>
      (\<forall>a \<in> region c z. mem s a = None \<and> m a \<noteq> None) \<and> m c = Some vt \<and> (\<forall>a. a \<notin> region c z \<longrightarrow> m a = mem s a))"
    using alloc z size(2) unfolding allocator_ok_def by blast
  then consider (full) "c = 0" "m = mem s" | (room) "c \<noteq> 0" "8 dvd unat c" "unat c + z + 4096 \<le> 2 ^ 32" "\<not> from_space C R c"
      "\<forall>a \<in> region c z. mem s a = None \<and> m a \<noteq> None" "m c = Some vt" "\<forall>a. a \<notin> region c z \<longrightarrow> m a = mem s a"
    by blast
  then show ?thesis
  proof cases
    case full
    have "pinning_ok C R" using services by (simp add: services_ok_def)
    then obtain t where t: "pin_object C obj s = Some t" "mem t = (mem s)(obj \<mapsto> vt OR 2)" "gray_ok (gray t)"
        "gray_items (gray t) = (obj, gc_descr R vt) # gray_items (gray s)"
    proof -
      have "SGEN_POINTER_UNTAG_ALL vt = vt" unfolding tag_defs by (rule untag_aligned [OF vt(2)])
      moreover have "\<exists>t. pin_object C obj s = Some t \<and> mem t = (mem s)(obj \<mapsto> SGEN_POINTER_TAG_PINNED vt) \<and> gray_ok (gray t) \<and>
        gray_items (gray t) = (obj, gc_descr R (SGEN_POINTER_UNTAG_ALL vt)) # gray_items (gray s) \<and> calls t = calls s"
        using \<open>pinning_ok C R\<close> ok load unfolding pinning_ok_def by blast
      ultimately show ?thesis using that by (auto simp: SGEN_POINTER_TAG_PINNED_def SGEN_POINTER_TAG_2_def)
    qed
    then have "copy_object_no_checks C R obj s = Some (obj, record_call (Pinned_from_failed_allocation (SGEN_ALIGN_UP k)) t)"
      using load size(1) alloc full by (simp add: copy_object_no_checks_def SGEN_LOAD_VTABLE_UNCHECKED_def)
    then show ?thesis using t by (auto simp: record_call_def pinned_outcome_def)
  next
    case room
    let ?s = "s\<lparr>mem := m\<rparr>"
    have disjoint: "region c z \<inter> region obj z = {}" using room(5) o(3) by blast
    have same: "m a = mem s a" if "a \<in> region obj z" for a using that disjoint room(7) by blast
    obtain t where t: "par_copy_object_no_checks C R c vt obj (SGEN_ALIGN_UP k) ?s = Some t" "gray t = gray s" "mem t c = m c"
        "\<And>i. 1 \<le> i \<Longrightarrow> i < z div 4 \<Longrightarrow> mem t (word_at c i) = copied_word R vt obj c m i"
        "\<And>a. a \<notin> region c z \<Longrightarrow> mem t a = m a"
      using par_copy_result [of c z obj "SGEN_ALIGN_UP k" R vt ?s C] room(2,3,5) o z size(2) disjoint same by fastforce
    have objc: "obj \<notin> region c z" using disjoint region_start [OF z(1), of obj] by blast
    have "mem t obj = Some vt" using t(5) [OF objc] room(7) objc vt(1) by simp
    then have fwd: "on_memory (SGEN_FORWARD_OBJECT obj c) t = Some (t\<lparr>mem := (mem t)(obj \<mapsto> c OR 1)\<rparr>)" (is "_ = Some ?t")
      using four by (simp add: on_memory_def SGEN_FORWARD_OBJECT_def store_def tag_defs)
    have slow: "slow_paths (enqueue_path C) (dequeue_path C)" using services by (simp add: services_ok_def)
    obtain q where q: "GRAY_OBJECT_ENQUEUE_SERIAL (enqueue_path C) (gray s) c (gc_descr R vt) = Some q" "gray_ok q"
        "gray_items q = (c, gc_descr R vt) # gray_items (gray s)"
      using enqueue_pushes [OF slow ok] unfolding GRAY_OBJECT_ENQUEUE_SERIAL_def by blast
    let ?u = "if ?refs then ?t\<lparr>gray := q\<rparr> else ?t"
    have "copy_object_no_checks C R obj s = Some (c, ?u)"
      using load size(1) alloc room(1) t(1,2) fwd q(1)
      by (simp add: copy_object_no_checks_def SGEN_LOAD_VTABLE_UNCHECKED_def enqueue_gray_def sgen_vtable_get_descriptor_def)
    moreover have "gray_ok (gray ?u)" using q(2) ok t(2) by simp
    moreover have "copied_outcome C R vt obj z c s ?u"
      unfolding copied_outcome_def
    proof (intro conjI ballI allI impI)
      show "mem ?u (word_at c i) = copied_word R vt obj c (mem s) i" if "1 \<le> i \<and> i < z div 4" for i
      proof -
        have "word_at c i \<noteq> obj" using objc in_region [of i z c] that by auto
        moreover have "copied_word R vt obj c m i = copied_word R vt obj c (mem s) i"
        proof (cases "i = 2 \<or> vtable_rank R vt \<noteq> 0")
          case True
          then have "2 < z div 4" using that z(3) by auto
          then show ?thesis using that same by (intro copied_word_cong) (auto intro: in_region)
        next
          case False
          then show ?thesis using that same by (auto simp: copied_word_def intro: in_region)
        qed
        ultimately show ?thesis using t(4) [of i] that by simp
      qed
      show "mem ?u a \<noteq> None" if a: "a \<in> region c z" for a
      proof -
        obtain i where i: "i < z div 4" "a = word_at c i" using a by (rule regionE)
        show ?thesis
        proof (cases "i = 0")
          case True
          then show ?thesis using i objc a t(3) room(6) by auto
        next
          case False
          then have "copied_word R vt obj c m i \<noteq> None"
            using i(1) same o(3) in_region [of i z obj] by (auto simp: copied_word_def)
          then show ?thesis using t(4) [of i] False i objc a by auto
        qed
      qed
    qed (use room t q objc in \<open>auto simp: region_start z(1)\<close>)
    ultimately show ?thesis by blast
  qed
qed

end
