(* ===== verification/Collection.thy ===== *)
theory Collection
  imports MinorCopyProps
begin

text \<open>
  The invariant of a nursery collection: the heap at its start, the objects of the part of the nursery that
  is given up, what has become of each of them, and which references still have to be updated.
\<close>

section \<open>The heap at the start\<close>

text \<open>
  Memory, the objects, for each of them its size in bytes and the numbers of its words that hold references, and
  the slots outside of the objects that refer to them.
\<close>

record start_heap =
  init :: memory
  objects :: "u32 set"
  obj_size :: "u32 \<Rightarrow> nat"
  ref_words :: "u32 \<Rightarrow> nat list"
  root_slots :: "u32 set"

definition vtable_of :: "start_heap \<Rightarrow> u32 \<Rightarrow> u32" where
  "vtable_of H o' = the (init H o') AND NOT 7"

abbreviation obj_region :: "start_heap \<Rightarrow> u32 \<Rightarrow> u32 set" where
  "obj_region H o' \<equiv> region o' (obj_size H o')"

text \<open>
  The descriptor of an object gives its words with references, wherever the object is placed. The header of an array and
  its bounds are not among them.
\<close>

definition view_at :: "gc_runtime \<Rightarrow> u32 \<Rightarrow> u32 \<Rightarrow> u32 \<Rightarrow> gc_object" where
  "view_at R vt len a = \<lparr>obj_addr = a,
     array_length = (if is_vector_desc (gc_descr R vt) \<or> is_complex_arr_desc (gc_descr R vt) then len else 0),
     element_size = (if is_complex_arr_desc (gc_descr R vt) then array_element_size R (klass R vt) else 0)\<rparr>"

definition has_array_header :: "gc_runtime \<Rightarrow> u32 \<Rightarrow> bool" where
  "has_array_header R vt \<longleftrightarrow> is_vector_desc (gc_descr R vt) \<or> is_complex_arr_desc (gc_descr R vt) \<or> vtable_rank R vt \<noteq> 0"

definition described :: "gc_runtime \<Rightarrow> u32 \<Rightarrow> u32 \<Rightarrow> nat \<Rightarrow> nat list \<Rightarrow> bool" where
  "described R vt len z js \<longleftrightarrow>
    (\<forall>a. 8 dvd unat a \<longrightarrow> unat a + z + 4096 \<le> 2 ^ 32 \<longrightarrow>
       scan_object (complex_descriptor R) (gc_descr R vt) (view_at R vt len a) = Some (map (word_at a) js)) \<and>
    (\<forall>i \<in> set js. 2 \<le> i \<and> i < z div 4) \<and>
    (has_array_header R vt \<longrightarrow> 16 \<le> z \<and> (\<forall>i \<in> set js. 4 \<le> i))"

text \<open>A reference of the heap: null, to an object that stays, or to one of the objects.\<close>

definition reference :: "gc_runtime \<Rightarrow> start_heap \<Rightarrow> u32 option \<Rightarrow> bool" where
  "reference R H v \<longleftrightarrow> (\<exists>w. v = Some w \<and> (w = 0 \<or> \<not> sgen_ptr_in_nursery R w \<or> w \<in> objects H))"

definition object_ok :: "gc_collector \<Rightarrow> gc_runtime \<Rightarrow> start_heap \<Rightarrow> u32 \<Rightarrow> bool" where
  "object_ok C R H p \<longleftrightarrow> p \<noteq> 0 \<and> 8 dvd unat p \<and> from_space C R p \<and>
     8 \<le> obj_size H p \<and> 8 dvd obj_size H p \<and> unat p + obj_size H p + 4096 \<le> 2 ^ 32 \<and>
     (\<exists>vt t. init H p = Some (vt OR t) \<and> 8 dvd unat vt \<and> t \<in> {0, 2, 6}) \<and>
     (\<forall>a \<in> obj_region H p. init H a \<noteq> None) \<and>
     (\<exists>k. unat (SGEN_ALIGN_UP k) = obj_size H p \<and>
        (\<forall>m. (\<forall>a \<in> obj_region H p. m a = init H a) \<longrightarrow> sgen_client_par_object_get_size R (vtable_of H p) p m = Some k)) \<and>
     described R (vtable_of H p) (the (init H (p + 12))) (obj_size H p) (ref_words H p) \<and>
     (\<forall>i \<in> set (ref_words H p). reference R H (init H (word_at p i)))"

definition start_ok :: "gc_collector \<Rightarrow> gc_runtime \<Rightarrow> start_heap \<Rightarrow> bool" where
  "start_ok C R H \<longleftrightarrow> \<not> sgen_ptr_in_nursery R 0 \<and>
     (simple_nursery C \<or> (\<forall>p. sgen_ptr_in_nursery R p \<longrightarrow> sgen_nursery_is_to_space R p \<noteq> None)) \<and>
     finite (objects H) \<and> (\<forall>p \<in> objects H. object_ok C R H p) \<and>
     (\<forall>p \<in> objects H. \<forall>q \<in> objects H. p \<noteq> q \<longrightarrow> obj_region H p \<inter> obj_region H q = {}) \<and>
     (\<forall>a \<in> root_slots H. 4 dvd unat a \<and> (\<forall>p \<in> objects H. a \<notin> obj_region H p) \<and> reference R H (init H a))"

section \<open>The state of an object\<close>

definition forwarded_to :: "gc_state \<Rightarrow> u32 \<Rightarrow> u32 option" where
  "forwarded_to s p = (case mem s p of None \<Rightarrow> None | Some w \<Rightarrow> if w AND 1 \<noteq> 0 then Some (w AND NOT 7) else None)"

definition pinned_at :: "gc_state \<Rightarrow> u32 \<Rightarrow> bool" where
  "pinned_at s p \<longleftrightarrow> (\<exists>w. mem s p = Some w \<and> w AND 1 = 0 \<and> w AND 2 \<noteq> 0)"

text \<open>Where the contents of an object are to be found from now on, once that is decided.\<close>

definition image :: "gc_state \<Rightarrow> u32 \<Rightarrow> u32 \<Rightarrow> bool" where
  "image s p x \<longleftrightarrow> forwarded_to s p = Some x \<or> (x = p \<and> pinned_at s p)"

text \<open>A reference that needs no update, and a word that holds its first value or that value updated.\<close>

definition settled :: "gc_collector \<Rightarrow> gc_runtime \<Rightarrow> start_heap \<Rightarrow> gc_state \<Rightarrow> u32 \<Rightarrow> bool" where
  "settled C R H s w \<longleftrightarrow> w = 0 \<or> \<not> from_space C R w \<or> (w \<in> objects H \<and> pinned_at s w)"

definition updated :: "start_heap \<Rightarrow> gc_state \<Rightarrow> u32 option \<Rightarrow> u32 option \<Rightarrow> bool" where
  "updated H s v v' \<longleftrightarrow> v' = v \<or> (\<exists>p \<in> objects H. v = Some p \<and> v' = forwarded_to s p \<and> v' \<noteq> None)"

definition copy_ok :: "gc_collector \<Rightarrow> gc_runtime \<Rightarrow> start_heap \<Rightarrow> gc_state \<Rightarrow> u32 \<Rightarrow> u32 \<Rightarrow> bool" where
  "copy_ok C R H s p c \<longleftrightarrow> c \<noteq> 0 \<and> 8 dvd unat c \<and> unat c + obj_size H p + 4096 \<le> 2 ^ 32 \<and> \<not> from_space C R c \<and>
     (\<forall>a \<in> region c (obj_size H p). init H a = None \<and> mem s a \<noteq> None) \<and> mem s c = init H p \<and>
     (\<forall>i. 1 \<le> i \<and> i < obj_size H p div 4 \<longrightarrow>
        (if i \<in> set (ref_words H p) then updated H s (init H (word_at p i)) (mem s (word_at c i))
         else mem s (word_at c i) = copied_word R (vtable_of H p) p c (init H) i))"

definition header_ok :: "gc_collector \<Rightarrow> gc_runtime \<Rightarrow> start_heap \<Rightarrow> gc_state \<Rightarrow> u32 \<Rightarrow> bool" where
  "header_ok C R H s p \<longleftrightarrow> mem s p = init H p \<or>
     (8 dvd unat (the (init H p)) \<and>
       (mem s p = Some (the (init H p) OR 2) \<or> (\<exists>c. mem s p = Some (c OR 1) \<and> copy_ok C R H s p c)))"

definition old_slots :: "start_heap \<Rightarrow> gc_state \<Rightarrow> u32 set" where
  "old_slots H s = root_slots H \<union> {word_at p i | p i. p \<in> objects H \<and> pinned_at s p \<and> i \<in> set (ref_words H p)}"

definition scanned :: "gc_collector \<Rightarrow> gc_runtime \<Rightarrow> start_heap \<Rightarrow> gc_state \<Rightarrow> u32 \<Rightarrow> u32 \<Rightarrow> bool" where
  "scanned C R H s p x \<longleftrightarrow> (\<forall>i \<in> set (ref_words H p). \<exists>w. mem s (word_at x i) = Some w \<and> settled C R H s w)"

section \<open>The invariant\<close>

text \<open>
  Headers and copies; copies of different objects are apart; memory outside of headers and copies is as at the start but
  for updated slots; the gray queue holds images; every image is scanned, gray or exempt.
\<close>

definition headers :: "gc_collector \<Rightarrow> gc_runtime \<Rightarrow> start_heap \<Rightarrow> gc_state \<Rightarrow> bool" where
  "headers C R H s \<longleftrightarrow> (\<forall>p \<in> objects H. header_ok C R H s p) \<and>
     (\<forall>p \<in> objects H. \<forall>q \<in> objects H. \<forall>c d. p \<noteq> q \<longrightarrow> forwarded_to s p = Some c \<longrightarrow> forwarded_to s q = Some d \<longrightarrow>
        region c (obj_size H p) \<inter> region d (obj_size H q) = {})"

definition old_memory :: "start_heap \<Rightarrow> gc_state \<Rightarrow> bool" where
  "old_memory H s \<longleftrightarrow> (\<forall>a. init H a \<noteq> None \<longrightarrow> a \<notin> objects H \<longrightarrow>
     (if a \<in> old_slots H s then updated H s (init H a) (mem s a) else mem s a = init H a))"

definition gray_images :: "gc_runtime \<Rightarrow> start_heap \<Rightarrow> gc_state \<Rightarrow> bool" where
  "gray_images R H s \<longleftrightarrow> gray_ok (gray s) \<and>
     (\<forall>(x, desc) \<in> set (gray_items (gray s)). \<exists>p \<in> objects H. image s p x \<and> desc = gc_descr R (vtable_of H p))"

definition all_scanned :: "gc_collector \<Rightarrow> gc_runtime \<Rightarrow> start_heap \<Rightarrow> u32 set \<Rightarrow> gc_state \<Rightarrow> bool" where
  "all_scanned C R H E s \<longleftrightarrow> (\<forall>p \<in> objects H. \<forall>x. image s p x \<longrightarrow>
     p \<in> E \<or> x \<in> fst ` set (gray_items (gray s)) \<or> scanned C R H s p x)"

definition collecting :: "gc_collector \<Rightarrow> gc_runtime \<Rightarrow> start_heap \<Rightarrow> u32 set \<Rightarrow> gc_state \<Rightarrow> bool" where
  "collecting C R H E s \<longleftrightarrow> headers C R H s \<and> old_memory H s \<and> gray_images R H s \<and> all_scanned C R H E s"

section \<open>What the invariant says of an object\<close>

lemma start_object: "start_ok C R H \<Longrightarrow> p \<in> objects H \<Longrightarrow> object_ok C R H p"
  by (simp add: start_ok_def)

lemma start_apart:
  assumes "start_ok C R H" "p \<in> objects H" "q \<in> objects H" "a \<in> obj_region H p" "a \<in> obj_region H q"
  shows "p = q"
  using assms unfolding start_ok_def by blast

lemma object_in_region: "object_ok C R H p \<Longrightarrow> p \<in> obj_region H p"
  by (simp add: object_ok_def region_start)

lemma init_header:
  assumes "object_ok C R H p"
  obtains vt t where "init H p = Some (vt OR t)" "8 dvd unat vt" "t \<in> {0, 2, 6}" "vtable_of H p = vt"
    "(vt OR t) AND 1 = 0" "(vt OR t) AND 2 = t AND 2"
proof -
  obtain vt t where vt: "init H p = Some (vt OR t)" "8 dvd unat vt" "t \<in> {0, 2, 6}"
    using assms by (auto simp: object_ok_def)
  have t: "t AND NOT 7 = 0" "t AND 1 = 0" using vt(3) by auto
  note read = tag_read [OF vt(2) t(1)]
  show thesis
    by (rule that [OF vt]) (simp_all only: vtable_of_def vt(1) option.sel read t(2))
qed

lemma unpinned_header:
  assumes "object_ok C R H p" "8 dvd unat (the (init H p))"
  shows "init H p = Some (vtable_of H p)" "8 dvd unat (vtable_of H p)"
proof -
  obtain w where w: "init H p = Some w" using assms(1) by (auto simp: object_ok_def)
  then have "8 dvd unat w" using assms(2) by simp
  then have "vtable_of H p = w" unfolding vtable_of_def w option.sel by (rule untag_aligned)
  then show "init H p = Some (vtable_of H p)" "8 dvd unat (vtable_of H p)" using w assms(2) by simp_all
qed

text \<open>The three states of an object.\<close>

lemma object_state:
  assumes "headers C R H s" "p \<in> objects H" "object_ok C R H p"
  obtains (kept) "mem s p = init H p" "forwarded_to s p = None"
  | (pinned) "mem s p = Some (vtable_of H p OR 2)" "forwarded_to s p = None" "pinned_at s p"
  | (copied) c where "mem s p = Some (c OR 1)" "copy_ok C R H s p c" "forwarded_to s p = Some c" "\<not> pinned_at s p"
      "8 dvd unat (the (init H p))"
proof -
  have "header_ok C R H s p" using assms(1,2) by (simp add: headers_def)
  then consider "mem s p = init H p" | "8 dvd unat (the (init H p))" "mem s p = Some (the (init H p) OR 2)"
    | c where "mem s p = Some (c OR 1)" "copy_ok C R H s p c" "8 dvd unat (the (init H p))"
    unfolding header_ok_def by blast
  then show thesis
  proof cases
    case 1
    obtain vt t where "init H p = Some (vt OR t)" "(vt OR t) AND 1 = 0" using init_header [OF assms(3)] by metis
    then show thesis using 1 by (intro kept) (simp_all add: forwarded_to_def)
  next
    case 2
    have w: "init H p = Some (vtable_of H p)" "8 dvd unat (vtable_of H p)" using unpinned_header [OF assms(3) 2(1)] by simp_all
    have "(vtable_of H p OR 2) AND 1 = 0" "(vtable_of H p OR 2) AND 2 = 2"
      using tag_read [OF w(2), of 2] by simp_all
    then show thesis using 2 w by (intro pinned) (simp_all add: forwarded_to_def pinned_at_def)
  next
    case 3
    have c: "8 dvd unat c" using 3(2) by (simp add: copy_ok_def)
    have "(c OR 1) AND 1 = 1" "(c OR 1) AND NOT 7 = c" using tag_read [OF c, of 1] by simp_all
    then show thesis using 3 by (intro copied) (simp_all add: forwarded_to_def pinned_at_def del: bit.compl_one)
  qed
qed

lemma forwarded_copy:
  assumes "start_ok C R H" "headers C R H s" "p \<in> objects H" "forwarded_to s p = Some c"
  shows "copy_ok C R H s p c" "mem s p = Some (c OR 1)" "\<not> pinned_at s p" "8 dvd unat (the (init H p))"
  using object_state [OF assms(2,3) start_object [OF assms(1,3)]] assms(4) by (metis option.distinct(1) option.inject)+

text \<open>An object that is neither forwarded nor pinned is as at the start.\<close>

lemma untouched:
  assumes "start_ok C R H" "headers C R H s" "p \<in> objects H" "forwarded_to s p = None" "\<not> pinned_at s p"
  shows "mem s p = Some (vtable_of H p)" "init H p = Some (vtable_of H p)" "8 dvd unat (vtable_of H p)"
proof -
  note ok = start_object [OF assms(1,3)]
  have m: "mem s p = init H p" using object_state [OF assms(2,3) ok] assms(4,5) by auto
  obtain vt t where vt: "init H p = Some (vt OR t)" "8 dvd unat vt" "t \<in> {0, 2, 6}" "vtable_of H p = vt"
    "(vt OR t) AND 1 = 0" "(vt OR t) AND 2 = t AND 2" by (rule init_header [OF ok])
  have "t = 0" using assms(5) m vt(1,3,5,6) by (auto simp: pinned_at_def)
  then show "mem s p = Some (vtable_of H p)" "init H p = Some (vtable_of H p)" "8 dvd unat (vtable_of H p)"
    using m vt by simp_all
qed

lemma header_mapped:
  assumes "start_ok C R H" "headers C R H s" "p \<in> objects H"
  shows "mem s p \<noteq> None"
proof -
  note ok = start_object [OF assms(1,3)]
  have "init H p \<noteq> None" using ok by (auto simp: object_ok_def)
  then show ?thesis by (cases rule: object_state [OF assms(2,3) ok]) auto
qed

lemma still_mapped:
  assumes "start_ok C R H" "headers C R H s" "old_memory H s" "init H a \<noteq> None"
  shows "mem s a \<noteq> None"
proof (cases "a \<in> objects H")
  case True
  then show ?thesis using header_mapped assms by blast
next
  case False
  then have "updated H s (init H a) (mem s a)" using assms(3,4) unfolding old_memory_def updated_def by metis
  then show ?thesis using assms(4) by (auto simp: updated_def)
qed

section \<open>Slots\<close>

definition slot :: "start_heap \<Rightarrow> gc_state \<Rightarrow> u32 \<Rightarrow> bool" where
  "slot H s a \<longleftrightarrow> a \<in> root_slots H \<or> (\<exists>p \<in> objects H. \<exists>x. image s p x \<and> (\<exists>i \<in> set (ref_words H p). a = word_at x i))"

lemma ref_word:
  assumes "object_ok C R H p" "i \<in> set (ref_words H p)"
  shows "2 \<le> i" "i < obj_size H p div 4" "word_at p i \<in> obj_region H p"
    "has_array_header R (vtable_of H p) \<Longrightarrow> 4 \<le> i" "reference R H (init H (word_at p i))"
  using assms by (auto simp: object_ok_def described_def intro: in_region)

lemma body_not_object:
  assumes "start_ok C R H" "p \<in> objects H" "1 \<le> i" "i < obj_size H p div 4"
  shows "word_at p i \<notin> objects H"
proof
  assume q: "word_at p i \<in> objects H"
  note ok = start_object [OF assms(1)]
  have "word_at p i \<in> obj_region H p" using assms(4) by (rule in_region)
  moreover have "word_at p i \<in> obj_region H (word_at p i)" using object_in_region [OF ok [OF q]] .
  ultimately have "word_at p i = p" using start_apart [OF assms(1) q assms(2)] by blast
  then have "word_at p i = word_at p 0" by simp
  moreover have "unat p + obj_size H p \<le> 2 ^ 32" using ok [OF assms(2)] by (simp add: object_ok_def)
  ultimately show False using word_at_inj [of p "obj_size H p" i 0] assms(3,4) by simp
qed

text \<open>A slot lies in old memory or in a copy.\<close>

lemma slot_place:
  assumes start: "start_ok C R H" and heads: "headers C R H s" and a: "slot H s a"
  obtains (old) "a \<in> old_slots H s" "a \<notin> objects H" "init H a \<noteq> None" "reference R H (init H a)" "4 dvd unat a"
  | (copy) p c i where "p \<in> objects H" "forwarded_to s p = Some c" "i \<in> set (ref_words H p)" "a = word_at c i"
      "a \<in> region c (obj_size H p)" "a \<notin> objects H" "a \<noteq> c" "init H a = None" "4 dvd unat a"
proof (cases "a \<in> root_slots H")
  case True
  then have "reference R H (init H a)" "\<forall>p \<in> objects H. a \<notin> obj_region H p" "4 dvd unat a" 
    using start by (simp_all add: start_ok_def)
  moreover from this have "a \<notin> objects H" using object_in_region start_object [OF start] by blast
  ultimately show thesis using True by (intro old) (auto simp: old_slots_def reference_def)
next
  case False
  then obtain p x i where p: "p \<in> objects H" "image s p x" "i \<in> set (ref_words H p)" "a = word_at x i"
    using a by (auto simp: slot_def)
  note ok = start_object [OF start p(1)]
  note i = ref_word [OF ok p(3)]
  show thesis
  proof (cases "forwarded_to s p = Some x")
    case True
    have c: "copy_ok C R H s p x" using forwarded_copy [OF start heads p(1) True] by simp
    then have x: "8 dvd unat x" "unat x + obj_size H p \<le> 2 ^ 32" by (simp_all add: copy_ok_def)
    have r: "a \<in> region x (obj_size H p)" unfolding p(4) using i(2) by (rule in_region)
    have "a \<noteq> x" using word_at_inj [OF x(2), of i 0] i(1,2) p(4) by simp
    moreover have "init H a = None" using c r by (simp add: copy_ok_def)
    moreover have "a \<notin> objects H" using start_object [OF start, of a] \<open>init H a = None\<close> by (auto simp: object_ok_def)
    moreover have "4 dvd unat a" unfolding p(4) using x i(2) by (intro word_at_aligned) (auto elim!: dvdE)
    ultimately show thesis using p True r by (intro copy)
  next
    case False
    then have x: "x = p" "pinned_at s p" using p(2) by (auto simp: image_def)
    have "a \<notin> objects H" using body_not_object [OF start p(1), of i] i(1,2) p(4) x(1) by simp
    moreover have "init H a \<noteq> None" using ok i(3) p(4) x(1) by (simp add: object_ok_def)
    moreover have "4 dvd unat a" 
      unfolding p(4) x(1) using ok i(2) by (intro word_at_aligned) (auto simp: object_ok_def elim!: dvdE)
    ultimately show thesis using p x i(5) by (intro old) (auto simp: old_slots_def)
  qed
qed

lemma slot_not_object: "start_ok C R H \<Longrightarrow> headers C R H s \<Longrightarrow> slot H s a \<Longrightarrow> a \<notin> objects H"
  by (erule (2) slot_place) auto

lemma init_mapped: "start_ok C R H \<Longrightarrow> p \<in> objects H \<Longrightarrow> init H p \<noteq> None \<and> 8 \<le> obj_size H p"
  using start_object object_in_region unfolding object_ok_def by blast

text \<open>What a slot holds: a reference of the start, or that reference updated.\<close>

lemma slot_value:
  assumes "start_ok C R H" "headers C R H s" "old_memory H s" "slot H s a"
  shows "\<exists>v. reference R H v \<and> updated H s v (mem s a) \<and> v \<noteq> None"
  using assms(1,2,4)
proof (cases rule: slot_place)
  case old
  then have "updated H s (init H a) (mem s a)" using assms(3) unfolding old_memory_def by meson
  then show ?thesis using old by blast
next
  case (copy p c i)
  have ok: "copy_ok C R H s p c" using forwarded_copy [OF assms(1,2) copy(1,2)] by simp
  note i = ref_word [OF start_object [OF assms(1) copy(1)] copy(3)]
  have "updated H s (init H (word_at p i)) (mem s a)" using ok i(1,2) copy(3,4) by (auto simp: copy_ok_def)
  then show ?thesis using i(5) by (auto simp: reference_def)
qed

lemma forwarded_not_from_space:
  assumes "start_ok C R H" "headers C R H s" "p \<in> objects H" "forwarded_to s p = Some c"
  shows "\<not> from_space C R c" "c \<notin> objects H" "c \<noteq> 0"
proof -
  show n: "\<not> from_space C R c" and "c \<noteq> 0" using forwarded_copy(1) [OF assms] by (simp_all add: copy_ok_def)
  then show "c \<notin> objects H" using start_object [OF assms(1), of c] by (auto simp: object_ok_def)
qed

lemma untouched_body:
  assumes "start_ok C R H" "headers C R H s" "old_memory H s" "p \<in> objects H" "forwarded_to s p = None"
    "\<not> pinned_at s p" "i < obj_size H p div 4"
  shows "mem s (word_at p i) = init H (word_at p i)"
proof (cases "i = 0")
  case True
  then show ?thesis using untouched [OF assms(1,2,4-6)] by simp
next
  case False
  note ok = start_object [OF assms(1)]
  have r: "word_at p i \<in> obj_region H p" using assms(7) by (rule in_region)
  have "word_at p i \<notin> root_slots H" using assms(1,4) r unfolding start_ok_def by blast
  moreover have False if "q \<in> objects H" "pinned_at s q" "j \<in> set (ref_words H q)" "word_at p i = word_at q j" for q j
  proof -
    have "word_at p i \<in> obj_region H q" using ref_word(3) [OF ok [OF that(1)] that(3)] that(4) by simp
    then have "q = p" using start_apart [OF assms(1) that(1) assms(4)] r by blast
    then show False using that(2) assms(6) by simp
  qed
  ultimately have "word_at p i \<notin> old_slots H s" by (auto simp: old_slots_def)
  moreover have "word_at p i \<notin> objects H" using body_not_object [OF assms(1,4)] False assms(7) by simp
  moreover have "init H (word_at p i) \<noteq> None" using ok [OF assms(4)] r by (simp add: object_ok_def)
  ultimately show ?thesis using assms(3) unfolding old_memory_def by metis
qed

section \<open>Writing a slot\<close>

lemma states_cong:
  assumes "\<forall>p \<in> objects H. mem t p = mem s p"
  shows "p \<in> objects H \<Longrightarrow> forwarded_to t p = forwarded_to s p" "p \<in> objects H \<Longrightarrow> pinned_at t p = pinned_at s p"
    "p \<in> objects H \<Longrightarrow> image t p x = image s p x" "updated H t = updated H s" "old_slots H t = old_slots H s"
    "settled C R H t = settled C R H s" "slot H t = slot H s"
proof -
  show f: "p \<in> objects H \<Longrightarrow> forwarded_to t p = forwarded_to s p" and p: "p \<in> objects H \<Longrightarrow> pinned_at t p = pinned_at s p" for p
    using assms by (simp_all add: forwarded_to_def pinned_at_def)
  then show "p \<in> objects H \<Longrightarrow> image t p x = image s p x" for p x by (simp add: image_def)
  then show "slot H t = slot H s" by (auto simp: slot_def fun_eq_iff)
  show "updated H t = updated H s" using f by (auto simp: updated_def fun_eq_iff)
  show "old_slots H t = old_slots H s" using p by (auto simp: old_slots_def)
  show "settled C R H t = settled C R H s" using p by (auto simp: settled_def fun_eq_iff)
qed

lemma updated_again:
  assumes "start_ok C R H" "headers C R H s" "updated H s v (Some w)"
    "w' = w \<or> (w \<in> objects H \<and> forwarded_to s w = Some w')"
  shows "updated H s v (Some w')"
proof (cases "w' = w")
  case False
  then have w: "w \<in> objects H" "forwarded_to s w = Some w'" using assms(4) by auto
  have "v = Some w"
  proof (rule ccontr)
    assume "v \<noteq> Some w"
    then obtain p where "p \<in> objects H" "forwarded_to s p = Some w" using assms(3) by (metis updated_def)
    then show False using forwarded_not_from_space(2) [OF assms(1,2)] w(1) by blast
  qed
  then show ?thesis using w by (auto simp: updated_def)
qed (use assms in simp)

lemma forwarded_word: "mem s p = Some (c OR 1) \<Longrightarrow> 8 dvd unat c \<Longrightarrow> forwarded_to s p = Some c"
  using tag_read [of c 1] by (simp add: forwarded_to_def del: bit.compl_one)

lemma headers_frame:
  assumes heads: "headers C R H s" and same: "\<And>p. p \<in> objects H \<Longrightarrow> mem t p = mem s p"
    and copies: "\<And>p c. p \<in> objects H \<Longrightarrow> forwarded_to s p = Some c \<Longrightarrow> copy_ok C R H t p c"
  shows "headers C R H t"
  unfolding headers_def
proof (intro conjI ballI allI impI)
  fix p assume p: "p \<in> objects H"
  have "copy_ok C R H t p c" if "mem s p = Some (c OR 1)" "copy_ok C R H s p c" for c
    using that by (intro copies [OF p] forwarded_word) (auto simp: copy_ok_def)
  moreover have "header_ok C R H s p" using heads p by (simp add: headers_def)
  ultimately show "header_ok C R H t p" unfolding header_ok_def same [OF p] by blast
next
  fix p q c d
  assume "p \<in> objects H" "q \<in> objects H" "p \<noteq> q" "forwarded_to t p = Some c" "forwarded_to t q = Some d"
  moreover from this have "forwarded_to s p = Some c" "forwarded_to s q = Some d" using same by (simp_all add: forwarded_to_def)
  ultimately show "region c (obj_size H p) \<inter> region d (obj_size H q) = {}"
    using heads unfolding headers_def by blast
qed

text \<open>A slot inside a copy is one of the words with references of that copy.\<close>

lemma slot_in_copy:
  assumes start: "start_ok C R H" and heads: "headers C R H s" and a: "slot H s (word_at c i)"
    and p: "p \<in> objects H" "forwarded_to s p = Some c" and i: "i < obj_size H p div 4"
  shows "i \<in> set (ref_words H p)"
proof -
  have ok: "copy_ok C R H s p c" by (rule forwarded_copy(1) [OF start heads p])
  have r: "word_at c i \<in> region c (obj_size H p)" using i by (rule in_region)
  show ?thesis
    using start heads a
  proof (cases rule: slot_place)
    case old
    then show ?thesis using ok r by (auto simp: copy_ok_def)
  next
    case (copy q d j)
    have "q = p"
    proof (rule ccontr)
      assume "q \<noteq> p"
      then have "region d (obj_size H q) \<inter> region c (obj_size H p) = {}"
        using heads copy(1,2) p unfolding headers_def by blast
      then show False using copy(5) r by blast
    qed
    moreover from this have "d = c" using copy(2) p(2) by simp
    moreover have "unat c + obj_size H p \<le> 2 ^ 32" using ok by (simp add: copy_ok_def)
    ultimately have "j = i" 
      using word_at_inj [OF _ _ i] ref_word(2) [OF start_object [OF start p(1)]] copy(3,4) by metis
    then show ?thesis using copy(3) \<open>q = p\<close> by simp
  qed
qed

lemma write_copy:
  assumes start: "start_ok C R H" and heads: "headers C R H s" and a: "slot H s a"
    and again: "\<And>v b. updated H s v (mem s b) \<Longrightarrow> updated H s v (mem t b)"
    and same: "\<And>b. b \<noteq> a \<Longrightarrow> mem t b = mem s b" "mem t a \<noteq> None"
    and p: "p \<in> objects H" "forwarded_to s p = Some c"
  shows "copy_ok C R H t p c"
proof -
  have ok: "copy_ok C R H s p c" by (rule forwarded_copy(1) [OF start heads p])
  note z = start_object [OF start p(1)]
  have a_obj: "a \<notin> objects H" by (rule slot_not_object [OF start heads a])
  have upd: "updated H t = updated H s" by (rule states_cong(4)) (use same a_obj in metis)
  have word: "mem t (word_at c i) = mem s (word_at c i)" if "i < obj_size H p div 4" "i \<notin> set (ref_words H p)" for i
    using slot_in_copy [OF start heads _ p that(1)] a that(2) same(1) by metis
  have "0 < obj_size H p div 4" "0 \<notin> set (ref_words H p)" using z ref_word(1) [OF z, of 0] by (auto simp: object_ok_def)
  then have "mem t c = mem s c" using word [of 0] by simp
  moreover have "mem t b \<noteq> None" if "mem s b \<noteq> None" for b using same that by (cases "b = a") auto
  ultimately show ?thesis using ok again word unfolding copy_ok_def upd by (smt (verit, best))
qed

lemma write_slot:
  assumes start: "start_ok C R H" and inv: "collecting C R H E s" and a: "slot H s a" and w: "mem s a = Some w"
    and w': "w' = w \<or> (w \<in> objects H \<and> forwarded_to s w = Some w')"
  shows "collecting C R H E (s\<lparr>mem := (mem s)(a \<mapsto> w')\<rparr>)" (is "collecting C R H E ?t")
proof -
  have heads: "headers C R H s" and old: "old_memory H s" and gray: "gray_images R H s" and scan: "all_scanned C R H E s"
    using inv by (simp_all add: collecting_def)
  have a_obj: "a \<notin> objects H" by (rule slot_not_object [OF start heads a])
  then have same: "\<forall>p \<in> objects H. mem ?t p = mem s p" by auto
  note cong = states_cong [of H ?t s, OF same]
  have again: "updated H s v (mem ?t b)" if "updated H s v (mem s b)" for v b
    using that updated_again [OF start heads _ w'] w by (cases "b = a") auto
  have "headers C R H ?t"
  proof (rule headers_frame [OF heads])
    show "mem ?t p = mem s p" if "p \<in> objects H" for p using same that by blast
    show "copy_ok C R H ?t p c" if "p \<in> objects H" "forwarded_to s p = Some c" for p c
      by (rule write_copy [OF start heads a again _ _ that]) auto
  qed
  moreover have "old_memory H ?t"
    unfolding old_memory_def cong(5)
  proof (intro allI impI)
    fix b assume b: "init H b \<noteq> None" "b \<notin> objects H"
    have "a \<in> old_slots H s" if "b = a"
      using start heads a by (cases rule: slot_place) (use b that in auto)
    then show "if b \<in> old_slots H s then updated H ?t (init H b) (mem ?t b) else mem ?t b = init H b"
      using old b again [of "init H b" b] unfolding old_memory_def
      by (cases "b = a") (auto simp: cong(4) split: if_splits)
  qed
  moreover have "gray_images R H ?t"
    using gray by (fastforce simp: gray_images_def cong)
  moreover have "scanned C R H ?t p x" if sc: "scanned C R H s p x" for p x
    unfolding scanned_def cong(6)
  proof
    fix i assume "i \<in> set (ref_words H p)"
    then obtain v where v: "mem s (word_at x i) = Some v" "settled C R H s v" using sc by (auto simp: scanned_def)
    have "settled C R H s w'" if "settled C R H s w"
      using that w' forwarded_not_from_space(1) [OF start heads] by (auto simp: settled_def)
    then show "\<exists>v. mem ?t (word_at x i) = Some v \<and> settled C R H s v" using v w by (cases "word_at x i = a") auto
  qed
  then have "all_scanned C R H E ?t"
    using scan by (fastforce simp: all_scanned_def cong)
  ultimately show ?thesis by (simp add: collecting_def)
qed

section \<open>Deciding on an object\<close>

text \<open>What is never undone, and the work that is left.\<close>

definition progress :: "start_heap \<Rightarrow> gc_state \<Rightarrow> gc_state \<Rightarrow> bool" where
  "progress H s t \<longleftrightarrow> (\<forall>p \<in> objects H. (\<forall>c. forwarded_to s p = Some c \<longrightarrow> forwarded_to t p = Some c) \<and>
     (pinned_at s p \<longrightarrow> pinned_at t p))"

definition undecided :: "start_heap \<Rightarrow> gc_state \<Rightarrow> u32 set" where
  "undecided H s = {p \<in> objects H. forwarded_to s p = None \<and> \<not> pinned_at s p}"

definition work :: "start_heap \<Rightarrow> gc_state \<Rightarrow> nat" where
  "work H s = card (undecided H s) + length (gray_items (gray s))"

lemma progress_refl: "progress H s s"
  by (simp add: progress_def)

lemma progress_trans: "progress H s t \<Longrightarrow> progress H t u \<Longrightarrow> progress H s u"
  by (auto simp: progress_def)

lemma progress_updated: "progress H s t \<Longrightarrow> updated H s v v' \<Longrightarrow> updated H t v v'"
  by (auto simp: progress_def updated_def)

lemma progress_settled: "progress H s t \<Longrightarrow> settled C R H s w \<Longrightarrow> settled C R H t w"
  by (auto simp: progress_def settled_def)

lemma copy_frame:
  assumes "copy_ok C R H s p c" "progress H s t" "\<And>b. b \<noteq> w \<Longrightarrow> mem s b \<noteq> None \<Longrightarrow> mem t b = mem s b"
    "init H w \<noteq> None" "8 \<le> obj_size H p"
  shows "copy_ok C R H t p c"
proof -
  have same: "mem t (word_at c i) = mem s (word_at c i)" if "i < obj_size H p div 4" for i
    using assms(1,3,4) in_region [OF that, of c] unfolding copy_ok_def by metis
  have "mem t c = mem s c" using same [of 0] assms(5) by auto
  moreover have "mem t a \<noteq> None" if a: "a \<in> region c (obj_size H p)" for a
  proof -
    obtain i where "i < obj_size H p div 4" "a = word_at c i" using a by (rule regionE)
    then show ?thesis using same [of i] assms(1) a by (simp add: copy_ok_def)
  qed
  ultimately show ?thesis
    using assms(1) same progress_updated [OF assms(2)] unfolding copy_ok_def by auto
qed

lemma progress_image: "progress H s t \<Longrightarrow> p \<in> objects H \<Longrightarrow> image s p x \<Longrightarrow> image t p x"
  by (auto simp: progress_def image_def)

lemma step_headers:
  assumes start: "start_ok C R H" and heads: "headers C R H s" and w: "w \<in> objects H" "forwarded_to s w = None" "\<not> pinned_at s w"
    and same: "\<And>b. b \<noteq> w \<Longrightarrow> mem s b \<noteq> None \<Longrightarrow> mem t b = mem s b"
    and header: "header_ok C R H t w"
    and fresh: "\<And>c b. forwarded_to t w = Some c \<Longrightarrow> b \<in> region c (obj_size H w) \<Longrightarrow> mem s b = None"
    and prog: "progress H s t" and f: "\<And>p. p \<in> objects H \<Longrightarrow> p \<noteq> w \<Longrightarrow> forwarded_to t p = forwarded_to s p"
  shows "headers C R H t"
  unfolding headers_def
proof (intro conjI ballI allI impI)
  fix p assume p: "p \<in> objects H"
  show "header_ok C R H t p"
  proof (cases "p = w")
    case False
    have "init H w \<noteq> None" "8 \<le> obj_size H p" using init_mapped [OF start] w(1) p by simp_all
    then have "copy_ok C R H s p c \<Longrightarrow> copy_ok C R H t p c" for c using copy_frame [OF _ prog same] by blast
    moreover have "mem t p = mem s p" using same [OF False] header_mapped [OF start heads p] by simp
    moreover have "header_ok C R H s p" using heads p by (simp add: headers_def)
    ultimately show ?thesis unfolding header_ok_def by metis
  qed (use header in simp)
next
  fix p q c d
  assume pq: "p \<in> objects H" "q \<in> objects H" "p \<noteq> q" and fw: "forwarded_to t p = Some c" "forwarded_to t q = Some d"
  have copy: "mem s b \<noteq> None" if "r \<in> objects H" "r \<noteq> w" "forwarded_to t r = Some e" "b \<in> region e (obj_size H r)" for r e b
  proof -
    have "forwarded_to s r = Some e" using f [OF that(1,2)] that(3) by simp
    then show ?thesis using forwarded_copy(1) [OF start heads that(1)] that(4) by (simp add: copy_ok_def)
  qed
  show "region c (obj_size H p) \<inter> region d (obj_size H q) = {}"
  proof (cases "p = w \<or> q = w")
    case True
    then show ?thesis using copy [OF pq(1) _ fw(1)] copy [OF pq(2) _ fw(2)] fresh [of c] fresh [of d] fw pq(3) by blast
  next
    case False
    then show ?thesis using heads pq fw f unfolding headers_def by metis
  qed
qed

lemma step_old_memory:
  assumes start: "start_ok C R H" and heads: "headers C R H s" and old: "old_memory H s" and w: "w \<in> objects H"
    and same: "\<And>b. b \<noteq> w \<Longrightarrow> mem s b \<noteq> None \<Longrightarrow> mem t b = mem s b" and prog: "progress H s t"
  shows "old_memory H t"
  unfolding old_memory_def
proof (intro allI impI)
  fix a assume a: "init H a \<noteq> None" "a \<notin> objects H"
  have "mem t a = mem s a" using same [of a] still_mapped [OF start heads old a(1)] a(2) w by auto
  moreover have "old_slots H s \<subseteq> old_slots H t" using prog by (auto simp: old_slots_def progress_def)
  moreover have "updated H s (init H a) (mem s a)" using old a unfolding old_memory_def updated_def by metis
  ultimately show "if a \<in> old_slots H t then updated H t (init H a) (mem t a) else mem t a = init H a"
    using old a progress_updated [OF prog] unfolding old_memory_def by (metis subsetD)
qed

lemma step_scanned:
  assumes start: "start_ok C R H" and heads: "headers C R H s" and w: "w \<in> objects H"
    and same: "\<And>b. b \<noteq> w \<Longrightarrow> mem s b \<noteq> None \<Longrightarrow> mem t b = mem s b" and prog: "progress H s t"
    and p: "p \<in> objects H" "image s p x" and scan: "scanned C R H s p x"
  shows "scanned C R H t p x"
  unfolding scanned_def
proof
  fix i assume i: "i \<in> set (ref_words H p)"
  then obtain v where v: "mem s (word_at x i) = Some v" "settled C R H s v" using scan by (auto simp: scanned_def)
  have "slot H s (word_at x i)" using p i by (auto simp: slot_def)
  then have "word_at x i \<notin> objects H" by (rule slot_not_object [OF start heads])
  then have "mem t (word_at x i) = Some v" using same [of "word_at x i"] v(1) w by auto
  then show "\<exists>v. mem t (word_at x i) = Some v \<and> settled C R H t v" using progress_settled [OF prog v(2)] by blast
qed

lemma step_frame:
  assumes start: "start_ok C R H" and inv: "collecting C R H E s" and w: "w \<in> undecided H s"
    and frame: "\<forall>b. b \<noteq> w \<longrightarrow> mem s b \<noteq> None \<longrightarrow> mem t b = mem s b"
    and header: "header_ok C R H t w" and x: "image t w x" "\<forall>y. image t w y \<longrightarrow> y = x"
    and unused: "\<forall>c. forwarded_to t w = Some c \<longrightarrow> (\<forall>b \<in> region c (obj_size H w). mem s b = None)"
    and gray: "gray_ok (gray t)" "gray_items (gray t) = new @ gray_items (gray s)"
      "new = [(x, gc_descr R (vtable_of H w))] \<or> (new = [] \<and> ref_words H w = [])"
  shows "collecting C R H E t" "progress H s t" "work H t \<le> work H s"
proof -
  have heads: "headers C R H s" and old: "old_memory H s" and images: "gray_images R H s" and scan: "all_scanned C R H E s"
    using inv by (simp_all add: collecting_def)
  have same: "mem t b = mem s b" if "b \<noteq> w" "mem s b \<noteq> None" for b using frame that by blast
  have fresh: "mem s b = None" if "forwarded_to t w = Some c" "b \<in> region c (obj_size H w)" for c b
    using unused that by blast
  have wo: "w \<in> objects H" "forwarded_to s w = None" "\<not> pinned_at s w" using w by (auto simp: undecided_def)
  have eq: "mem t p = mem s p" if "p \<in> objects H" "p \<noteq> w" for p
    using same [OF that(2)] header_mapped [OF start heads that(1)] by simp
  have f: "forwarded_to t p = forwarded_to s p" and pin: "pinned_at t p = pinned_at s p" and im: "image t p = image s p"
    if "p \<in> objects H" "p \<noteq> w" for p
    using eq [OF that] by (simp_all add: forwarded_to_def pinned_at_def image_def fun_eq_iff)
  show prog: "progress H s t" unfolding progress_def
  proof
    fix p assume "p \<in> objects H"
    then show "(\<forall>c. forwarded_to s p = Some c \<longrightarrow> forwarded_to t p = Some c) \<and> (pinned_at s p \<longrightarrow> pinned_at t p)"
      using f pin wo by (cases "p = w") auto
  qed
  have "headers C R H t" by (rule step_headers [OF start heads wo same header fresh prog f]) auto
  moreover have "old_memory H t" by (rule step_old_memory [OF start heads old wo(1) same prog]) auto
  moreover have "gray_images R H t"
    using images gray x(1) wo(1) im progress_image [OF prog]
    by (auto simp: gray_images_def) blast+
  moreover have "all_scanned C R H E t"
    unfolding all_scanned_def
  proof (intro ballI allI impI)
    fix p y
    assume p: "p \<in> objects H" "image t p y"
    show "p \<in> E \<or> y \<in> fst ` set (gray_items (gray t)) \<or> scanned C R H t p y"
    proof (cases "p = w")
      case True
      then show ?thesis using gray(2,3) x(2) p(2) by (auto simp: scanned_def)
    next
      case False
      then have "image s p y" using p im by simp
      moreover from this have "scanned C R H s p y \<Longrightarrow> scanned C R H t p y"
        using step_scanned [OF start heads wo(1) same prog p(1)] by blast
      ultimately show ?thesis using scan p(1) gray(2) unfolding all_scanned_def by fastforce
    qed
  qed
  ultimately show "collecting C R H E t" by (simp add: collecting_def)
  have "w \<notin> undecided H t" using x(1) by (auto simp: undecided_def image_def)
  then have "undecided H t \<subseteq> undecided H s - {w}" using prog by (auto simp: undecided_def progress_def)
  moreover have "finite (undecided H s)" using start by (simp add: undecided_def start_ok_def)
  ultimately have "card (undecided H t) < card (undecided H s)" using w by (intro psubset_card_mono) auto
  moreover have "length new \<le> 1" using gray(3) by auto
  ultimately show "work H t \<le> work H s" by (simp add: work_def gray(2))
qed

section \<open>Copying keeps the invariant\<close>

lemma copied_header:
  assumes start: "start_ok C R H" and inv: "collecting C R H E s" and w: "w \<in> undecided H s"
    and copied: "copied_outcome C R (vtable_of H w) w (obj_size H w) c s t"
  shows "copy_ok C R H t w c"
proof -
  have heads: "headers C R H s" and old: "old_memory H s" using inv by (simp_all add: collecting_def)
  have wo: "w \<in> objects H" "forwarded_to s w = None" "\<not> pinned_at s w" using w by (auto simp: undecided_def)
  note ok = start_object [OF start wo(1)]
  note same = untouched_body [OF start heads old wo]
  note c = copied [unfolded copied_outcome_def]
  have array: "has_array_header R (vtable_of H w) \<Longrightarrow> 2 < obj_size H w div 4"
    using ok by (auto simp: object_ok_def described_def)
  have word: "copied_word R (vtable_of H w) w c (mem s) i = copied_word R (vtable_of H w) w c (init H) i"
    if "i < obj_size H w div 4" for i
    using same [OF that] same [of 2] array by (auto simp: copied_word_def has_array_header_def)
  have fresh: "init H a = None" if "a \<in> region c (obj_size H w)" for a
  proof -
    have "mem s a = None" using c that by simp
    then show ?thesis using still_mapped [OF start heads old, of a] by blast
  qed
  have ref: "copied_word R (vtable_of H w) w c (init H) i = init H (word_at w i)" if "i \<in> set (ref_words H w)" for i
    using ref_word(4) [OF ok that] by (auto simp: copied_word_def has_array_header_def)
  show ?thesis
    using c fresh word ref untouched(2) [OF start heads wo] unfolding copy_ok_def updated_def by auto
qed

lemma copied_state:
  assumes "mem t w = Some (c OR 1)" "8 dvd unat c"
  shows "forwarded_to t w = Some c" "\<not> pinned_at t w"
  using forwarded_word [OF assms] assms(1) tag_read [OF assms(2), of 1] by (auto simp: pinned_at_def)

lemma pinned_state:
  assumes "mem t w = Some (vt OR 2)" "8 dvd unat vt"
  shows "forwarded_to t w = None" "pinned_at t w"
  using assms(1) tag_read [OF assms(2), of 2] by (auto simp: pinned_at_def forwarded_to_def)

lemma copy_step:
  assumes start: "start_ok C R H" and services: "services_ok C R" and inv: "collecting C R H E s" and w: "w \<in> undecided H s"
  shows "\<exists>c t. copy_object_no_checks C R w s = Some (c, t) \<and> collecting C R H E t \<and> progress H s t \<and> work H t \<le> work H s \<and>
    (forwarded_to t w = Some c \<or> (c = w \<and> pinned_at t w)) \<and>
    (\<forall>b. b \<noteq> w \<longrightarrow> mem s b \<noteq> None \<longrightarrow> mem t b = mem s b)"
proof -
  have heads: "headers C R H s" and old: "old_memory H s" and gray: "gray_ok (gray s)"
    using inv by (simp_all add: collecting_def gray_images_def)
  have wo: "w \<in> objects H" "forwarded_to s w = None" "\<not> pinned_at s w" using w by (auto simp: undecided_def)
  note ok = start_object [OF start wo(1)]
  note body = untouched_body [OF start heads old wo]
  note vt = untouched [OF start heads wo]
  let ?vt = "vtable_of H w" and ?z = "obj_size H w"
  obtain k where k: "unat (SGEN_ALIGN_UP k) = ?z" "sgen_client_par_object_get_size R ?vt w (mem s) = Some k"
    using ok body unfolding object_ok_def by (metis regionE)
  have mapped: "\<forall>a \<in> obj_region H w. mem s a \<noteq> None" using ok body by (metis object_ok_def regionE)
  have geo: "8 dvd unat w" "unat w + ?z \<le> 2 ^ 32" "8 \<le> ?z" "8 dvd ?z" "vtable_rank R ?vt \<noteq> 0 \<longrightarrow> 16 \<le> ?z"
    using ok by (auto simp: object_ok_def described_def has_array_header_def)
  obtain c t where t: "copy_object_no_checks C R w s = Some (c, t)" "gray_ok (gray t)"
      "c = w \<and> pinned_outcome R ?vt w s t \<or> copied_outcome C R ?vt w ?z c s t"
    using copy_object_outcome [OF services gray geo(1,2) mapped geo(3-5) vt(1,3) k(2,1)] by blast
  have same: "\<forall>b. b \<noteq> w \<longrightarrow> mem s b \<noteq> None \<longrightarrow> mem t b = mem s b"
  proof (intro allI impI)
    fix b assume b: "b \<noteq> w" "mem s b \<noteq> None"
    show "mem t b = mem s b" using t(3)
    proof
      assume "copied_outcome C R ?vt w ?z c s t"
      then have c: "\<forall>a \<in> region c ?z. mem s a = None" "\<forall>a. a \<notin> region c ?z \<and> a \<noteq> w \<longrightarrow> mem t a = mem s a"
        by (simp_all add: copied_outcome_def)
      have "b \<notin> region c ?z" using c(1) b(2) by auto
      then show ?thesis using c(2) b(1) by blast
    qed (use b in \<open>simp add: pinned_outcome_def\<close>)
  qed
  have result: "collecting C R H E t \<and> progress H s t \<and> work H t \<le> work H s \<and>
    (forwarded_to t w = Some c \<or> (c = w \<and> pinned_at t w))"
    using t(3)
  proof
    assume p: "c = w \<and> pinned_outcome R ?vt w s t"
    then have m: "mem t w = Some (?vt OR 2)" and new: "gray_items (gray t) = [(w, gc_descr R ?vt)] @ gray_items (gray s)"
      by (simp_all add: pinned_outcome_def)
    note st = pinned_state [OF m vt(3)]
    have header: "header_ok C R H t w" using m vt by (simp add: header_ok_def)
    have im: "image t w w" "\<forall>y. image t w y \<longrightarrow> y = w" using st by (simp_all add: image_def)
    have fresh: "\<forall>d. forwarded_to t w = Some d \<longrightarrow> (\<forall>b \<in> region d ?z. mem s b = None)" using st(1) by simp
    have cond: "[(w, gc_descr R ?vt)] = [(w, gc_descr R ?vt)] \<or> ([(w, gc_descr R ?vt)] = [] \<and> ref_words H w = [])" by simp
    note frame = step_frame [OF start inv w same header im fresh t(2) new cond]
    show ?thesis using frame st(2) p by blast
  next
    assume cp: "copied_outcome C R ?vt w ?z c s t"
    then have m: "mem t w = Some (c OR 1)" "8 dvd unat c" by (simp_all add: copied_outcome_def)
    note st = copied_state [OF m]
    let ?new = "if SGEN_VTABLE_HAS_REFERENCES R ?vt then [(c, gc_descr R ?vt)] else []"
    have new: "gray_items (gray t) = ?new @ gray_items (gray s)" using cp unfolding copied_outcome_def by blast
    have "ref_words H w = []" if "\<not> SGEN_VTABLE_HAS_REFERENCES R ?vt"
    proof -
      have "scan_object (complex_descriptor R) (gc_descr R ?vt) (view_at R ?vt (the (init H (w + 12))) w) = Some []"
        using that by (intro pointer_free_scan) (simp add: SGEN_VTABLE_HAS_REFERENCES_def sgen_vtable_get_descriptor_def)
      then show ?thesis using ok unfolding object_ok_def described_def by auto
    qed
    then have cond: "?new = [(c, gc_descr R ?vt)] \<or> (?new = [] \<and> ref_words H w = [])" by simp
    have header: "header_ok C R H t w"
      using copied_header [OF start inv w cp] m(1) vt by (auto simp: header_ok_def)
    have fresh: "\<forall>d. forwarded_to t w = Some d \<longrightarrow> (\<forall>b \<in> region d ?z. mem s b = None)"
      using cp st(1) by (simp add: copied_outcome_def)
    have im: "image t w c" "\<forall>y. image t w y \<longrightarrow> y = c" using st by (simp_all add: image_def)
    note frame = step_frame [OF start inv w same header im fresh t(2) new cond]
    show ?thesis using frame st(1) by blast
  qed
  show ?thesis using t(1) result same by blast
qed

section \<open>Handling a slot\<close>

definition slot_done :: "gc_collector \<Rightarrow> gc_runtime \<Rightarrow> start_heap \<Rightarrow> u32 set \<Rightarrow> gc_state \<Rightarrow> u32 \<Rightarrow> gc_state \<Rightarrow> bool" where
  "slot_done C R H E s a t \<longleftrightarrow> collecting C R H E t \<and> progress H s t \<and> work H t \<le> work H s \<and>
     (\<exists>w. mem t a = Some w \<and> settled C R H t w) \<and>
     (\<forall>b. b \<noteq> a \<longrightarrow> b \<notin> objects H \<longrightarrow> mem s b \<noteq> None \<longrightarrow> mem t b = mem s b)"

lemma read_header:
  assumes "start_ok C R H" "headers C R H s" "w \<in> objects H"
  shows "SGEN_OBJECT_IS_FORWARDED w (mem s) = Some (case forwarded_to s w of None \<Rightarrow> 0 | Some c \<Rightarrow> c)"
    "forwarded_to s w = None \<Longrightarrow> SGEN_OBJECT_IS_PINNED w (mem s) = Some (pinned_at s w)"
    "\<exists>v. load (mem s) w = Some v"
proof -
  have "4 dvd unat w" using start_object [OF assms(1,3)] by (auto simp: object_ok_def elim: dvdE)
  then obtain v where v: "load (mem s) w = Some v" "mem s w = Some v" 
    using header_mapped [OF assms] by (auto simp: load_def)
  then show "SGEN_OBJECT_IS_FORWARDED w (mem s) = Some (case forwarded_to s w of None \<Rightarrow> 0 | Some c \<Rightarrow> c)"
    "forwarded_to s w = None \<Longrightarrow> SGEN_OBJECT_IS_PINNED w (mem s) = Some (pinned_at s w)" "\<exists>v. load (mem s) w = Some v"
    by (auto simp: SGEN_OBJECT_IS_FORWARDED_def SGEN_OBJECT_IS_PINNED_def forwarded_to_def pinned_at_def tag_defs split: if_splits)
qed

text \<open>What a slot can hold.\<close>

lemma slot_cases:
  assumes start: "start_ok C R H" and inv: "collecting C R H E s" and a: "slot H s a"
  obtains (outside) w where "load (mem s) a = Some w" "\<not> sgen_ptr_in_nursery R w" "mem s a = Some w"
  | (promoted) w v where "load (mem s) a = Some w" "mem s a = Some w" "sgen_ptr_in_nursery R w" "\<not> from_space C R w"
      "w \<notin> objects H" "load (mem s) w = Some v" "8 dvd unat v"
  | (object) w where "load (mem s) a = Some w" "mem s a = Some w" "w \<in> objects H" "sgen_ptr_in_nursery R w" "from_space C R w"
proof -
  have heads: "headers C R H s" and old: "old_memory H s" using inv by (simp_all add: collecting_def)
  have al: "4 dvd unat a" using start heads a by (cases rule: slot_place)
  obtain v where v: "reference R H v" "updated H s v (mem s a)" "v \<noteq> None" using slot_value [OF start heads old a] by blast
  then obtain w where w: "mem s a = Some w" by (auto simp: updated_def)
  then have ld: "load (mem s) a = Some w" using al by (simp add: load_def)
  show thesis
  proof (cases "sgen_ptr_in_nursery R w")
    case False
    then show thesis using ld w by (intro outside)
  next
    case True
    then have "w \<noteq> 0" using start by (auto simp: start_ok_def)
    show thesis
    proof (cases "w \<in> objects H")
      case True
      then have f: "from_space C R w" using start_object [OF start] by (simp add: object_ok_def)
      then have "sgen_ptr_in_nursery R w" by (simp add: from_space_def)
      then show thesis using ld w True f by (intro object)
    next
      case False
      have "v \<noteq> Some w" using v(1) \<open>w \<noteq> 0\<close> True False by (auto simp: reference_def)
      then obtain p where p: "p \<in> objects H" "forwarded_to s p = Some w" using v(2) w by (metis updated_def)
      have ok: "copy_ok C R H s p w" "\<not> pinned_at s p" using forwarded_copy [OF start heads p] by simp_all
      then have al: "8 dvd unat w" "\<not> from_space C R w" "mem s w = init H p" by (simp_all add: copy_ok_def)
      obtain vt where vt: "init H p = Some vt" using init_mapped [OF start p(1)] by auto
      then have "load (mem s) w = Some vt" "8 dvd unat vt"
        using al forwarded_copy(4) [OF start heads p] by (auto simp: load_def elim: dvdE)
      then show thesis using False True ld w al by (intro promoted)
    qed
  qed
qed

section \<open>The start of a collection\<close>

text \<open>At the start the gray stack holds pinned objects, and every pinned object with references is on it.\<close>

definition start_state :: "gc_runtime \<Rightarrow> start_heap \<Rightarrow> gc_state \<Rightarrow> bool" where
  "start_state R H s \<longleftrightarrow> mem s = init H \<and> gray_ok (gray s) \<and>
     (\<forall>(x, desc) \<in> set (gray_items (gray s)). x \<in> objects H \<and> pinned_at s x \<and> desc = gc_descr R (vtable_of H x)) \<and>
     (\<forall>p \<in> objects H. pinned_at s p \<longrightarrow> ref_words H p = [] \<or> p \<in> fst ` set (gray_items (gray s)))"

end
