(* ===== verification/CollectionDemo.thy ===== *)
theory CollectionDemo
  imports Collection
begin

text \<open>
  A small heap for the witnesses: two objects of 16 bytes that refer to each other, the second one pinned, two roots, and
  services that keep their promises.
\<close>

definition demo_runtime :: gc_runtime where
  "demo_runtime = \<lparr>gc_descr = (\<lambda>_. 0xA), klass = (\<lambda>_. 0), vtable_rank = (\<lambda>_. 0), class_rank = (\<lambda>_. 0),
     class_element_size = (\<lambda>_. 0), class_instance_size = (\<lambda>_. 16), array_element_size = (\<lambda>_. 0), string_class = 1,
     complex_descriptor = (\<lambda>_. []), nursery_bits = 12, nursery_start = 0x10000, space_bitmap = [0], generation = 0,
     los_is_pinned = (\<lambda>_. False), major_is_live = (\<lambda>_. True)\<rparr>"

definition demo_alloc :: "u32 \<Rightarrow> u32 \<Rightarrow> u32 \<Rightarrow> bool \<Rightarrow> memory \<Rightarrow> u32 \<times> memory" where
  "demo_alloc vt obj z refs m =
    (if unat z \<le> 256 \<and> (\<forall>a \<in> region 0x20000 (unat z). m a = None)
     then (0x20000, \<lambda>a. if a = 0x20000 then Some vt else if a \<in> region 0x20000 (unat z) then Some 0 else m a)
     else (0, m))"

definition demo_pin :: "u32 \<Rightarrow> gc_state \<Rightarrow> gc_state option" where
  "demo_pin obj s = do {
     w \<leftarrow> load (mem s) obj;
     q \<leftarrow> demo_enqueue (gray s) obj (gc_descr demo_runtime (SGEN_POINTER_UNTAG_ALL w)) False;
     Some (s\<lparr>mem := (mem s)(obj \<mapsto> SGEN_POINTER_TAG_PINNED w), gray := q\<rparr>) }"

definition demo_collector :: gc_collector where
  "demo_collector = \<lparr>simple_nursery = True, gc_moves = False, alloc_for_promotion = demo_alloc, pin_object = demo_pin,
     enqueue_path = demo_enqueue, dequeue_path = demo_dequeue\<rparr>"

definition demo_start :: start_heap where
  "demo_start = \<lparr>init = [0x10000 \<mapsto> 0x8000, 0x10004 \<mapsto> 0, 0x10008 \<mapsto> 0x10010, 0x1000C \<mapsto> 7,
       0x10010 \<mapsto> 0x8002, 0x10014 \<mapsto> 0, 0x10018 \<mapsto> 0x10000, 0x1001C \<mapsto> 9, 0x30000 \<mapsto> 0x10000, 0x30004 \<mapsto> 0x10010],
     objects = {0x10000, 0x10010}, obj_size = (\<lambda>_. 16), ref_words = (\<lambda>_. [2]), root_slots = {0x30000, 0x30004}\<rparr>"

definition demo_state :: gc_state where
  "demo_state = \<lparr>mem = init demo_start, gray = the (demo_enqueue empty_queue 0x10010 0xA False), calls = []\<rparr>"

lemma demo_nursery: "sgen_ptr_in_nursery demo_runtime p \<longleftrightarrow> 0x10000 \<le> unat p \<and> unat p < 0x11000"
proof -
  have "SGEN_PTR_IN_NURSERY p 12 0x10000 \<longleftrightarrow> unat (0x10000 :: u32) \<le> unat p \<and> unat p < unat (0x10000 :: u32) + 2 ^ 12"
    by (rule nursery_interval) simp_all
  then show ?thesis by (simp add: sgen_ptr_in_nursery_def demo_runtime_def)
qed

lemma demo_from_space: "from_space demo_collector demo_runtime p \<longleftrightarrow> 0x10000 \<le> unat p \<and> unat p < 0x11000"
  by (simp add: from_space_def demo_nursery) (simp add: demo_collector_def)

lemma demo_services: "services_ok demo_collector demo_runtime"
  unfolding services_ok_def
proof (intro conjI)
  show "slow_paths (enqueue_path demo_collector) (dequeue_path demo_collector)"
    using demo_slow_paths by (simp add: demo_collector_def)
  show "allocator_ok demo_collector demo_runtime"
    unfolding allocator_ok_def
  proof (intro allI impI)
    fix vt obj z :: u32 and refs and m :: memory and d m'
    assume z: "8 \<le> unat z" "8 dvd unat z" and d: "alloc_for_promotion demo_collector vt obj z refs m = (d, m')"
    have start: "0x20000 \<in> region 0x20000 (unat z)" using z(1) by (rule region_start)
    show "d = 0 \<and> m' = m \<or> d \<noteq> 0 \<and> 8 dvd unat d \<and> unat d + unat z + 4096 \<le> 2 ^ 32 \<and>
       \<not> from_space demo_collector demo_runtime d \<and> (\<forall>a \<in> region d (unat z). m a = None \<and> m' a \<noteq> None) \<and> m' d = Some vt \<and>
       (\<forall>a. a \<notin> region d (unat z) \<longrightarrow> m' a = m a)"
    proof (cases "unat z \<le> 256 \<and> (\<forall>a \<in> region 0x20000 (unat z). m a = None)")
      case True
      then have "d = 0x20000" "m' = (\<lambda>a. if a = 0x20000 then Some vt else if a \<in> region 0x20000 (unat z) then Some 0 else m a)"
        using d by (simp_all add: demo_collector_def demo_alloc_def)
      then show ?thesis using True start by (auto simp: demo_from_space)
    next
      case False
      have "alloc_for_promotion demo_collector vt obj z refs m = (0, m)"
        unfolding demo_collector_def gc_collector.simps demo_alloc_def using False by (rule if_not_P)
      then show ?thesis using d by simp
    qed
  qed
  show "pinning_ok demo_collector demo_runtime"
    unfolding pinning_ok_def
  proof (intro allI impI)
    fix obj w and s :: gc_state assume s: "gray_ok (gray s)" "load (mem s) obj = Some w"
    let ?d = "gc_descr demo_runtime (SGEN_POINTER_UNTAG_ALL w)"
    obtain q where q: "demo_enqueue (gray s) obj ?d False = Some q" "gray_ok q" "gray_items q = (obj, ?d) # gray_items (gray s)"
      using demo_slow_paths s(1) unfolding slow_paths_def by metis
    then have "pin_object demo_collector obj s = Some (s\<lparr>mem := (mem s)(obj \<mapsto> SGEN_POINTER_TAG_PINNED w), gray := q\<rparr>)"
      using s(2) by (simp add: demo_collector_def demo_pin_def)
    then show "\<exists>t. pin_object demo_collector obj s = Some t \<and> mem t = (mem s)(obj \<mapsto> SGEN_POINTER_TAG_PINNED w) \<and>
        gray_ok (gray t) \<and> gray_items (gray t) = (obj, ?d) # gray_items (gray s) \<and> calls t = calls s"
      using q by simp
  qed
qed

lemma demo_scan:
  assumes "8 dvd unat a" "unat a + 16 + 4096 \<le> 2 ^ 32"
  shows "scan_object c 0xA \<lparr>obj_addr = a, array_length = n, element_size = k\<rparr> = Some [word_at a 2]"
proof -
  let ?o = "\<lparr>obj_addr = a, array_length = n, element_size = k\<rparr>"
  have bits: "filter (\<lambda>i. bit (0xA :: u32) (i + 3)) [0..<29] = [0]" by code_simp
  have "drop_bit 3 (0xA :: u32) \<noteq> 0" by code_simp
  moreover have "unat (obj_addr ?o) + 8 + 4 * 29 < 2 ^ 32" using assms(2) by simp
  ultimately have "OBJ_BITMAP_FOREACH_PTR 0xA ?o =
      Some (map (\<lambda>i. obj_addr ?o + 8 + 4 * of_nat i) (filter (\<lambda>i. bit (0xA :: u32) (i + 3)) [0..<29]))"
    by (intro conjunct1 [OF bitmap_scans])
  then have "OBJ_BITMAP_FOREACH_PTR 0xA ?o = Some [word_at a 2]" unfolding bits by (simp add: word_at_def)
  then show ?thesis by (simp add: scan_object_def DESC_TYPE_MASK_def)
qed

lemma demo_region: "region a 16 = {a, a + 4, a + 8, a + 12}"
proof -
  have "{..<(16::nat) div 4} = {0, 1, 2, 3}" by auto
  then show ?thesis by (simp add: region_def word_at_def)
qed

lemma demo_described: "described demo_runtime vt n 16 [2]"
proof -
  have d: "gc_descr demo_runtime vt = 0xA" "vtable_rank demo_runtime vt = 0" by (simp_all add: demo_runtime_def)
  have n: "\<not> is_vector_desc 0xA" "\<not> is_complex_arr_desc 0xA"
    by (simp_all add: is_vector_desc_def is_complex_arr_desc_def DESC_TYPE_MASK_def)
  show ?thesis
    unfolding described_def view_at_def has_array_header_def d
    using demo_scan n by simp
qed

lemma demo_object:
  assumes "p = 0x10000 \<or> p = 0x10010" "init H p = Some (0x8000 OR t)" "t \<in> {0, 2, 6}"
    and "obj_size H p = 16" "ref_words H p = [2]" "\<forall>a \<in> {p, p + 4, p + 8, p + 12}. init H a \<noteq> None"
    and "reference demo_runtime H (init H (p + 8))"
  shows "object_ok demo_collector demo_runtime H p"
proof -
  have "8 dvd unat (0x8000 :: u32)" by simp
  then have head: "\<exists>vt t. init H p = Some (vt OR t) \<and> 8 dvd unat vt \<and> t \<in> {0, 2, 6}" using assms(2,3) by blast
  have size: "unat (SGEN_ALIGN_UP 16) = 16" "sgen_client_par_object_get_size demo_runtime (vtable_of H p) p m = Some 16" for m
    by (simp_all add: sgen_client_par_object_get_size_def sgen_client_slow_object_get_size_def sgen_vtable_get_descriptor_def
        demo_runtime_def DESC_TYPE_MASK_def SGEN_DESC_STRING_def LOW_TYPE_BITS_def SGEN_ALIGN_UP_def SGEN_ALIGN_UP_TO_def
        SGEN_ALLOC_ALIGN_def)
  have place: "p \<noteq> 0" "8 dvd unat p" "from_space demo_collector demo_runtime p" "unat p + 16 + 4096 \<le> 2 ^ 32"
    using assms(1) by (auto simp: demo_from_space)
  show ?thesis
    unfolding object_ok_def assms(4,5) demo_region
    using head size place assms(6,7) demo_described by (simp add: word_at_numeral) blast
qed

lemma demo_start_ok: "start_ok demo_collector demo_runtime demo_start"
proof -
  have "object_ok demo_collector demo_runtime demo_start 0x10000"
    by (rule demo_object [where t = 0]) (auto simp: demo_start_def reference_def)
  moreover have "object_ok demo_collector demo_runtime demo_start 0x10010"
    by (rule demo_object [where t = 2]) (auto simp: demo_start_def reference_def)
  moreover have "objects demo_start = {0x10000, 0x10010}" by (simp add: demo_start_def)
  ultimately have "\<forall>p \<in> objects demo_start. object_ok demo_collector demo_runtime demo_start p" by simp
  moreover have "region 0x10000 16 \<inter> region 0x10010 16 = {}" by (simp add: demo_region)
  ultimately show ?thesis
    by (auto simp: start_ok_def demo_nursery reference_def) (auto simp: demo_start_def demo_collector_def demo_region)
qed

lemma demo_start_state: "start_state demo_runtime demo_start demo_state"
proof -
  obtain q where q: "demo_enqueue empty_queue 0x10010 0xA False = Some q" "gray_ok q" "gray_items q = [(0x10010, 0xA)]"
    using demo_slow_paths empty_queue_ok unfolding slow_paths_def by metis
  then show ?thesis
    by (auto simp: start_state_def demo_state_def pinned_at_def demo_start_def demo_runtime_def)
qed

end
