(* ===== verification/CollectionProps.thy ===== *)
theory CollectionProps
  imports CollectionDemo
begin

text \<open>
  Correctness of a nursery collection: every operation on a slot keeps the invariant and settles the slot,
  scanning settles the slots of an object, draining the gray stack returns and leaves no object to scan.
\<close>

section \<open>Recorded calls\<close>

text \<open>The invariant is about memory and the gray queue.\<close>

lemma same_memory:
  assumes "mem t = mem s"
  shows "forwarded_to t = forwarded_to s" "pinned_at t = pinned_at s" "image t = image s" "updated H t = updated H s"
    "settled C R H t = settled C R H s" "slot H t = slot H s" "headers C R H t = headers C R H s"
    "old_memory H t = old_memory H s" "scanned C R H t = scanned C R H s" "undecided H t = undecided H s"
proof -
  show f: "forwarded_to t = forwarded_to s" and p: "pinned_at t = pinned_at s"
    using assms by (simp_all add: forwarded_to_def pinned_at_def fun_eq_iff)
  show i: "image t = image s" using f p by (simp add: image_def fun_eq_iff)
  show u: "updated H t = updated H s" using f by (simp add: updated_def fun_eq_iff)
  show s: "settled C R H t = settled C R H s" using p by (simp add: settled_def fun_eq_iff)
  show "slot H t = slot H s" using i by (simp add: slot_def fun_eq_iff)
  have "copy_ok C R H t = copy_ok C R H s" using assms u by (simp add: copy_ok_def fun_eq_iff)
  then show "headers C R H t = headers C R H s" using assms f by (simp add: headers_def header_ok_def)
  show "old_memory H t = old_memory H s" using assms u p by (simp add: old_memory_def old_slots_def)
  show "scanned C R H t = scanned C R H s" using assms s by (simp add: scanned_def fun_eq_iff)
  show "undecided H t = undecided H s" using f p by (simp add: undecided_def)
qed

lemma same_state:
  assumes "mem t = mem s" "gray t = gray s"
  shows "collecting C R H E t = collecting C R H E s" "work H t = work H s" "progress H u t = progress H u s"
  using assms by (simp_all add: collecting_def gray_images_def all_scanned_def work_def progress_def same_memory [OF assms(1)])

lemma slot_done_call:
  "slot_done C R H E s a (record_call e t) = slot_done C R H E s a t"
proof -
  have m: "mem (record_call e t) = mem t" "gray (record_call e t) = gray t" by (simp_all add: record_call_def)
  show ?thesis unfolding slot_done_def same_state [OF m] same_memory [OF m(1)] m ..
qed

lemma slot_done_remember:
  assumes "slot_done C R H E s a t" "load (mem t) c \<noteq> None"
  shows "\<exists>u. remember R a c t = Some u \<and> slot_done C R H E s a u"
  using assms slot_done_call by (auto simp: remember_def SGEN_OBJECT_IS_CEMENTED_def sgen_add_to_global_remset_def)

section \<open>Updating a reference\<close>

lemma unchanged_slot:
  assumes "collecting C R H E s" "mem s a = Some w" "settled C R H s w"
  shows "slot_done C R H E s a s"
  using assms by (auto simp: slot_done_def progress_refl)

text \<open>Storing the image of an object whose fate is decided.\<close>

lemma store_image:
  assumes start: "start_ok C R H" and inv: "collecting C R H E t" and a: "slot H t a" "mem t a = Some w"
    and w: "w \<in> objects H" "forwarded_to t w = Some c \<or> (c = w \<and> pinned_at t w)"
  shows "\<exists>u. SGEN_UPDATE_REFERENCE a c t = Some u \<and> slot_done C R H E t a u \<and> load (mem u) c \<noteq> None"
proof -
  have heads: "headers C R H t" using inv by (simp add: collecting_def)
  let ?u = "t\<lparr>mem := (mem t)(a \<mapsto> c)\<rparr>"
  have al: "4 dvd unat a" using start heads a(1) by (cases rule: slot_place)
  then have st: "SGEN_UPDATE_REFERENCE a c t = Some ?u" using a(2) by (simp add: SGEN_UPDATE_REFERENCE_def on_memory_def store_def)
  have a_obj: "a \<notin> objects H" by (rule slot_not_object [OF start heads a(1)])
  then have same: "\<forall>p \<in> objects H. mem ?u p = mem t p" by auto
  note cong = states_cong [OF same]
  have coll: "collecting C R H E ?u" using w by (intro write_slot [OF start inv a]) auto
  have "work H ?u = work H t" using cong(1,2) by (simp add: work_def undecided_def cong: conj_cong)
  moreover have "progress H t ?u" using cong(1,2) by (simp add: progress_def)
  moreover have "settled C R H t c"
    using w forwarded_not_from_space(1) [OF start heads w(1), of c] by (auto simp: settled_def)
  ultimately have "slot_done C R H E t a ?u" using coll by (simp add: slot_done_def cong(6))
  moreover have "load (mem ?u) c \<noteq> None"
    using w(2)
  proof
    assume "forwarded_to t w = Some c"
    then have "copy_ok C R H t w c" by (rule forwarded_copy(1) [OF start heads w(1)])
    then have "8 dvd unat c" "c \<in> region c (obj_size H w)" "\<forall>b \<in> region c (obj_size H w). mem t b \<noteq> None"
      using init_mapped [OF start w(1)] by (auto simp: copy_ok_def intro: region_start)
    then show ?thesis by (auto simp: load_def elim: dvdE)
  next
    assume "c = w \<and> pinned_at t w"
    then show ?thesis using read_header(3) [OF start heads w(1)] w(1) a_obj by (auto simp: load_def split: if_splits)
  qed
  ultimately show ?thesis using st by blast
qed

lemma slot_done_trans:
  assumes "collecting C R H E t" "progress H s t" "work H t \<le> work H s"
    and "\<And>b. b \<notin> objects H \<Longrightarrow> mem s b \<noteq> None \<Longrightarrow> mem t b = mem s b" and "slot_done C R H E t a u"
  shows "slot_done C R H E s a u"
  using assms progress_trans [OF assms(2)] unfolding slot_done_def by auto

text \<open>Copying the object a slot refers to and storing the result.\<close>

lemma copy_and_store:
  assumes start: "start_ok C R H" and services: "services_ok C R" and inv: "collecting C R H E s"
    and a: "slot H s a" "mem s a = Some w" and w: "w \<in> undecided H s"
  shows "\<exists>c t u. copy_object_no_checks C R w s = Some (c, t) \<and> SGEN_UPDATE_REFERENCE a c t = Some u \<and>
    slot_done C R H E s a u \<and> load (mem u) c \<noteq> None"
proof -
  have heads: "headers C R H s" using inv by (simp add: collecting_def)
  have wo: "w \<in> objects H" using w by (simp add: undecided_def)
  obtain c t where t: "copy_object_no_checks C R w s = Some (c, t)" "collecting C R H E t" "progress H s t" "work H t \<le> work H s"
      "forwarded_to t w = Some c \<or> (c = w \<and> pinned_at t w)" "\<forall>b. b \<noteq> w \<longrightarrow> mem s b \<noteq> None \<longrightarrow> mem t b = mem s b"
    using copy_step [OF start services inv w] by blast
  have "slot H t a" using a(1) progress_image [OF t(3)] unfolding slot_def by blast
  moreover have "mem t a = Some w" using t(6) a(2) slot_not_object [OF start heads a(1)] wo by auto
  ultimately obtain u where u: "SGEN_UPDATE_REFERENCE a c t = Some u" "slot_done C R H E t a u" "load (mem u) c \<noteq> None"
    using store_image [OF start t(2) _ _ wo t(5)] by blast
  moreover have "slot_done C R H E s a u"
    using t(6) wo by (intro slot_done_trans [OF t(2-4) _ u(2)]) auto
  ultimately show ?thesis using t(1) by blast
qed

text \<open>The tests of the code on the object a slot refers to.\<close>

lemma promoted_tests:
  assumes start: "start_ok C R H" and w: "sgen_ptr_in_nursery R w" "\<not> from_space C R w" and v: "load m w = Some v" "8 dvd unat v"
  shows "SGEN_OBJECT_IS_FORWARDED w m = Some 0" "SGEN_OBJECT_IS_PINNED w m = Some False" "\<not> simple_nursery C"
    "sgen_nursery_is_to_space R w = Some True"
proof -
  have "v AND 1 = 0" "v AND 2 = 0" by (rule aligned_low [OF v(2)], simp)+
  then show "SGEN_OBJECT_IS_FORWARDED w m = Some 0" "SGEN_OBJECT_IS_PINNED w m = Some False"
    using v(1) by (simp_all add: SGEN_OBJECT_IS_FORWARDED_def SGEN_OBJECT_IS_PINNED_def tag_defs)
  show "\<not> simple_nursery C" "sgen_nursery_is_to_space R w = Some True"
    using start w unfolding start_ok_def from_space_def by (metis option.exhaust)+
qed

lemma to_space_test:
  assumes "from_space C R w"
  shows "(if simple_nursery C then Some False else sgen_nursery_is_to_space R w) = Some False"
  using assms by (auto simp: from_space_def)

lemma serial_copy_ok:
  assumes start: "start_ok C R H" and services: "services_ok C R" and inv: "collecting C R H E s" and a: "slot H s a"
  shows "\<exists>t. SERIAL_COPY_OBJECT C R a s = Some t \<and> slot_done C R H E s a t"
  using start inv a
proof (cases rule: slot_cases)
  case (outside w)
  then show ?thesis using unchanged_slot [OF inv, of a w] by (simp add: SERIAL_COPY_OBJECT_def settled_def from_space_def)
next
  case (promoted w v)
  note tests = promoted_tests [OF start promoted(3,4,6,7)]
  show ?thesis using unchanged_slot [OF inv promoted(2)] promoted tests by (simp add: SERIAL_COPY_OBJECT_def settled_def)
next
  case (object w)
  have heads: "headers C R H s" using inv by (simp add: collecting_def)
  note read = read_header [OF start heads object(3)]
  show ?thesis
  proof (cases "forwarded_to s w")
    case (Some c)
    then have "c \<noteq> 0" using forwarded_not_from_space(3) [OF start heads object(3)] by blast
    then show ?thesis using Some object read store_image [OF start inv a object(2,3), of c]
      by (auto simp: SERIAL_COPY_OBJECT_def)
  next
    case None
    show ?thesis
    proof (cases "pinned_at s w")
      case True
      then show ?thesis using None object read unchanged_slot [OF inv object(2)] by (simp add: SERIAL_COPY_OBJECT_def settled_def)
    next
      case False
      then have "w \<in> undecided H s" using None object(3) by (simp add: undecided_def)
      then obtain c t u where "copy_object_no_checks C R w s = Some (c, t)" "SGEN_UPDATE_REFERENCE a c t = Some u"
          "slot_done C R H E s a u"
        using copy_and_store [OF start services inv a object(2)] by blast
      then show ?thesis using None False object read to_space_test [OF object(5)] by (simp add: SERIAL_COPY_OBJECT_def)
    qed
  qed
qed

lemma serial_copy_from_obj_ok:
  assumes start: "start_ok C R H" and services: "services_ok C R" and inv: "collecting C R H E s" and a: "slot H s a"
  shows "\<exists>t. SERIAL_COPY_OBJECT_FROM_OBJ C R a s = Some t \<and> slot_done C R H E s a t"
  using start inv a
proof (cases rule: slot_cases)
  case (outside w)
  then show ?thesis using unchanged_slot [OF inv, of a w] by (simp add: SERIAL_COPY_OBJECT_FROM_OBJ_def settled_def from_space_def)
next
  case (promoted w v)
  note tests = promoted_tests [OF start promoted(3,4,6,7)]
  have "slot_done C R H E s a s" using unchanged_slot [OF inv promoted(2)] promoted(4) by (simp add: settled_def)
  then obtain u where "remember R a w s = Some u" "slot_done C R H E s a u" using slot_done_remember promoted(6) by blast
  then show ?thesis using promoted tests by (simp add: SERIAL_COPY_OBJECT_FROM_OBJ_def)
next
  case (object w)
  have heads: "headers C R H s" using inv by (simp add: collecting_def)
  note read = read_header [OF start heads object(3)]
  show ?thesis
  proof (cases "forwarded_to s w")
    case (Some c)
    then have c: "c \<noteq> 0" using forwarded_not_from_space(3) [OF start heads object(3)] by blast
    obtain u where u: "SGEN_UPDATE_REFERENCE a c s = Some u" "slot_done C R H E s a u" "load (mem u) c \<noteq> None"
      using store_image [OF start inv a object(2,3), of c] Some by blast
    obtain u' where "remember R a c u = Some u'" "slot_done C R H E s a u'" using slot_done_remember [OF u(2,3)] by blast
    then show ?thesis using Some c object read u(1,2) by (auto simp: SERIAL_COPY_OBJECT_FROM_OBJ_def)
  next
    case None
    show ?thesis
    proof (cases "pinned_at s w")
      case True
      then have "slot_done C R H E s a s" using unchanged_slot [OF inv object(2)] object(3) by (simp add: settled_def)
      then obtain u where "remember R a w s = Some u" "slot_done C R H E s a u" using slot_done_remember read(3) by blast
      then show ?thesis using True None object read by (simp add: SERIAL_COPY_OBJECT_FROM_OBJ_def)
    next
      case False
      then have "w \<in> undecided H s" using None object(3) by (simp add: undecided_def)
      then obtain c t u where u: "copy_object_no_checks C R w s = Some (c, t)" "SGEN_UPDATE_REFERENCE a c t = Some u"
          "slot_done C R H E s a u" "load (mem u) c \<noteq> None"
        using copy_and_store [OF start services inv a object(2)] by blast
      obtain u' where "remember R a c u = Some u'" "slot_done C R H E s a u'" using slot_done_remember [OF u(3,4)] by blast
      then show ?thesis using None False object read u to_space_test [OF object(5)]
        by (auto simp: SERIAL_COPY_OBJECT_FROM_OBJ_def)
    qed
  qed
qed

lemma handle_ok:
  assumes start: "start_ok C R H" and services: "services_ok C R" and inv: "collecting C R H E s" and a: "slot H s a"
  shows "\<exists>t. HANDLE_PTR C R a s = Some t \<and> slot_done C R H E s a t"
proof -
  obtain w where w: "load (mem s) a = Some w" "mem s a = Some w" using start inv a by (cases rule: slot_cases) auto
  show ?thesis
  proof (cases "w = 0")
    case True
    then show ?thesis using unchanged_slot [OF inv w(2)] w(1) by (simp add: HANDLE_PTR_def settled_def)
  next
    case False
    then show ?thesis using serial_copy_from_obj_ok [OF assms] w(1) by (simp add: HANDLE_PTR_def)
  qed
qed

section \<open>Scanning an object\<close>

definition settled_at :: "gc_collector \<Rightarrow> gc_runtime \<Rightarrow> start_heap \<Rightarrow> gc_state \<Rightarrow> u32 \<Rightarrow> bool" where
  "settled_at C R H s a \<longleftrightarrow> (\<exists>w. mem s a = Some w \<and> settled C R H s w)"

text \<open>The outcome of a sequence of operations on slots: slots that were settled stay so.\<close>

definition advanced :: "gc_collector \<Rightarrow> gc_runtime \<Rightarrow> start_heap \<Rightarrow> u32 set \<Rightarrow> gc_state \<Rightarrow> gc_state \<Rightarrow> bool" where
  "advanced C R H E s t \<longleftrightarrow> collecting C R H E t \<and> progress H s t \<and> work H t \<le> work H s \<and>
     (\<forall>b. slot H s b \<longrightarrow> settled_at C R H s b \<longrightarrow> settled_at C R H t b)"

lemma progress_slot: "progress H s t \<Longrightarrow> slot H s a \<Longrightarrow> slot H t a"
  unfolding slot_def using progress_image by blast

lemma advanced_refl: "collecting C R H E s \<Longrightarrow> advanced C R H E s s"
  by (simp add: advanced_def progress_refl)

lemma advanced_trans: "advanced C R H E s t \<Longrightarrow> advanced C R H E t u \<Longrightarrow> advanced C R H E s u"
  unfolding advanced_def using progress_trans progress_slot by (meson le_trans)

lemma slot_done_advanced:
  assumes start: "start_ok C R H" and heads: "headers C R H s" and s: "slot_done C R H E s a t"
  shows "advanced C R H E s t" "settled_at C R H t a"
proof -
  show a: "settled_at C R H t a" using s by (simp add: slot_done_def settled_at_def)
  have prog: "progress H s t" using s by (simp add: slot_done_def)
  have "settled_at C R H t b" if b: "slot H s b" "settled_at C R H s b" for b
  proof (cases "b = a")
    case False
    obtain w where w: "mem s b = Some w" "settled C R H s w" using b(2) by (auto simp: settled_at_def)
    have "mem t b = mem s b" using s False slot_not_object [OF start heads b(1)] w(1) by (simp add: slot_done_def)
    then show ?thesis using w progress_settled [OF prog w(2)] by (simp add: settled_at_def)
  qed (use a in simp)
  then show "advanced C R H E s t" using s by (simp add: slot_done_def advanced_def)
qed

lemma handle_all_ok:
  assumes "start_ok C R H" "services_ok C R" "collecting C R H E s" "\<forall>a \<in> set as. slot H s a"
  shows "\<exists>t. handle_all C R as s = Some t \<and> advanced C R H E s t \<and> (\<forall>a \<in> set as. settled_at C R H t a)"
  using assms(3,4)
proof (induction as arbitrary: s)
  case Nil
  then show ?case by (simp add: advanced_refl)
next
  case (Cons a as)
  have heads: "headers C R H s" using Cons.prems(1) by (simp add: collecting_def)
  obtain t where t: "HANDLE_PTR C R a s = Some t" "slot_done C R H E s a t"
    using handle_ok [OF assms(1,2) Cons.prems(1)] Cons.prems(2) by auto
  note adv = slot_done_advanced [OF assms(1) heads t(2)]
  have "collecting C R H E t" "progress H s t" using adv(1) by (simp_all add: advanced_def)
  moreover from this have "\<forall>b \<in> set (a # as). slot H t b" using Cons.prems(2) progress_slot by blast
  ultimately obtain u where u: "handle_all C R as t = Some u" "advanced C R H E t u" "\<forall>b \<in> set as. settled_at C R H u b"
    using Cons.IH [of t] by auto
  have "settled_at C R H u a" using u(2) adv(2) \<open>\<forall>b \<in> set (a # as). slot H t b\<close> by (simp add: advanced_def)
  then show ?case using t(1) u advanced_trans [OF adv(1) u(2)] by auto
qed

lemma pinned_vtable:
  assumes start: "start_ok C R H" and heads: "headers C R H s" and p: "p \<in> objects H" "pinned_at s p"
  shows "SGEN_LOAD_VTABLE p (mem s) = Some (vtable_of H p)"
proof -
  note ok = start_object [OF start p(1)]
  obtain vt t where vt: "init H p = Some (vt OR t)" "8 dvd unat vt" "vtable_of H p = vt"
    using init_header [OF ok] by metis
  have "\<exists>v. mem s p = Some v \<and> v AND NOT 7 = vtable_of H p"
    using heads p(1) ok
  proof (cases rule: object_state)
    case kept
    then show ?thesis using vt(1) by (auto simp: vtable_of_def)
  next
    case pinned
    then show ?thesis using vt(2,3) tag_read(1) [of vt 2] by auto
  qed (use p(2) in simp)
  moreover have "4 dvd unat p" using ok by (auto simp: object_ok_def elim: dvdE)
  ultimately show ?thesis
    by (auto simp: SGEN_LOAD_VTABLE_def SGEN_LOAD_VTABLE_UNCHECKED_def load_def SGEN_POINTER_UNTAG_ALL_def
        SGEN_TAGGED_POINTER_MASK_def)
qed

lemma old_word:
  assumes start: "start_ok C R H" and old: "old_memory H s" and p: "p \<in> objects H"
    and i: "1 \<le> i" "i < obj_size H p div 4" "i \<notin> set (ref_words H p)"
  shows "mem s (word_at p i) = init H (word_at p i)"
proof -
  note ok = start_object [OF start]
  have r: "word_at p i \<in> obj_region H p" using i(2) by (rule in_region)
  have "word_at p i \<notin> root_slots H" using start p r unfolding start_ok_def by blast
  moreover have False if q: "q \<in> objects H" "j \<in> set (ref_words H q)" "word_at p i = word_at q j" for q j
  proof -
    have "word_at p i \<in> obj_region H q" using ref_word(3) [OF ok [OF q(1)] q(2)] q(3) by simp
    then have "q = p" using start_apart [OF start q(1) p] r by blast
    moreover have "unat p + obj_size H p \<le> 2 ^ 32" using ok [OF p] by (simp add: object_ok_def)
    ultimately have "i = j" using word_at_inj [OF _ i(2)] ref_word(2) [OF ok [OF q(1)] q(2)] q(3) by metis
    then show False using i(3) q(2) \<open>q = p\<close> by simp
  qed
  ultimately have "word_at p i \<notin> old_slots H s" by (auto simp: old_slots_def)
  moreover have "word_at p i \<notin> objects H" using body_not_object [OF start p i(1,2)] .
  moreover have "init H (word_at p i) \<noteq> None" using ok [OF p] r by (simp add: object_ok_def)
  ultimately show ?thesis using old unfolding old_memory_def by metis
qed

text \<open>The header of an image still holds the vtable and, for an array, the length.\<close>

lemma image_header:
  assumes start: "start_ok C R H" and inv: "collecting C R H E s" and p: "p \<in> objects H" "image s p x"
  shows "8 dvd unat x" "unat x + obj_size H p + 4096 \<le> 2 ^ 32" "x \<noteq> 0"
    "SGEN_LOAD_VTABLE x (mem s) = Some (vtable_of H p)"
    "3 < obj_size H p div 4 \<Longrightarrow> 3 \<notin> set (ref_words H p) \<Longrightarrow> mem s (word_at x 3) = init H (word_at p 3)"
proof -
  have heads: "headers C R H s" and old: "old_memory H s" using inv by (simp_all add: collecting_def)
  note ok = start_object [OF start p(1)]
  have "8 dvd unat x \<and> unat x + obj_size H p + 4096 \<le> 2 ^ 32 \<and> x \<noteq> 0 \<and> SGEN_LOAD_VTABLE x (mem s) = Some (vtable_of H p) \<and>
    (3 < obj_size H p div 4 \<longrightarrow> 3 \<notin> set (ref_words H p) \<longrightarrow> mem s (word_at x 3) = init H (word_at p 3))"
  proof (cases "forwarded_to s p = Some x")
    case True
    have c: "copy_ok C R H s p x" "8 dvd unat (the (init H p))" using forwarded_copy [OF start heads p(1) True] by simp_all
    note vt = unpinned_header [OF ok c(2)]
    have "4 dvd unat x" using c(1) by (auto simp: copy_ok_def elim: dvdE)
    then have "SGEN_LOAD_VTABLE x (mem s) = Some (vtable_of H p)"
      using c(1) vt untag_aligned [OF vt(2)] 
      by (simp add: copy_ok_def SGEN_LOAD_VTABLE_def SGEN_LOAD_VTABLE_UNCHECKED_def load_def SGEN_POINTER_UNTAG_ALL_def SGEN_TAGGED_POINTER_MASK_def del: bit.compl_one)
    then show ?thesis using c(1) by (auto simp: copy_ok_def copied_word_def)
  next
    case False
    then have x: "x = p" "pinned_at s p" using p(2) by (auto simp: image_def)
    have v: "SGEN_LOAD_VTABLE p (mem s) = Some (vtable_of H p)" by (rule pinned_vtable [OF start heads p(1) x(2)])
    have "mem s (word_at p 3) = init H (word_at p 3)" if "3 < obj_size H p div 4" "3 \<notin> set (ref_words H p)"
      using old_word [OF start old p(1)] that by simp
    then show ?thesis using ok v x(1) by (simp add: object_ok_def)
  qed
  then show "8 dvd unat x" "unat x + obj_size H p + 4096 \<le> 2 ^ 32" "x \<noteq> 0"
    "SGEN_LOAD_VTABLE x (mem s) = Some (vtable_of H p)"
    "3 < obj_size H p div 4 \<Longrightarrow> 3 \<notin> set (ref_words H p) \<Longrightarrow> mem s (word_at x 3) = init H (word_at p 3)" by blast+
qed

lemma scan_ok:
  assumes start: "start_ok C R H" and services: "services_ok C R" and inv: "collecting C R H E s"
    and p: "p \<in> objects H" "image s p x"
  shows "\<exists>t. SERIAL_SCAN_OBJECT C R x (gc_descr R (vtable_of H p)) s = Some t \<and> advanced C R H E s t \<and> scanned C R H t p x"
proof -
  let ?vt = "vtable_of H p" and ?z = "obj_size H p"
  let ?desc = "gc_descr R ?vt" and ?len = "the (init H (p + 12))"
  note ok = start_object [OF start p(1)]
  note head = image_header [OF start inv p]
  have d: "described R ?vt ?len ?z (ref_words H p)" using ok by (simp add: object_ok_def)
  have "object_view R x ?desc (mem s) = Some (view_at R ?vt ?len x)"
  proof (cases "is_vector_desc ?desc \<or> is_complex_arr_desc ?desc")
    case True
    then have "16 \<le> ?z" "\<forall>i \<in> set (ref_words H p). 4 \<le> i" using d by (auto simp: described_def has_array_header_def)
    then have w: "3 < ?z div 4" "3 \<notin> set (ref_words H p)" by auto
    have "mem s (x + 12) = init H (p + 12)" using head(5) [OF w] by (simp add: word_at_numeral)
    moreover have "init H (p + 12) \<noteq> None" using ok in_region [OF w(1), of p] by (simp add: object_ok_def word_at_numeral)
    moreover have "4 dvd unat (x + 12)"
      using word_at_aligned [of x 3] head(1,2) w(1) by (auto simp: word_at_numeral elim!: dvdE)
    ultimately have "load (mem s) (x + 12) = Some ?len" by (auto simp: load_def)
    then show ?thesis using True head(4) by (simp add: object_view_def view_at_def)
  next
    case False
    then show ?thesis by (simp add: object_view_def view_at_def)
  qed
  moreover have "scan_object (complex_descriptor R) ?desc (view_at R ?vt ?len x) = Some (map (word_at x) (ref_words H p))"
    using d head(1,2) by (simp add: described_def)
  moreover have "\<forall>a \<in> set (map (word_at x) (ref_words H p)). slot H s a" using p by (auto simp: slot_def)
  then obtain t where "handle_all C R (map (word_at x) (ref_words H p)) s = Some t" "advanced C R H E s t"
      "\<forall>a \<in> set (map (word_at x) (ref_words H p)). settled_at C R H t a"
    using handle_all_ok [OF start services inv] by blast
  ultimately show ?thesis by (auto simp: SERIAL_SCAN_OBJECT_def scanned_def settled_at_def)
qed

section \<open>Draining the gray stack\<close>

lemma image_unique:
  assumes "start_ok C R H" "headers C R H s" "p \<in> objects H" "image s p x" "image s p y"
  shows "x = y"
  using assms(4,5) forwarded_copy(3) [OF assms(1-3)] by (auto simp: image_def)

lemma image_injective:
  assumes start: "start_ok C R H" and heads: "headers C R H s"
    and p: "p \<in> objects H" "image s p x" and q: "q \<in> objects H" "image s q x"
  shows "p = q"
proof (rule ccontr)
  assume ne: "p \<noteq> q"
  have copy: "x \<notin> objects H" if "r \<in> objects H" "forwarded_to s r = Some x" for r
    using forwarded_not_from_space(2) [OF start heads that] .
  show False
  proof (cases "forwarded_to s p = Some x \<and> forwarded_to s q = Some x")
    case True
    then have "region x (obj_size H p) \<inter> region x (obj_size H q) = {}" using heads p q ne unfolding headers_def by blast
    then show False using init_mapped [OF start p(1)] init_mapped [OF start q(1)] region_start by blast
  next
    case False
    then show False using p q ne copy by (auto simp: image_def)
  qed
qed

text \<open>Taking an object from the gray stack makes it the one that is exempt until it is scanned.\<close>

lemma take_gray:
  assumes start: "start_ok C R H" and inv: "collecting C R H {} s"
    and items: "gray_items (gray s) = (x, desc) # rest" and q: "gray_ok q" "gray_items q = rest"
  obtains p where "p \<in> objects H" "image (s\<lparr>gray := q\<rparr>) p x" "desc = gc_descr R (vtable_of H p)"
    "collecting C R H {p} (s\<lparr>gray := q\<rparr>)" "work H (s\<lparr>gray := q\<rparr>) < work H s" "progress H s (s\<lparr>gray := q\<rparr>)" "x \<noteq> 0"
proof -
  let ?t = "s\<lparr>gray := q\<rparr>"
  have heads: "headers C R H s" and images: "gray_images R H s" and scan: "all_scanned C R H {} s"
    using inv by (simp_all add: collecting_def)
  have m: "mem ?t = mem s" by simp
  note same = same_memory [OF m]
  obtain p where p: "p \<in> objects H" "image s p x" "desc = gc_descr R (vtable_of H p)"
    using images items by (auto simp: gray_images_def)
  have "all_scanned C R H {p} ?t"
    unfolding all_scanned_def same
  proof (intro ballI allI impI)
    fix r y assume r: "r \<in> objects H" "image s r y"
    then have "y \<in> fst ` set ((x, desc) # rest) \<or> scanned C R H s r y" using scan items unfolding all_scanned_def by auto
    then show "r \<in> {p} \<or> y \<in> fst ` set (gray_items (gray ?t)) \<or> scanned C R H s r y"
      using image_injective [OF start heads r(1) _ p(1,2)] r(2) q(2) by auto
  qed
  moreover have "gray_images R H ?t" using images items q by (auto simp: gray_images_def same)
  ultimately have "collecting C R H {p} ?t" using inv by (simp add: collecting_def same)
  moreover have "work H ?t < work H s" using items q(2) by (simp add: work_def same)
  moreover have "progress H s ?t" by (simp add: progress_def same)
  ultimately show thesis using p image_header(3) [OF start inv p(1,2)] by (intro that [of p]) (simp_all add: same)
qed

lemma drain_ok:
  assumes start: "start_ok C R H" and services: "services_ok C R" and inv: "collecting C R H {} s"
  shows "\<exists>t. SERIAL_DRAIN_GRAY_STACK C R s = Some (True, t) \<and> advanced C R H {} s t \<and> gray_items (gray t) = []"
  using inv
proof (induction "work H s" arbitrary: s rule: less_induct)
  case less
  have slow: "slow_paths (enqueue_path C) (dequeue_path C)" and ok: "gray_ok (gray s)"
    using services less.prems by (simp_all add: services_ok_def collecting_def gray_images_def)
  show ?case
    using dequeue_pops [OF slow ok, of 0 False]
  proof
    assume e: "gray_items (gray s) = [] \<and> GRAY_OBJECT_DEQUEUE (dequeue_path C) (gray s) 0 False = Some ((0, 0), gray s)"
    then have "SERIAL_DRAIN_GRAY_STACK C R s = Some (True, s)"
      by (subst SERIAL_DRAIN_GRAY_STACK.simps) (simp add: GRAY_OBJECT_DEQUEUE_SERIAL_def)
    then show ?thesis using e advanced_refl [OF less.prems] by blast
  next
    assume "\<exists>e rest q'. gray_items (gray s) = e # rest \<and>
      GRAY_OBJECT_DEQUEUE (dequeue_path C) (gray s) 0 False = Some (e, q') \<and> gray_ok q' \<and> gray_items q' = rest"
    then obtain x desc rest q where e: "gray_items (gray s) = (x, desc) # rest"
        "GRAY_OBJECT_DEQUEUE (dequeue_path C) (gray s) 0 False = Some ((x, desc), q)" "gray_ok q" "gray_items q = rest"
      by auto
    let ?s = "s\<lparr>gray := q\<rparr>"
    obtain p where p: "p \<in> objects H" "image ?s p x" "desc = gc_descr R (vtable_of H p)" "collecting C R H {p} ?s"
        "work H ?s < work H s" "progress H s ?s" "x \<noteq> 0"
      by (rule take_gray [OF start less.prems e(1,3,4)])
    obtain t where t: "SERIAL_SCAN_OBJECT C R x desc ?s = Some t" "advanced C R H {p} ?s t" "scanned C R H t p x"
      using scan_ok [OF start services p(4,1,2)] p(3) by blast
    have coll: "collecting C R H {p} t" "progress H ?s t" "work H t \<le> work H ?s" using t(2) by (simp_all add: advanced_def)
    have "image t p x" using progress_image [OF coll(2) p(1,2)] .
    moreover have "headers C R H t" using coll(1) by (simp add: collecting_def)
    ultimately have "y = x" if "image t p y" for y using image_unique [OF start _ p(1) that] by blast
    then have "collecting C R H {} t" using coll(1) t(3) unfolding collecting_def all_scanned_def by blast
    moreover have "work H t < work H s" using coll(3) p(5) by simp
    ultimately obtain u where u: "SERIAL_DRAIN_GRAY_STACK C R t = Some (True, u)" "advanced C R H {} t u" "gray_items (gray u) = []"
      using less.hyps by blast
    have m: "mem ?s = mem s" by simp
    have "settled_at C R H ?s = settled_at C R H s" by (simp add: settled_at_def fun_eq_iff same_memory(5) [OF m])
    then have st: "advanced C R H {} s t" 
      using t(2) \<open>collecting C R H {} t\<close> \<open>work H t < work H s\<close> progress_trans [OF p(6) coll(2)] 
      unfolding advanced_def same_memory(6) [OF m] by simp
    have "SERIAL_DRAIN_GRAY_STACK C R s = Some (True, u)"
      using e(2) p(7) t(1) u(1) by (subst SERIAL_DRAIN_GRAY_STACK.simps) (simp add: GRAY_OBJECT_DEQUEUE_SERIAL_def)
    then show ?thesis using advanced_trans [OF st u(2)] u(3) by blast
  qed
qed

section \<open>A whole collection\<close>

text \<open>The references of the roots are updated one after the other, then the gray stack is drained.\<close>

fun copy_roots :: "gc_collector \<Rightarrow> gc_runtime \<Rightarrow> u32 list \<Rightarrow> gc_state \<Rightarrow> gc_state option" where
  "copy_roots C R [] s = Some s"
| "copy_roots C R (a # as) s = do { s \<leftarrow> SERIAL_COPY_OBJECT C R a s; copy_roots C R as s }"

definition collect :: "gc_collector \<Rightarrow> gc_runtime \<Rightarrow> u32 list \<Rightarrow> gc_state \<Rightarrow> (bool \<times> gc_state) option" where
  "collect C R roots s = do { s \<leftarrow> copy_roots C R roots s; SERIAL_DRAIN_GRAY_STACK C R s }"

lemma start_collecting:
  assumes start: "start_ok C R H" and s: "start_state R H s"
  shows "collecting C R H {} s"
proof -
  have m: "mem s = init H" using s by (simp add: start_state_def)
  have none: "forwarded_to s p = None" if p: "p \<in> objects H" for p
  proof -
    obtain w where "init H p = Some w" "w AND 1 = 0" using init_header [OF start_object [OF start p]] by metis
    then show ?thesis using m by (simp add: forwarded_to_def)
  qed
  have "headers C R H s" using m none by (simp add: headers_def header_ok_def)
  moreover have "old_memory H s" using m by (simp add: old_memory_def updated_def)
  moreover have "gray_images R H s" using s unfolding gray_images_def start_state_def image_def by blast
  moreover have "all_scanned C R H {} s"
    using s none by (auto simp: all_scanned_def start_state_def image_def scanned_def)
  ultimately show ?thesis by (simp add: collecting_def)
qed

lemma copy_roots_ok:
  assumes "start_ok C R H" "services_ok C R" "collecting C R H E s" "set as \<subseteq> root_slots H"
  shows "\<exists>t. copy_roots C R as s = Some t \<and> advanced C R H E s t \<and> (\<forall>a \<in> set as. settled_at C R H t a)"
  using assms(3,4)
proof (induction as arbitrary: s)
  case Nil
  then show ?case by (simp add: advanced_refl)
next
  case (Cons a as)
  have heads: "headers C R H s" using Cons.prems(1) by (simp add: collecting_def)
  have slot: "slot H u b" if "b \<in> set (a # as)" for b u using that Cons.prems(2) by (auto simp: slot_def)
  obtain t where t: "SERIAL_COPY_OBJECT C R a s = Some t" "slot_done C R H E s a t"
    using serial_copy_ok [OF assms(1,2) Cons.prems(1) slot] by auto
  note adv = slot_done_advanced [OF assms(1) heads t(2)]
  have "collecting C R H E t" using adv(1) by (simp add: advanced_def)
  then obtain u where u: "copy_roots C R as t = Some u" "advanced C R H E t u" "\<forall>b \<in> set as. settled_at C R H u b"
    using Cons.IH [of t] Cons.prems(2) by auto
  have "settled_at C R H u a" using u(2) adv(2) slot [of a t] by (simp add: advanced_def)
  then show ?case using t(1) u advanced_trans [OF adv(1) u(2)] by auto
qed

lemma collection_ok:
  assumes start: "start_ok C R H" and services: "services_ok C R" and s: "start_state R H s" and roots: "set roots \<subseteq> root_slots H"
  shows "\<exists>t. collect C R roots s = Some (True, t) \<and> collecting C R H {} t \<and> gray_items (gray t) = [] \<and>
    (\<forall>a \<in> set roots. settled_at C R H t a)"
proof -
  obtain t where t: "copy_roots C R roots s = Some t" "advanced C R H {} s t" "\<forall>a \<in> set roots. settled_at C R H t a"
    using copy_roots_ok [OF start services start_collecting [OF start s] roots] by blast
  then have "collecting C R H {} t" by (simp add: advanced_def)
  then obtain u where u: "SERIAL_DRAIN_GRAY_STACK C R t = Some (True, u)" "advanced C R H {} t u" "gray_items (gray u) = []"
    using drain_ok [OF start services] by blast
  have "slot H t a" if "a \<in> set roots" for a using that roots by (auto simp: slot_def)
  then have "\<forall>a \<in> set roots. settled_at C R H u a" using t(3) u(2) by (simp add: advanced_def)
  then show ?thesis using t(1) u by (intro exI [of _ u]) (simp add: collect_def advanced_def)
qed

lemma collection_done:
  assumes "start_ok C R H" "services_ok C R" "start_state R H s" "set roots \<subseteq> root_slots H" "collect C R roots s = Some (b, t)"
  shows "b" "collecting C R H {} t" "gray_items (gray t) = []" "\<forall>a \<in> set roots. settled_at C R H t a"
    "\<And>p x. p \<in> objects H \<Longrightarrow> image t p x \<Longrightarrow> scanned C R H t p x"
proof -
  show inv: "collecting C R H {} t" and g: "gray_items (gray t) = []" and "b" "\<forall>a \<in> set roots. settled_at C R H t a"
    using collection_ok [OF assms(1-4)] assms(5) by auto
  then show "scanned C R H t p x" if "p \<in> objects H" "image t p x" for p x
    using that unfolding collecting_def all_scanned_def by fastforce
qed

text \<open>The heap of the example.\<close>

lemma demo_roots: "set [0x30000, 0x30004] \<subseteq> root_slots demo_start"
  by (simp add: demo_start_def)

lemma demo_vtable: "vtable_of demo_start 0x10000 = 0x8000"
  by (simp add: vtable_of_def demo_start_def)

text \<open>
  C12: A nursery collection returns: for every heap whose objects are described by their descriptors, with any number of objects,
  references and cycles, updating the references of any roots and draining the gray stack ends without an
  undefined access or a failed assertion, with an empty gray queue.
\<close>
theorem collection_returns:
  assumes "start_ok C R H" "services_ok C R" "start_state R H s" "set roots \<subseteq> root_slots H"
  shows "\<exists>t. collect C R roots s = Some (True, t) \<and> sgen_gray_object_queue_is_empty (gray t)"
proof -
  obtain t where t: "collect C R roots s = Some (True, t)" "collecting C R H {} t" "gray_items (gray t) = []"
    using collection_ok [OF assms] by blast
  moreover have "gray_ok (gray t)" using t(2) by (simp add: collecting_def gray_images_def)
  ultimately show ?thesis using gray_empty_iff by (auto simp: sgen_gray_object_queue_is_empty_def)
qed

lemma settled_read:
  assumes "start_ok C R H" "headers C R H t" "settled C R H t w"
  shows "w = 0 \<or> \<not> from_space C R w \<or> SGEN_OBJECT_IS_PINNED w (mem t) = Some True"
proof -
  have "SGEN_OBJECT_IS_PINNED w (mem t) = Some True" if "w \<in> objects H" "pinned_at t w"
  proof -
    have "forwarded_to t w = None" using forwarded_copy(3) [OF assms(1,2) that(1)] that(2) by (cases "forwarded_to t w") auto
    then show ?thesis using read_header(2) [OF assms(1,2) that(1)] that(2) by simp
  qed
  then show ?thesis using assms(3) by (auto simp: settled_def)
qed

theorem collection_returns_witness:
  "\<exists>t. collect demo_collector demo_runtime [0x30000, 0x30004] demo_state = Some (True, t) \<and> sgen_gray_object_queue_is_empty (gray t)"
  by (rule collection_returns [OF demo_start_ok demo_services demo_start_state demo_roots])

text \<open>
  C15: After a collection no reference is left to an object that was given up: every root, and every word with
  a reference of an object that was copied or pinned, is null, or refers outside the part of the nursery that
  was collected, or to a pinned object.
\<close>
theorem no_reference_left:
  assumes "start_ok C R H" "services_ok C R" "start_state R H s" "set roots \<subseteq> root_slots H" "collect C R roots s = Some (b, t)"
    and "a \<in> set roots \<or> (\<exists>p \<in> objects H. \<exists>x. image t p x \<and> (\<exists>i \<in> set (ref_words H p). a = word_at x i))"
  shows "\<exists>w. mem t a = Some w \<and> (w = 0 \<or> \<not> from_space C R w \<or> SGEN_OBJECT_IS_PINNED w (mem t) = Some True)"
proof -
  note fin = collection_done [OF assms(1-5)]
  have "settled_at C R H t a" using assms(6) fin(4,5) by (auto simp: scanned_def settled_at_def)
  moreover have "headers C R H t" using fin(2) by (simp add: collecting_def)
  ultimately show ?thesis using settled_read [OF assms(1)] by (auto simp: settled_at_def)
qed

theorem no_reference_left_witness:
  "\<exists>t w. collect demo_collector demo_runtime [0x30000, 0x30004] demo_state = Some (True, t) \<and> mem t 0x30000 = Some w \<and>
    (w = 0 \<or> \<not> from_space demo_collector demo_runtime w \<or> SGEN_OBJECT_IS_PINNED w (mem t) = Some True)"
proof -
  obtain t where t: "collect demo_collector demo_runtime [0x30000, 0x30004] demo_state = Some (True, t)"
    using collection_ok [OF demo_start_ok demo_services demo_start_state demo_roots] by blast
  then show ?thesis
    using no_reference_left [OF demo_start_ok demo_services demo_start_state demo_roots t, of "0x30000"] by simp
qed

text \<open>The word of an image at the end, in terms of the object at the start.\<close>

lemma decided_reference:
  assumes start: "start_ok C R H" and heads: "headers C R H t"
    and v: "reference R H v" "updated H t v v'" and w: "v' = Some w" "settled C R H t w"
  shows "(\<exists>q \<in> objects H. v = Some q \<and> image t q w) \<or> (v' = v \<and> w \<notin> objects H)"
proof (cases "v' = v")
  case True
  show ?thesis
  proof (cases "w \<in> objects H")
    case True
    note ok = start_object [OF start True]
    have "w \<noteq> 0" "from_space C R w" using ok by (simp_all add: object_ok_def)
    then have "pinned_at t w" using w(2) by (auto simp: settled_def)
    then show ?thesis using True \<open>v' = v\<close> w(1) by (auto simp: image_def)
  qed (use True in simp)
next
  case False
  then show ?thesis using v(2) w(1) by (auto simp: updated_def image_def)
qed

lemma image_words:
  assumes start: "start_ok C R H" and inv: "collecting C R H {} t" and scan: "scanned C R H t p x"
    and p: "p \<in> objects H" "image t p x" and i: "1 \<le> i" "i < obj_size H p div 4"
  shows "i \<notin> set (ref_words H p) \<Longrightarrow> mem t (word_at x i) = copied_word R (vtable_of H p) p x (init H) i"
    "i \<in> set (ref_words H p) \<Longrightarrow> (\<exists>q \<in> objects H. \<exists>y. init H (word_at p i) = Some q \<and> mem t (word_at x i) = Some y \<and> image t q y) \<or>
      (mem t (word_at x i) = init H (word_at p i) \<and> (\<forall>q \<in> objects H. init H (word_at p i) \<noteq> Some q))"
proof -
  have heads: "headers C R H t" and old: "old_memory H t" using inv by (simp_all add: collecting_def)
  note ok = start_object [OF start p(1)]
  show "mem t (word_at x i) = copied_word R (vtable_of H p) p x (init H) i" if n: "i \<notin> set (ref_words H p)"
  proof (cases "forwarded_to t p = Some x")
    case True
    then show ?thesis using forwarded_copy(1) [OF start heads p(1) True] i n by (simp add: copy_ok_def)
  next
    case False
    then have x: "x = p" using p(2) by (simp add: image_def)
    have "mem t (word_at p i) = init H (word_at p i)" by (rule old_word [OF start old p(1) i n])
    then show ?thesis unfolding x copied_word_def by (auto simp: option.map_ident)
  qed
  assume r: "i \<in> set (ref_words H p)"
  have "updated H t (init H (word_at p i)) (mem t (word_at x i))"
  proof (cases "forwarded_to t p = Some x")
    case True
    then show ?thesis using forwarded_copy(1) [OF start heads p(1) True] i r by (simp add: copy_ok_def)
  next
    case False
    then have x: "x = p" using p(2) by (simp add: image_def)
    have "word_at p i \<notin> objects H" using body_not_object [OF start p(1) i] .
    moreover have "init H (word_at p i) \<noteq> None" using ref_word(3) [OF ok r] ok by (simp add: object_ok_def)
    ultimately show ?thesis using old unfolding old_memory_def updated_def x by metis
  qed
  moreover obtain w where w: "mem t (word_at x i) = Some w" "settled C R H t w" using scan r by (auto simp: scanned_def)
  ultimately show "(\<exists>q \<in> objects H. \<exists>y. init H (word_at p i) = Some q \<and> mem t (word_at x i) = Some y \<and> image t q y) \<or>
      (mem t (word_at x i) = init H (word_at p i) \<and> (\<forall>q \<in> objects H. init H (word_at p i) \<noteq> Some q))"
    using decided_reference [OF start heads ref_word(5) [OF ok r] _ w] w(1) by auto
qed

text \<open>The objects that can be reached from the roots at the start.\<close>

inductive reachable :: "start_heap \<Rightarrow> u32 list \<Rightarrow> u32 \<Rightarrow> bool" for H roots where
  from_root: "reachable H roots p" if "a \<in> set roots" "init H a = Some p" "p \<in> objects H"
| from_object: "reachable H roots q" if "reachable H roots p" "i \<in> set (ref_words H p)" "init H (word_at p i) = Some q" "q \<in> objects H"

lemma reachable_image:
  assumes start: "start_ok C R H" and roots: "set roots \<subseteq> root_slots H" and inv: "collecting C R H {} t"
    and settled: "\<forall>a \<in> set roots. settled_at C R H t a"
    and scan: "\<And>p x. p \<in> objects H \<Longrightarrow> image t p x \<Longrightarrow> scanned C R H t p x"
    and p: "reachable H roots p"
  shows "p \<in> objects H \<and> (\<exists>x. image t p x)"
  using p
proof (induction rule: reachable.induct)
  case (from_root a p)
  have heads: "headers C R H t" and old: "old_memory H t" using inv by (simp_all add: collecting_def)
  have r: "a \<in> root_slots H" using from_root(1) roots by blast
  then have "a \<in> old_slots H t" "a \<notin> objects H" 
    using slot_not_object [OF start heads, of a] by (simp_all add: old_slots_def slot_def)
  then have u: "updated H t (init H a) (mem t a)" using old from_root(2) unfolding old_memory_def by auto
  have ref: "reference R H (init H a)" using start r by (simp add: start_ok_def)
  obtain w where "mem t a = Some w" "settled C R H t w" using settled from_root(1) by (auto simp: settled_at_def)
  then have "(\<exists>q \<in> objects H. init H a = Some q \<and> image t q w) \<or> (mem t a = init H a \<and> w \<notin> objects H)"
    using decided_reference [OF start heads ref u] by simp
  then show ?case using from_root(2,3) \<open>mem t a = Some w\<close> by auto
next
  case (from_object p i q)
  then obtain x where x: "p \<in> objects H" "image t p x" by blast
  note i = ref_word(1,2) [OF start_object [OF start x(1)] from_object(2)]
  show ?case using image_words(2) [OF start inv scan [OF x] x _ i(2) from_object(2)] i(1) from_object(3,4) by auto
qed

lemma demo_reachable: "reachable demo_start [0x30000, 0x30004] 0x10000"
  by (rule from_root [of "0x30000"]) (simp_all add: demo_start_def)

lemma demo_image:
  assumes "collect demo_collector demo_runtime [0x30000, 0x30004] demo_state = Some (b, t)"
  shows "\<exists>x. image t 0x10000 x"
proof -
  note fin = collection_done [OF demo_start_ok demo_services demo_start_state demo_roots assms]
  show ?thesis using reachable_image [OF demo_start_ok demo_roots fin(2,4,5) demo_reachable] by blast
qed

text \<open>
  C14: A collection moves the objects without changing the heap they form: the image of an object, its copy or the object itself
  when it is pinned, has its vtable; a word with a reference to one of the objects now refers to the image of that
  object, every other reference and every other word is the one of the object, and the pointer to the
  bounds of an array points to the bounds of the copy. Different objects have different images.
\<close>
theorem heap_preserved:
  assumes "start_ok C R H" "services_ok C R" "start_state R H s" "set roots \<subseteq> root_slots H" "collect C R roots s = Some (b, t)"
    and p: "p \<in> objects H" "image t p x"
  shows "SGEN_LOAD_VTABLE x (mem t) = Some (vtable_of H p) \<and>
    (\<forall>i. 1 \<le> i \<and> i < obj_size H p div 4 \<longrightarrow>
      (if i \<in> set (ref_words H p)
       then (\<exists>q \<in> objects H. \<exists>y. init H (word_at p i) = Some q \<and> mem t (word_at x i) = Some y \<and> image t q y) \<or>
         (mem t (word_at x i) = init H (word_at p i) \<and> (\<forall>q \<in> objects H. init H (word_at p i) \<noteq> Some q))
       else mem t (word_at x i) = copied_word R (vtable_of H p) p x (init H) i)) \<and>
    (\<forall>q \<in> objects H. image t q x \<longrightarrow> q = p)"
proof -
  note fin = collection_done [OF assms(1-5)]
  have heads: "headers C R H t" using fin(2) by (simp add: collecting_def)
  note words = image_words [OF assms(1) fin(2) fin(5) [OF p] p]
  show ?thesis
    using image_header(4) [OF assms(1) fin(2) p] words image_injective [OF assms(1) heads _ _ p] by simp
qed

theorem heap_preserved_witness:
  "\<exists>t x. collect demo_collector demo_runtime [0x30000, 0x30004] demo_state = Some (True, t) \<and> image t 0x10000 x \<and>
    mem t (x + 12) = Some 7 \<and> (\<exists>y. mem t (x + 8) = Some y \<and> image t 0x10010 y)"
proof -
  have p: "0x10000 \<in> objects demo_start" "obj_size demo_start 0x10000 = 16" "ref_words demo_start 0x10000 = [2]"
      "init demo_start 0x1000C = Some 7" "init demo_start 0x10008 = Some 0x10010"
    by (simp_all add: demo_start_def)
  obtain t where t: "collect demo_collector demo_runtime [0x30000, 0x30004] demo_state = Some (True, t)"
    using collection_ok [OF demo_start_ok demo_services demo_start_state demo_roots] by blast
  obtain x where x: "image t 0x10000 x" using demo_image [OF t] by blast
  have "\<forall>i. 1 \<le> i \<and> i < obj_size demo_start 0x10000 div 4 \<longrightarrow> (if i \<in> set (ref_words demo_start 0x10000)
      then (\<exists>q \<in> objects demo_start. \<exists>y. init demo_start (word_at 0x10000 i) = Some q \<and> mem t (word_at x i) = Some y \<and> image t q y) \<or>
        (mem t (word_at x i) = init demo_start (word_at 0x10000 i) \<and>
          (\<forall>q \<in> objects demo_start. init demo_start (word_at 0x10000 i) \<noteq> Some q))
      else mem t (word_at x i) = copied_word demo_runtime (vtable_of demo_start 0x10000) 0x10000 x (init demo_start) i)"
    by (rule conjunct1 [OF conjunct2 [OF heap_preserved [OF demo_start_ok demo_services demo_start_state demo_roots t p(1) x]]])
  from spec [OF this, of 2] spec [OF this, of 3]
  have "\<exists>y. mem t (x + 8) = Some y \<and> image t 0x10010 y" "mem t (x + 12) = Some 7"
    using p by (simp_all add: word_at_numeral demo_start_def copied_word_def)
  then show ?thesis using t x by blast
qed

text \<open>
  C13: No object that can be reached is lost: after a collection every object that a chain of references connected to a
  root has an image, that is, it was copied or is pinned.
\<close>
theorem reachable_objects_survive:
  assumes "start_ok C R H" "services_ok C R" "start_state R H s" "set roots \<subseteq> root_slots H" "collect C R roots s = Some (b, t)"
    and "reachable H roots p"
  shows "\<exists>x. image t p x \<and> SGEN_LOAD_VTABLE x (mem t) = Some (vtable_of H p) \<and> (x = p \<or> \<not> from_space C R x)"
proof -
  note fin = collection_done [OF assms(1-5)]
  have heads: "headers C R H t" using fin(2) by (simp add: collecting_def)
  obtain x where x: "p \<in> objects H" "image t p x"
    using reachable_image [OF assms(1,4) fin(2,4,5) assms(6)] by blast
  have "x = p \<or> \<not> from_space C R x"
    using x forwarded_not_from_space(1) [OF assms(1) heads x(1)] by (auto simp: image_def)
  then show ?thesis using x image_header(4) [OF assms(1) fin(2) x] by blast
qed

theorem reachable_objects_survive_witness:
  "\<exists>t x. collect demo_collector demo_runtime [0x30000, 0x30004] demo_state = Some (True, t) \<and> image t 0x10000 x \<and>
    SGEN_LOAD_VTABLE x (mem t) = Some 0x8000"
proof -
  obtain t where t: "collect demo_collector demo_runtime [0x30000, 0x30004] demo_state = Some (True, t)"
    using collection_ok [OF demo_start_ok demo_services demo_start_state demo_roots] by blast
  then show ?thesis
    using reachable_objects_survive [OF demo_start_ok demo_services demo_start_state demo_roots t demo_reachable] demo_vtable by auto
qed

section \<open>The remembered set\<close>

lemma remember_result:
  assumes "remember R a c u = Some t" "\<not> sgen_ptr_in_nursery R a"
  shows "mem t = mem u" "SGEN_OBJECT_IS_CEMENTED c (mem t) = Some True \<or> Global_remset a c \<in> set (calls t)"
  using assms
  by (auto simp: remember_def sgen_add_to_global_remset_def record_call_def split: if_splits bind_splits)

lemma update_result:
  assumes "SGEN_UPDATE_REFERENCE a c t = Some u"
  shows "load (mem u) a = Some c"
  using assms by (auto simp: SGEN_UPDATE_REFERENCE_def on_memory_def store_def load_def split: if_splits)

lemma remember_update:
  assumes "SGEN_UPDATE_REFERENCE a c u = Some v" "remember R a c v = Some t" "load (mem t) a = Some w" "\<not> sgen_ptr_in_nursery R a"
  shows "SGEN_OBJECT_IS_CEMENTED w (mem t) = Some True \<or> Global_remset a w \<in> set (calls t)"
  using remember_result [OF assms(2,4)] update_result [OF assms(1)] assms(3) by simp

text \<open>
  C16: A reference from outside the nursery is never forgotten: when a slot of an object outside of it has been updated and
  still refers into the nursery, to a pinned object or, with a split nursery, to a copy, then the slot has been added
  to the remembered set with this object, or the object is cemented.
\<close>
theorem updated_slot_remembered:
  assumes start: "start_ok C R H" and services: "services_ok C R" and inv: "collecting C R H E s" and a: "slot H s a"
    and t: "SERIAL_COPY_OBJECT_FROM_OBJ C R a s = Some t" "load (mem t) a = Some w"
    and out: "\<not> sgen_ptr_in_nursery R a" "sgen_ptr_in_nursery R w"
  shows "SGEN_OBJECT_IS_CEMENTED w (mem t) = Some True \<or> Global_remset a w \<in> set (calls t)"
  using start inv a
proof (cases rule: slot_cases)
  case (outside v)
  then show ?thesis using t out(2) by (simp add: SERIAL_COPY_OBJECT_FROM_OBJ_def)
next
  case (promoted v x)
  note tests = promoted_tests [OF start promoted(3,4,6,7)]
  have r: "remember R a v s = Some t" using t(1) promoted tests by (simp add: SERIAL_COPY_OBJECT_FROM_OBJ_def)
  then show ?thesis using remember_result [OF r out(1)] promoted(1) t(2) by simp
next
  case (object v)
  have heads: "headers C R H s" using inv by (simp add: collecting_def)
  note read = read_header [OF start heads object(3)]
  show ?thesis
  proof (cases "forwarded_to s v")
    case (Some c)
    note c = forwarded_not_from_space [OF start heads object(3) Some]
    then obtain u where u: "SGEN_UPDATE_REFERENCE a c s = Some u"
        "(if \<not> simple_nursery C \<and> sgen_ptr_in_nursery R c then remember R a c u else Some u) = Some t"
      using t(1) Some object read by (auto simp: SERIAL_COPY_OBJECT_FROM_OBJ_def bind_eq_Some_conv)
    then have "w = c" using t(2) update_result [OF u(1)] remember_result(1) [OF _ out(1), of c u t] by (auto split: if_splits)
    then show ?thesis using u c(1) out t(2) remember_update [OF u(1)] by (auto simp: from_space_def split: if_splits)
  next
    case None
    show ?thesis
    proof (cases "pinned_at s v")
      case True
      have r: "remember R a v s = Some t" using t(1) True None object read by (simp add: SERIAL_COPY_OBJECT_FROM_OBJ_def)
      then show ?thesis using remember_result [OF r out(1)] object(1) t(2) by simp
    next
      case False
      then have und: "v \<in> undecided H s" using None object(3) by (simp add: undecided_def)
      obtain c t' where cp: "copy_object_no_checks C R v s = Some (c, t')" "collecting C R H E t'"
          "forwarded_to t' v = Some c \<or> (c = v \<and> pinned_at t' v)"
        using copy_step [OF start services inv und] by blast
      then obtain u where u: "SGEN_UPDATE_REFERENCE a c t' = Some u"
          "(if (\<not> simple_nursery C \<or> v = c) \<and> sgen_ptr_in_nursery R c then remember R a c u else Some u) = Some t"
        using t(1) None False object read to_space_test [OF object(5)]
        by (auto simp: SERIAL_COPY_OBJECT_FROM_OBJ_def bind_eq_Some_conv)
      have "headers C R H t'" using cp(2) by (simp add: collecting_def)
      then have "c = v \<or> \<not> from_space C R c" using cp(3) forwarded_not_from_space(1) [OF start _ object(3)] by blast
      moreover have "w = c" using u(2) t(2) update_result [OF u(1)] remember_result(1) [OF _ out(1), of c u t] by (auto split: if_splits)
      ultimately show ?thesis using u out t(2) remember_update [OF u(1)] by (auto simp: from_space_def split: if_splits)
    qed
  qed
qed

theorem updated_slot_remembered_witness:
  "\<exists>t. SERIAL_COPY_OBJECT_FROM_OBJ demo_collector demo_runtime 0x30004 demo_state = Some t \<and> load (mem t) 0x30004 = Some 0x10010 \<and>
    (SGEN_OBJECT_IS_CEMENTED 0x10010 (mem t) = Some True \<or> Global_remset 0x30004 0x10010 \<in> set (calls t))"
proof -
  note inv = start_collecting [OF demo_start_ok demo_start_state]
  have a: "slot demo_start demo_state 0x30004" by (simp add: slot_def demo_start_def)
  obtain t where t: "SERIAL_COPY_OBJECT_FROM_OBJ demo_collector demo_runtime 0x30004 demo_state = Some t"
    using serial_copy_from_obj_ok [OF demo_start_ok demo_services inv a] by blast
  have m: "load (mem demo_state) 0x30004 = Some 0x10010" "load (mem demo_state) 0x10010 = Some 0x8002"
    by (simp_all add: load_def demo_state_def demo_start_def)
  have "SERIAL_COPY_OBJECT_FROM_OBJ demo_collector demo_runtime 0x30004 demo_state = remember demo_runtime 0x30004 0x10010 demo_state"
    using m by (simp add: SERIAL_COPY_OBJECT_FROM_OBJ_def demo_nursery SGEN_OBJECT_IS_FORWARDED_def SGEN_OBJECT_IS_PINNED_def tag_defs)
  then have "mem t = mem demo_state" using t remember_result(1) by (simp add: demo_nursery)
  then have w: "load (mem t) 0x30004 = Some 0x10010" using m by simp
  show ?thesis
    using t w updated_slot_remembered [OF demo_start_ok demo_services inv a t w] by (simp add: demo_nursery)
qed

end
