(* ===== verification/ParallelCopy.thy ===== *)
theory ParallelCopy
  imports MinorCopy
begin

text \<open>
  Copying an object in the parallel collector (\<open>copy_object_no_checks_par\<close> of \<open>sgen-copy-object.h\<close>): any number of
  workers may copy the same object at once; each makes a copy of its own, and a compare-and-exchange of
  the vtable word decides which copy counts. A worker is a program counter with its local variables; every access to
  memory that another worker may write is one step, and the steps of the workers interleave in any
  order. Reading the body of an object and writing to a copy that is not yet published are taken as one step
  each. Every worker has its own gray queue. The allocator and \<open>mono_gc_bzero_aligned\<close> are parameters.
\<close>

section \<open>One worker\<close>

record parallel_services =
  alloc_for_promotion_par :: "u32 \<Rightarrow> u32 \<Rightarrow> u32 \<Rightarrow> bool \<Rightarrow> memory \<Rightarrow> u32 \<times> memory"
  mono_gc_bzero_aligned :: "u32 \<Rightarrow> u32 \<Rightarrow> memory \<Rightarrow> memory option"

record par_locals =
  loc_obj :: u32
  loc_vt :: u32
  loc_size :: u32
  loc_refs :: bool
  loc_dest :: u32

datatype par_point =
    Par_idle
  | Par_enter u32                  \<comment> \<open>called for an object\<close>
  | Par_allocate u32 u32           \<comment> \<open>not forwarded, with its vtable word\<close>
  | Par_copy par_locals
  | Par_forward par_locals         \<comment> \<open>about to read the vtable word again\<close>
  | Par_exchange par_locals u32    \<comment> \<open>about to exchange, with the word read\<close>
  | Par_compare par_locals u32     \<comment> \<open>with \<open>final_destination\<close>\<close>
  | Par_return u32 u32             \<comment> \<open>the object and the result\<close>
  | Par_undefined

text \<open>One step of a worker; the gray queue of the state is its own.\<close>

fun copy_object_no_checks_par ::
  "gc_collector \<Rightarrow> gc_runtime \<Rightarrow> parallel_services \<Rightarrow> par_point \<Rightarrow> gc_state \<Rightarrow> (par_point \<times> gc_state) option" where
  "copy_object_no_checks_par C R S (Par_enter obj) s = do {
     vtable_word \<leftarrow> load (mem s) obj;
     let destination = SGEN_VTABLE_IS_FORWARDED vtable_word;
     Some (if destination = 0 then Par_allocate obj vtable_word else Par_return obj destination, s) }"
| "copy_object_no_checks_par C R S (Par_allocate obj vt) s = do {
     let has_references = SGEN_VTABLE_HAS_REFERENCES R vt;
     size \<leftarrow> sgen_client_par_object_get_size R vt obj (mem s);
     let objsize = SGEN_ALIGN_UP size;
     (destination, m) \<leftarrow> Some (alloc_for_promotion_par S vt obj objsize has_references (mem s));
     Some (Par_copy \<lparr>loc_obj = obj, loc_vt = vt, loc_size = objsize, loc_refs = has_references, loc_dest = destination\<rparr>,
       s\<lparr>mem := m\<rparr>) }"
| "copy_object_no_checks_par C R S (Par_copy l) s = do {
     s \<leftarrow> par_copy_object_no_checks C R (loc_dest l) (loc_vt l) (loc_obj l) (loc_size l) s;
     Some (Par_forward l, s) }"
| "copy_object_no_checks_par C R S (Par_forward l) s = do {
     (old_vtable_word, final_fw_addr) \<leftarrow> SGEN_FORWARD_OBJECT_PAR_read (loc_obj l) (mem s);
     Some (if final_fw_addr \<noteq> 0 then Par_compare l final_fw_addr else Par_exchange l old_vtable_word, s) }"
| "copy_object_no_checks_par C R S (Par_exchange l old_vtable_word) s = do {
     (final_fw_addr, m) \<leftarrow> SGEN_FORWARD_OBJECT_PAR_exchange (loc_obj l) (loc_dest l) old_vtable_word (mem s);
     Some (Par_compare l final_fw_addr, s\<lparr>mem := m\<rparr>) }"
| "copy_object_no_checks_par C R S (Par_compare l final_destination) s =
    (if loc_dest l = final_destination then do {
       s \<leftarrow> (if loc_refs l
             then map_option (\<lambda>q. s\<lparr>gray := q\<rparr>)
               (GRAY_OBJECT_ENQUEUE_PARALLEL (enqueue_path C) (gray s) (loc_dest l) (sgen_vtable_get_descriptor R (loc_vt l)))
             else Some s);
       Some (Par_return (loc_obj l) (loc_dest l), s) }
     else do {
       m \<leftarrow> mono_gc_bzero_aligned S (loc_dest l) (loc_size l) (mem s);
       Some (Par_return (loc_obj l) final_destination, s\<lparr>mem := m\<rparr>) })"
| "copy_object_no_checks_par C R S p s = Some (p, s)"

section \<open>All workers\<close>

text \<open>
  The last two fields are ghosts: which worker got an address of the allocator for which object, and whether the allocator
  ever had no room.
\<close>

record par_state =
  shared :: memory
  moves :: "gc_call list"
  queues :: "nat \<Rightarrow> SgenGrayQueue"
  par_points :: "nat \<Rightarrow> par_point"
  allocated :: "u32 \<rightharpoonup> nat \<times> u32"
  exhausted :: bool

datatype par_event = Par_call nat u32 | Par_run nat

definition par_at_rest :: "par_point \<Rightarrow> bool" where
  "par_at_rest p \<longleftrightarrow> (case p of Par_idle \<Rightarrow> True | Par_return _ _ \<Rightarrow> True | _ \<Rightarrow> False)"

text \<open>The address that this step got from the allocator.\<close>

definition allocation :: "par_point \<Rightarrow> par_point \<Rightarrow> (u32 \<times> u32) option" where
  "allocation p p' = (case (p, p') of (Par_allocate _ _, Par_copy l) \<Rightarrow> Some (loc_dest l, loc_obj l) | _ \<Rightarrow> None)"

definition worker_view :: "par_state \<Rightarrow> nat \<Rightarrow> gc_state" where
  "worker_view s t = \<lparr>mem = shared s, gray = queues s t, calls = moves s\<rparr>"

fun par_exec :: "gc_collector \<Rightarrow> gc_runtime \<Rightarrow> parallel_services \<Rightarrow> par_event \<Rightarrow> par_state \<Rightarrow> par_state" where
  "par_exec C R S (Par_call t obj) s =
    (if par_at_rest (par_points s t) then s\<lparr>par_points := (par_points s)(t := Par_enter obj)\<rparr> else s)"
| "par_exec C R S (Par_run t) s =
    (case copy_object_no_checks_par C R S (par_points s t) (worker_view s t) of
       None \<Rightarrow> s\<lparr>par_points := (par_points s)(t := Par_undefined)\<rparr>
     | Some (p, g) \<Rightarrow>
         let got = allocation (par_points s t) p in
         s\<lparr>shared := mem g, moves := calls g, queues := (queues s)(t := gray g), par_points := (par_points s)(t := p),
           allocated := (case got of Some (d, obj) \<Rightarrow> if d = 0 then allocated s else (allocated s)(d \<mapsto> (t, obj)) | None \<Rightarrow> allocated s),
           exhausted := (exhausted s \<or> map_option fst got = Some 0)\<rparr>)"

text \<open>The workers start with empty queues on some memory and are called for objects of a set.\<close>

definition par_start :: "memory \<Rightarrow> (nat \<Rightarrow> SgenGrayQueue) \<Rightarrow> par_state" where
  "par_start m qs = \<lparr>shared = m, moves = [], queues = qs, par_points = (\<lambda>_. Par_idle), allocated = (\<lambda>_. None), exhausted = False\<rparr>"

inductive par_reachable ::
  "gc_collector \<Rightarrow> gc_runtime \<Rightarrow> parallel_services \<Rightarrow> memory \<Rightarrow> u32 set \<Rightarrow> par_state \<Rightarrow> bool" for C R S m objs where
  start: "par_reachable C R S m objs (par_start m qs)" if "\<forall>t. gray_ok (qs t) \<and> gray_items (qs t) = []"
| called: "par_reachable C R S m objs (par_exec C R S (Par_call t obj) s)" if "par_reachable C R S m objs s" "obj \<in> objs"
| ran: "par_reachable C R S m objs (par_exec C R S (Par_run t) s)" if "par_reachable C R S m objs s"

end
