(* ===== verification/ParallelCopyProps.thy ===== *)
theory ParallelCopyProps
  imports ParallelCopy CollectionDemo
begin

text \<open>
  The race of the parallel collector: under every interleaving of any number of workers an object gets one new
  address, which all calls return, its copy is complete and lies on at most one gray queue, and every call returns after
  at most six steps of its own worker.
\<close>

section \<open>What the parameters promise\<close>

definition bzero_ok :: "parallel_services \<Rightarrow> bool" where
  "bzero_ok S \<longleftrightarrow> (\<forall>d z m. 8 dvd unat d \<longrightarrow> 8 dvd unat z \<longrightarrow> (\<forall>a \<in> region d (unat z). m a \<noteq> None) \<longrightarrow>
     (\<exists>m'. mono_gc_bzero_aligned S d z m = Some m' \<and> (\<forall>a. m' a = (if a \<in> region d (unat z) then Some 0 else m a))))"

definition parallel_ok :: "gc_collector \<Rightarrow> gc_runtime \<Rightarrow> parallel_services \<Rightarrow> bool" where
  "parallel_ok C R S \<longleftrightarrow> allocator_ok (C\<lparr>alloc_for_promotion := alloc_for_promotion_par S\<rparr>) R \<and> bzero_ok S \<and>
     slow_paths (enqueue_path C) (dequeue_path C)"

text \<open>The objects that are copied: a heap as for the serial collector, in which none of them is pinned.\<close>

definition race_ok :: "gc_collector \<Rightarrow> gc_runtime \<Rightarrow> start_heap \<Rightarrow> bool" where
  "race_ok C R H \<longleftrightarrow> start_ok C R H \<and> (\<forall>p \<in> objects H. 8 dvd unat (the (init H p))) \<and> init H 4 = None"

section \<open>Vtable words\<close>

lemma read_plain: "8 dvd unat w \<Longrightarrow> SGEN_VTABLE_IS_FORWARDED w = 0"
  using aligned_low [of w 1] by (simp add: SGEN_VTABLE_IS_FORWARDED_def tag_defs)

lemma read_forwarded: "8 dvd unat c \<Longrightarrow> SGEN_VTABLE_IS_FORWARDED (c OR 1) = c"
  using tag_read [of c 1] by (simp add: SGEN_VTABLE_IS_FORWARDED_def tag_defs)

lemma forwarded_inject: "8 dvd unat (c :: u32) \<Longrightarrow> 8 dvd unat d \<Longrightarrow> c OR 1 = d OR 1 \<longleftrightarrow> c = d"
  using read_forwarded by metis

lemma forwarded_not_plain: "8 dvd unat (c :: u32) \<Longrightarrow> 8 dvd unat w \<Longrightarrow> c \<noteq> 0 \<Longrightarrow> c OR 1 \<noteq> w"
  using read_forwarded read_plain by metis

section \<open>The invariant\<close>

text \<open>The copy of an object at an address is complete.\<close>

definition complete :: "gc_runtime \<Rightarrow> start_heap \<Rightarrow> memory \<Rightarrow> u32 \<Rightarrow> u32 \<Rightarrow> bool" where
  "complete R H m p c \<longleftrightarrow> m c = Some (vtable_of H p) \<and>
     (\<forall>i. 1 \<le> i \<and> i < obj_size H p div 4 \<longrightarrow> m (word_at c i) = copied_word R (vtable_of H p) p c (init H) i)"

text \<open>The addresses of the allocator: mapped, new, and apart from each other.\<close>

definition allocations :: "gc_collector \<Rightarrow> gc_runtime \<Rightarrow> start_heap \<Rightarrow> par_state \<Rightarrow> bool" where
  "allocations C R H s \<longleftrightarrow> (\<forall>d t p. allocated s d = Some (t, p) \<longrightarrow> p \<in> objects H \<and> d \<noteq> 0 \<and> 8 dvd unat d \<and>
       unat d + obj_size H p + 4096 \<le> 2 ^ 32 \<and> \<not> from_space C R d \<and>
       (\<forall>a \<in> region d (obj_size H p). shared s a \<noteq> None \<and> init H a = None)) \<and>
     (\<forall>d e t u p q. allocated s d = Some (t, p) \<longrightarrow> allocated s e = Some (u, q) \<longrightarrow> d \<noteq> e \<longrightarrow>
       region d (obj_size H p) \<inter> region e (obj_size H q) = {}) \<and> shared s 4 = None"

text \<open>The objects: untouched or forwarded to a complete copy; their bodies are never written.\<close>

definition forwards :: "gc_runtime \<Rightarrow> start_heap \<Rightarrow> par_state \<Rightarrow> bool" where
  "forwards R H s \<longleftrightarrow> (\<forall>p \<in> objects H. shared s p = init H p \<or>
       (\<exists>c t. shared s p = Some (c OR 1) \<and> allocated s c = Some (t, p) \<and> complete R H (shared s) p c)) \<and>
     (\<forall>a. init H a \<noteq> None \<longrightarrow> a \<notin> objects H \<longrightarrow> shared s a = init H a)"

definition locals_ok :: "gc_runtime \<Rightarrow> start_heap \<Rightarrow> par_locals \<Rightarrow> bool" where
  "locals_ok R H l \<longleftrightarrow> loc_obj l \<in> objects H \<and> loc_vt l = vtable_of H (loc_obj l) \<and> unat (loc_size l) = obj_size H (loc_obj l) \<and>
     loc_refs l = SGEN_VTABLE_HAS_REFERENCES R (vtable_of H (loc_obj l))"

text \<open>A copy of worker \<open>t\<close> that is not published.\<close>

definition private_copy :: "par_state \<Rightarrow> nat \<Rightarrow> par_locals \<Rightarrow> bool" where
  "private_copy s t l \<longleftrightarrow> allocated s (loc_dest l) = Some (t, loc_obj l) \<and> shared s (loc_obj l) \<noteq> Some (loc_dest l OR 1)"

fun worker_ok :: "gc_runtime \<Rightarrow> start_heap \<Rightarrow> par_state \<Rightarrow> nat \<Rightarrow> par_point \<Rightarrow> bool" where
  "worker_ok R H s t Par_idle = True"
| "worker_ok R H s t (Par_enter p) = (p \<in> objects H)"
| "worker_ok R H s t (Par_allocate p vt) = (p \<in> objects H \<and> vt = vtable_of H p)"
| "worker_ok R H s t (Par_copy l) = (locals_ok R H l \<and>
     (if loc_dest l = 0 then exhausted s else private_copy s t l \<and> shared s (loc_dest l) = Some (loc_vt l)))"
| "worker_ok R H s t (Par_forward l) = (locals_ok R H l \<and> private_copy s t l \<and> complete R H (shared s) (loc_obj l) (loc_dest l))"
| "worker_ok R H s t (Par_exchange l w) = (locals_ok R H l \<and> private_copy s t l \<and>
     complete R H (shared s) (loc_obj l) (loc_dest l) \<and> w = vtable_of H (loc_obj l))"
| "worker_ok R H s t (Par_compare l c) = (locals_ok R H l \<and> allocated s (loc_dest l) = Some (t, loc_obj l) \<and>
     shared s (loc_obj l) = Some (c OR 1) \<and> 8 dvd unat c \<and> c \<noteq> 0 \<and> loc_dest l \<notin> fst ` set (gray_items (queues s t)))"
| "worker_ok R H s t (Par_return p c) = (p \<in> objects H \<and> shared s p = Some (c OR 1) \<and> 8 dvd unat c \<and> c \<noteq> 0)"
| "worker_ok R H s t Par_undefined = exhausted s"

definition queues_ok :: "gc_runtime \<Rightarrow> start_heap \<Rightarrow> par_state \<Rightarrow> nat \<Rightarrow> bool" where
  "queues_ok R H s t \<longleftrightarrow> gray_ok (queues s t) \<and> distinct (map fst (gray_items (queues s t))) \<and>
     (\<forall>(x, desc) \<in> set (gray_items (queues s t)). \<exists>p \<in> objects H. shared s p = Some (x OR 1) \<and> allocated s x = Some (t, p) \<and>
        desc = gc_descr R (vtable_of H p) \<and> SGEN_VTABLE_HAS_REFERENCES R (vtable_of H p))"

text \<open>A published copy with references is on a queue, or the worker that made it is about to put it there.\<close>

definition queued_or_due :: "par_state \<Rightarrow> u32 \<Rightarrow> u32 \<Rightarrow> bool" where
  "queued_or_due s p c \<longleftrightarrow> (\<exists>t. c \<in> fst ` set (gray_items (queues s t))) \<or>
     (\<exists>t l. par_points s t = Par_compare l c \<and> loc_dest l = c \<and> loc_obj l = p)"

definition published :: "gc_runtime \<Rightarrow> start_heap \<Rightarrow> par_state \<Rightarrow> bool" where
  "published R H s \<longleftrightarrow> (\<forall>p \<in> objects H. \<forall>c. shared s p = Some (c OR 1) \<longrightarrow> 8 dvd unat c \<longrightarrow> c \<noteq> 0 \<longrightarrow>
     SGEN_VTABLE_HAS_REFERENCES R (vtable_of H p) \<longrightarrow> queued_or_due s p c)"

definition race_inv :: "gc_collector \<Rightarrow> gc_runtime \<Rightarrow> start_heap \<Rightarrow> par_state \<Rightarrow> bool" where
  "race_inv C R H s \<longleftrightarrow> allocations C R H s \<and> forwards R H s \<and> (\<forall>t. worker_ok R H s t (par_points s t)) \<and>
     (\<forall>t. queues_ok R H s t) \<and> published R H s"

section \<open>What one worker's step leaves alone\<close>

definition par_frame :: "start_heap \<Rightarrow> nat \<Rightarrow> par_state \<Rightarrow> par_state \<Rightarrow> bool" where
  "par_frame H t s s' \<longleftrightarrow>
     (\<forall>d u p. allocated s d = Some (u, p) \<longrightarrow> allocated s' d = Some (u, p)) \<and> (exhausted s \<longrightarrow> exhausted s') \<and>
     (\<forall>u. u \<noteq> t \<longrightarrow> queues s' u = queues s u \<and> par_points s' u = par_points s u) \<and>
     (\<forall>d u p. allocated s d = Some (u, p) \<longrightarrow> u \<noteq> t \<or> shared s p = Some (d OR 1) \<longrightarrow>
        (\<forall>a \<in> region d (obj_size H p). shared s' a = shared s a)) \<and>
     (\<forall>a. init H a \<noteq> None \<longrightarrow> a \<notin> objects H \<longrightarrow> shared s' a = shared s a) \<and>
     (\<forall>p \<in> objects H. shared s' p = shared s p \<or>
        (shared s p = init H p \<and> (\<exists>d. shared s' p = Some (d OR 1) \<and> allocated s d = Some (t, p))))"

lemma race_header:
  assumes "race_ok C R H" "p \<in> objects H"
  shows "init H p = Some (vtable_of H p)" "8 dvd unat (vtable_of H p)" "4 dvd unat p" "8 \<le> obj_size H p"
proof -
  have ok: "object_ok C R H p" using assms start_object by (simp add: race_ok_def)
  have "8 dvd unat (the (init H p))" using assms by (simp add: race_ok_def)
  from unpinned_header [OF ok this] show "init H p = Some (vtable_of H p)" "8 dvd unat (vtable_of H p)" by simp_all
  show "4 dvd unat p" "8 \<le> obj_size H p" using ok by (auto simp: object_ok_def elim: dvdE)
qed

lemma allocated_facts:
  assumes "allocations C R H s" "allocated s d = Some (t, p)"
  shows "p \<in> objects H" "d \<noteq> 0" "8 dvd unat d" "unat d + obj_size H p + 4096 \<le> 2 ^ 32"
    "\<forall>a \<in> region d (obj_size H p). shared s a \<noteq> None \<and> init H a = None"
    "allocated s e = Some (u, q) \<Longrightarrow> d \<noteq> e \<Longrightarrow> region d (obj_size H p) \<inter> region e (obj_size H q) = {}"
  using assms unfolding allocations_def by blast+

lemma header_stays:
  assumes "race_ok C R H" "par_frame H t s s'" "p \<in> objects H" "shared s p = Some (c OR 1)" "8 dvd unat c" "c \<noteq> 0"
  shows "shared s' p = Some (c OR 1)"
proof -
  have "shared s p \<noteq> init H p" using race_header [OF assms(1,3)] forwarded_not_plain [OF assms(5) _ assms(6)] assms(4) by auto
  then show ?thesis using assms(2-4) by (auto simp: par_frame_def)
qed

lemma complete_region:
  assumes "race_ok C R H" "p \<in> objects H" "\<forall>a \<in> region d (obj_size H p). m' a = m a" "complete R H m p d"
  shows "complete R H m' p d"
proof -
  have "m' d = m d" using assms(3) race_header(4) [OF assms(1,2)] region_start by blast
  moreover have "m' (word_at d i) = m (word_at d i)" if "i < obj_size H p div 4" for i
    using assms(3) in_region [OF that] by blast
  ultimately show ?thesis using assms(4) by (simp add: complete_def)
qed

lemma private_frame:
  assumes race: "race_ok C R H" and allocs: "allocations C R H s" and frame: "par_frame H t s s'"
    and u: "u \<noteq> t" and p: "private_copy s u l" "loc_obj l \<in> objects H"
  shows "private_copy s' u l" "\<forall>a \<in> region (loc_dest l) (obj_size H (loc_obj l)). shared s' a = shared s a"
    "shared s' (loc_dest l) = shared s (loc_dest l)"
proof -
  have a: "allocated s (loc_dest l) = Some (u, loc_obj l)" "shared s (loc_obj l) \<noteq> Some (loc_dest l OR 1)"
    using p by (simp_all add: private_copy_def)
  show r: "\<forall>a \<in> region (loc_dest l) (obj_size H (loc_obj l)). shared s' a = shared s a"
    using frame a(1) u unfolding par_frame_def by blast
  show "shared s' (loc_dest l) = shared s (loc_dest l)" using r race_header(4) [OF race p(2)] region_start by blast
  have "shared s' (loc_obj l) \<noteq> Some (loc_dest l OR 1)"
  proof
    assume f: "shared s' (loc_obj l) = Some (loc_dest l OR 1)"
    then obtain d where d: "d OR 1 = loc_dest l OR 1" "allocated s d = Some (t, loc_obj l)"
      using frame a(2) p(2) unfolding par_frame_def by fastforce
    then have "d = loc_dest l"
      using allocated_facts(3) [OF allocs d(2)] allocated_facts(3) [OF allocs a(1)] forwarded_inject by simp
    then show False using d(2) a(1) u by simp
  qed
  then show "private_copy s' u l" using frame a(1) by (auto simp: private_copy_def par_frame_def)
qed

lemma worker_frame:
  assumes race: "race_ok C R H" and allocs: "allocations C R H s" and frame: "par_frame H t s s'" and u: "u \<noteq> t"
    and ok: "worker_ok R H s u P"
  shows "worker_ok R H s' u P"
proof -
  note priv = private_frame [OF race allocs frame u]
  have q: "queues s' u = queues s u" "exhausted s \<longrightarrow> exhausted s'" using frame u by (simp_all add: par_frame_def)
  note stays = header_stays [OF race frame]
  have comp: "complete R H (shared s') (loc_obj l) (loc_dest l)"
    if "private_copy s u l" "loc_obj l \<in> objects H" "complete R H (shared s) (loc_obj l) (loc_dest l)" for l
    using complete_region [OF race that(2) priv(2) [OF that(1,2)] that(3)] .
  show ?thesis
  proof (cases P)
    case (Par_copy l)
    then show ?thesis using ok q priv [of l] by (auto simp: locals_ok_def)
  next
    case (Par_forward l)
    then show ?thesis using ok priv(1) comp by (simp add: locals_ok_def)
  next
    case (Par_exchange l w)
    then show ?thesis using ok priv(1) comp by (simp add: locals_ok_def)
  next
    case (Par_compare l c)
    then have "shared s' (loc_obj l) = Some (c OR 1)" using ok stays by (simp add: locals_ok_def)
    moreover have "allocated s' (loc_dest l) = Some (u, loc_obj l)" using ok frame Par_compare by (simp add: par_frame_def)
    ultimately show ?thesis using ok q Par_compare by simp
  next
    case (Par_return p c)
    then show ?thesis using ok stays by simp
  qed (use ok q in simp_all)
qed

lemma queues_frame:
  assumes race: "race_ok C R H" and allocs: "allocations C R H s" and frame: "par_frame H t s s'" and q: "queues s' u = queues s u"
    and ok: "queues_ok R H s u"
  shows "queues_ok R H s' u"
proof -
  have "shared s' p = Some (x OR 1) \<and> allocated s' x = Some (u, p)"
    if "p \<in> objects H" "shared s p = Some (x OR 1)" "allocated s x = Some (u, p)" for p x
    using header_stays [OF race frame that(1,2)] allocated_facts(2,3) [OF allocs that(3)] that(3) frame
    by (simp add: par_frame_def)
  then show ?thesis using ok q unfolding queues_ok_def by fastforce
qed

section \<open>The invariant is kept\<close>

lemma race_step:
  assumes race: "race_ok C R H" and inv: "race_inv C R H s" and frame: "par_frame H t s s'" and allocs: "allocations C R H s'"
    and new: "\<forall>p \<in> objects H. shared s' p = shared s p \<or>
      (\<exists>l. shared s' p = Some (loc_dest l OR 1) \<and> loc_obj l = p \<and> allocated s (loc_dest l) = Some (t, p) \<and>
        complete R H (shared s') p (loc_dest l) \<and> par_points s' t = Par_compare l (loc_dest l))"
    and own: "worker_ok R H s' t (par_points s' t)" "queues_ok R H s' t"
    and due: "\<forall>l. par_points s t = Par_compare l (loc_dest l) \<longrightarrow> loc_refs l \<longrightarrow>
      loc_dest l \<in> fst ` set (gray_items (queues s' t))"
    and grows: "set (gray_items (queues s t)) \<subseteq> set (gray_items (queues s' t))"
  shows "race_inv C R H s'"
proof -
  have old: "allocations C R H s" "forwards R H s" "published R H s" 
    and workers: "worker_ok R H s u (par_points s u)" "queues_ok R H s u" for u
    using inv by (simp_all add: race_inv_def)
  have others: "par_points s' u = par_points s u \<and> queues s' u = queues s u" if "u \<noteq> t" for u
    using frame that by (simp add: par_frame_def)
  have "worker_ok R H s' u (par_points s' u)" for u
    using own(1) others worker_frame [OF race old(1) frame _ workers(1)] by (cases "u = t") simp_all
  moreover have "queues_ok R H s' u" for u
    using own(2) others queues_frame [OF race old(1) frame _ workers(2)] by (cases "u = t") simp_all
  moreover have "forwards R H s'"
    unfolding forwards_def
  proof (intro conjI ballI allI impI)
    fix p assume p: "p \<in> objects H"
    show "shared s' p = init H p \<or>
      (\<exists>c t. shared s' p = Some (c OR 1) \<and> allocated s' c = Some (t, p) \<and> complete R H (shared s') p c)"
    proof (cases "shared s' p = shared s p")
      case True
      consider "shared s p = init H p"
        | c u where "shared s p = Some (c OR 1)" "allocated s c = Some (u, p)" "complete R H (shared s) p c"
        using old(2) p unfolding forwards_def by blast
      then show ?thesis
      proof cases
        case 2
        have "\<forall>a \<in> region c (obj_size H p). shared s' a = shared s a" using frame 2(1,2) unfolding par_frame_def by blast
        then have "complete R H (shared s') p c" using complete_region [OF race p _ 2(3)] by blast
        moreover have "allocated s' c = Some (u, p)" using frame 2(2) by (simp add: par_frame_def)
        ultimately show ?thesis using True 2(1) by auto
      qed (use True in simp)
    next
      case False
      then obtain l :: par_locals where l: "shared s' p = Some (loc_dest l OR 1)" "allocated s (loc_dest l) = Some (t, p)"
          "complete R H (shared s') p (loc_dest l)"
        using new p by blast
      moreover have "allocated s' (loc_dest l) = Some (t, p)" using frame l(2) by (simp add: par_frame_def)
      ultimately show ?thesis by blast
    qed
  next
    fix a assume "init H a \<noteq> None" "a \<notin> objects H"
    then show "shared s' a = init H a" using old(2) frame by (simp add: forwards_def par_frame_def)
  qed
  moreover have "published R H s'"
    unfolding published_def
  proof (intro ballI allI impI)
    fix p c assume p: "p \<in> objects H" "shared s' p = Some (c OR 1)" "8 dvd unat c" "c \<noteq> 0"
      and refs: "SGEN_VTABLE_HAS_REFERENCES R (vtable_of H p)"
    show "queued_or_due s' p c"
    proof (cases "shared s' p = shared s p")
      case True
      then have "queued_or_due s p c" using old(3) p refs by (simp add: published_def)
      then consider u where "c \<in> fst ` set (gray_items (queues s u))"
        | u l where "par_points s u = Par_compare l c" "loc_dest l = c" "loc_obj l = p"
        unfolding queued_or_due_def by blast
      then show ?thesis
      proof cases
        case (1 u)
        then have "c \<in> fst ` set (gray_items (queues s' u))" using others grows by (cases "u = t") auto
        then show ?thesis by (auto simp: queued_or_due_def)
      next
        case (2 u l)
        then have "loc_refs l" using workers(1) [of u] refs by (simp add: locals_ok_def)
        then have "u = t \<Longrightarrow> c \<in> fst ` set (gray_items (queues s' t))" using due 2 by auto
        then show ?thesis using 2 others [of u] unfolding queued_or_due_def by metis
      qed
    next
      case False
      then obtain l where l: "shared s' p = Some (loc_dest l OR 1)" "loc_obj l = p" "allocated s (loc_dest l) = Some (t, p)"
          "par_points s' t = Par_compare l (loc_dest l)"
        using new p(1) by blast
      have "c = loc_dest l" using l(1) p(2,3) allocated_facts(3) [OF old(1) l(3)] forwarded_inject [of c "loc_dest l"] by simp
      then show ?thesis using l unfolding queued_or_due_def by blast
    qed
  qed
  ultimately show ?thesis using allocs by (simp add: race_inv_def)
qed

text \<open>A step that writes no memory and gets none from the allocator.\<close>

lemma read_step:
  assumes race: "race_ok C R H" and inv: "race_inv C R H s"
    and s': "shared s' = shared s" "allocated s' = allocated s" "exhausted s' = exhausted s" "queues s' = queues s"
      "par_points s' = (par_points s)(t := P)"
    and own: "worker_ok R H s t P" and due: "\<forall>l. par_points s t = Par_compare l (loc_dest l) \<longrightarrow> \<not> loc_refs l"
  shows "race_inv C R H s'"
proof (rule race_step [OF race inv])
  show frame: "par_frame H t s s'" using s' by (simp add: par_frame_def)
  have old: "allocations C R H s" "queues_ok R H s t" using inv by (simp_all add: race_inv_def)
  then show "allocations C R H s'" using s' by (simp add: allocations_def)
  show "queues_ok R H s' t" using queues_frame [OF race old(1) frame _ old(2)] s' by simp
  show "worker_ok R H s' t (par_points s' t)" 
    using own s' by (cases P) (auto simp: private_copy_def)
qed (use s' due in auto)

text \<open>The header of an object as any worker reads it.\<close>

lemma race_read:
  assumes race: "race_ok C R H" and inv: "race_inv C R H s" and p: "p \<in> objects H"
  obtains (plain) "load (shared s) p = Some (vtable_of H p)" "shared s p = init H p" "SGEN_VTABLE_IS_FORWARDED (vtable_of H p) = 0"
  | (forwarded) c where "load (shared s) p = Some (c OR 1)" "shared s p = Some (c OR 1)" "8 dvd unat c" "c \<noteq> 0"
      "SGEN_VTABLE_IS_FORWARDED (c OR 1) = c"
proof -
  note head = race_header [OF race p]
  have "allocations C R H s" "forwards R H s" using inv by (simp_all add: race_inv_def)
  then consider "shared s p = init H p" | c where "shared s p = Some (c OR 1)" "8 dvd unat c" "c \<noteq> 0"
    using p allocated_facts(2,3) unfolding forwards_def by blast
  then show thesis
  proof cases
    case 1
    then show thesis using head read_plain by (intro plain) (simp_all add: load_def)
  next
    case (2 c)
    then show thesis using head read_forwarded by (intro forwarded) (simp_all add: load_def)
  qed
qed

lemma race_body:
  assumes race: "race_ok C R H" and inv: "race_inv C R H s" and p: "p \<in> objects H" and i: "1 \<le> i" "i < obj_size H p div 4"
  shows "shared s (word_at p i) = init H (word_at p i)" "init H (word_at p i) \<noteq> None"
proof -
  have start: "start_ok C R H" using race by (simp add: race_ok_def)
  show m: "init H (word_at p i) \<noteq> None" using start_object [OF start p] in_region [OF i(2)] by (simp add: object_ok_def)
  show "shared s (word_at p i) = init H (word_at p i)"
    using inv body_not_object [OF start p i] m by (simp add: race_inv_def forwards_def)
qed

lemma run_read:
  assumes "copy_object_no_checks_par C R S (par_points s t) (worker_view s t) = Some (P, worker_view s t)"
    "allocation (par_points s t) P = None"
  shows "shared (par_exec C R S (Par_run t) s) = shared s" "allocated (par_exec C R S (Par_run t) s) = allocated s"
    "exhausted (par_exec C R S (Par_run t) s) = exhausted s" "queues (par_exec C R S (Par_run t) s) = queues s"
    "par_points (par_exec C R S (Par_run t) s) = (par_points s)(t := P)"
  using assms by (simp_all add: worker_view_def)

lemma quiet_step:
  assumes race: "race_ok C R H" and inv: "race_inv C R H s"
    and run: "copy_object_no_checks_par C R S (par_points s t) (worker_view s t) = Some (P, worker_view s t)"
    and alloc: "allocation (par_points s t) P = None" and own: "worker_ok R H s t P"
    and due: "\<forall>l. par_points s t = Par_compare l (loc_dest l) \<longrightarrow> \<not> loc_refs l"
  shows "race_inv C R H (par_exec C R S (Par_run t) s)"
  by (rule read_step [OF race inv run_read [OF run alloc] own due])

lemma enter_step:
  assumes race: "race_ok C R H" and inv: "race_inv C R H s" and point: "par_points s t = Par_enter p"
  shows "race_inv C R H (par_exec C R S (Par_run t) s)"
proof -
  have p: "p \<in> objects H" using inv point by (metis race_inv_def worker_ok.simps(2))
  have due: "\<forall>l. par_points s t = Par_compare l (loc_dest l) \<longrightarrow> \<not> loc_refs l" using point by simp
  show ?thesis
    using race inv p
  proof (cases rule: race_read)
    case plain
    then have run: "copy_object_no_checks_par C R S (par_points s t) (worker_view s t) =
        Some (Par_allocate p (vtable_of H p), worker_view s t)"
      using point by (simp add: worker_view_def)
    show ?thesis using p point by (intro quiet_step [OF race inv run _ _ due]) (simp_all add: allocation_def)
  next
    case (forwarded c)
    then have run: "copy_object_no_checks_par C R S (par_points s t) (worker_view s t) = Some (Par_return p c, worker_view s t)"
      using point by (simp add: worker_view_def)
    show ?thesis using p forwarded point by (intro quiet_step [OF race inv run _ _ due]) (simp_all add: allocation_def)
  qed
qed

lemma forward_step:
  assumes race: "race_ok C R H" and inv: "race_inv C R H s" and point: "par_points s t = Par_forward l"
  shows "race_inv C R H (par_exec C R S (Par_run t) s)"
proof -
  have ok: "locals_ok R H l" "private_copy s t l" "complete R H (shared s) (loc_obj l) (loc_dest l)"
    using inv point by (metis race_inv_def worker_ok.simps(5))+
  then have p: "loc_obj l \<in> objects H" by (simp add: locals_ok_def)
  have due: "\<forall>l. par_points s t = Par_compare l (loc_dest l) \<longrightarrow> \<not> loc_refs l" using point by simp
  show ?thesis
    using race inv p
  proof (cases rule: race_read)
    case plain
    then have run: "copy_object_no_checks_par C R S (par_points s t) (worker_view s t) =
        Some (Par_exchange l (vtable_of H (loc_obj l)), worker_view s t)"
      using point by (simp add: worker_view_def SGEN_FORWARD_OBJECT_PAR_read_def)
    show ?thesis using ok point by (intro quiet_step [OF race inv run _ _ due]) (simp_all add: allocation_def)
  next
    case (forwarded c)
    then have run: "copy_object_no_checks_par C R S (par_points s t) (worker_view s t) = Some (Par_compare l c, worker_view s t)"
      using point by (simp add: worker_view_def SGEN_FORWARD_OBJECT_PAR_read_def)
    have own: "allocated s (loc_dest l) = Some (t, loc_obj l)" "loc_dest l \<noteq> c"
      using ok(2) forwarded(2) by (auto simp: private_copy_def)
    have q: "queues_ok R H s t" using inv by (simp add: race_inv_def)
    have "loc_dest l \<notin> fst ` set (gray_items (queues s t))"
    proof
      assume "loc_dest l \<in> fst ` set (gray_items (queues s t))"
      then have "shared s (loc_obj l) = Some (loc_dest l OR 1)" using q own(1) unfolding queues_ok_def by fastforce
      then show False using ok(2) by (simp add: private_copy_def)
    qed
    then show ?thesis
      using ok own forwarded point by (intro quiet_step [OF race inv run _ _ due]) (simp_all add: allocation_def)
  qed
qed

text \<open>Writing into a copy that is not published.\<close>

lemma write_private:
  assumes race: "race_ok C R H" and inv: "race_inv C R H s" and d: "allocated s d = Some (t, p)" "shared s p \<noteq> Some (d OR 1)"
    and m: "\<forall>a. a \<notin> region d (obj_size H p) \<longrightarrow> shared s' a = shared s a" "\<forall>a \<in> region d (obj_size H p). shared s' a \<noteq> None"
    and s': "allocated s' = allocated s" "exhausted s' = exhausted s" "queues s' = queues s" "\<forall>u. u \<noteq> t \<longrightarrow> par_points s' u = par_points s u"
  shows "par_frame H t s s'" "allocations C R H s'" "queues_ok R H s' t" "\<forall>q \<in> objects H. shared s' q = shared s q"
proof -
  have old: "allocations C R H s" "queues_ok R H s t" using inv by (simp_all add: race_inv_def)
  note facts = allocated_facts [OF old(1) d(1)]
  have fresh: "shared s' a = shared s a" if "init H a \<noteq> None" for a
    using m(1) facts(5) that by (cases "a \<in> region d (obj_size H p)") auto
  have start: "start_ok C R H" using race by (simp add: race_ok_def)
  show objs: "\<forall>q \<in> objects H. shared s' q = shared s q" using fresh init_mapped [OF start] by blast
  have "shared s' a = shared s a" if e: "allocated s e = Some (u, q)" "u \<noteq> t \<or> shared s q = Some (e OR 1)" "a \<in> region e (obj_size H q)" for e u q a
  proof -
    have "e \<noteq> d" using e d by auto
    then show ?thesis using facts(6) [OF e(1)] e(3) m(1) by blast
  qed
  then show frame: "par_frame H t s s'" using s' fresh objs by (simp add: par_frame_def)
  have "shared s 4 = None" using old(1) by (simp add: allocations_def)
  then have "4 \<notin> region d (obj_size H p)" using facts(5) by blast
  then have "shared s' 4 = None" using m(1) \<open>shared s 4 = None\<close> by simp
  moreover have "shared s' a \<noteq> None" if "shared s a \<noteq> None" for a using m that by (cases "a \<in> region d (obj_size H p)") auto
  ultimately show "allocations C R H s'" using old(1) s'(1) unfolding allocations_def by metis
  show "queues_ok R H s' t" using queues_frame [OF race old(1) frame _ old(2)] s'(3) by simp
qed

lemma private_not_queued:
  assumes "queues_ok R H s t" "private_copy s t l"
  shows "loc_dest l \<notin> fst ` set (gray_items (queues s t))"
proof
  assume "loc_dest l \<in> fst ` set (gray_items (queues s t))"
  then have "shared s (loc_obj l) = Some (loc_dest l OR 1)" using assms unfolding queues_ok_def private_copy_def by fastforce
  then show False using assms(2) by (simp add: private_copy_def)
qed

lemma race_geometry:
  assumes "race_ok C R H" "p \<in> objects H"
  shows "8 dvd unat p" "unat p + obj_size H p \<le> 2 ^ 32" "8 dvd obj_size H p" "vtable_rank R (vtable_of H p) \<noteq> 0 \<longrightarrow> 16 \<le> obj_size H p"
    "\<forall>a \<in> obj_region H p. init H a \<noteq> None"
proof -
  have "object_ok C R H p" using assms start_object by (simp add: race_ok_def)
  then show "8 dvd unat p" "unat p + obj_size H p \<le> 2 ^ 32" "8 dvd obj_size H p" "vtable_rank R (vtable_of H p) \<noteq> 0 \<longrightarrow> 16 \<le> obj_size H p"
    "\<forall>a \<in> obj_region H p. init H a \<noteq> None"
    by (auto simp: object_ok_def described_def has_array_header_def)
qed

lemma null_copy_fails:
  assumes "mem g 4 = None" "8 \<le> unat z"
  shows "par_copy_object_no_checks C R 0 vt obj z g = None"
proof -
  have "unat (z - 4) = unat z - 4" using assms(2) unat_sub [of 4 z] by (simp add: word_le_nat_alt)
  then obtain n where n: "unat (z - 4) div 4 = Suc n" using assms(2) by (cases "unat (z - 4) div 4") auto
  have "copy_words (Suc n) 4 (obj + 4) (mem g) = None" using assms(1) by (simp add: store_def bind_eq_None_conv)
  then have "memcpy 4 (obj + 4) (unat (z - 4) div 4) (mem g) = None" unfolding memcpy_def n by simp
  then show ?thesis by (simp add: par_copy_object_no_checks_def on_memory_def)
qed

lemma copy_race_step:
  assumes race: "race_ok C R H" and inv: "race_inv C R H s" and point: "par_points s t = Par_copy l"
  shows "race_inv C R H (par_exec C R S (Par_run t) s)"
proof -
  let ?p = "loc_obj l" and ?d = "loc_dest l" and ?g = "worker_view s t"
  have w: "worker_ok R H s t (Par_copy l)" and old: "allocations C R H s" using inv point by (metis race_inv_def)+
  then have l: "locals_ok R H l" by simp
  then have p: "?p \<in> objects H" and vt: "loc_vt l = vtable_of H ?p" "unat (loc_size l) = obj_size H ?p"
    by (simp_all add: locals_ok_def)
  note geo = race_geometry [OF race p] and head = race_header [OF race p]
  have due: "\<forall>l. par_points s t = Par_compare l (loc_dest l) \<longrightarrow> \<not> loc_refs l" using point by simp
  show ?thesis
  proof (cases "?d = 0")
    case True
    have "mem ?g 4 = None" using old by (simp add: allocations_def worker_view_def)
    then have "par_copy_object_no_checks C R 0 (loc_vt l) ?p (loc_size l) ?g = None" using vt(2) head(4) by (intro null_copy_fails) simp_all
    then have run: "par_exec C R S (Par_run t) s = s\<lparr>par_points := (par_points s)(t := Par_undefined)\<rparr>"
      using point True by simp
    show ?thesis using w True unfolding run
      by (intro read_step [OF race inv, where P = Par_undefined, OF _ _ _ _ _ _ due]) simp_all
  next
    case False
    then have priv: "allocated s ?d = Some (t, ?p)" "shared s ?p \<noteq> Some (?d OR 1)" "shared s ?d = Some (loc_vt l)"
      using w by (simp_all add: private_copy_def)
    note facts = allocated_facts [OF old priv(1)]
    have body: "shared s a = init H a \<or> a = ?p" if a: "a \<in> obj_region H ?p" for a
    proof -
      obtain i where i: "i < obj_size H ?p div 4" "a = word_at ?p i" using a by (rule regionE)
      then show ?thesis using race_body [OF race inv p, of i] by (cases "i = 0") auto
    qed
    have "shared s ?p \<noteq> None" by (rule race_read [OF race inv p]) (use head in auto)
    then have mapped: "\<forall>a \<in> region ?d (obj_size H ?p) \<union> obj_region H ?p. mem ?g a \<noteq> None"
      using facts(5) body geo(5) by (auto simp: worker_view_def) (metis option.distinct(1))
    have disjoint: "region ?d (obj_size H ?p) \<inter> obj_region H ?p = {}" using facts(5) geo(5) by blast
    obtain g where g: "par_copy_object_no_checks C R ?d (loc_vt l) ?p (loc_size l) ?g = Some g" "gray g = queues s t" "mem g ?d = shared s ?d"
        "\<forall>i. 1 \<le> i \<and> i < obj_size H ?p div 4 \<longrightarrow> mem g (word_at ?d i) = copied_word R (loc_vt l) ?p ?d (shared s) i"
        "\<forall>a. a \<notin> region ?d (obj_size H ?p) \<longrightarrow> mem g a = shared s a"
      using par_copy_result [OF facts(3) _ geo(1,2) head(4) geo(3) vt(2) _ mapped disjoint, of R "loc_vt l" C] facts(4) geo(4) vt(1)
      by (auto simp: worker_view_def)
    let ?s = "par_exec C R S (Par_run t) s"
    have run: "shared ?s = mem g" "allocated ?s = allocated s" "exhausted ?s = exhausted s" "queues ?s = queues s"
        "par_points ?s = (par_points s)(t := Par_forward l)"
      using point g(1,2) by (simp_all add: allocation_def)
    have copied: "mem g (word_at ?d i) = copied_word R (vtable_of H ?p) ?p ?d (init H) i" if i: "1 \<le> i" "i < obj_size H ?p div 4" for i
    proof -
      have "copied_word R (vtable_of H ?p) ?p ?d (shared s) i = copied_word R (vtable_of H ?p) ?p ?d (init H) i"
      proof (cases "i = 2 \<or> vtable_rank R (vtable_of H ?p) \<noteq> 0")
        case True
        then have "2 < obj_size H ?p div 4" using i(2) geo(4) by auto
        then show ?thesis using i race_body [OF race inv p, of i] race_body [OF race inv p, of 2] by (intro copied_word_cong) auto
      next
        case False
        then show ?thesis using race_body(1) [OF race inv p i] by (simp add: copied_word_def)
      qed
      then show ?thesis using g(4) i vt(1) by simp
    qed
    have comp: "complete R H (shared ?s) ?p ?d" using g(3) priv(3) vt(1) copied run(1) by (simp add: complete_def)
    have full: "mem g a \<noteq> None" if a: "a \<in> region ?d (obj_size H ?p)" for a
    proof -
      obtain i where i: "i < obj_size H ?p div 4" "a = word_at ?d i" using a by (rule regionE)
      show ?thesis
      proof (cases "i = 0")
        case False
        have "init H (word_at ?p i) \<noteq> None" using race_body(2) [OF race inv p] False i by simp
        then show ?thesis using copied [of i] i False by (auto simp: copied_word_def)
      qed (use i g(3) priv(3) in simp)
    qed
    note wr = write_private [OF race inv priv(1,2), of "?s", OF _ _ run(2-4)]
    have frame: "par_frame H t s ?s" "allocations C R H ?s" "queues_ok R H ?s t" "\<forall>q \<in> objects H. shared ?s q = shared s q"
      using wr g(5) run full by simp_all
    show ?thesis
    proof (rule race_step [OF race inv frame(1,2)])
      show "worker_ok R H ?s t (par_points ?s t)"
        using l comp priv run(2,5) frame(4) p by (simp add: private_copy_def)
    qed (use frame point run in auto)
  qed
qed

lemma size_ignores_header:
  "sgen_client_par_object_get_size R vt ob (m(ob := v)) = sgen_client_par_object_get_size R vt ob m"
proof -
  have "load (m(ob := v)) (ob + 8) = load m (ob + 8)" "load (m(ob := v)) (ob + 12) = load m (ob + 12)"
    by (simp_all add: load_def)
  then show ?thesis
    by (simp add: sgen_client_par_object_get_size_def sgen_client_slow_object_get_size_def sgen_mono_array_size_def Let_def)
qed

lemma race_size:
  assumes race: "race_ok C R H" and inv: "race_inv C R H s" and p: "p \<in> objects H"
  obtains k where "sgen_client_par_object_get_size R (vtable_of H p) p (shared s) = Some k" "unat (SGEN_ALIGN_UP k) = obj_size H p"
proof -
  have "object_ok C R H p" using race p start_object by (simp add: race_ok_def)
  then obtain k where k: "unat (SGEN_ALIGN_UP k) = obj_size H p"
      "\<forall>m. (\<forall>a \<in> obj_region H p. m a = init H a) \<longrightarrow> sgen_client_par_object_get_size R (vtable_of H p) p m = Some k"
    unfolding object_ok_def by blast
  let ?m = "(shared s)(p := init H p)"
  have "?m a = init H a" if a: "a \<in> obj_region H p" for a
  proof -
    obtain i where i: "i < obj_size H p div 4" "a = word_at p i" using a by (rule regionE)
    then show ?thesis using race_body [OF race inv p, of i] by (cases "i = 0") auto
  qed
  then have "sgen_client_par_object_get_size R (vtable_of H p) p ?m = Some k" using k(2) by blast
  then show thesis using k(1) that unfolding size_ignores_header by blast
qed

lemma unallocated_not_forwarded:
  assumes race: "race_ok C R H" and inv: "race_inv C R H s" and p: "p \<in> objects H"
    and d: "allocated s d = None" "8 dvd unat d" "d \<noteq> 0"
  shows "shared s p \<noteq> Some (d OR 1)"
proof
  assume f: "shared s p = Some (d OR 1)"
  have old: "allocations C R H s" "forwards R H s" using inv by (simp_all add: race_inv_def)
  note head = race_header [OF race p]
  have "shared s p \<noteq> init H p" using f head forwarded_not_plain [OF d(2) head(2) d(3)] by simp
  then obtain c t where "d OR 1 = c OR 1" "allocated s c = Some (t, p)" using old(2) p f unfolding forwards_def by (metis option.inject)
  then show False using forwarded_inject [OF d(2) allocated_facts(3) [OF old(1)]] d(1) by force
qed

lemma allocate_race_step:
  assumes race: "race_ok C R H" and services: "parallel_ok C R S" and inv: "race_inv C R H s" and point: "par_points s t = Par_allocate p vt"
  shows "race_inv C R H (par_exec C R S (Par_run t) s)"
proof -
  have p: "p \<in> objects H" and vt: "vt = vtable_of H p" using inv point by (metis race_inv_def worker_ok.simps(3))+
  have old: "allocations C R H s" "forwards R H s" "queues_ok R H s t" using inv by (simp_all add: race_inv_def)
  obtain k where k: "sgen_client_par_object_get_size R vt p (shared s) = Some k" "unat (SGEN_ALIGN_UP k) = obj_size H p"
    using race_size [OF race inv p] vt by metis
  let ?z = "obj_size H p" and ?refs = "SGEN_VTABLE_HAS_REFERENCES R vt" and ?s = "par_exec C R S (Par_run t) s"
  obtain d m where alloc: "alloc_for_promotion_par S vt p (SGEN_ALIGN_UP k) ?refs (shared s) = (d, m)" by fastforce
  let ?l = "\<lparr>loc_obj = p, loc_vt = vt, loc_size = SGEN_ALIGN_UP k, loc_refs = ?refs, loc_dest = d\<rparr>"
  have run: "shared ?s = m" "queues ?s = queues s" "par_points ?s = (par_points s)(t := Par_copy ?l)"
      "allocated ?s = (if d = 0 then allocated s else (allocated s)(d \<mapsto> (t, p)))" "exhausted ?s = (exhausted s \<or> d = 0)"
    using point k(1) alloc by (auto simp: worker_view_def allocation_def)
  have l: "locals_ok R H ?l" using p vt k(2) by (simp add: locals_ok_def)
  have z: "8 \<le> ?z" "8 dvd ?z" using race_header(4) [OF race p] race_geometry(3) [OF race p] by simp_all
  let ?C = "C\<lparr>alloc_for_promotion := alloc_for_promotion_par S\<rparr>"
  let ?k = "SGEN_ALIGN_UP k"
  have space: "from_space ?C R = from_space C R" by (simp add: from_space_def fun_eq_iff)
  have "allocator_ok ?C R" using services by (simp add: parallel_ok_def)
  moreover have "8 \<le> unat ?k" "8 dvd unat ?k" using z k(2) by simp_all
  moreover have "alloc_for_promotion ?C vt p ?k ?refs (shared s) = (d, m)" using alloc by simp
  ultimately have "(d = 0 \<and> m = shared s) \<or> (d \<noteq> 0 \<and> 8 dvd unat d \<and> unat d + unat ?k + 4096 \<le> 2 ^ 32 \<and> \<not> from_space ?C R d \<and>
      (\<forall>a \<in> region d (unat ?k). shared s a = None \<and> m a \<noteq> None) \<and> m d = Some vt \<and> (\<forall>a. a \<notin> region d (unat ?k) \<longrightarrow> m a = shared s a))"
    unfolding allocator_ok_def by blast
  then have room: "(d = 0 \<and> m = shared s) \<or> (d \<noteq> 0 \<and> 8 dvd unat d \<and> unat d + ?z + 4096 \<le> 2 ^ 32 \<and> \<not> from_space C R d \<and>
      (\<forall>a \<in> region d ?z. shared s a = None \<and> m a \<noteq> None) \<and> m d = Some vt \<and> (\<forall>a. a \<notin> region d ?z \<longrightarrow> m a = shared s a))"
    unfolding space k(2) .
  then have keep: "m a = shared s a" if "shared s a \<noteq> None" for a using that by (cases "a \<in> region d ?z") auto
  have start: "start_ok C R H" using race by (simp add: race_ok_def)
  have mapped: "shared s a \<noteq> None" if "init H a \<noteq> None" for a
  proof (cases "a \<in> objects H")
    case True
    show ?thesis by (rule race_read [OF race inv True]) (use race_header(1) [OF race True] in auto)
  qed (use old(2) that in \<open>simp add: forwards_def\<close>)
  have fresh: "allocated s d = None" if "d \<noteq> 0"
  proof (cases "allocated s d")
    case (Some v)
    obtain u q where "allocated s d = Some (u, q)" using Some by (cases v) auto
    from allocated_facts(1,5) [OF old(1) this] have "shared s d \<noteq> None"
      using race_header(4) [OF race] region_start by blast
    then show ?thesis using room that region_start [OF z(1), of d] by auto
  qed
  have frame: "par_frame H t s ?s"
    unfolding par_frame_def
  proof (intro conjI allI impI ballI)
    show "allocated ?s e = Some (u, q)" if "allocated s e = Some (u, q)" for e u q
      using that run(4) fresh by (auto split: if_splits)
    show "shared ?s a = shared s a" if "allocated s e = Some (u, q)" "a \<in> region e (obj_size H q)" for e u q a
      using allocated_facts(5) [OF old(1) that(1)] that(2) keep run(1) by simp
    show "shared ?s a = shared s a" if "init H a \<noteq> None" for a using keep mapped [OF that] run(1) by simp
    show "shared ?s q = shared s q \<or> (shared s q = init H q \<and> (\<exists>d. shared ?s q = Some (d OR 1) \<and> allocated s d = Some (t, q)))"
      if "q \<in> objects H" for q
      using keep mapped init_mapped [OF start that] run(1) by simp
  qed (use run in auto)
  have allocs: "allocations C R H ?s"
  proof (cases "d = 0")
    case True
    then show ?thesis using room old(1) run by (simp add: allocations_def)
  next
    case False
    then have r: "8 dvd unat d" "unat d + ?z + 4096 \<le> 2 ^ 32" "\<not> from_space C R d" "\<forall>a \<in> region d ?z. shared s a = None \<and> m a \<noteq> None"
        "\<forall>a. a \<notin> region d ?z \<longrightarrow> m a = shared s a"
      using room by simp_all
    have al: "allocated ?s = (allocated s)(d \<mapsto> (t, p))" using run(4) False by simp
    have "4 \<notin> region d ?z"
    proof
      assume "4 \<in> region d ?z"
      then obtain i where i: "i < ?z div 4" "4 = word_at d i" by (rule regionE)
      have "unat (word_at d i) = unat d + 4 * i" using r(2) i(1) by (intro word_at_unat) linarith
      moreover have "unat d \<noteq> 0" using False by (simp add: unat_eq_0)
      then have "8 \<le> unat d" using r(1) dvd_imp_le by blast
      moreover have "unat (word_at d i) = 4" unfolding i(2) [symmetric] by simp
      ultimately show False by linarith
    qed
    then have four: "m 4 = None" using r(5) old(1) by (simp add: allocations_def)
    have new: "init H a = None" if "a \<in> region d ?z" for a using mapped r(4) that by blast
    have others: "region e (obj_size H q) \<inter> region d ?z = {}" if "allocated s e = Some (u, q)" for e u q
      using allocated_facts(5) [OF old(1) that] r(4) by auto
    show ?thesis
      unfolding allocations_def al run(1)
    proof (intro conjI allI impI)
      fix e u q assume e: "((allocated s)(d \<mapsto> (t, p))) e = Some (u, q)"
      show "q \<in> objects H" "e \<noteq> 0" "8 dvd unat e" "unat e + obj_size H q + 4096 \<le> 2 ^ 32" "\<not> from_space C R e"
          "\<forall>a \<in> region e (obj_size H q). m a \<noteq> None \<and> init H a = None"
        using e False p r new old(1) keep by (auto simp: allocations_def split: if_splits)
      fix e' u' q' assume e': "((allocated s)(d \<mapsto> (t, p))) e' = Some (u', q')" and ne: "e \<noteq> e'"
      show "region e (obj_size H q) \<inter> region e' (obj_size H q') = {}"
        using e e' ne others allocated_facts(6) [OF old(1)] by (auto split: if_splits)
    qed (rule four)
  qed
  have own: "worker_ok R H ?s t (par_points ?s t)"
  proof (cases "d = 0")
    case True
    then show ?thesis using l run by simp
  next
    case False
    have "shared ?s p = shared s p" using keep mapped init_mapped [OF start p] run(1) by simp
    then have "private_copy ?s t ?l"
      using unallocated_not_forwarded [OF race inv p fresh [OF False]] room False run(4) by (simp add: private_copy_def)
    then show ?thesis using l room False run by simp
  qed
  show ?thesis
  proof (rule race_step [OF race inv frame allocs _ own])
    show "queues_ok R H ?s t" using queues_frame [OF race old(1) frame _ old(3)] run(2) by simp
    have "shared ?s q = shared s q" if "q \<in> objects H" for q using keep mapped init_mapped [OF start that] run(1) by simp
    then show "\<forall>q \<in> objects H. shared ?s q = shared s q \<or> (\<exists>l. shared ?s q = Some (loc_dest l OR 1) \<and> loc_obj l = q \<and>
        allocated s (loc_dest l) = Some (t, q) \<and> complete R H (shared ?s) q (loc_dest l) \<and> par_points ?s t = Par_compare l (loc_dest l))"
      by blast
  qed (use point run in auto)
qed

lemma exchange_race_step:
  assumes race: "race_ok C R H" and inv: "race_inv C R H s" and point: "par_points s t = Par_exchange l w"
  shows "race_inv C R H (par_exec C R S (Par_run t) s)"
proof -
  let ?p = "loc_obj l" and ?d = "loc_dest l" and ?s = "par_exec C R S (Par_run t) s"
  have ok: "locals_ok R H l" "private_copy s t l" "complete R H (shared s) ?p ?d" "w = vtable_of H ?p"
    using inv point by (metis race_inv_def worker_ok.simps(6))+
  have p: "?p \<in> objects H" using ok(1) by (simp add: locals_ok_def)
  have old: "allocations C R H s" "queues_ok R H s t" using inv by (simp_all add: race_inv_def)
  have own: "allocated s ?d = Some (t, ?p)" using ok(2) by (simp add: private_copy_def)
  note facts = allocated_facts [OF old(1) own] and head = race_header [OF race p]
  have queue: "?d \<notin> fst ` set (gray_items (queues s t))" by (rule private_not_queued [OF old(2) ok(2)])
  show ?thesis
    using race inv p
  proof (cases rule: race_read)
    case plain
    let ?m = "(shared s)(?p \<mapsto> ?d OR 1)"
    have "SGEN_FORWARD_OBJECT_PAR_exchange ?p ?d w (shared s) = Some (?d, ?m)"
      using plain head ok(4) by (simp add: SGEN_FORWARD_OBJECT_PAR_exchange_def store_def tag_defs)
    then have run: "shared ?s = ?m" "allocated ?s = allocated s" "exhausted ?s = exhausted s" "queues ?s = queues s"
        "par_points ?s = (par_points s)(t := Par_compare l ?d)"
      using point by (simp_all add: worker_view_def allocation_def)
    have outside: "?p \<notin> region e (obj_size H q)" if "allocated s e = Some (u, q)" for e u q
      using allocated_facts(5) [OF old(1) that] head(1) by auto
    have frame: "par_frame H t s ?s"
      using run outside p plain(2) own by (auto simp: par_frame_def)
    have "complete R H (shared ?s) ?p ?d"
    proof (rule complete_region [OF race p _ ok(3)])
      show "\<forall>a \<in> region ?d (obj_size H ?p). shared ?s a = shared s a" using run(1) outside [OF own] by auto
    qed
    then have new: "\<forall>q \<in> objects H. shared ?s q = shared s q \<or> (\<exists>l. shared ?s q = Some (loc_dest l OR 1) \<and> loc_obj l = q \<and>
        allocated s (loc_dest l) = Some (t, q) \<and> complete R H (shared ?s) q (loc_dest l) \<and> par_points ?s t = Par_compare l (loc_dest l))"
      using run own by auto
    have "shared ?s 4 = None"
      using old(1) run(1) facts(1) race_header(1) [OF race facts(1)] race by (auto simp: allocations_def race_ok_def)
    then have allocs: "allocations C R H ?s" using old(1) run(1,2) outside unfolding allocations_def by auto
    show ?thesis
    proof (rule race_step [OF race inv frame allocs new])
      show "worker_ok R H ?s t (par_points ?s t)" using ok(1) own run queue facts(2,3) by simp
      show "queues_ok R H ?s t" using queues_frame [OF race old(1) frame _ old(2)] run(4) by simp
    qed (use point run in auto)
  next
    case (forwarded c)
    have "c OR 1 \<noteq> w" using forwarded_not_plain [OF forwarded(3) head(2) forwarded(4)] ok(4) by simp
    then have "SGEN_FORWARD_OBJECT_PAR_exchange ?p ?d w (shared s) = Some (c, shared s)"
      using forwarded by (simp add: SGEN_FORWARD_OBJECT_PAR_exchange_def)
    then have run: "copy_object_no_checks_par C R S (par_points s t) (worker_view s t) = Some (Par_compare l c, worker_view s t)"
      using point by (simp add: worker_view_def)
    have due: "\<forall>l. par_points s t = Par_compare l (loc_dest l) \<longrightarrow> \<not> loc_refs l" using point by simp
    show ?thesis using ok(1) own forwarded point queue
      by (intro quiet_step [OF race inv run _ _ due]) (simp_all add: allocation_def)
  qed
qed

lemma compare_race_step:
  assumes race: "race_ok C R H" and services: "parallel_ok C R S" and inv: "race_inv C R H s" and point: "par_points s t = Par_compare l c"
  shows "race_inv C R H (par_exec C R S (Par_run t) s)"
proof -
  let ?p = "loc_obj l" and ?d = "loc_dest l" and ?s = "par_exec C R S (Par_run t) s"
  have ok: "locals_ok R H l" "allocated s ?d = Some (t, ?p)" "shared s ?p = Some (c OR 1)" "8 dvd unat c" "c \<noteq> 0"
      "?d \<notin> fst ` set (gray_items (queues s t))"
    using inv point by (metis race_inv_def worker_ok.simps(7))+
  have p: "?p \<in> objects H" using ok(1) by (simp add: locals_ok_def)
  have old: "allocations C R H s" "queues_ok R H s t" using inv by (simp_all add: race_inv_def)
  note facts = allocated_facts [OF old(1) ok(2)]
  show ?thesis
  proof (cases "?d = c")
    case won: True
    show ?thesis
    proof (cases "loc_refs l")
      case True
      let ?desc = "gc_descr R (loc_vt l)"
      have "slow_paths (enqueue_path C) (dequeue_path C)" "gray_ok (queues s t)"
        using services old(2) by (simp_all add: parallel_ok_def queues_ok_def)
      then obtain q where q: "GRAY_OBJECT_ENQUEUE_PARALLEL (enqueue_path C) (queues s t) ?d ?desc = Some q" "gray_ok q"
          "gray_items q = (?d, ?desc) # gray_items (queues s t)"
        using enqueue_pushes unfolding GRAY_OBJECT_ENQUEUE_PARALLEL_def by metis
      have run: "shared ?s = shared s" "allocated ?s = allocated s" "exhausted ?s = exhausted s" "queues ?s = (queues s)(t := q)"
          "par_points ?s = (par_points s)(t := Par_return ?p c)"
        using point won True q(1) by (simp_all add: worker_view_def allocation_def sgen_vtable_get_descriptor_def)
      have frame: "par_frame H t s ?s" using run by (simp add: par_frame_def)
      have "queues_ok R H ?s t"
        using old(2) q(2,3) run ok won p True unfolding queues_ok_def by (auto simp: locals_ok_def)
      moreover have "allocations C R H ?s" using old(1) run by (simp add: allocations_def)
      ultimately show ?thesis
        using run ok p q(3) point by (intro race_step [OF race inv frame]) auto
    next
      case False
      have run: "copy_object_no_checks_par C R S (par_points s t) (worker_view s t) = Some (Par_return ?p c, worker_view s t)"
        using point won False by simp
      have due: "\<forall>l. par_points s t = Par_compare l (loc_dest l) \<longrightarrow> \<not> loc_refs l" using point False by simp
      show ?thesis using ok p point by (intro quiet_step [OF race inv run _ _ due]) (simp_all add: allocation_def)
    qed
  next
    case lost: False
    have z: "unat (loc_size l) = obj_size H ?p" "8 dvd obj_size H ?p"
      using ok(1) race_geometry(3) [OF race p] by (simp_all add: locals_ok_def)
    have "bzero_ok S" using services by (simp add: parallel_ok_def)
    then obtain m where m: "mono_gc_bzero_aligned S ?d (loc_size l) (shared s) = Some m"
        "\<forall>a. m a = (if a \<in> region ?d (obj_size H ?p) then Some 0 else shared s a)"
      using facts(3,5) z unfolding bzero_ok_def by metis
    have run: "shared ?s = m" "allocated ?s = allocated s" "exhausted ?s = exhausted s" "queues ?s = queues s"
        "par_points ?s = (par_points s)(t := Par_return ?p c)"
      using point lost m(1) by (simp_all add: worker_view_def allocation_def)
    have unpub: "shared s ?p \<noteq> Some (?d OR 1)" using ok(3,4) facts(3) forwarded_inject lost by simp
    note wr = write_private [OF race inv ok(2) unpub, of "?s", OF _ _ run(2-4)]
    have frame: "par_frame H t s ?s" "allocations C R H ?s" "queues_ok R H ?s t" "\<forall>q \<in> objects H. shared ?s q = shared s q"
      using wr m(2) run(1,5) by simp_all
    show ?thesis
    proof (rule race_step [OF race inv frame(1,2) _ _ frame(3)])
      show "worker_ok R H ?s t (par_points ?s t)" using run(5) frame(4) ok p by simp
    qed (use frame(4) run point lost in auto)
  qed
qed

lemma race_run:
  assumes race: "race_ok C R H" and services: "parallel_ok C R S" and inv: "race_inv C R H s"
  shows "race_inv C R H (par_exec C R S (Par_run t) s)"
proof (cases "par_points s t")
  case (Par_enter p)
  then show ?thesis by (rule enter_step [OF race inv])
next
  case (Par_allocate p vt)
  then show ?thesis by (rule allocate_race_step [OF race services inv])
next
  case (Par_copy l)
  then show ?thesis by (rule copy_race_step [OF race inv])
next
  case (Par_forward l)
  then show ?thesis by (rule forward_step [OF race inv])
next
  case (Par_exchange l w)
  then show ?thesis by (rule exchange_race_step [OF race inv])
next
  case (Par_compare l c)
  then show ?thesis by (rule compare_race_step [OF race services inv])
qed (use inv in \<open>simp_all add: worker_view_def allocation_def fun_upd_idem\<close>)

end
