(* ===== verification/ParallelRace.thy ===== *)
theory ParallelRace
  imports ParallelCopyProps
begin

text \<open>
  What the workers of the parallel collector promise in every reachable state, and a heap on which two of them race.
\<close>

section \<open>Reachable states\<close>

lemma start_race:
  assumes race: "race_ok C R H" and queues: "\<forall>t. gray_ok (qs t) \<and> gray_items (qs t) = []"
  shows "race_inv C R H (par_start (init H) qs)"
proof -
  have "shared (par_start (init H) qs) p \<noteq> Some (c OR 1)" if "p \<in> objects H" "8 dvd unat c" "c \<noteq> 0" for p c
  proof -
    have "c OR 1 \<noteq> vtable_of H p" using forwarded_not_plain [OF that(2) race_header(2) [OF race that(1)] that(3)] .
    then show ?thesis using race_header(1) [OF race that(1)] by (simp add: par_start_def)
  qed
  then show ?thesis
    using race queues
    by (auto simp: race_inv_def allocations_def forwards_def queues_ok_def published_def par_start_def race_ok_def)
qed

lemma call_race:
  assumes race: "race_ok C R H" and inv: "race_inv C R H s" and p: "p \<in> objects H"
  shows "race_inv C R H (par_exec C R S (Par_call t p) s)"
proof (cases "par_at_rest (par_points s t)")
  case True
  then have "\<forall>l. par_points s t = Par_compare l (loc_dest l) \<longrightarrow> \<not> loc_refs l" by (auto simp: par_at_rest_def)
  then show ?thesis using True p by (intro read_step [OF race inv, where P = "Par_enter p" and t = t]) simp_all
qed (use inv in simp)

lemma reachable_race:
  assumes race: "race_ok C R H" and services: "parallel_ok C R S" and s: "par_reachable C R S (init H) (objects H) s"
  shows "race_inv C R H s"
  using s
  by (induction rule: par_reachable.induct) (use race services start_race call_race race_run in blast)+

lemma published_copy:
  assumes race: "race_ok C R H" and inv: "race_inv C R H s" and p: "p \<in> objects H" "shared s p = Some (x OR 1)" "8 dvd unat x" "x \<noteq> 0"
  shows "complete R H (shared s) p x" "\<not> from_space C R x" "\<exists>t. allocated s x = Some (t, p)"
proof -
  have old: "allocations C R H s" "forwards R H s" using inv by (simp_all add: race_inv_def)
  note head = race_header [OF race p(1)]
  have "shared s p \<noteq> init H p" using head forwarded_not_plain [OF p(3) _ p(4)] p(2) by auto
  then obtain c t where c: "shared s p = Some (c OR 1)" "allocated s c = Some (t, p)" "complete R H (shared s) p c"
    using old(2) p(1) unfolding forwards_def by blast
  then have "c = x" using p(2,3) allocated_facts(3) [OF old(1) c(2)] forwarded_inject [of c x] by simp
  then show "complete R H (shared s) p x" "\<exists>t. allocated s x = Some (t, p)" using c by auto
  show "\<not> from_space C R x" using old(1) c(2) \<open>c = x\<close> unfolding allocations_def by blast
qed

lemma queue_owner:
  assumes "race_inv C R H s" "x \<in> fst ` set (gray_items (queues s t))"
  shows "\<exists>p. allocated s x = Some (t, p)"
proof -
  have "queues_ok R H s t" using assms(1) by (simp add: race_inv_def)
  then show ?thesis using assms(2) unfolding queues_ok_def by fastforce
qed

section \<open>Every call returns\<close>

text \<open>The worker is at a call for \<open>p\<close> with at most \<open>k\<close> steps to go.\<close>

fun in_call :: "u32 \<Rightarrow> nat \<Rightarrow> par_point \<Rightarrow> bool" where
  "in_call p k (Par_enter q) = (q = p \<and> 6 \<le> k)"
| "in_call p k (Par_allocate q _) = (q = p \<and> 5 \<le> k)"
| "in_call p k (Par_copy l) = (loc_obj l = p \<and> 4 \<le> k)"
| "in_call p k (Par_forward l) = (loc_obj l = p \<and> 3 \<le> k)"
| "in_call p k (Par_exchange l _) = (loc_obj l = p \<and> 2 \<le> k)"
| "in_call p k (Par_compare l _) = (loc_obj l = p \<and> 1 \<le> k)"
| "in_call p k (Par_return q _) = (q = p)"
| "in_call p k Par_idle = False"
| "in_call p k Par_undefined = True"

lemma step_progress:
  assumes "copy_object_no_checks_par C R S P g = Some (P', g')" "in_call p k P"
  shows "in_call p (k - 1) P'"
  using assms
proof (cases P)
  case (Par_enter q)
  then show ?thesis using assms by (auto simp: bind_eq_Some_conv Let_def)
next
  case (Par_allocate q vt)
  then show ?thesis using assms
    by (cases "sgen_client_par_object_get_size R vt q (mem g)")
      (auto simp: Let_def case_prod_unfold)
qed (auto simp: bind_eq_Some_conv Let_def split: if_splits)

lemma exec_progress:
  assumes "in_call p k (par_points s t)"
  shows "in_call p (k - 1) (par_points (par_exec C R S (Par_run t) s) t)"
proof (cases "copy_object_no_checks_par C R S (par_points s t) (worker_view s t)")
  case (Some r)
  then obtain P g where r: "copy_object_no_checks_par C R S (par_points s t) (worker_view s t) = Some (P, g)" by (cases r) simp
  then show ?thesis using step_progress [OF r assms] by (simp add: Let_def)
qed simp

lemma exec_other:
  assumes "e \<noteq> Par_run t" "\<forall>p. e \<noteq> Par_call t p"
  shows "par_points (par_exec C R S e s) t = par_points s t"
proof (cases e)
  case (Par_run u)
  then show ?thesis using assms(1) 
    by (cases "copy_object_no_checks_par C R S (par_points s u) (worker_view s u)") (auto simp: Let_def)
qed (use assms in auto)

lemma run_progress:
  assumes "\<forall>q. Par_call t q \<notin> set es" "in_call p k (par_points s t)"
  shows "in_call p (k - count_list es (Par_run t)) (par_points (fold (par_exec C R S) es s) t)"
  using assms
proof (induction es arbitrary: s k)
  case (Cons e es)
  show ?case
  proof (cases "e = Par_run t")
    case True
    have "in_call p (k - 1 - count_list es (Par_run t)) (par_points (fold (par_exec C R S) es (par_exec C R S e s)) t)"
    proof (rule Cons.IH)
      show "in_call p (k - 1) (par_points (par_exec C R S e s) t)" unfolding True by (rule exec_progress [OF Cons.prems(2)])
    qed (use Cons.prems(1) in simp)
    then show ?thesis using True by (simp del: par_exec.simps)
  next
    case False
    then have "par_points (par_exec C R S e s) t = par_points s t" using Cons.prems(1) by (intro exec_other) auto
    then have "in_call p (k - count_list es (Par_run t)) (par_points (fold (par_exec C R S) es (par_exec C R S e s)) t)"
      using Cons.prems by (intro Cons.IH) simp_all
    then show ?thesis using False by (simp del: par_exec.simps)
  qed
qed simp

lemma fold_reachable:
  assumes "par_reachable C R S m objs s" "set es \<subseteq> {Par_call u p | u p. p \<in> objs} \<union> range Par_run"
  shows "par_reachable C R S m objs (fold (par_exec C R S) es s)"
  using assms
proof (induction es arbitrary: s)
  case (Cons e es)
  then have "par_reachable C R S m objs (par_exec C R S e s)"
    using par_reachable.called par_reachable.ran by fastforce
  then show ?case using Cons by simp
qed simp

end
