(* ===== verification/ParallelDemo.thy ===== *)
theory ParallelDemo
  imports ParallelRace
begin

text \<open>
  Two workers race for an object of a small heap: worker 1 wins, and both return its copy.
\<close>

section \<open>The heap and the services\<close>

definition demo_race :: start_heap where
  "demo_race = \<lparr>init = [0x10000 \<mapsto> 0x8000, 0x10004 \<mapsto> 0, 0x10008 \<mapsto> 0x10010, 0x1000C \<mapsto> 7,
       0x10010 \<mapsto> 0x8000, 0x10014 \<mapsto> 0, 0x10018 \<mapsto> 0x10000, 0x1001C \<mapsto> 9],
     objects = {0x10000, 0x10010}, obj_size = (\<lambda>_. 16), ref_words = (\<lambda>_. [2]), root_slots = {}\<rparr>"

definition demo_alloc_at :: "u32 \<Rightarrow> u32 \<Rightarrow> u32 \<Rightarrow> memory \<Rightarrow> memory" where
  "demo_alloc_at d vt z m = (\<lambda>a. if a = d then Some vt else if a \<in> region d (unat z) then Some 0 else m a)"

definition demo_alloc_par :: "u32 \<Rightarrow> u32 \<Rightarrow> u32 \<Rightarrow> bool \<Rightarrow> memory \<Rightarrow> u32 \<times> memory" where
  "demo_alloc_par vt obj z refs m =
    (if unat z \<le> 256 \<and> (\<forall>a \<in> region 0x20000 (unat z). m a = None) then (0x20000, demo_alloc_at 0x20000 vt z m)
     else if unat z \<le> 256 \<and> (\<forall>a \<in> region 0x20100 (unat z). m a = None) then (0x20100, demo_alloc_at 0x20100 vt z m)
     else (0, m))"

definition demo_services_par :: parallel_services where
  "demo_services_par = \<lparr>alloc_for_promotion_par = demo_alloc_par,
     mono_gc_bzero_aligned = (\<lambda>d z m. Some (\<lambda>a. if a \<in> region d (unat z) then Some 0 else m a))\<rparr>"

lemma demo_parallel: "parallel_ok demo_collector demo_runtime demo_services_par"
proof -
  let ?C = "demo_collector\<lparr>alloc_for_promotion := alloc_for_promotion_par demo_services_par\<rparr>"
  have space: "from_space ?C demo_runtime p \<longleftrightarrow> 0x10000 \<le> unat p \<and> unat p < 0x11000" for p
    using demo_from_space by (simp add: from_space_def)
  have "allocator_ok ?C demo_runtime"
    unfolding allocator_ok_def
  proof (intro allI impI)
    fix vt obj z :: u32 and refs and m :: memory and d m'
    assume z: "8 \<le> unat z" "8 dvd unat z" and d: "alloc_for_promotion ?C vt obj z refs m = (d, m')"
    have d': "demo_alloc_par vt obj z refs m = (d, m')" using d by (simp add: demo_services_par_def)
    then consider "d = 0" "m' = m"
      | "d = 0x20000 \<or> d = 0x20100" "unat z \<le> 256" "\<forall>a \<in> region d (unat z). m a = None" "m' = demo_alloc_at d vt z m"
    proof (cases "unat z \<le> 256 \<and> (\<forall>a \<in> region 0x20000 (unat z). m a = None)")
      case True
      then have "demo_alloc_par vt obj z refs m = (0x20000, demo_alloc_at 0x20000 vt z m)" unfolding demo_alloc_par_def by (rule if_P)
      then show thesis using True d' that(2) by simp
    next
      case first: False
      show thesis
      proof (cases "unat z \<le> 256 \<and> (\<forall>a \<in> region 0x20100 (unat z). m a = None)")
        case True
        then have "demo_alloc_par vt obj z refs m = (0x20100, demo_alloc_at 0x20100 vt z m)"
          unfolding demo_alloc_par_def if_not_P [OF first] by (rule if_P)
        then show thesis using True d' that(2) by simp
      next
        case False
        have "demo_alloc_par vt obj z refs m = (0, m)" unfolding demo_alloc_par_def if_not_P [OF first] if_not_P [OF False] ..
        then show thesis using d' that(1) by simp
      qed
    qed
    then show "d = 0 \<and> m' = m \<or> d \<noteq> 0 \<and> 8 dvd unat d \<and> unat d + unat z + 4096 \<le> 2 ^ 32 \<and>
       \<not> from_space ?C demo_runtime d \<and> (\<forall>a \<in> region d (unat z). m a = None \<and> m' a \<noteq> None) \<and> m' d = Some vt \<and>
       (\<forall>a. a \<notin> region d (unat z) \<longrightarrow> m' a = m a)"
    proof cases
      case 2
      have "d \<in> region d (unat z)" using z(1) by (rule region_start)
      then have "\<forall>a. a \<notin> region d (unat z) \<longrightarrow> m' a = m a" "m' d = Some vt" "\<forall>a \<in> region d (unat z). m' a \<noteq> None"
        using 2(4) by (auto simp: demo_alloc_at_def)
      moreover have "d \<noteq> 0 \<and> 8 dvd unat d \<and> unat d + unat z + 4096 \<le> 2 ^ 32 \<and> \<not> from_space ?C demo_runtime d"
        using 2(1)
      proof
        assume "d = 0x20000"
        then show ?thesis using 2(2) by (simp add: space)
      next
        assume "d = 0x20100"
        then show ?thesis using 2(2) by (simp add: space)
      qed
      ultimately show ?thesis using 2(3) by blast
    qed simp
  qed
  moreover have "bzero_ok demo_services_par" by (simp add: bzero_ok_def demo_services_par_def)
  moreover have "slow_paths (enqueue_path demo_collector) (dequeue_path demo_collector)"
    using demo_slow_paths by (simp add: demo_collector_def)
  ultimately show ?thesis by (simp add: parallel_ok_def)
qed

lemma demo_race_ok: "race_ok demo_collector demo_runtime demo_race"
proof -
  have "object_ok demo_collector demo_runtime demo_race 0x10000"
    by (rule demo_object [where t = 0]) (auto simp: demo_race_def reference_def)
  moreover have "object_ok demo_collector demo_runtime demo_race 0x10010"
    by (rule demo_object [where t = 0]) (auto simp: demo_race_def reference_def)
  moreover have "objects demo_race = {0x10000, 0x10010}" by (simp add: demo_race_def)
  ultimately have "\<forall>p \<in> objects demo_race. object_ok demo_collector demo_runtime demo_race p" by simp
  moreover have "region 0x10000 16 \<inter> region 0x10010 16 = {}" by (simp add: demo_region)
  ultimately have "start_ok demo_collector demo_runtime demo_race"
    by (auto simp: start_ok_def demo_nursery reference_def) (auto simp: demo_race_def demo_collector_def demo_region)
  then show ?thesis by (simp add: race_ok_def demo_race_def)
qed

text \<open>Both workers find the object untouched and make a copy; worker 1 exchanges first.\<close>

definition demo_calls :: "par_event list" where
  "demo_calls = [Par_call 0 0x10000, Par_call 1 0x10000]"

definition demo_steps :: "par_event list" where
  "demo_steps = [Par_run 0, Par_run 1, Par_run 0, Par_run 1, Par_run 1, Par_run 0, Par_run 0, Par_run 1, Par_run 1, Par_run 0,
     Par_run 0, Par_run 1]"

definition demo_initial :: par_state where
  "demo_initial = fold (par_exec demo_collector demo_runtime demo_services_par) demo_calls (par_start (init demo_race) (\<lambda>_. empty_queue))"

definition demo_raced :: par_state where
  "demo_raced = fold (par_exec demo_collector demo_runtime demo_services_par) demo_steps demo_initial"

lemma demo_initial_reachable:
  "par_reachable demo_collector demo_runtime demo_services_par (init demo_race) (objects demo_race) demo_initial"
  unfolding demo_initial_def
  by (rule fold_reachable [OF par_reachable.start]) (auto simp: demo_calls_def empty_queue_ok demo_race_def)

lemma demo_raced_reachable:
  "par_reachable demo_collector demo_runtime demo_services_par (init demo_race) (objects demo_race) demo_raced"
  unfolding demo_raced_def
  by (rule fold_reachable [OF demo_initial_reachable]) (auto simp: demo_steps_def)

abbreviation demo_exec :: "par_event \<Rightarrow> par_state \<Rightarrow> par_state" where
  "demo_exec \<equiv> par_exec demo_collector demo_runtime demo_services_par"

abbreviation demo_at :: "memory \<Rightarrow> par_point \<Rightarrow> par_point \<Rightarrow> (u32 \<rightharpoonup> nat \<times> u32) \<Rightarrow> par_state" where
  "demo_at m P Q A \<equiv> \<lparr>shared = m, moves = [], queues = (\<lambda>_. empty_queue),
     par_points = (\<lambda>_. Par_idle)(0 := P, Suc 0 := Q), allocated = A, exhausted = False\<rparr>"

text \<open>The steps, two at a time.\<close>

lemma demo_initial_state: "demo_initial =
     (demo_at (init demo_race) (Par_enter 0x10000) (Par_enter 0x10000) Map.empty)"
  by (simp add: demo_initial_def demo_calls_def par_start_def par_at_rest_def)

lemma demo_word: "init demo_race 0x10000 = Some 0x8000" by (simp add: demo_race_def)

lemma demo_load: "load (init demo_race) 0x10000 = Some 0x8000" by (simp add: load_def demo_word)

lemma demo_not_forwarded: "SGEN_VTABLE_IS_FORWARDED 0x8000 = 0" by (simp add: SGEN_VTABLE_IS_FORWARDED_def tag_defs)

lemma race_enters: "demo_exec (Par_run 1) (demo_exec (Par_run 0) demo_initial) =
     (demo_at (init demo_race) (Par_allocate 0x10000 0x8000) (Par_allocate 0x10000 0x8000) Map.empty)"
  by (simp add: demo_initial_state worker_view_def allocation_def demo_load demo_not_forwarded fun_upd_twist fun_eq_iff)

lemma demo_size: "sgen_client_par_object_get_size demo_runtime 0x8000 p m = Some 16"
  by (simp_all add: sgen_client_par_object_get_size_def sgen_client_slow_object_get_size_def sgen_vtable_get_descriptor_def
        demo_runtime_def DESC_TYPE_MASK_def SGEN_DESC_STRING_def LOW_TYPE_BITS_def)

lemma demo_aligned: "SGEN_ALIGN_UP 16 = 16" by (simp add: SGEN_ALIGN_UP_def SGEN_ALIGN_UP_TO_def SGEN_ALLOC_ALIGN_def)

lemma demo_refs: "SGEN_VTABLE_HAS_REFERENCES demo_runtime 0x8000"
  by (simp add: SGEN_VTABLE_HAS_REFERENCES_def demo_runtime_def sgen_vtable_get_descriptor_def sgen_gc_descr_has_references_def
      DESC_TYPE_PTRFREE_MASK_def DESC_TYPE_PTRFREE_BITS_def VECTOR_SUBTYPE_PTRFREE_def VECTOR_INFO_SHIFT_def)

lemma demo_alloc_first: "alloc_for_promotion_par demo_services_par vt p 16 r (init demo_race) = (0x20000, demo_alloc_at 0x20000 vt 16 (init demo_race))"
  by (simp add: demo_services_par_def demo_alloc_par_def demo_region demo_race_def)

lemma demo_alloc_second: "alloc_for_promotion_par demo_services_par vt p 16 r (demo_alloc_at 0x20000 vt 16 (init demo_race)) =
   (0x20100, demo_alloc_at 0x20100 vt 16 (demo_alloc_at 0x20000 vt 16 (init demo_race)))"
  by (simp add: demo_services_par_def demo_alloc_par_def demo_region demo_race_def demo_alloc_at_def)

definition race_memory :: memory where
  "race_memory = demo_alloc_at 0x20100 0x8000 16 (demo_alloc_at 0x20000 0x8000 16 (init demo_race))"

definition race_first :: par_locals where
  "race_first = \<lparr>loc_obj = 0x10000, loc_vt = 0x8000, loc_size = 16, loc_refs = True, loc_dest = 0x20000\<rparr>"

definition race_second :: par_locals where
  "race_second = \<lparr>loc_obj = 0x10000, loc_vt = 0x8000, loc_size = 16, loc_refs = True, loc_dest = 0x20100\<rparr>"

lemma race_allocates: "demo_exec (Par_run 1) (demo_exec (Par_run 0)
     (demo_at (init demo_race) (Par_allocate 0x10000 0x8000) (Par_allocate 0x10000 0x8000) Map.empty))
 =
     (demo_at race_memory (Par_copy race_first) (Par_copy race_second) [0x20000 \<mapsto> (0, 0x10000), 0x20100 \<mapsto> (1, 0x10000)])"
  by (simp add: worker_view_def allocation_def Let_def demo_size demo_aligned demo_refs demo_alloc_first demo_alloc_second race_memory_def race_first_def race_second_def fun_upd_twist fun_upd_idem)

lemma race_memory_at: "race_memory 0x10000 = Some 0x8000" "race_memory 0x10004 = Some 0" "race_memory 0x10008 = Some 0x10010" "race_memory 0x1000C = Some 7"
  "race_memory 0x20100 = Some 0x8000" "race_memory 0x20104 = Some 0" "race_memory 0x20108 = Some 0" "race_memory 0x2010C = Some 0"
  "race_memory 0x20000 = Some 0x8000" "race_memory 0x20004 = Some 0" "race_memory 0x20008 = Some 0" "race_memory 0x2000C = Some 0"
  by (simp_all add: race_memory_def demo_alloc_at_def demo_region demo_race_def)

lemma demo_plain: "\<not> gc_moves demo_collector" "vtable_rank demo_runtime vt = 0" by (simp_all add: demo_collector_def demo_runtime_def)

definition race_copied :: memory where
  "race_copied = race_memory(0x20104 \<mapsto> 0, 0x20108 \<mapsto> 0x10010, 0x2010C \<mapsto> 7, 0x20004 \<mapsto> 0, 0x20008 \<mapsto> 0x10010, 0x2000C \<mapsto> 7)"

lemma memcpy_three:
  assumes "m src = Some a" "m (src + 4) = Some b" "m (src + 8) = Some c" "\<exists>x. m dst = Some x" "\<exists>x. m (dst + 4) = Some x" "\<exists>x. m (dst + 8) = Some x"
    "unat src + 12 \<le> unat dst" "unat dst + 12 \<le> 2 ^ 32" "\<forall>a \<in> {src, src + 4, src + 8, dst, dst + 4, dst + 8}. 4 dvd unat a"
    "distinct [src, src + 4, src + 8, dst, dst + 4, dst + 8]"
  shows "memcpy dst src 3 m = Some (m(dst \<mapsto> a, dst + 4 \<mapsto> b, dst + 8 \<mapsto> c))"
proof -
  have c: "src + 4 + 4 = src + 8" "dst + 4 + 4 = dst + 8" by (simp_all add: add.assoc)
  show ?thesis using assms by (auto simp: memcpy_def numeral_3_eq_3 load_def store_def c simp del: add.assoc)
qed

lemma race_copies: "demo_exec (Par_run 0) (demo_exec (Par_run 1)
     (demo_at race_memory (Par_copy race_first) (Par_copy race_second) A))
 =
     (demo_at race_copied (Par_forward race_first) (Par_forward race_second) A)"
  by (simp add: worker_view_def allocation_def Let_def race_first_def race_second_def fun_upd_twist fun_upd_idem par_copy_object_no_checks_def
    on_memory_def memcpy_three race_memory_at demo_plain race_copied_def sgen_client_update_copied_object_def)

lemma race_copied_at: "race_copied 0x10000 = Some 0x8000"
  by (simp add: race_copied_def race_memory_at)

lemma race_reads: "demo_exec (Par_run 1) (demo_exec (Par_run 0)
     (demo_at race_copied (Par_forward race_first) (Par_forward race_second) A))
 =
     (demo_at race_copied (Par_exchange race_first 0x8000) (Par_exchange race_second 0x8000) A)"
  by (simp add: worker_view_def allocation_def Let_def race_first_def race_second_def fun_upd_twist fun_upd_idem SGEN_FORWARD_OBJECT_PAR_read_def
     load_def race_copied_at demo_not_forwarded)

lemma race_exchanges: "demo_exec (Par_run 0) (demo_exec (Par_run 1)
     (demo_at race_copied (Par_exchange race_first 0x8000) (Par_exchange race_second 0x8000) A))
 =
     (demo_at (race_copied(0x10000 \<mapsto> 0x20101)) (Par_compare race_first 0x20100) (Par_compare race_second 0x20100) A)"
  by (simp add: worker_view_def allocation_def Let_def race_first_def race_second_def fun_upd_twist fun_upd_idem SGEN_FORWARD_OBJECT_PAR_exchange_def
     load_def store_def race_copied_at demo_not_forwarded tag_defs SGEN_VTABLE_IS_FORWARDED_def)

lemma race_compares: "par_points (demo_exec (Par_run 1) (demo_exec (Par_run 0)
     (demo_at m (Par_compare race_first 0x20100) (Par_compare race_second 0x20100) A)))
   = (\<lambda>_. Par_idle)(0 := Par_return 0x10000 0x20100, Suc 0 := Par_return 0x10000 0x20100)"
proof -
  obtain q where q: "GRAY_OBJECT_ENQUEUE_PARALLEL (enqueue_path demo_collector) empty_queue 0x20100 0xA = Some q"
    using enqueue_pushes [OF _ empty_queue_ok(1)] demo_slow_paths unfolding GRAY_OBJECT_ENQUEUE_PARALLEL_def demo_collector_def by fastforce
  then show ?thesis
  by (simp add: worker_view_def allocation_def Let_def race_first_def race_second_def fun_upd_twist fun_upd_idem sgen_vtable_get_descriptor_def demo_services_par_def
       demo_runtime_def)
qed

lemma demo_outcome: "par_points demo_raced = (\<lambda>_. Par_idle)(0 := Par_return 0x10000 0x20100, Suc 0 := Par_return 0x10000 0x20100)"
proof -
  have "demo_raced = demo_exec (Par_run 1) (demo_exec (Par_run 0) (demo_exec (Par_run 0) (demo_exec (Par_run 1) (demo_exec (Par_run 1) (demo_exec (Par_run 0) (demo_exec (Par_run 0) (demo_exec (Par_run 1)
     (demo_exec (Par_run 1) (demo_exec (Par_run 0) (demo_exec (Par_run 1) (demo_exec (Par_run 0) demo_initial)))))))))))"
     by (simp add: demo_raced_def demo_steps_def del: par_exec.simps)
  then have "par_points demo_raced = par_points (demo_exec (Par_run 1) (demo_exec (Par_run 0)
     (demo_at (race_copied(0x10000 \<mapsto> 0x20101)) (Par_compare race_first 0x20100) (Par_compare race_second 0x20100) [0x20000 \<mapsto> (0, 0x10000), 0x20100 \<mapsto> (1, 0x10000)])))"
    unfolding race_enters race_allocates race_copies race_reads race_exchanges by (rule arg_cong)
  then show ?thesis unfolding race_compares .
qed

section \<open>The properties\<close>

text \<open>
  C17: Copying in the parallel collector, in every state that any number of workers reach by interleaving their steps
  in any order: a call for an object returns an address outside from-space to which the object is forwarded and at which
  there is a complete copy of it; two calls for the same object, by whatever workers, return the same address. No address is
  twice on a gray queue or on the queues of two workers. A forwarded object with references is on a queue unless the
  worker that published it has still to enqueue it. A worker runs into undefined behaviour only if the allocator had
  no room left.
\<close>

theorem parallel_copy_once:
  assumes "race_ok C R H" "parallel_ok C R S" "par_reachable C R S (init H) (objects H) s"
  shows "(\<forall>t p x. par_points s t = Par_return p x \<longrightarrow>
      shared s p = Some (x OR 1) \<and> complete R H (shared s) p x \<and> \<not> from_space C R x \<and>
      (\<forall>u y. par_points s u = Par_return p y \<longrightarrow> y = x)) \<and>
    (\<forall>t. distinct (map fst (gray_items (queues s t)))) \<and>
    (\<forall>t u. t \<noteq> u \<longrightarrow> fst ` set (gray_items (queues s t)) \<inter> fst ` set (gray_items (queues s u)) = {}) \<and>
    (\<forall>p x. p \<in> objects H \<and> shared s p = Some (x OR 1) \<and> 8 dvd unat x \<and> x \<noteq> 0 \<and> SGEN_VTABLE_HAS_REFERENCES R (vtable_of H p) \<longrightarrow>
      (\<exists>t. x \<in> fst ` set (gray_items (queues s t))) \<or> (\<exists>t l. par_points s t = Par_compare l x \<and> loc_dest l = x \<and> loc_obj l = p)) \<and>
    (\<forall>t. par_points s t = Par_undefined \<longrightarrow> exhausted s)"
proof -
  have inv: "race_inv C R H s" by (rule reachable_race [OF assms])
  then have worker: "worker_ok R H s t (par_points s t)" and queue: "queues_ok R H s t" and pub: "published R H s" for t
    by (simp_all add: race_inv_def)
  have ret: "p \<in> objects H \<and> shared s p = Some (x OR 1) \<and> 8 dvd unat x \<and> x \<noteq> 0" if "par_points s t = Par_return p x" for t p x
    using worker [of t] that by simp
  show ?thesis
  proof (intro conjI allI impI)
    fix t p x assume r: "par_points s t = Par_return p x"
    show "shared s p = Some (x OR 1)" "complete R H (shared s) p x" "\<not> from_space C R x"
      using ret [OF r] published_copy [OF assms(1) inv, of p x] by simp_all
    show "y = x" if "par_points s u = Par_return p y" for u y
      using ret [OF r] ret [OF that] forwarded_inject [of x y] by simp
  next
    fix t u :: nat assume ne: "t \<noteq> u"
    have False if x: "x \<in> fst ` set (gray_items (queues s t))" "x \<in> fst ` set (gray_items (queues s u))" for x
      using queue_owner [OF inv x(1)] queue_owner [OF inv x(2)] ne by auto
    then show "fst ` set (gray_items (queues s t)) \<inter> fst ` set (gray_items (queues s u)) = {}" by blast
  next
    fix p x
    assume "p \<in> objects H \<and> shared s p = Some (x OR 1) \<and> 8 dvd unat x \<and> x \<noteq> 0 \<and> SGEN_VTABLE_HAS_REFERENCES R (vtable_of H p)"
    then show "(\<exists>t. x \<in> fst ` set (gray_items (queues s t))) \<or> (\<exists>t l. par_points s t = Par_compare l x \<and> loc_dest l = x \<and> loc_obj l = p)"
      using pub unfolding published_def queued_or_due_def by blast
  next
    show "distinct (map fst (gray_items (queues s t)))" for t using queue [of t] by (simp add: queues_ok_def)
    show "exhausted s" if "par_points s t = Par_undefined" for t using worker [of t] that by simp
  qed
qed

theorem parallel_copy_once_witness:
  "par_points demo_raced = (\<lambda>_. Par_idle)(0 := Par_return 0x10000 0x20100, Suc 0 := Par_return 0x10000 0x20100) \<and>
   shared demo_raced 0x10000 = Some (0x20100 OR 1) \<and> complete demo_runtime demo_race (shared demo_raced) 0x10000 0x20100"
proof -
  have "par_points demo_raced 0 = Par_return 0x10000 0x20100" by (simp add: demo_outcome)
  then have "shared demo_raced 0x10000 = Some (0x20100 OR 1) \<and> complete demo_runtime demo_race (shared demo_raced) 0x10000 0x20100"
    using parallel_copy_once [OF demo_race_ok demo_parallel demo_raced_reachable] by blast
  then show ?thesis using demo_outcome by blast
qed

text \<open>
  C18: No worker waits for another: whatever the other workers do in between, six steps of a worker complete its call
  for an object, which has then returned an address, unless the allocator had no room.
\<close>

theorem parallel_copy_wait_free:
  assumes "race_ok C R H" "parallel_ok C R S" "par_reachable C R S (init H) (objects H) s" "par_points s t = Par_enter p"
    and "set es \<subseteq> {Par_call u q | u q. u \<noteq> t \<and> q \<in> objects H} \<union> range Par_run" "6 \<le> count_list es (Par_run t)"
  shows "(\<exists>x. par_points (fold (par_exec C R S) es s) t = Par_return p x) \<or> exhausted (fold (par_exec C R S) es s)"
proof -
  let ?s = "fold (par_exec C R S) es s"
  have calls: "\<forall>q. Par_call t q \<notin> set es" "set es \<subseteq> {Par_call u q | u q. q \<in> objects H} \<union> range Par_run" using assms(5) by auto
  have "in_call p (6 - count_list es (Par_run t)) (par_points ?s t)" using run_progress [OF calls(1)] assms(4) by simp
  then have "in_call p 0 (par_points ?s t)" using assms(6) by simp
  moreover have "worker_ok R H ?s t (par_points ?s t)"
    using reachable_race [OF assms(1,2) fold_reachable [OF assms(3) calls(2)]] by (simp add: race_inv_def)
  ultimately show ?thesis by (cases "par_points ?s t") auto
qed

theorem parallel_copy_wait_free_witness:
  "(\<exists>x. par_points demo_raced 0 = Par_return 0x10000 x) \<or> exhausted demo_raced"
proof -
  have "set demo_steps \<subseteq> {Par_call u q | u q. u \<noteq> 0 \<and> q \<in> objects demo_race} \<union> range Par_run" by (auto simp: demo_steps_def)
  moreover have "6 \<le> count_list demo_steps (Par_run 0)" by (simp add: demo_steps_def)
  moreover have "par_points demo_initial 0 = Par_enter 0x10000" by (simp add: demo_initial_state)
  ultimately show ?thesis
    using parallel_copy_wait_free [OF demo_race_ok demo_parallel demo_initial_reachable] unfolding demo_raced_def by blast
qed

end
