(* ===== verification/MajorMark.thy ===== *)
theory MajorMark
  imports MinorCopy
begin

text \<open>
  The major collector (\<open>sgen-marksweep-drain-gray-stack.h\<close>): copying or marking an object, scanning an object and draining
  the gray stack, in the four serial configurations in which the file is included. Blocks, mark bits, large objects,
  the mod-union card table and cementing are not in the headers: they are parameters on a state that holds the
  marks. Statistics, the binary protocol and assertions of level 9, which the build leaves out, are left out, and so are the
  parallel configurations.
\<close>

section \<open>State and parameters\<close>

datatype major_config =
    Major_plain
  | Major_evacuation                \<comment> \<open>\<open>COPY_OR_MARK_WITH_EVACUATION\<close>\<close>
  | Major_concurrent                \<comment> \<open>\<open>COPY_OR_MARK_CONCURRENT\<close>\<close>
  | Major_concurrent_evacuation     \<comment> \<open>\<open>COPY_OR_MARK_CONCURRENT_WITH_EVACUATION\<close>\<close>

definition is_concurrent :: "major_config \<Rightarrow> bool" where
  "is_concurrent K \<longleftrightarrow> K = Major_concurrent \<or> K = Major_concurrent_evacuation"

record major_state =
  heap :: gc_state
  mark_bits :: "u32 set"
  los_pins :: "u32 set"
  evacuate_block_obj_sizes :: "nat \<Rightarrow> bool"
  mod_union :: "(u32 \<times> u32 \<times> u32) list"

record major_services =
  MS_BLOCK_FOR_OBJ :: "u32 \<Rightarrow> u32"
  obj_size_index :: "u32 \<Rightarrow> nat"
  major_block_is_evacuating :: "u32 \<Rightarrow> major_state \<Rightarrow> bool"
  MS_MARK_OBJECT_AND_ENQUEUE :: "u32 \<Rightarrow> u32 \<Rightarrow> u32 \<Rightarrow> major_state \<Rightarrow> major_state option"
  MS_SET_MARK_BIT :: "u32 \<Rightarrow> u32 \<Rightarrow> major_state \<Rightarrow> major_state"     \<comment> \<open>block and object, for \<open>MS_CALC_MARK_BIT\<close>\<close>
  sgen_los_object_is_pinned :: "u32 \<Rightarrow> major_state \<Rightarrow> bool"
  sgen_los_pin_object :: "u32 \<Rightarrow> major_state \<Rightarrow> major_state"
  mark_mod_union_card :: "u32 \<Rightarrow> u32 \<Rightarrow> u32 \<Rightarrow> major_state \<Rightarrow> major_state"
  sgen_cement_is_forced :: "u32 \<Rightarrow> bool"

definition on_heap :: "(gc_state \<Rightarrow> gc_state option) \<Rightarrow> major_state \<Rightarrow> major_state option" where
  "on_heap f s = map_option (\<lambda>h. s\<lparr>heap := h\<rparr>) (f (heap s))"

section \<open>Copying or marking an object\<close>

text \<open>The code from the label \<open>do_copy_object\<close> on.\<close>

definition do_copy_object ::
  "gc_collector \<Rightarrow> gc_runtime \<Rightarrow> major_services \<Rightarrow> u32 \<Rightarrow> u32 \<Rightarrow> major_state \<Rightarrow> (bool \<times> major_state) option" where
  "do_copy_object C R M ptr old_obj s = do {
     (obj, h) \<leftarrow> copy_object_no_checks C R old_obj (heap s);
     let s = s\<lparr>heap := h\<rparr>;
     if old_obj = obj then
       if \<not> sgen_ptr_in_nursery R obj then do {
         let block = MS_BLOCK_FOR_OBJ M obj;
         let s = s\<lparr>evacuate_block_obj_sizes := (evacuate_block_obj_sizes s)(obj_size_index M block := False)\<rparr>;
         desc \<leftarrow> sgen_obj_get_descriptor R obj (mem (heap s));
         s \<leftarrow> MS_MARK_OBJECT_AND_ENQUEUE M obj desc block s;
         Some (False, s) }
       else Some (True, s)
     else do {
       s \<leftarrow> on_heap (SGEN_UPDATE_REFERENCE ptr obj) s;
       Some (if sgen_ptr_in_nursery R obj then (True, s) else (False, MS_SET_MARK_BIT M (MS_BLOCK_FOR_OBJ M obj) obj s)) } }"

text \<open>Objects of the nursery, in the configurations that stop the world.\<close>

definition copy_nursery_object ::
  "gc_collector \<Rightarrow> gc_runtime \<Rightarrow> major_services \<Rightarrow> u32 \<Rightarrow> u32 \<Rightarrow> major_state \<Rightarrow> (bool \<times> major_state) option" where
  "copy_nursery_object C R M ptr obj s = do {
     vtable_word \<leftarrow> load (mem (heap s)) obj;
     if SGEN_VTABLE_IS_PINNED vtable_word then Some (True, s)
     else do {
       let forwarded = SGEN_VTABLE_IS_FORWARDED vtable_word;
       if forwarded \<noteq> 0 then do {
         s \<leftarrow> on_heap (SGEN_UPDATE_REFERENCE ptr forwarded) s;
         Some (sgen_ptr_in_nursery R forwarded, s) }
       else do {
         to_space \<leftarrow> sgen_nursery_is_to_space R obj;
         if to_space then Some (True, s) else do_copy_object C R M ptr obj s } } }"

definition SGEN_OBJECT_HAS_REFERENCES :: "gc_runtime \<Rightarrow> u32 \<Rightarrow> memory \<Rightarrow> bool option" where
  "SGEN_OBJECT_HAS_REFERENCES R obj m = map_option (SGEN_VTABLE_HAS_REFERENCES R) (SGEN_LOAD_VTABLE obj m)"

text \<open>Objects that do not fit into a block.\<close>

definition mark_large_object ::
  "gc_collector \<Rightarrow> gc_runtime \<Rightarrow> major_services \<Rightarrow> u32 \<Rightarrow> u32 \<Rightarrow> major_state \<Rightarrow> major_state option" where
  "mark_large_object C R M obj desc s =
    (if sgen_los_object_is_pinned M obj s then Some s
     else do {
       let s = sgen_los_pin_object M obj s;
       references \<leftarrow> SGEN_OBJECT_HAS_REFERENCES R obj (mem (heap s));
       if references then on_heap (enqueue_gray C obj desc) s else Some s })"

text \<open>Objects outside the nursery.\<close>

definition mark_major_object ::
  "major_config \<Rightarrow> gc_collector \<Rightarrow> gc_runtime \<Rightarrow> major_services \<Rightarrow> u32 \<Rightarrow> u32 \<Rightarrow> major_state \<Rightarrow> (bool \<times> major_state) option" where
  "mark_major_object K C R M ptr obj s = do {
     vtable_word \<leftarrow> load (mem (heap s)) obj;
     let forwarded = SGEN_VTABLE_IS_FORWARDED vtable_word;
     if K = Major_evacuation \<and> forwarded \<noteq> 0 then do {
       s \<leftarrow> on_heap (SGEN_UPDATE_REFERENCE ptr forwarded) s;
       Some (False, s) }
     else do {
       let desc = sgen_vtable_get_descriptor R (SGEN_POINTER_UNTAG_VTABLE vtable_word);
       small \<leftarrow> sgen_safe_object_is_small R obj (desc AND DESC_TYPE_MASK) (mem (heap s));
       if small then do {
         let block = MS_BLOCK_FOR_OBJ M obj;
         if K = Major_concurrent_evacuation \<and> major_block_is_evacuating M block s then Some (False, s)
         else if K = Major_evacuation \<and> major_block_is_evacuating M block s then do_copy_object C R M ptr obj s
         else do {
           s \<leftarrow> MS_MARK_OBJECT_AND_ENQUEUE M obj desc block s;
           Some (False, s) } }
       else do {
         s \<leftarrow> mark_large_object C R M obj desc s;
         Some (False, s) } } }"

text \<open>\<open>COPY_OR_MARK_FUNCTION_NAME\<close>: whether the object is still in the nursery, and the new state.\<close>

definition copy_or_mark_object ::
  "major_config \<Rightarrow> gc_collector \<Rightarrow> gc_runtime \<Rightarrow> major_services \<Rightarrow> u32 \<Rightarrow> u32 \<Rightarrow> major_state \<Rightarrow> (bool \<times> major_state) option" where
  "copy_or_mark_object K C R M ptr obj s =
    (if sgen_ptr_in_nursery R obj then
       if is_concurrent K then Some (True, s) else copy_nursery_object C R M ptr obj s
     else mark_major_object K C R M ptr obj s)"

section \<open>Scanning\<close>

text \<open>A reference into the nursery from outside of it is noted in the mod-union table.\<close>

definition note_mod_union :: "gc_runtime \<Rightarrow> major_services \<Rightarrow> u32 \<Rightarrow> u32 \<Rightarrow> u32 \<Rightarrow> major_state \<Rightarrow> major_state" where
  "note_mod_union R M full ptr old s =
    (if full \<noteq> 0 \<and> sgen_ptr_in_nursery R old \<and> \<not> sgen_ptr_in_nursery R ptr \<and> \<not> sgen_cement_is_forced M old
     then mark_mod_union_card M full ptr old s else s)"

definition major_handle_ptr ::
  "major_config \<Rightarrow> gc_collector \<Rightarrow> gc_runtime \<Rightarrow> major_services \<Rightarrow> u32 \<Rightarrow> u32 \<Rightarrow> major_state \<Rightarrow> major_state option" where
  "major_handle_ptr K C R M full ptr s = do {
     old \<leftarrow> load (mem (heap s)) ptr;
     if is_concurrent K then
       if old \<noteq> 0 \<and> \<not> sgen_ptr_in_nursery R old then do {
         moving \<leftarrow> (if K = Major_concurrent_evacuation \<and> full \<noteq> 0 \<and> \<not> sgen_ptr_in_nursery R ptr then do {
             desc \<leftarrow> sgen_obj_get_descriptor R old (mem (heap s));
             small \<leftarrow> sgen_safe_object_is_small R old (desc AND DESC_TYPE_MASK) (mem (heap s));
             Some (small \<and> major_block_is_evacuating M (MS_BLOCK_FOR_OBJ M old) s) }
           else Some False);
         if moving then Some (mark_mod_union_card M full ptr old s)
         else map_option snd (copy_or_mark_object K C R M ptr old s) }
       else Some (note_mod_union R M full ptr old s)
     else if old \<noteq> 0 then do {
       (still_in_nursery, s) \<leftarrow> copy_or_mark_object K C R M ptr old s;
       if still_in_nursery \<and> \<not> sgen_ptr_in_nursery R ptr then do {
         copy \<leftarrow> load (mem (heap s)) ptr;
         cemented \<leftarrow> SGEN_OBJECT_IS_CEMENTED copy (mem (heap s));
         Some (if cemented then s else s\<lparr>heap := sgen_add_to_global_remset ptr copy (heap s)\<rparr>) }
       else Some s }
     else Some s }"

fun major_handle_all ::
  "major_config \<Rightarrow> gc_collector \<Rightarrow> gc_runtime \<Rightarrow> major_services \<Rightarrow> u32 \<Rightarrow> u32 list \<Rightarrow> major_state \<Rightarrow> major_state option" where
  "major_handle_all K C R M full [] s = Some s"
| "major_handle_all K C R M full (p # ps) s = do { s \<leftarrow> major_handle_ptr K C R M full p s; major_handle_all K C R M full ps s }"

definition major_scan_object ::
  "major_config \<Rightarrow> gc_collector \<Rightarrow> gc_runtime \<Rightarrow> major_services \<Rightarrow> u32 \<Rightarrow> u32 \<Rightarrow> major_state \<Rightarrow> major_state option" where
  "major_scan_object K C R M full_object desc s = do {
     view \<leftarrow> object_view R full_object desc (mem (heap s));
     slots \<leftarrow> scan_object (complex_descriptor R) desc view;
     major_handle_all K C R M full_object slots s }"

definition major_scan_vtype ::
  "major_config \<Rightarrow> gc_collector \<Rightarrow> gc_runtime \<Rightarrow> major_services \<Rightarrow> u32 \<Rightarrow> u32 \<Rightarrow> u32 \<Rightarrow> major_state \<Rightarrow> major_state option" where
  "major_scan_vtype K C R M full_object start desc s = do {
     let start = start - 8;
     if is_complex_arr_desc desc then None
     else do {
       view \<leftarrow> object_view R start desc (mem (heap s));
       slots \<leftarrow> scan_object (complex_descriptor R) desc view;
       major_handle_all K C R M full_object slots s } }"

definition major_scan_ptr_field ::
  "major_config \<Rightarrow> gc_collector \<Rightarrow> gc_runtime \<Rightarrow> major_services \<Rightarrow> u32 \<Rightarrow> u32 \<Rightarrow> major_state \<Rightarrow> major_state option" where
  "major_scan_ptr_field K C R M full_object ptr s = major_handle_ptr K C R M full_object ptr s"

section \<open>Draining the gray stack\<close>

definition major_drain_step ::
  "major_config \<Rightarrow> gc_collector \<Rightarrow> gc_runtime \<Rightarrow> major_services \<Rightarrow> major_state \<Rightarrow> (bool \<times> major_state) option" where
  "major_drain_step K C R M s = do {
     (entry, q) \<leftarrow> GRAY_OBJECT_DEQUEUE_SERIAL (dequeue_path C) (gray (heap s)) 0;
     let s = s\<lparr>heap := (heap s)\<lparr>gray := q\<rparr>\<rparr>;
     if fst entry = 0 then Some (True, s)
     else map_option (Pair False) (major_scan_object K C R M (fst entry) (snd entry) s) }"

text \<open>The concurrent configurations stop after 32 objects.\<close>

fun major_drain_some ::
  "nat \<Rightarrow> major_config \<Rightarrow> gc_collector \<Rightarrow> gc_runtime \<Rightarrow> major_services \<Rightarrow> major_state \<Rightarrow> (bool \<times> major_state) option" where
  "major_drain_some 0 K C R M s = Some (False, s)"
| "major_drain_some (Suc n) K C R M s = do {
     (empty, s) \<leftarrow> major_drain_step K C R M s;
     if empty then Some (True, s) else major_drain_some n K C R M s }"

partial_function (option) major_drain_all ::
  "major_config \<Rightarrow> gc_collector \<Rightarrow> gc_runtime \<Rightarrow> major_services \<Rightarrow> major_state \<Rightarrow> (bool \<times> major_state) option" where
  "major_drain_all K C R M s = do {
     (empty, s) \<leftarrow> major_drain_step K C R M s;
     if empty then Some (True, s) else major_drain_all K C R M s }"

definition major_drain_gray_stack ::
  "major_config \<Rightarrow> gc_collector \<Rightarrow> gc_runtime \<Rightarrow> major_services \<Rightarrow> major_state \<Rightarrow> (bool \<times> major_state) option" where
  "major_drain_gray_stack K C R M s =
    (if is_concurrent K then major_drain_some 32 K C R M s else major_drain_all K C R M s)"

end
