(* ===== verification/MajorMarkProps.thy ===== *)
theory MajorMarkProps
  imports MajorMark CollectionDemo
begin

text \<open>
  Concurrent marking: from the roots, the drained gray stack leaves exactly the reachable objects outside the nursery
  marked, memory as it was, and every reference of them into the nursery in the mod-union table.
\<close>

section \<open>What the parameters promise\<close>

definition marking_ok :: "major_services \<Rightarrow> bool" where
  "marking_ok M \<longleftrightarrow> (\<forall>obj desc block s. gray_ok (gray (heap s)) \<longrightarrow>
     (\<exists>t. MS_MARK_OBJECT_AND_ENQUEUE M obj desc block s = Some t \<and>
        (if obj \<in> mark_bits s then t = s
         else mark_bits t = insert obj (mark_bits s) \<and> los_pins t = los_pins s \<and> mod_union t = mod_union s \<and>
           mem (heap t) = mem (heap s) \<and> gray_ok (gray (heap t)) \<and>
           gray_items (gray (heap t)) =
             (if sgen_gc_descr_has_references desc then (obj, desc) # gray_items (gray (heap s)) else gray_items (gray (heap s))))))"

definition major_services_ok :: "gc_collector \<Rightarrow> major_services \<Rightarrow> bool" where
  "major_services_ok C M \<longleftrightarrow> slow_paths (enqueue_path C) (dequeue_path C) \<and> marking_ok M \<and>
     (\<forall>obj s. sgen_los_object_is_pinned M obj s \<longleftrightarrow> obj \<in> los_pins s) \<and>
     (\<forall>obj s. sgen_los_pin_object M obj s = s\<lparr>los_pins := insert obj (los_pins s)\<rparr>) \<and>
     (\<forall>full ptr old s. mark_mod_union_card M full ptr old s = s\<lparr>mod_union := (full, ptr, old) # mod_union s\<rparr>)"

section \<open>The heap\<close>

text \<open>
  The objects outside the nursery, with the notions of \<open>Collection\<close>. The words with references hold null, an address in the
  nursery or one of the objects; the vtable word may have the tag that the bridge sets.
\<close>

definition is_small :: "gc_runtime \<Rightarrow> start_heap \<Rightarrow> u32 \<Rightarrow> bool" where
  "is_small R H p \<longleftrightarrow> sgen_safe_object_is_small R p (gc_descr R (vtable_of H p) AND DESC_TYPE_MASK) (init H) = Some True"

definition target :: "gc_runtime \<Rightarrow> start_heap \<Rightarrow> u32 \<Rightarrow> bool" where
  "target R H a \<longleftrightarrow> 4 dvd unat a \<and> (\<exists>w. init H a = Some w \<and> (w = 0 \<or> sgen_ptr_in_nursery R w \<or> w \<in> objects H))"

definition major_object :: "gc_runtime \<Rightarrow> start_heap \<Rightarrow> u32 \<Rightarrow> bool" where
  "major_object R H p \<longleftrightarrow> p \<noteq> 0 \<and> 8 dvd unat p \<and> 8 \<le> obj_size H p \<and> unat p + obj_size H p + 4096 \<le> 2 ^ 32 \<and>
     \<not> sgen_ptr_in_nursery R p \<and> (\<forall>a \<in> obj_region H p. init H a \<noteq> None \<and> \<not> sgen_ptr_in_nursery R a) \<and>
     (\<exists>vt t. init H p = Some (vt OR t) \<and> 8 dvd unat vt \<and> t \<in> {0, 4}) \<and>
     sgen_safe_object_is_small R p (gc_descr R (vtable_of H p) AND DESC_TYPE_MASK) (init H) \<noteq> None \<and>
     described R (vtable_of H p) (the (init H (p + 12))) (obj_size H p) (ref_words H p) \<and>
     (\<forall>i \<in> set (ref_words H p). target R H (word_at p i))"

definition major_heap_ok :: "gc_runtime \<Rightarrow> start_heap \<Rightarrow> bool" where
  "major_heap_ok R H \<longleftrightarrow> \<not> sgen_ptr_in_nursery R 0 \<and> finite (objects H) \<and> (\<forall>p \<in> objects H. major_object R H p)"

inductive major_reachable :: "start_heap \<Rightarrow> u32 list \<Rightarrow> u32 \<Rightarrow> bool" for H roots where
  root: "major_reachable H roots p" if "a \<in> set roots" "init H a = Some p" "p \<in> objects H"
| follow: "major_reachable H roots q"
    if "major_reachable H roots p" "i \<in> set (ref_words H p)" "init H (word_at p i) = Some q" "q \<in> objects H"

section \<open>The invariant\<close>

definition is_marked :: "gc_runtime \<Rightarrow> start_heap \<Rightarrow> major_state \<Rightarrow> u32 \<Rightarrow> bool" where
  "is_marked R H s p \<longleftrightarrow> (if is_small R H p then p \<in> mark_bits s else p \<in> los_pins s)"

text \<open>A slot that has been handled.\<close>

definition slot_marked :: "gc_runtime \<Rightarrow> major_services \<Rightarrow> start_heap \<Rightarrow> major_state \<Rightarrow> u32 \<Rightarrow> u32 \<Rightarrow> bool" where
  "slot_marked R M H s full a \<longleftrightarrow> (\<forall>w. init H a = Some w \<longrightarrow> (w \<in> objects H \<longrightarrow> is_marked R H s w) \<and>
     (full \<noteq> 0 \<longrightarrow> sgen_ptr_in_nursery R w \<longrightarrow> \<not> sgen_ptr_in_nursery R a \<longrightarrow> \<not> sgen_cement_is_forced M w \<longrightarrow>
        (full, a, w) \<in> set (mod_union s)))"

definition black :: "gc_runtime \<Rightarrow> major_services \<Rightarrow> start_heap \<Rightarrow> major_state \<Rightarrow> u32 \<Rightarrow> bool" where
  "black R M H s p \<longleftrightarrow> (\<forall>i \<in> set (ref_words H p). slot_marked R M H s p (word_at p i))"

definition gray_set :: "major_state \<Rightarrow> u32 set" where
  "gray_set s = fst ` set (gray_items (gray (heap s)))"

definition marking :: "gc_runtime \<Rightarrow> major_services \<Rightarrow> start_heap \<Rightarrow> u32 list \<Rightarrow> u32 set \<Rightarrow> major_state \<Rightarrow> bool" where
  "marking R M H roots E s \<longleftrightarrow> mem (heap s) = init H \<and> gray_ok (gray (heap s)) \<and>
     (\<forall>(x, desc) \<in> set (gray_items (gray (heap s))). x \<in> objects H \<and> desc = gc_descr R (vtable_of H x) \<and> is_marked R H s x) \<and>
     (\<forall>p \<in> objects H. is_marked R H s p \<longrightarrow> major_reachable H roots p \<and> (p \<in> gray_set s \<or> p \<in> E \<or> black R M H s p))"

definition unmarked :: "gc_runtime \<Rightarrow> start_heap \<Rightarrow> major_state \<Rightarrow> u32 set" where
  "unmarked R H s = {p \<in> objects H. \<not> is_marked R H s p}"

definition mark_work :: "gc_runtime \<Rightarrow> start_heap \<Rightarrow> major_state \<Rightarrow> nat" where
  "mark_work R H s = card (unmarked R H s) + length (gray_items (gray (heap s)))"

definition mark_progress :: "gc_runtime \<Rightarrow> start_heap \<Rightarrow> major_state \<Rightarrow> major_state \<Rightarrow> bool" where
  "mark_progress R H s t \<longleftrightarrow> mem (heap t) = mem (heap s) \<and> mark_bits s \<subseteq> mark_bits t \<and> los_pins s \<subseteq> los_pins t \<and>
     set (mod_union s) \<subseteq> set (mod_union t) \<and> mark_work R H t \<le> mark_work R H s"

lemma mark_progress_refl: "mark_progress R H s s"
  by (simp add: mark_progress_def)

lemma mark_progress_trans: "mark_progress R H s t \<Longrightarrow> mark_progress R H t u \<Longrightarrow> mark_progress R H s u"
  by (auto simp: mark_progress_def)

lemma marked_mono: "mark_progress R H s t \<Longrightarrow> is_marked R H s p \<Longrightarrow> is_marked R H t p"
  by (auto simp: mark_progress_def is_marked_def)

lemma slot_marked_mono: "mark_progress R H s t \<Longrightarrow> slot_marked R M H s full a \<Longrightarrow> slot_marked R M H t full a"
  using marked_mono by (fastforce simp: slot_marked_def mark_progress_def)

lemma black_mono: "mark_progress R H s t \<Longrightarrow> black R M H s p \<Longrightarrow> black R M H t p"
  using slot_marked_mono unfolding black_def by blast

section \<open>Marking one object\<close>

lemma major_facts:
  assumes "major_heap_ok R H" "p \<in> objects H"
  shows "p \<noteq> 0" "8 dvd unat p" "4 dvd unat p" "8 \<le> obj_size H p" "unat p + obj_size H p + 4096 \<le> 2 ^ 32" "\<not> sgen_ptr_in_nursery R p"
    "\<forall>a \<in> obj_region H p. init H a \<noteq> None \<and> \<not> sgen_ptr_in_nursery R a"
    "sgen_safe_object_is_small R p (gc_descr R (vtable_of H p) AND DESC_TYPE_MASK) (init H) = Some (is_small R H p)"
    "described R (vtable_of H p) (the (init H (p + 12))) (obj_size H p) (ref_words H p)"
    "i \<in> set (ref_words H p) \<Longrightarrow> target R H (word_at p i)"
proof -
  note ok = assms(2) [THEN assms(1) [unfolded major_heap_ok_def, THEN conjunct2, THEN conjunct2, THEN bspec], unfolded major_object_def]
  show "p \<noteq> 0" "8 dvd unat p" "8 \<le> obj_size H p" "unat p + obj_size H p + 4096 \<le> 2 ^ 32" "\<not> sgen_ptr_in_nursery R p"
    "\<forall>a \<in> obj_region H p. init H a \<noteq> None \<and> \<not> sgen_ptr_in_nursery R a"
    "described R (vtable_of H p) (the (init H (p + 12))) (obj_size H p) (ref_words H p)"
    using ok by blast+
  then show "4 dvd unat p" by (auto elim: dvdE)
  show "target R H (word_at p i)" if "i \<in> set (ref_words H p)" using ok that by blast
  have "sgen_safe_object_is_small R p (gc_descr R (vtable_of H p) AND DESC_TYPE_MASK) (init H) \<noteq> None" using ok by blast
  then show "sgen_safe_object_is_small R p (gc_descr R (vtable_of H p) AND DESC_TYPE_MASK) (init H) = Some (is_small R H p)"
    by (auto simp: is_small_def)
qed

lemma major_header:
  assumes "major_heap_ok R H" "p \<in> objects H"
  obtains w where "load (init H) p = Some w" "SGEN_POINTER_UNTAG_ALL w = vtable_of H p"
proof -
  have "major_object R H p" using assms unfolding major_heap_ok_def by blast
  then obtain vt t where w: "init H p = Some (vt OR t)" "8 dvd unat vt" "t \<in> {0, 4}"
    unfolding major_object_def by blast
  have "load (init H) p = Some (vt OR t)" using w(1) major_facts(3) [OF assms] by (simp add: load_def)
  moreover have "SGEN_POINTER_UNTAG_ALL (vt OR t) = vtable_of H p"
    using w(1) by (simp add: vtable_of_def SGEN_POINTER_UNTAG_ALL_def SGEN_TAGGED_POINTER_MASK_def)
  ultimately show thesis by (rule that)
qed

lemma no_refs_no_words:
  assumes heap: "major_heap_ok R H" and p: "p \<in> objects H" and none: "\<not> sgen_gc_descr_has_references (gc_descr R (vtable_of H p))"
  shows "ref_words H p = []"
proof -
  have "scan_object (complex_descriptor R) (gc_descr R (vtable_of H p)) (view_at R (vtable_of H p) (the (init H (p + 12))) p) =
      Some (map (word_at p) (ref_words H p))"
    using major_facts(2,5,9) [OF heap p] by (simp add: described_def)
  then show ?thesis using pointer_free_scan [OF none] by simp
qed

text \<open>The state in which one more object is marked, and gray if it has references.\<close>

definition marks_one :: "gc_runtime \<Rightarrow> start_heap \<Rightarrow> u32 \<Rightarrow> major_state \<Rightarrow> major_state \<Rightarrow> bool" where
  "marks_one R H p s t \<longleftrightarrow> mem (heap t) = mem (heap s) \<and> mod_union t = mod_union s \<and> gray_ok (gray (heap t)) \<and>
     (if is_small R H p then mark_bits t = insert p (mark_bits s) \<and> los_pins t = los_pins s
      else los_pins t = insert p (los_pins s) \<and> mark_bits t = mark_bits s) \<and>
     gray_items (gray (heap t)) =
       (if sgen_gc_descr_has_references (gc_descr R (vtable_of H p)) then (p, gc_descr R (vtable_of H p)) # gray_items (gray (heap s))
        else gray_items (gray (heap s)))"

lemma marks_one_marked:
  assumes "marks_one R H p s t"
  shows "is_marked R H t q \<longleftrightarrow> q = p \<or> is_marked R H s q" "mark_bits s \<subseteq> mark_bits t" "los_pins s \<subseteq> los_pins t"
  using assms by (auto simp: marks_one_def is_marked_def split: if_splits)

lemma marks_one_progress:
  assumes heap: "major_heap_ok R H" and p: "p \<in> objects H" and new: "\<not> is_marked R H s p" and t: "marks_one R H p s t"
  shows "mark_progress R H s t"
proof -
  have "unmarked R H t = unmarked R H s - {p}" using marks_one_marked(1) [OF t] by (auto simp: unmarked_def)
  moreover have "p \<in> unmarked R H s" "finite (unmarked R H s)" using p new heap by (auto simp: unmarked_def major_heap_ok_def)
  ultimately have "card (unmarked R H s) = Suc (card (unmarked R H t))" by (metis card_Suc_Diff1)
  then have "mark_work R H t \<le> mark_work R H s" using t by (auto simp: mark_work_def marks_one_def)
  then show ?thesis using t marks_one_marked(2,3) [OF t] by (auto simp: mark_progress_def marks_one_def)
qed

lemma marks_one_marking:
  assumes heap: "major_heap_ok R H" and p: "p \<in> objects H" "major_reachable H roots p" and new: "\<not> is_marked R H s p"
    and t: "marks_one R H p s t" and inv: "marking R M H roots E s"
  shows "marking R M H roots E t"
proof -
  let ?d = "gc_descr R (vtable_of H p)"
  note prog = marks_one_progress [OF heap p(1) new t]
  note marked = marks_one_marked(1) [OF t]
  have gray: "gray_set s \<subseteq> gray_set t" "sgen_gc_descr_has_references ?d \<Longrightarrow> p \<in> gray_set t"
    using t by (auto simp: gray_set_def marks_one_def)
  have "major_reachable H roots q \<and> (q \<in> gray_set t \<or> q \<in> E \<or> black R M H t q)" if q: "q \<in> objects H" "is_marked R H t q" for q
  proof (cases "q = p")
    case True
    show ?thesis
    proof (cases "sgen_gc_descr_has_references ?d")
      case False
      then have "black R M H t p" using no_refs_no_words [OF heap p(1)] by (simp add: black_def)
      then show ?thesis using True p by simp
    qed (use True p gray in simp)
  next
    case False
    then have "is_marked R H s q" using marked q by simp
    then have "major_reachable H roots q \<and> (q \<in> gray_set s \<or> q \<in> E \<or> black R M H s q)" using inv q(1) by (simp add: marking_def)
    then show ?thesis using gray(1) black_mono [OF prog] by blast
  qed
  moreover have "\<forall>(x, desc) \<in> set (gray_items (gray (heap t))). x \<in> objects H \<and> desc = gc_descr R (vtable_of H x) \<and> is_marked R H t x"
    using inv t marked p(1) unfolding marking_def marks_one_def by auto
  moreover have "mem (heap t) = init H" "gray_ok (gray (heap t))" using inv t by (simp_all add: marking_def marks_one_def)
  ultimately show ?thesis by (simp add: marking_def)
qed

lemma mark_object:
  assumes heap: "major_heap_ok R H" and services: "major_services_ok C M" and p: "p \<in> objects H"
    and s: "mem (heap s) = init H" "gray_ok (gray (heap s))"
  shows "\<exists>t. copy_or_mark_object Major_concurrent C R M ptr p s = Some (False, t) \<and>
    (if is_marked R H s p then t = s else marks_one R H p s t)"
proof -
  let ?d = "gc_descr R (vtable_of H p)"
  obtain w where w: "load (init H) p = Some w" "SGEN_POINTER_UNTAG_ALL w = vtable_of H p" by (rule major_header [OF heap p])
  have desc: "sgen_vtable_get_descriptor R (SGEN_POINTER_UNTAG_VTABLE w) = ?d"
    using w(2) by (simp add: sgen_vtable_get_descriptor_def SGEN_POINTER_UNTAG_VTABLE_def)
  note facts = major_facts(6,8) [OF heap p]
  have slow: "slow_paths (enqueue_path C) (dequeue_path C)" and mark: "marking_ok M"
    and los: "sgen_los_object_is_pinned M obj s \<longleftrightarrow> obj \<in> los_pins s" "sgen_los_pin_object M obj s = s\<lparr>los_pins := insert obj (los_pins s)\<rparr>" for obj s
    using services by (simp_all add: major_services_ok_def)
  show ?thesis
  proof (cases "is_small R H p")
    case True
    obtain t where t: "MS_MARK_OBJECT_AND_ENQUEUE M p ?d (MS_BLOCK_FOR_OBJ M p) s = Some t"
        "if p \<in> mark_bits s then t = s
         else mark_bits t = insert p (mark_bits s) \<and> los_pins t = los_pins s \<and> mod_union t = mod_union s \<and>
           mem (heap t) = mem (heap s) \<and> gray_ok (gray (heap t)) \<and>
           gray_items (gray (heap t)) =
             (if sgen_gc_descr_has_references ?d then (p, ?d) # gray_items (gray (heap s)) else gray_items (gray (heap s)))"
      using mark s(2) unfolding marking_ok_def by blast
    have "copy_or_mark_object Major_concurrent C R M ptr p s = Some (False, t)"
      using facts True w(1) desc s(1) t(1) by (simp add: copy_or_mark_object_def mark_major_object_def Let_def)
    then show ?thesis using t(2) True by (auto simp: is_marked_def marks_one_def)
  next
    case large: False
    have run: "copy_or_mark_object Major_concurrent C R M ptr p s = map_option (Pair False) (mark_large_object C R M p ?d s)"
      using facts large w(1) desc s(1)
      by (cases "mark_large_object C R M p ?d s") (simp_all add: copy_or_mark_object_def mark_major_object_def Let_def)
    show ?thesis
    proof (cases "p \<in> los_pins s")
      case True
      then show ?thesis using run large by (simp add: mark_large_object_def los is_marked_def)
    next
      case False
      have refs: "SGEN_OBJECT_HAS_REFERENCES R p (init H) = Some (sgen_gc_descr_has_references ?d)"
        using w by (simp add: SGEN_OBJECT_HAS_REFERENCES_def SGEN_LOAD_VTABLE_def SGEN_LOAD_VTABLE_UNCHECKED_def
            SGEN_VTABLE_HAS_REFERENCES_def sgen_vtable_get_descriptor_def)
      obtain q where q: "GRAY_OBJECT_ENQUEUE_SERIAL (enqueue_path C) (gray (heap s)) p ?d = Some q" "gray_ok q"
          "gray_items q = (p, ?d) # gray_items (gray (heap s))"
        using enqueue_pushes [OF slow s(2)] unfolding GRAY_OBJECT_ENQUEUE_SERIAL_def by metis
      then show ?thesis
        using run False large refs s
        by (auto simp: mark_large_object_def los is_marked_def marks_one_def on_heap_def enqueue_gray_def Let_def)
    qed
  qed
qed

end
