(* ===== verification/MajorDemo.thy ===== *)
theory MajorDemo
  imports MajorMarkProps
begin

text \<open>
  Major collections on a small heap: four objects, the last of them out of reach, the third one with a reference into the
  nursery; a mark routine and a mod-union table that keep their promises.
\<close>

definition demo_mark :: "u32 \<Rightarrow> u32 \<Rightarrow> u32 \<Rightarrow> major_state \<Rightarrow> major_state option" where
  "demo_mark obj desc block s =
    (if obj \<in> mark_bits s then Some s
     else let s = s\<lparr>mark_bits := insert obj (mark_bits s)\<rparr> in
       if sgen_gc_descr_has_references desc then on_heap (enqueue_gray demo_collector obj desc) s else Some s)"

definition demo_major_services :: major_services where
  "demo_major_services = \<lparr>MS_BLOCK_FOR_OBJ = (\<lambda>p. p AND NOT 0x3FFF), obj_size_index = (\<lambda>_. 0),
     major_block_is_evacuating = (\<lambda>_ _. False), MS_MARK_OBJECT_AND_ENQUEUE = demo_mark,
     MS_SET_MARK_BIT = (\<lambda>_ obj s. s\<lparr>mark_bits := insert obj (mark_bits s)\<rparr>),
     sgen_los_object_is_pinned = (\<lambda>obj s. obj \<in> los_pins s),
     sgen_los_pin_object = (\<lambda>obj s. s\<lparr>los_pins := insert obj (los_pins s)\<rparr>),
     mark_mod_union_card = (\<lambda>full ptr old s. s\<lparr>mod_union := (full, ptr, old) # mod_union s\<rparr>),
     sgen_cement_is_forced = (\<lambda>p. p = 0x10010)\<rparr>"

definition demo_major :: start_heap where
  "demo_major = \<lparr>init = [0x20000 \<mapsto> 0x8000, 0x20004 \<mapsto> 0, 0x20008 \<mapsto> 0x20010, 0x2000C \<mapsto> 7,
       0x20010 \<mapsto> 0x8004, 0x20014 \<mapsto> 0, 0x20018 \<mapsto> 0x20020, 0x2001C \<mapsto> 9,
       0x20020 \<mapsto> 0x8000, 0x20024 \<mapsto> 0, 0x20028 \<mapsto> 0x10000, 0x2002C \<mapsto> 9,
       0x20030 \<mapsto> 0x8000, 0x20034 \<mapsto> 0, 0x20038 \<mapsto> 0x20000, 0x2003C \<mapsto> 9, 0x30000 \<mapsto> 0x20000, 0x30004 \<mapsto> 0],
     objects = {0x20000, 0x20010, 0x20020, 0x20030}, obj_size = (\<lambda>_. 16), ref_words = (\<lambda>_. [2]), root_slots = {0x30000, 0x30004}\<rparr>"

definition demo_major_state :: major_state where
  "demo_major_state = \<lparr>heap = \<lparr>mem = init demo_major, gray = empty_queue, calls = []\<rparr>, mark_bits = {}, los_pins = {},
     evacuate_block_obj_sizes = (\<lambda>_. True), mod_union = []\<rparr>"

lemma demo_major_services_ok: "major_services_ok demo_collector demo_major_services"
proof -
  have slow: "slow_paths (enqueue_path demo_collector) (dequeue_path demo_collector)"
    using demo_slow_paths by (simp add: demo_collector_def)
  have "marking_ok demo_major_services"
    unfolding marking_ok_def
  proof (intro allI impI)
    fix obj desc block :: u32 and s :: major_state assume s: "gray_ok (gray (heap s))"
    obtain q where q: "GRAY_OBJECT_ENQUEUE_SERIAL (enqueue_path demo_collector) (gray (heap s)) obj desc = Some q" "gray_ok q"
        "gray_items q = (obj, desc) # gray_items (gray (heap s))"
      using enqueue_pushes [OF slow s] unfolding GRAY_OBJECT_ENQUEUE_SERIAL_def by metis
    show "\<exists>t. MS_MARK_OBJECT_AND_ENQUEUE demo_major_services obj desc block s = Some t \<and>
        (if obj \<in> mark_bits s then t = s
         else mark_bits t = insert obj (mark_bits s) \<and> los_pins t = los_pins s \<and> mod_union t = mod_union s \<and>
           mem (heap t) = mem (heap s) \<and> gray_ok (gray (heap t)) \<and>
           gray_items (gray (heap t)) =
             (if sgen_gc_descr_has_references desc then (obj, desc) # gray_items (gray (heap s)) else gray_items (gray (heap s))))"
      using q s by (simp add: demo_major_services_def demo_mark_def on_heap_def enqueue_gray_def Let_def)
  qed
  then show ?thesis using slow by (simp add: major_services_ok_def) (simp add: demo_major_services_def)
qed

lemma demo_major_object:
  assumes "p \<in> {0x20000, 0x20010, 0x20020, 0x20030}"
  shows "major_object demo_runtime demo_major p"
proof -
  have 1: "unat p + 16 + 4096 \<le> 2 ^ 32" "p \<noteq> 0" "8 dvd unat p" "\<not> sgen_ptr_in_nursery demo_runtime p"
    using assms by (auto simp: demo_nursery)
  have 2: "init demo_major a \<noteq> None \<and> \<not> sgen_ptr_in_nursery demo_runtime a" if "a \<in> {p, p + 4, p + 8, p + 12}" for a
    using assms that by (auto simp: demo_nursery demo_major_def)
  have "init demo_major p = Some (0x8000 OR 0) \<or> init demo_major p = Some (0x8000 OR 4)" using assms by (auto simp: demo_major_def)
  moreover have "8 dvd unat (0x8000 :: u32)" by simp
  ultimately have 3: "\<exists>vt t. init demo_major p = Some (vt OR t) \<and> 8 dvd unat vt \<and> t \<in> {0, 4}" by blast
  have 4: "sgen_safe_object_is_small demo_runtime p (gc_descr demo_runtime vt AND DESC_TYPE_MASK) (init demo_major) \<noteq> None" for vt
    by (simp add: sgen_safe_object_is_small_def demo_runtime_def DESC_TYPE_MASK_def DESC_TYPE_MAX_SMALL_OBJ_def)
  have 5: "target demo_runtime demo_major (p + 8)" using assms by (auto simp: target_def demo_nursery demo_major_def)
  have z: "obj_size demo_major p = 16" "ref_words demo_major p = [2]" by (simp_all add: demo_major_def)
  show ?thesis
    unfolding major_object_def z demo_region using 1 2 3 4 5 demo_described by (simp add: word_at_numeral)
qed

lemma demo_major_ok: "major_heap_ok demo_runtime demo_major"
proof -
  have "objects demo_major = {0x20000, 0x20010, 0x20020, 0x20030}" by (simp add: demo_major_def)
  then show ?thesis using demo_major_object by (simp add: major_heap_ok_def demo_nursery)
qed

lemma demo_major_small: "is_small demo_runtime demo_major p"
  by (simp add: is_small_def sgen_safe_object_is_small_def demo_runtime_def DESC_TYPE_MASK_def DESC_TYPE_MAX_SMALL_OBJ_def)

lemma demo_major_reachable:
  "major_reachable demo_major [0x30000, 0x30004] 0x20020"
  "\<not> major_reachable demo_major [0x30000, 0x30004] 0x20030"
proof -
  have 0: "major_reachable demo_major [0x30000, 0x30004] 0x20000"
    by (rule major_reachable.root [where a = "0x30000"]) (simp_all add: demo_major_def)
  have 1: "major_reachable demo_major [0x30000, 0x30004] 0x20010"
    by (rule major_reachable.follow [OF 0, where i = 2]) (simp_all add: demo_major_def word_at_numeral)
  show "major_reachable demo_major [0x30000, 0x30004] 0x20020"
    by (rule major_reachable.follow [OF 1, where i = 2]) (simp_all add: demo_major_def word_at_numeral)
  have "p \<in> {0x20000, 0x20010, 0x20020}" if "major_reachable demo_major [0x30000, 0x30004] p" for p
    using that by (induction rule: major_reachable.induct) (auto simp: demo_major_def word_at_numeral)
  from this [of "0x20030"] show "\<not> major_reachable demo_major [0x30000, 0x30004] 0x20030" by auto
qed

end
