(* ===== verification/MajorDrain.thy ===== *)
theory MajorDrain
  imports MajorDemo
begin

text \<open>
  Concurrent marking: slots, objects, calls of the draining function, and a whole marking phase.
\<close>

section \<open>Slots\<close>

lemma marking_note:
  assumes "marking R M H roots E s"
  shows "marking R M H roots E (s\<lparr>mod_union := x # mod_union s\<rparr>)" "mark_progress R H s (s\<lparr>mod_union := x # mod_union s\<rparr>)"
proof -
  let ?t = "s\<lparr>mod_union := x # mod_union s\<rparr>"
  have same: "is_marked R H ?t = is_marked R H s" "gray_set ?t = gray_set s"
    by (auto simp: is_marked_def gray_set_def fun_eq_iff)
  show prog: "mark_progress R H s ?t" by (auto simp: mark_progress_def mark_work_def unmarked_def same)
  show "marking R M H roots E ?t" using assms black_mono [OF prog] unfolding marking_def same by auto
qed

lemma handle_marks:
  assumes heap: "major_heap_ok R H" and services: "major_services_ok C M" and inv: "marking R M H roots E s"
    and a: "target R H a" and reach: "\<And>p. init H a = Some p \<Longrightarrow> p \<in> objects H \<Longrightarrow> major_reachable H roots p"
  shows "\<exists>t. major_handle_ptr Major_concurrent C R M full a s = Some t \<and> marking R M H roots E t \<and> mark_progress R H s t \<and>
    slot_marked R M H t full a"
proof -
  have m: "mem (heap s) = init H" and gray: "gray_ok (gray (heap s))" using inv by (simp_all add: marking_def)
  obtain w where w: "init H a = Some w" "w = 0 \<or> sgen_ptr_in_nursery R w \<or> w \<in> objects H" and "4 dvd unat a"
    using a by (auto simp: target_def)
  then have read: "load (mem (heap s)) a = Some w" using m by (simp add: load_def)
  have con: "is_concurrent Major_concurrent" by (simp add: is_concurrent_def)
  show ?thesis
  proof (cases "w \<in> objects H")
    case True
    note facts = major_facts(1,6) [OF heap True]
    obtain t where t: "copy_or_mark_object Major_concurrent C R M a w s = Some (False, t)"
        "if is_marked R H s w then t = s else marks_one R H w s t"
      using mark_object [OF heap services True m gray] by blast
    have run: "major_handle_ptr Major_concurrent C R M full a s = Some t"
      using read facts t(1) con by (simp add: major_handle_ptr_def)
    have "marking R M H roots E t \<and> mark_progress R H s t \<and> is_marked R H t w"
    proof (cases "is_marked R H s w")
      case True
      then show ?thesis using t(2) inv mark_progress_refl by simp
    next
      case False
      then have one: "marks_one R H w s t" using t(2) by simp
      show ?thesis
        using marks_one_marking [OF heap True reach [OF w(1) True] False one inv] marks_one_progress [OF heap True False one]
          marks_one_marked(1) [OF one] by simp
    qed
    moreover from this have "slot_marked R M H t full a" using facts w(1) by (simp add: slot_marked_def)
    ultimately show ?thesis using run by blast
  next
    case False
    then have none: "w = 0 \<or> sgen_ptr_in_nursery R w" using w(2) by blast
    let ?t = "note_mod_union R M full a w s"
    have run: "major_handle_ptr Major_concurrent C R M full a s = Some ?t"
      using read none con by (auto simp: major_handle_ptr_def)
    have note': "?t = s \<or> ?t = s\<lparr>mod_union := (full, a, w) # mod_union s\<rparr>"
      using services by (simp add: note_mod_union_def major_services_ok_def)
    then have "marking R M H roots E ?t" "mark_progress R H s ?t" using inv marking_note [OF inv] mark_progress_refl by auto
    moreover have "slot_marked R M H ?t full a"
      using w(1) False services by (auto simp: slot_marked_def note_mod_union_def major_services_ok_def)
    ultimately show ?thesis using run by blast
  qed
qed

lemma handle_all_marks:
  assumes heap: "major_heap_ok R H" and services: "major_services_ok C M" and "marking R M H roots E s"
    and "\<And>a. a \<in> set as \<Longrightarrow> target R H a"
    and "\<And>a p. a \<in> set as \<Longrightarrow> init H a = Some p \<Longrightarrow> p \<in> objects H \<Longrightarrow> major_reachable H roots p"
  shows "\<exists>t. major_handle_all Major_concurrent C R M full as s = Some t \<and> marking R M H roots E t \<and> mark_progress R H s t \<and>
    (\<forall>a \<in> set as. slot_marked R M H t full a)"
  using assms(3-)
proof (induction as arbitrary: s)
  case Nil
  then show ?case using mark_progress_refl by simp
next
  case (Cons a as)
  obtain t where t: "major_handle_ptr Major_concurrent C R M full a s = Some t" "marking R M H roots E t" "mark_progress R H s t"
      "slot_marked R M H t full a"
    using handle_marks [OF heap services Cons.prems(1)] Cons.prems(2,3) by (metis list.set_intros(1))
  obtain u where u: "major_handle_all Major_concurrent C R M full as t = Some u" "marking R M H roots E u" "mark_progress R H t u"
      "\<forall>a \<in> set as. slot_marked R M H u full a"
    using Cons.IH [OF t(2)] Cons.prems(2,3) by (metis list.set_intros(2))
  then show ?case using t mark_progress_trans [OF t(3) u(3)] slot_marked_mono [OF u(3) t(4)] by auto
qed

section \<open>Objects\<close>

lemma major_view:
  assumes heap: "major_heap_ok R H" and p: "p \<in> objects H"
  shows "object_view R p (gc_descr R (vtable_of H p)) (init H) = Some (view_at R (vtable_of H p) (the (init H (p + 12))) p)"
proof -
  let ?desc = "gc_descr R (vtable_of H p)"
  obtain w where w: "load (init H) p = Some w" "SGEN_POINTER_UNTAG_ALL w = vtable_of H p" by (rule major_header [OF heap p])
  then have vt: "SGEN_LOAD_VTABLE p (init H) = Some (vtable_of H p)"
    by (simp add: SGEN_LOAD_VTABLE_def SGEN_LOAD_VTABLE_UNCHECKED_def)
  note facts = major_facts [OF heap p]
  show ?thesis
  proof (cases "is_vector_desc ?desc \<or> is_complex_arr_desc ?desc")
    case True
    then have z: "3 < obj_size H p div 4" using facts(9) by (auto simp: described_def has_array_header_def)
    have "4 dvd unat (p + 12)"
      using word_at_aligned [OF facts(3), of 3] facts(5) z by (auto simp: word_at_numeral)
    moreover have "init H (p + 12) \<noteq> None" using facts(7) in_region [OF z, of p] by (simp add: word_at_numeral)
    ultimately have "load (init H) (p + 12) = Some (the (init H (p + 12)))" by (auto simp: load_def)
    then show ?thesis using True vt by (simp add: object_view_def view_at_def)
  qed (simp add: object_view_def view_at_def)
qed

lemma scan_marks:
  assumes heap: "major_heap_ok R H" and services: "major_services_ok C M" and inv: "marking R M H roots E s"
    and p: "p \<in> objects H" "major_reachable H roots p"
  shows "\<exists>t. major_scan_object Major_concurrent C R M p (gc_descr R (vtable_of H p)) s = Some t \<and> marking R M H roots E t \<and>
    mark_progress R H s t \<and> black R M H t p"
proof -
  let ?desc = "gc_descr R (vtable_of H p)" and ?slots = "map (word_at p) (ref_words H p)"
  note facts = major_facts [OF heap p(1)]
  have "scan_object (complex_descriptor R) ?desc (view_at R (vtable_of H p) (the (init H (p + 12))) p) = Some ?slots"
    using facts(2,5,9) by (simp add: described_def)
  moreover have "mem (heap s) = init H" using inv by (simp add: marking_def)
  moreover obtain t where "major_handle_all Major_concurrent C R M p ?slots s = Some t" "marking R M H roots E t" "mark_progress R H s t"
      "\<forall>a \<in> set ?slots. slot_marked R M H t p a"
    using handle_all_marks [OF heap services inv, of ?slots p] facts(10) major_reachable.follow [OF p(2)] by auto
  ultimately show ?thesis using major_view [OF heap p(1)] by (auto simp: major_scan_object_def black_def)
qed

section \<open>Draining\<close>

lemma take_marked:
  assumes inv: "marking R M H roots {} s" and items: "gray_items (gray (heap s)) = (x, desc) # rest"
    and q: "gray_ok q" "gray_items q = rest"
  shows "x \<in> objects H" "desc = gc_descr R (vtable_of H x)" "major_reachable H roots x"
    "marking R M H roots {x} (s\<lparr>heap := (heap s)\<lparr>gray := q\<rparr>\<rparr>)"
    "Suc (mark_work R H (s\<lparr>heap := (heap s)\<lparr>gray := q\<rparr>\<rparr>)) = mark_work R H s"
    "mark_progress R H s (s\<lparr>heap := (heap s)\<lparr>gray := q\<rparr>\<rparr>)"
proof -
  let ?t = "s\<lparr>heap := (heap s)\<lparr>gray := q\<rparr>\<rparr>"
  have x: "x \<in> objects H \<and> desc = gc_descr R (vtable_of H x) \<and> is_marked R H s x" using inv items by (auto simp: marking_def)
  then show "x \<in> objects H" "desc = gc_descr R (vtable_of H x)" "major_reachable H roots x" using inv by (auto simp: marking_def)
  have same: "is_marked R H ?t = is_marked R H s" "gray_set s = insert x (gray_set ?t)" "slot_marked R M H ?t = slot_marked R M H s"
    using items q(2) by (auto simp: is_marked_def gray_set_def slot_marked_def fun_eq_iff)
  then have "black R M H ?t = black R M H s" by (simp add: black_def fun_eq_iff)
  then show "marking R M H roots {x} ?t" using inv items q same unfolding marking_def by auto
  show "Suc (mark_work R H ?t) = mark_work R H s" using items q(2) by (simp add: mark_work_def unmarked_def same(1))
  then show "mark_progress R H s ?t" by (auto simp: mark_progress_def)
qed

lemma drain_step_marks:
  assumes heap: "major_heap_ok R H" and services: "major_services_ok C M" and inv: "marking R M H roots {} s"
  obtains (empty) t where "major_drain_step Major_concurrent C R M s = Some (True, t)" "marking R M H roots {} t" "mark_progress R H s t"
      "gray_items (gray (heap t)) = []"
  | (scanned) t where "major_drain_step Major_concurrent C R M s = Some (False, t)" "marking R M H roots {} t" "mark_progress R H s t"
      "Suc (mark_work R H t) \<le> mark_work R H s"
proof -
  have slow: "slow_paths (enqueue_path C) (dequeue_path C)" and ok: "gray_ok (gray (heap s))"
    using services inv by (simp_all add: major_services_ok_def marking_def)
  show thesis
    using dequeue_pops [OF slow ok, of 0 False]
  proof
    assume e: "gray_items (gray (heap s)) = [] \<and> GRAY_OBJECT_DEQUEUE (dequeue_path C) (gray (heap s)) 0 False = Some ((0, 0), gray (heap s))"
    then have "major_drain_step Major_concurrent C R M s = Some (True, s)"
      by (simp add: major_drain_step_def GRAY_OBJECT_DEQUEUE_SERIAL_def)
    then show thesis using e inv mark_progress_refl by (intro empty) auto
  next
    assume "\<exists>e rest q'. gray_items (gray (heap s)) = e # rest \<and>
      GRAY_OBJECT_DEQUEUE (dequeue_path C) (gray (heap s)) 0 False = Some (e, q') \<and> gray_ok q' \<and> gray_items q' = rest"
    then obtain x desc rest q where e: "gray_items (gray (heap s)) = (x, desc) # rest"
        "GRAY_OBJECT_DEQUEUE (dequeue_path C) (gray (heap s)) 0 False = Some ((x, desc), q)" "gray_ok q" "gray_items q = rest"
      by auto
    let ?s = "s\<lparr>heap := (heap s)\<lparr>gray := q\<rparr>\<rparr>"
    note x = take_marked [OF inv e(1,3,4)]
    obtain t where t: "major_scan_object Major_concurrent C R M x desc ?s = Some t" "marking R M H roots {x} t" "mark_progress R H ?s t"
        "black R M H t x"
      using scan_marks [OF heap services x(4,1,3)] x(2) by blast
    have "marking R M H roots {} t" using t(2,4) unfolding marking_def by blast
    moreover have "major_drain_step Major_concurrent C R M s = Some (False, t)"
      using e(2) t(1) major_facts(1) [OF heap x(1)] by (simp add: major_drain_step_def GRAY_OBJECT_DEQUEUE_SERIAL_def)
    moreover have "Suc (mark_work R H t) \<le> mark_work R H s" using t(3) x(5) by (simp add: mark_progress_def)
    ultimately show thesis using mark_progress_trans [OF x(6) t(3)] by (intro scanned) auto
  qed
qed

lemma drain_some_marks:
  assumes heap: "major_heap_ok R H" and services: "major_services_ok C M" and "marking R M H roots {} s"
  shows "\<exists>b t. major_drain_some n Major_concurrent C R M s = Some (b, t) \<and> marking R M H roots {} t \<and> mark_progress R H s t \<and>
    (if b then gray_items (gray (heap t)) = [] else mark_work R H t + n \<le> mark_work R H s)"
  using assms(3)
proof (induction n arbitrary: s)
  case 0
  have "major_drain_some 0 Major_concurrent C R M s = Some (False, s)" by simp
  then show ?case using 0 mark_progress_refl by (intro exI [of _ False] exI [of _ s]) simp
next
  case (Suc n)
  show ?case
  proof (rule drain_step_marks [OF heap services Suc.prems])
    fix t assume t: "major_drain_step Major_concurrent C R M s = Some (False, t)" "marking R M H roots {} t" "mark_progress R H s t"
      "Suc (mark_work R H t) \<le> mark_work R H s"
    obtain b u where u: "major_drain_some n Major_concurrent C R M t = Some (b, u)" "marking R M H roots {} u" "mark_progress R H t u"
        "if b then gray_items (gray (heap u)) = [] else mark_work R H u + n \<le> mark_work R H t"
      using Suc.IH [OF t(2)] by blast
    then show ?thesis using t mark_progress_trans [OF t(3) u(3)] by (auto split: if_splits)
  qed auto
qed


section \<open>A marking phase\<close>

text \<open>The roots, as fields of no object, then calls of the draining function until the gray stack is found empty, at most \<open>n\<close>.\<close>

fun mark_roots :: "major_config \<Rightarrow> gc_collector \<Rightarrow> gc_runtime \<Rightarrow> major_services \<Rightarrow> u32 list \<Rightarrow> major_state \<Rightarrow> major_state option" where
  "mark_roots K C R M [] s = Some s"
| "mark_roots K C R M (a # as) s = do { s \<leftarrow> major_scan_ptr_field K C R M 0 a s; mark_roots K C R M as s }"

fun drain_calls :: "nat \<Rightarrow> major_config \<Rightarrow> gc_collector \<Rightarrow> gc_runtime \<Rightarrow> major_services \<Rightarrow> major_state \<Rightarrow> (bool \<times> major_state) option" where
  "drain_calls 0 K C R M s = Some (False, s)"
| "drain_calls (Suc n) K C R M s = do {
     (finished, s) \<leftarrow> major_drain_gray_stack K C R M s;
     if finished then Some (True, s) else drain_calls n K C R M s }"

definition mark_phase ::
  "nat \<Rightarrow> major_config \<Rightarrow> gc_collector \<Rightarrow> gc_runtime \<Rightarrow> major_services \<Rightarrow> u32 list \<Rightarrow> major_state \<Rightarrow> (bool \<times> major_state) option" where
  "mark_phase n K C R M roots s = do { s \<leftarrow> mark_roots K C R M roots s; drain_calls n K C R M s }"

lemma mark_roots_all: "mark_roots K C R M as = major_handle_all K C R M 0 as"
  by (induction as; rule ext; simp add: major_scan_ptr_field_def)

lemma drain_calls_marks:
  assumes heap: "major_heap_ok R H" and services: "major_services_ok C M" and "marking R M H roots {} s"
    and "mark_work R H s < 32 * n"
  shows "\<exists>t. drain_calls n Major_concurrent C R M s = Some (True, t) \<and> marking R M H roots {} t \<and> mark_progress R H s t \<and>
    gray_items (gray (heap t)) = []"
  using assms(3,4)
proof (induction n arbitrary: s)
  case (Suc n)
  obtain b t where t: "major_drain_some 32 Major_concurrent C R M s = Some (b, t)" "marking R M H roots {} t" "mark_progress R H s t"
      "if b then gray_items (gray (heap t)) = [] else mark_work R H t + 32 \<le> mark_work R H s"
    using drain_some_marks [OF heap services Suc.prems(1)] by blast
  then have run: "major_drain_gray_stack Major_concurrent C R M s = Some (b, t)"
    by (simp add: major_drain_gray_stack_def is_concurrent_def)
  show ?case
  proof (cases b)
    case True
    then show ?thesis using run t by simp
  next
    case False
    then have "mark_work R H t < 32 * n" using t(4) Suc.prems(2) by simp
    then obtain u where "drain_calls n Major_concurrent C R M t = Some (True, u)" "marking R M H roots {} u" "mark_progress R H t u"
        "gray_items (gray (heap u)) = []"
      using Suc.IH [OF t(2)] by blast
    then show ?thesis using run False mark_progress_trans [OF t(3)] by auto
  qed
qed simp

lemma all_reachable_marked:
  assumes inv: "marking R M H roots {} s" and gray: "gray_items (gray (heap s)) = []" and "\<forall>a \<in> set roots. slot_marked R M H s 0 a"
  shows "major_reachable H roots p \<Longrightarrow> p \<in> objects H \<and> is_marked R H s p \<and> black R M H s p"
proof (induction rule: major_reachable.induct)
  have black: "black R M H s p" if "p \<in> objects H" "is_marked R H s p" for p
    using inv gray that by (simp add: marking_def gray_set_def)
  case (root a p)
  then have "is_marked R H s p" using assms(3) by (simp add: slot_marked_def)
  then show ?case using root black by simp
next
  have black: "black R M H s p" if "p \<in> objects H" "is_marked R H s p" for p
    using inv gray that by (simp add: marking_def gray_set_def)
  case (follow p i q)
  then have "is_marked R H s q" by (simp add: black_def slot_marked_def)
  then show ?case using follow black by simp
qed

text \<open>
  C19: concurrent marking is exact. From a state in which nothing is marked, the roots and then at most so many calls of the
  draining function that 32 objects per call exceed the objects of the heap end with an empty gray stack, and the marked
  objects are those that the roots reach outside the nursery, no more and no less. Memory is as before, and each reference
  of a marked object into the nursery that is not forced to stay is in the mod-union table.
\<close>

theorem concurrent_mark_exact:
  assumes "major_heap_ok R H" "major_services_ok C M" "\<forall>a \<in> set roots. target R H a"
    and "mem (heap s) = init H" "gray_ok (gray (heap s))" "gray_items (gray (heap s)) = []" "mark_bits s = {}" "los_pins s = {}"
    and "card (objects H) < 32 * n"
  shows "\<exists>t. mark_phase n Major_concurrent C R M roots s = Some (True, t) \<and> mem (heap t) = init H \<and>
    (\<forall>p \<in> objects H. is_marked R H t p = major_reachable H roots p) \<and>
    (\<forall>p i w. major_reachable H roots p \<longrightarrow> i \<in> set (ref_words H p) \<longrightarrow> init H (word_at p i) = Some w \<longrightarrow>
       sgen_ptr_in_nursery R w \<longrightarrow> \<not> sgen_cement_is_forced M w \<longrightarrow> (p, word_at p i, w) \<in> set (mod_union t))"
proof -
  have none: "\<not> is_marked R H s p" for p using assms(7,8) by (simp add: is_marked_def)
  have inv: "marking R M H roots {} s" using assms(4-6) none by (simp add: marking_def)
  have work: "mark_work R H s = card (objects H)" using none assms(6) by (simp add: mark_work_def unmarked_def)
  obtain t where t: "mark_roots Major_concurrent C R M roots s = Some t" "marking R M H roots {} t" "mark_progress R H s t"
      "\<forall>a \<in> set roots. slot_marked R M H t 0 a"
    using handle_all_marks [OF assms(1,2) inv, of roots 0] assms(3) unfolding mark_roots_all by (metis major_reachable.root)
  have "mark_work R H t < 32 * n" using t(3) work assms(9) by (simp add: mark_progress_def)
  then obtain u where u: "drain_calls n Major_concurrent C R M t = Some (True, u)" "marking R M H roots {} u" "mark_progress R H t u"
      "gray_items (gray (heap u)) = []"
    using drain_calls_marks [OF assms(1,2) t(2)] by blast
  have "\<forall>a \<in> set roots. slot_marked R M H u 0 a" using t(4) slot_marked_mono [OF u(3)] by blast
  note all = all_reachable_marked [OF u(2,4) this]
  have "is_marked R H u p = major_reachable H roots p" if "p \<in> objects H" for p
    using all u(2) that by (auto simp: marking_def)
  moreover have "(p, word_at p i, w) \<in> set (mod_union u)"
    if "major_reachable H roots p" "i \<in> set (ref_words H p)" "init H (word_at p i) = Some w" "sgen_ptr_in_nursery R w"
      "\<not> sgen_cement_is_forced M w" for p i w
  proof -
    note p = all [OF that(1)]
    then have "slot_marked R M H u p (word_at p i)" using that(2) by (simp add: black_def)
    moreover have "p \<noteq> 0" using major_facts(1) [OF assms(1)] p by blast
    moreover have "\<not> sgen_ptr_in_nursery R (word_at p i)"
    proof -
      have d: "described R (vtable_of H p) (the (init H (p + 12))) (obj_size H p) (ref_words H p)"
        using major_facts(9) [OF assms(1)] p by blast
      then have "word_at p i \<in> obj_region H p" using that(2) in_region by (simp add: described_def)
      then show ?thesis using major_facts(7) [OF assms(1)] p by blast
    qed
    ultimately show ?thesis using that(3-5) by (simp add: slot_marked_def)
  qed
  moreover have "mem (heap u) = init H" using u(2) by (simp add: marking_def)
  ultimately show ?thesis using t(1) u(1) by (intro exI [of _ u]) (simp add: mark_phase_def)
qed

theorem concurrent_mark_exact_witness:
  "\<exists>t. mark_phase 1 Major_concurrent demo_collector demo_runtime demo_major_services [0x30000, 0x30004] demo_major_state = Some (True, t) \<and>
    0x20020 \<in> mark_bits t \<and> 0x20030 \<notin> mark_bits t \<and> (0x20020, 0x20028, 0x10000) \<in> set (mod_union t)"
proof -
  have "\<forall>a \<in> set [0x30000, 0x30004]. target demo_runtime demo_major a"
    by (auto simp: target_def demo_nursery demo_major_def)
  moreover have "mem (heap demo_major_state) = init demo_major" "gray_ok (gray (heap demo_major_state))"
      "gray_items (gray (heap demo_major_state)) = []" "mark_bits demo_major_state = {}" "los_pins demo_major_state = {}"
    by (simp_all add: demo_major_state_def empty_queue_ok)
  moreover have "card (objects demo_major) < 32 * 1" by (simp add: demo_major_def)
  ultimately obtain t where t:
      "mark_phase 1 Major_concurrent demo_collector demo_runtime demo_major_services [0x30000, 0x30004] demo_major_state = Some (True, t)"
      "\<forall>p \<in> objects demo_major. is_marked demo_runtime demo_major t p = major_reachable demo_major [0x30000, 0x30004] p"
      "\<forall>p i w. major_reachable demo_major [0x30000, 0x30004] p \<longrightarrow> i \<in> set (ref_words demo_major p) \<longrightarrow>
         init demo_major (word_at p i) = Some w \<longrightarrow> sgen_ptr_in_nursery demo_runtime w \<longrightarrow>
         \<not> sgen_cement_is_forced demo_major_services w \<longrightarrow> (p, word_at p i, w) \<in> set (mod_union t)"
    using concurrent_mark_exact [OF demo_major_ok demo_major_services_ok] by blast
  have "0x20020 \<in> objects demo_major" "0x20030 \<in> objects demo_major" by (simp_all add: demo_major_def)
  then have "0x20020 \<in> mark_bits t" "0x20030 \<notin> mark_bits t"
    using t(2) demo_major_reachable by (simp_all add: is_marked_def demo_major_small)
  moreover have "(0x20020, word_at 0x20020 2, 0x10000) \<in> set (mod_union t)"
    using demo_major_reachable(1) by (intro t(3) [rule_format])
      (simp_all add: demo_major_def demo_nursery demo_major_services_def word_at_numeral)
  ultimately show ?thesis using t(1) by (auto simp: word_at_numeral)
qed

end
