(* ===== verification/MajorCopyProps.thy ===== *)
theory MajorCopyProps
  imports MajorDemo CollectionProps
begin

text \<open>
  Stopping the world: on a slot with an object of the nursery the major collector does to memory, gray queue and remembered
  set what the nursery collector does, its answer says where the reference has got to, and new copies outside of the nursery are marked.
\<close>

definition set_mark_ok :: "major_services \<Rightarrow> bool" where
  "set_mark_ok M \<longleftrightarrow> (\<forall>block obj s. heap (MS_SET_MARK_BIT M block obj s) = heap s \<and>
     mark_bits (MS_SET_MARK_BIT M block obj s) = insert obj (mark_bits s))"

lemma forwarded_not_pinned:
  assumes "start_ok C R H" "headers C R H s" "w \<in> objects H" "forwarded_to s w = Some c" "load (mem s) w = Some v"
  shows "\<not> SGEN_VTABLE_IS_PINNED v" "SGEN_VTABLE_IS_FORWARDED v = c"
proof -
  have v: "v = c OR 1" "8 dvd unat c"
    using forwarded_copy [OF assms(1-4)] assms(5) by (auto simp: load_def copy_ok_def split: if_splits)
  have "c AND 2 = 0" by (rule aligned_low [OF v(2)]) simp
  then show "\<not> SGEN_VTABLE_IS_PINNED v" unfolding v by (simp add: tag_defs bit.conj_disj_distrib2)
  have "SGEN_OBJECT_IS_FORWARDED w (mem s) = Some c" using read_header(1) [OF assms(1-3)] assms(4) by simp
  then show "SGEN_VTABLE_IS_FORWARDED v = c"
    using assms(5) by (simp add: SGEN_OBJECT_IS_FORWARDED_def SGEN_VTABLE_IS_FORWARDED_def)
qed

lemma update_same: "load (mem s) a = Some w \<Longrightarrow> SGEN_UPDATE_REFERENCE a w s = Some s"
  by (auto simp: SGEN_UPDATE_REFERENCE_def on_memory_def store_def load_def fun_upd_idem split: if_splits)

text \<open>What the major collector answers and marks when the minor collector turns \<open>s\<close> into \<open>h\<close> at slot \<open>a\<close> with object \<open>w\<close>.\<close>

definition agrees ::
  "gc_runtime \<Rightarrow> u32 \<Rightarrow> u32 \<Rightarrow> major_state \<Rightarrow> gc_state \<Rightarrow> bool \<Rightarrow> major_state \<Rightarrow> bool" where
  "agrees R a w s h b t \<longleftrightarrow> heap t = h \<and> (\<exists>w'. load (mem h) a = Some w' \<and> b = sgen_ptr_in_nursery R w' \<and>
     mark_bits t = (if b \<or> forwarded_to (heap s) w \<noteq> None then mark_bits s else insert w' (mark_bits s)))"

lemma copied_agrees:
  assumes start: "start_ok C R H" and services: "services_ok C R" and marks: "set_mark_ok M" and inv: "collecting C R H E (heap s)"
    and a: "slot H (heap s) a" "load (mem (heap s)) a = Some w" "mem (heap s) a = Some w" and w: "w \<in> undecided H (heap s)"
  shows "\<exists>c t h b u. copy_object_no_checks C R w (heap s) = Some (c, t) \<and> SGEN_UPDATE_REFERENCE a c t = Some h \<and>
    do_copy_object C R M a w s = Some (b, u) \<and> agrees R a w s h b u"
proof -
  have heads: "headers C R H (heap s)" using inv by (simp add: collecting_def)
  have wo: "w \<in> objects H" "forwarded_to (heap s) w = None" using w by (auto simp: undecided_def)
  have nursery: "sgen_ptr_in_nursery R w" using start_object [OF start wo(1)] by (simp add: object_ok_def from_space_def)
  obtain c t where t: "copy_object_no_checks C R w (heap s) = Some (c, t)" "collecting C R H E t"
      "forwarded_to t w = Some c \<or> (c = w \<and> pinned_at t w)" "\<forall>b. b \<noteq> w \<longrightarrow> mem (heap s) b \<noteq> None \<longrightarrow> mem t b = mem (heap s) b"
    using copy_step [OF start services inv w] by blast
  have "mem t a = Some w" using t(4) a(3) slot_not_object [OF start heads a(1)] wo(1) by auto
  then have read: "load (mem t) a = Some w" using a(2) by (auto simp: load_def split: if_splits)
  show ?thesis
  proof (cases "c = w")
    case True
    have "do_copy_object C R M a w s = Some (True, s\<lparr>heap := t\<rparr>)" using t(1) True nursery by (simp add: do_copy_object_def)
    moreover have "agrees R a w s t True (s\<lparr>heap := t\<rparr>)" using read nursery by (simp add: agrees_def)
    ultimately show ?thesis using t(1) True update_same [OF read] by blast
  next
    case False
    obtain h where h: "SGEN_UPDATE_REFERENCE a c t = Some h"
      using read by (auto simp: SGEN_UPDATE_REFERENCE_def on_memory_def store_def load_def split: if_splits)
    let ?b = "sgen_ptr_in_nursery R c"
    let ?u = "if ?b then s\<lparr>heap := h\<rparr> else MS_SET_MARK_BIT M (MS_BLOCK_FOR_OBJ M c) c (s\<lparr>heap := h\<rparr>)"
    have "do_copy_object C R M a w s = Some (?b, ?u)" using t(1) h False by (simp add: do_copy_object_def on_heap_def)
    moreover have "agrees R a w s h ?b ?u" using update_result [OF h] marks wo(2) by (simp add: agrees_def set_mark_ok_def)
    ultimately show ?thesis using t(1) h by blast
  qed
qed

lemma object_agrees:
  assumes start: "start_ok C R H" and services: "services_ok C R" and marks: "set_mark_ok M" and inv: "collecting C R H E (heap s)"
    and a: "slot H (heap s) a"
    and object: "load (mem (heap s)) a = Some w" "mem (heap s) a = Some w" "w \<in> objects H" "sgen_ptr_in_nursery R w" "from_space C R w"
    and simple: "simple_nursery C \<longrightarrow> sgen_nursery_is_to_space R w = Some False"
  shows "\<exists>b t h. copy_nursery_object C R M a w s = Some (b, t) \<and> SERIAL_COPY_OBJECT C R a (heap s) = Some h \<and> agrees R a w s h b t"
proof -
  have heads: "headers C R H (heap s)" using inv by (simp add: collecting_def)
  note read = read_header [OF start heads object(3)]
  obtain x where x: "load (mem (heap s)) w = Some x" using read(3) by blast
  show ?thesis
  proof (cases "forwarded_to (heap s) w")
    case (Some c)
    have c: "c \<noteq> 0" using forwarded_not_from_space(3) [OF start heads object(3) Some] .
    obtain h where h: "SGEN_UPDATE_REFERENCE a c (heap s) = Some h"
      using object(1) by (auto simp: SGEN_UPDATE_REFERENCE_def on_memory_def store_def load_def split: if_splits)
    have "copy_nursery_object C R M a w s = Some (sgen_ptr_in_nursery R c, s\<lparr>heap := h\<rparr>)"
      using forwarded_not_pinned [OF start heads object(3) Some x] x h c by (simp add: copy_nursery_object_def on_heap_def)
    moreover have "SERIAL_COPY_OBJECT C R a (heap s) = Some h" using Some object read h c by (simp add: SERIAL_COPY_OBJECT_def)
    ultimately show ?thesis using update_result [OF h] Some by (simp add: agrees_def)
  next
    case None
    then have tests: "SGEN_VTABLE_IS_FORWARDED x = 0" "SGEN_VTABLE_IS_PINNED x = pinned_at (heap s) w"
      using read(1,2) x by (simp_all add: SGEN_OBJECT_IS_FORWARDED_def SGEN_OBJECT_IS_PINNED_def)
    show ?thesis
    proof (cases "pinned_at (heap s) w")
      case True
      then have "copy_nursery_object C R M a w s = Some (True, s)" using x tests by (simp add: copy_nursery_object_def)
      moreover have "SERIAL_COPY_OBJECT C R a (heap s) = Some (heap s)" using True None object read by (simp add: SERIAL_COPY_OBJECT_def)
      ultimately show ?thesis using object by (auto simp: agrees_def)
    next
      case False
      then have "w \<in> undecided H (heap s)" using None object(3) by (simp add: undecided_def)
      then obtain c t h b u where u: "copy_object_no_checks C R w (heap s) = Some (c, t)" "SGEN_UPDATE_REFERENCE a c t = Some h"
          "do_copy_object C R M a w s = Some (b, u)" "agrees R a w s h b u"
        using copied_agrees [OF start services marks inv a object(1,2)] by blast
      have "sgen_nursery_is_to_space R w = Some False" using simple to_space_test [OF object(5)] by (auto split: if_splits)
      then have "copy_nursery_object C R M a w s = Some (b, u)" using x tests False u(3) by (simp add: copy_nursery_object_def)
      moreover have "SERIAL_COPY_OBJECT C R a (heap s) = Some h"
        using None False object read to_space_test [OF object(5)] u(1,2) by (simp add: SERIAL_COPY_OBJECT_def)
      ultimately show ?thesis using u(4) by blast
    qed
  qed
qed

text \<open>
  C20: in the configurations that stop the world the major collector treats a slot with an object of the nursery as
  the nursery collector does. The same memory, gray queue and recorded calls result, on every path: an object in to-space or
  pinned stays, a forwarded one is taken from its new place, any other is copied, or pinned where the allocator fails. The answer says
  whether the slot refers into the nursery afterwards, and the mark bit is set of a copy made here outside of it, and of nothing else.
\<close>

theorem major_copies_as_minor:
  assumes start: "start_ok C R H" and services: "services_ok C R" and marks: "set_mark_ok M" and inv: "collecting C R H E (heap s)"
    and K: "\<not> is_concurrent K" and a: "slot H (heap s) a" "load (mem (heap s)) a = Some w" "sgen_ptr_in_nursery R w"
    and simple: "simple_nursery C \<longrightarrow> sgen_nursery_is_to_space R w = Some False"
  shows "\<exists>b t. copy_or_mark_object K C R M a w s = Some (b, t) \<and> SERIAL_COPY_OBJECT C R a (heap s) = Some (heap t) \<and>
    (\<exists>w'. load (mem (heap t)) a = Some w' \<and> b = sgen_ptr_in_nursery R w' \<and>
       mark_bits t = (if b \<or> forwarded_to (heap s) w \<noteq> None then mark_bits s else insert w' (mark_bits s)))"
proof -
  have run: "copy_or_mark_object K C R M a w s = copy_nursery_object C R M a w s" using K a(3) by (simp add: copy_or_mark_object_def)
  have "\<exists>b t h. copy_nursery_object C R M a w s = Some (b, t) \<and> SERIAL_COPY_OBJECT C R a (heap s) = Some h \<and> agrees R a w s h b t"
    using start inv a(1)
  proof (cases rule: slot_cases)
    case (outside v)
    then show ?thesis using a by simp
  next
    case (promoted v x)
    then have v: "v = w" using a(2) by simp
    note tests = promoted_tests [OF start promoted(3,4,6,7)]
    have "\<not> SGEN_VTABLE_IS_PINNED x" "SGEN_VTABLE_IS_FORWARDED x = 0"
      using tests(1,2) promoted(6) by (simp_all add: SGEN_OBJECT_IS_FORWARDED_def SGEN_OBJECT_IS_PINNED_def)
    then have "copy_nursery_object C R M a w s = Some (True, s)" using promoted(6) tests v by (simp add: copy_nursery_object_def)
    moreover have "SERIAL_COPY_OBJECT C R a (heap s) = Some (heap s)" using promoted tests by (simp add: SERIAL_COPY_OBJECT_def)
    ultimately show ?thesis using a by (auto simp: agrees_def)
  next
    case (object v)
    then have v: "v = w" using a(2) by simp
    show ?thesis using object_agrees [OF start services marks inv a(1) object [unfolded v] simple] .
  qed
  then show ?thesis using run by (auto simp: agrees_def)
qed

theorem major_copies_as_minor_witness:
  "\<exists>b t w'. copy_or_mark_object Major_plain demo_collector demo_runtime demo_major_services 0x30000 0x10000
       (demo_major_state\<lparr>heap := demo_state\<rparr>) = Some (b, t) \<and>
     SERIAL_COPY_OBJECT demo_collector demo_runtime 0x30000 demo_state = Some (heap t) \<and>
     load (mem (heap t)) 0x30000 = Some w' \<and> b = sgen_ptr_in_nursery demo_runtime w' \<and> mark_bits t = (if b then {} else {w'})"
proof -
  let ?s = "demo_major_state\<lparr>heap := demo_state\<rparr>"
  have inv: "collecting demo_collector demo_runtime demo_start {} (heap ?s)"
    using start_collecting [OF demo_start_ok demo_start_state] by simp
  have a: "slot demo_start (heap ?s) 0x30000" "load (mem (heap ?s)) 0x30000 = Some 0x10000" "sgen_ptr_in_nursery demo_runtime 0x10000"
    by (simp_all add: slot_def demo_nursery load_def demo_state_def demo_start_def)
  have marks: "set_mark_ok demo_major_services" by (simp add: set_mark_ok_def demo_major_services_def)
  have "sgen_nursery_is_to_space demo_runtime 0x10000 = Some False"
    using a(3) by (simp add: sgen_nursery_is_to_space_def Let_def) (simp add: demo_runtime_def)
  moreover have "\<not> is_concurrent Major_plain" by (simp add: is_concurrent_def)
  ultimately obtain b t w' where t:
      "copy_or_mark_object Major_plain demo_collector demo_runtime demo_major_services 0x30000 0x10000 ?s = Some (b, t)"
      "SERIAL_COPY_OBJECT demo_collector demo_runtime 0x30000 (heap ?s) = Some (heap t)"
      "load (mem (heap t)) 0x30000 = Some w'" "b = sgen_ptr_in_nursery demo_runtime w'"
      "mark_bits t = (if b \<or> forwarded_to (heap ?s) 0x10000 \<noteq> None then mark_bits ?s else insert w' (mark_bits ?s))"
    using major_copies_as_minor [OF demo_start_ok demo_services marks inv _ a, of Major_plain] by blast
  have "forwarded_to (heap ?s) 0x10000 = None" "mark_bits ?s = {}"
    by (simp_all add: forwarded_to_def demo_state_def demo_start_def demo_major_state_def)
  then have "mark_bits t = (if b then {} else {w'})" using t(5) by presburger
  then show ?thesis using t(1-4) by (intro exI conjI) simp_all
qed

end
