(* ===== verification/LinkedListSet.thy ===== *)
theory LinkedListSet
  imports WordHeap
begin

text \<open>
  Iterating over the lock-free linked-list set (\<open>mono-linked-list-set.h\<close>): the macro for a list that no thread
  modifies, and the one that runs while other threads insert, mark and unlink nodes. A node is its \<open>next\<close> word, whose lowest
  bit marks the node as removed, and its key. The second macro is a step function of the iterating thread, one access to memory
  that is shared at a time. The operations of \<open>mono-linked-list-set.c\<close>, which the repository does not hold, are
  parameters, and so are the filter, the body of the loop and the interference of other threads.
\<close>

section \<open>Pointers with a mark\<close>

definition mono_lls_pointer_unmask :: "u32 \<Rightarrow> u32" where
  "mono_lls_pointer_unmask p = p AND NOT 0x3"

definition mono_lls_pointer_get_mark :: "u32 \<Rightarrow> u32" where
  "mono_lls_pointer_get_mark n = n AND 0x1"

definition mono_lls_filter_accept_all :: "u32 \<Rightarrow> bool" where
  "mono_lls_filter_accept_all elem = True"

text \<open>Fields: \<open>next\<close> and \<open>head\<close> come first, \<open>key\<close> and \<open>free_node_func\<close> second.\<close>

definition node_next :: "u32 \<Rightarrow> u32" where
  "node_next n = n"

definition node_key :: "u32 \<Rightarrow> u32" where
  "node_key n = n + 4"

definition list_head :: "u32 \<Rightarrow> u32" where
  "list_head l = l"

definition list_free_func :: "u32 \<Rightarrow> u32" where
  "list_free_func l = l + 4"

text \<open>What the code around the macros supplies: the filter, and for which elements the body ends the loop by \<open>break\<close>.\<close>

record lls_client =
  keep_elem :: "u32 \<Rightarrow> bool"
  break_at :: "u32 \<Rightarrow> bool"

section \<open>Without other threads\<close>

text \<open>
  \<open>MONO_LLS_FOREACH_FILTERED\<close> from \<open>cur__\<close> on, with the elements that the body sees. A loop that does not end, or that
  reads a word that is not mapped, is \<open>None\<close>.
\<close>

partial_function (option) lls_foreach_from :: "lls_client \<Rightarrow> memory \<Rightarrow> u32 \<Rightarrow> u32 list option" where
  "lls_foreach_from B m cur =
    (if cur = 0 then Some []
     else do {
       nxt \<leftarrow> load m (node_next cur);
       let runs = mono_lls_pointer_get_mark nxt = 0 \<and> keep_elem B cur;
       (if runs \<and> break_at B cur then Some [cur]
        else do {
          rest \<leftarrow> lls_foreach_from B m (mono_lls_pointer_unmask nxt);
          Some (if runs then cur # rest else rest) }) })"

definition MONO_LLS_FOREACH_FILTERED :: "lls_client \<Rightarrow> u32 \<Rightarrow> memory \<Rightarrow> u32 list option" where
  "MONO_LLS_FOREACH_FILTERED B l m = do {
     cur \<leftarrow> load m (list_head l);
     lls_foreach_from B m cur }"

section \<open>While other threads modify the list\<close>

datatype lls_point =
    Lls_start      \<comment> \<open>the outer loop, also after a restart\<close>
  | Lls_head       \<comment> \<open>about to read \<open>list__->head\<close>\<close>
  | Lls_loop       \<comment> \<open>the inner loop\<close>
  | Lls_key        \<comment> \<open>about to read the key\<close>
  | Lls_check      \<comment> \<open>about to read \<open>*prev__\<close> again\<close>
  | Lls_unlink     \<comment> \<open>about to exchange \<open>*prev__\<close>\<close>
  | Lls_free       \<comment> \<open>unlinked, about to read \<open>free_node_func\<close>\<close>
  | Lls_advance
  | Lls_finish
  | Lls_done
  | Lls_undefined

record lls_state =
  lls_mem :: memory
  hazards :: "nat \<Rightarrow> u32"
  at_point :: lls_point
  prev_ptr :: u32
  cur_node :: u32
  next_word :: u32
  cur_key :: u32
  progress :: bool
  hkey :: u32
  visited :: "(u32 \<times> u32) list"     \<comment> \<open>the nodes and keys that the body saw\<close>
  freed :: "u32 list"               \<comment> \<open>the calls of \<open>mono_thread_hazardous_queue_free\<close>\<close>

text \<open>\<open>mono_lls_get_hazardous_pointer_with_mask\<close>: the word read and the hazard table after it.\<close>

type_synonym hazard_reader = "memory \<Rightarrow> (nat \<Rightarrow> u32) \<Rightarrow> u32 \<Rightarrow> nat \<Rightarrow> (u32 \<times> (nat \<Rightarrow> u32)) option"

definition mono_hazard_pointer_set :: "(nat \<Rightarrow> u32) \<Rightarrow> nat \<Rightarrow> u32 \<Rightarrow> nat \<Rightarrow> u32" where
  "mono_hazard_pointer_set hp i v = hp(i := v)"

definition mono_hazard_pointer_clear :: "(nat \<Rightarrow> u32) \<Rightarrow> nat \<Rightarrow> nat \<Rightarrow> u32" where
  "mono_hazard_pointer_clear hp i = hp(i := 0)"

text \<open>The part after the check: the body sees a key only when it is above those before.\<close>

definition lls_element :: "lls_client \<Rightarrow> lls_state \<Rightarrow> lls_state" where
  "lls_element B s =
    (let fresh = (\<not> progress s \<or> hkey s < cur_key s);
         t = (if fresh then s\<lparr>progress := True, hkey := cur_key s\<rparr> else s);
         runs = (fresh \<and> keep_elem B (cur_node s));
         t = (if runs then t\<lparr>visited := visited t @ [(cur_node s, cur_key s)]\<rparr> else t)
     in if runs \<and> break_at B (cur_node s) then t\<lparr>at_point := Lls_finish\<rparr>
        else t\<lparr>prev_ptr := node_next (cur_node s), hazards := mono_hazard_pointer_set (hazards t) 2 (cur_node s), at_point := Lls_advance\<rparr>)"

fun lls_exec :: "hazard_reader \<Rightarrow> lls_client \<Rightarrow> u32 \<Rightarrow> lls_point \<Rightarrow> lls_state \<Rightarrow> lls_state option" where
  "lls_exec G B l Lls_start s =
    Some (s\<lparr>prev_ptr := list_head l, hazards := mono_hazard_pointer_set (hazards s) 2 (list_head l), at_point := Lls_head\<rparr>)"
| "lls_exec G B l Lls_head s = do {
     (cur, hp) \<leftarrow> G (lls_mem s) (hazards s) (prev_ptr s) 1;
     Some (s\<lparr>cur_node := cur, hazards := hp, at_point := Lls_loop\<rparr>) }"
| "lls_exec G B l Lls_loop s =
    (if cur_node s = 0 then Some (s\<lparr>at_point := Lls_finish\<rparr>)
     else do {
       (nxt, hp) \<leftarrow> G (lls_mem s) (hazards s) (node_next (cur_node s)) 0;
       Some (s\<lparr>next_word := nxt, hazards := hp, at_point := Lls_key\<rparr>) })"
| "lls_exec G B l Lls_key s = do {
     key \<leftarrow> load (lls_mem s) (node_key (cur_node s));
     Some (s\<lparr>cur_key := key, at_point := Lls_check\<rparr>) }"
| "lls_exec G B l Lls_check s = do {
     p \<leftarrow> load (lls_mem s) (prev_ptr s);
     Some (if p \<noteq> cur_node s then s\<lparr>at_point := Lls_start\<rparr>
           else if mono_lls_pointer_get_mark (next_word s) = 0 then lls_element B s
           else s\<lparr>at_point := Lls_unlink\<rparr>) }"
| "lls_exec G B l Lls_unlink s = do {
     let nxt = mono_lls_pointer_unmask (next_word s);
     p \<leftarrow> load (lls_mem s) (prev_ptr s);
     (if p = cur_node s then do {
        m \<leftarrow> store (prev_ptr s) nxt (lls_mem s);
        Some (s\<lparr>next_word := nxt, lls_mem := m, hazards := mono_hazard_pointer_clear (hazards s) 1, at_point := Lls_free\<rparr>) }
      else Some (s\<lparr>next_word := nxt, at_point := Lls_start\<rparr>)) }"
| "lls_exec G B l Lls_free s = do {
     func \<leftarrow> load (lls_mem s) (list_free_func l);
     Some (s\<lparr>freed := freed s @ (if func \<noteq> 0 then [cur_node s] else []), at_point := Lls_advance\<rparr>) }"
| "lls_exec G B l Lls_advance s =
    (let cur = mono_lls_pointer_unmask (next_word s)
     in Some (s\<lparr>cur_node := cur, hazards := mono_hazard_pointer_set (hazards s) 1 cur, at_point := Lls_loop\<rparr>))"
| "lls_exec G B l Lls_finish s =
    Some (s\<lparr>hazards := mono_hazard_pointer_clear (mono_hazard_pointer_clear (mono_hazard_pointer_clear (hazards s) 0) 1) 2,
      at_point := Lls_done\<rparr>)"
| "lls_exec G B l _ s = Some s"

definition lls_step :: "hazard_reader \<Rightarrow> lls_client \<Rightarrow> u32 \<Rightarrow> lls_state \<Rightarrow> lls_state" where
  "lls_step G B l s = (case lls_exec G B l (at_point s) s of Some t \<Rightarrow> t | None \<Rightarrow> s\<lparr>at_point := Lls_undefined\<rparr>)"

text \<open>\<open>MONO_LLS_FOREACH_FILTERED_SAFE\<close> from its first line.\<close>

definition lls_initial :: "memory \<Rightarrow> (nat \<Rightarrow> u32) \<Rightarrow> lls_state" where
  "lls_initial m hp = \<lparr>lls_mem = m, hazards = hp, at_point = Lls_start, prev_ptr = 0, cur_node = 0, next_word = 0,
     cur_key = 0, progress = False, hkey = 0, visited = [], freed = []\<rparr>"

definition MONO_LLS_FOREACH_FILTERED_SAFE :: "hazard_reader \<Rightarrow> lls_client \<Rightarrow> u32 \<Rightarrow> nat \<Rightarrow> memory \<Rightarrow> (nat \<Rightarrow> u32) \<Rightarrow> lls_state" where
  "MONO_LLS_FOREACH_FILTERED_SAFE G B l n m hp = (lls_step G B l ^^ n) (lls_initial m hp)"

text \<open>The same thread while others write to memory at any moment; they never mark the head.\<close>

inductive lls_reachable :: "hazard_reader \<Rightarrow> lls_client \<Rightarrow> u32 \<Rightarrow> lls_state \<Rightarrow> bool" for G B l where
  initial: "lls_reachable G B l (lls_initial m hp)" if "m (list_head l) = Some h" "4 dvd unat h"
| ran: "lls_reachable G B l (lls_step G B l s)" if "lls_reachable G B l s"
| interfered: "lls_reachable G B l (s\<lparr>lls_mem := m\<rparr>)"
    if "lls_reachable G B l s" "m (list_head l) = Some h" "4 dvd unat h"

end
