(* ===== verification/LinkedListSetProps.thy ===== *)
theory LinkedListSetProps
  imports LinkedListSet
begin

text \<open>
  The iteration over a linked-list set: with interference, what it promises at every moment; without, that both
  macros see the unmarked nodes in order, and that the safe one unlinks and frees the marked nodes it passes.
\<close>

section \<open>Pointers\<close>

lemma dvd4_iff: "4 dvd unat (a :: u32) \<longleftrightarrow> a AND 3 = 0"
proof -
  have "a AND 3 = take_bit 2 a" by (simp add: take_bit_eq_mask mask_eq_exp_minus_1)
  then have "unat (a AND 3) = take_bit 2 (unat a)" by (simp only: unsigned_take_bit_eq)
  then have "unat (a AND 3) = unat a mod 4" by (simp add: take_bit_eq_mod)
  then show ?thesis by (metis dvd_eq_mod_eq_0 unat_0 unat_eq_0)
qed

lemma marked_word:
  assumes "4 dvd unat (n :: u32)"
  shows "mono_lls_pointer_unmask (n OR of_bool b) = n" "mono_lls_pointer_get_mark (n OR of_bool b) = of_bool b"
proof -
  have low: "n AND 3 = 0" using assms by (simp add: dvd4_iff)
  have bits: "\<not> bit n 0" "\<not> bit n 1"
  proof -
    have "bit (n AND 3) i = False" for i using low by simp
    then have "bit n i \<and> bit (3 :: u32) i \<Longrightarrow> False" for i by (metis bit_and_iff)
    moreover have "bit (3 :: u32) 0" "bit (3 :: u32) 1" by simp_all
    ultimately show "\<not> bit n 0" "\<not> bit n 1" by blast+
  qed
  have three: "bit (3 :: u32) i \<longleftrightarrow> i = 0 \<or> i = 1" for i
  proof -
    have "(mask 2 :: u32) = 3" by (simp add: mask_eq_exp_minus_1)
    moreover have "bit (mask 2 :: u32) i \<longleftrightarrow> i < 2" by (auto simp: bit_mask_iff)
    ultimately show ?thesis by (simp add: less_2_cases_iff)
  qed
  show "mono_lls_pointer_unmask (n OR of_bool b) = n"
    unfolding mono_lls_pointer_unmask_def
  proof (rule bit_word_eqI)
    fix i assume i: "i < LENGTH(32)"
    show "bit ((n OR of_bool b) AND NOT 3) i = bit n i"
      using bits i unfolding bit_and_iff bit_or_iff bit_not_iff three by (cases "i = 0"; cases "i = 1") (auto simp: bit_of_bool_iff)
  qed
  show "mono_lls_pointer_get_mark (n OR of_bool b) = of_bool b"
    using bits unfolding mono_lls_pointer_get_mark_def
    by (intro bit_word_eqI) (auto simp: bit_simps)
qed

lemma plain_word:
  assumes "4 dvd unat (n :: u32)"
  shows "mono_lls_pointer_unmask n = n" "mono_lls_pointer_get_mark n = 0"
  using marked_word [OF assms, of False] by simp_all

lemma unmask_aligned: "4 dvd unat (mono_lls_pointer_unmask p)"
  by (simp add: dvd4_iff mono_lls_pointer_unmask_def bit_eq_iff bit_simps)

lemma key_aligned: "4 dvd unat n \<Longrightarrow> 4 dvd unat (n + 4 :: u32)"
  by (simp add: unat_word_ariths dvd_mod)

section \<open>What the reader of a hazardous pointer promises\<close>

definition hazard_reader_ok :: "hazard_reader \<Rightarrow> bool" where
  "hazard_reader_ok G \<longleftrightarrow>
     (\<forall>m hp a i. G m hp a i = map_option (\<lambda>p. (p, mono_hazard_pointer_set hp i (mono_lls_pointer_unmask p))) (load m a))"

section \<open>With interference\<close>

text \<open>The words of the list that the next step accesses, and the node that it goes on to.\<close>

definition lls_accessed :: "lls_state \<Rightarrow> u32 set" where
  "lls_accessed s = (case at_point s of
     Lls_head \<Rightarrow> {prev_ptr s}
   | Lls_loop \<Rightarrow> {cur_node s} - {0}
   | Lls_key \<Rightarrow> {cur_node s}
   | Lls_check \<Rightarrow> {prev_ptr s, cur_node s}
   | Lls_unlink \<Rightarrow> {prev_ptr s, cur_node s}
   | Lls_advance \<Rightarrow> {mono_lls_pointer_unmask (next_word s)} - {0}
   | _ \<Rightarrow> {})"

definition lls_inv :: "lls_client \<Rightarrow> u32 \<Rightarrow> lls_state \<Rightarrow> bool" where
  "lls_inv B l s \<longleftrightarrow> (\<exists>h. lls_mem s (list_head l) = Some h \<and> 4 dvd unat h) \<and>
     sorted_wrt (<) (map snd (visited s)) \<and>
     (\<forall>(n, k) \<in> set (visited s). keep_elem B n \<and> progress s \<and> k \<le> hkey s) \<and>
     (at_point s \<in> {Lls_head, Lls_loop, Lls_key, Lls_check, Lls_unlink, Lls_free, Lls_advance} \<longrightarrow> hazards s 2 = prev_ptr s) \<and>
     (at_point s = Lls_head \<longrightarrow> prev_ptr s = list_head l) \<and>
     (at_point s = Lls_loop \<longrightarrow> cur_node s \<noteq> 0 \<longrightarrow> hazards s 1 = cur_node s) \<and>
     (at_point s \<in> {Lls_key, Lls_check, Lls_unlink} \<longrightarrow> cur_node s \<noteq> 0 \<and> hazards s 1 = cur_node s) \<and>
     (at_point s \<in> {Lls_key, Lls_check, Lls_unlink, Lls_free, Lls_advance} \<longrightarrow> hazards s 0 = mono_lls_pointer_unmask (next_word s)) \<and>
     (at_point s = Lls_done \<longrightarrow> (\<forall>i<3. hazards s i = 0))"

lemma unmask_idem: "mono_lls_pointer_unmask (mono_lls_pointer_unmask p) = mono_lls_pointer_unmask p"
  by (rule plain_word(1) [OF unmask_aligned])

lemmas hazard_defs = mono_hazard_pointer_set_def mono_hazard_pointer_clear_def

lemma inv_facts:
  assumes "lls_inv B l s"
  shows "\<exists>h. lls_mem s (list_head l) = Some h \<and> 4 dvd unat h" "sorted_wrt (<) (map snd (visited s))"
    "(n, k) \<in> set (visited s) \<Longrightarrow> keep_elem B n \<and> progress s \<and> k \<le> hkey s"
    "at_point s \<in> {Lls_head, Lls_loop, Lls_key, Lls_check, Lls_unlink, Lls_free, Lls_advance} \<Longrightarrow> hazards s 2 = prev_ptr s"
proof -
  note inv = assms [unfolded lls_inv_def]
  show "\<exists>h. lls_mem s (list_head l) = Some h \<and> 4 dvd unat h" "sorted_wrt (<) (map snd (visited s))" using inv by blast+
  show "keep_elem B n \<and> progress s \<and> k \<le> hkey s" if "(n, k) \<in> set (visited s)" using inv that by fast
  show "hazards s 2 = prev_ptr s"
    if "at_point s \<in> {Lls_head, Lls_loop, Lls_key, Lls_check, Lls_unlink, Lls_free, Lls_advance}" using inv that by blast
qed

text \<open>A step that leaves the elements seen and the head alone.\<close>

lemma inv_quiet:
  assumes "lls_inv B l s" "lls_mem t = lls_mem s" "visited t = visited s" "progress t = progress s" "hkey t = hkey s"
    and "at_point t \<in> {Lls_head, Lls_loop, Lls_key, Lls_check, Lls_unlink, Lls_free, Lls_advance} \<longrightarrow> hazards t 2 = prev_ptr t"
    and "at_point t = Lls_head \<longrightarrow> prev_ptr t = list_head l"
    and "at_point t = Lls_loop \<longrightarrow> cur_node t \<noteq> 0 \<longrightarrow> hazards t 1 = cur_node t"
    and "at_point t \<in> {Lls_key, Lls_check, Lls_unlink} \<longrightarrow> cur_node t \<noteq> 0 \<and> hazards t 1 = cur_node t"
    and "at_point t \<in> {Lls_key, Lls_check, Lls_unlink, Lls_free, Lls_advance} \<longrightarrow> hazards t 0 = mono_lls_pointer_unmask (next_word t)"
    and "at_point t = Lls_done \<longrightarrow> (\<forall>i<3. hazards t i = 0)"
  shows "lls_inv B l t"
  using assms unfolding lls_inv_def by simp

lemma inv_element:
  assumes "lls_inv B l s" "at_point s = Lls_check"
  shows "lls_inv B l (lls_element B s)"
proof -
  have old: "sorted_wrt (<) (map snd (visited s))" "\<forall>(n, k) \<in> set (visited s). keep_elem B n \<and> progress s \<and> k \<le> hkey s"
      "hazards s 0 = mono_lls_pointer_unmask (next_word s)" "\<exists>h. lls_mem s (list_head l) = Some h \<and> 4 dvd unat h"
    using assms by (auto simp: lls_inv_def)
  show ?thesis
  proof (cases "\<not> progress s \<or> hkey s < cur_key s")
    case True
    then have less: "k < cur_key s" if "(n, k) \<in> set (visited s)" for n k using old(2) that by force
    then have "\<forall>(n, k) \<in> set (visited s). keep_elem B n \<and> k \<le> cur_key s" using old(2) by fastforce
    then show ?thesis using True old less unfolding lls_inv_def
      by (auto simp: lls_element_def Let_def hazard_defs node_next_def sorted_wrt_append)
  next
    case False
    then show ?thesis using old unfolding lls_inv_def by (simp add: lls_element_def Let_def hazard_defs node_next_def)
  qed
qed

lemma inv_step:
  assumes G: "hazard_reader_ok G" and inv: "lls_inv B l s"
  shows "lls_inv B l (lls_step G B l s)"
proof -
  have three: "i < 3 \<longleftrightarrow> i = 0 \<or> i = 1 \<or> i = (2::nat)" for i by auto
  have G': "G m hp a i = map_option (\<lambda>p. (p, hp(i := mono_lls_pointer_unmask p))) (load m a)" for m hp a i
    using G by (simp add: hazard_reader_ok_def hazard_defs)
  note two = inv_facts(4) [OF inv]
  show ?thesis
  proof (cases "at_point s")
    case Lls_head
    obtain h where h: "lls_mem s (list_head l) = Some h" "4 dvd unat h" using inv_facts(1) [OF inv] by blast
    have "prev_ptr s = list_head l" using inv Lls_head by (simp add: lls_inv_def)
    then have "lls_step G B l s = s\<lparr>at_point := Lls_undefined\<rparr> \<or>
        lls_step G B l s = s\<lparr>cur_node := h, hazards := (hazards s)(1 := h), at_point := Lls_loop\<rparr>"
      using Lls_head h plain_word(1) [OF h(2)] by (simp add: lls_step_def G' load_def)
    then show ?thesis using two Lls_head by (elim disjE) (auto intro!: inv_quiet [OF inv])
  next
    case Lls_loop
    have "hazards s 1 = cur_node s" if "cur_node s \<noteq> 0" using inv Lls_loop that by (simp add: lls_inv_def)
    then show ?thesis using two Lls_loop
      by (cases "load (lls_mem s) (node_next (cur_node s))") (auto simp: lls_step_def G' intro!: inv_quiet [OF inv])
  next
    case Lls_key
    have "cur_node s \<noteq> 0" "hazards s 1 = cur_node s" "hazards s 0 = mono_lls_pointer_unmask (next_word s)"
      using inv Lls_key by (simp_all add: lls_inv_def)
    then show ?thesis using two Lls_key
      by (cases "load (lls_mem s) (node_key (cur_node s))") (auto simp: lls_step_def intro!: inv_quiet [OF inv])
  next
    case Lls_check
    have old: "cur_node s \<noteq> 0" "hazards s 1 = cur_node s" "hazards s 0 = mono_lls_pointer_unmask (next_word s)"
      using inv Lls_check by (simp_all add: lls_inv_def)
    show ?thesis
    proof (cases "load (lls_mem s) (prev_ptr s) = Some (cur_node s) \<and> mono_lls_pointer_get_mark (next_word s) = 0")
      case True
      then show ?thesis using Lls_check inv_element [OF inv Lls_check] by (simp add: lls_step_def)
    next
      case False
      then show ?thesis using old two Lls_check
        by (cases "load (lls_mem s) (prev_ptr s)") (auto simp: lls_step_def intro!: inv_quiet [OF inv])
    qed
  next
    case Lls_unlink
    have old: "cur_node s \<noteq> 0" "hazards s 1 = cur_node s" "hazards s 0 = mono_lls_pointer_unmask (next_word s)"
      using inv Lls_unlink by (simp_all add: lls_inv_def)
    let ?n = "mono_lls_pointer_unmask (next_word s)"
    show ?thesis
    proof (cases "load (lls_mem s) (prev_ptr s) = Some (cur_node s)")
      case True
      then have "store (prev_ptr s) ?n (lls_mem s) = Some ((lls_mem s)(prev_ptr s \<mapsto> ?n))" by (auto simp: load_def store_def split: if_splits)
      then have step: "lls_step G B l s = s\<lparr>next_word := ?n, lls_mem := (lls_mem s)(prev_ptr s \<mapsto> ?n),
          hazards := (hazards s)(1 := 0), at_point := Lls_free\<rparr>"
        using True Lls_unlink by (simp add: lls_step_def hazard_defs Let_def)
      show ?thesis using inv_facts(1-3) [OF inv] two Lls_unlink old unmask_aligned unfolding step lls_inv_def
        by (auto simp: unmask_idem)
    next
      case False
      then show ?thesis using old two Lls_unlink
        by (cases "load (lls_mem s) (prev_ptr s)") (auto simp: lls_step_def Let_def intro!: inv_quiet [OF inv])
    qed
  next
    case Lls_free
    have "hazards s 0 = mono_lls_pointer_unmask (next_word s)" using inv Lls_free by (simp add: lls_inv_def)
    then show ?thesis using two Lls_free
      by (cases "load (lls_mem s) (list_free_func l)") (auto simp: lls_step_def intro!: inv_quiet [OF inv])
  next
    case Lls_done
    have "\<forall>i<3. hazards s i = 0" using inv Lls_done by (simp add: lls_inv_def)
    then show ?thesis using Lls_done by (auto simp: lls_step_def intro!: inv_quiet [OF inv])
  qed (use two in \<open>auto simp: lls_step_def hazard_defs three Let_def intro!: inv_quiet [OF inv]\<close>)
qed

lemma lls_reachable_inv:
  assumes "hazard_reader_ok G" "lls_reachable G B l s"
  shows "lls_inv B l s"
  using assms(2)
proof (induction rule: lls_reachable.induct)
  case (initial m h hp)
  then show ?case by (simp add: lls_inv_def lls_initial_def)
next
  case (ran s)
  then show ?case using inv_step [OF assms(1)] by blast
next
  case (interfered s m h)
  then show ?case by (simp add: lls_inv_def)
qed

lemma accessed_protected:
  assumes "lls_inv B l s"
  shows "lls_accessed s \<subseteq> hazards s ` {0, 1, 2}"
proof -
  note inv = assms [unfolded lls_inv_def]
  have "hazards s i \<in> hazards s ` {0, 1, 2}" if "i \<in> {0, 1, 2}" for i using that by blast
  moreover have "lls_accessed s \<subseteq> {hazards s 0, hazards s 1, hazards s 2}"
    using inv by (cases "at_point s") (auto simp: lls_accessed_def)
  ultimately show ?thesis by blast
qed

section \<open>Without interference\<close>

text \<open>A list in memory: node, key and mark of each element, from the field that points to the first.\<close>

type_synonym lnode = "u32 \<times> u32 \<times> bool"

fun lls_chain :: "memory \<Rightarrow> u32 \<Rightarrow> bool \<Rightarrow> lnode list \<Rightarrow> bool" where
  "lls_chain m f b [] \<longleftrightarrow> m f = Some (0 OR of_bool b)"
| "lls_chain m f b ((n, k, c) # xs) \<longleftrightarrow>
     m f = Some (n OR of_bool b) \<and> n \<noteq> 0 \<and> 4 dvd unat n \<and> m (n + 4) = Some k \<and> lls_chain m n c xs"

definition node_words :: "lnode list \<Rightarrow> u32 list" where
  "node_words xs = concat (map (\<lambda>(n, k, c). [n, n + 4]) xs)"

text \<open>What the loop does: the elements seen, the nodes unlinked, and the list that it leaves.\<close>

fun lls_walk :: "lls_client \<Rightarrow> lnode list \<Rightarrow> (u32 \<times> u32) list \<times> u32 list \<times> lnode list" where
  "lls_walk B [] = ([], [], [])"
| "lls_walk B ((n, k, c) # xs) =
    (let (v, f, r) = lls_walk B xs
     in if c then (v, n # f, r)
        else if keep_elem B n then (if break_at B n then ([(n, k)], [], (n, k, c) # xs) else ((n, k) # v, f, (n, k, c) # r))
        else (v, f, (n, k, c) # r))"

fun keys_rise :: "bool \<Rightarrow> u32 \<Rightarrow> lnode list \<Rightarrow> bool" where
  "keys_rise p h [] = True"
| "keys_rise p h ((n, k, c) # xs) = (if c then keys_rise p h xs else (p \<longrightarrow> h < k) \<and> keys_rise True k xs)"

lemma node_words_simps [simp]: "node_words [] = []" "node_words ((n, k, c) # xs) = n # (n + 4) # node_words xs"
  by (simp_all add: node_words_def)

definition first_word :: "bool \<Rightarrow> lnode list \<Rightarrow> u32" where
  "first_word b xs = (case xs of [] \<Rightarrow> 0 | (n, k, c) # _ \<Rightarrow> n) OR of_bool b"

lemma chain_first: "lls_chain m f b xs \<Longrightarrow> m f = Some (first_word b xs)"
  by (cases xs) (auto simp: first_word_def)

lemma chain_frame:
  "lls_chain m f b xs \<Longrightarrow> \<forall>a \<in> set (f # node_words xs). m' a = m a \<Longrightarrow> lls_chain m' f b xs"
  by (induction xs arbitrary: f b) auto

text \<open>Another field that points to the first node, with its own mark.\<close>

lemma chain_relink:
  assumes "lls_chain m n c xs" "m' f = Some (first_word b xs)" "\<forall>a \<in> set (node_words xs). m' a = m a"
  shows "lls_chain m' f b xs"
proof (cases xs)
  case (Cons x ys)
  obtain a k d where x: "x = (a, k, d)" by (cases x)
  have c: "a \<noteq> 0" "4 dvd unat a" "m (a + 4) = Some k" "lls_chain m a d ys" using assms(1) Cons x by simp_all
  have same: "\<forall>b \<in> set (a # node_words ys). m' b = m b" "m' (a + 4) = m (a + 4)" using assms(3) Cons x by simp_all
  have "lls_chain m' a d ys" by (rule chain_frame [OF c(4) same(1)])
  then show ?thesis using assms(2) Cons x c same(2) by (simp add: first_word_def)
qed (use assms in \<open>simp add: first_word_def\<close>)

lemma first_unmask: "lls_chain m f b xs \<Longrightarrow> mono_lls_pointer_unmask (first_word c xs) = first_word False xs"
proof -
  assume "lls_chain m f b xs"
  then have "4 dvd unat (case xs of [] \<Rightarrow> 0 | (n, k, c) # _ \<Rightarrow> n)" by (cases xs) auto
  then show ?thesis unfolding first_word_def by (simp only: marked_word(1)) simp
qed

lemma first_mark: "lls_chain m f b xs \<Longrightarrow> mono_lls_pointer_get_mark (first_word c xs) = of_bool c"
proof -
  assume "lls_chain m f b xs"
  then have "4 dvd unat (case xs of [] \<Rightarrow> 0 | (n, k, c) # _ \<Rightarrow> n)" by (cases xs) auto
  then show ?thesis unfolding first_word_def by (rule marked_word(2))
qed

text \<open>The state in front of a node.\<close>

definition before :: "u32 \<Rightarrow> lnode list \<Rightarrow> lls_state \<Rightarrow> bool" where
  "before f xs s \<longleftrightarrow> at_point s = Lls_loop \<and> prev_ptr s = f \<and> cur_node s = first_word False xs \<and> lls_chain (lls_mem s) f False xs \<and>
     4 dvd unat f \<and> distinct (f # node_words xs) \<and> keys_rise (progress s) (hkey s) xs"

lemma step_unmarked:
  assumes G: "hazard_reader_ok G" and s: "before f ((n, k, False) # xs) s"
  shows "\<exists>t. (lls_step G B l ^^ 3) s = t \<and> lls_mem t = lls_mem s \<and> freed t = freed s \<and>
    visited t = visited s @ (if keep_elem B n then [(n, k)] else []) \<and>
    (if keep_elem B n \<and> break_at B n then at_point t = Lls_finish
     else at_point t = Lls_advance \<and> prev_ptr t = n \<and> next_word t = first_word False xs \<and> progress t \<and> hkey t = k)"
proof -
  have G': "G m hp a i = map_option (\<lambda>p. (p, hp(i := mono_lls_pointer_unmask p))) (load m a)" for m hp a i
    using G by (simp add: hazard_reader_ok_def hazard_defs)
  have c: "lls_mem s f = Some n" "n \<noteq> 0" "4 dvd unat n" "lls_mem s (n + 4) = Some k" "lls_chain (lls_mem s) n False xs" "4 dvd unat f"
      "at_point s = Lls_loop" "prev_ptr s = f" "cur_node s = n" "progress s \<longrightarrow> hkey s < k"
    using s by (simp_all add: before_def first_word_def)
  have nxt: "lls_mem s n = Some (first_word False xs)" using chain_first [OF c(5)] .
  let ?s1 = "s\<lparr>next_word := first_word False xs, hazards := (hazards s)(0 := mono_lls_pointer_unmask (first_word False xs)), at_point := Lls_key\<rparr>"
  have 1: "lls_step G B l s = ?s1" using c nxt by (simp add: lls_step_def G' load_def node_next_def)
  have 2: "lls_step G B l ?s1 = ?s1\<lparr>cur_key := k, at_point := Lls_check\<rparr>"
    using c key_aligned [OF c(3)] by (simp add: lls_step_def load_def node_key_def)
  have 3: "lls_step G B l (?s1\<lparr>cur_key := k, at_point := Lls_check\<rparr>) = lls_element B (?s1\<lparr>cur_key := k, at_point := Lls_check\<rparr>)"
    using c first_mark [OF c(5), of False] by (simp add: lls_step_def load_def)
  have three: "(lls_step G B l ^^ 3) s = lls_element B (?s1\<lparr>cur_key := k, at_point := Lls_check\<rparr>)"
    by (simp only: numeral_3_eq_3 funpow.simps o_apply id_apply 1 2 3)
  show ?thesis unfolding three using c by (simp add: lls_element_def Let_def hazard_defs node_next_def)
qed

lemma step_marked:
  assumes G: "hazard_reader_ok G" and s: "before f ((n, k, True) # xs) s" and func: "lls_mem s (l + 4) = Some fn" "4 dvd unat l"
    "l + 4 \<noteq> f"
  shows "\<exists>t. (lls_step G B l ^^ 5) s = t \<and> lls_mem t = (lls_mem s)(f \<mapsto> first_word False xs) \<and>
    freed t = freed s @ (if fn \<noteq> 0 then [n] else []) \<and> visited t = visited s \<and> at_point t = Lls_advance \<and> prev_ptr t = f \<and>
    next_word t = first_word False xs \<and> progress t = progress s \<and> hkey t = hkey s"
proof -
  have G': "G m hp a i = map_option (\<lambda>p. (p, hp(i := mono_lls_pointer_unmask p))) (load m a)" for m hp a i
    using G by (simp add: hazard_reader_ok_def hazard_defs)
  have c: "lls_mem s f = Some n" "n \<noteq> 0" "4 dvd unat n" "lls_mem s (n + 4) = Some k" "lls_chain (lls_mem s) n True xs" "4 dvd unat f"
      "at_point s = Lls_loop" "prev_ptr s = f" "cur_node s = n"
    using s by (simp_all add: before_def first_word_def)
  have nxt: "lls_mem s n = Some (first_word True xs)" using chain_first [OF c(5)] .
  let ?s1 = "s\<lparr>next_word := first_word True xs, hazards := (hazards s)(0 := mono_lls_pointer_unmask (first_word True xs)), at_point := Lls_key\<rparr>"
  let ?s2 = "?s1\<lparr>cur_key := k, at_point := Lls_check\<rparr>"
  let ?s4 = "?s2\<lparr>next_word := first_word False xs, lls_mem := (lls_mem s)(f \<mapsto> first_word False xs), hazards := (hazards ?s2)(1 := 0), at_point := Lls_free\<rparr>"
  have 1: "lls_step G B l s = ?s1" using c nxt by (simp add: lls_step_def G' load_def node_next_def)
  have 2: "lls_step G B l ?s1 = ?s2" using c key_aligned [OF c(3)] by (simp add: lls_step_def load_def node_key_def)
  have 3: "lls_step G B l ?s2 = ?s2\<lparr>at_point := Lls_unlink\<rparr>"
    using c first_mark [OF c(5), of True] by (simp add: lls_step_def load_def)
  have 4: "lls_step G B l (?s2\<lparr>at_point := Lls_unlink\<rparr>) = ?s4"
    using c first_unmask [OF c(5), of True] by (simp add: lls_step_def load_def store_def Let_def hazard_defs)
  have 5: "lls_step G B l ?s4 = ?s4\<lparr>freed := freed s @ (if fn \<noteq> 0 then [n] else []), at_point := Lls_advance\<rparr>"
    using c func key_aligned [OF func(2)] by (simp add: lls_step_def load_def list_free_func_def)
  have "5 = Suc (Suc (Suc (Suc (Suc 0))))" by simp
  then have five: "(lls_step G B l ^^ 5) s = ?s4\<lparr>freed := freed s @ (if fn \<noteq> 0 then [n] else []), at_point := Lls_advance\<rparr>"
    by (simp only: funpow.simps o_apply id_apply 1 2 3 4 5)
  show ?thesis unfolding five using c by simp
qed

lemma step_advance:
  assumes "at_point t = Lls_advance" "next_word t = first_word False xs" "lls_chain (lls_mem t) (prev_ptr t) False xs"
    and "4 dvd unat (prev_ptr t)" "distinct (prev_ptr t # node_words xs)" "keys_rise (progress t) (hkey t) xs"
  obtains u where "lls_step G B l t = u" "before (prev_ptr t) xs u" "lls_mem u = lls_mem t" "visited u = visited t" "freed u = freed t"
    "prev_ptr u = prev_ptr t"
proof
  show "before (prev_ptr t) xs (lls_step G B l t)"
    using assms first_unmask [OF assms(3), of False] by (simp add: before_def lls_step_def Let_def)
  show "lls_mem (lls_step G B l t) = lls_mem t" "visited (lls_step G B l t) = visited t" "freed (lls_step G B l t) = freed t"
      "prev_ptr (lls_step G B l t) = prev_ptr t"
    using assms(1) by (simp_all add: lls_step_def Let_def)
qed simp

lemma step_finish:
  assumes "at_point t = Lls_finish"
  shows "at_point (lls_step G B l t) = Lls_done" "\<forall>i<3. hazards (lls_step G B l t) i = 0" "lls_mem (lls_step G B l t) = lls_mem t"
    "visited (lls_step G B l t) = visited t" "freed (lls_step G B l t) = freed t"
proof -
  have "i < 3 \<longleftrightarrow> i = 0 \<or> i = 1 \<or> i = (2::nat)" for i by auto
  then show "at_point (lls_step G B l t) = Lls_done" "\<forall>i<3. hazards (lls_step G B l t) i = 0" "lls_mem (lls_step G B l t) = lls_mem t"
    "visited (lls_step G B l t) = visited t" "freed (lls_step G B l t) = freed t"
    using assms by (auto simp: lls_step_def hazard_defs)
qed

text \<open>What the rest of the loop does, from a state in front of a node.\<close>

definition lls_outcome :: "lls_client \<Rightarrow> u32 \<Rightarrow> u32 \<Rightarrow> lnode list \<Rightarrow> lls_state \<Rightarrow> lls_state \<Rightarrow> bool" where
  "lls_outcome B fn f xs s t \<longleftrightarrow> at_point t = Lls_done \<and> (\<forall>i<3. hazards t i = 0) \<and>
     visited t = visited s @ fst (lls_walk B xs) \<and>
     freed t = freed s @ (if fn \<noteq> 0 then fst (snd (lls_walk B xs)) else []) \<and>
     lls_chain (lls_mem t) f False (snd (snd (lls_walk B xs))) \<and>
     (\<forall>a. a \<notin> set (f # node_words xs) \<longrightarrow> lls_mem t a = lls_mem s a)"

lemma funpow_then: "(f ^^ (m + k)) s = (f ^^ m) ((f ^^ k) s)"
  by (simp add: funpow_add)

lemma loop_runs:
  assumes "hazard_reader_ok G" "before f xs s" "lls_mem s (l + 4) = Some fn" "4 dvd unat l" "l + 4 \<notin> set (f # node_words xs)"
  shows "\<exists>n \<le> 6 * length xs + 2. lls_outcome B fn f xs s ((lls_step G B l ^^ n) s)"
  using assms(2-)
proof (induction xs arbitrary: f s)
  case Nil
  let ?t = "s\<lparr>at_point := Lls_finish\<rparr>"
  have one: "lls_step G B l s = ?t" "at_point ?t = Lls_finish" "lls_chain (lls_mem s) f False []"
    using Nil by (simp_all add: before_def first_word_def lls_step_def)
  have "(lls_step G B l ^^ 2) s = lls_step G B l ?t" by (simp add: numeral_2_eq_2 one(1))
  moreover have "lls_outcome B fn f [] s (lls_step G B l ?t)"
    using step_finish [OF one(2), of G B l] one(3) by (simp add: lls_outcome_def)
  ultimately have "lls_outcome B fn f [] s ((lls_step G B l ^^ 2) s)" by simp
  then show ?case by (intro exI [of _ 2]) simp
next
  case (Cons x xs)
  obtain n k c where x: "x = (n, k, c)" by (cases x)
  have b: "before f ((n, k, c) # xs) s" using Cons.prems(1) x by simp
  then have chain: "lls_mem s f = Some n" "n \<noteq> 0" "4 dvd unat n" "lls_mem s (n + 4) = Some k" "lls_chain (lls_mem s) n c xs" "4 dvd unat f"
    and dist: "distinct (f # n # (n + 4) # node_words xs)" and rise: "keys_rise (progress s) (hkey s) ((n, k, c) # xs)"
    by (simp_all add: before_def)
  obtain v fr r where w: "lls_walk B xs = (v, fr, r)" by (cases "lls_walk B xs")
  show ?case
  proof (cases c)
    case True
    have m: "before f ((n, k, True) # xs) s" using b True by simp
    obtain t where t: "(lls_step G B l ^^ 5) s = t" "lls_mem t = (lls_mem s)(f \<mapsto> first_word False xs)"
        "freed t = freed s @ (if fn \<noteq> 0 then [n] else [])" "visited t = visited s" "at_point t = Lls_advance" "prev_ptr t = f"
        "next_word t = first_word False xs" "progress t = progress s" "hkey t = hkey s"
      using step_marked [OF assms(1) m Cons.prems(2,3)] Cons.prems(4) by auto
    have "lls_chain (lls_mem t) f False xs"
    proof (rule chain_relink [OF chain(5)])
      show "\<forall>a \<in> set (node_words xs). lls_mem t a = lls_mem s a" using dist t(2) by auto
    qed (simp add: t(2))
    then obtain u where u: "lls_step G B l t = u" "before f xs u" "lls_mem u = lls_mem t" "visited u = visited t" "freed u = freed t"
      using step_advance [of t xs G B l] t dist rise chain(6) True by auto
    have "lls_mem u (l + 4) = Some fn" using u(3) t(2) Cons.prems(2,4) by auto
    then obtain j where j: "j \<le> 6 * length xs + 2" "lls_outcome B fn f xs u ((lls_step G B l ^^ j) u)"
      using Cons.IH [OF u(2) _ Cons.prems(3)] Cons.prems(4) x by auto
    have six: "(lls_step G B l ^^ (j + 6)) s = (lls_step G B l ^^ j) u"
    proof -
      have "(lls_step G B l ^^ (1 + 5)) s = u" using funpow_then [of 1 5 "lls_step G B l" s] t(1) u(1) by simp
      then show ?thesis using funpow_then [of j 6 "lls_step G B l" s] by simp
    qed
    have "lls_outcome B fn f (x # xs) s ((lls_step G B l ^^ (j + 6)) s)"
      unfolding six using j(2) u t x True w by (auto simp: lls_outcome_def)
    then show ?thesis using j(1) by (intro exI [of _ "j + 6"]) simp
  next
    case False
    have m: "before f ((n, k, False) # xs) s" using b False by simp
    obtain t where t: "(lls_step G B l ^^ 3) s = t" "lls_mem t = lls_mem s" "freed t = freed s"
        "visited t = visited s @ (if keep_elem B n then [(n, k)] else [])"
        "if keep_elem B n \<and> break_at B n then at_point t = Lls_finish
         else at_point t = Lls_advance \<and> prev_ptr t = n \<and> next_word t = first_word False xs \<and> progress t \<and> hkey t = k"
      using step_unmarked [OF assms(1) m] by blast
    show ?thesis
    proof (cases "keep_elem B n \<and> break_at B n")
      case stop: True
      then have fin: "at_point t = Lls_finish" using t(5) by simp
      have "(lls_step G B l ^^ (1 + 3)) s = lls_step G B l t" using funpow_then [of 1 3 "lls_step G B l" s] t(1) by simp
      then have "(lls_step G B l ^^ 4) s = lls_step G B l t" by simp
      moreover have "lls_outcome B fn f (x # xs) s (lls_step G B l t)"
        using step_finish [OF fin, of G B l] t(2-4) x False stop w chain by (simp add: lls_outcome_def)
      ultimately have "lls_outcome B fn f (x # xs) s ((lls_step G B l ^^ 4) s)" by simp
      then show ?thesis by (intro exI [of _ 4]) simp
    next
      case go: False
      then have adv: "at_point t = Lls_advance" "prev_ptr t = n" "next_word t = first_word False xs" "progress t" "hkey t = k"
        using t(5) by auto
      obtain u where u: "lls_step G B l t = u" "before n xs u" "lls_mem u = lls_mem t" "visited u = visited t" "freed u = freed t"
        using step_advance [of t xs G B l] adv t(2) chain(3,5) False dist rise by auto
      have "lls_mem u (l + 4) = Some fn" "l + 4 \<notin> set (n # node_words xs)" using u(3) t(2) Cons.prems(2,4) x by auto
      then obtain j where j: "j \<le> 6 * length xs + 2" "lls_outcome B fn n xs u ((lls_step G B l ^^ j) u)"
        using Cons.IH [OF u(2) _ Cons.prems(3)] by auto
      have four: "(lls_step G B l ^^ (j + 4)) s = (lls_step G B l ^^ j) u"
      proof -
        have "(lls_step G B l ^^ (1 + 3)) s = u" using funpow_then [of 1 3 "lls_step G B l" s] t(1) u(1) by simp
        then show ?thesis using funpow_then [of j 4 "lls_step G B l" s] by simp
      qed
      have "lls_mem ((lls_step G B l ^^ j) u) f = Some n" "lls_mem ((lls_step G B l ^^ j) u) (n + 4) = Some k"
        using j(2) dist u(3) t(2) chain(1,4) by (auto simp: lls_outcome_def)
      then have "lls_outcome B fn f (x # xs) s ((lls_step G B l ^^ (j + 4)) s)"
        unfolding four using j(2) u t(2-4) x False go w chain by (auto simp: lls_outcome_def)
      then show ?thesis using j(1) by (intro exI [of _ "j + 4"]) simp
    qed
  qed
qed

lemma walk_again:
  assumes "lls_walk B xs = (v, f, r)"
  shows "fst (lls_walk B r) = v"
  using assms
proof (induction xs arbitrary: v f r)
  case (Cons x xs)
  obtain n k c where x: "x = (n, k, c)" by (cases x)
  obtain v' f' r' where w: "lls_walk B xs = (v', f', r')" by (cases "lls_walk B xs")
  have IH: "fst (lls_walk B r') = v'" by (rule Cons.IH [OF w])
  obtain f'' s where w': "lls_walk B r' = (v', f'', s)" using IH by (cases "lls_walk B r'") auto
  show ?case using Cons.prems x w w' by (auto split: if_splits)
qed simp

text \<open>Without a \<open>break\<close>, the loop is a filter.\<close>

lemma walk_no_break:
  "\<forall>n. \<not> break_at B n \<Longrightarrow> lls_walk B xs =
     (map (\<lambda>(n, k, c). (n, k)) (filter (\<lambda>(n, k, c). \<not> c \<and> keep_elem B n) xs), map fst (filter (\<lambda>(n, k, c). c) xs),
      filter (\<lambda>(n, k, c). \<not> c) xs)"
  by (induction xs) (auto split: prod.splits)

lemma foreach_chain:
  "lls_chain m f b xs \<Longrightarrow> lls_foreach_from B m (first_word False xs) = Some (map fst (fst (lls_walk B xs)))"
proof (induction xs arbitrary: f b)
  case Nil
  show ?case by (subst lls_foreach_from.simps) (simp add: first_word_def)
next
  case (Cons x xs)
  obtain n k c where x: "x = (n, k, c)" by (cases x)
  have c: "n \<noteq> 0" "4 dvd unat n" "lls_chain m n c xs" using Cons.prems x by simp_all
  obtain v' f' r' where w: "lls_walk B xs = (v', f', r')" by (cases "lls_walk B xs")
  have nxt: "load m (node_next n) = Some (first_word c xs)" using chain_first [OF c(3)] c(2) by (simp add: load_def node_next_def)
  have first: "first_word False (x # xs) = n" using x by (simp add: first_word_def)
  show ?case
    unfolding first using c(1) nxt Cons.IH [OF c(3)] first_unmask [OF c(3), of c] first_mark [OF c(3), of c] x w
    by (subst lls_foreach_from.simps) (auto simp: Let_def)
qed

lemma foreach_list:
  assumes "lls_chain m l False xs" "4 dvd unat l"
  shows "MONO_LLS_FOREACH_FILTERED B l m = Some (map fst (fst (lls_walk B xs)))"
  using chain_first [OF assms(1)] foreach_chain [OF assms(1)] assms(2)
  by (simp add: MONO_LLS_FOREACH_FILTERED_def load_def list_head_def)

text \<open>The whole macro on a list that nobody else modifies.\<close>

definition quiet_list :: "u32 \<Rightarrow> u32 \<Rightarrow> lnode list \<Rightarrow> memory \<Rightarrow> bool" where
  "quiet_list l fn xs m \<longleftrightarrow> lls_chain m l False xs \<and> 4 dvd unat l \<and> m (l + 4) = Some fn \<and>
     distinct (l # (l + 4) # node_words xs) \<and> keys_rise False 0 xs"

lemma done_stays: "at_point s = Lls_done \<Longrightarrow> (lls_step G B l ^^ n) s = s"
  by (induction n) (simp_all add: lls_step_def)

lemma safe_runs:
  assumes G: "hazard_reader_ok G" and list: "quiet_list l fn xs m" and n: "6 * length xs + 4 \<le> n"
    and t: "t = MONO_LLS_FOREACH_FILTERED_SAFE G B l n m hp"
  shows "at_point t = Lls_done" "\<forall>i<3. hazards t i = 0" "visited t = fst (lls_walk B xs)"
    "freed t = (if fn \<noteq> 0 then fst (snd (lls_walk B xs)) else [])" "lls_chain (lls_mem t) l False (snd (snd (lls_walk B xs)))"
    "\<forall>a. a \<notin> set (l # node_words xs) \<longrightarrow> lls_mem t a = m a"
proof -
  let ?s = "lls_initial m hp"
  have G': "G m hp a i = map_option (\<lambda>p. (p, hp(i := mono_lls_pointer_unmask p))) (load m a)" for m hp a i
    using G by (simp add: hazard_reader_ok_def hazard_defs)
  have c: "lls_chain m l False xs" "4 dvd unat l" "m (l + 4) = Some fn" "distinct (l # (l + 4) # node_words xs)" "keys_rise False 0 xs"
    using list by (simp_all add: quiet_list_def)
  let ?u = "(lls_step G B l ^^ 2) ?s"
  have u: "before l xs ?u" "lls_mem ?u = m" "visited ?u = []" "freed ?u = []"
    using c chain_first [OF c(1)]
    by (simp_all add: numeral_2_eq_2 lls_initial_def lls_step_def G' load_def list_head_def before_def hazard_defs)
  obtain j where j: "j \<le> 6 * length xs + 2" "lls_outcome B fn l xs ?u ((lls_step G B l ^^ j) ?u)"
    using loop_runs [OF G u(1), of l fn B] c u(2) by auto
  have "n = (n - (j + 2)) + (j + 2)" using j(1) n by simp
  then have "t = (lls_step G B l ^^ (n - (j + 2))) ((lls_step G B l ^^ j) ?u)"
    unfolding t MONO_LLS_FOREACH_FILTERED_SAFE_def by (metis funpow_then)
  moreover have "at_point ((lls_step G B l ^^ j) ?u) = Lls_done" using j(2) by (simp add: lls_outcome_def)
  ultimately have "t = (lls_step G B l ^^ j) ?u" using done_stays by simp
  then have "lls_outcome B fn l xs ?u t" using j(2) by simp
  then show "at_point t = Lls_done" "\<forall>i<3. hazards t i = 0" "visited t = fst (lls_walk B xs)"
    "freed t = (if fn \<noteq> 0 then fst (snd (lls_walk B xs)) else [])" "lls_chain (lls_mem t) l False (snd (snd (lls_walk B xs)))"
    "\<forall>a. a \<notin> set (l # node_words xs) \<longrightarrow> lls_mem t a = m a"
    using u(2-4) by (simp_all add: lls_outcome_def)
qed

section \<open>The properties\<close>

text \<open>
  C31: Iterating while other threads write to the list at any moment: the body never sees a key twice or out of order, and
  only elements that the filter accepts; every word of the list that a step accesses is in the hazard table of the thread at that
  moment, and so is already the node that it goes on to; at the end the table is clear.
\<close>

theorem lls_foreach_interference:
  assumes "hazard_reader_ok G" "lls_reachable G B l s"
  shows "sorted_wrt (<) (map snd (visited s)) \<and> (\<forall>n \<in> fst ` set (visited s). keep_elem B n) \<and>
    lls_accessed s \<subseteq> hazards s ` {0, 1, 2} \<and> (at_point s = Lls_done \<longrightarrow> (\<forall>i<3. hazards s i = 0))"
proof -
  have inv: "lls_inv B l s" by (rule lls_reachable_inv [OF assms])
  then have "at_point s = Lls_done \<longrightarrow> (\<forall>i<3. hazards s i = 0)" by (simp add: lls_inv_def)
  then show ?thesis using inv_facts(2,3) [OF inv] accessed_protected [OF inv] by auto
qed

text \<open>
  C32: Iterating over a list that no other thread touches ends within six steps for each node and four more; the body sees the
  unmarked elements that the filter accepts in their order up to a \<open>break\<close>, the marked nodes passed are unlinked and
  handed to the freeing function of the list once each, if it has one, and the list keeps its other nodes.
\<close>

theorem lls_foreach_safe_walks:
  assumes "hazard_reader_ok G" "quiet_list l fn xs m" "6 * length xs + 4 \<le> n" "lls_walk B xs = (v, f, r)"
  shows "at_point (MONO_LLS_FOREACH_FILTERED_SAFE G B l n m hp) = Lls_done \<and>
    visited (MONO_LLS_FOREACH_FILTERED_SAFE G B l n m hp) = v \<and>
    freed (MONO_LLS_FOREACH_FILTERED_SAFE G B l n m hp) = (if fn \<noteq> 0 then f else []) \<and>
    lls_chain (lls_mem (MONO_LLS_FOREACH_FILTERED_SAFE G B l n m hp)) l False r"
  using safe_runs(1,3-5) [OF assms(1-3) refl, of B hp] assms(4) by simp

text \<open>
  C33: The two macros agree on a list that no other thread touches: they see the same elements, and so does the plain macro
  after the safe one has unlinked the marked nodes.
\<close>

theorem lls_foreach_agree:
  assumes "hazard_reader_ok G" "quiet_list l fn xs m" "6 * length xs + 4 \<le> n"
  shows "MONO_LLS_FOREACH_FILTERED B l m = Some (map fst (visited (MONO_LLS_FOREACH_FILTERED_SAFE G B l n m hp))) \<and>
    MONO_LLS_FOREACH_FILTERED B l (lls_mem (MONO_LLS_FOREACH_FILTERED_SAFE G B l n m hp)) = MONO_LLS_FOREACH_FILTERED B l m"
proof -
  note safe = safe_runs [OF assms refl, of B hp]
  have list: "lls_chain m l False xs" "4 dvd unat l" using assms(2) by (simp_all add: quiet_list_def)
  obtain v f r where w: "lls_walk B xs = (v, f, r)" by (cases "lls_walk B xs")
  have "MONO_LLS_FOREACH_FILTERED B l m = Some (map fst v)" using foreach_list [OF list] w by simp
  moreover have "MONO_LLS_FOREACH_FILTERED B l (lls_mem (MONO_LLS_FOREACH_FILTERED_SAFE G B l n m hp)) = Some (map fst v)"
    using foreach_list [OF _ list(2)] safe(5) w walk_again [OF w] by simp
  ultimately show ?thesis using safe(3) w by simp
qed

section \<open>Witnesses\<close>

definition demo_reader :: hazard_reader where
  "demo_reader m hp a i = map_option (\<lambda>p. (p, hp(i := mono_lls_pointer_unmask p))) (load m a)"

definition demo_list :: memory where
  "demo_list = [0x100 \<mapsto> 0x200, 0x104 \<mapsto> 1, 0x200 \<mapsto> 0x300, 0x204 \<mapsto> 3, 0x300 \<mapsto> 0x401, 0x304 \<mapsto> 5, 0x400 \<mapsto> 0, 0x404 \<mapsto> 9]"

definition demo_client :: lls_client where
  "demo_client = \<lparr>keep_elem = mono_lls_filter_accept_all, break_at = (\<lambda>_. False)\<rparr>"

lemma demo_reader_ok: "hazard_reader_ok demo_reader"
  by (simp add: hazard_reader_ok_def demo_reader_def hazard_defs)

lemma demo_quiet: "quiet_list 0x100 1 [(0x200, 3, False), (0x300, 5, True), (0x400, 9, False)] demo_list"
  by (simp add: quiet_list_def demo_list_def)

lemma demo_walk: "lls_walk demo_client [(0x200, 3, False), (0x300, 5, True), (0x400, 9, False)] =
    ([(0x200, 3), (0x400, 9)], [0x300], [(0x200, 3, False), (0x400, 9, False)])"
  by (simp add: demo_client_def mono_lls_filter_accept_all_def)

theorem lls_foreach_safe_walks_witness:
  "visited (MONO_LLS_FOREACH_FILTERED_SAFE demo_reader demo_client 0x100 22 demo_list (\<lambda>_. 0)) = [(0x200, 3), (0x400, 9)] \<and>
   freed (MONO_LLS_FOREACH_FILTERED_SAFE demo_reader demo_client 0x100 22 demo_list (\<lambda>_. 0)) = [0x300]"
  using lls_foreach_safe_walks [OF demo_reader_ok demo_quiet _ demo_walk, of 22 "\<lambda>_. 0"] by simp

theorem lls_foreach_agree_witness:
  "MONO_LLS_FOREACH_FILTERED demo_client 0x100 demo_list = Some [0x200, 0x400] \<and>
   MONO_LLS_FOREACH_FILTERED demo_client 0x100
     (lls_mem (MONO_LLS_FOREACH_FILTERED_SAFE demo_reader demo_client 0x100 22 demo_list (\<lambda>_. 0))) = Some [0x200, 0x400]"
proof -
  have chain: "lls_chain demo_list 0x100 False [(0x200, 3, False), (0x300, 5, True), (0x400, 9, False)]"
    using demo_quiet by (simp add: quiet_list_def)
  have "MONO_LLS_FOREACH_FILTERED demo_client 0x100 demo_list = Some [0x200, 0x400]"
    using foreach_list [OF chain, where B = demo_client] by (simp add: demo_walk del: lls_walk.simps)
  then show ?thesis using lls_foreach_agree [OF demo_reader_ok demo_quiet, where n = 22 and B = demo_client and hp = "\<lambda>_. 0"] by simp
qed

text \<open>Another thread marks the second node while the iteration is in front of the first.\<close>

theorem lls_foreach_interference_witness:
  "sorted_wrt (<) (map snd (visited ((lls_step demo_reader demo_client 0x100 ^^ 9)
     (((lls_step demo_reader demo_client 0x100 ^^ 3) (lls_initial (demo_list(0x300 \<mapsto> 0x400)) (\<lambda>_. 0)))\<lparr>lls_mem := demo_list\<rparr>))))"
proof -
  have runs: "lls_reachable G B l ((lls_step G B l ^^ n) s)" if "lls_reachable G B l s" for G B l n s
    using that by (induction n) (auto intro: lls_reachable.ran)
  have "lls_reachable demo_reader demo_client 0x100 (lls_initial (demo_list(0x300 \<mapsto> 0x400)) (\<lambda>_. 0))"
    by (rule lls_reachable.initial [where h = "0x200"]) (simp_all add: demo_list_def list_head_def)
  then have "lls_reachable demo_reader demo_client 0x100 (((lls_step demo_reader demo_client 0x100 ^^ 3)
      (lls_initial (demo_list(0x300 \<mapsto> 0x400)) (\<lambda>_. 0)))\<lparr>lls_mem := demo_list\<rparr>)"
    by (intro lls_reachable.interfered [where h = "0x200"] runs) (simp_all add: demo_list_def list_head_def)
  then show ?thesis using lls_foreach_interference [OF demo_reader_ok runs] by blast
qed

end
