(* ===== verification/BitSet.thy ===== *)
theory BitSet
  imports Prelude
begin

text \<open>
  The macros of \<open>monobitset.h\<close> that know the layout of a bit set: its size in bits and its words, which hold 32 bits each on the
  target. The size of a set that \<open>mono_bitset_new\<close> makes is a multiple of 32. A word outside the set is undefined (\<open>None\<close>).
\<close>

unbundle bit_operations_syntax

record MonoBitSet =
  bitset_size :: u32
  bitset_flags :: u32
  bitset_data :: "u32 list"

abbreviation MONO_BITSET_BITS_PER_CHUNK :: nat where
  "MONO_BITSET_BITS_PER_CHUNK \<equiv> 32"

definition get_word :: "MonoBitSet \<Rightarrow> nat \<Rightarrow> u32 option" where
  "get_word bs i = (if i < length (bitset_data bs) then Some (bitset_data bs ! i) else None)"

definition put_word :: "MonoBitSet \<Rightarrow> nat \<Rightarrow> u32 \<Rightarrow> MonoBitSet option" where
  "put_word bs i w = (if i < length (bitset_data bs) then Some (bs\<lparr>bitset_data := (bitset_data bs)[i := w]\<rparr>) else None)"

definition chunk_bit :: "u32 \<Rightarrow> u32" where
  "chunk_bit n = push_bit (unat n mod MONO_BITSET_BITS_PER_CHUNK) 1"

definition mono_bitset_test_fast :: "MonoBitSet \<Rightarrow> u32 \<Rightarrow> u32 option" where
  "mono_bitset_test_fast bs n = do {
     w \<leftarrow> get_word bs (unat n div MONO_BITSET_BITS_PER_CHUNK);
     Some (w AND chunk_bit n) }"

definition mono_bitset_set_fast :: "MonoBitSet \<Rightarrow> u32 \<Rightarrow> MonoBitSet option" where
  "mono_bitset_set_fast bs n = do {
     w \<leftarrow> get_word bs (unat n div MONO_BITSET_BITS_PER_CHUNK);
     put_word bs (unat n div MONO_BITSET_BITS_PER_CHUNK) (w OR chunk_bit n) }"

definition mono_bitset_clear_fast :: "MonoBitSet \<Rightarrow> u32 \<Rightarrow> MonoBitSet option" where
  "mono_bitset_clear_fast bs n = do {
     w \<leftarrow> get_word bs (unat n div MONO_BITSET_BITS_PER_CHUNK);
     put_word bs (unat n div MONO_BITSET_BITS_PER_CHUNK) (w AND NOT (chunk_bit n)) }"

definition mono_bitset_get_fast :: "MonoBitSet \<Rightarrow> nat \<Rightarrow> u32 option" where
  "mono_bitset_get_fast = get_word"

text \<open>\<open>memcpy\<close> of \<open>n\<close> bytes: whole words, then the low bytes of one more.\<close>

fun copy_chunks :: "nat \<Rightarrow> nat \<Rightarrow> MonoBitSet \<Rightarrow> MonoBitSet \<Rightarrow> MonoBitSet option" where
  "copy_chunks n i src dest =
    (if n = 0 then Some dest
     else do {
       w \<leftarrow> get_word src i;
       v \<leftarrow> get_word dest i;
       dest \<leftarrow> put_word dest i (if 4 \<le> n then w else (w AND mask (8 * n)) OR (v AND NOT (mask (8 * n))));
       copy_chunks (n - 4) (Suc i) src dest })"

declare copy_chunks.simps [simp del]

definition mono_bitset_copyto_fast :: "MonoBitSet \<Rightarrow> MonoBitSet \<Rightarrow> MonoBitSet option" where
  "mono_bitset_copyto_fast src dest = copy_chunks (unat (bitset_size dest) div 8) 0 src dest"

text \<open>\<open>MONO_BITSET_FOREACH\<close>: the indices for which the statement runs, which does not change the set.\<close>

function foreach_bit :: "u32 \<Rightarrow> nat \<Rightarrow> nat \<Rightarrow> u32 list" where
  "foreach_bit w i j =
    (if j < MONO_BITSET_BITS_PER_CHUNK
     then (if w AND push_bit j 1 \<noteq> 0 then (of_nat j + of_nat i * 32) # foreach_bit w i (Suc j) else foreach_bit w i (Suc j))
     else [])"
  by pat_completeness auto
termination by (relation "measure (\<lambda>(w, i, j). 32 - j)") auto

declare foreach_bit.simps [simp del]

function foreach_chunk :: "MonoBitSet \<Rightarrow> nat \<Rightarrow> u32 list option" where
  "foreach_chunk bs i =
    (if i < unat (bitset_size bs) div MONO_BITSET_BITS_PER_CHUNK then do {
       w \<leftarrow> get_word bs i;
       rest \<leftarrow> foreach_chunk bs (Suc i);
       Some ((if w \<noteq> 0 then foreach_bit w i 0 else []) @ rest) }
     else Some [])"
  by pat_completeness auto
termination by (relation "measure (\<lambda>(bs, i). unat (bitset_size bs) div 32 - i)") auto

declare foreach_chunk.simps [simp del]

definition MONO_BITSET_FOREACH :: "MonoBitSet \<Rightarrow> u32 list option" where
  "MONO_BITSET_FOREACH bs = foreach_chunk bs 0"

text \<open>The two loops that combine sets, by the operation on words.\<close>

fun combine_chunks :: "(u32 \<Rightarrow> u32 \<Rightarrow> u32) \<Rightarrow> nat \<Rightarrow> nat \<Rightarrow> MonoBitSet \<Rightarrow> MonoBitSet \<Rightarrow> MonoBitSet option" where
  "combine_chunks f 0 i dest src = Some dest"
| "combine_chunks f (Suc n) i dest src = do {
     v \<leftarrow> get_word dest i;
     w \<leftarrow> get_word src i;
     dest \<leftarrow> put_word dest i (f v w);
     combine_chunks f n (Suc i) dest src }"

definition mono_bitset_union_fast :: "MonoBitSet \<Rightarrow> MonoBitSet \<Rightarrow> MonoBitSet option" where
  "mono_bitset_union_fast dest src =
    combine_chunks (\<lambda>v w. v OR w) (unat (bitset_size dest) div MONO_BITSET_BITS_PER_CHUNK) 0 dest src"

definition mono_bitset_sub_fast :: "MonoBitSet \<Rightarrow> MonoBitSet \<Rightarrow> MonoBitSet option" where
  "mono_bitset_sub_fast dest src =
    combine_chunks (\<lambda>v w. v AND NOT w) (unat (bitset_size dest) div MONO_BITSET_BITS_PER_CHUNK) 0 dest src"

end
