(* ===== verification/BitSetProps.thy ===== *)
theory BitSetProps
  imports BitSet
begin

text \<open>
  A bit set stands for a set of numbers below its size; the macros are the operations on such sets, and the loop runs
  through the members in ascending order.
\<close>

definition bitset_ok :: "MonoBitSet \<Rightarrow> bool" where
  "bitset_ok bs \<longleftrightarrow> unat (bitset_size bs) = 32 * length (bitset_data bs)"

definition members :: "MonoBitSet \<Rightarrow> nat set" where
  "members bs = {n. n < 32 * length (bitset_data bs) \<and> bit (bitset_data bs ! (n div 32)) (n mod 32)}"

section \<open>Single bits\<close>

lemma chunk_bit_bit: "bit (chunk_bit n) i \<longleftrightarrow> i = unat n mod 32"
  by (auto simp: chunk_bit_def bit_exp_iff)

lemma word_index:
  assumes "bitset_ok bs" "n < bitset_size bs"
  shows "unat n div 32 < length (bitset_data bs)" "unat n < 32 * length (bitset_data bs)"
  using assms by (auto simp: bitset_ok_def word_less_nat_alt)

lemma test_bit:
  assumes "bitset_ok bs" "n < bitset_size bs"
  shows "\<exists>w. mono_bitset_test_fast bs n = Some w \<and> (w \<noteq> 0 \<longleftrightarrow> unat n \<in> members bs)"
proof -
  let ?w = "bitset_data bs ! (unat n div 32)"
  have "?w AND chunk_bit n \<noteq> 0 \<longleftrightarrow> bit ?w (unat n mod 32)"
  proof -
    have "bit (?w AND chunk_bit n) i \<longleftrightarrow> i = unat n mod 32 \<and> bit ?w (unat n mod 32)" for i
      by (auto simp: bit_and_iff chunk_bit_bit)
    then show ?thesis using bit_eq_iff [of "?w AND chunk_bit n" 0] by simp
  qed
  then show ?thesis using word_index [OF assms] by (simp add: mono_bitset_test_fast_def get_word_def members_def)
qed

lemma put_members:
  assumes "i < length (bitset_data bs)" "put_word bs i w = Some bs'" "bitset_ok bs"
  shows "bitset_ok bs'" "bitset_size bs' = bitset_size bs" "length (bitset_data bs') = length (bitset_data bs)"
    "members bs' = {n. n < 32 * length (bitset_data bs) \<and> (if n div 32 = i then bit w (n mod 32) else n \<in> members bs)}"
  using assms by (auto simp: put_word_def bitset_ok_def members_def nth_list_update split: if_splits)

lemma update_bit:
  assumes "bitset_ok bs" "n < bitset_size bs"
    and f: "\<And>w i. i < 32 \<Longrightarrow> bit (f w) i \<longleftrightarrow> (if i = unat n mod 32 then b else bit w i)"
  shows "\<exists>bs'. (do { w \<leftarrow> get_word bs (unat n div 32); put_word bs (unat n div 32) (f w) }) = Some bs' \<and>
    bitset_ok bs' \<and> bitset_size bs' = bitset_size bs \<and>
    members bs' = (if b then insert (unat n) (members bs) else members bs - {unat n})"
proof -
  let ?i = "unat n div 32"
  have i: "?i < length (bitset_data bs)" "unat n < 32 * length (bitset_data bs)" by (rule word_index [OF assms(1,2)])+
  obtain bs' where bs': "put_word bs ?i (f (bitset_data bs ! ?i)) = Some bs'" using i by (simp add: put_word_def)
  note put = put_members [OF i(1) bs' assms(1)]
  have m: "k \<in> members bs' \<longleftrightarrow> (if k = unat n then b else k \<in> members bs)" for k
  proof -
    have new: "k \<in> members bs' \<longleftrightarrow> k < 32 * length (bitset_data bs) \<and>
        (if k div 32 = ?i then bit (f (bitset_data bs ! ?i)) (k mod 32) else k \<in> members bs)" by (simp add: put(4))
    have old: "k \<in> members bs \<longleftrightarrow> k < 32 * length (bitset_data bs) \<and> bit (bitset_data bs ! (k div 32)) (k mod 32)"
      by (simp add: members_def)
    have fk: "bit (f w) (k mod 32) \<longleftrightarrow> (if k mod 32 = unat n mod 32 then b else bit w (k mod 32))" for w by (rule f) simp
    show ?thesis
    proof (cases "k = unat n")
      case True
      then show ?thesis using i(2) unfolding new fk by simp
    next
      case False
      then have "k div 32 = ?i \<longrightarrow> k mod 32 \<noteq> unat n mod 32" by (metis div_mult_mod_eq)
      then show ?thesis using False unfolding new fk by (cases "k div 32 = ?i") (simp_all add: old)
    qed
  qed
  then have "members bs' = (if b then insert (unat n) (members bs) else members bs - {unat n})"
    by (intro set_eqI) (simp add: m)
  then show ?thesis using i bs' put by (simp add: get_word_def)
qed

lemma set_bit_refines:
  assumes "bitset_ok bs" "n < bitset_size bs"
  shows "\<exists>bs'. mono_bitset_set_fast bs n = Some bs' \<and> bitset_ok bs' \<and> bitset_size bs' = bitset_size bs \<and>
    members bs' = insert (unat n) (members bs)"
  using update_bit [OF assms, of "\<lambda>w. w OR chunk_bit n" True]
  by (simp add: mono_bitset_set_fast_def bit_or_iff chunk_bit_bit)

lemma clear_bit_refines:
  assumes "bitset_ok bs" "n < bitset_size bs"
  shows "\<exists>bs'. mono_bitset_clear_fast bs n = Some bs' \<and> bitset_ok bs' \<and> bitset_size bs' = bitset_size bs \<and>
    members bs' = members bs - {unat n}"
  using update_bit [OF assms, of "\<lambda>w. w AND NOT (chunk_bit n)" False]
  by (simp add: mono_bitset_clear_fast_def bit_and_iff bit_not_iff chunk_bit_bit)

section \<open>Whole sets\<close>

lemma data_members:
  assumes "bitset_ok bs" "bitset_ok ds" "bitset_size bs = bitset_size ds"
    "\<And>i j. i < length (bitset_data ds) \<Longrightarrow> j < 32 \<Longrightarrow> bit (bitset_data bs ! i) j \<longleftrightarrow> P (32 * i + j)"
  shows "members bs = {n. n < unat (bitset_size ds) \<and> P n}"
proof -
  have len: "length (bitset_data bs) = length (bitset_data ds)" using assms(1-3) by (simp add: bitset_ok_def)
  have "bit (bitset_data bs ! (n div 32)) (n mod 32) \<longleftrightarrow> P n" if "n < 32 * length (bitset_data ds)" for n
    using assms(4) [of "n div 32" "n mod 32"] that by (simp add: mult.commute)
  then show ?thesis using len assms(2) by (auto simp: members_def bitset_ok_def)
qed

lemma combine_runs:
  assumes "i + n \<le> length (bitset_data dest)" "i + n \<le> length (bitset_data src)"
  shows "\<exists>d. combine_chunks f n i dest src = Some d \<and> bitset_size d = bitset_size dest \<and>
    length (bitset_data d) = length (bitset_data dest) \<and>
    (\<forall>j < length (bitset_data dest). bitset_data d ! j =
      (if i \<le> j \<and> j < i + n then f (bitset_data dest ! j) (bitset_data src ! j) else bitset_data dest ! j))"
  using assms
proof (induction n arbitrary: i dest)
  case (Suc n)
  let ?d = "dest\<lparr>bitset_data := (bitset_data dest)[i := f (bitset_data dest ! i) (bitset_data src ! i)]\<rparr>"
  have step: "combine_chunks f (Suc n) i dest src = combine_chunks f n (Suc i) ?d src"
    using Suc.prems by (simp add: get_word_def put_word_def)
  obtain d where d: "combine_chunks f n (Suc i) ?d src = Some d" "bitset_size d = bitset_size dest"
      "length (bitset_data d) = length (bitset_data dest)"
      "\<forall>j < length (bitset_data dest). bitset_data d ! j =
        (if Suc i \<le> j \<and> j < Suc i + n then f (bitset_data ?d ! j) (bitset_data src ! j) else bitset_data ?d ! j)"
    using Suc.IH [of "Suc i" ?d] Suc.prems by auto
  have new: "bitset_data ?d ! j = (if j = i then f (bitset_data dest ! i) (bitset_data src ! i) else bitset_data dest ! j)" for j
    using Suc.prems by (simp add: nth_list_update)
  have "bitset_data d ! j = (if i \<le> j \<and> j < i + Suc n then f (bitset_data dest ! j) (bitset_data src ! j) else bitset_data dest ! j)"
    if j: "j < length (bitset_data dest)" for j
  proof (cases "j = i")
    case True
    then show ?thesis using d(4) j new [of i] by simp
  next
    case False
    then have "i \<le> j \<and> j < i + Suc n \<longleftrightarrow> Suc i \<le> j \<and> j < Suc i + n" by auto
    then show ?thesis using d(4) j new [of j] False by auto
  qed
  then show ?case using step d(1-3) by (intro exI [of _ d]) simp
qed auto

lemma combine_refines:
  assumes "bitset_ok dest" "bitset_ok src" "bitset_size dest \<le> bitset_size src"
    and f: "\<And>v w j. j < 32 \<Longrightarrow> bit (f v w) j \<longleftrightarrow> P (bit v j) (bit w j)"
  shows "\<exists>d. combine_chunks f (unat (bitset_size dest) div 32) 0 dest src = Some d \<and> bitset_ok d \<and> bitset_size d = bitset_size dest \<and>
    members d = {n. n < unat (bitset_size dest) \<and> P (n \<in> members dest) (n \<in> members src)}"
proof -
  have len: "unat (bitset_size dest) div 32 = length (bitset_data dest)" "length (bitset_data dest) \<le> length (bitset_data src)"
    using assms(1-3) by (auto simp: bitset_ok_def word_le_nat_alt)
  obtain d where d: "combine_chunks f (length (bitset_data dest)) 0 dest src = Some d" "bitset_size d = bitset_size dest"
      "length (bitset_data d) = length (bitset_data dest)"
      "\<forall>j < length (bitset_data dest). bitset_data d ! j = f (bitset_data dest ! j) (bitset_data src ! j)"
    using combine_runs [of 0 "length (bitset_data dest)" dest src f] len by auto
  have ok: "bitset_ok d" using d(2,3) assms(1) by (simp add: bitset_ok_def)
  have "members d = {n. n < unat (bitset_size dest) \<and> P (n \<in> members dest) (n \<in> members src)}"
  proof (rule data_members [OF ok assms(1) d(2)])
    fix i j :: nat assume i: "i < length (bitset_data dest)" "j < 32"
    then have "32 * i + j < 32 * length (bitset_data dest)" "32 * i + j < 32 * length (bitset_data src)"
      using len(2) by linarith+
    then show "bit (bitset_data d ! i) j \<longleftrightarrow> P (32 * i + j \<in> members dest) (32 * i + j \<in> members src)"
      using d(4) i by (simp add: f members_def)
  qed
  then show ?thesis using d ok len by simp
qed

lemma members_below: "bitset_ok bs \<Longrightarrow> n \<in> members bs \<Longrightarrow> n < unat (bitset_size bs)"
  by (simp add: members_def bitset_ok_def)

section \<open>Copying\<close>

lemma copy_runs:
  assumes "i + n \<le> length (bitset_data dest)" "i + n \<le> length (bitset_data src)"
  shows "\<exists>d. copy_chunks (4 * n) i src dest = Some d \<and> bitset_size d = bitset_size dest \<and>
    length (bitset_data d) = length (bitset_data dest) \<and>
    (\<forall>j < length (bitset_data dest). bitset_data d ! j = (if i \<le> j \<and> j < i + n then bitset_data src ! j else bitset_data dest ! j))"
  using assms
proof (induction n arbitrary: i dest)
  case 0
  show ?case by (subst copy_chunks.simps) auto
next
  case (Suc n)
  let ?d = "dest\<lparr>bitset_data := (bitset_data dest)[i := bitset_data src ! i]\<rparr>"
  have step: "copy_chunks (4 * Suc n) i src dest = copy_chunks (4 * n) (Suc i) src ?d"
    using Suc.prems by (subst copy_chunks.simps) (simp add: get_word_def put_word_def)
  obtain d where d: "copy_chunks (4 * n) (Suc i) src ?d = Some d" "bitset_size d = bitset_size dest"
      "length (bitset_data d) = length (bitset_data dest)"
      "\<forall>j < length (bitset_data dest). bitset_data d ! j = (if Suc i \<le> j \<and> j < Suc i + n then bitset_data src ! j else bitset_data ?d ! j)"
    using Suc.IH [of "Suc i" ?d] Suc.prems by auto
  have new: "bitset_data ?d ! j = (if j = i then bitset_data src ! i else bitset_data dest ! j)" for j
    using Suc.prems by (simp add: nth_list_update)
  have "bitset_data d ! j = (if i \<le> j \<and> j < i + Suc n then bitset_data src ! j else bitset_data dest ! j)"
    if j: "j < length (bitset_data dest)" for j
  proof (cases "j = i")
    case True
    then show ?thesis using d(4) j new [of i] by simp
  next
    case False
    then have "i \<le> j \<and> j < i + Suc n \<longleftrightarrow> Suc i \<le> j \<and> j < Suc i + n" by auto
    then show ?thesis using d(4) j new [of j] False by auto
  qed
  then show ?case using step d(1-3) by (intro exI [of _ d]) simp
qed

lemma copy_refines:
  assumes "bitset_ok dest" "bitset_ok src" "bitset_size dest \<le> bitset_size src"
  shows "\<exists>d. mono_bitset_copyto_fast src dest = Some d \<and> bitset_ok d \<and> bitset_size d = bitset_size dest \<and>
    members d = {n. n < unat (bitset_size dest) \<and> n \<in> members src}"
proof -
  have len: "unat (bitset_size dest) div 8 = 4 * length (bitset_data dest)" "length (bitset_data dest) \<le> length (bitset_data src)"
    using assms by (auto simp: bitset_ok_def word_le_nat_alt)
  obtain d where d: "copy_chunks (4 * length (bitset_data dest)) 0 src dest = Some d" "bitset_size d = bitset_size dest"
      "length (bitset_data d) = length (bitset_data dest)"
      "\<forall>j < length (bitset_data dest). bitset_data d ! j = bitset_data src ! j"
    using copy_runs [of 0 "length (bitset_data dest)" dest src] len by auto
  have ok: "bitset_ok d" using d(2,3) assms(1) by (simp add: bitset_ok_def)
  have "members d = {n. n < unat (bitset_size dest) \<and> n \<in> members src}"
  proof (rule data_members [OF ok assms(1) d(2)])
    fix i j :: nat assume i: "i < length (bitset_data dest)" "j < 32"
    then have "32 * i + j < 32 * length (bitset_data src)" using len(2) by linarith
    then show "bit (bitset_data d ! i) j \<longleftrightarrow> 32 * i + j \<in> members src" using d(4) i by (simp add: members_def)
  qed
  then show ?thesis using d ok len by (simp add: mono_bitset_copyto_fast_def)
qed

section \<open>The loop\<close>

lemma foreach_bit_filter:
  "j \<le> 32 \<Longrightarrow> foreach_bit w i j = map (\<lambda>j. of_nat j + of_nat i * 32) (filter (bit w) [j..<32])"
proof (induction w i j rule: foreach_bit.induct)
  case (1 w i j)
  have "w AND push_bit j 1 \<noteq> 0 \<longleftrightarrow> bit w j" if "j < 32"
    using that by (simp add: and_exp_eq_0_iff_not_bit)
  then show ?case using 1 by (subst foreach_bit.simps) (simp add: upt_conv_Cons)
qed

lemma foreach_chunk_filter:
  assumes "bitset_ok bs" "i \<le> length (bitset_data bs)"
  shows "\<exists>xs. foreach_chunk bs i = Some xs \<and> map unat xs = filter (\<lambda>n. n \<in> members bs) [32 * i..<32 * length (bitset_data bs)]"
  using assms(2)
proof (induction "length (bitset_data bs) - i" arbitrary: i)
  case 0
  then show ?case using assms(1) by (subst foreach_chunk.simps) (simp add: bitset_ok_def)
next
  case (Suc k)
  let ?w = "bitset_data bs ! i" and ?L = "length (bitset_data bs)"
  have i: "i < ?L" using Suc.hyps(2) by simp
  obtain xs where xs: "foreach_chunk bs (Suc i) = Some xs" "map unat xs = filter (\<lambda>n. n \<in> members bs) [32 * Suc i..<32 * ?L]"
  proof -
    have "k = ?L - Suc i" "Suc i \<le> ?L" using Suc.hyps(2) i by simp_all
    from Suc.hyps(1) [OF this] show thesis using that by blast
  qed
  have empty: "?w = 0 \<Longrightarrow> foreach_bit ?w i 0 = []" by (simp add: foreach_bit_filter)
  have run: "foreach_chunk bs i = Some (foreach_bit ?w i 0 @ xs)"
    using i xs(1) assms(1) empty by (subst foreach_chunk.simps) (auto simp: bitset_ok_def get_word_def)
  have small: "32 * ?L < 2 ^ 32" 
  proof -
    have "unat (bitset_size bs) < 2 ^ LENGTH(32)" by (rule unsigned_less)
    then show ?thesis using assms(1) by (simp add: bitset_ok_def)
  qed
  have "unat (of_nat j + of_nat i * 32 :: u32) = 32 * i + j" if "j < 32" for j
  proof -
    have "(of_nat j + of_nat i * 32 :: u32) = of_nat (32 * i + j)" by simp
    moreover have "32 * i + j < 2 ^ 32" using i that small by linarith
    ultimately show ?thesis by (simp only: unsigned_of_nat take_bit_nat_eq_self_iff) (simp add: take_bit_nat_eq_self)
  qed
  then have "map unat (foreach_bit ?w i 0) = map (\<lambda>j. 32 * i + j) (filter (bit ?w) [0..<32])"
    by (simp add: foreach_bit_filter)
  also have "\<dots> = filter (\<lambda>n. bit ?w (n - 32 * i)) (map (\<lambda>j. 32 * i + j) [0..<32])"
    by (simp add: filter_map o_def)
  also have "map (\<lambda>j. 32 * i + j) [0..<32] = [32 * i..<32 * i + 32]"
    by (rule nth_equalityI) simp_all
  also have "filter (\<lambda>n. bit ?w (n - 32 * i)) [32 * i..<32 * i + 32] = filter (\<lambda>n. n \<in> members bs) [32 * i..<32 * i + 32]"
  proof (rule filter_cong)
    fix n assume "n \<in> set [32 * i..<32 * i + 32]"
    then have n: "32 * i \<le> n" "n < 32 * i + 32" by simp_all
    then have d: "n div 32 = i" by (intro div_nat_eqI) simp_all
    moreover have "n < 32 * ?L" using i n(2) by linarith
    moreover have "n mod 32 = n - 32 * i" unfolding modulo_nat_def d by simp
    ultimately have "n div 32 = i" "n mod 32 = n - 32 * i" "n < 32 * ?L" by simp_all
    then show "bit ?w (n - 32 * i) \<longleftrightarrow> n \<in> members bs" by (simp add: members_def)
  qed simp
  finally have "map unat (foreach_bit ?w i 0 @ xs) = filter (\<lambda>n. n \<in> members bs) ([32 * i..<32 * i + 32] @ [32 * Suc i..<32 * ?L])"
    using xs(2) by simp
  also have "[32 * i..<32 * i + 32] @ [32 * Suc i..<32 * ?L] = [32 * i..<32 * ?L]"
  proof -
    have "[32 * i..<32 * i + 32 + (32 * ?L - 32 * Suc i)] = [32 * i..<32 * i + 32] @ [32 * i + 32..<32 * i + 32 + (32 * ?L - 32 * Suc i)]"
      by (rule upt_add_eq_append) simp
    moreover have "32 * i + 32 + (32 * ?L - 32 * Suc i) = 32 * ?L" "32 * i + 32 = 32 * Suc i" using i by simp_all
    ultimately show ?thesis by (simp only:)
  qed
  finally show ?case using run by blast
qed

section \<open>The properties\<close>

text \<open>
  C34: The macros on a bit set are the operations on the set of numbers it stands for: testing, adding and removing
  a number below the size, copying, union and difference with a set that is at least as large. None of them touches a word
  outside a set, and the size stays.
\<close>

theorem bitset_refines_sets:
  assumes "bitset_ok bs" "bitset_ok src" "bitset_size bs \<le> bitset_size src" "n < bitset_size bs"
  shows "(\<exists>w. mono_bitset_test_fast bs n = Some w \<and> (w \<noteq> 0 \<longleftrightarrow> unat n \<in> members bs)) \<and>
    (\<exists>d. mono_bitset_set_fast bs n = Some d \<and> bitset_ok d \<and> bitset_size d = bitset_size bs \<and> members d = insert (unat n) (members bs)) \<and>
    (\<exists>d. mono_bitset_clear_fast bs n = Some d \<and> bitset_ok d \<and> bitset_size d = bitset_size bs \<and> members d = members bs - {unat n}) \<and>
    (\<exists>d. mono_bitset_copyto_fast src bs = Some d \<and> bitset_ok d \<and> bitset_size d = bitset_size bs \<and>
       members d = {k \<in> members src. k < unat (bitset_size bs)}) \<and>
    (\<exists>d. mono_bitset_union_fast bs src = Some d \<and> bitset_ok d \<and> bitset_size d = bitset_size bs \<and>
       members d = members bs \<union> {k \<in> members src. k < unat (bitset_size bs)}) \<and>
    (\<exists>d. mono_bitset_sub_fast bs src = Some d \<and> bitset_ok d \<and> bitset_size d = bitset_size bs \<and> members d = members bs - members src)"
proof (intro conjI)
  show "\<exists>w. mono_bitset_test_fast bs n = Some w \<and> (w \<noteq> 0 \<longleftrightarrow> unat n \<in> members bs)" by (rule test_bit [OF assms(1,4)])
  show "\<exists>d. mono_bitset_set_fast bs n = Some d \<and> bitset_ok d \<and> bitset_size d = bitset_size bs \<and> members d = insert (unat n) (members bs)"
    by (rule set_bit_refines [OF assms(1,4)])
  show "\<exists>d. mono_bitset_clear_fast bs n = Some d \<and> bitset_ok d \<and> bitset_size d = bitset_size bs \<and> members d = members bs - {unat n}"
    by (rule clear_bit_refines [OF assms(1,4)])
  show "\<exists>d. mono_bitset_copyto_fast src bs = Some d \<and> bitset_ok d \<and> bitset_size d = bitset_size bs \<and>
       members d = {k \<in> members src. k < unat (bitset_size bs)}"
    using copy_refines [OF assms(1-3)] by (simp add: conj_commute)
  have "{k. k < unat (bitset_size bs) \<and> (k \<in> members bs \<or> k \<in> members src)} = members bs \<union> {k \<in> members src. k < unat (bitset_size bs)}"
    using members_below [OF assms(1)] by auto
  then show "\<exists>d. mono_bitset_union_fast bs src = Some d \<and> bitset_ok d \<and> bitset_size d = bitset_size bs \<and>
       members d = members bs \<union> {k \<in> members src. k < unat (bitset_size bs)}"
    using combine_refines [OF assms(1-3), of "\<lambda>v w. v OR w" "\<lambda>a b. a \<or> b"] by (simp add: bit_or_iff mono_bitset_union_fast_def)
  have "{k. k < unat (bitset_size bs) \<and> k \<in> members bs \<and> k \<notin> members src} = members bs - members src"
    using members_below [OF assms(1)] by auto
  then show "\<exists>d. mono_bitset_sub_fast bs src = Some d \<and> bitset_ok d \<and> bitset_size d = bitset_size bs \<and> members d = members bs - members src"
    using combine_refines [OF assms(1-3), of "\<lambda>v w. v AND NOT w" "\<lambda>a b. a \<and> \<not> b"]
    by (simp add: bit_and_iff bit_not_iff mono_bitset_sub_fast_def)
qed

text \<open>
  The loop over a bit set runs its statement for the members of the set, once each and in ascending order.
\<close>

lemma bitset_foreach_ascends:
  assumes "bitset_ok bs"
  shows "\<exists>xs. MONO_BITSET_FOREACH bs = Some xs \<and> map unat xs = sorted_list_of_set (members bs)"
proof -
  let ?L = "32 * length (bitset_data bs)"
  obtain xs where xs: "foreach_chunk bs 0 = Some xs" "map unat xs = filter (\<lambda>n. n \<in> members bs) [0..<?L]"
    using foreach_chunk_filter [OF assms, of 0] by auto
  have "sorted_wrt (<) (filter (\<lambda>n. n \<in> members bs) [0..<?L])" by (rule sorted_wrt_filter) simp
  moreover have "set (filter (\<lambda>n. n \<in> members bs) [0..<?L]) = members bs" by (auto simp: members_def)
  ultimately have "sorted_list_of_set (members bs) = filter (\<lambda>n. n \<in> members bs) [0..<?L]"
    by (metis strict_sorted_equal strict_sorted_list_of_set finite_set sorted_list_of_set.set_sorted_key_list_of_set)
  then show ?thesis using xs by (simp add: MONO_BITSET_FOREACH_def)
qed

definition demo_bits :: MonoBitSet where
  "demo_bits = \<lparr>bitset_size = 64, bitset_flags = 0, bitset_data = [5, 2]\<rparr>"

theorem bitset_refines_sets_witness:
  "members (the (mono_bitset_union_fast demo_bits demo_bits)) = members demo_bits \<union> {k \<in> members demo_bits. k < 64}"
proof -
  have "bitset_ok demo_bits" "(3 :: u32) < bitset_size demo_bits" by (simp_all add: demo_bits_def bitset_ok_def)
  then have "\<exists>d. mono_bitset_union_fast demo_bits demo_bits = Some d \<and> bitset_ok d \<and> bitset_size d = bitset_size demo_bits \<and>
       members d = members demo_bits \<union> {k \<in> members demo_bits. k < unat (bitset_size demo_bits)}"
    using bitset_refines_sets [of demo_bits demo_bits 3] by blast
  moreover have "unat (bitset_size demo_bits) = 64" by (simp add: demo_bits_def)
  ultimately show ?thesis by (elim exE conjE) simp
qed

lemma bitset_foreach_ascends_witness: "MONO_BITSET_FOREACH demo_bits = Some [0, 2, 33]"
proof -
  have "bitset_ok demo_bits" by (simp add: demo_bits_def bitset_ok_def)
  then obtain xs where xs: "MONO_BITSET_FOREACH demo_bits = Some xs" "map unat xs = sorted_list_of_set (members demo_bits)"
    using bitset_foreach_ascends by blast
  have "members demo_bits = set (filter (\<lambda>n. bit ([5, 2] ! (n div 32) :: u32) (n mod 32)) [0..<64])"
    by (auto simp: members_def demo_bits_def)
  also have "filter (\<lambda>n. bit ([5, 2] ! (n div 32) :: u32) (n mod 32)) [0..<64] = [0, 2, 33]" by code_simp
  finally have "members demo_bits = {0, 2, 33}" by simp
  then have "map unat xs = [0, 2, 33]" using xs(2) by simp
  then have "map unat xs = map unat [0, 2, 33 :: u32]" by simp
  then have "xs = [0, 2, 33]" by (rule map_injective) (rule inj_unsigned)
  then show ?thesis using xs(1) by simp
qed

end
