(* ===== verification/MempoolLists.thy ===== *)
theory MempoolLists
  imports WordHeap
begin

text \<open>
  The list functions of \<open>mempool-internals.h\<close>: singly and doubly linked lists whose nodes come from a memory pool. The
  allocator of the pool, which ends the program (\<open>None\<close>) rather than return no memory, and \<open>g_list_last\<close> are parameters.
\<close>

record mempool_services =
  mono_mempool_alloc :: "u32 \<Rightarrow> memory \<Rightarrow> (u32 \<times> memory) option"
  mono_mempool_alloc0 :: "u32 \<Rightarrow> memory \<Rightarrow> (u32 \<times> memory) option"
  g_list_last :: "u32 \<Rightarrow> memory \<Rightarrow> u32 option"

section \<open>The nodes\<close>

text \<open>\<open>GSList\<close> is \<open>data\<close> and \<open>next\<close>; \<open>GList\<close> has \<open>prev\<close> behind them.\<close>

definition data_field :: "u32 \<Rightarrow> u32" where
  "data_field n = n"

definition next_field :: "u32 \<Rightarrow> u32" where
  "next_field n = n + 4"

definition prev_field :: "u32 \<Rightarrow> u32" where
  "prev_field n = n + 8"

section \<open>The functions\<close>

definition g_slist_prepend_mempool :: "mempool_services \<Rightarrow> u32 \<Rightarrow> u32 \<Rightarrow> memory \<Rightarrow> (u32 \<times> memory) option" where
  "g_slist_prepend_mempool M l d m = do {
     (new_list, m) \<leftarrow> mono_mempool_alloc M 8 m;
     m \<leftarrow> store (data_field new_list) d m;
     m \<leftarrow> store (next_field new_list) l m;
     Some (new_list, m) }"

text \<open>\<open>while (last->next) last = last->next;\<close>, which may run forever on a circular list.\<close>

partial_function (option) last_node :: "memory \<Rightarrow> u32 \<Rightarrow> u32 option" where
  "last_node m n = do {
     nxt \<leftarrow> load m (next_field n);
     (if nxt = 0 then Some n else last_node m nxt) }"

definition g_slist_append_mempool :: "mempool_services \<Rightarrow> u32 \<Rightarrow> u32 \<Rightarrow> memory \<Rightarrow> (u32 \<times> memory) option" where
  "g_slist_append_mempool M l d m = do {
     (new_list, m) \<leftarrow> mono_mempool_alloc M 8 m;
     m \<leftarrow> store (data_field new_list) d m;
     m \<leftarrow> store (next_field new_list) 0 m;
     (if l \<noteq> 0 then do {
        last \<leftarrow> last_node m l;
        m \<leftarrow> store (next_field last) new_list m;
        Some (l, m) }
      else Some (new_list, m)) }"

definition g_list_prepend_mempool :: "mempool_services \<Rightarrow> u32 \<Rightarrow> u32 \<Rightarrow> memory \<Rightarrow> (u32 \<times> memory) option" where
  "g_list_prepend_mempool M l d m = do {
     (new_list, m) \<leftarrow> mono_mempool_alloc M 12 m;
     m \<leftarrow> store (data_field new_list) d m;
     before \<leftarrow> (if l \<noteq> 0 then load m (prev_field l) else Some 0);
     m \<leftarrow> store (prev_field new_list) before m;
     m \<leftarrow> store (next_field new_list) l m;
     m \<leftarrow> (if before \<noteq> 0 then store (next_field before) new_list m else Some m);
     m \<leftarrow> (if l \<noteq> 0 then store (prev_field l) new_list m else Some m);
     Some (new_list, m) }"

definition g_list_append_mempool :: "mempool_services \<Rightarrow> u32 \<Rightarrow> u32 \<Rightarrow> memory \<Rightarrow> (u32 \<times> memory) option" where
  "g_list_append_mempool M l d m = do {
     (new_list, m) \<leftarrow> mono_mempool_alloc0 M 12 m;
     m \<leftarrow> store (data_field new_list) d m;
     before \<leftarrow> g_list_last M l m;
     m \<leftarrow> store (prev_field new_list) before m;
     m \<leftarrow> (if before \<noteq> 0 then store (next_field before) new_list m else Some m);
     Some (if l \<noteq> 0 then l else new_list, m) }"

end
