(* ===== verification/MempoolListsProps.thy ===== *)
theory MempoolListsProps
  imports MempoolLists
begin

text \<open>
  The pool lists stand for sequences of data: prepending (for doubly linked lists also in front of a node in the middle) and
  appending, and what they leave alone.
\<close>

section \<open>What the parameters promise\<close>

text \<open>When the pool hands out memory, its words are new.\<close>

definition alloc_ok :: "(u32 \<Rightarrow> memory \<Rightarrow> (u32 \<times> memory) option) \<Rightarrow> bool" where
  "alloc_ok A \<longleftrightarrow> (\<forall>z m a m'. A z m = Some (a, m') \<longrightarrow> a \<noteq> 0 \<and> 4 dvd unat a \<and>
     (\<forall>i < unat z div 4. m (a + 4 * of_nat i) = None \<and> m' (a + 4 * of_nat i) \<noteq> None) \<and> (\<forall>b. m b \<noteq> None \<longrightarrow> m' b = m b))"

definition zeroed :: "(u32 \<Rightarrow> memory \<Rightarrow> (u32 \<times> memory) option) \<Rightarrow> bool" where
  "zeroed A \<longleftrightarrow> (\<forall>z m a m'. A z m = Some (a, m') \<longrightarrow> (\<forall>i < unat z div 4. m' (a + 4 * of_nat i) = Some 0))"

section \<open>Lists in memory\<close>

type_synonym mnode = "u32 \<times> u32"

text \<open>A singly linked segment from \<open>p\<close> to \<open>e\<close>.\<close>

fun sseg :: "memory \<Rightarrow> u32 \<Rightarrow> u32 \<Rightarrow> mnode list \<Rightarrow> bool" where
  "sseg m p e [] \<longleftrightarrow> p = e"
| "sseg m p e ((n, d) # xs) \<longleftrightarrow> p = n \<and> n \<noteq> 0 \<and> 4 dvd unat n \<and> m n = Some d \<and> (\<exists>q. m (n + 4) = Some q \<and> sseg m q e xs)"

text \<open>A doubly linked segment from \<open>p\<close> to \<open>e\<close>, with \<open>b\<close> before it.\<close>

fun dseg :: "memory \<Rightarrow> u32 \<Rightarrow> u32 \<Rightarrow> u32 \<Rightarrow> mnode list \<Rightarrow> bool" where
  "dseg m b p e [] \<longleftrightarrow> p = e"
| "dseg m b p e ((n, d) # xs) \<longleftrightarrow> p = n \<and> n \<noteq> 0 \<and> 4 dvd unat n \<and> m n = Some d \<and> m (n + 8) = Some b \<and>
     (\<exists>q. m (n + 4) = Some q \<and> dseg m n q e xs)"

definition swords :: "mnode list \<Rightarrow> u32 list" where
  "swords xs = concat (map (\<lambda>(n, d). [n, n + 4]) xs)"

definition dwords :: "mnode list \<Rightarrow> u32 list" where
  "dwords xs = concat (map (\<lambda>(n, d). [n, n + 4, n + 8]) xs)"

definition node_before :: "u32 \<Rightarrow> mnode list \<Rightarrow> u32" where
  "node_before b xs = (if xs = [] then b else fst (last xs))"

lemma words_simps [simp]:
  "swords [] = []" "swords ((n, d) # xs) = n # (n + 4) # swords xs" "swords (xs @ ys) = swords xs @ swords ys"
  "dwords [] = []" "dwords ((n, d) # xs) = n # (n + 4) # (n + 8) # dwords xs" "dwords (xs @ ys) = dwords xs @ dwords ys"
  by (simp_all add: swords_def dwords_def)

lemma node_before_simps [simp]: "node_before b [] = b" "node_before b ((n, d) # xs) = node_before n xs"
  by (simp_all add: node_before_def)

lemma sseg_append: "sseg m p e (xs @ ys) \<longleftrightarrow> (\<exists>q. sseg m p q xs \<and> sseg m q e ys)"
  by (induction xs arbitrary: p) fastforce+

lemma dseg_append: "dseg m b p e (xs @ ys) \<longleftrightarrow> (\<exists>q. dseg m b p q xs \<and> dseg m (node_before b xs) q e ys)"
  by (induction xs arbitrary: b p) fastforce+

lemma sseg_frame: "sseg m p e xs \<Longrightarrow> \<forall>a \<in> set (swords xs). m' a = m a \<Longrightarrow> sseg m' p e xs"
  by (induction xs arbitrary: p) auto

lemma dseg_frame: "dseg m b p e xs \<Longrightarrow> \<forall>a \<in> set (dwords xs). m' a = m a \<Longrightarrow> dseg m' b p e xs"
  by (induction xs arbitrary: b p) auto

lemma sseg_mapped: "sseg m p e xs \<Longrightarrow> a \<in> set (swords xs) \<Longrightarrow> m a \<noteq> None"
  by (induction xs arbitrary: p) auto

lemma dseg_mapped: "dseg m b p e xs \<Longrightarrow> a \<in> set (dwords xs) \<Longrightarrow> m a \<noteq> None"
  by (induction xs arbitrary: b p) auto

lemma aligned_field:
  assumes "4 dvd unat (n :: u32)"
  shows "4 dvd unat (n + 4)" "4 dvd unat (n + 8)"
proof -
  have "(4 :: nat) dvd 2 ^ 32" by simp
  then show "4 dvd unat (n + 4)" "4 dvd unat (n + 8)" using assms by (simp_all add: unat_word_ariths dvd_mod)
qed

lemma field_distinct [simp]: "(n :: u32) + 4 \<noteq> n" "n + 8 \<noteq> n" "n + 8 \<noteq> n + 4" "n \<noteq> n + 4" "n \<noteq> n + 8" "n + 4 \<noteq> n + 8"
  by simp_all

lemma mapped_apart: "m a \<noteq> None \<Longrightarrow> m b = None \<Longrightarrow> a \<noteq> b"
  by auto

text \<open>Storing to a mapped field.\<close>

lemma store_mapped: "4 dvd unat a \<Longrightarrow> m a \<noteq> None \<Longrightarrow> store a v m = Some (m(a \<mapsto> v))"
  by (simp add: store_def)

lemma new_node:
  assumes "alloc_ok A" "A z m = Some (a, m')"
  shows "a \<noteq> 0" "4 dvd unat a" "m b \<noteq> None \<Longrightarrow> m' b = m b"
    "8 \<le> unat z \<Longrightarrow> m a = None \<and> m (a + 4) = None \<and> m' a \<noteq> None \<and> m' (a + 4) \<noteq> None"
    "12 \<le> unat z \<Longrightarrow> m (a + 8) = None \<and> m' (a + 8) \<noteq> None"
proof -
  note ok = assms(1) [unfolded alloc_ok_def, rule_format, OF assms(2)]
  show "a \<noteq> 0" "4 dvd unat a" "m b \<noteq> None \<Longrightarrow> m' b = m b" using ok by blast+
  have i: "m (a + 4 * of_nat i) = None \<and> m' (a + 4 * of_nat i) \<noteq> None" if "i < unat z div 4" for i using ok that by blast
  show "m a = None \<and> m (a + 4) = None \<and> m' a \<noteq> None \<and> m' (a + 4) \<noteq> None" if "8 \<le> unat z"
    using i [of 0] i [of 1] that by simp
  show "m (a + 8) = None \<and> m' (a + 8) \<noteq> None" if "12 \<le> unat z"
    using i [of 2] that by simp
qed

section \<open>Singly linked lists\<close>

lemma slist_prepend:
  assumes pool: "alloc_ok (mono_mempool_alloc M)" and room: "mono_mempool_alloc M 8 m \<noteq> None" and l: "sseg m l 0 xs"
  obtains n m' where "g_slist_prepend_mempool M l d m = Some (n, m')" "sseg m' n 0 ((n, d) # xs)" "n \<notin> set (swords xs)"
    "n + 4 \<notin> set (swords xs)" "\<forall>a. m a \<noteq> None \<longrightarrow> m' a = m a"
proof -
  obtain n m1 where n: "mono_mempool_alloc M 8 m = Some (n, m1)" using room by auto
  note new = new_node [OF pool n, simplified]
  let ?m = "m1(n \<mapsto> d, n + 4 \<mapsto> l)"
  have run: "g_slist_prepend_mempool M l d m = Some (n, ?m)"
    using new aligned_field [OF new(2)] by (simp add: g_slist_prepend_mempool_def n data_field_def next_field_def store_mapped)
  have same: "\<forall>a. m a \<noteq> None \<longrightarrow> ?m a = m a" using new(3,4) by auto
  then have "sseg ?m l 0 xs" using sseg_frame [OF l] sseg_mapped [OF l] by blast
  then have "sseg ?m n 0 ((n, d) # xs)" using new(1,2) by simp
  moreover have "n \<notin> set (swords xs)" "n + 4 \<notin> set (swords xs)" using sseg_mapped [OF l] new(4) by blast+
  ultimately show thesis using that run same by blast
qed

lemma last_runs:
  assumes "sseg m p 0 (ys @ [(k, d)])"
  shows "last_node m p = Some k"
  using assms
proof (induction ys arbitrary: p)
  case Nil
  then show ?case using aligned_field by (subst last_node.simps) (simp add: next_field_def load_def)
next
  case (Cons y ys)
  obtain n e where y: "y = (n, e)" by (cases y)
  obtain q where q: "p = n" "4 dvd unat n" "m (n + 4) = Some q" "sseg m q 0 (ys @ [(k, d)])" using Cons.prems y by auto
  have "q \<noteq> 0" using q(4) by (cases ys) auto
  then show ?case using q Cons.IH [OF q(4)] aligned_field by (subst last_node.simps) (simp add: next_field_def load_def)
qed

lemma slist_append:
  assumes pool: "alloc_ok (mono_mempool_alloc M)" and room: "mono_mempool_alloc M 8 m \<noteq> None" and l: "sseg m l 0 xs" and dist: "distinct (swords xs)"
  obtains n p m' where "g_slist_append_mempool M l d m = Some (p, m')" "sseg m' p 0 (xs @ [(n, d)])" "xs \<noteq> [] \<Longrightarrow> p = l"
    "\<forall>a. m a \<noteq> None \<longrightarrow> a \<notin> set (swords xs) \<longrightarrow> m' a = m a" "distinct (swords (xs @ [(n, d)]))"
proof -
  obtain n m1 where n: "mono_mempool_alloc M 8 m = Some (n, m1)" using room by auto
  note new = new_node [OF pool n, simplified]
  let ?m = "m1(n \<mapsto> d, n + 4 \<mapsto> 0)"
  have same: "\<forall>a. m a \<noteq> None \<longrightarrow> ?m a = m a" using new(3,4) by auto
  have l': "sseg ?m l 0 xs" using sseg_frame [OF l] sseg_mapped [OF l] same by blast
  have apart: "n \<notin> set (swords xs)" "n + 4 \<notin> set (swords xs)" using sseg_mapped [OF l] new(4) by blast+
  show thesis
  proof (cases xs rule: rev_cases)
    case Nil
    then have "g_slist_append_mempool M l d m = Some (n, ?m)"
      using new aligned_field [OF new(2)] l by (simp add: g_slist_append_mempool_def n data_field_def next_field_def store_mapped)
    then show thesis using that [of n ?m n] Nil new same by simp
  next
    case (snoc ys y)
    obtain k e where y: "y = (k, e)" by (cases y)
    have last: "last_node ?m l = Some k" using l' snoc y last_runs by blast
    have k: "sseg ?m l k ys" "k \<noteq> 0" "4 dvd unat k" "?m k = Some e" "?m (k + 4) \<noteq> None"
      using l' snoc y by (auto simp: sseg_append)
    have "l \<noteq> 0" using l snoc y by (cases ys) auto
    let ?m' = "?m(k + 4 \<mapsto> n)"
    have run: "g_slist_append_mempool M l d m = Some (l, ?m')"
      using new aligned_field [OF new(2)] aligned_field [OF k(3)] \<open>l \<noteq> 0\<close> last k(5)
      by (simp add: g_slist_append_mempool_def n data_field_def next_field_def store_mapped del: fun_upd_apply)
        (simp add: store_mapped)
    have out: "k + 4 \<notin> set (swords ys)" "k + 4 \<noteq> n" "k + 4 \<noteq> n + 4" using dist snoc y apart by auto
    have "sseg ?m' l k ys" by (rule sseg_frame [OF k(1)]) (use out in auto)
    moreover have "sseg ?m' k 0 [(k, e), (n, d)]" using k new out by auto
    ultimately have "sseg ?m' l 0 (ys @ [(k, e), (n, d)])" unfolding sseg_append by blast
    then have "sseg ?m' l 0 (xs @ [(n, d)])" using snoc y by simp
    moreover have "\<forall>a. m a \<noteq> None \<longrightarrow> a \<notin> set (swords xs) \<longrightarrow> ?m' a = m a" using same snoc y by auto
    moreover have "distinct (swords (xs @ [(n, d)]))" using dist apart by simp
    ultimately show thesis using that run by blast
  qed
qed

section \<open>Doubly linked lists\<close>

text \<open>Putting a node between two segments: the fields around it are updated, the rest stays.\<close>

lemma dseg_splice:
  assumes left: "dseg m 0 h l ys" and right: "dseg m (node_before 0 ys) l 0 xs" and dist: "distinct (dwords (ys @ xs))"
    and new: "n \<noteq> 0" "4 dvd unat n" "m n = None" "m (n + 4) = None" "m (n + 8) = None"
    and m': "m' n = Some d" "m' (n + 8) = Some (node_before 0 ys)" "m' (n + 4) = Some l"
    and lnk: "ys \<noteq> [] \<Longrightarrow> m' (node_before 0 ys + 4) = Some n" "xs \<noteq> [] \<Longrightarrow> m' (l + 8) = Some n"
    and same: "\<And>a. m a \<noteq> None \<Longrightarrow> ys \<noteq> [] \<and> a = node_before 0 ys + 4 \<or> xs \<noteq> [] \<and> a = l + 8 \<or> m' a = m a"
  shows "dseg m' 0 (if ys = [] then n else h) 0 (ys @ (n, d) # xs)"
proof -
  have ymap: "m a \<noteq> None" if "a \<in> set (dwords ys)" for a using dseg_mapped [OF left that] .
  have xmap: "m a \<noteq> None" if "a \<in> set (dwords xs)" for a using dseg_mapped [OF right that] .
  have xs: "dseg m' n l 0 xs"
  proof (cases xs)
    case (Cons x zs)
    obtain k e where x: "x = (k, e)" by (cases x)
    obtain q where q: "l = k" "k \<noteq> 0" "4 dvd unat k" "m k = Some e" "m (k + 4) = Some q" "dseg m k q 0 zs"
      using right Cons x by auto
    have out: "a \<noteq> k + 8" "ys \<noteq> [] \<longrightarrow> a \<noteq> node_before 0 ys + 4" if "a \<in> set (k # (k + 4) # dwords zs)" for a
    proof -
      show "a \<noteq> k + 8" using dist Cons x that by auto
      have "node_before 0 ys + 4 \<in> set (dwords ys)" if "ys \<noteq> []"
        using that by (cases ys rule: rev_cases) (auto simp: node_before_def)
      then show "ys \<noteq> [] \<longrightarrow> a \<noteq> node_before 0 ys + 4" using dist Cons x that by auto
    qed
    have keep: "m' a = m a" if "a \<in> set (k # (k + 4) # dwords zs)" for a
      using same [of a] xmap [of a] out [OF that] that Cons x q(1) by auto
    then have "dseg m' k q 0 zs" by (intro dseg_frame [OF q(6)]) simp
    then show ?thesis using q Cons x keep lnk(2) by simp
  qed (use right in simp)
  have mid: "dseg m' (node_before 0 ys) n 0 ((n, d) # xs)" using xs new m' by simp
  show ?thesis
  proof (cases ys rule: rev_cases)
    case (snoc zs y)
    obtain k e where y: "y = (k, e)" by (cases y)
    have k: "dseg m 0 h k zs" "k \<noteq> 0" "4 dvd unat k" "m k = Some e" "m (k + 8) = Some (node_before 0 zs)" "m (k + 4) = Some l"
      using left snoc y by (auto simp: dseg_append)
    have out: "a \<noteq> k + 4" "xs \<noteq> [] \<longrightarrow> a \<noteq> l + 8" if "a \<in> set (k # (k + 8) # dwords zs)" for a
    proof -
      show "a \<noteq> k + 4" using dist snoc y that by auto
      have "l + 8 \<in> set (dwords xs)" if "xs \<noteq> []" using that right by (cases xs) auto
      then show "xs \<noteq> [] \<longrightarrow> a \<noteq> l + 8" using dist snoc y that by auto
    qed
    have keep: "m' a = m a" if "a \<in> set (k # (k + 8) # dwords zs)" for a
    proof -
      have "m a \<noteq> None" using that ymap [of a] snoc y by auto
      then show ?thesis using same [of a] out [OF that] snoc y by (auto simp: node_before_def)
    qed
    have "dseg m' 0 h k zs" by (rule dseg_frame [OF k(1)]) (use keep in simp)
    moreover have "dseg m' (node_before 0 zs) k n [y]" using k keep lnk(1) snoc y by (simp add: node_before_def)
    ultimately have "dseg m' 0 h n ys" using snoc dseg_append by blast
    then show ?thesis using mid snoc dseg_append by fastforce
  qed (use mid in simp)
qed

lemma dlist_prepend:
  assumes pool: "alloc_ok (mono_mempool_alloc M)" and room: "mono_mempool_alloc M 12 m \<noteq> None"
    and left: "dseg m 0 h l ys" and right: "dseg m (node_before 0 ys) l 0 xs" and dist: "distinct (dwords (ys @ xs))"
    and some: "xs = [] \<longrightarrow> ys = []"
  obtains n m' where "g_list_prepend_mempool M l d m = Some (n, m')" "dseg m' 0 (if ys = [] then n else h) 0 (ys @ (n, d) # xs)"
    "\<forall>a. m a \<noteq> None \<longrightarrow> a \<notin> set (dwords (ys @ xs)) \<longrightarrow> m' a = m a"
proof -
  obtain n m1 where n: "mono_mempool_alloc M 12 m = Some (n, m1)" using room by auto
  note new = new_node [OF pool n, simplified]
  let ?b = "node_before 0 ys"
  have b: "(?b \<noteq> 0) = (ys \<noteq> [])" "ys \<noteq> [] \<Longrightarrow> 4 dvd unat ?b \<and> m (?b + 4) \<noteq> None \<and> ?b + 4 \<in> set (dwords ys)"
  proof -
    show "(?b \<noteq> 0) = (ys \<noteq> [])" "ys \<noteq> [] \<Longrightarrow> 4 dvd unat ?b \<and> m (?b + 4) \<noteq> None \<and> ?b + 4 \<in> set (dwords ys)"
      using left by (cases ys rule: rev_cases; force simp: node_before_def dseg_append)+
  qed
  have l: "(l \<noteq> 0) = (xs \<noteq> [])" "xs \<noteq> [] \<Longrightarrow> 4 dvd unat l \<and> m (l + 8) = Some ?b \<and> l + 8 \<in> set (dwords xs)"
    using right by (cases xs; auto)+
  have bn: "(if l \<noteq> 0 then m (l + 8) else Some 0) = Some ?b" using l some by auto
  let ?m2 = "m1(n \<mapsto> d, n + 8 \<mapsto> ?b, n + 4 \<mapsto> l)"
  let ?m3 = "if ys \<noteq> [] then ?m2(?b + 4 \<mapsto> n) else ?m2"
  let ?m4 = "if xs \<noteq> [] then ?m3(l + 8 \<mapsto> n) else ?m3"
  have fresh: "a \<noteq> n \<and> a \<noteq> n + 4 \<and> a \<noteq> n + 8" if "m a \<noteq> None" for a
    using new(4,5) that by (intro conjI mapped_apart [of m]) simp_all
  have out: "ys \<noteq> [] \<Longrightarrow> ?b + 4 \<noteq> n \<and> ?b + 4 \<noteq> n + 4 \<and> ?b + 4 \<noteq> n + 8" "xs \<noteq> [] \<Longrightarrow> l + 8 \<noteq> n \<and> l + 8 \<noteq> n + 4 \<and> l + 8 \<noteq> n + 8"
    using b(2) l(2) fresh [of "?b + 4"] fresh [of "l + 8"] by simp_all
  have apart: "ys \<noteq> [] \<Longrightarrow> xs \<noteq> [] \<Longrightarrow> ?b + 4 \<noteq> l + 8"
  proof -
    assume "ys \<noteq> []" "xs \<noteq> []"
    then have "?b + 4 \<in> set (dwords ys)" "l + 8 \<in> set (dwords xs)" using b(2) l(2) by simp_all
    moreover have "set (dwords ys) \<inter> set (dwords xs) = {}" using dist by simp
    ultimately show "?b + 4 \<noteq> l + 8" by (metis disjoint_iff)
  qed
  have s1: "store n d m1 = Some (m1(n \<mapsto> d))" using new(2,4) by (intro store_mapped) simp_all
  have s2: "load (m1(n \<mapsto> d)) (l + 8) = Some ?b" if "l \<noteq> 0"
    using l that new(3) out(2) aligned_field by (simp add: load_def)
  have s3: "store (n + 8) ?b (m1(n \<mapsto> d)) = Some (m1(n \<mapsto> d, n + 8 \<mapsto> ?b))" "store (n + 4) l (m1(n \<mapsto> d, n + 8 \<mapsto> ?b)) = Some ?m2"
    using new aligned_field by (auto intro!: store_mapped)
  have s4: "(if ?b \<noteq> 0 then store (?b + 4) n ?m2 else Some ?m2) = Some ?m3"
    using b new(3) aligned_field by (auto intro!: store_mapped)
  have s5: "(if l \<noteq> 0 then store (l + 8) n ?m3 else Some ?m3) = Some ?m4"
    using l new(3) aligned_field by (auto intro!: store_mapped)
  have "(if l \<noteq> 0 then load (m1(n \<mapsto> d)) (l + 8) else Some 0) = Some ?b" using s2 l(1) some by auto
  then have run: "g_list_prepend_mempool M l d m = Some (n, ?m4)"
    unfolding g_list_prepend_mempool_def data_field_def next_field_def prev_field_def n using s1 s3 s4 s5 by simp
  have "dseg ?m4 0 (if ys = [] then n else h) 0 (ys @ (n, d) # xs)"
  proof (rule dseg_splice [OF left right dist])
    show "n \<noteq> 0" "4 dvd unat n" "m n = None" "m (n + 4) = None" "m (n + 8) = None" using new by simp_all
    show "?m4 n = Some d" "?m4 (n + 8) = Some ?b" "?m4 (n + 4) = Some l" using out by auto
    show "ys \<noteq> [] \<Longrightarrow> ?m4 (?b + 4) = Some n" "xs \<noteq> [] \<Longrightarrow> ?m4 (l + 8) = Some n" using apart by auto
    show "ys \<noteq> [] \<and> a = ?b + 4 \<or> xs \<noteq> [] \<and> a = l + 8 \<or> ?m4 a = m a" if a: "m a \<noteq> None" for a
      using new(3) [of a] a fresh [OF a]
      by (cases "ys = []"; cases "xs = []"; cases "a = ?b + 4"; cases "a = l + 8") simp_all
  qed
  moreover have "?m4 a = m a" if "m a \<noteq> None" "a \<notin> set (dwords (ys @ xs))" for a
    using new(3) [of a] fresh [OF that(1)] b(2) l(2) that
    by (cases "ys = []"; cases "xs = []"; cases "a = ?b + 4"; cases "a = l + 8") simp_all
  ultimately show thesis using that run by blast
qed

text \<open>\<open>g_list_last\<close> finds the last node of a list, and nothing in an empty one.\<close>

definition last_ok :: "mempool_services \<Rightarrow> bool" where
  "last_ok M \<longleftrightarrow> (\<forall>m l xs. dseg m 0 l 0 xs \<longrightarrow> distinct (dwords xs) \<longrightarrow> g_list_last M l m = Some (node_before 0 xs))"

lemma dlist_append:
  assumes pool: "alloc_ok (mono_mempool_alloc0 M)" "zeroed (mono_mempool_alloc0 M)" "last_ok M"
    and room: "mono_mempool_alloc0 M 12 m \<noteq> None" and l: "dseg m 0 l 0 xs" and dist: "distinct (dwords xs)"
  obtains n p m' where "g_list_append_mempool M l d m = Some (p, m')" "dseg m' 0 p 0 (xs @ [(n, d)])" "xs \<noteq> [] \<Longrightarrow> p = l"
    "\<forall>a. m a \<noteq> None \<longrightarrow> a \<notin> set (dwords xs) \<longrightarrow> m' a = m a"
proof -
  obtain n m1 where n: "mono_mempool_alloc0 M 12 m = Some (n, m1)" using room by auto
  note new = new_node [OF pool(1) n, simplified]
  have "\<forall>i < unat (12 :: u32) div 4. m1 (n + 4 * of_nat i) = Some 0" using pool(2) n unfolding zeroed_def by blast
  then have zero: "m1 (n + 4) = Some 0" by (auto dest!: spec [of _ 1])
  let ?b = "node_before 0 xs"
  have b: "(?b \<noteq> 0) = (xs \<noteq> [])" "xs \<noteq> [] \<Longrightarrow> 4 dvd unat ?b \<and> m (?b + 4) \<noteq> None \<and> ?b + 4 \<in> set (dwords xs)"
  proof -
    show "(?b \<noteq> 0) = (xs \<noteq> [])" "xs \<noteq> [] \<Longrightarrow> 4 dvd unat ?b \<and> m (?b + 4) \<noteq> None \<and> ?b + 4 \<in> set (dwords xs)"
      using l by (cases xs rule: rev_cases; force simp: node_before_def dseg_append)+
  qed
  have same: "(m1(n \<mapsto> d)) a = m a" if "m a \<noteq> None" for a using new(3,4) that by auto
  have "dseg (m1(n \<mapsto> d)) 0 l 0 xs" by (rule dseg_frame [OF l]) (use same dseg_mapped [OF l] in blast)
  then have last: "g_list_last M l (m1(n \<mapsto> d)) = Some ?b" using pool(3) dist unfolding last_ok_def by blast
  let ?m2 = "m1(n \<mapsto> d, n + 8 \<mapsto> ?b)"
  let ?m3 = "if xs \<noteq> [] then ?m2(?b + 4 \<mapsto> n) else ?m2"
  have fresh: "a \<noteq> n \<and> a \<noteq> n + 4 \<and> a \<noteq> n + 8" if "m a \<noteq> None" for a
    using new(4,5) that by (intro conjI mapped_apart [of m]) simp_all
  have out: "xs \<noteq> [] \<Longrightarrow> ?b + 4 \<noteq> n \<and> ?b + 4 \<noteq> n + 4 \<and> ?b + 4 \<noteq> n + 8"
    using b(2) fresh [of "?b + 4"] by simp
  have s1: "store n d m1 = Some (m1(n \<mapsto> d))" using new(2,4) by (intro store_mapped) simp_all
  have s2: "store (n + 8) ?b (m1(n \<mapsto> d)) = Some ?m2" using new aligned_field by (auto intro!: store_mapped)
  have s3: "(if ?b \<noteq> 0 then store (?b + 4) n ?m2 else Some ?m2) = Some ?m3"
    using b new(3) aligned_field by (auto intro!: store_mapped)
  have run: "g_list_append_mempool M l d m = Some (if l \<noteq> 0 then l else n, ?m3)"
    unfolding g_list_append_mempool_def data_field_def next_field_def prev_field_def n using s1 s2 s3 last by simp
  have p: "(l \<noteq> 0) = (xs \<noteq> [])" using l by (cases xs) auto
  have "dseg ?m3 0 (if xs = [] then n else l) 0 (xs @ (n, d) # [])"
  proof (rule dseg_splice [OF l])
    show "dseg m ?b 0 0 []" "distinct (dwords (xs @ []))" using dist by simp_all
    show "n \<noteq> 0" "4 dvd unat n" "m n = None" "m (n + 4) = None" "m (n + 8) = None" using new by simp_all
    show "?m3 n = Some d" "?m3 (n + 8) = Some ?b" "?m3 (n + 4) = Some 0" using out zero by auto
    show "xs \<noteq> [] \<Longrightarrow> ?m3 (?b + 4) = Some n" by simp
    show "xs \<noteq> [] \<and> a = ?b + 4 \<or> [] \<noteq> [] \<and> a = 0 + 8 \<or> ?m3 a = m a" if a: "m a \<noteq> None" for a
    proof -
      have "a \<noteq> n" "a \<noteq> n + 8" using fresh [OF a] by simp_all
      then show ?thesis using new(3) [of a] a by (cases "xs = []"; cases "a = ?b + 4") simp_all
    qed
  qed simp
  moreover have "(if xs = [] then n else l) = (if l \<noteq> 0 then l else n)" using p by simp
  ultimately have list: "dseg ?m3 0 (if l \<noteq> 0 then l else n) 0 (xs @ [(n, d)])" by (simp only:)
  have "?m3 a = m a" if "m a \<noteq> None" "a \<notin> set (dwords xs)" for a
    using new(3) [of a] fresh [OF that(1)] b(2) that by (cases "xs = []"; cases "a = ?b + 4") simp_all
  then show thesis using that [OF run list] p by simp
qed

section \<open>The properties\<close>

text \<open>
  The singly linked pool lists are sequences: prepending returns a list with the new element in front and writes to no
  word that was in use; appending returns a list with it at the end, which starts at the same node unless the list was
  empty, and writes to no word in use outside the list. Both end.
\<close>

lemma mempool_slist_refines:
  assumes "alloc_ok (mono_mempool_alloc M)" "mono_mempool_alloc M 8 m \<noteq> None" "sseg m l 0 xs" "distinct (swords xs)"
  shows "(\<exists>n m'. g_slist_prepend_mempool M l d m = Some (n, m') \<and> sseg m' n 0 ((n, d) # xs) \<and> (\<forall>a. m a \<noteq> None \<longrightarrow> m' a = m a)) \<and>
    (\<exists>n p m'. g_slist_append_mempool M l d m = Some (p, m') \<and> sseg m' p 0 (xs @ [(n, d)]) \<and> (xs \<noteq> [] \<longrightarrow> p = l) \<and>
       (\<forall>a. m a \<noteq> None \<longrightarrow> a \<notin> set (swords xs) \<longrightarrow> m' a = m a))"
proof
  show "\<exists>n m'. g_slist_prepend_mempool M l d m = Some (n, m') \<and> sseg m' n 0 ((n, d) # xs) \<and> (\<forall>a. m a \<noteq> None \<longrightarrow> m' a = m a)"
    using slist_prepend [OF assms(1-3)] by metis
  show "\<exists>n p m'. g_slist_append_mempool M l d m = Some (p, m') \<and> sseg m' p 0 (xs @ [(n, d)]) \<and> (xs \<noteq> [] \<longrightarrow> p = l) \<and>
       (\<forall>a. m a \<noteq> None \<longrightarrow> a \<notin> set (swords xs) \<longrightarrow> m' a = m a)"
    by (rule slist_append [OF assms]) blast
qed

text \<open>
  C35: The doubly linked pool lists: prepending to the tail \<open>xs\<close> of a list \<open>ys @ xs\<close>, given by its first node, puts the new
  element between \<open>ys\<close> and \<open>xs\<close>, with all links to and from it; appending puts it at the end. Neither writes to a
  word in use outside the list.
\<close>

theorem mempool_list_refines:
  assumes "alloc_ok (mono_mempool_alloc M)" "mono_mempool_alloc M 12 m \<noteq> None"
    and "alloc_ok (mono_mempool_alloc0 M)" "zeroed (mono_mempool_alloc0 M)" "last_ok M" "mono_mempool_alloc0 M 12 m \<noteq> None"
    and "dseg m 0 h l ys" "dseg m (node_before 0 ys) l 0 xs" "distinct (dwords (ys @ xs))" "xs = [] \<longrightarrow> ys = []"
  shows "(\<exists>n m'. g_list_prepend_mempool M l d m = Some (n, m') \<and> dseg m' 0 (if ys = [] then n else h) 0 (ys @ (n, d) # xs) \<and>
       (\<forall>a. m a \<noteq> None \<longrightarrow> a \<notin> set (dwords (ys @ xs)) \<longrightarrow> m' a = m a)) \<and>
    (\<exists>n p m'. g_list_append_mempool M h d m = Some (p, m') \<and> dseg m' 0 p 0 ((ys @ xs) @ [(n, d)]) \<and> (ys @ xs \<noteq> [] \<longrightarrow> p = h) \<and>
       (\<forall>a. m a \<noteq> None \<longrightarrow> a \<notin> set (dwords (ys @ xs)) \<longrightarrow> m' a = m a))"
proof
  show "\<exists>n m'. g_list_prepend_mempool M l d m = Some (n, m') \<and> dseg m' 0 (if ys = [] then n else h) 0 (ys @ (n, d) # xs) \<and>
       (\<forall>a. m a \<noteq> None \<longrightarrow> a \<notin> set (dwords (ys @ xs)) \<longrightarrow> m' a = m a)"
    by (rule dlist_prepend [OF assms(1,2,7-10), of d]) blast
  have "dseg m 0 h 0 (ys @ xs)" using assms(7,8) dseg_append by blast
  then show "\<exists>n p m'. g_list_append_mempool M h d m = Some (p, m') \<and> dseg m' 0 p 0 ((ys @ xs) @ [(n, d)]) \<and> (ys @ xs \<noteq> [] \<longrightarrow> p = h) \<and>
       (\<forall>a. m a \<noteq> None \<longrightarrow> a \<notin> set (dwords (ys @ xs)) \<longrightarrow> m' a = m a)"
    by (rule dlist_append [OF assms(3-6) _ assms(9), of h d]) blast
qed

section \<open>Witnesses\<close>

definition demo_pool_alloc :: "u32 \<Rightarrow> memory \<Rightarrow> (u32 \<times> memory) option" where
  "demo_pool_alloc z m =
    (if unat z \<le> 12 \<and> m 0x1000 = None \<and> m 0x1004 = None \<and> m 0x1008 = None
     then Some (0x1000, m(0x1000 \<mapsto> 0, 0x1004 \<mapsto> 0, 0x1008 \<mapsto> 0)) else None)"

definition demo_pool :: mempool_services where
  "demo_pool = \<lparr>mono_mempool_alloc = demo_pool_alloc, mono_mempool_alloc0 = demo_pool_alloc,
     g_list_last = (\<lambda>l m. if l = 0 then Some 0 else last_node m l)\<rparr>"

lemma demo_pool_words:
  assumes "demo_pool_alloc z m = Some (a, m')" "i < unat z div 4"
  shows "m (a + 4 * of_nat i) = None \<and> m' (a + 4 * of_nat i) = Some 0"
proof -
  have z: "unat z \<le> 12" "m 0x1000 = None" "m 0x1004 = None" "m 0x1008 = None" "a = 0x1000" "m' = m(0x1000 \<mapsto> 0, 0x1004 \<mapsto> 0, 0x1008 \<mapsto> 0)"
    using assms(1) by (auto simp: demo_pool_alloc_def split: if_splits)
  then have "i = 0 \<or> i = 1 \<or> i = 2" using assms(2) by auto
  then show ?thesis using z by auto
qed

lemma demo_pool_ok: "alloc_ok (mono_mempool_alloc demo_pool)" "alloc_ok (mono_mempool_alloc0 demo_pool)"
    "zeroed (mono_mempool_alloc0 demo_pool)"
proof -
  have place: "a = 0x1000 \<and> (\<forall>b. m b \<noteq> None \<longrightarrow> m' b = m b)" if "demo_pool_alloc z m = Some (a, m')" for z m a m'
    using that by (auto simp: demo_pool_alloc_def split: if_splits)
  have "alloc_ok demo_pool_alloc"
    unfolding alloc_ok_def
  proof (intro allI impI)
    fix z m a m' assume run: "demo_pool_alloc z m = Some (a, m')"
    show "a \<noteq> 0 \<and> 4 dvd unat a \<and> (\<forall>i < unat z div 4. m (a + 4 * of_nat i) = None \<and> m' (a + 4 * of_nat i) \<noteq> None) \<and>
        (\<forall>b. m b \<noteq> None \<longrightarrow> m' b = m b)"
      using place [OF run] demo_pool_words [OF run] by simp
  qed
  then show "alloc_ok (mono_mempool_alloc demo_pool)" "alloc_ok (mono_mempool_alloc0 demo_pool)" by (simp_all add: demo_pool_def)
  show "zeroed (mono_mempool_alloc0 demo_pool)" using demo_pool_words unfolding zeroed_def by (simp add: demo_pool_def)
qed

lemma demo_last_ok: "last_ok demo_pool"
  unfolding last_ok_def
proof (intro allI impI)
  fix m l xs assume l: "dseg m 0 l 0 xs" "distinct (dwords xs)"
  have single: "sseg m p e ys" if "dseg m b p e ys" for b p e ys
    using that by (induction ys arbitrary: b p) auto
  show "g_list_last demo_pool l m = Some (node_before 0 xs)"
  proof (cases xs rule: rev_cases)
    case (snoc ys y)
    obtain k e where y: "y = (k, e)" by (cases y)
    have "l \<noteq> 0" using l(1) snoc y by (cases ys) auto
    moreover have "last_node m l = Some k" using single [OF l(1)] snoc y last_runs by blast
    ultimately show ?thesis using snoc y by (simp add: demo_pool_def node_before_def)
  qed (use l in \<open>simp add: demo_pool_def\<close>)
qed

definition demo_slist :: memory where
  "demo_slist = [0x200 \<mapsto> 7, 0x204 \<mapsto> 0x300, 0x300 \<mapsto> 9, 0x304 \<mapsto> 0]"

lemma mempool_slist_refines_witness:
  "\<exists>n m'. g_slist_prepend_mempool demo_pool 0x200 5 demo_slist = Some (n, m') \<and> sseg m' n 0 [(n, 5), (0x200, 7), (0x300, 9)]"
proof -
  have "sseg demo_slist 0x200 0 [(0x200, 7), (0x300, 9)]" "distinct (swords [(0x200, 7), (0x300, 9)])"
    by (simp_all add: demo_slist_def)
  moreover have "mono_mempool_alloc demo_pool 8 demo_slist \<noteq> None"
    by (simp add: demo_pool_def demo_pool_alloc_def demo_slist_def)
  ultimately show ?thesis using mempool_slist_refines [OF demo_pool_ok(1), of demo_slist "0x200" "[(0x200, 7), (0x300, 9)]" 5] by blast
qed

definition demo_dlist :: memory where
  "demo_dlist = [0x200 \<mapsto> 7, 0x204 \<mapsto> 0x300, 0x208 \<mapsto> 0, 0x300 \<mapsto> 9, 0x304 \<mapsto> 0, 0x308 \<mapsto> 0x200]"

theorem mempool_list_refines_witness:
  "\<exists>n m'. g_list_prepend_mempool demo_pool 0x300 5 demo_dlist = Some (n, m') \<and> dseg m' 0 0x200 0 [(0x200, 7), (n, 5), (0x300, 9)]"
proof -
  have "dseg demo_dlist 0 0x200 0x300 [(0x200, 7)]" "dseg demo_dlist (node_before 0 [(0x200, 7)]) 0x300 0 [(0x300, 9)]"
      "distinct (dwords ([(0x200, 7)] @ [(0x300, 9)]))"
    by (simp_all add: demo_dlist_def)
  moreover have "mono_mempool_alloc demo_pool 12 demo_dlist \<noteq> None" "mono_mempool_alloc0 demo_pool 12 demo_dlist \<noteq> None"
    by (simp_all add: demo_pool_def demo_pool_alloc_def demo_dlist_def)
  ultimately have "\<exists>n m'. g_list_prepend_mempool demo_pool 0x300 5 demo_dlist = Some (n, m') \<and>
      dseg m' 0 (if [(0x200 :: u32, 7 :: u32)] = [] then n else 0x200) 0 ([(0x200, 7)] @ (n, 5) # [(0x300, 9)])"
    using mempool_list_refines [OF demo_pool_ok(1) _ demo_pool_ok(2,3) demo_last_ok, of demo_dlist "0x200" "0x300" "[(0x200, 7)]" "[(0x300, 9)]" 5]
    by blast
  then show ?thesis by simp
qed

end
