(* ===== verification/ReflectionCache.thy ===== *)
theory ReflectionCache
  imports Prelude
begin

text \<open>
  The cache of reflection objects (\<open>mono/metadata/reflection-cache.h\<close>): one object for an item and the class it is
  reflected through, whoever asks for it. Any number of threads call its functions on one domain; a read or write of the domain, or
  of its hash table, and each lock operation is one step, and steps interleave in any order. The hash table and the construction
  of objects are parameters. A handle is the object it holds, so that the variants with and without handles are the same steps;
  null is 0.
\<close>

section \<open>State\<close>

record ReflectedEntry =
  item :: u32
  refclass :: u32

record 't reflection_services =
  new_table :: 't
  table_lookup :: "'t \<Rightarrow> ReflectedEntry \<Rightarrow> u32"
  table_insert :: "'t \<Rightarrow> ReflectedEntry \<Rightarrow> u32 \<Rightarrow> 't"
  gc_is_moving :: bool

datatype entry_source = Heap_entry | Mempool_entry

record 't refl_domain =
  refobject_hash :: "'t option"
  domain_lock :: "nat option"
  entries :: "(entry_source \<times> ReflectedEntry) list"     \<comment> \<open>allocated so far\<close>

section \<open>Entries\<close>

definition alloc_reflected_entry :: "'t reflection_services \<Rightarrow> ReflectedEntry \<Rightarrow> 't refl_domain \<Rightarrow> 't refl_domain" where
  "alloc_reflected_entry S e d =
    d\<lparr>entries := (if \<not> gc_is_moving S then Heap_entry else Mempool_entry, e) # entries d\<rparr>"

text \<open>An entry of the memory pool lives as long as its domain.\<close>

definition free_reflected_entry :: "'t reflection_services \<Rightarrow> ReflectedEntry \<Rightarrow> 't refl_domain \<Rightarrow> 't refl_domain" where
  "free_reflected_entry S e d =
    (if \<not> gc_is_moving S then d\<lparr>entries := remove1 (Heap_entry, e) (entries d)\<rparr> else d)"

section \<open>The functions, one shared access at a time\<close>

text \<open>The object is the argument of \<open>cache_object\<close> up to the insertion, then its result. \<open>Refl_return None\<close> reports an error.\<close>

datatype refl_point =
    Refl_idle
  | Check_hash
  | Check_lookup
  | Check_done u32
  | Construct
  | Cache_lock u32
  | Cache_create u32
  | Cache_lookup u32
  | Cache_insert u32
  | Cache_unlock u32
  | Refl_return "u32 option"

datatype constructed = Construct_failed | Constructed u32

text \<open>A result of \<open>None\<close> is the use of a hash table that is not there.\<close>

fun cache_object :: "'t reflection_services \<Rightarrow> nat \<Rightarrow> ReflectedEntry \<Rightarrow> refl_point \<Rightarrow> 't refl_domain \<Rightarrow> (refl_point \<times> 't refl_domain) option" where
  "cache_object S t pe (Cache_lock ob) d =
    (if domain_lock d = None then Some (Cache_create ob, d\<lparr>domain_lock := Some t\<rparr>) else Some (Cache_lock ob, d))"
| "cache_object S t pe (Cache_create ob) d =
    (case refobject_hash d of
       None \<Rightarrow> Some (Cache_lookup ob, d\<lparr>refobject_hash := Some (new_table S)\<rparr>)
     | Some h \<Rightarrow> Some (Cache_lookup ob, d))"
| "cache_object S t pe (Cache_lookup ob) d = do {
     h \<leftarrow> refobject_hash d;
     let obj = table_lookup S h pe;
     Some (if obj = 0 then Cache_insert ob else Cache_unlock obj, d) }"
| "cache_object S t pe (Cache_insert ob) d = do {
     let d = alloc_reflected_entry S pe d;
     h \<leftarrow> refobject_hash d;
     Some (Cache_unlock ob, d\<lparr>refobject_hash := Some (table_insert S h pe ob)\<rparr>) }"
| "cache_object S t pe (Cache_unlock obj) d = Some (Refl_return (Some obj), d\<lparr>domain_lock := None\<rparr>)"
| "cache_object S t pe p d = Some (p, d)"

definition cache_object_handle ::
  "'t reflection_services \<Rightarrow> nat \<Rightarrow> ReflectedEntry \<Rightarrow> refl_point \<Rightarrow> 't refl_domain \<Rightarrow> (refl_point \<times> 't refl_domain) option" where
  "cache_object_handle = cache_object"

fun check_object_handle :: "'t reflection_services \<Rightarrow> ReflectedEntry \<Rightarrow> refl_point \<Rightarrow> 't refl_domain \<Rightarrow> refl_point option" where
  "check_object_handle S e Check_hash d = (case refobject_hash d of None \<Rightarrow> Some (Check_done 0) | Some h \<Rightarrow> Some Check_lookup)"
| "check_object_handle S e Check_lookup d = do { h \<leftarrow> refobject_hash d; Some (Check_done (table_lookup S h e)) }"
| "check_object_handle S e p d = Some p"

text \<open>What follows the check in \<open>check_or_construct_handle\<close>; the result of \<open>construct\<close> is an argument.\<close>

fun check_or_construct_handle :: "constructed \<Rightarrow> refl_point \<Rightarrow> refl_point" where
  "check_or_construct_handle c (Check_done obj) = (if obj \<noteq> 0 then Refl_return (Some obj) else Construct)"
| "check_or_construct_handle c Construct =
    (case c of Construct_failed \<Rightarrow> Refl_return None
     | Constructed obj \<Rightarrow> if obj = 0 then Refl_return (Some obj) else Cache_lock obj)"
| "check_or_construct_handle c p = p"

section \<open>Threads\<close>

datatype refl_call = Call_check | Call_cache u32 | Call_check_or_construct

record refl_thread =
  entry_of :: ReflectedEntry
  call_of :: refl_call
  at_point :: refl_point

text \<open>What threads offered for an entry, by construction or as an argument, and what they got for it.\<close>

record 't refl_state =
  domain_of :: "'t refl_domain"
  threads :: "nat \<Rightarrow> refl_thread"
  offered :: "(ReflectedEntry \<times> u32) set"
  results :: "(ReflectedEntry \<times> u32) set"

fun first_point :: "refl_call \<Rightarrow> refl_point" where
  "first_point (Call_cache ob) = Cache_lock ob"
| "first_point _ = Check_hash"

definition thread_point :: "'t reflection_services \<Rightarrow> nat \<Rightarrow> constructed \<Rightarrow> refl_thread \<Rightarrow> 't refl_domain \<Rightarrow> (refl_point \<times> 't refl_domain) option" where
  "thread_point S t c th d =
    (case at_point th of
       Check_hash \<Rightarrow> map_option (\<lambda>p. (p, d)) (check_object_handle S (entry_of th) (at_point th) d)
     | Check_lookup \<Rightarrow> map_option (\<lambda>p. (p, d)) (check_object_handle S (entry_of th) (at_point th) d)
     | Check_done obj \<Rightarrow> Some (if call_of th = Call_check_or_construct then check_or_construct_handle c (at_point th) else Refl_return (Some obj), d)
     | Construct \<Rightarrow> Some (check_or_construct_handle c (at_point th), d)
     | _ \<Rightarrow> cache_object_handle S t (entry_of th) (at_point th) d)"

datatype refl_event = Refl_begin nat refl_call ReflectedEntry | Refl_run nat constructed

fun offers :: "refl_thread \<Rightarrow> constructed \<Rightarrow> (ReflectedEntry \<times> u32) set" where
  "offers th (Constructed ob) = (if at_point th = Construct \<and> ob \<noteq> 0 then {(entry_of th, ob)} else {})"
| "offers th Construct_failed = {}"

definition gets :: "ReflectedEntry \<Rightarrow> refl_point \<Rightarrow> (ReflectedEntry \<times> u32) set" where
  "gets e p = {(e, ob) | ob. p = Refl_return (Some ob) \<and> ob \<noteq> 0}"

definition refl_rest :: "refl_point \<Rightarrow> bool" where
  "refl_rest p \<longleftrightarrow> p = Refl_idle \<or> (\<exists>r. p = Refl_return r)"

fun refl_exec :: "'t reflection_services \<Rightarrow> refl_event \<Rightarrow> 't refl_state \<Rightarrow> 't refl_state option" where
  "refl_exec S (Refl_begin t call e) s =
    (if refl_rest (at_point (threads s t)) \<and> call \<noteq> Call_cache 0
     then Some (s\<lparr>threads := (threads s)(t := \<lparr>entry_of = e, call_of = call, at_point = first_point call\<rparr>),
            offered := (case call of Call_cache ob \<Rightarrow> insert (e, ob) (offered s) | _ \<Rightarrow> offered s)\<rparr>)
     else Some s)"
| "refl_exec S (Refl_run t c) s =
    (let th = threads s t in
     map_option (\<lambda>(p, d). \<lparr>domain_of = d, threads = (threads s)(t := th\<lparr>at_point := p\<rparr>), offered = offered s \<union> offers th c,
         results = results s \<union> gets (entry_of th) p\<rparr>)
       (thread_point S t c th (domain_of s)))"

definition refl_start :: "'t refl_state" where
  "refl_start = \<lparr>domain_of = \<lparr>refobject_hash = None, domain_lock = None, entries = []\<rparr>,
     threads = (\<lambda>_. \<lparr>entry_of = \<lparr>item = 0, refclass = 0\<rparr>, call_of = Call_check, at_point = Refl_idle\<rparr>), offered = {}, results = {}\<rparr>"

fun refl_run :: "'t reflection_services \<Rightarrow> refl_event list \<Rightarrow> 't refl_state \<Rightarrow> 't refl_state option" where
  "refl_run S [] s = Some s"
| "refl_run S (ev # evs) s = do { s \<leftarrow> refl_exec S ev s; refl_run S evs s }"

end
