(* ===== verification/ReflectionCacheProps.thy ===== *)
theory ReflectionCacheProps
  imports ReflectionCache
begin

text \<open>
  Whatever the interleaving, an entry has one object: the invariant of the cache and what follows for its callers.
\<close>

section \<open>The invariant\<close>

definition table_ok :: "'t reflection_services \<Rightarrow> bool" where
  "table_ok S \<longleftrightarrow> (\<forall>e. table_lookup S (new_table S) e = 0) \<and>
     (\<forall>h e ob e'. table_lookup S h e = 0 \<longrightarrow> ob \<noteq> 0 \<longrightarrow>
        table_lookup S (table_insert S h e ob) e' = (if e' = e then ob else table_lookup S h e'))"

definition cached :: "'t reflection_services \<Rightarrow> 't refl_domain \<Rightarrow> ReflectedEntry \<Rightarrow> u32" where
  "cached S d e = (case refobject_hash d of None \<Rightarrow> 0 | Some h \<Rightarrow> table_lookup S h e)"

fun in_lock :: "refl_point \<Rightarrow> bool" where
  "in_lock (Cache_create ob) = True"
| "in_lock (Cache_lookup ob) = True"
| "in_lock (Cache_insert ob) = True"
| "in_lock (Cache_unlock ob) = True"
| "in_lock p = False"

fun argument :: "refl_point \<Rightarrow> u32 option" where
  "argument (Cache_lock ob) = Some ob"
| "argument (Cache_create ob) = Some ob"
| "argument (Cache_lookup ob) = Some ob"
| "argument (Cache_insert ob) = Some ob"
| "argument p = None"

definition needs_table :: "refl_point \<Rightarrow> bool" where
  "needs_table p \<longleftrightarrow> p = Check_lookup \<or> (\<exists>ob. p = Cache_lookup ob \<or> p = Cache_insert ob \<or> p = Cache_unlock ob)"

definition thread_ok :: "'t reflection_services \<Rightarrow> 't refl_domain \<Rightarrow> (ReflectedEntry \<times> u32) set \<Rightarrow> refl_thread \<Rightarrow> bool" where
  "thread_ok S d offs th \<longleftrightarrow>
     (needs_table (at_point th) \<longrightarrow> refobject_hash d \<noteq> None) \<and>
     (\<forall>ob. argument (at_point th) = Some ob \<longrightarrow> ob \<noteq> 0 \<and> (entry_of th, ob) \<in> offs) \<and>
     (\<forall>ob. at_point th = Cache_insert ob \<longrightarrow> cached S d (entry_of th) = 0) \<and>
     (\<forall>ob. at_point th = Cache_unlock ob \<longrightarrow> ob \<noteq> 0 \<and> cached S d (entry_of th) = ob) \<and>
     (\<forall>ob. at_point th = Check_done ob \<or> at_point th = Refl_return (Some ob) \<longrightarrow> ob \<noteq> 0 \<longrightarrow> cached S d (entry_of th) = ob)"

definition cache_inv :: "'t reflection_services \<Rightarrow> 't refl_state \<Rightarrow> bool" where
  "cache_inv S s \<longleftrightarrow>
     (\<forall>t. in_lock (at_point (threads s t)) \<longleftrightarrow> domain_lock (domain_of s) = Some t) \<and>
     (\<forall>t. thread_ok S (domain_of s) (offered s) (threads s t)) \<and>
     (\<forall>e ob. (e, ob) \<in> results s \<longrightarrow> ob \<noteq> 0 \<and> cached S (domain_of s) e = ob) \<and>
     (\<forall>e. cached S (domain_of s) e \<noteq> 0 \<longrightarrow> (e, cached S (domain_of s) e) \<in> offered s) \<and>
     distinct (map snd (entries (domain_of s))) \<and>
     (\<forall>e. e \<in> snd ` set (entries (domain_of s)) \<longleftrightarrow> cached S (domain_of s) e \<noteq> 0)"

lemma cache_inv_start: "cache_inv S refl_start"
  by (simp add: cache_inv_def refl_start_def thread_ok_def needs_table_def cached_def)

section \<open>Domains that grow\<close>

text \<open>What a domain knows stays: its table, and the object of an entry.\<close>

definition domain_grows :: "'t reflection_services \<Rightarrow> 't refl_domain \<Rightarrow> 't refl_domain \<Rightarrow> bool" where
  "domain_grows S d d' \<longleftrightarrow> (refobject_hash d \<noteq> None \<longrightarrow> refobject_hash d' \<noteq> None) \<and>
     (\<forall>e. cached S d e \<noteq> 0 \<longrightarrow> cached S d' e = cached S d e)"

lemma grows_cached: "domain_grows S d d' \<Longrightarrow> cached S d e \<noteq> 0 \<Longrightarrow> cached S d' e = cached S d e"
  unfolding domain_grows_def by blast

lemma domain_grows_lock: "domain_grows S d (d\<lparr>domain_lock := l\<rparr>)"
  by (simp add: domain_grows_def cached_def)

lemma domain_grows_create: "table_ok S \<Longrightarrow> refobject_hash d = None \<Longrightarrow> domain_grows S d (d\<lparr>refobject_hash := Some (new_table S)\<rparr>)"
  by (simp add: domain_grows_def cached_def)

text \<open>A thread outside the lock keeps what it knows when the domain grows.\<close>

lemma thread_ok_grows:
  assumes "thread_ok S d offs th" "domain_grows S d d'" "offs \<subseteq> offs'" "\<not> in_lock (at_point th)"
  shows "thread_ok S d' offs' th"
  using assms unfolding thread_ok_def domain_grows_def by (cases "at_point th") auto

text \<open>
  One thread steps: if it alone may hold the lock before and after, knows what its new point says, and the domain grows, then the
  invariant is kept.
\<close>

definition step_ok :: "'t reflection_services \<Rightarrow> nat \<Rightarrow> refl_thread \<Rightarrow> 't refl_domain \<Rightarrow> (ReflectedEntry \<times> u32) set \<Rightarrow> refl_point \<Rightarrow> 't refl_domain \<Rightarrow> (ReflectedEntry \<times> u32) set \<Rightarrow> bool" where
  "step_ok S t th d offs p d' offs' \<longleftrightarrow>
     domain_grows S d d' \<and> offs \<subseteq> offs' \<and> (in_lock (at_point th) \<or> in_lock p \<or> d' = d) \<and> thread_ok S d' offs' (th\<lparr>at_point := p\<rparr>) \<and>
     (if in_lock p then domain_lock d' = Some t \<and> (in_lock (at_point th) \<or> domain_lock d = None)
      else domain_lock d' = (if in_lock (at_point th) then None else domain_lock d)) \<and>
     (\<forall>e. cached S d' e \<noteq> 0 \<longrightarrow> cached S d e \<noteq> 0 \<or> (e, cached S d' e) \<in> offs') \<and>
     ((entries d' = entries d \<and> (\<forall>e. cached S d' e \<noteq> 0 \<longrightarrow> cached S d e \<noteq> 0)) \<or>
      (\<exists>src. entries d' = (src, entry_of th) # entries d \<and> cached S d (entry_of th) = 0 \<and>
         (\<forall>e. cached S d' e \<noteq> 0 \<longleftrightarrow> cached S d e \<noteq> 0 \<or> e = entry_of th)))"

lemma thread_ok_offers: "thread_ok S d offs th \<Longrightarrow> offs \<subseteq> offs' \<Longrightarrow> thread_ok S d offs' th"
  unfolding thread_ok_def by blast

lemma cache_inv_step:
  assumes inv: "cache_inv S s" and th: "th = threads s t"
    and step: "step_ok S t th (domain_of s) (offered s) p d' offs'"
  shows "cache_inv S \<lparr>domain_of = d', threads = (threads s)(t := th\<lparr>at_point := p\<rparr>), offered = offs',
    results = results s \<union> gets (entry_of th) p\<rparr>"
proof -
  let ?d = "domain_of s"
  have lock: "in_lock (at_point (threads s u)) \<longleftrightarrow> domain_lock ?d = Some u" and ok: "thread_ok S ?d (offered s) (threads s u)" for u
    using inv by (simp_all add: cache_inv_def)
  have grows: "domain_grows S ?d d'" "offered s \<subseteq> offs'" and new: "thread_ok S d' offs' (th\<lparr>at_point := p\<rparr>)"
    using step by (simp_all add: step_ok_def)
  have others: "\<not> in_lock (at_point (threads s u))" if "u \<noteq> t" "in_lock (at_point th) \<or> in_lock p" for u
    using lock that step th by (auto simp: step_ok_def split: if_splits)
  have "in_lock (at_point (((threads s)(t := th\<lparr>at_point := p\<rparr>)) u)) \<longleftrightarrow> domain_lock d' = Some u" for u
    using lock [of u] lock [of t] step th others [of u] by (cases "u = t") (auto simp: step_ok_def split: if_splits)
  moreover have "thread_ok S d' offs' (((threads s)(t := th\<lparr>at_point := p\<rparr>)) u)" for u
  proof (cases "u = t \<or> \<not> in_lock (at_point (threads s u))")
    case True
    then show ?thesis using new thread_ok_grows [OF ok grows] by auto
  next
    case False
    then have "d' = ?d" using others step by (auto simp: step_ok_def)
    then show ?thesis using False thread_ok_offers [OF ok grows(2)] by simp
  qed
  moreover have "ob \<noteq> 0 \<and> cached S d' e = ob" if "(e, ob) \<in> results s \<union> gets (entry_of th) p" for e ob
    using that
  proof
    assume "(e, ob) \<in> results s"
    then have "ob \<noteq> 0" "cached S ?d e = ob" using inv unfolding cache_inv_def by blast+
    then show ?thesis using grows_cached [OF grows(1), of e] by simp
  next
    assume "(e, ob) \<in> gets (entry_of th) p"
    then have "p = Refl_return (Some ob)" "ob \<noteq> 0" "e = entry_of th" by (simp_all add: gets_def)
    then show ?thesis using new by (simp add: thread_ok_def)
  qed
  moreover have "(e, cached S d' e) \<in> offs'" if "cached S d' e \<noteq> 0" for e
  proof (cases "cached S ?d e = 0")
    case True
    then show ?thesis using step that by (auto simp: step_ok_def)
  next
    case False
    then have "cached S d' e = cached S ?d e" by (rule grows_cached [OF grows(1)])
    moreover have "(e, cached S ?d e) \<in> offered s" using inv False by (simp add: cache_inv_def)
    ultimately show ?thesis using grows(2) by auto
  qed
  moreover have "distinct (map snd (entries d')) \<and> (\<forall>e. e \<in> snd ` set (entries d') \<longleftrightarrow> cached S d' e \<noteq> 0)"
  proof -
    have old: "distinct (map snd (entries ?d))" "\<And>e. e \<in> snd ` set (entries ?d) \<longleftrightarrow> cached S ?d e \<noteq> 0"
      using inv by (simp_all add: cache_inv_def)
    have keep: "cached S ?d e \<noteq> 0 \<Longrightarrow> cached S d' e \<noteq> 0" for e using grows_cached [OF grows(1), of e] by simp
    consider "entries d' = entries ?d" "\<forall>e. cached S d' e \<noteq> 0 \<longrightarrow> cached S ?d e \<noteq> 0"
      | src where "entries d' = (src, entry_of th) # entries ?d" "cached S ?d (entry_of th) = 0"
          "\<forall>e. cached S d' e \<noteq> 0 \<longleftrightarrow> cached S ?d e \<noteq> 0 \<or> e = entry_of th"
      using step unfolding step_ok_def by blast
    then show ?thesis
    proof cases
      case 1
      then show ?thesis using old keep by metis
    next
      case (2 src)
      then have "entry_of th \<notin> snd ` set (entries ?d)" using old(2) by blast
      then show ?thesis using 2 old by auto
    qed
  qed
  ultimately show ?thesis by (simp add: cache_inv_def)
qed

section \<open>Every step\<close>

lemma step_same:
  assumes "thread_ok S d offs' (th\<lparr>at_point := p\<rparr>)" "offs \<subseteq> offs'" "in_lock p = in_lock (at_point th)"
    "in_lock (at_point th) \<longleftrightarrow> domain_lock d = Some t"
  shows "step_ok S t th d offs p d offs'"
  using assms by (auto simp: step_ok_def domain_grows_def)

lemmas point_simps = thread_ok_def needs_table_def cached_def

lemma insert_step:
  assumes table: "table_ok S" and ok: "thread_ok S d offs th" and lock: "domain_lock d = Some t" and p: "at_point th = Cache_insert ob"
  shows "\<exists>d'. cache_object S t (entry_of th) (Cache_insert ob) d = Some (Cache_unlock ob, d') \<and> step_ok S t th d offs (Cache_unlock ob) d' offs"
proof -
  let ?e = "entry_of th"
  obtain h where h: "refobject_hash d = Some h" using ok p by (auto simp: thread_ok_def needs_table_def)
  have ob: "ob \<noteq> 0" "(?e, ob) \<in> offs" and none: "table_lookup S h ?e = 0"
    using ok p h by (auto simp: thread_ok_def cached_def)
  let ?src = "if \<not> gc_is_moving S then Heap_entry else Mempool_entry"
  let ?d = "d\<lparr>entries := (?src, ?e) # entries d, refobject_hash := Some (table_insert S h ?e ob)\<rparr>"
  have new: "cached S ?d e = (if e = ?e then ob else cached S d e)" for e
    using table ob(1) none h by (simp add: table_ok_def cached_def)
  have old: "cached S d ?e = 0" using none h by (simp add: cached_def)
  have run: "cache_object S t ?e (Cache_insert ob) d = Some (Cache_unlock ob, ?d)"
    using h by (simp add: alloc_reflected_entry_def Let_def)
  have grows: "domain_grows S d ?d" unfolding domain_grows_def new using old by simp
  have th: "thread_ok S ?d offs (th\<lparr>at_point := Cache_unlock ob\<rparr>)" unfolding thread_ok_def new using ob by (simp add: needs_table_def)
  have "step_ok S t th d offs (Cache_unlock ob) ?d offs"
    unfolding step_ok_def new using grows th lock p ob old by auto
  then show ?thesis using run by blast
qed

lemma thread_same: "th\<lparr>at_point := at_point th\<rparr> = th"
  by simp

lemma cache_step:
  assumes table: "table_ok S" and ok: "thread_ok S d offs th" and lock: "in_lock (at_point th) \<longleftrightarrow> domain_lock d = Some t"
  shows "\<exists>p d'. cache_object S t (entry_of th) (at_point th) d = Some (p, d') \<and> step_ok S t th d offs p d' offs"
proof -
  have stay: ?thesis if "cache_object S t (entry_of th) (at_point th) d = Some (at_point th, d)"
    using that step_same [where p = "at_point th" and th = th and offs = offs] ok lock by auto
  show ?thesis
  proof (cases "at_point th")
    case (Cache_lock ob)
    show ?thesis
    proof (cases "domain_lock d = None")
      case True
      have "step_ok S t th d offs (Cache_create ob) (d\<lparr>domain_lock := Some t\<rparr>) offs"
        using Cache_lock ok True domain_grows_lock [of S d "Some t"]
        by (auto simp: step_ok_def thread_ok_def needs_table_def cached_def)
      then show ?thesis using Cache_lock True by simp
    qed (use stay Cache_lock in auto)
  next
    case (Cache_create ob)
    show ?thesis
    proof (cases "refobject_hash d")
      case None
      have same: "cached S (d\<lparr>refobject_hash := Some (new_table S)\<rparr>) e = cached S d e" for e
        using table None by (simp add: table_ok_def cached_def)
      have "step_ok S t th d offs (Cache_lookup ob) (d\<lparr>refobject_hash := Some (new_table S)\<rparr>) offs"
        using Cache_create ok lock domain_grows_create [OF table None]
        by (auto simp: step_ok_def thread_ok_def needs_table_def same)
      then show ?thesis using Cache_create None by simp
    next
      case (Some h)
      then have "step_ok S t th d offs (Cache_lookup ob) d offs"
        using Cache_create ok lock by (intro step_same) (auto simp: thread_ok_def needs_table_def)
      then show ?thesis using Cache_create Some by simp
    qed
  next
    case (Cache_lookup ob)
    then obtain h where h: "refobject_hash d = Some h" using ok by (auto simp: thread_ok_def needs_table_def)
    let ?p = "if table_lookup S h (entry_of th) = 0 then Cache_insert ob else Cache_unlock (table_lookup S h (entry_of th))"
    have "step_ok S t th d offs ?p d offs"
      using Cache_lookup ok lock h by (intro step_same) (auto simp: thread_ok_def needs_table_def cached_def)
    then show ?thesis using Cache_lookup h by (simp add: Let_def)
  next
    case (Cache_insert ob)
    then show ?thesis using insert_step [OF table ok] lock by fastforce
  next
    case (Cache_unlock ob)
    have "step_ok S t th d offs (Refl_return (Some ob)) (d\<lparr>domain_lock := None\<rparr>) offs"
      using Cache_unlock ok lock domain_grows_lock [of S d None]
      by (auto simp: step_ok_def thread_ok_def needs_table_def cached_def)
    then show ?thesis using Cache_unlock by simp
  qed (use stay in simp_all)
qed

text \<open>A step outside of \<open>cache_object\<close> reads the domain at most.\<close>

lemma check_step:
  assumes ok: "thread_ok S d offs th" and lock: "in_lock (at_point th) \<longleftrightarrow> domain_lock d = Some t"
    and p: "at_point th = Check_hash \<or> at_point th = Check_lookup"
  shows "\<exists>p. check_object_handle S (entry_of th) (at_point th) d = Some p \<and> step_ok S t th d offs p d offs"
  using p
proof
  assume p: "at_point th = Check_hash"
  let ?p = "case refobject_hash d of None \<Rightarrow> Check_done 0 | Some h \<Rightarrow> Check_lookup"
  have "step_ok S t th d offs ?p d offs"
    using p ok lock by (intro step_same) (auto simp: thread_ok_def needs_table_def split: option.splits)
  then show ?thesis using p by (auto split: option.splits)
next
  assume p: "at_point th = Check_lookup"
  then obtain h where h: "refobject_hash d = Some h" using ok by (auto simp: thread_ok_def needs_table_def)
  have "step_ok S t th d offs (Check_done (table_lookup S h (entry_of th))) d offs"
    using p ok lock h by (intro step_same) (auto simp: thread_ok_def needs_table_def cached_def)
  then show ?thesis using p h by simp
qed

lemma thread_step:
  assumes table: "table_ok S" and inv: "cache_inv S s" and th: "th = threads s t"
  shows "\<exists>p d'. thread_point S t c th (domain_of s) = Some (p, d') \<and> step_ok S t th (domain_of s) (offered s) p d' (offered s \<union> offers th c)"
proof -
  let ?d = "domain_of s" and ?offs = "offered s \<union> offers th c"
  have ok: "thread_ok S ?d ?offs th" and lock: "in_lock (at_point th) \<longleftrightarrow> domain_lock ?d = Some t"
    using inv thread_ok_offers [of S ?d "offered s" th ?offs] unfolding th by (simp_all add: cache_inv_def)
  have mono: "step_ok S t th ?d ?offs p d' ?offs \<Longrightarrow> step_ok S t th ?d (offered s) p d' ?offs" for p d'
    by (auto simp: step_ok_def)
  show ?thesis
  proof (cases "at_point th")
    case Check_hash
    then show ?thesis using check_step [OF ok lock] mono by (auto simp: thread_point_def)
  next
    case Check_lookup
    then show ?thesis using check_step [OF ok lock] mono by (auto simp: thread_point_def)
  next
    case (Check_done ob)
    let ?p = "if call_of th = Call_check_or_construct then if ob \<noteq> 0 then Refl_return (Some ob) else Construct else Refl_return (Some ob)"
    have "step_ok S t th ?d ?offs ?p ?d ?offs"
      using Check_done ok lock by (intro step_same) (auto simp: thread_ok_def needs_table_def)
    moreover have "thread_point S t c th ?d = Some (?p, ?d)" using Check_done by (simp add: thread_point_def)
    ultimately show ?thesis using mono by blast
  next
    case Construct
    let ?p = "check_or_construct_handle c Construct"
    have "step_ok S t th ?d ?offs ?p ?d ?offs"
      using Construct ok lock by (intro step_same; cases c) (auto simp: thread_ok_def needs_table_def)
    moreover have "thread_point S t c th ?d = Some (?p, ?d)" using Construct by (simp add: thread_point_def)
    ultimately show ?thesis using mono by blast
  qed (use cache_step [OF table ok lock] mono in \<open>auto simp: thread_point_def cache_object_handle_def\<close>)
qed

lemma begin_keeps:
  assumes inv: "cache_inv S s" and rest: "refl_rest (at_point (threads s t))" "call \<noteq> Call_cache 0"
  shows "cache_inv S (s\<lparr>threads := (threads s)(t := \<lparr>entry_of = e, call_of = call, at_point = first_point call\<rparr>),
    offered := (case call of Call_cache ob \<Rightarrow> insert (e, ob) (offered s) | _ \<Rightarrow> offered s)\<rparr>)"
proof -
  let ?offs = "case call of Call_cache ob \<Rightarrow> insert (e, ob) (offered s) | _ \<Rightarrow> offered s"
  have "\<not> in_lock (at_point (threads s t))" using rest(1) by (auto simp: refl_rest_def)
  moreover have "\<not> in_lock (first_point call)" by (cases call) simp_all
  moreover have "offered s \<subseteq> ?offs" by (cases call) auto
  moreover have "thread_ok S (domain_of s) ?offs \<lparr>entry_of = e, call_of = call, at_point = first_point call\<rparr>"
    using rest(2) by (cases call) (auto simp: thread_ok_def needs_table_def)
  moreover have lock: "in_lock (at_point (threads s u)) \<longleftrightarrow> domain_lock (domain_of s) = Some u"
    and ok: "thread_ok S (domain_of s) (offered s) (threads s u)" for u
    using inv by (simp_all add: cache_inv_def)
  moreover have "thread_ok S (domain_of s) ?offs (threads s u)" for u
    using thread_ok_offers [OF ok] \<open>offered s \<subseteq> ?offs\<close> .
  moreover have "\<forall>e. cached S (domain_of s) e \<noteq> 0 \<longrightarrow> (e, cached S (domain_of s) e) \<in> ?offs"
    using inv \<open>offered s \<subseteq> ?offs\<close> unfolding cache_inv_def by blast
  ultimately show ?thesis using inv by (simp add: cache_inv_def)
qed

lemma exec_keeps:
  assumes table: "table_ok S" and inv: "cache_inv S s"
  shows "\<exists>t. refl_exec S ev s = Some t \<and> cache_inv S t"
proof (cases ev)
  case (Refl_begin t call e)
  then show ?thesis using begin_keeps [OF inv] inv by simp
next
  case (Refl_run t c)
  obtain p d' where p: "thread_point S t c (threads s t) (domain_of s) = Some (p, d')"
      "step_ok S t (threads s t) (domain_of s) (offered s) p d' (offered s \<union> offers (threads s t) c)"
    using thread_step [OF table inv refl] by blast
  show ?thesis using cache_inv_step [OF inv refl p(2)] p(1) Refl_run by (simp add: Let_def)
qed

lemma run_keeps:
  assumes "table_ok S" "cache_inv S s"
  shows "\<exists>t. refl_run S evs s = Some t \<and> cache_inv S t"
  using assms(2)
proof (induction evs arbitrary: s)
  case (Cons ev evs)
  obtain t where t: "refl_exec S ev s = Some t" "cache_inv S t" using exec_keeps [OF assms(1) Cons.prems] by blast
  then show ?case using Cons.IH [OF t(2)] by simp
qed simp

text \<open>
  C37: However the calls of any number of threads interleave, the cache never uses a hash table that is not there, every
  call that gets an object for an entry gets the same one, which some call has constructed or passed for that entry, and
  at most one hash table entry is allocated for each.
\<close>

theorem one_object_per_entry:
  assumes "table_ok S"
  shows "\<exists>s. refl_run S evs refl_start = Some s \<and>
    (\<forall>e ob ob'. (e, ob) \<in> results s \<longrightarrow> (e, ob') \<in> results s \<longrightarrow> ob = ob') \<and>
    results s \<subseteq> offered s \<and> distinct (map snd (entries (domain_of s)))"
proof -
  obtain s where s: "refl_run S evs refl_start = Some s" "cache_inv S s"
    using run_keeps [OF assms cache_inv_start] by blast
  have res: "(e, ob) \<in> results s \<Longrightarrow> ob \<noteq> 0 \<and> ob = cached S (domain_of s) e" for e ob
    using s(2) unfolding cache_inv_def by blast
  have off: "cached S (domain_of s) e \<noteq> 0 \<Longrightarrow> (e, cached S (domain_of s) e) \<in> offered s" for e
    using s(2) unfolding cache_inv_def by blast
  have "results s \<subseteq> offered s"
  proof
    fix x assume "x \<in> results s"
    then show "x \<in> offered s" using res [of "fst x" "snd x"] off [of "fst x"] by (cases x) simp
  qed
  moreover have "distinct (map snd (entries (domain_of s)))" using s(2) by (simp add: cache_inv_def)
  moreover have "ob = ob'" if "(e, ob) \<in> results s" "(e, ob') \<in> results s" for e ob ob'
    using res [OF that(1)] res [OF that(2)] by simp
  ultimately show ?thesis using s(1) by blast
qed

section \<open>A race\<close>

definition demo_tables :: "(ReflectedEntry \<Rightarrow> u32) reflection_services" where
  "demo_tables = \<lparr>new_table = (\<lambda>_. 0), table_lookup = (\<lambda>h. h), table_insert = (\<lambda>h e ob. h(e := ob)), gc_is_moving = False\<rparr>"

lemma demo_tables_ok: "table_ok demo_tables"
  by (simp add: table_ok_def demo_tables_def)

definition demo_entry :: ReflectedEntry where
  "demo_entry = \<lparr>item = 8, refclass = 16\<rparr>"

text \<open>Threads 1 and 2 both find nothing and construct an object each; thread 2 takes the lock first, both get its object.\<close>

definition race_events :: "refl_event list" where
  "race_events = (let go = (\<lambda>t. Refl_run t Construct_failed); begin' = (\<lambda>t. Refl_begin t Call_check_or_construct demo_entry) in
     [begin' 1, begin' 2, go 1, go 1, go 2, go 2, Refl_run 1 (Constructed 101), Refl_run 2 (Constructed 202),
      go 2, go 1, go 2, go 2, go 2, go 2, go 1, go 1, go 1, go 1])"

lemma race_results: "map_option results (refl_run demo_tables race_events refl_start) = Some {(demo_entry, 202)}"
  by (auto simp: race_events_def Let_def refl_start_def demo_tables_def thread_point_def cache_object_handle_def
      alloc_reflected_entry_def refl_rest_def gets_def fun_upd_def)

theorem one_object_per_entry_witness:
  "\<exists>s. refl_run demo_tables race_events refl_start = Some s \<and> results s = {(demo_entry, 202)} \<and> results s \<subseteq> offered s"
  using one_object_per_entry [OF demo_tables_ok, of race_events] race_results by auto

end
