(* ===== verification/Spec2Isabelle.thy ===== *)
theory Spec2Isabelle
  imports EnvProps IcallProps Lifecycle SampleProps ArmProps ArmVfpProps ListSortProps LazyInitProps RefcountProps QsortProps
    ArrayListProps DynArrayProps GcDescrProps CardTable CollectionProps ParallelDemo MajorDrain MajorCopyProps
    LinkedListSetProps BitSetProps MempoolListsProps ReflectionCacheProps
begin

text \<open>
  VitaMonoLoader: a library that starts the mono runtime inside a PlayStation Vita application,
  the class libraries and internal calls it registers, and the parts of the runtime's headers
  that contain code of their own. The target is a 32-bit ARM processor; machine integers are words
  of their width.

  Parts and how they interact. An application (\<open>VML_Sample1\<close>, \<open>VML_Sample2\<close>) loads
  the system modules, sets paths and calls \<open>VMLInitialize\<close> with its entry function. That
  starts a thread, which prepares the runtime (class libraries and their replaced internal calls
  from \<open>VMLCoreAssemblies\<close>), creates the root domain, calls the entry function and shuts the
  runtime down. Managed code reaches the replaced internal calls, two of which read and write the
  environment of \<open>environment.c\<close>. The code the runtime generates is written by the encoders of
  \<open>mono/arch/arm\<close>.

  Base theories.
  \<^item> \<open>Prelude\<close>: types, rule collections, facts on lists, strings and words.
  \<^item> \<open>CMem\<close>: the store of a C program as the environment uses it: blocks of characters, an
    allocator with its answers as a parameter, undefined behaviour as \<open>None\<close>.
  \<^item> \<open>Platform\<close>: the calls into the system and the runtime as a sequence of events; their
    answers are a parameter (record \<open>platform\<close>).
  \<^item> \<open>Bitfield\<close>: structs of bit fields in a word, with the locale \<open>layout\<close>, interpreted
    for every instruction struct.

  Environment (\<open>VMLCoreAssemblies/environment.c\<close>). \<open>Environment\<close> has the array of
  \<open>NAME=value\<close> strings and the operations over the store; \<open>EnvRefine\<close> the invariant and the
  abstract map; \<open>EnvApi\<close> the locale \<open>env_store\<close> of a map with lookup, update and removal,
  interpreted on the library's names and on the C library's; \<open>EnvProps\<close> memory safety,
  refinement, absence of leaks, error answers and round trips.

  Loader (\<open>VitaMonoLoader/main.c\<close>). \<open>Loader\<close> has every function, the static variables in
  the record \<open>vml_state\<close>; \<open>CoreAssemblies\<close> the registrations, the drawing bindings and the
  macros of \<open>VMLTools.h\<close>. \<open>LoaderProps\<close> shows the order of the calls on every branch;
  \<open>Lifecycle\<close> is the state machine of the threads with its invariants under interleaving;
  \<open>Samples\<close> and \<open>SampleProps\<close> model the two applications.

  Replaced internal calls (\<open>patches/mono/metadata\<close>). \<open>Icalls\<close> and \<open>IcallProps\<close>: the
  five functions over the environment; string conversions of the runtime and the bridge allocator
  are parameters.

  List sort (\<open>mono/eglib/sort.frag.h\<close>). \<open>ListSort\<close> is the merge sort over a heap of linked
  nodes, with the array of ranks and its uninitialised elements; its main loops are partial
  functions in which \<open>None\<close> is a run that does not return or goes wrong. \<open>ListSortProps\<close>
  refines it to a function on lists of addresses: it returns for every null-terminated list, keeps
  the nodes, orders them stably, and keeps the documented lengths of the ranks. The size of a node
  is a parameter; any size leaves at least one rank.

  Quick sort (\<open>mono/sgen/sgen-qsort.h\<close>). \<open>Qsort\<close> is the template over an array with 32-bit indices,
  undefined accesses as \<open>None\<close>; \<open>QsortProps\<close> shows that it returns and permutes the array for every
  reflexive comparison, sorts for a consistent one, and recurses at most logarithmically deep; ghost fields
  of the state count the active calls.

  Growable arrays (\<open>mono/metadata/sgen-dynarray.h\<close>). \<open>DynArray\<close> has the template over a heap of
  blocks, with the collector's allocator as a parameter, and its pointer and unordered-pointer
  layers; \<open>DynArrayProps\<close> refines it to lists, says what an addition does to the copies that share the buffer (growing
  frees it), and shows which layer keeps an array usable.

  Array list (\<open>mono/sgen/sgen-array-list.h\<close>). \<open>ArrayList\<close> has the addressing of the buckets, both
  definitions of the count of leading zeros, and the two loops over the slots; \<open>ArrayListProps\<close> shows
  that the slots of the indices partition the buckets and that the loops visit them in order.

  Object descriptors (\<open>mono/sgen/sgen-descriptor.h\<close>, \<open>sgen-scan-object.h\<close>). \<open>GcDescr\<close> has the kinds of
  descriptor, their fields and the loops that visit the references of an object; \<open>GcDescrProps\<close> relates
  the visited addresses to the bits of the descriptor.

  Nursery collector (\<open>mono/sgen\<close>). \<open>WordHeap\<close> is memory accessed in whole words; \<open>GcTags\<close> has the tagged
  pointers and the words of \<open>sgen-gc.h\<close>, \<open>GcHeap\<close> the objects in memory with their vtable words and sizes, \<open>GrayQueue\<close> the stack of objects
  to scan and its refinement to a list, \<open>CardTable\<close> the marked cards. \<open>MinorCopy\<close> has the collector:
  copying an object, updating a reference, scanning an object and draining the gray stack, each as a
  function on memory, gray queue and recorded calls. \<open>MinorCopyProps\<close> says what copying an object does to
  memory; \<open>Collection\<close> has the heap at the start and the invariant (every object is untouched, pinned or
  forwarded to a copy; copies are apart; what is decided is scanned or gray); \<open>CollectionProps\<close> shows that
  every operation keeps it and that a collection, which updates the roots and then drains the gray stack, as
  the comment of \<open>sgen-minor-copy-object.h\<close> describes it, returns, loses no reachable object, keeps
  the graph of the objects and leaves no reference to given-up memory; \<open>CollectionDemo\<close> is a heap on which
  the hypotheses hold. Parameters, with what the headers say of them: the allocator of promoted objects,
  pinning, the slow paths of the gray queue, the tables of the runtime. \<open>ParallelCopy\<close> has the copying of the parallel
  collector as steps of any number of workers, one shared access per step; \<open>ParallelCopyProps\<close> the invariant of the
  race and that every step keeps it, \<open>ParallelRace\<close> the reachable states and the bound of six steps for a call, and
  \<open>ParallelDemo\<close> the two properties with a race of two workers, evaluated.

  Major collector (\<open>mono/sgen/sgen-marksweep-drain-gray-stack.h\<close>). \<open>MajorMark\<close> has copying or marking an object, scanning and
  draining in the serial configurations, on the state of the nursery collector with marks added; \<open>MajorMarkProps\<close> the
  heap outside the nursery and the three-colour invariant of concurrent marking (a marked object is gray or all its slots are
  handled), \<open>MajorDrain\<close> that a phase of at most \<open>n\<close> drains of 32 objects, \<open>32 * n\<close> more than there are objects, ends with
  exactly the reachable objects marked; \<open>MajorCopyProps\<close> that with the world stopped it copies out of the nursery
  as the nursery collector does; \<open>MajorDemo\<close> a heap and services on which the hypotheses hold.

  Linked-list set (\<open>mono/utils/mono-linked-list-set.h\<close>). \<open>LinkedListSet\<close> has the plain iteration as a partial function and the
  safe one as steps of its thread, between which others may write anything but a marked head;
  \<open>LinkedListSetProps\<close> what holds under that interference, and, without it, the walk over a list that both compute, within
  six steps for a node.

  Bit set (\<open>mono/utils/monobitset.h\<close>) and pool lists (\<open>mono/metadata/mempool-internals.h\<close>). \<open>BitSet\<close> and \<open>BitSetProps\<close>: the macros
  on words refine sets of numbers. \<open>MempoolLists\<close> and \<open>MempoolListsProps\<close>: the list functions, with their
  updates of links in memory, refine sequences.

  Lazy initialisation (\<open>mono/utils/mono-lazy-init.h\<close>). \<open>LazyInit\<close> has the two operations as
  steps of any number of threads, one shared access per step; \<open>LazyInitProps\<close> the invariant of
  the reachable states, safety of the callbacks, termination of the wait under fair schedules and
  when the clean-up fails its assertion: only after it missed the start of an initialisation, and then for certain if it runs on
  while that lasts.

  Reflection cache (\<open>mono/metadata/reflection-cache.h\<close>). \<open>ReflectionCache\<close> has its functions as steps of any number of
  threads, one access to the domain per step, with the hash table and the constructors as parameters; \<open>ReflectionCacheProps\<close>
  the invariant under which everyone gets the same object for an entry, and a race of two threads, evaluated. No object is
  cached for null: \<open>check_or_construct_handle\<close> tests for it, and callers of \<open>cache_object\<close> pass an object.

  Reference counter (\<open>mono/utils/refcount.h\<close>). \<open>Refcount\<close> has its operations as steps of
  any number of threads, with ghost counters of what took effect; \<open>RefcountProps\<close> the exactness of the
  counter and the single call of the destructor up to \<open>2 ^ 32 - 2\<close> increments, and the overflow behind that.

  Instruction encoders (\<open>mono/arch/arm\<close>). \<open>ArmInstr\<close>: enumerations and instruction structs;
  \<open>ArmDefs\<close>: the macros that build a word; \<open>ArmCodegen\<close>, \<open>ArmDpi\<close>, \<open>ArmPseudo\<close>: the
  macros that emit into a buffer of words, where writing outside the buffer is undefined;
  \<open>ArmProps\<close>: what each family of macros emits read back through the structs, with the fields to which operands are cut
  and the shift that is ignored, ranges of offsets, and the macros that cannot work. \<open>ArmVfp\<close> and
  \<open>ArmVfpProps\<close>: the same for floating point.

  Not modelled: the mono runtime itself (its headers declare it; its functions are parameters),
  debug logging except the trace hook, the encoders of other processors, vendored headers (zlib,
  valgrind, dlmalloc), generated tables, build files, identifier lists and prebuilt libraries, and
  the managed sample programs. Of the headers with code of their own, those of the
  handle stack, of class and metadata accessors and of the locks are left out. Of the collector,
  statistics, logging and the binary protocol are left out, of its major collector the parallel configurations and the
  evacuation of blocks beyond the copy of one object.
\<close>

end
